(* ===== verification/Prelude.thy ===== *)
theory Prelude
  imports Complex_Main "HOL-Library.Word" "HOL-Library.Sublist" "HOL-Library.List_Lexorder"
    "HOL-Library.Char_ord"
begin

text \<open>
  Shared vocabulary of the development: the type synonyms of the model, Rust's \<open>Result\<close> as a
  sum type with the early-return loops built on it, the few \<open>str\<close> operations the sources use
  (over UTF-8 bytes), decimal printing and parsing of unsigned integers, and the list lemmas
  that several components need.
\<close>

named_theorems result_simps \<open>rewriting of early returns and of the loops that use them\<close>

section \<open>Types\<close>

type_synonym u8 = "8 word"
type_synonym u32 = "32 word"
type_synonym u64 = "64 word"
type_synonym uuid = "128 word"
type_synonym timestamp = int

text \<open>
  A Rust \<open>String\<close> is its UTF-8 byte sequence, one \<^typ>\<open>char\<close> per byte, so that \<open>len()\<close> is
  \<^const>\<open>length\<close> and the derived \<open>Ord\<close> is the lexicographic order of the library on lists.
\<close>

section \<open>Results and early returns\<close>

abbreviation Err :: "'e \<Rightarrow> 'e + 'a" where "Err \<equiv> Inl"
abbreviation Ok :: "'a \<Rightarrow> 'e + 'a" where "Ok \<equiv> Inr"

text \<open>\<open>e?\<close> followed by the rest of the function.\<close>

fun and_then :: "'e + 'a \<Rightarrow> ('a \<Rightarrow> 'e + 'b) \<Rightarrow> 'e + 'b" where
  "and_then (Inl e) f = Inl e"
| "and_then (Inr a) f = f a"

fun map_err :: "('e \<Rightarrow> 'f) \<Rightarrow> 'e + 'a \<Rightarrow> 'f + 'a" where
  "map_err g (Inl e) = Inl (g e)"
| "map_err g (Inr a) = Inr a"

fun map_ok :: "('a \<Rightarrow> 'b) \<Rightarrow> 'e + 'a \<Rightarrow> 'e + 'b" where
  "map_ok g (Inl e) = Inl e"
| "map_ok g (Inr a) = Inr (g a)"

definition ok_or :: "'a option \<Rightarrow> 'e \<Rightarrow> 'e + 'a" where
  "ok_or opt e = (case opt of None \<Rightarrow> Err e | Some a \<Rightarrow> Ok a)"

text \<open>\<open>if bad { return Err(e) }\<close> followed by the rest.\<close>

definition reject :: "bool \<Rightarrow> 'e \<Rightarrow> 'e + unit" where
  "reject bad e = (if bad then Err e else Ok ())"

definition is_ok :: "'e + 'a \<Rightarrow> bool" where
  "is_ok r = (case r of Inl _ \<Rightarrow> False | Inr _ \<Rightarrow> True)"

text \<open>A \<open>for\<close> loop whose body may return early, without and with loop state.\<close>

fun try_for :: "('a \<Rightarrow> 'e + unit) \<Rightarrow> 'a list \<Rightarrow> 'e + unit" where
  "try_for f [] = Ok ()"
| "try_for f (x # xs) = and_then (f x) (\<lambda>_. try_for f xs)"

fun try_fold :: "('s \<Rightarrow> 'a \<Rightarrow> 'e + 's) \<Rightarrow> 's \<Rightarrow> 'a list \<Rightarrow> 'e + 's" where
  "try_fold f s [] = Ok s"
| "try_fold f s (x # xs) = and_then (f s x) (\<lambda>s'. try_fold f s' xs)"

lemma and_then_eq_Ok_iff [result_simps]:
  "and_then r f = Ok b \<longleftrightarrow> (\<exists>a. r = Ok a \<and> f a = Ok b)"
  by (cases r) auto

lemma and_then_eq_Err_iff [result_simps]:
  "and_then r f = Err e \<longleftrightarrow> r = Err e \<or> (\<exists>a. r = Ok a \<and> f a = Err e)"
  by (cases r) auto

lemma and_then_assoc: "and_then (and_then r f) g = and_then r (\<lambda>a. and_then (f a) g)"
  by (cases r) auto

lemma and_then_cong [fundef_cong]:
  "r = r' \<Longrightarrow> (\<And>a. r' = Ok a \<Longrightarrow> f a = f' a) \<Longrightarrow> and_then r f = and_then r' f'"
  by (cases r') auto

lemma map_err_eq_Ok_iff [result_simps, simp]: "map_err g r = Ok a \<longleftrightarrow> r = Ok a"
  by (cases r) auto

lemma map_err_eq_Err_iff [result_simps]: "map_err g r = Err e \<longleftrightarrow> (\<exists>e'. r = Err e' \<and> e = g e')"
  by (cases r) auto

lemma map_ok_eq_Ok_iff [result_simps]: "map_ok g r = Ok b \<longleftrightarrow> (\<exists>a. r = Ok a \<and> b = g a)"
  by (cases r) auto

lemma map_ok_eq_Err_iff [result_simps, simp]: "map_ok g r = Err e \<longleftrightarrow> r = Err e"
  by (cases r) auto

lemma reject_eq_Ok_iff [result_simps, simp]: "reject bad e = Ok u \<longleftrightarrow> \<not> bad"
  by (simp add: reject_def)

lemma reject_eq_Err_iff [result_simps, simp]: "reject bad e = Err e' \<longleftrightarrow> bad \<and> e' = e"
  by (auto simp: reject_def)

lemma ok_or_eq_Ok_iff [result_simps, simp]: "ok_or opt e = Ok a \<longleftrightarrow> opt = Some a"
  by (auto simp: ok_or_def split: option.splits)

lemma ok_or_eq_Err_iff [result_simps, simp]: "ok_or opt e = Err e' \<longleftrightarrow> opt = None \<and> e' = e"
  by (auto simp: ok_or_def split: option.splits)

lemma is_ok_simps [simp]: "is_ok (Err e) = False" "is_ok (Ok a) = True"
  by (simp_all add: is_ok_def)

lemma not_Ok_obtain_Err: "(\<And>a. r \<noteq> Ok a) \<Longrightarrow> \<exists>e. r = Err e"
  by (cases r) auto

lemma try_for_eq_Ok_iff [result_simps]: "try_for f xs = Ok u \<longleftrightarrow> (\<forall>x \<in> set xs. f x = Ok ())"
  by (induction xs) (auto simp: result_simps)

lemma try_for_eq_ErrD: "try_for f xs = Err e \<Longrightarrow> \<exists>x \<in> set xs. f x = Err e"
  by (induction xs) (auto simp: result_simps)

lemma try_fold_append:
  "try_fold f s (xs @ ys) = and_then (try_fold f s xs) (\<lambda>s'. try_fold f s' ys)"
  by (induction xs arbitrary: s) (simp_all add: and_then_assoc)

text \<open>A state invariant of a loop with early return.\<close>

lemma try_fold_invariant:
  assumes "try_fold f s xs = Ok s'" and "P s"
    and "\<And>s x s''. x \<in> set xs \<Longrightarrow> P s \<Longrightarrow> f s x = Ok s'' \<Longrightarrow> P s''"
  shows "P s'"
  using assms
proof (induction xs arbitrary: s)
  case (Cons x xs)
  from Cons.prems(1) obtain t where "f s x = Ok t" "try_fold f t xs = Ok s'"
    by (auto simp: result_simps)
  with Cons show ?case by auto
qed auto

lemma try_fold_eq_ErrD:
  assumes "try_fold f s xs = Err e"
  shows "\<exists>ys x zs t. xs = ys @ x # zs \<and> try_fold f s ys = Ok t \<and> f t x = Err e"
  using assms
proof (induction xs arbitrary: s)
  case (Cons x xs)
  show ?case
  proof (cases "f s x")
    case (Inl e')
    with Cons.prems have "x # xs = [] @ x # xs \<and> try_fold f s [] = Ok s \<and> f s x = Err e" by simp
    then show ?thesis by blast
  next
    case (Inr t)
    with Cons obtain ys y zs u where
      "xs = ys @ y # zs" "try_fold f t ys = Ok u" "f u y = Err e" by fastforce
    with Inr have "x # xs = (x # ys) @ y # zs \<and> try_fold f s (x # ys) = Ok u \<and> f u y = Err e"
      by simp
    then show ?thesis by blast
  qed
qed auto

section \<open>Strings\<close>

text \<open>The UTF-8 encodings of the code points with the Unicode property White\_Space, which is what
  \<open>str::trim\<close> removes at both ends.\<close>

definition white_space :: "string list" where
  "white_space =
    [[CHR 0x09], [CHR 0x0A], [CHR 0x0B], [CHR 0x0C], [CHR 0x0D], [CHR 0x20],
     [CHR 0xC2, CHR 0x85], [CHR 0xC2, CHR 0xA0], [CHR 0xE1, CHR 0x9A, CHR 0x80],
     [CHR 0xE2, CHR 0x80, CHR 0x80], [CHR 0xE2, CHR 0x80, CHR 0x81],
     [CHR 0xE2, CHR 0x80, CHR 0x82], [CHR 0xE2, CHR 0x80, CHR 0x83],
     [CHR 0xE2, CHR 0x80, CHR 0x84], [CHR 0xE2, CHR 0x80, CHR 0x85],
     [CHR 0xE2, CHR 0x80, CHR 0x86], [CHR 0xE2, CHR 0x80, CHR 0x87],
     [CHR 0xE2, CHR 0x80, CHR 0x88], [CHR 0xE2, CHR 0x80, CHR 0x89],
     [CHR 0xE2, CHR 0x80, CHR 0x8A], [CHR 0xE2, CHR 0x80, CHR 0xA8],
     [CHR 0xE2, CHR 0x80, CHR 0xA9], [CHR 0xE2, CHR 0x80, CHR 0xAF],
     [CHR 0xE2, CHR 0x81, CHR 0x9F], [CHR 0xE3, CHR 0x80, CHR 0x80]]"

definition strip_prefix :: "string \<Rightarrow> string \<Rightarrow> string option" where
  "strip_prefix p s = (if prefix p s then Some (drop (length p) s) else None)"

function strip_many :: "string list \<Rightarrow> string \<Rightarrow> string" where
  "strip_many ws s =
     (case find (\<lambda>w. w \<noteq> [] \<and> prefix w s) ws of
        None \<Rightarrow> s
      | Some w \<Rightarrow> strip_many ws (drop (length w) s))"
  by pat_completeness auto
termination
  by (relation "measure (\<lambda>(ws, s). length s)") (auto simp: find_Some_iff prefix_def)

declare strip_many.simps [simp del]

definition trim_start :: "string \<Rightarrow> string" where
  "trim_start s = strip_many white_space s"

definition trim_end :: "string \<Rightarrow> string" where
  "trim_end s = rev (strip_many (map rev white_space) (rev s))"

definition trim :: "string \<Rightarrow> string" where
  "trim s = trim_end (trim_start s)"

abbreviation blank :: "string \<Rightarrow> bool" where "blank s \<equiv> trim s = []"

lemma strip_many_Nil [simp]: "strip_many ws [] = []"
proof -
  have "find (\<lambda>w. w \<noteq> [] \<and> prefix w []) ws = None"
    by (simp add: find_None_iff)
  then show ?thesis by (subst strip_many.simps) simp
qed

lemma strip_many_suffix: "suffix (strip_many ws s) s"
proof (induction ws s rule: strip_many.induct)
  case (1 ws s)
  show ?case
  proof (cases "find (\<lambda>w. w \<noteq> [] \<and> prefix w s) ws")
    case None
    then show ?thesis by (simp add: strip_many.simps [of ws s])
  next
    case (Some w)
    with 1 have "suffix (strip_many ws (drop (length w) s)) (drop (length w) s)" by simp
    then have "suffix (strip_many ws (drop (length w) s)) s"
      using suffix_drop suffix_order.trans by blast
    with Some show ?thesis by (simp add: strip_many.simps [of ws s])
  qed
qed

lemma strip_many_idem [simp]: "strip_many ws (strip_many ws s) = strip_many ws s"
proof (induction ws s rule: strip_many.induct)
  case (1 ws s)
  then show ?case
    by (cases "find (\<lambda>w. w \<noteq> [] \<and> prefix w s) ws")
      (simp_all add: strip_many.simps [of ws s])
qed

lemma trim_Nil [simp]: "trim [] = []"
  by (simp add: trim_def trim_start_def trim_end_def)

lemma length_trim_le: "length (trim s) \<le> length s"
proof -
  have "length (strip_many ws t) \<le> length t" for ws t
    using strip_many_suffix suffix_length_le by blast
  then have "length (trim_start s) \<le> length s" and "length (trim_end t) \<le> length t" for t
    by (metis trim_start_def, metis trim_end_def length_rev)
  then show ?thesis unfolding trim_def using le_trans by blast
qed

lemma not_blank_not_Nil: "\<not> blank s \<Longrightarrow> s \<noteq> []"
  by auto

text \<open>A string that starts and ends with a visible ASCII character is already trimmed.\<close>

definition visible :: "char \<Rightarrow> bool" where
  "visible c = (33 \<le> (of_char c :: nat) \<and> (of_char c :: nat) \<le> 126)"

lemma white_space_invisible:
  "list_all (\<lambda>w. w \<noteq> [] \<and> \<not> visible (hd w) \<and> \<not> visible (last w)) white_space"
  by code_simp

lemma strip_many_fixed:
  assumes "s = [] \<or> (\<forall>w \<in> set ws. w \<noteq> [] \<longrightarrow> hd w \<noteq> hd s)"
  shows "strip_many ws s = s"
proof -
  have "\<not> (w \<noteq> [] \<and> prefix w s)" if "w \<in> set ws" for w
    using assms that by (cases w; cases s) auto
  then have "find (\<lambda>w. w \<noteq> [] \<and> prefix w s) ws = None"
    by (simp add: find_None_iff)
  then show ?thesis by (subst strip_many.simps) simp
qed

lemma trim_visible:
  assumes "s \<noteq> []" "visible (hd s)" "visible (last s)"
  shows "trim s = s"
proof -
  have "trim_start s = s"
    unfolding trim_start_def
    using assms white_space_invisible by (intro strip_many_fixed) (auto simp: list_all_iff)
  moreover have "strip_many (map rev white_space) (rev s) = rev s"
    using assms white_space_invisible
    by (intro strip_many_fixed) (auto simp: list_all_iff hd_rev)
  ultimately show ?thesis by (simp add: trim_def trim_end_def)
qed

lemma strip_many_visible:
  assumes "\<And>w. w \<in> set ws \<Longrightarrow> \<not> (\<exists>c \<in> set w. visible c)" "c \<in> set s" "visible c"
  shows "c \<in> set (strip_many ws s)"
  using assms
proof (induction ws s rule: strip_many.induct)
  case (1 ws s)
  show ?case
  proof (cases "find (\<lambda>w. w \<noteq> [] \<and> prefix w s) ws")
    case (Some w)
    then have w: "w \<in> set ws" "prefix w s" by (auto simp: find_Some_iff)
    then have "s = w @ drop (length w) s" by (auto simp: prefix_def)
    with 1(2-4) w(1) have "c \<in> set (drop (length w) s)" by (metis Un_iff set_append)
    with 1 Some show ?thesis by (simp add: strip_many.simps [of ws s])
  qed (use 1 in \<open>simp add: strip_many.simps [of ws s]\<close>)
qed

lemma white_space_all_invisible: "list_all (list_all (\<lambda>c. \<not> visible c)) white_space"
  by code_simp

lemma visible_not_blank: "c \<in> set s \<Longrightarrow> visible c \<Longrightarrow> trim s \<noteq> []"
proof -
  assume c: "c \<in> set s" "visible c"
  have ws: "\<And>w. w \<in> set white_space \<Longrightarrow> \<not> (\<exists>c \<in> set w. visible c)"
    using white_space_all_invisible by (auto simp: list_all_iff)
  then have "c \<in> set (trim_start s)" unfolding trim_start_def using c by (rule strip_many_visible)
  then have "c \<in> set (strip_many (map rev white_space) (rev (trim_start s)))"
    using ws c(2) by (intro strip_many_visible) auto
  then show ?thesis unfolding trim_def trim_end_def by force
qed

text \<open>Code equation: the common case of a string that needs no trimming is decided first.\<close>

lemma trim_code [code]:
  "trim [] = []"
  "trim (c # s) = (if visible c \<and> visible (last (c # s)) then c # s else trim_end (trim_start (c # s)))"
  by (simp_all add: trim_visible) (simp add: trim_def)

definition is_ascii_digit :: "char \<Rightarrow> bool" where
  "is_ascii_digit c = (48 \<le> (of_char c :: nat) \<and> (of_char c :: nat) \<le> 57)"

definition is_ascii_lowercase :: "char \<Rightarrow> bool" where
  "is_ascii_lowercase c = (97 \<le> (of_char c :: nat) \<and> (of_char c :: nat) \<le> 122)"

definition is_ascii_uppercase :: "char \<Rightarrow> bool" where
  "is_ascii_uppercase c = (65 \<le> (of_char c :: nat) \<and> (of_char c :: nat) \<le> 90)"

definition is_ascii_alphanumeric :: "char \<Rightarrow> bool" where
  "is_ascii_alphanumeric c = (is_ascii_digit c \<or> is_ascii_lowercase c \<or> is_ascii_uppercase c)"

definition is_ascii_hexdigit :: "char \<Rightarrow> bool" where
  "is_ascii_hexdigit c =
     (is_ascii_digit c \<or> (97 \<le> (of_char c :: nat) \<and> (of_char c :: nat) \<le> 102) \<or>
      (65 \<le> (of_char c :: nat) \<and> (of_char c :: nat) \<le> 70))"

definition to_ascii_uppercase :: "char \<Rightarrow> char" where
  "to_ascii_uppercase c = (if is_ascii_lowercase c then char_of ((of_char c :: nat) - 32) else c)"

definition to_ascii_lowercase :: "char \<Rightarrow> char" where
  "to_ascii_lowercase c = (if is_ascii_uppercase c then char_of ((of_char c :: nat) + 32) else c)"

definition eq_ignore_ascii_case :: "string \<Rightarrow> string \<Rightarrow> bool" where
  "eq_ignore_ascii_case s t = (map to_ascii_lowercase s = map to_ascii_lowercase t)"

fun join :: "string \<Rightarrow> string list \<Rightarrow> string" where
  "join sep [] = []"
| "join sep [s] = s"
| "join sep (s # t # ts) = s @ sep @ join sep (t # ts)"

subsection \<open>Decimal numbers\<close>

text \<open>\<open>Display\<close> of an unsigned integer, and \<open>str::parse\<close> to one that must stay below a bound
  (an optional \<open>+\<close>, then at least one digit).\<close>

fun show_nat :: "nat \<Rightarrow> string" where
  "show_nat n = (if n < 10 then [char_of (48 + n)] else show_nat (n div 10) @ [char_of (48 + n mod 10)])"

declare show_nat.simps [simp del]

definition digit_value :: "char \<Rightarrow> nat" where
  "digit_value c = (of_char c :: nat) - 48"

definition digits_value :: "string \<Rightarrow> nat" where
  "digits_value s = foldl (\<lambda>v c. 10 * v + digit_value c) 0 s"

definition parse_unsigned :: "nat \<Rightarrow> string \<Rightarrow> nat option" where
  "parse_unsigned bound s =
     (let ds = (case s of c # cs \<Rightarrow> if c = CHR ''+'' then cs else s | [] \<Rightarrow> s)
      in if ds \<noteq> [] \<and> list_all is_ascii_digit ds \<and> digits_value ds < bound
         then Some (digits_value ds) else None)"

lemma digit_char [simp]:
  assumes "n < 10"
  shows "is_ascii_digit (char_of (48 + n))" and "digit_value (char_of (48 + n)) = n"
    and "char_of (48 + n) \<noteq> CHR ''+''"
proof -
  have *: "(of_char (char_of (48 + n) :: char) :: nat) = 48 + n"
    using assms by simp
  then show "is_ascii_digit (char_of (48 + n))" and "digit_value (char_of (48 + n)) = n"
    using assms by (simp_all add: is_ascii_digit_def digit_value_def)
  show "char_of (48 + n) \<noteq> CHR ''+''"
  proof
    assume "char_of (48 + n) = CHR ''+''"
    with * have "48 + n = (43 :: nat)" by simp
    then show False by simp
  qed
qed

lemma show_nat_not_Nil [simp]: "show_nat n \<noteq> []"
  by (subst show_nat.simps) simp

lemma show_nat_digits: "list_all is_ascii_digit (show_nat n) \<and> digits_value (show_nat n) = n"
proof (induction n rule: show_nat.induct)
  case (1 n)
  show ?case
  proof (cases "n < 10")
    case True
    then show ?thesis by (simp add: show_nat.simps [of n] digits_value_def)
  next
    case False
    have "n mod 10 < 10" by simp
    with 1 False show ?thesis
      by (simp add: show_nat.simps [of n] digits_value_def)
  qed
qed

lemma show_nat_hd: "\<exists>c cs. show_nat n = c # cs \<and> c \<noteq> CHR ''+''"
proof -
  obtain c cs where s: "show_nat n = c # cs" by (cases "show_nat n") auto
  then have "is_ascii_digit c" using show_nat_digits [of n] by simp
  then have "c \<noteq> CHR ''+''" by (auto simp: is_ascii_digit_def)
  with s show ?thesis by blast
qed

lemma visible_digit: "is_ascii_digit c \<Longrightarrow> visible c"
  by (simp add: is_ascii_digit_def visible_def)

lemma visible_last_show_nat: "visible (last (show_nat n))"
proof -
  have "last (show_nat n) \<in> set (show_nat n)" by simp
  then show ?thesis using show_nat_digits [of n] by (auto simp: list_all_iff intro: visible_digit)
qed

lemma parse_show_nat: "n < bound \<Longrightarrow> parse_unsigned bound (show_nat n) = Some n"
  using show_nat_digits [of n] show_nat_hd [of n] by (auto simp: parse_unsigned_def)

lemma parse_unsigned_bound: "parse_unsigned bound s = Some n \<Longrightarrow> n < bound"
  by (auto simp: parse_unsigned_def Let_def split: if_splits)

lemma unat_u8: "unat (b :: u8) < 256"
  using unsigned_less [of b, where 'a = nat] by simp

section \<open>Lists\<close>

definition enumerate0 :: "'a list \<Rightarrow> (nat \<times> 'a) list" where
  "enumerate0 xs = List.enumerate 0 xs"

text \<open>Replacing the first element that satisfies a predicate (\<open>iter_mut().find\<close> and an update).\<close>

fun update_first :: "('a \<Rightarrow> bool) \<Rightarrow> ('a \<Rightarrow> 'a) \<Rightarrow> 'a list \<Rightarrow> 'a list" where
  "update_first p f [] = []"
| "update_first p f (x # xs) = (if p x then f x # xs else x # update_first p f xs)"

text \<open>\<open>position\<close> and \<open>remove(index)\<close>.\<close>

fun remove_first :: "('a \<Rightarrow> bool) \<Rightarrow> 'a list \<Rightarrow> 'a list" where
  "remove_first p [] = []"
| "remove_first p (x # xs) = (if p x then xs else x # remove_first p xs)"

lemma length_update_first [simp]: "length (update_first p f xs) = length xs"
  by (induction xs) auto

lemma map_update_first [simp]: "(\<And>x. g (f x) = g x) \<Longrightarrow> map g (update_first p f xs) = map g xs"
  by (induction xs) auto

lemma update_first_nth:
  "i < length xs \<Longrightarrow> p (xs ! i) \<Longrightarrow> (\<And>j. j < i \<Longrightarrow> \<not> p (xs ! j)) \<Longrightarrow> update_first p f xs = xs[i := f (xs ! i)]"
proof (induction xs arbitrary: i)
  case (Cons x xs)
  show ?case
  proof (cases i)
    case (Suc k)
    have "\<not> p x" using Cons.prems(3) [of 0] Suc by simp
    moreover have "\<not> p (xs ! j)" if "j < k" for j using Cons.prems(3) [of "Suc j"] that Suc by simp
    ultimately show ?thesis using Cons.IH [of k] Cons.prems(1,2) Suc by simp
  qed (use Cons.prems in simp)
qed simp

lemma set_remove_first_subset: "set (remove_first p xs) \<subseteq> set xs"
  by (induction xs) auto

lemma distinct_map_remove_first: "distinct (map g xs) \<Longrightarrow> distinct (map g (remove_first p xs))"
  by (induction xs) (use set_remove_first_subset in fastforce)+

lemma find_Some_set: "find p xs = Some x \<Longrightarrow> x \<in> set xs \<and> p x"
  by (auto simp: find_Some_iff)

lemma find_None_not: "find p xs = None \<Longrightarrow> x \<in> set xs \<Longrightarrow> \<not> p x"
  by (auto simp: find_None_iff)

end
