(* ===== verification/Ordered.thy ===== *)
theory Ordered
  imports Prelude
begin

text \<open>
  \<open>BTreeMap\<close> and \<open>BTreeSet\<close> of the Rust standard library. A map is its entry list in strictly
  increasing key order and a set its element list in strictly increasing order, which is what
  iteration yields in the sources. The contract the components rely on is the locale
  \<open>ordered_map\<close>; the entry lists are an interpretation of it.
\<close>

lemma entries_from_keys:
  assumes "distinct (map fst xs)"
  shows "xs = map (\<lambda>k. (k, the (map_of xs k))) (map fst xs)"
proof (rule nth_equalityI)
  fix i assume "i < length xs"
  then have "map_of xs (fst (xs ! i)) = Some (snd (xs ! i))"
    using assms by (simp add: map_of_eq_Some_iff)
  then show "xs ! i = map (\<lambda>k. (k, the (map_of xs k))) (map fst xs) ! i"
    using \<open>i < length xs\<close> by simp
qed simp

lemma map_of_distinct_rev:
  assumes "distinct (map fst xs)" shows "map_of (rev xs) = map_of xs"
proof -
  have "distinct (map fst (rev xs))" using assms by (simp add: rev_map [symmetric])
  then have "map_of (rev xs) k = Some v \<longleftrightarrow> map_of xs k = Some v" for k v
    using assms by simp
  then show ?thesis by (metis ext not_None_eq)
qed

lemma sorted_entries_eqI:
  fixes xs ys :: "('k :: linorder \<times> 'v) list"
  assumes "sorted_wrt (<) (map fst xs)" "sorted_wrt (<) (map fst ys)" and "map_of xs = map_of ys"
  shows "xs = ys"
proof -
  have "set (map fst xs) = set (map fst ys)"
    using assms(3) by (metis dom_map_of_conv_image_fst image_set)
  then have keys: "map fst xs = map fst ys"
    using assms(1,2) strict_sorted_equal by blast
  have "distinct (map fst xs)" "distinct (map fst ys)"
    using assms(1,2) strict_sorted_iff by blast+
  then show ?thesis
    using entries_from_keys [of xs] entries_from_keys [of ys] keys assms(3) by simp
qed

section \<open>The interface\<close>

locale ordered_map =
  fixes empty :: "'m"
    and get :: "'m \<Rightarrow> 'k :: linorder \<Rightarrow> 'v option"
    and insert :: "'k \<Rightarrow> 'v \<Rightarrow> 'm \<Rightarrow> 'm"
    and remove :: "'k \<Rightarrow> 'm \<Rightarrow> 'm"
    and entries :: "'m \<Rightarrow> ('k \<times> 'v) list"
    and inv :: "'m \<Rightarrow> bool"
  assumes entries_empty: "entries empty = []"
    and get_entries: "inv m \<Longrightarrow> get m k = map_of (entries m) k"
    and entries_sorted: "inv m \<Longrightarrow> sorted_wrt (<) (map fst (entries m))"
    and get_insert: "inv m \<Longrightarrow> get (insert k v m) k' = (if k' = k then Some v else get m k')"
    and get_remove: "inv m \<Longrightarrow> get (remove k m) k' = (if k' = k then None else get m k')"
    and inv_empty: "inv empty"
    and inv_insert: "inv m \<Longrightarrow> inv (insert k v m)"
    and inv_remove: "inv m \<Longrightarrow> inv (remove k m)"
begin

lemma get_empty: "get empty k = None"
  by (simp add: get_entries [OF inv_empty] entries_empty)

lemma distinct_keys: "inv m \<Longrightarrow> distinct (map fst (entries m))"
  using entries_sorted strict_sorted_iff by blast

text \<open>Iteration is determined by lookup: two maps with the same lookups have the same entries.\<close>

lemma entries_eqI:
  assumes "inv m" "inv m'" and "\<And>k. get m k = get m' k"
  shows "entries m = entries m'"
proof (rule sorted_entries_eqI)
  show "map_of (entries m) = map_of (entries m')"
    using assms by (auto simp: get_entries [symmetric])
qed (use assms entries_sorted in auto)

lemma insert_commute:
  assumes "inv m" and "k \<noteq> k'"
  shows "entries (insert k v (insert k' v' m)) = entries (insert k' v' (insert k v m))"
  using assms by (intro entries_eqI) (auto simp: get_insert inv_insert)

lemma insert_overwrite: "inv m \<Longrightarrow> entries (insert k v (insert k v' m)) = entries (insert k v m)"
  by (intro entries_eqI) (auto simp: get_insert inv_insert)

lemma remove_insert: "inv m \<Longrightarrow> get m k = None \<Longrightarrow> entries (remove k (insert k v m)) = entries m"
  by (intro entries_eqI) (auto simp: get_insert get_remove inv_insert inv_remove)

lemma inv_fold_insert: "inv m \<Longrightarrow> inv (fold (\<lambda>(k, v). insert k v) xs m)"
  by (induction xs arbitrary: m) (auto simp: inv_insert)

lemma get_fold_insert:
  "inv m \<Longrightarrow> get (fold (\<lambda>(k, v). insert k v) xs m) k =
     (case map_of (rev xs) k of None \<Rightarrow> get m k | Some v \<Rightarrow> Some v)"
  by (induction xs arbitrary: m)
    (auto simp: inv_insert get_insert map_add_def split: option.splits)

lemma inv_fold_remove: "inv m \<Longrightarrow> inv (fold remove xs m)"
  by (induction xs arbitrary: m) (auto simp: inv_remove)

lemma get_fold_remove: "inv m \<Longrightarrow> get (fold remove xs m) k = (if k \<in> set xs then None else get m k)"
  by (induction xs arbitrary: m) (auto simp: inv_remove get_remove)

end

section \<open>BTreeMap\<close>

type_synonym ('k, 'v) btmap = "('k \<times> 'v) list"

definition bt_get :: "('k, 'v) btmap \<Rightarrow> 'k \<Rightarrow> 'v option" where
  "bt_get m k = map_of m k"

fun bt_insert :: "'k :: linorder \<Rightarrow> 'v \<Rightarrow> ('k, 'v) btmap \<Rightarrow> ('k, 'v) btmap" where
  "bt_insert k v [] = [(k, v)]"
| "bt_insert k v ((k', v') # m) =
     (if k < k' then (k, v) # (k', v') # m
      else if k = k' then (k, v) # m
      else (k', v') # bt_insert k v m)"

definition bt_remove :: "'k \<Rightarrow> ('k, 'v) btmap \<Rightarrow> ('k, 'v) btmap" where
  "bt_remove k m = filter (\<lambda>(k', v). k' \<noteq> k) m"

definition bt_wf :: "('k :: linorder, 'v) btmap \<Rightarrow> bool" where
  "bt_wf m = sorted_wrt (<) (map fst m)"

definition bt_keys :: "('k, 'v) btmap \<Rightarrow> 'k list" where
  "bt_keys m = map fst m"

definition bt_contains :: "('k, 'v) btmap \<Rightarrow> 'k \<Rightarrow> bool" where
  "bt_contains m k = (bt_get m k \<noteq> None)"

definition bt_of_list :: "('k :: linorder \<times> 'v) list \<Rightarrow> ('k, 'v) btmap" where
  "bt_of_list xs = fold (\<lambda>(k, v). bt_insert k v) xs []"

text \<open>\<open>get_mut\<close>: an update in place of an entry that exists.\<close>

definition bt_modify :: "'k \<Rightarrow> ('v \<Rightarrow> 'v) \<Rightarrow> ('k, 'v) btmap \<Rightarrow> ('k, 'v) btmap" where
  "bt_modify k f m = update_first (\<lambda>(k', v). k' = k) (\<lambda>(k', v). (k', f v)) m"

lemma bt_get_bt_modify [simp]:
  "bt_get (bt_modify k f m) k' = (if k' = k then map_option f (bt_get m k) else bt_get m k')"
  by (induction m) (auto simp: bt_get_def bt_modify_def)

lemma bt_keys_bt_modify [simp]: "bt_keys (bt_modify k f m) = bt_keys m"
  unfolding bt_keys_def bt_modify_def by (rule map_update_first) auto

lemma bt_wf_bt_modify [simp]: "bt_wf (bt_modify k f m) \<longleftrightarrow> bt_wf m"
  using bt_keys_bt_modify [of k f m] by (simp add: bt_wf_def bt_keys_def)

lemma bt_get_bt_insert [simp]: "bt_get (bt_insert k v m) k' = (if k' = k then Some v else bt_get m k')"
  by (induction m) (auto simp: bt_get_def)

lemma bt_get_bt_remove [simp]: "bt_get (bt_remove k m) k' = (if k' = k then None else bt_get m k')"
  by (induction m) (auto simp: bt_get_def bt_remove_def)

lemma fst_set_bt_insert: "fst ` set (bt_insert k v m) = insert k (fst ` set m)"
  by (induction k v m rule: bt_insert.induct) (simp_all add: insert_commute)

lemma sorted_bt_insert: "sorted_wrt (<) (map fst m) \<Longrightarrow> sorted_wrt (<) (map fst (bt_insert k v m))"
proof (induction k v m rule: bt_insert.induct)
  case (2 k v k' v' m)
  show ?case
  proof (cases "k < k'")
    case True
    with 2 show ?thesis by (auto intro: less_trans)
  next
    case False
    with 2 show ?thesis by (auto simp: fst_set_bt_insert simp flip: image_iff)
  qed
qed simp

lemma bt_wf_bt_insert [simp]: "bt_wf m \<Longrightarrow> bt_wf (bt_insert k v m)"
  by (simp add: bt_wf_def sorted_bt_insert)

lemma bt_wf_bt_remove [simp]: "bt_wf m \<Longrightarrow> bt_wf (bt_remove k m)"
  unfolding bt_wf_def bt_remove_def by (induction m) auto

lemma bt_wf_Nil [simp]: "bt_wf []"
  by (simp add: bt_wf_def)

interpretation bt: ordered_map "[]" bt_get bt_insert bt_remove "\<lambda>m. m" bt_wf
  by unfold_locales (simp_all, simp_all add: bt_get_def bt_wf_def)

lemma bt_get_Nil [simp]: "bt_get [] k = None"
  by (simp add: bt_get_def)

lemma bt_get_Some_set: "bt_wf m \<Longrightarrow> bt_get m k = Some v \<longleftrightarrow> (k, v) \<in> set m"
  using bt.distinct_keys [of m] by (simp add: bt_get_def)

lemma bt_get_None_keys: "bt_get m k = None \<longleftrightarrow> k \<notin> set (bt_keys m)"
  by (simp add: bt_get_def bt_keys_def map_of_eq_None_iff)

lemma bt_contains_keys [simp]: "bt_contains m k \<longleftrightarrow> k \<in> set (bt_keys m)"
  by (metis bt_contains_def bt_get_None_keys)

lemma set_bt_keys_insert [simp]: "set (bt_keys (bt_insert k v m)) = insert k (set (bt_keys m))"
  by (simp add: bt_keys_def fst_set_bt_insert)

lemma bt_wf_of_list [simp]: "bt_wf (bt_of_list xs)"
  unfolding bt_of_list_def by (rule bt.inv_fold_insert) simp

lemma bt_get_of_list: "bt_get (bt_of_list xs) k = map_of (rev xs) k"
  unfolding bt_of_list_def
  by (subst bt.get_fold_insert) (auto split: option.splits)

lemma bt_get_of_list_distinct: "distinct (map fst xs) \<Longrightarrow> bt_get (bt_of_list xs) k = map_of xs k"
  using map_of_distinct_rev [of xs] by (simp add: bt_get_of_list)

section \<open>BTreeSet\<close>

fun bs_insert :: "'k :: linorder \<Rightarrow> 'k list \<Rightarrow> 'k list" where
  "bs_insert k [] = [k]"
| "bs_insert k (x # s) = (if k < x then k # x # s else if k = x then x # s else x # bs_insert k s)"

definition bs_remove :: "'k \<Rightarrow> 'k list \<Rightarrow> 'k list" where
  "bs_remove k s = filter (\<lambda>x. x \<noteq> k) s"

definition bs_wf :: "'k :: linorder list \<Rightarrow> bool" where
  "bs_wf s = sorted_wrt (<) s"

definition bs_of_list :: "'k :: linorder list \<Rightarrow> 'k list" where
  "bs_of_list xs = fold bs_insert xs []"

lemma set_bs_insert [simp]: "set (bs_insert k s) = insert k (set s)"
  by (induction s) auto

lemma set_bs_remove [simp]: "set (bs_remove k s) = set s - {k}"
  by (auto simp: bs_remove_def)

lemma bs_wf_Nil [simp]: "bs_wf []"
  by (simp add: bs_wf_def)

lemma bs_wf_ConsD: "bs_wf (x # s) \<Longrightarrow> bs_wf s \<and> x \<notin> set s"
  by (auto simp: bs_wf_def)

lemma bs_wf_insert [simp]: "bs_wf s \<Longrightarrow> bs_wf (bs_insert k s)"
  unfolding bs_wf_def by (induction k s rule: bs_insert.induct) (auto intro: less_trans)

lemma bs_wf_remove [simp]: "bs_wf s \<Longrightarrow> bs_wf (bs_remove k s)"
  by (simp add: bs_wf_def bs_remove_def sorted_wrt_filter)

lemma bs_wf_distinct: "bs_wf s \<Longrightarrow> distinct s"
  by (simp add: bs_wf_def strict_sorted_iff)

lemma fold_bs_insert: "bs_wf s \<Longrightarrow> bs_wf (fold bs_insert xs s) \<and> set (fold bs_insert xs s) = set xs \<union> set s"
  by (induction xs arbitrary: s) auto

lemma set_bs_of_list [simp]: "set (bs_of_list xs) = set xs"
  by (simp add: bs_of_list_def fold_bs_insert)

lemma bs_wf_of_list [simp]: "bs_wf (bs_of_list xs)"
  by (simp add: bs_of_list_def fold_bs_insert)

lemma length_bs: "bs_wf s \<Longrightarrow> length s = card (set s)"
  by (simp add: bs_wf_distinct distinct_card)

lemma length_bs_of_list: "length (bs_of_list xs) = card (set xs)"
  by (simp add: length_bs)

lemma length_bs_of_list_eq_iff: "length (bs_of_list xs) = length xs \<longleftrightarrow> distinct xs"
  by (metis length_bs_of_list card_distinct distinct_card)

lemma bs_eqI: "bs_wf s \<Longrightarrow> bs_wf t \<Longrightarrow> set s = set t \<Longrightarrow> s = t"
  by (simp add: bs_wf_def strict_sorted_equal)

text \<open>The loop \<open>if !seen.insert(key(x)) { return Err(e(x)) }\<close> over a list.\<close>

lemma try_fold_unique_Ok_iff:
  "try_fold (\<lambda>s x. if f x \<in> set s then Err (e x) else Ok (bs_insert (f x) s)) s xs = Ok t \<longleftrightarrow>
     distinct (map f xs) \<and> set (map f xs) \<inter> set s = {} \<and> t = fold bs_insert (map f xs) s"
  by (induction xs arbitrary: s) (auto simp: result_simps)

end
