(* ===== verification/F64.thy ===== *)
theory F64
  imports Prelude "HOL-Library.Log_Nat"
begin

text \<open>
  Rust's \<open>f64\<close>: IEEE 754 binary64 with rounding to nearest, ties to even, computed over
  rationals. A finite value is the rational it denotes, so the arithmetic of the sources (areas,
  relative errors, range checks) evaluates exactly as the hardware does, one rounding per
  operation. The NaN payload, which no source inspects, is not represented.
\<close>

section \<open>Values and comparison\<close>

text \<open>\<open>Inf True\<close> is the negative infinity; \<open>NegZero\<close> is \<open>-0.0\<close> and \<open>Fin 0\<close> is \<open>+0.0\<close>.\<close>

datatype f64 = NaN | Inf bool | NegZero | Fin rat

fun f64_is_finite :: "f64 \<Rightarrow> bool" where
  "f64_is_finite NegZero = True"
| "f64_is_finite (Fin r) = True"
| "f64_is_finite _ = False"

fun f64_val :: "f64 \<Rightarrow> rat" where
  "f64_val (Fin r) = r"
| "f64_val _ = 0"

text \<open>The class a value belongs to on the extended line.\<close>

fun f64_rank :: "f64 \<Rightarrow> int" where
  "f64_rank (Inf neg) = (if neg then -1 else 1)"
| "f64_rank _ = 0"

definition f64_lt :: "f64 \<Rightarrow> f64 \<Rightarrow> bool" where
  "f64_lt x y = (x \<noteq> NaN \<and> y \<noteq> NaN \<and>
     (f64_rank x < f64_rank y \<or> f64_rank x = 0 \<and> f64_rank y = 0 \<and> f64_val x < f64_val y))"

definition f64_le :: "f64 \<Rightarrow> f64 \<Rightarrow> bool" where
  "f64_le x y = (x \<noteq> NaN \<and> y \<noteq> NaN \<and>
     (f64_rank x < f64_rank y \<or>
      f64_rank x = f64_rank y \<and> (f64_rank x = 0 \<longrightarrow> f64_val x \<le> f64_val y)))"

text \<open>\<open>PartialEq\<close>: NaN differs from everything and the two zeros are equal.\<close>

definition f64_eq :: "f64 \<Rightarrow> f64 \<Rightarrow> bool" where
  "f64_eq x y = (f64_le x y \<and> f64_le y x)"

definition f64_sign :: "f64 \<Rightarrow> bool" where
  "f64_sign x = (case x of NaN \<Rightarrow> False | Inf neg \<Rightarrow> neg | NegZero \<Rightarrow> True | Fin r \<Rightarrow> r < 0)"

section \<open>Rounding\<close>

definition pow2 :: "int \<Rightarrow> rat" where
  "pow2 e = (if 0 \<le> e then 2 ^ nat e else 1 / 2 ^ nat (- e))"

text \<open>The exponent \<open>e\<close> with \<open>2\<^sup>e \<le> r < 2\<^sup>e\<^sup>+\<^sup>1\<close>, for a positive \<open>r\<close>.\<close>

definition ilog2 :: "rat \<Rightarrow> int" where
  "ilog2 r = (let (p, q) = quotient_of r; e = bitlen p - bitlen q
              in if pow2 e \<le> r then e else e - 1)"

definition round_half_even :: "rat \<Rightarrow> int" where
  "round_half_even r =
     (let f = \<lfloor>r\<rfloor>; d = r - of_int f
      in if d < 1 / 2 then f else if 1 / 2 < d then f + 1 else if even f then f else f + 1)"

text \<open>The nearest binary64 value of a rational; \<open>neg\<close> is the sign of an exact zero.\<close>

definition f64_round :: "bool \<Rightarrow> rat \<Rightarrow> f64" where
  "f64_round neg r =
     (if r = 0 then (if neg then NegZero else Fin 0)
      else
        let e = max (ilog2 \<bar>r\<bar> - 52) (-1074);
            v = of_int (round_half_even (\<bar>r\<bar> / pow2 e)) * pow2 e
        in if 2 ^ 1024 \<le> v then Inf (r < 0)
           else if v = 0 then (if r < 0 then NegZero else Fin 0)
           else Fin (if r < 0 then - v else v))"

definition f64_lit :: "rat \<Rightarrow> f64" where
  "f64_lit r = f64_round False r"

section \<open>Arithmetic\<close>

fun f64_neg :: "f64 \<Rightarrow> f64" where
  "f64_neg NaN = NaN"
| "f64_neg (Inf neg) = Inf (\<not> neg)"
| "f64_neg NegZero = Fin 0"
| "f64_neg (Fin r) = (if r = 0 then NegZero else Fin (- r))"

definition f64_abs :: "f64 \<Rightarrow> f64" where
  "f64_abs x = (if f64_sign x then f64_neg x else x)"

definition f64_add :: "f64 \<Rightarrow> f64 \<Rightarrow> f64" where
  "f64_add x y =
     (if x = NaN \<or> y = NaN then NaN
      else case (x, y) of
        (Inf a, Inf b) \<Rightarrow> if a = b then Inf a else NaN
      | (Inf a, _) \<Rightarrow> Inf a
      | (_, Inf b) \<Rightarrow> Inf b
      | _ \<Rightarrow> f64_round (x = NegZero \<and> y = NegZero) (f64_val x + f64_val y))"

definition f64_sub :: "f64 \<Rightarrow> f64 \<Rightarrow> f64" where
  "f64_sub x y = f64_add x (f64_neg y)"

definition f64_mul :: "f64 \<Rightarrow> f64 \<Rightarrow> f64" where
  "f64_mul x y =
     (if x = NaN \<or> y = NaN then NaN
      else
        let neg = (f64_sign x \<noteq> f64_sign y)
        in if \<not> f64_is_finite x \<or> \<not> f64_is_finite y
           then (if (f64_is_finite x \<and> f64_val x = 0) \<or> (f64_is_finite y \<and> f64_val y = 0)
                 then NaN else Inf neg)
           else f64_round neg (f64_val x * f64_val y))"

definition f64_div :: "f64 \<Rightarrow> f64 \<Rightarrow> f64" where
  "f64_div x y =
     (if x = NaN \<or> y = NaN then NaN
      else
        let neg = (f64_sign x \<noteq> f64_sign y)
        in if \<not> f64_is_finite x then (if f64_is_finite y then Inf neg else NaN)
           else if \<not> f64_is_finite y then (if neg then NegZero else Fin 0)
           else if f64_val y = 0 then (if f64_val x = 0 then NaN else Inf neg)
           else f64_round neg (f64_val x / f64_val y))"

text \<open>\<open>f64::max\<close> and \<open>f64::min\<close>: a NaN operand is ignored.\<close>

definition f64_max :: "f64 \<Rightarrow> f64 \<Rightarrow> f64" where
  "f64_max x y = (if x = NaN then y else if y = NaN then x else if f64_lt x y then y else x)"

definition f64_min :: "f64 \<Rightarrow> f64 \<Rightarrow> f64" where
  "f64_min x y = (if x = NaN then y else if y = NaN then x else if f64_lt y x then y else x)"

text \<open>\<open>Iterator::sum\<close> on \<open>f64\<close> starts at \<open>-0.0\<close>, the neutral element of addition.\<close>

definition f64_sum :: "f64 list \<Rightarrow> f64" where
  "f64_sum xs = foldl f64_add NegZero xs"

definition f64_epsilon :: f64 where
  "f64_epsilon = Fin (1 / 2 ^ 52)"

section \<open>Facts\<close>

lemma f64_is_finite_iff: "f64_is_finite x \<longleftrightarrow> x \<noteq> NaN \<and> f64_rank x = 0"
  by (cases x) auto

lemma f64_le_refl [simp]: "f64_le x x \<longleftrightarrow> x \<noteq> NaN"
  by (auto simp: f64_le_def)

lemma f64_eq_refl [simp]: "f64_eq x x \<longleftrightarrow> x \<noteq> NaN"
  by (auto simp: f64_eq_def)

lemma f64_eq_sym: "f64_eq x y \<Longrightarrow> f64_eq y x"
  by (auto simp: f64_eq_def)

lemma f64_le_trans: "f64_le x y \<Longrightarrow> f64_le y z \<Longrightarrow> f64_le x z"
  by (auto simp: f64_le_def)

lemma f64_eq_trans: "f64_eq x y \<Longrightarrow> f64_eq y z \<Longrightarrow> f64_eq x z"
  by (auto simp: f64_eq_def intro: f64_le_trans)

lemma f64_lt_imp_le: "f64_lt x y \<Longrightarrow> f64_le x y"
  by (auto simp: f64_lt_def f64_le_def)

lemma f64_lt_le_trans: "f64_lt x y \<Longrightarrow> f64_le y z \<Longrightarrow> f64_lt x z"
  by (auto simp: f64_lt_def f64_le_def)

lemma f64_le_lt_trans: "f64_le x y \<Longrightarrow> f64_lt y z \<Longrightarrow> f64_lt x z"
  by (auto simp: f64_lt_def f64_le_def)

lemma f64_rank_range: "f64_rank x = -1 \<or> f64_rank x = 0 \<or> f64_rank x = 1"
  by (cases x) auto

lemma f64_not_lt: "x \<noteq> NaN \<Longrightarrow> y \<noteq> NaN \<Longrightarrow> \<not> f64_lt x y \<longleftrightarrow> f64_le y x"
  using f64_rank_range [of x] f64_rank_range [of y] by (auto simp: f64_lt_def f64_le_def)

lemma f64_eq_finite: "f64_is_finite x \<Longrightarrow> f64_is_finite y \<Longrightarrow> f64_eq x y \<longleftrightarrow> f64_val x = f64_val y"
  by (auto simp: f64_eq_def f64_le_def f64_is_finite_iff)

lemma f64_finite_between: "f64_le (Fin a) x \<Longrightarrow> f64_le x (Fin b) \<Longrightarrow> f64_is_finite x"
  by (cases x) (auto simp: f64_le_def split: if_splits)

section \<open>Exact results\<close>

text \<open>An operation whose exact result is an integer below \<open>2\<^sup>5\<^sup>3\<close> in magnitude does not round.\<close>

lemma round_half_even_of_int [simp]: "round_half_even (of_int k) = k"
  by (simp add: round_half_even_def)

lemma ilog2_of_int:
  assumes "0 < k" "k < 2 ^ 53" shows "ilog2 (of_int k) \<le> 52"
proof -
  have "bitlen k \<le> 53" using assms bitlen_le_iff_power [of k 53] by simp
  moreover have "bitlen 1 = 1" by code_simp
  ultimately show ?thesis by (simp add: ilog2_def Let_def)
qed

lemma pow2_pos: "0 < pow2 e"
  by (simp add: pow2_def)

lemma f64_round_exact:
  assumes "r = of_int k" "k \<noteq> 0" "\<bar>k\<bar> < 2 ^ 53"
  shows "f64_round neg r = Fin r"
proof -
  define e where "e = max (ilog2 \<bar>r\<bar> - 52) (-1074)"
  have abs: "\<bar>r\<bar> = of_int \<bar>k\<bar>" using assms(1) by simp
  have "ilog2 \<bar>r\<bar> \<le> 52" unfolding abs using assms(2,3) by (intro ilog2_of_int) auto
  then have "e \<le> 0" by (simp add: e_def)
  then have "\<bar>r\<bar> / pow2 e = of_int (\<bar>k\<bar> * 2 ^ nat (- e))"
    unfolding abs by (cases "e = 0") (simp_all add: pow2_def)
  then have "of_int (round_half_even (\<bar>r\<bar> / pow2 e)) * pow2 e = \<bar>r\<bar> / pow2 e * pow2 e"
    by (simp only: round_half_even_of_int)
  also have "\<dots> = \<bar>r\<bar>" using pow2_pos [of e] by simp
  finally have v: "of_int (round_half_even (\<bar>r\<bar> / pow2 e)) * pow2 e = \<bar>r\<bar>" .
  have "\<bar>r\<bar> < 2 ^ 53" unfolding abs using assms(3) by (metis of_int_less_iff of_int_numeral of_int_power)
  then have "\<bar>r\<bar> < 2 ^ 1024" by (rule less_trans) simp
  then show ?thesis using assms(1,2) v unfolding f64_round_def Let_def e_def by auto
qed

lemma round_half_even_nonneg: "0 \<le> r \<Longrightarrow> 0 \<le> round_half_even r"
  by (auto simp: round_half_even_def Let_def)

lemma f64_round_nonneg:
  assumes "0 \<le> r" shows "f64_rank (f64_round neg r) \<noteq> - 1 \<and> 0 \<le> f64_val (f64_round neg r)"
proof -
  have "0 \<le> round_half_even (\<bar>r\<bar> / pow2 e) " for e
    using pow2_pos [of e] by (intro round_half_even_nonneg) simp
  then have "0 \<le> of_int (round_half_even (\<bar>r\<bar> / pow2 e)) * pow2 e" for e
    using pow2_pos [of e] by (simp add: less_imp_le)
  then show ?thesis using assms by (auto simp: f64_round_def Let_def)
qed

lemma f64_round_numeral [simp]:
  "numeral n < (2 :: int) ^ 53 \<Longrightarrow> f64_round neg (numeral n) = Fin (numeral n)"
  "numeral n < (2 :: int) ^ 53 \<Longrightarrow> f64_round neg (- numeral n) = Fin (- numeral n)"
  "f64_round neg 1 = Fin 1" "f64_round neg (- 1) = Fin (- 1)"
  "f64_round neg 0 = (if neg then NegZero else Fin 0)"
proof -
  show "f64_round neg (numeral n) = Fin (numeral n)" if "numeral n < (2 :: int) ^ 53"
    using f64_round_exact [of "numeral n" "numeral n" neg] that by simp
  show "f64_round neg (- numeral n) = Fin (- numeral n)" if "numeral n < (2 :: int) ^ 53"
    using f64_round_exact [of "- numeral n" "- numeral n" neg] that by simp
  show "f64_round neg 1 = Fin 1" "f64_round neg (- 1) = Fin (- 1)"
    using f64_round_exact [of 1 1 neg] f64_round_exact [of "- 1" "- 1" neg] by simp_all
  show "f64_round neg 0 = (if neg then NegZero else Fin 0)" by (simp add: f64_round_def)
qed

lemmas f64_arith = f64_add_def f64_sub_def f64_mul_def f64_div_def f64_abs_def f64_sign_def f64_sum_def
  f64_max_def f64_lt_def f64_le_def

end
