(* ===== verification/Json.thy ===== *)
theory Json
  imports Ordered F64
begin

text \<open>
  \<open>serde_json::Value\<close> and the two functions the sources run on it before hashing: the removal of
  runtime fields and the canonical text. An object is a \<open>BTreeMap\<close> (the crate is built without
  its \<open>preserve_order\<close> feature). Scalar rendering belongs to the \<open>serde_json\<close> crate and is the
  parameter \<open>to_string\<close>; so is the hash function of the \<open>sha2\<close> crate.
\<close>

datatype json =
    JNull
  | JBool bool
  | JInt int
  | JFloat f64
  | JStr string
  | JArr "json list"
  | JObj "(string \<times> json) list"

type_synonym to_string = "json \<Rightarrow> string"
type_synonym sha256 = "string \<Rightarrow> u8 list"

text \<open>The \<open>json!\<close> object literal: later duplicates win, keys end up in order.\<close>

definition jobj :: "(string \<times> json) list \<Rightarrow> json" where
  "jobj kvs = JObj (bt_of_list kvs)"

definition json_get :: "json \<Rightarrow> string \<Rightarrow> json option" where
  "json_get v k = (case v of JObj m \<Rightarrow> bt_get m k | _ \<Rightarrow> None)"

section \<open>Canonical text and digest\<close>

fun canonical_json :: "to_string \<Rightarrow> json \<Rightarrow> string" where
  "canonical_json ts (JObj m) =
     ''{'' @ join '','' (map (\<lambda>(k, s). ts (JStr k) @ '':'' @ s)
       (sort_key fst (map (\<lambda>(k, v). (k, canonical_json ts v)) m))) @ ''}''"
| "canonical_json ts (JArr vs) = ''['' @ join '','' (map (canonical_json ts) vs) @ '']''"
| "canonical_json ts v = ts v"

definition hex_digit :: "nat \<Rightarrow> char" where
  "hex_digit n = (if n < 10 then char_of (48 + n) else char_of (87 + n))"

definition hex :: "u8 list \<Rightarrow> string" where
  "hex bytes = concat (map (\<lambda>b. [hex_digit (unat b div 16), hex_digit (unat b mod 16)]) bytes)"

definition digest_json :: "to_string \<Rightarrow> sha256 \<Rightarrow> json \<Rightarrow> string" where
  "digest_json ts sha v = ''sha256:'' @ hex (sha (canonical_json ts v))"

section \<open>Runtime fields\<close>

fun strip_fields :: "string list \<Rightarrow> json \<Rightarrow> json" where
  "strip_fields fs (JObj m) =
     JObj (map (\<lambda>(k, v). (k, strip_fields fs v)) (filter (\<lambda>(k, v). k \<notin> set fs) m))"
| "strip_fields fs (JArr vs) = JArr (map (strip_fields fs) vs)"
| "strip_fields fs v = v"

lemma strip_fields_idem: "strip_fields fs (strip_fields fs v) = strip_fields fs v"
proof (induction fs v rule: strip_fields.induct)
  case (1 fs m)
  then have "map (\<lambda>(k, v). (k, strip_fields fs (strip_fields fs v))) (filter (\<lambda>(k, v). k \<notin> set fs) m) =
      map (\<lambda>(k, v). (k, strip_fields fs v)) (filter (\<lambda>(k, v). k \<notin> set fs) m)"
    by auto
  then show ?case by (simp add: filter_map comp_def case_prod_unfold)
qed auto

text \<open>Two objects that differ only in stripped fields are identified.\<close>

lemma strip_fields_obj_cong:
  "filter (\<lambda>(k, v). k \<notin> set fs) m = filter (\<lambda>(k, v). k \<notin> set fs) m' \<Longrightarrow>
     strip_fields fs (JObj m) = strip_fields fs (JObj m')"
  by simp

lemma length_hex: "length (hex bs) = 2 * length bs"
  by (induction bs) (auto simp: hex_def)

lemma hex_digit_is_hex: "n < 16 \<Longrightarrow> is_ascii_hexdigit (hex_digit n)"
  by (auto simp: hex_digit_def is_ascii_hexdigit_def is_ascii_digit_def)

lemma hex_is_hex: "list_all is_ascii_hexdigit (hex bs)"
proof (induction bs)
  case (Cons b bs)
  have "unat b < 256" by (rule unat_u8)
  then have "unat b div 16 < 16" "unat b mod 16 < 16" by auto
  with Cons show ?case by (simp add: hex_def hex_digit_is_hex)
qed (simp add: hex_def)

lemma hex_digit_inj: "m < 16 \<Longrightarrow> n < 16 \<Longrightarrow> hex_digit m = hex_digit n \<Longrightarrow> m = n"
proof -
  assume mn: "m < 16" "n < 16" and eq: "hex_digit m = hex_digit n"
  have *: "(of_char (hex_digit k) :: nat) = (if k < 10 then 48 + k else 87 + k)" if "k < 16" for k
    using that by (auto simp: hex_digit_def)
  from eq have "(of_char (hex_digit m) :: nat) = of_char (hex_digit n)" by simp
  then show "m = n" using * [OF mn(1)] * [OF mn(2)] mn by (auto split: if_splits)
qed

lemma hex_inj: "hex as = hex bs \<Longrightarrow> as = bs"
proof (induction as arbitrary: bs)
  case Nil
  then have "length (hex bs) = 0" by (simp add: hex_def)
  then show ?case by (simp add: length_hex)
next
  case (Cons a as)
  then obtain b bs' where bs: "bs = b # bs'"
    by (cases bs) (auto simp: hex_def)
  have lt: "unat a < 256" "unat b < 256" by (rule unat_u8)+
  from Cons.prems bs have "hex_digit (unat a div 16) = hex_digit (unat b div 16)"
    "hex_digit (unat a mod 16) = hex_digit (unat b mod 16)" and rest: "hex as = hex bs'"
    by (simp_all add: hex_def)
  with lt have "unat a div 16 = unat b div 16" "unat a mod 16 = unat b mod 16"
    by (auto intro: hex_digit_inj)
  then have "unat a = unat b" by (metis div_mult_mod_eq)
  then have "a = b" by (simp add: word_unat_eq_iff)
  with Cons.IH [OF rest] bs show ?case by simp
qed

end
