(* ===== verification/Crs.thy ===== *)
theory Crs
  imports Json
begin

text \<open>
  \<open>genegis-crs\<close>: coordinate reference systems, the built-in EPSG registry, coordinate
  validation, and the source snapshots (\<open>SourceMetadata\<close>) with their checksum state. A
  \<open>u32\<close> code is a 32-bit word, coordinates are binary64 values. File contents and the hash
  function are parameters.
\<close>

section \<open>The registry\<close>

abbreviation WGS84_EPSG :: u32 where "WGS84_EPSG \<equiv> 4326"
abbreviation JGD2011_EPSG :: u32 where "JGD2011_EPSG \<equiv> 6668"
abbreviation NAGOYA_PROJECTED_EPSG :: u32 where "NAGOYA_PROJECTED_EPSG \<equiv> 6675"
abbreviation WEB_MERCATOR_EPSG :: u32 where "WEB_MERCATOR_EPSG \<equiv> 3857"
abbreviation UTM_17N_EPSG :: u32 where "UTM_17N_EPSG \<equiv> 32617"
abbreviation UTM_18N_EPSG :: u32 where "UTM_18N_EPSG \<equiv> 32618"
abbreviation UTM_54N_EPSG :: u32 where "UTM_54N_EPSG \<equiv> 32654"

definition JGD2011_PLANE_NAMES :: "string list" where
  "JGD2011_PLANE_NAMES =
    [''JGD2011 / Japan Plane Rectangular CS I'',
     ''JGD2011 / Japan Plane Rectangular CS II'',
     ''JGD2011 / Japan Plane Rectangular CS III'',
     ''JGD2011 / Japan Plane Rectangular CS IV'',
     ''JGD2011 / Japan Plane Rectangular CS V'',
     ''JGD2011 / Japan Plane Rectangular CS VI'',
     ''JGD2011 / Japan Plane Rectangular CS VII'',
     ''JGD2011 / Japan Plane Rectangular CS VIII'',
     ''JGD2011 / Japan Plane Rectangular CS IX'',
     ''JGD2011 / Japan Plane Rectangular CS X'',
     ''JGD2011 / Japan Plane Rectangular CS XI'',
     ''JGD2011 / Japan Plane Rectangular CS XII'',
     ''JGD2011 / Japan Plane Rectangular CS XIII'',
     ''JGD2011 / Japan Plane Rectangular CS XIV'',
     ''JGD2011 / Japan Plane Rectangular CS XV'',
     ''JGD2011 / Japan Plane Rectangular CS XVI'',
     ''JGD2011 / Japan Plane Rectangular CS XVII'',
     ''JGD2011 / Japan Plane Rectangular CS XVIII'',
     ''JGD2011 / Japan Plane Rectangular CS XIX'']"

definition JGD2000_PLANE_NAMES :: "string list" where
  "JGD2000_PLANE_NAMES =
    [''JGD2000 / Japan Plane Rectangular CS I'',
     ''JGD2000 / Japan Plane Rectangular CS II'',
     ''JGD2000 / Japan Plane Rectangular CS III'',
     ''JGD2000 / Japan Plane Rectangular CS IV'',
     ''JGD2000 / Japan Plane Rectangular CS V'',
     ''JGD2000 / Japan Plane Rectangular CS VI'',
     ''JGD2000 / Japan Plane Rectangular CS VII'',
     ''JGD2000 / Japan Plane Rectangular CS VIII'',
     ''JGD2000 / Japan Plane Rectangular CS IX'',
     ''JGD2000 / Japan Plane Rectangular CS X'',
     ''JGD2000 / Japan Plane Rectangular CS XI'',
     ''JGD2000 / Japan Plane Rectangular CS XII'',
     ''JGD2000 / Japan Plane Rectangular CS XIII'',
     ''JGD2000 / Japan Plane Rectangular CS XIV'',
     ''JGD2000 / Japan Plane Rectangular CS XV'',
     ''JGD2000 / Japan Plane Rectangular CS XVI'',
     ''JGD2000 / Japan Plane Rectangular CS XVII'',
     ''JGD2000 / Japan Plane Rectangular CS XVIII'',
     ''JGD2000 / Japan Plane Rectangular CS XIX'']"

definition JGD2011_UTM_NAMES :: "string list" where
  "JGD2011_UTM_NAMES =
    [''JGD2011 / UTM zone 51N'',
     ''JGD2011 / UTM zone 52N'',
     ''JGD2011 / UTM zone 53N'',
     ''JGD2011 / UTM zone 54N'',
     ''JGD2011 / UTM zone 55N'']"

definition JGD2000_UTM_NAMES :: "string list" where
  "JGD2000_UTM_NAMES =
    [''JGD2000 / UTM zone 51N'',
     ''JGD2000 / UTM zone 52N'',
     ''JGD2000 / UTM zone 53N'',
     ''JGD2000 / UTM zone 54N'',
     ''JGD2000 / UTM zone 55N'']"

definition UTM_NORTH_NAMES :: "string list" where
  "UTM_NORTH_NAMES =
    [''WGS 84 / UTM zone 1N'',
     ''WGS 84 / UTM zone 2N'',
     ''WGS 84 / UTM zone 3N'',
     ''WGS 84 / UTM zone 4N'',
     ''WGS 84 / UTM zone 5N'',
     ''WGS 84 / UTM zone 6N'',
     ''WGS 84 / UTM zone 7N'',
     ''WGS 84 / UTM zone 8N'',
     ''WGS 84 / UTM zone 9N'',
     ''WGS 84 / UTM zone 10N'',
     ''WGS 84 / UTM zone 11N'',
     ''WGS 84 / UTM zone 12N'',
     ''WGS 84 / UTM zone 13N'',
     ''WGS 84 / UTM zone 14N'',
     ''WGS 84 / UTM zone 15N'',
     ''WGS 84 / UTM zone 16N'',
     ''WGS 84 / UTM zone 17N'',
     ''WGS 84 / UTM zone 18N'',
     ''WGS 84 / UTM zone 19N'',
     ''WGS 84 / UTM zone 20N'',
     ''WGS 84 / UTM zone 21N'',
     ''WGS 84 / UTM zone 22N'',
     ''WGS 84 / UTM zone 23N'',
     ''WGS 84 / UTM zone 24N'',
     ''WGS 84 / UTM zone 25N'',
     ''WGS 84 / UTM zone 26N'',
     ''WGS 84 / UTM zone 27N'',
     ''WGS 84 / UTM zone 28N'',
     ''WGS 84 / UTM zone 29N'',
     ''WGS 84 / UTM zone 30N'',
     ''WGS 84 / UTM zone 31N'',
     ''WGS 84 / UTM zone 32N'',
     ''WGS 84 / UTM zone 33N'',
     ''WGS 84 / UTM zone 34N'',
     ''WGS 84 / UTM zone 35N'',
     ''WGS 84 / UTM zone 36N'',
     ''WGS 84 / UTM zone 37N'',
     ''WGS 84 / UTM zone 38N'',
     ''WGS 84 / UTM zone 39N'',
     ''WGS 84 / UTM zone 40N'',
     ''WGS 84 / UTM zone 41N'',
     ''WGS 84 / UTM zone 42N'',
     ''WGS 84 / UTM zone 43N'',
     ''WGS 84 / UTM zone 44N'',
     ''WGS 84 / UTM zone 45N'',
     ''WGS 84 / UTM zone 46N'',
     ''WGS 84 / UTM zone 47N'',
     ''WGS 84 / UTM zone 48N'',
     ''WGS 84 / UTM zone 49N'',
     ''WGS 84 / UTM zone 50N'',
     ''WGS 84 / UTM zone 51N'',
     ''WGS 84 / UTM zone 52N'',
     ''WGS 84 / UTM zone 53N'',
     ''WGS 84 / UTM zone 54N'',
     ''WGS 84 / UTM zone 55N'',
     ''WGS 84 / UTM zone 56N'',
     ''WGS 84 / UTM zone 57N'',
     ''WGS 84 / UTM zone 58N'',
     ''WGS 84 / UTM zone 59N'',
     ''WGS 84 / UTM zone 60N'']"

definition UTM_SOUTH_NAMES :: "string list" where
  "UTM_SOUTH_NAMES =
    [''WGS 84 / UTM zone 1S'',
     ''WGS 84 / UTM zone 2S'',
     ''WGS 84 / UTM zone 3S'',
     ''WGS 84 / UTM zone 4S'',
     ''WGS 84 / UTM zone 5S'',
     ''WGS 84 / UTM zone 6S'',
     ''WGS 84 / UTM zone 7S'',
     ''WGS 84 / UTM zone 8S'',
     ''WGS 84 / UTM zone 9S'',
     ''WGS 84 / UTM zone 10S'',
     ''WGS 84 / UTM zone 11S'',
     ''WGS 84 / UTM zone 12S'',
     ''WGS 84 / UTM zone 13S'',
     ''WGS 84 / UTM zone 14S'',
     ''WGS 84 / UTM zone 15S'',
     ''WGS 84 / UTM zone 16S'',
     ''WGS 84 / UTM zone 17S'',
     ''WGS 84 / UTM zone 18S'',
     ''WGS 84 / UTM zone 19S'',
     ''WGS 84 / UTM zone 20S'',
     ''WGS 84 / UTM zone 21S'',
     ''WGS 84 / UTM zone 22S'',
     ''WGS 84 / UTM zone 23S'',
     ''WGS 84 / UTM zone 24S'',
     ''WGS 84 / UTM zone 25S'',
     ''WGS 84 / UTM zone 26S'',
     ''WGS 84 / UTM zone 27S'',
     ''WGS 84 / UTM zone 28S'',
     ''WGS 84 / UTM zone 29S'',
     ''WGS 84 / UTM zone 30S'',
     ''WGS 84 / UTM zone 31S'',
     ''WGS 84 / UTM zone 32S'',
     ''WGS 84 / UTM zone 33S'',
     ''WGS 84 / UTM zone 34S'',
     ''WGS 84 / UTM zone 35S'',
     ''WGS 84 / UTM zone 36S'',
     ''WGS 84 / UTM zone 37S'',
     ''WGS 84 / UTM zone 38S'',
     ''WGS 84 / UTM zone 39S'',
     ''WGS 84 / UTM zone 40S'',
     ''WGS 84 / UTM zone 41S'',
     ''WGS 84 / UTM zone 42S'',
     ''WGS 84 / UTM zone 43S'',
     ''WGS 84 / UTM zone 44S'',
     ''WGS 84 / UTM zone 45S'',
     ''WGS 84 / UTM zone 46S'',
     ''WGS 84 / UTM zone 47S'',
     ''WGS 84 / UTM zone 48S'',
     ''WGS 84 / UTM zone 49S'',
     ''WGS 84 / UTM zone 50S'',
     ''WGS 84 / UTM zone 51S'',
     ''WGS 84 / UTM zone 52S'',
     ''WGS 84 / UTM zone 53S'',
     ''WGS 84 / UTM zone 54S'',
     ''WGS 84 / UTM zone 55S'',
     ''WGS 84 / UTM zone 56S'',
     ''WGS 84 / UTM zone 57S'',
     ''WGS 84 / UTM zone 58S'',
     ''WGS 84 / UTM zone 59S'',
     ''WGS 84 / UTM zone 60S'']"

datatype crs_kind = Geographic | Projected | UnknownKind

datatype coordinate_unit = Degrees | Metres | UnknownUnit

fun coordinate_unit_as_str :: "coordinate_unit \<Rightarrow> string" where
  "coordinate_unit_as_str Degrees = ''degrees''"
| "coordinate_unit_as_str Metres = ''metres''"
| "coordinate_unit_as_str UnknownUnit = ''unknown''"

record crs =
  crs_authority :: string
  crs_code :: u32

record crs_def =
  def_code :: u32
  def_name :: string
  def_kind :: crs_kind
  def_unit :: coordinate_unit

datatype crs_error =
    InvalidIdentifier string
  | Unsupported string
  | NonFiniteCoordinate f64 f64
  | CoordinateOutOfRange f64 f64

definition crs_new :: "string \<Rightarrow> u32 \<Rightarrow> crs" where
  "crs_new auth c = \<lparr>crs_authority = map to_ascii_uppercase (trim auth), crs_code = c\<rparr>"

definition crs_epsg :: "u32 \<Rightarrow> crs" where
  "crs_epsg c = crs_new ''EPSG'' c"

definition crs_wgs84 :: crs where "crs_wgs84 = crs_epsg WGS84_EPSG"
definition crs_jgd2011 :: crs where "crs_jgd2011 = crs_epsg JGD2011_EPSG"
definition crs_nagoya_projected :: crs where "crs_nagoya_projected = crs_epsg NAGOYA_PROJECTED_EPSG"

fun or_else :: "'a option \<Rightarrow> 'a option \<Rightarrow> 'a option" where
  "or_else (Some a) _ = Some a"
| "or_else None b = b"

definition crs_parse :: "string \<Rightarrow> crs_error + crs" where
  "crs_parse value =
     (let normalized = trim value;
          code = (case strip_prefix ''urn:ogc:def:crs:'' normalized of None \<Rightarrow> normalized | Some c \<Rightarrow> c)
      in and_then
           (ok_or (or_else (strip_prefix ''EPSG::'' code) (or_else (strip_prefix ''epsg::'' code)
              (or_else (strip_prefix ''EPSG:'' code) (strip_prefix ''epsg:'' code))))
              (InvalidIdentifier value))
           (\<lambda>code. and_then (ok_or (parse_unsigned (2 ^ 32) code) (InvalidIdentifier value))
             (\<lambda>n. Ok (crs_epsg (of_nat n)))))"

definition crs_identifier :: "crs \<Rightarrow> string" where
  "crs_identifier c = crs_authority c @ '':'' @ show_nat (unat (crs_code c))"

definition projected :: "u32 \<Rightarrow> string \<Rightarrow> crs_def" where
  "projected c name = \<lparr>def_code = c, def_name = name, def_kind = Projected, def_unit = Metres\<rparr>"

definition crs_definition :: "crs \<Rightarrow> crs_def option" where
  "crs_definition crs =
     (let c = crs_code crs in
      if crs_authority crs \<noteq> ''EPSG'' then None
      else if c = WGS84_EPSG then
        Some \<lparr>def_code = WGS84_EPSG, def_name = ''WGS 84'', def_kind = Geographic, def_unit = Degrees\<rparr>
      else if c = JGD2011_EPSG then
        Some \<lparr>def_code = JGD2011_EPSG, def_name = ''JGD2011'', def_kind = Geographic, def_unit = Degrees\<rparr>
      else if c = NAGOYA_PROJECTED_EPSG then
        Some \<lparr>def_code = NAGOYA_PROJECTED_EPSG, def_name = ''JGD2011 / Japan Plane Rectangular CS VII'',
          def_kind = Projected, def_unit = Metres\<rparr>
      else if c = WEB_MERCATOR_EPSG then
        Some \<lparr>def_code = WEB_MERCATOR_EPSG, def_name = ''WGS 84 / Pseudo-Mercator'',
          def_kind = Projected, def_unit = Metres\<rparr>
      else if c = UTM_17N_EPSG then
        Some \<lparr>def_code = UTM_17N_EPSG, def_name = ''WGS 84 / UTM zone 17N'',
          def_kind = Projected, def_unit = Metres\<rparr>
      else if c = UTM_18N_EPSG then
        Some \<lparr>def_code = UTM_18N_EPSG, def_name = ''WGS 84 / UTM zone 18N'',
          def_kind = Projected, def_unit = Metres\<rparr>
      else if c = UTM_54N_EPSG then
        Some \<lparr>def_code = UTM_54N_EPSG, def_name = ''WGS 84 / UTM zone 54N'',
          def_kind = Projected, def_unit = Metres\<rparr>
      else if c = 4612 then
        Some \<lparr>def_code = 4612, def_name = ''JGD2000'', def_kind = Geographic, def_unit = Degrees\<rparr>
      else if 6669 \<le> c \<and> c \<le> 6687 then Some (projected c (JGD2011_PLANE_NAMES ! unat (c - 6669)))
      else if 2443 \<le> c \<and> c \<le> 2461 then Some (projected c (JGD2000_PLANE_NAMES ! unat (c - 2443)))
      else if 6688 \<le> c \<and> c \<le> 6692 then Some (projected c (JGD2011_UTM_NAMES ! unat (c - 6688)))
      else if 3097 \<le> c \<and> c \<le> 3101 then Some (projected c (JGD2000_UTM_NAMES ! unat (c - 3097)))
      else if 32601 \<le> c \<and> c \<le> 32660 then Some (projected c (UTM_NORTH_NAMES ! unat (c - 32601)))
      else if 32701 \<le> c \<and> c \<le> 32760 then Some (projected c (UTM_SOUTH_NAMES ! unat (c - 32701)))
      else None)"

definition crs_kind_of :: "crs \<Rightarrow> crs_kind" where
  "crs_kind_of crs = (case crs_definition crs of None \<Rightarrow> UnknownKind | Some d \<Rightarrow> def_kind d)"

definition crs_coordinate_unit :: "crs \<Rightarrow> coordinate_unit" where
  "crs_coordinate_unit crs = (case crs_definition crs of None \<Rightarrow> UnknownUnit | Some d \<Rightarrow> def_unit d)"

definition crs_is_geographic :: "crs \<Rightarrow> bool" where
  "crs_is_geographic crs = (crs_kind_of crs = Geographic)"

definition crs_is_projected :: "crs \<Rightarrow> bool" where
  "crs_is_projected crs = (crs_kind_of crs = Projected)"

definition crs_require_known :: "crs \<Rightarrow> crs_error + crs_def" where
  "crs_require_known crs = ok_or (crs_definition crs) (Unsupported (crs_identifier crs))"

definition in_closed_range :: "f64 \<Rightarrow> f64 \<Rightarrow> f64 \<Rightarrow> bool" where
  "in_closed_range lo hi x = (f64_le lo x \<and> f64_le x hi)"

definition crs_validate_coordinate :: "crs \<Rightarrow> f64 \<Rightarrow> f64 \<Rightarrow> crs_error + unit" where
  "crs_validate_coordinate crs x y =
     and_then (crs_require_known crs) (\<lambda>d.
       if \<not> f64_is_finite x \<or> \<not> f64_is_finite y then Err (NonFiniteCoordinate x y)
       else if (def_code d = WGS84_EPSG \<or> def_code d = JGD2011_EPSG) \<and>
          (\<not> in_closed_range (Fin (-180)) (Fin 180) x \<or> \<not> in_closed_range (Fin (-90)) (Fin 90) y)
       then Err (CoordinateOutOfRange x y)
       else Ok ())"

section \<open>Source snapshots\<close>

definition source_version_new :: "string \<Rightarrow> string" where
  "source_version_new value = trim value"

datatype checksum_verification = Verified | Declared | UnknownChecksum | Mismatch

fun checksum_is_verified :: "checksum_verification \<Rightarrow> bool" where
  "checksum_is_verified Verified = True"
| "checksum_is_verified _ = False"

record source_metadata =
  src_dataset_id :: "string option"
  src_uri :: string
  src_license :: "string option"
  src_checksum :: "string option"
  src_expected_checksum :: "string option"
  src_observed_checksum :: "string option"
  src_retrieved_at :: "string option"
  src_source_version :: "string option"
  src_checksum_status :: checksum_verification

type_synonym source_snapshot = source_metadata

definition source_metadata_new :: "string \<Rightarrow> source_metadata" where
  "source_metadata_new uri =
     \<lparr>src_dataset_id = None, src_uri = uri, src_license = None, src_checksum = None,
      src_expected_checksum = None, src_observed_checksum = None, src_retrieved_at = None,
      src_source_version = None, src_checksum_status = UnknownChecksum\<rparr>"

definition local_path :: "string \<Rightarrow> string option" where
  "local_path uri =
     (case strip_prefix ''file://'' uri of
        Some path \<Rightarrow> Some path
      | None \<Rightarrow> if sublist ''://'' uri then None else Some uri)"

text \<open>\<open>fs path\<close> is the content of a readable file, \<^const>\<open>None\<close> when opening or reading it
  fails. The source feeds the hash in blocks of 64 KiB; the digest of a message does not depend on
  how it is fed.\<close>

definition sha256_file :: "sha256 \<Rightarrow> (string \<rightharpoonup> string) \<Rightarrow> string \<Rightarrow> string option" where
  "sha256_file sha fs path = map_option (\<lambda>bytes. ''sha256:'' @ hex (sha bytes)) (fs path)"

definition normalize_sha256 :: "string \<Rightarrow> string option" where
  "normalize_sha256 value =
     (let h = (case strip_prefix ''sha256:'' value of None \<Rightarrow> value | Some h \<Rightarrow> h)
      in if length h = 64 \<and> list_all is_ascii_hexdigit h
         then Some (''sha256:'' @ map to_ascii_lowercase h) else None)"

definition source_from_uri ::
  "sha256 \<Rightarrow> (string \<rightharpoonup> string) \<Rightarrow> string \<Rightarrow> string option \<Rightarrow> string option \<Rightarrow> source_metadata" where
  "source_from_uri sha fs uri expected_checksum source_version =
     (let version = (case source_version of
                       None \<Rightarrow> None
                     | Some v \<Rightarrow> if blank v then None else Some (source_version_new v));
          expected = (case expected_checksum of
                        None \<Rightarrow> None
                      | Some c \<Rightarrow> if trim c = [] then None else Some (trim c));
          source = (source_metadata_new uri)\<lparr>src_source_version := version,
                      src_expected_checksum := expected\<rparr>;
          declared = source\<lparr>src_checksum := expected,
                      src_checksum_status := (if expected \<noteq> None then Declared else UnknownChecksum)\<rparr>
      in case local_path uri of
           None \<Rightarrow> declared
         | Some path \<Rightarrow>
             (case sha256_file sha fs path of
                None \<Rightarrow> declared
              | Some actual \<Rightarrow>
                  source\<lparr>src_checksum := Some actual, src_observed_checksum := Some actual,
                    src_checksum_status :=
                      (case expected of
                         Some e \<Rightarrow> if normalize_sha256 e = Some actual then Verified else Mismatch
                       | None \<Rightarrow> Verified)\<rparr>))"

definition with_retrieved_at :: "source_metadata \<Rightarrow> string \<Rightarrow> source_metadata" where
  "with_retrieved_at source instant = source\<lparr>src_retrieved_at := Some instant\<rparr>"

record spatial_metadata =
  sm_crs :: crs
  sm_coordinate_unit :: coordinate_unit
  sm_source :: source_metadata

definition spatial_metadata_new :: "crs \<Rightarrow> source_metadata \<Rightarrow> crs_error + spatial_metadata" where
  "spatial_metadata_new crs source =
     and_then (crs_require_known crs) (\<lambda>d.
       Ok \<lparr>sm_crs = crs, sm_coordinate_unit = def_unit d, sm_source = source\<rparr>)"

section \<open>Facts\<close>

lemma crs_epsg_simps [simp]: "crs_authority (crs_epsg c) = ''EPSG''" "crs_code (crs_epsg c) = c"
proof -
  have "map to_ascii_uppercase (trim ''EPSG'') = ''EPSG''" by code_simp
  then show "crs_authority (crs_epsg c) = ''EPSG''" "crs_code (crs_epsg c) = c"
    by (simp_all add: crs_epsg_def crs_new_def)
qed

lemma if_SomeE:
  "(if c then Some a else x) = Some d \<Longrightarrow> (c \<Longrightarrow> d = a \<Longrightarrow> R) \<Longrightarrow> (x = Some d \<Longrightarrow> R) \<Longrightarrow> R"
  by (cases c) auto

lemma crs_definition_Some:
  assumes "crs_definition crs = Some d"
  shows "crs_authority crs = ''EPSG''" and "def_code d = crs_code crs"
    and "def_kind d = Geographic \<and> def_unit d = Degrees \<or> def_kind d = Projected \<and> def_unit d = Metres"
proof -
  show a: "crs_authority crs = ''EPSG''"
    by (rule ccontr) (use assms in \<open>simp add: crs_definition_def\<close>)
  have "def_code d = crs_code crs \<and>
      (def_kind d = Geographic \<and> def_unit d = Degrees \<or> def_kind d = Projected \<and> def_unit d = Metres)"
    using assms unfolding crs_definition_def Let_def a simp_thms if_False
    by (elim if_SomeE) (simp_all add: projected_def)
  then show "def_code d = crs_code crs"
    "def_kind d = Geographic \<and> def_unit d = Degrees \<or> def_kind d = Projected \<and> def_unit d = Metres" by blast+
qed

lemma crs_require_known_Ok_iff [simp]: "crs_require_known crs = Ok d \<longleftrightarrow> crs_definition crs = Some d"
  by (simp add: crs_require_known_def)

lemma crs_coordinate_unit_known: "crs_definition crs = Some d \<Longrightarrow> crs_coordinate_unit crs = def_unit d"
  by (simp add: crs_coordinate_unit_def)

lemma crs_wgs84_definition [simp]:
  "crs_definition crs_wgs84 =
     Some \<lparr>def_code = 4326, def_name = ''WGS 84'', def_kind = Geographic, def_unit = Degrees\<rparr>"
  by (simp add: crs_wgs84_def crs_definition_def Let_def)

lemma crs_wgs84_unit [simp]: "crs_coordinate_unit crs_wgs84 = Degrees"
  by (simp add: crs_coordinate_unit_def)

lemma strip_prefix_append [simp]: "strip_prefix p (p @ s) = Some s"
  by (simp add: strip_prefix_def)

lemma crs_identifier_epsg: "crs_identifier (crs_epsg c) = ''EPSG:'' @ show_nat (unat c)"
  by (simp add: crs_identifier_def)

text \<open>The code after the \<open>EPSG:\<close> prefix does not look like another accepted prefix.\<close>

lemma strip_prefix_code:
  "strip_prefix ''urn:ogc:def:crs:'' (''EPSG:'' @ show_nat n) = None"
  "strip_prefix ''EPSG::'' (''EPSG:'' @ show_nat n) = None"
  "strip_prefix ''epsg::'' (''EPSG:'' @ show_nat n) = None"
  "strip_prefix ''EPSG:'' (''EPSG:'' @ show_nat n) = Some (show_nat n)"
proof -
  obtain c cs where n: "show_nat n = c # cs" by (cases "show_nat n") auto
  then have "is_ascii_digit c" using show_nat_digits [of n] by simp
  then have "c \<noteq> CHR '':''" by (auto simp: is_ascii_digit_def)
  then show "strip_prefix ''EPSG::'' (''EPSG:'' @ show_nat n) = None"
    by (simp add: strip_prefix_def n)
qed (simp_all add: strip_prefix_def)

lemma trim_identifier: "trim (''EPSG:'' @ show_nat n) = ''EPSG:'' @ show_nat n"
  by (rule trim_visible) (simp_all add: visible_last_show_nat, simp add: visible_def)

section \<open>Properties\<close>

text \<open>Printing an EPSG reference system and parsing the text back gives the same reference
  system, for every 32-bit code, and so does parsing its OGC URN spelling (\<open>Crs::identifier\<close>,
  \<open>Crs::parse\<close>).\<close>

theorem crs_parse_identifier:
  "crs_parse (crs_identifier (crs_epsg c)) = Ok (crs_epsg c) \<and>
   crs_parse (''urn:ogc:def:crs:EPSG::'' @ show_nat (unat c)) = Ok (crs_epsg c)"
proof -
  have "unat c < 2 ^ 32" using unsigned_less [of c, where 'a = nat] by simp
  then have p: "parse_unsigned (2 ^ 32) (show_nat (unat c)) = Some (unat c)"
    by (rule parse_show_nat)
  have "trim (''urn:ogc:def:crs:EPSG::'' @ show_nat (unat c)) = ''urn:ogc:def:crs:EPSG::'' @ show_nat (unat c)"
    by (rule trim_visible) (simp_all add: visible_last_show_nat, simp add: visible_def)
  then have "crs_parse (''urn:ogc:def:crs:EPSG::'' @ show_nat (unat c)) = Ok (crs_epsg c)"
    using p by (simp add: crs_parse_def strip_prefix_def Let_def ok_or_def)
  moreover have "crs_parse (crs_identifier (crs_epsg c)) = Ok (crs_epsg c)"
    using p unfolding crs_parse_def crs_identifier_epsg trim_identifier
    by (simp add: strip_prefix_code [simplified] Let_def ok_or_def)
  ultimately show ?thesis by simp
qed

text \<open>Every entry of the registry is self-consistent: the definition found for a reference
  system carries the code it was looked up with, belongs to the \<open>EPSG\<close> authority, and pairs a
  geographic system with degrees and a projected one with metres, so a known system never has an
  unknown unit.\<close>

theorem crs_registry_consistent:
  assumes "crs_definition crs = Some d"
  shows "crs_authority crs = ''EPSG'' \<and> def_code d = crs_code crs \<and>
    (crs_is_geographic crs \<and> crs_coordinate_unit crs = Degrees \<or>
     crs_is_projected crs \<and> crs_coordinate_unit crs = Metres)"
  using crs_definition_Some [OF assms] assms
  by (auto simp: crs_is_geographic_def crs_is_projected_def crs_kind_of_def crs_coordinate_unit_def)

theorem crs_registry_consistent_witness:
  "crs_definition (crs_epsg 32654) \<noteq> None \<and> crs_is_projected (crs_epsg 32654) \<and>
     crs_coordinate_unit (crs_epsg 32654) = Metres"
proof -
  have d: "crs_definition (crs_epsg 32654) =
      Some \<lparr>def_code = 32654, def_name = ''WGS 84 / UTM zone 54N'', def_kind = Projected, def_unit = Metres\<rparr>"
    by (simp add: crs_definition_def)
  from crs_registry_consistent [OF d] d show ?thesis
    by (simp add: crs_is_geographic_def crs_kind_of_def)
qed

text \<open>The name tables agree with the explicit entries that precede them.\<close>

lemma utm_names:
  "UTM_NORTH_NAMES = map (\<lambda>z. ''WGS 84 / UTM zone '' @ show_nat z @ ''N'') [1..<61]"
  "UTM_SOUTH_NAMES = map (\<lambda>z. ''WGS 84 / UTM zone '' @ show_nat z @ ''S'') [1..<61]"
  by code_simp+

lemma utm_north:
  assumes "1 \<le> z" "z \<le> 60"
  shows "crs_definition (crs_epsg (of_nat (32600 + z))) =
       Some (projected (of_nat (32600 + z)) (UTM_NORTH_NAMES ! (z - 1)))"
proof -
  define c :: u32 where "c = of_nat (32600 + z)"
  have u: "unat c = 32600 + z" unfolding c_def unat_of_nat using assms by simp
  have i: "unat (c - 32601) = z - 1"
    using u assms by (subst unat_sub) (auto simp: word_le_nat_alt)
  have named: "UTM_NORTH_NAMES ! 16 = ''WGS 84 / UTM zone 17N''"
    "UTM_NORTH_NAMES ! 17 = ''WGS 84 / UTM zone 18N''"
    "UTM_NORTH_NAMES ! 53 = ''WGS 84 / UTM zone 54N''"
    by (simp_all add: UTM_NORTH_NAMES_def)
  show ?thesis
    unfolding c_def [symmetric]
    using assms named
    by (auto simp: crs_definition_def Let_def i word_unat_eq_iff word_le_nat_alt u projected_def)
qed

lemma utm_south:
  assumes "1 \<le> z" "z \<le> 60"
  shows "crs_definition (crs_epsg (of_nat (32700 + z))) =
       Some (projected (of_nat (32700 + z)) (UTM_SOUTH_NAMES ! (z - 1)))"
proof -
  define c :: u32 where "c = of_nat (32700 + z)"
  have u: "unat c = 32700 + z" unfolding c_def unat_of_nat using assms by simp
  have i: "unat (c - 32701) = z - 1"
    using u assms by (subst unat_sub) (auto simp: word_le_nat_alt)
  show ?thesis
    unfolding c_def [symmetric]
    using assms by (simp add: crs_definition_def Let_def i word_unat_eq_iff word_le_nat_alt u)
qed

text \<open>For each of the sixty UTM zones the registry finds both hemispheres (EPSG 32601--32660
  and 32701--32760) with the name of that zone, projected and in metres; in particular the entries
  written out for zones 17N, 18N and 54N agree with the name table they shadow and no table
  access is out of range.\<close>

theorem crs_utm_zones:
  assumes "1 \<le> z" "z \<le> 60"
  shows "crs_definition (crs_epsg (of_nat (32600 + z))) =
       Some (projected (of_nat (32600 + z)) (''WGS 84 / UTM zone '' @ show_nat z @ ''N'')) \<and>
     crs_definition (crs_epsg (of_nat (32700 + z))) =
       Some (projected (of_nat (32700 + z)) (''WGS 84 / UTM zone '' @ show_nat z @ ''S''))"
proof -
  have nth: "[1..<61] ! (z - 1) = z" using assms by (subst nth_upt) auto
  have "UTM_NORTH_NAMES ! (z - 1) = ''WGS 84 / UTM zone '' @ show_nat z @ ''N''"
    "UTM_SOUTH_NAMES ! (z - 1) = ''WGS 84 / UTM zone '' @ show_nat z @ ''S''"
    using assms nth by (simp_all add: utm_names)
  with utm_north [OF assms] utm_south [OF assms] show ?thesis by simp
qed

theorem crs_utm_zones_witness:
  "(1 :: nat) \<le> 17 \<and> crs_definition (crs_epsg 32617) = Some (projected 32617 (''WGS 84 / UTM zone '' @ show_nat 17 @ ''N''))"
  using crs_utm_zones [of 17] by simp

text \<open>\<open>Crs::validate_coordinate\<close> accepts a coordinate exactly when the system is registered,
  both ordinates are finite and, for WGS 84 and JGD2011, the longitude lies in [-180, 180] and the
  latitude in [-90, 90].\<close>

theorem crs_validate_coordinate_iff:
  "crs_validate_coordinate crs x y = Ok () \<longleftrightarrow>
     (\<exists>d. crs_definition crs = Some d \<and> f64_is_finite x \<and> f64_is_finite y \<and>
       (def_code d \<in> {4326, 6668} \<longrightarrow>
          \<bar>f64_val x\<bar> \<le> 180 \<and> \<bar>f64_val y\<bar> \<le> 90))"
proof -
  have range: "in_closed_range (Fin (- a)) (Fin a) x \<longleftrightarrow> \<bar>f64_val x\<bar> \<le> a"
    if "f64_is_finite x" for a x
    using that by (cases x) (auto simp: in_closed_range_def f64_le_def)
  show ?thesis
    by (auto simp: crs_validate_coordinate_def result_simps range)
qed

theorem crs_validate_coordinate_iff_witness:
  "crs_validate_coordinate crs_wgs84 (Fin (137 + 1 / 2)) (Fin 35) = Ok () \<and>
   crs_validate_coordinate crs_wgs84 (Fin 181) (Fin 35) \<noteq> Ok ()"
  unfolding crs_validate_coordinate_iff by simp

text \<open>The range check covers WGS 84 and JGD2011 only. JGD2000 (EPSG 4612) is registered as a
  geographic system in degrees, yet every finite pair is accepted for it, for instance longitude
  500 and latitude -1000, although the function is documented to validate against the axis domain
  of the system.\<close>

theorem crs_jgd2000_unchecked:
  "crs_is_geographic (crs_epsg 4612) \<and> crs_coordinate_unit (crs_epsg 4612) = Degrees \<and>
   (\<forall>x y. crs_validate_coordinate (crs_epsg 4612) (Fin x) (Fin y) = Ok ())"
proof -
  have d: "crs_definition (crs_epsg 4612) =
      Some \<lparr>def_code = 4612, def_name = ''JGD2000'', def_kind = Geographic, def_unit = Degrees\<rparr>"
    by (simp add: crs_definition_def)
  then show ?thesis
    by (simp add: crs_is_geographic_def crs_kind_of_def crs_coordinate_unit_def
        crs_validate_coordinate_def result_simps)
qed

text \<open>\<open>SourceMetadata::from_uri\<close> reports a checksum as verified only for a local file whose
  bytes were read and hashed, recording that hash as the observed checksum, and only when a
  declared checksum, if there was one, denotes the same hash; an external URI or an unreadable file
  is at most declared.\<close>

theorem source_from_uri_verified:
  assumes "src_checksum_status (source_from_uri sha fs uri expected version) = Verified"
  shows "\<exists>path bytes. local_path uri = Some path \<and> fs path = Some bytes \<and>
     src_observed_checksum (source_from_uri sha fs uri expected version) =
       Some (''sha256:'' @ hex (sha bytes)) \<and>
     (\<forall>e. src_expected_checksum (source_from_uri sha fs uri expected version) = Some e \<longrightarrow>
        normalize_sha256 e = Some (''sha256:'' @ hex (sha bytes)))"
  using assms
  by (auto simp: source_from_uri_def Let_def sha256_file_def source_metadata_new_def
      split: option.splits if_splits)

theorem source_from_uri_verified_witness:
  "src_checksum_status (source_from_uri (\<lambda>_. [255]) [''a.json'' \<mapsto> ''x''] ''a.json'' None None) = Verified \<and>
   src_observed_checksum (source_from_uri (\<lambda>_. [255]) [''a.json'' \<mapsto> ''x''] ''a.json'' None None) =
     Some ''sha256:ff''"
proof -
  have l: "local_path ''a.json'' = Some ''a.json''" and hex: "hex [255] = ''ff''"
    by code_simp+
  then have v: "src_checksum_status
      (source_from_uri (\<lambda>_. [255]) [''a.json'' \<mapsto> ''x''] ''a.json'' None None) = Verified"
    by (simp add: source_from_uri_def sha256_file_def)
  from source_from_uri_verified [OF v] l v show ?thesis
    by (auto simp: hex)
qed

end
