(* ===== verification/Contract.thy ===== *)
theory Contract
  imports Crs
begin

text \<open>
  \<open>genegis-contract\<close>: the versioned semantic contract of a workflow value, its validation and
  the compatibility report between a provided and a required contract. Enum constructors carry a
  two-letter prefix of their enum, since several Rust enums share variant names. The abstract
  specification of compatibility is \<open>meets\<close>, a relation on contracts that the report is proved to
  decide; it is a preorder on validated contracts, mutual compatibility is sameness of meaning, and a
  validated requirement is met by known values only.
\<close>

definition GEO_CONTRACT_SCHEMA_VERSION :: string where
  "GEO_CONTRACT_SCHEMA_VERSION = ''0.1.0''"

section \<open>Data\<close>

datatype geometry_kind = GkPoint | GkLine | GkPolygon | GkRaster | GkPointCloud | GkMixed | GkUnknown

datatype axis_order = AoXy | AoLongitudeLatitude | AoLatitudeLongitude | AoUnknown

record spatial_extent =
  ext_min_x :: f64
  ext_min_y :: f64
  ext_max_x :: f64
  ext_max_y :: f64

record spatial_resolution =
  res_x :: f64
  res_y :: f64

record spatial_contract =
  sp_geometry_kind :: geometry_kind
  sp_crs :: "crs option"
  sp_axis_order :: axis_order
  sp_coordinate_unit :: coordinate_unit
  sp_extent :: "spatial_extent option"
  sp_resolution :: "spatial_resolution option"

definition spatial_known :: "geometry_kind \<Rightarrow> crs \<Rightarrow> axis_order \<Rightarrow> spatial_contract" where
  "spatial_known kind crs axes =
     \<lparr>sp_geometry_kind = kind, sp_crs = Some crs, sp_axis_order = axes,
      sp_coordinate_unit = crs_coordinate_unit crs, sp_extent = None, sp_resolution = None\<rparr>"

datatype measure_kind =
    MkCount | MkArea | MkLength | MkDensity | MkRate | MkRatio | MkCategory | MkIdentifier
  | MkGeometry | MkUnknown

datatype aggregation_basis = AbSum | AbMean | AbCount | AbRatioOfSums | AbNone | AbUnknown

record measure_term =
  mt_kind :: measure_kind
  mt_unit :: string

record measure_contract =
  me_kind :: measure_kind
  me_unit :: string
  me_numerator :: "measure_term option"
  me_denominator :: "measure_term option"
  me_aggregation :: aggregation_basis
  me_population_universe :: "string option"

definition measure_simple :: "measure_kind \<Rightarrow> string \<Rightarrow> aggregation_basis \<Rightarrow> measure_contract" where
  "measure_simple kind unit basis =
     \<lparr>me_kind = kind, me_unit = unit, me_numerator = None, me_denominator = None,
      me_aggregation = basis, me_population_universe = None\<rparr>"

datatype temporal_granularity = TgYear | TgMonth | TgDay | TgInstant | TgInterval | TgUnknown

record temporal_contract =
  te_reference_period :: string
  te_granularity :: temporal_granularity
  te_observed_at :: "string option"

datatype key_uniqueness = KuUnique | KuNonUnique | KuUnknown

datatype null_policy = NpReject | NpPreserve | NpDrop | NpUnknown

record coverage_contract =
  co_scope :: string
  co_expected_feature_count :: "u64 option"
  co_join_keys :: "string list"
  co_key_uniqueness :: key_uniqueness
  co_null_policy :: null_policy

record source_contract =
  so_snapshot :: source_snapshot
  so_authority :: "string option"
  so_max_age_days :: "u32 option"

definition source_contract_new :: "source_snapshot \<Rightarrow> source_contract" where
  "source_contract_new snapshot =
     \<lparr>so_snapshot = snapshot, so_authority = None, so_max_age_days = None\<rparr>"

record uncertainty =
  un_method :: string
  un_absolute :: "f64 option"
  un_relative_ppm :: "u64 option"

record quality_tolerance =
  qt_metric :: string
  qt_max_error_ppm :: u64

record quality_contract =
  qc_uncertainty :: "uncertainty option"
  qc_tolerances :: "quality_tolerance list"

record geo_contract =
  gc_schema_version :: string
  gc_id :: string
  gc_spatial :: "spatial_contract option"
  gc_measure :: "measure_contract option"
  gc_temporal :: "temporal_contract option"
  gc_coverage :: "coverage_contract option"
  gc_source :: "source_contract option"
  gc_quality :: quality_contract

definition geo_contract_new :: "string \<Rightarrow> geo_contract" where
  "geo_contract_new ident =
     \<lparr>gc_schema_version = GEO_CONTRACT_SCHEMA_VERSION, gc_id = ident, gc_spatial = None,
      gc_measure = None, gc_temporal = None, gc_coverage = None, gc_source = None,
      gc_quality = \<lparr>qc_uncertainty = None, qc_tolerances = []\<rparr>\<rparr>"

definition with_spatial :: "geo_contract \<Rightarrow> spatial_contract \<Rightarrow> geo_contract" where
  "with_spatial c s = c\<lparr>gc_spatial := Some s\<rparr>"
definition with_measure :: "geo_contract \<Rightarrow> measure_contract \<Rightarrow> geo_contract" where
  "with_measure c m = c\<lparr>gc_measure := Some m\<rparr>"
definition with_temporal :: "geo_contract \<Rightarrow> temporal_contract \<Rightarrow> geo_contract" where
  "with_temporal c t = c\<lparr>gc_temporal := Some t\<rparr>"
definition with_coverage :: "geo_contract \<Rightarrow> coverage_contract \<Rightarrow> geo_contract" where
  "with_coverage c v = c\<lparr>gc_coverage := Some v\<rparr>"
definition with_source :: "geo_contract \<Rightarrow> source_contract \<Rightarrow> geo_contract" where
  "with_source c s = c\<lparr>gc_source := Some s\<rparr>"
definition with_quality :: "geo_contract \<Rightarrow> quality_contract \<Rightarrow> geo_contract" where
  "with_quality c q = c\<lparr>gc_quality := q\<rparr>"

section \<open>Validation\<close>

datatype contract_error =
    UnsupportedSchemaVersion string
  | EmptyField string
  | UnknownSemantic string
  | CoordinateUnitMismatch string coordinate_unit coordinate_unit
  | InvalidExtent
  | InvalidResolution
  | MissingMeasureTerms
  | DuplicateValue string string
  | InvalidQuality string
  | InvalidCrs crs_error

definition require_text :: "string \<Rightarrow> string \<Rightarrow> contract_error + unit" where
  "require_text value field =
     (if trim value = [] \<or> eq_ignore_ascii_case (trim value) ''unknown''
      then Err (EmptyField field) else Ok ())"

definition require_text_opt :: "string option \<Rightarrow> string \<Rightarrow> contract_error + unit" where
  "require_text_opt value field = (case value of None \<Rightarrow> Ok () | Some v \<Rightarrow> require_text v field)"

definition validate_extent :: "spatial_extent \<Rightarrow> contract_error + unit" where
  "validate_extent e =
     reject (\<not> list_all f64_is_finite [ext_min_x e, ext_min_y e, ext_max_x e, ext_max_y e] \<or>
        f64_lt (ext_max_x e) (ext_min_x e) \<or> f64_lt (ext_max_y e) (ext_min_y e)) InvalidExtent"

definition validate_resolution :: "spatial_resolution \<Rightarrow> contract_error + unit" where
  "validate_resolution r =
     reject (\<not> f64_is_finite (res_x r) \<or> \<not> f64_is_finite (res_y r) \<or>
        f64_le (res_x r) (Fin 0) \<or> f64_le (res_y r) (Fin 0)) InvalidResolution"

definition validate_spatial :: "spatial_contract \<Rightarrow> contract_error + unit" where
  "validate_spatial s =
     and_then (reject (sp_geometry_kind s = GkUnknown) (UnknownSemantic ''spatial.geometry_kind'')) (\<lambda>_.
     and_then (reject (sp_axis_order s = AoUnknown) (UnknownSemantic ''spatial.axis_order'')) (\<lambda>_.
     and_then (reject (sp_coordinate_unit s = UnknownUnit) (UnknownSemantic ''spatial.coordinate_unit'')) (\<lambda>_.
     and_then (ok_or (sp_crs s) (UnknownSemantic ''spatial.crs'')) (\<lambda>crs.
     and_then (map_err InvalidCrs (crs_require_known crs)) (\<lambda>d.
     and_then (reject (def_unit d \<noteq> sp_coordinate_unit s)
       (CoordinateUnitMismatch (crs_identifier crs) (def_unit d) (sp_coordinate_unit s))) (\<lambda>_.
     and_then (case sp_extent s of None \<Rightarrow> Ok () | Some e \<Rightarrow> validate_extent e) (\<lambda>_.
     case sp_resolution s of None \<Rightarrow> Ok () | Some r \<Rightarrow> validate_resolution r)))))))"

definition validate_term :: "string \<Rightarrow> measure_term option \<Rightarrow> contract_error + unit" where
  "validate_term field t =
     (case t of
        None \<Rightarrow> Ok ()
      | Some t \<Rightarrow> and_then (reject (mt_kind t = MkUnknown) (UnknownSemantic field)) (\<lambda>_.
          require_text (mt_unit t) field))"

definition validate_measure :: "measure_contract \<Rightarrow> contract_error + unit" where
  "validate_measure m =
     and_then (reject (me_kind m = MkUnknown) (UnknownSemantic ''measure.kind'')) (\<lambda>_.
     and_then (require_text (me_unit m) ''measure.unit'') (\<lambda>_.
     and_then (reject (me_aggregation m = AbUnknown) (UnknownSemantic ''measure.aggregation'')) (\<lambda>_.
     and_then (reject (me_kind m \<in> {MkDensity, MkRate, MkRatio} \<and>
        (me_numerator m = None \<or> me_denominator m = None)) MissingMeasureTerms) (\<lambda>_.
     and_then (validate_term ''measure.numerator.unit'' (me_numerator m)) (\<lambda>_.
     and_then (validate_term ''measure.denominator.unit'' (me_denominator m)) (\<lambda>_.
     require_text_opt (me_population_universe m) ''measure.population_universe''))))))"

definition validate_temporal :: "temporal_contract \<Rightarrow> contract_error + unit" where
  "validate_temporal t =
     and_then (require_text (te_reference_period t) ''temporal.reference_period'') (\<lambda>_.
     and_then (reject (te_granularity t = TgUnknown) (UnknownSemantic ''temporal.granularity'')) (\<lambda>_.
     require_text_opt (te_observed_at t) ''temporal.observed_at''))"

text \<open>A loop over named values that must be non-blank and pairwise different.\<close>

definition unique_texts :: "string \<Rightarrow> string list \<Rightarrow> contract_error + string list" where
  "unique_texts field values =
     try_fold (\<lambda>seen v. and_then (require_text v field) (\<lambda>_.
       if v \<in> set seen then Err (DuplicateValue field v) else Ok (bs_insert v seen))) [] values"

definition validate_coverage :: "coverage_contract \<Rightarrow> contract_error + unit" where
  "validate_coverage c =
     and_then (require_text (co_scope c) ''coverage.scope'') (\<lambda>_.
     and_then (reject (co_key_uniqueness c = KuUnknown) (UnknownSemantic ''coverage.key_uniqueness'')) (\<lambda>_.
     and_then (reject (co_null_policy c = NpUnknown) (UnknownSemantic ''coverage.null_policy'')) (\<lambda>_.
     and_then (reject (co_expected_feature_count c = Some 0)
       (InvalidQuality ''coverage.expected_feature_count'')) (\<lambda>_.
     map_ok (\<lambda>_. ()) (unique_texts ''coverage.join_keys'' (co_join_keys c))))))"

definition validate_source :: "source_contract \<Rightarrow> contract_error + unit" where
  "validate_source s =
     and_then (require_text (src_uri (so_snapshot s)) ''source.snapshot.uri'') (\<lambda>_.
     and_then (require_text_opt (so_authority s) ''source.authority'') (\<lambda>_.
     reject (so_max_age_days s = Some 0) (InvalidQuality ''source.max_age_days'')))"

definition validate_uncertainty :: "uncertainty \<Rightarrow> contract_error + unit" where
  "validate_uncertainty u =
     and_then (require_text (un_method u) ''quality.uncertainty.method'') (\<lambda>_.
     case un_absolute u of
       None \<Rightarrow> Ok ()
     | Some a \<Rightarrow> reject (\<not> f64_is_finite a \<or> f64_lt a (Fin 0))
                 (InvalidQuality ''quality.uncertainty.absolute''))"

definition optional_section :: "('a \<Rightarrow> 'e + unit) \<Rightarrow> 'a option \<Rightarrow> 'e + unit" where
  "optional_section f x = (case x of None \<Rightarrow> Ok () | Some a \<Rightarrow> f a)"

definition validate_contract :: "geo_contract \<Rightarrow> contract_error + unit" where
  "validate_contract c =
     and_then (reject (gc_schema_version c \<noteq> GEO_CONTRACT_SCHEMA_VERSION)
       (UnsupportedSchemaVersion (gc_schema_version c))) (\<lambda>_.
     and_then (require_text (gc_id c) ''id'') (\<lambda>_.
     and_then (optional_section validate_spatial (gc_spatial c)) (\<lambda>_.
     and_then (optional_section validate_measure (gc_measure c)) (\<lambda>_.
     and_then (optional_section validate_temporal (gc_temporal c)) (\<lambda>_.
     and_then (optional_section validate_coverage (gc_coverage c)) (\<lambda>_.
     and_then (optional_section validate_source (gc_source c)) (\<lambda>_.
     and_then (optional_section validate_uncertainty (qc_uncertainty (gc_quality c))) (\<lambda>_.
     map_ok (\<lambda>_. ()) (unique_texts ''quality.tolerances.metric''
       (map qt_metric (qc_tolerances (gc_quality c))))))))))))"

section \<open>Compatibility report\<close>

datatype compatibility_status = Compatible | Incompatible | Indeterminate

text \<open>The text of a finding; \<open>DebugMismatch\<close> stands for the sentence that embeds the \<open>Debug\<close>
  rendering of the two values.\<close>

datatype finding_detail = Detail string | DebugMismatch

record compatibility_finding =
  cf_field :: string
  cf_status :: compatibility_status
  cf_detail :: finding_detail

record compatibility_report =
  cr_status :: compatibility_status
  cr_findings :: "compatibility_finding list"

definition is_compatible :: "compatibility_report \<Rightarrow> bool" where
  "is_compatible r = (cr_status r = Compatible)"

definition indeterminate :: "string \<Rightarrow> string \<Rightarrow> compatibility_finding" where
  "indeterminate field detail =
     \<lparr>cf_field = field, cf_status = Indeterminate, cf_detail = Detail detail\<rparr>"

text \<open>\<open>eq\<close> is the type's \<open>PartialEq\<close>.\<close>

definition compare_value ::
  "('a \<Rightarrow> 'a \<Rightarrow> bool) \<Rightarrow> string \<Rightarrow> 'a option \<Rightarrow> 'a option \<Rightarrow> compatibility_finding list \<Rightarrow>
   compatibility_finding list" where
  "compare_value eq field provided required findings =
     (case required of
        None \<Rightarrow> findings
      | Some r \<Rightarrow> findings @
          [case provided of
             None \<Rightarrow> indeterminate field ''provided semantic is missing''
           | Some p \<Rightarrow>
               if eq p r
               then \<lparr>cf_field = field, cf_status = Compatible,
                     cf_detail = Detail ''provided semantic matches requirement''\<rparr>
               else \<lparr>cf_field = field, cf_status = Incompatible, cf_detail = DebugMismatch\<rparr>])"

definition compare_optional ::
  "('a \<Rightarrow> 'a \<Rightarrow> bool) \<Rightarrow> string \<Rightarrow> 'a option \<Rightarrow> 'a option \<Rightarrow> compatibility_finding list \<Rightarrow>
   compatibility_finding list" where
  "compare_optional eq field provided required findings =
     (if required = None then findings
      else case provided of
        None \<Rightarrow> findings @ [indeterminate field ''provided semantic is missing'']
      | Some p \<Rightarrow> compare_value eq field (Some p) required findings)"

definition extent_eq :: "spatial_extent \<Rightarrow> spatial_extent \<Rightarrow> bool" where
  "extent_eq a b = (f64_eq (ext_min_x a) (ext_min_x b) \<and> f64_eq (ext_min_y a) (ext_min_y b) \<and>
     f64_eq (ext_max_x a) (ext_max_x b) \<and> f64_eq (ext_max_y a) (ext_max_y b))"

definition resolution_eq :: "spatial_resolution \<Rightarrow> spatial_resolution \<Rightarrow> bool" where
  "resolution_eq a b = (f64_eq (res_x a) (res_x b) \<and> f64_eq (res_y a) (res_y b))"

definition compare_spatial where
  "compare_spatial provided required findings =
     (case required of
        None \<Rightarrow> findings
      | Some r \<Rightarrow>
          (case provided of
             None \<Rightarrow> findings @ [indeterminate ''spatial'' ''provided spatial semantic is missing'']
           | Some p \<Rightarrow>
               (compare_optional resolution_eq ''spatial.resolution'' (sp_resolution p) (sp_resolution r) \<circ>
                compare_optional extent_eq ''spatial.extent'' (sp_extent p) (sp_extent r) \<circ>
                compare_value (=) ''spatial.coordinate_unit'' (Some (sp_coordinate_unit p)) (Some (sp_coordinate_unit r)) \<circ>
                compare_value (=) ''spatial.axis_order'' (Some (sp_axis_order p)) (Some (sp_axis_order r)) \<circ>
                compare_optional (=) ''spatial.crs'' (sp_crs p) (sp_crs r) \<circ>
                compare_value (=) ''spatial.geometry_kind'' (Some (sp_geometry_kind p)) (Some (sp_geometry_kind r)))
               findings))"

definition compare_measure where
  "compare_measure provided required findings =
     (case required of
        None \<Rightarrow> findings
      | Some r \<Rightarrow>
          (case provided of
             None \<Rightarrow> findings @ [indeterminate ''measure'' ''provided measure semantic is missing'']
           | Some p \<Rightarrow>
               (compare_optional (=) ''measure.population_universe'' (me_population_universe p) (me_population_universe r) \<circ>
                compare_optional (=) ''measure.denominator'' (me_denominator p) (me_denominator r) \<circ>
                compare_optional (=) ''measure.numerator'' (me_numerator p) (me_numerator r) \<circ>
                compare_value (=) ''measure.aggregation'' (Some (me_aggregation p)) (Some (me_aggregation r)) \<circ>
                compare_value (=) ''measure.unit'' (Some (me_unit p)) (Some (me_unit r)) \<circ>
                compare_value (=) ''measure.kind'' (Some (me_kind p)) (Some (me_kind r)))
               findings))"

definition compare_temporal where
  "compare_temporal provided required findings =
     (case required of
        None \<Rightarrow> findings
      | Some r \<Rightarrow>
          (case provided of
             None \<Rightarrow> findings @ [indeterminate ''temporal'' ''provided temporal semantic is missing'']
           | Some p \<Rightarrow>
               (compare_optional (=) ''temporal.observed_at'' (te_observed_at p) (te_observed_at r) \<circ>
                compare_value (=) ''temporal.granularity'' (Some (te_granularity p)) (Some (te_granularity r)) \<circ>
                compare_value (=) ''temporal.reference_period'' (Some (te_reference_period p)) (Some (te_reference_period r)))
               findings))"

definition compare_coverage where
  "compare_coverage provided required findings =
     (case required of
        None \<Rightarrow> findings
      | Some r \<Rightarrow>
          (case provided of
             None \<Rightarrow> findings @ [indeterminate ''coverage'' ''provided coverage semantic is missing'']
           | Some p \<Rightarrow>
               (compare_value (=) ''coverage.null_policy'' (Some (co_null_policy p)) (Some (co_null_policy r)) \<circ>
                compare_value (=) ''coverage.key_uniqueness'' (Some (co_key_uniqueness p)) (Some (co_key_uniqueness r)) \<circ>
                (if co_join_keys r \<noteq> []
                 then compare_value (=) ''coverage.join_keys'' (Some (co_join_keys p)) (Some (co_join_keys r))
                 else id) \<circ>
                compare_optional (=) ''coverage.expected_feature_count'' (co_expected_feature_count p) (co_expected_feature_count r) \<circ>
                compare_value (=) ''coverage.scope'' (Some (co_scope p)) (Some (co_scope r)))
               findings))"

definition compare_source where
  "compare_source provided required findings =
     (case required of
        None \<Rightarrow> findings
      | Some r \<Rightarrow>
          (case provided of
             None \<Rightarrow> findings @ [indeterminate ''source'' ''provided source is missing'']
           | Some p \<Rightarrow>
               (compare_optional (=) ''source.authority'' (so_authority p) (so_authority r) \<circ>
                compare_optional (=) ''source.snapshot.expected_checksum''
                  (src_expected_checksum (so_snapshot p)) (src_expected_checksum (so_snapshot r)) \<circ>
                compare_optional (=) ''source.snapshot.source_version''
                  (src_source_version (so_snapshot p)) (src_source_version (so_snapshot r)) \<circ>
                compare_value (=) ''source.snapshot.uri'' (Some (src_uri (so_snapshot p))) (Some (src_uri (so_snapshot r))))
               findings))"

definition compare_tolerance :: "quality_tolerance list \<Rightarrow> quality_tolerance \<Rightarrow> compatibility_finding" where
  "compare_tolerance provided required =
     (let field = ''quality.tolerances.'' @ qt_metric required
      in case find (\<lambda>c. qt_metric c = qt_metric required) provided of
           None \<Rightarrow> indeterminate field ''required tolerance is missing''
         | Some c \<Rightarrow>
             if qt_max_error_ppm c \<le> qt_max_error_ppm required
             then \<lparr>cf_field = field, cf_status = Compatible,
                   cf_detail = Detail ''provided tolerance is at least as strict as required''\<rparr>
             else \<lparr>cf_field = field, cf_status = Incompatible,
                   cf_detail = Detail (''provided maximum '' @ show_nat (unat (qt_max_error_ppm c)) @
                     '' ppm exceeds required '' @ show_nat (unat (qt_max_error_ppm required)) @ '' ppm'')\<rparr>)"

definition overall_status :: "compatibility_finding list \<Rightarrow> compatibility_status" where
  "overall_status findings =
     (if \<exists>f \<in> set findings. cf_status f = Incompatible then Incompatible
      else if \<exists>f \<in> set findings. cf_status f = Indeterminate then Indeterminate
      else Compatible)"

definition compare_contracts :: "geo_contract \<Rightarrow> geo_contract \<Rightarrow> compatibility_report" where
  "compare_contracts provided required =
     (let findings = (compare_source (gc_source provided) (gc_source required) \<circ>
            compare_coverage (gc_coverage provided) (gc_coverage required) \<circ>
            compare_temporal (gc_temporal provided) (gc_temporal required) \<circ>
            compare_measure (gc_measure provided) (gc_measure required) \<circ>
            compare_spatial (gc_spatial provided) (gc_spatial required) \<circ>
            compare_value (=) ''schema_version'' (Some (gc_schema_version provided)) (Some (gc_schema_version required))) [];
          findings = findings @ map (compare_tolerance (qc_tolerances (gc_quality provided)))
            (qc_tolerances (gc_quality required))
      in \<lparr>cr_status = overall_status findings, cr_findings = findings\<rparr>)"

section \<open>What the report decides\<close>

text \<open>Abstract specification: the provided contract supplies every required meaning.\<close>

definition opt_meets :: "('a \<Rightarrow> 'a \<Rightarrow> bool) \<Rightarrow> 'a option \<Rightarrow> 'a option \<Rightarrow> bool" where
  "opt_meets eq p r \<longleftrightarrow> (\<forall>y. r = Some y \<longrightarrow> (\<exists>x. p = Some x \<and> eq x y))"

definition spatial_meets :: "spatial_contract \<Rightarrow> spatial_contract \<Rightarrow> bool" where
  "spatial_meets p r \<longleftrightarrow> sp_geometry_kind p = sp_geometry_kind r \<and> opt_meets (=) (sp_crs p) (sp_crs r) \<and>
     sp_axis_order p = sp_axis_order r \<and> sp_coordinate_unit p = sp_coordinate_unit r \<and>
     opt_meets extent_eq (sp_extent p) (sp_extent r) \<and>
     opt_meets resolution_eq (sp_resolution p) (sp_resolution r)"

definition measure_meets :: "measure_contract \<Rightarrow> measure_contract \<Rightarrow> bool" where
  "measure_meets p r \<longleftrightarrow> me_kind p = me_kind r \<and> me_unit p = me_unit r \<and>
     me_aggregation p = me_aggregation r \<and> opt_meets (=) (me_numerator p) (me_numerator r) \<and>
     opt_meets (=) (me_denominator p) (me_denominator r) \<and>
     opt_meets (=) (me_population_universe p) (me_population_universe r)"

definition temporal_meets :: "temporal_contract \<Rightarrow> temporal_contract \<Rightarrow> bool" where
  "temporal_meets p r \<longleftrightarrow> te_reference_period p = te_reference_period r \<and>
     te_granularity p = te_granularity r \<and> opt_meets (=) (te_observed_at p) (te_observed_at r)"

definition coverage_meets :: "coverage_contract \<Rightarrow> coverage_contract \<Rightarrow> bool" where
  "coverage_meets p r \<longleftrightarrow> co_scope p = co_scope r \<and>
     opt_meets (=) (co_expected_feature_count p) (co_expected_feature_count r) \<and>
     (co_join_keys r \<noteq> [] \<longrightarrow> co_join_keys p = co_join_keys r) \<and>
     co_key_uniqueness p = co_key_uniqueness r \<and> co_null_policy p = co_null_policy r"

definition source_meets :: "source_contract \<Rightarrow> source_contract \<Rightarrow> bool" where
  "source_meets p r \<longleftrightarrow> src_uri (so_snapshot p) = src_uri (so_snapshot r) \<and>
     opt_meets (=) (src_source_version (so_snapshot p)) (src_source_version (so_snapshot r)) \<and>
     opt_meets (=) (src_expected_checksum (so_snapshot p)) (src_expected_checksum (so_snapshot r)) \<and>
     opt_meets (=) (so_authority p) (so_authority r)"

definition tolerance_meets :: "quality_tolerance list \<Rightarrow> quality_tolerance \<Rightarrow> bool" where
  "tolerance_meets ps r \<longleftrightarrow>
     (\<exists>c. find (\<lambda>c. qt_metric c = qt_metric r) ps = Some c \<and> qt_max_error_ppm c \<le> qt_max_error_ppm r)"

definition meets :: "geo_contract \<Rightarrow> geo_contract \<Rightarrow> bool" where
  "meets p r \<longleftrightarrow> gc_schema_version p = gc_schema_version r \<and>
     opt_meets spatial_meets (gc_spatial p) (gc_spatial r) \<and>
     opt_meets measure_meets (gc_measure p) (gc_measure r) \<and>
     opt_meets temporal_meets (gc_temporal p) (gc_temporal r) \<and>
     opt_meets coverage_meets (gc_coverage p) (gc_coverage r) \<and>
     opt_meets source_meets (gc_source p) (gc_source r) \<and>
     (\<forall>t \<in> set (qc_tolerances (gc_quality r)). tolerance_meets (qc_tolerances (gc_quality p)) t)"

definition all_compatible :: "compatibility_finding list \<Rightarrow> bool" where
  "all_compatible fs \<longleftrightarrow> (\<forall>f \<in> set fs. cf_status f = Compatible)"

named_theorems compat_simps \<open>when a comparison adds only compatible findings\<close>

lemma opt_meets_Some [simp]: "opt_meets eq (Some x) (Some y) \<longleftrightarrow> eq x y"
  by (simp add: opt_meets_def)

lemma opt_meets_None [simp]: "opt_meets eq p None" "\<not> opt_meets eq None (Some y)"
  by (simp_all add: opt_meets_def)

lemma all_compatible_append [compat_simps]:
  "all_compatible (fs @ gs) \<longleftrightarrow> all_compatible fs \<and> all_compatible gs"
  by (auto simp: all_compatible_def)

lemma all_compatible_indeterminate [compat_simps]: "\<not> all_compatible [indeterminate f d]"
  by (simp add: all_compatible_def indeterminate_def)

lemma all_compatible_Nil [simp]: "all_compatible []"
  by (simp add: all_compatible_def)

lemma compare_value_compat [compat_simps]:
  "all_compatible (compare_value eq f p r fs) \<longleftrightarrow> all_compatible fs \<and> opt_meets eq p r"
  by (cases p; cases r)
    (simp_all add: compare_value_def compat_simps, simp add: all_compatible_def)

lemma compare_optional_compat [compat_simps]:
  "all_compatible (compare_optional eq f p r fs) \<longleftrightarrow> all_compatible fs \<and> opt_meets eq p r"
  by (cases p; cases r) (simp_all add: compare_optional_def compat_simps)

lemma compare_sections_compat [compat_simps]:
  "all_compatible (compare_spatial p1 r1 fs) \<longleftrightarrow> all_compatible fs \<and> opt_meets spatial_meets p1 r1"
  "all_compatible (compare_measure p2 r2 fs) \<longleftrightarrow> all_compatible fs \<and> opt_meets measure_meets p2 r2"
  "all_compatible (compare_temporal p3 r3 fs) \<longleftrightarrow> all_compatible fs \<and> opt_meets temporal_meets p3 r3"
  "all_compatible (compare_coverage p4 r4 fs) \<longleftrightarrow> all_compatible fs \<and> opt_meets coverage_meets p4 r4"
  "all_compatible (compare_source p5 r5 fs) \<longleftrightarrow> all_compatible fs \<and> opt_meets source_meets p5 r5"
  by (auto simp: compare_spatial_def compare_measure_def compare_temporal_def compare_coverage_def
      compare_source_def spatial_meets_def measure_meets_def temporal_meets_def coverage_meets_def
      source_meets_def compat_simps split: option.splits)

lemma compare_tolerance_compat [compat_simps]:
  "all_compatible (map (compare_tolerance ps) rs) \<longleftrightarrow> (\<forall>t \<in> set rs. tolerance_meets ps t)"
  by (auto simp: all_compatible_def compare_tolerance_def tolerance_meets_def indeterminate_def Let_def
      split: option.splits)

lemma overall_status_Compatible: "overall_status fs = Compatible \<longleftrightarrow> all_compatible fs"
proof -
  have "s = Compatible \<longleftrightarrow> s \<noteq> Incompatible \<and> s \<noteq> Indeterminate" for s by (cases s) auto
  then show ?thesis by (auto simp: overall_status_def all_compatible_def)
qed

text \<open>What a validated contract guarantees about its floating-point fields.\<close>

lemma validate_spatial_Ok:
  assumes "validate_spatial s = Ok ()"
  shows "\<exists>crs d. sp_crs s = Some crs \<and> crs_definition crs = Some d \<and> sp_coordinate_unit s = def_unit d"
    and "\<And>e. sp_extent s = Some e \<Longrightarrow> extent_eq e e"
    and "\<And>r. sp_resolution s = Some r \<Longrightarrow> resolution_eq r r"
  using assms
  by (auto simp: validate_spatial_def validate_extent_def validate_resolution_def result_simps
      extent_eq_def resolution_eq_def f64_is_finite_iff split: option.splits)

lemma opt_meets_refl: "(\<And>x. p = Some x \<Longrightarrow> eq x x) \<Longrightarrow> opt_meets eq p p"
  by (auto simp: opt_meets_def)

lemma opt_meets_trans: "transp eq \<Longrightarrow> opt_meets eq p q \<Longrightarrow> opt_meets eq q r \<Longrightarrow> opt_meets eq p r"
  by (fastforce simp: opt_meets_def dest: transpD)

lemma extent_eq_trans: "transp extent_eq"
  by (rule transpI) (auto simp: extent_eq_def intro: f64_eq_trans)

lemma resolution_eq_trans: "transp resolution_eq"
  by (rule transpI) (auto simp: resolution_eq_def intro: f64_eq_trans)

lemma opt_meets_eq_iff: "opt_meets (=) p r \<longleftrightarrow> r = None \<or> p = r"
  by (cases p; cases r) auto

lemma section_meets_trans:
  "transp measure_meets" "transp temporal_meets" "transp coverage_meets" "transp source_meets"
  by (auto simp: transp_def measure_meets_def temporal_meets_def coverage_meets_def source_meets_def
      opt_meets_eq_iff)

lemma spatial_meets_trans: "transp spatial_meets"
proof (rule transpI)
  fix s1 s2 s3 assume m: "spatial_meets s1 s2" "spatial_meets s2 s3"
  then have "opt_meets extent_eq (sp_extent s1) (sp_extent s3)"
    "opt_meets resolution_eq (sp_resolution s1) (sp_resolution s3)"
    unfolding spatial_meets_def
    using opt_meets_trans [OF extent_eq_trans] opt_meets_trans [OF resolution_eq_trans] by blast+
  with m show "spatial_meets s1 s3" by (auto simp: spatial_meets_def opt_meets_eq_iff)
qed

lemma tolerance_meets_trans:
  assumes "\<forall>t \<in> set qs. tolerance_meets ps t" and "tolerance_meets qs r"
  shows "tolerance_meets ps r"
proof -
  from assms(2) obtain c where c: "c \<in> set qs" "qt_metric c = qt_metric r"
    "qt_max_error_ppm c \<le> qt_max_error_ppm r"
    by (auto simp: tolerance_meets_def dest: find_Some_set)
  with assms(1) have "tolerance_meets ps c" by blast
  with c show ?thesis by (auto simp: tolerance_meets_def)
qed

lemma unique_texts_distinct:
  assumes "unique_texts field values = Ok seen"
  shows "distinct values"
proof -
  define f where "f = (\<lambda>seen v. and_then (require_text v field) (\<lambda>_.
     if v \<in> set seen then Err (DuplicateValue field v) else Ok (bs_insert v seen)))"
  have "distinct vs \<and> set vs \<inter> set s = {}" if "try_fold f s vs = Ok t" for vs s t
    using that
  proof (induction vs arbitrary: s)
    case (Cons a vs)
    then have "a \<notin> set s" and rest: "try_fold f (bs_insert a s) vs = Ok t"
      by (auto simp: f_def result_simps split: if_splits)
    with Cons.IH [OF rest] show ?case by auto
  qed simp
  then show ?thesis using assms unfolding unique_texts_def f_def by blast
qed

lemma find_first_key: "distinct (map f xs) \<Longrightarrow> x \<in> set xs \<Longrightarrow> find (\<lambda>y. f y = f x) xs = Some x"
  by (induction xs) (auto simp: image_iff)

lemma meets_refl:
  assumes "validate_contract c = Ok ()"
  shows "meets c c"
proof -
  have tol: "distinct (map qt_metric (qc_tolerances (gc_quality c)))"
    and sp: "\<And>s. gc_spatial c = Some s \<Longrightarrow> validate_spatial s = Ok ()"
    using assms by (auto simp: validate_contract_def result_simps optional_section_def
        dest!: unique_texts_distinct)
  have "opt_meets spatial_meets (gc_spatial c) (gc_spatial c)"
    using validate_spatial_Ok [OF sp]
    by (intro opt_meets_refl) (auto simp: spatial_meets_def intro: opt_meets_refl)
  moreover have "tolerance_meets (qc_tolerances (gc_quality c)) t"
    if "t \<in> set (qc_tolerances (gc_quality c))" for t
    using find_first_key [OF tol that] by (simp add: tolerance_meets_def)
  ultimately show ?thesis
    by (auto simp: meets_def measure_meets_def temporal_meets_def coverage_meets_def source_meets_def
        intro!: opt_meets_refl)
qed

lemma meets_trans:
  assumes "meets p q" "meets q r"
  shows "meets p r"
proof -
  have "opt_meets spatial_meets (gc_spatial p) (gc_spatial r)"
    using assms opt_meets_trans [OF spatial_meets_trans] unfolding meets_def by blast
  moreover have "opt_meets measure_meets (gc_measure p) (gc_measure r)"
    using assms opt_meets_trans [OF section_meets_trans(1)] unfolding meets_def by blast
  moreover have "opt_meets temporal_meets (gc_temporal p) (gc_temporal r)"
    using assms opt_meets_trans [OF section_meets_trans(2)] unfolding meets_def by blast
  moreover have "opt_meets coverage_meets (gc_coverage p) (gc_coverage r)"
    using assms opt_meets_trans [OF section_meets_trans(3)] unfolding meets_def by blast
  moreover have "opt_meets source_meets (gc_source p) (gc_source r)"
    using assms opt_meets_trans [OF section_meets_trans(4)] unfolding meets_def by blast
  moreover have "tolerance_meets (qc_tolerances (gc_quality p)) t"
    if "t \<in> set (qc_tolerances (gc_quality r))" for t
    using assms that tolerance_meets_trans unfolding meets_def by blast
  ultimately show ?thesis using assms unfolding meets_def by simp
qed

section \<open>Properties\<close>

text \<open>The compatibility report is \<open>compatible\<close> exactly when the provided contract supplies every meaning the
  required one asks for (the abstract relation \<open>meets\<close>): equal schema version and equal required fields
  of the spatial, measure, temporal, coverage and source sections, and a tolerance at least as strict
  for every required metric. An absent field never counts as a match, but an explicit \<open>Unknown\<close> is compared
  like any other value.\<close>

lemma compare_contracts_meets:
  "is_compatible (compare_contracts provided required) \<longleftrightarrow> meets provided required"
  unfolding is_compatible_def compare_contracts_def Let_def meets_def
  by (auto simp: overall_status_Compatible compat_simps)

text \<open>The provided contract says something definite wherever the required one has a section.\<close>

definition known_for :: "geo_contract \<Rightarrow> geo_contract \<Rightarrow> bool" where
  "known_for p r \<longleftrightarrow>
     (gc_spatial r \<noteq> None \<longrightarrow> (\<exists>s. gc_spatial p = Some s \<and> sp_crs s \<noteq> None \<and> sp_geometry_kind s \<noteq> GkUnknown \<and>
        sp_axis_order s \<noteq> AoUnknown \<and> sp_coordinate_unit s \<noteq> UnknownUnit)) \<and>
     (gc_measure r \<noteq> None \<longrightarrow> (\<exists>m. gc_measure p = Some m \<and> me_kind m \<noteq> MkUnknown \<and> me_aggregation m \<noteq> AbUnknown)) \<and>
     (gc_temporal r \<noteq> None \<longrightarrow> (\<exists>t. gc_temporal p = Some t \<and> te_granularity t \<noteq> TgUnknown)) \<and>
     (gc_coverage r \<noteq> None \<longrightarrow> (\<exists>c. gc_coverage p = Some c \<and> co_key_uniqueness c \<noteq> KuUnknown \<and> co_null_policy c \<noteq> NpUnknown))"

lemma opt_meetsD: "opt_meets eq p (Some y) \<Longrightarrow> \<exists>x. p = Some x \<and> eq x y"
  by (cases p) auto

lemma meets_known:
  assumes "validate_contract r = Ok ()" "meets p r" shows "known_for p r"
proof -
  have v: "\<And>x. gc_spatial r = Some x \<Longrightarrow> validate_spatial x = Ok ()" "\<And>x. gc_measure r = Some x \<Longrightarrow> validate_measure x = Ok ()"
    "\<And>x. gc_temporal r = Some x \<Longrightarrow> validate_temporal x = Ok ()" "\<And>x. gc_coverage r = Some x \<Longrightarrow> validate_coverage x = Ok ()"
    using assms(1) by (auto simp: validate_contract_def result_simps optional_section_def)
  have "\<exists>s. gc_spatial p = Some s \<and> sp_crs s \<noteq> None \<and> sp_geometry_kind s \<noteq> GkUnknown \<and>
      sp_axis_order s \<noteq> AoUnknown \<and> sp_coordinate_unit s \<noteq> UnknownUnit" if "gc_spatial r = Some x" for x
    using v(1) [OF that] assms(2) that
    by (auto simp: meets_def spatial_meets_def validate_spatial_def result_simps dest!: opt_meetsD)
  moreover have "\<exists>m. gc_measure p = Some m \<and> me_kind m \<noteq> MkUnknown \<and> me_aggregation m \<noteq> AbUnknown"
    if "gc_measure r = Some x" for x
    using v(2) [OF that] assms(2) that
    by (auto simp: meets_def measure_meets_def validate_measure_def result_simps dest!: opt_meetsD)
  moreover have "\<exists>t. gc_temporal p = Some t \<and> te_granularity t \<noteq> TgUnknown" if "gc_temporal r = Some x" for x
    using v(3) [OF that] assms(2) that
    by (auto simp: meets_def temporal_meets_def validate_temporal_def result_simps dest!: opt_meetsD)
  moreover have "\<exists>c. gc_coverage p = Some c \<and> co_key_uniqueness c \<noteq> KuUnknown \<and> co_null_policy c \<noteq> NpUnknown"
    if "gc_coverage r = Some x" for x
    using v(4) [OF that] assms(2) that
    by (auto simp: meets_def coverage_meets_def validate_coverage_def result_simps dest!: opt_meetsD)
  ultimately show ?thesis unfolding known_for_def by blast
qed

text \<open>Two contracts state the same: they have the same sections with the same fields, up to equality of
  floating-point numbers, name the same source and grant the same tolerance for every metric.\<close>

definition granted :: "geo_contract \<Rightarrow> string \<Rightarrow> u64 option" where
  "granted c metric = map_option qt_max_error_ppm (find (\<lambda>t. qt_metric t = metric) (qc_tolerances (gc_quality c)))"

definition same_meaning :: "geo_contract \<Rightarrow> geo_contract \<Rightarrow> bool" where
  "same_meaning p q \<longleftrightarrow> gc_schema_version p = gc_schema_version q \<and> gc_measure p = gc_measure q \<and>
     gc_temporal p = gc_temporal q \<and> gc_coverage p = gc_coverage q \<and>
     rel_option (\<lambda>s t. sp_geometry_kind s = sp_geometry_kind t \<and> sp_crs s = sp_crs t \<and> sp_axis_order s = sp_axis_order t \<and>
       sp_coordinate_unit s = sp_coordinate_unit t \<and> rel_option extent_eq (sp_extent s) (sp_extent t) \<and>
       rel_option resolution_eq (sp_resolution s) (sp_resolution t)) (gc_spatial p) (gc_spatial q) \<and>
     rel_option (\<lambda>s t. src_uri (so_snapshot s) = src_uri (so_snapshot t) \<and>
       src_source_version (so_snapshot s) = src_source_version (so_snapshot t) \<and>
       src_expected_checksum (so_snapshot s) = src_expected_checksum (so_snapshot t) \<and>
       so_authority s = so_authority t) (gc_source p) (gc_source q) \<and>
     granted p = granted q"

lemma opt_meets_both: "opt_meets eq p q \<Longrightarrow> opt_meets eq q p \<Longrightarrow> rel_option (\<lambda>x y. eq x y \<and> eq y x) p q"
  by (cases p; cases q) auto

lemma opt_meets_antisym: "opt_meets (=) p q \<Longrightarrow> opt_meets (=) q p \<Longrightarrow> p = q"
  by (cases p; cases q) auto

lemma opt_meets_rel: "opt_meets eq p q \<Longrightarrow> opt_meets eq q p \<Longrightarrow> rel_option eq p q"
  by (cases p; cases q) auto

lemma tolerances_both:
  assumes "\<forall>t \<in> set (qc_tolerances (gc_quality q)). tolerance_meets (qc_tolerances (gc_quality p)) t"
    and "\<forall>t \<in> set (qc_tolerances (gc_quality p)). tolerance_meets (qc_tolerances (gc_quality q)) t"
  shows "granted p = granted q"
proof
  have le: "\<exists>c. granted p metric = Some c \<and> c \<le> b"
    if m: "\<forall>t \<in> set (qc_tolerances (gc_quality q)). tolerance_meets (qc_tolerances (gc_quality p)) t"
      and b: "granted q metric = Some b" for p q metric b
  proof -
    obtain t where "t \<in> set (qc_tolerances (gc_quality q))" "qt_metric t = metric" "qt_max_error_ppm t = b"
      using b by (auto simp: granted_def find_Some_iff) (metis nth_mem)
    then show ?thesis using m by (auto simp: tolerance_meets_def granted_def)
  qed
  show "granted p metric = granted q metric" for metric
    using le [OF assms(1), of metric] le [OF assms(2), of metric]
    by (cases "granted p metric"; cases "granted q metric") auto
qed

lemma sections_antisym:
  "measure_meets x y \<Longrightarrow> measure_meets y x \<Longrightarrow> x = y"
  "temporal_meets x' y' \<Longrightarrow> temporal_meets y' x' \<Longrightarrow> x' = y'"
  "coverage_meets x'' y'' \<Longrightarrow> coverage_meets y'' x'' \<Longrightarrow> x'' = y''"
proof -
  show "x = y" if "measure_meets x y" "measure_meets y x"
    using that by (cases x; cases y) (auto simp: measure_meets_def dest: opt_meets_antisym)
  show "x' = y'" if "temporal_meets x' y'" "temporal_meets y' x'"
    using that by (cases x'; cases y') (auto simp: temporal_meets_def dest: opt_meets_antisym)
  show "x'' = y''" if m: "coverage_meets x'' y''" "coverage_meets y'' x''"
  proof (rule coverage_contract.equality)
    show "co_join_keys x'' = co_join_keys y''" using m unfolding coverage_meets_def by metis
  qed (use m opt_meets_antisym in \<open>auto simp: coverage_meets_def\<close>)
qed

lemma meets_both:
  assumes "meets p q" "meets q p" shows "same_meaning p q"
proof -
  have s: "rel_option (\<lambda>x y. spatial_meets x y \<and> spatial_meets y x) (gc_spatial p) (gc_spatial q)"
    "rel_option (\<lambda>x y. source_meets x y \<and> source_meets y x) (gc_source p) (gc_source q)"
    "rel_option (\<lambda>x y. measure_meets x y \<and> measure_meets y x) (gc_measure p) (gc_measure q)"
    "rel_option (\<lambda>x y. temporal_meets x y \<and> temporal_meets y x) (gc_temporal p) (gc_temporal q)"
    "rel_option (\<lambda>x y. coverage_meets x y \<and> coverage_meets y x) (gc_coverage p) (gc_coverage q)"
    using assms by (auto simp: meets_def intro: opt_meets_both)
  have "gc_measure p = gc_measure q" "gc_temporal p = gc_temporal q" "gc_coverage p = gc_coverage q"
    using s(3-5) sections_antisym by (auto elim!: option.rel_cases)
  moreover have "granted p = granted q" using assms by (intro tolerances_both) (auto simp: meets_def)
  moreover have "rel_option (\<lambda>s t. src_uri (so_snapshot s) = src_uri (so_snapshot t) \<and>
       src_source_version (so_snapshot s) = src_source_version (so_snapshot t) \<and>
       src_expected_checksum (so_snapshot s) = src_expected_checksum (so_snapshot t) \<and>
       so_authority s = so_authority t) (gc_source p) (gc_source q)"
    by (rule option.rel_mono_strong [OF s(2)]) (unfold source_meets_def, blast intro: opt_meets_antisym)
  moreover have "rel_option (\<lambda>s t. sp_geometry_kind s = sp_geometry_kind t \<and> sp_crs s = sp_crs t \<and> sp_axis_order s = sp_axis_order t \<and>
       sp_coordinate_unit s = sp_coordinate_unit t \<and> rel_option extent_eq (sp_extent s) (sp_extent t) \<and>
       rel_option resolution_eq (sp_resolution s) (sp_resolution t)) (gc_spatial p) (gc_spatial q)"
    by (rule option.rel_mono_strong [OF s(1)]) (unfold spatial_meets_def, blast intro: opt_meets_antisym opt_meets_rel)
  ultimately show ?thesis using assms by (simp add: same_meaning_def meets_def)
qed


lemma wards_valid:
  "validate_contract (geo_contract_new ''wards'') = Ok ()"
  "validate_contract (with_spatial (geo_contract_new ''wards'')
     (spatial_known GkPolygon crs_wgs84 AoLongitudeLatitude)) = Ok ()"
proof -
  have "trim ''wards'' = ''wards''" by code_simp
  then have "require_text ''wards'' ''id'' = Ok ()"
    by (simp add: require_text_def eq_ignore_ascii_case_def)
  then show "validate_contract (geo_contract_new ''wards'') = Ok ()"
    "validate_contract (with_spatial (geo_contract_new ''wards'')
       (spatial_known GkPolygon crs_wgs84 AoLongitudeLatitude)) = Ok ()"
    by (simp_all add: validate_contract_def with_spatial_def geo_contract_new_def optional_section_def
        validate_spatial_def spatial_known_def unique_texts_def result_simps
        crs_coordinate_unit_known [OF crs_wgs84_definition])
qed


text \<open>Without validation an explicit \<open>Unknown\<close> matches itself, and against a known requirement it is reported
  as a contradiction, where the truth table of the crate asks for \<open>indeterminate\<close> in both cases.\<close>

lemma unknown_matches_unknown:
  "is_compatible (compare_contracts
     (with_spatial (geo_contract_new ''wards'') (spatial_known GkUnknown crs_wgs84 AoUnknown))
     (with_spatial (geo_contract_new ''wards'') (spatial_known GkUnknown crs_wgs84 AoUnknown)))"
  by (simp add: compare_contracts_meets meets_def spatial_meets_def with_spatial_def geo_contract_new_def spatial_known_def)

lemma unknown_contradicts_known:
  "cr_status (compare_contracts
     (with_spatial (geo_contract_new ''wards'') (spatial_known GkUnknown crs_wgs84 AoLongitudeLatitude))
     (with_spatial (geo_contract_new ''wards'') (spatial_known GkPolygon crs_wgs84 AoLongitudeLatitude))) = Incompatible"
  by code_simp

text \<open>A validated contract with spatial meaning names a registered reference system whose unit
  is the declared coordinate unit, has a known geometry kind and axis order, and its extent, if
  declared, is finite and not inverted.\<close>

theorem validated_spatial_semantics:
  assumes "validate_contract c = Ok ()" and "gc_spatial c = Some s"
  shows "\<exists>crs d. sp_crs s = Some crs \<and> crs_definition crs = Some d \<and>
      sp_coordinate_unit s = def_unit d \<and> sp_coordinate_unit s \<noteq> UnknownUnit \<and>
      sp_geometry_kind s \<noteq> GkUnknown \<and> sp_axis_order s \<noteq> AoUnknown \<and>
      (\<forall>e. sp_extent s = Some e \<longrightarrow>
         f64_is_finite (ext_min_x e) \<and> f64_is_finite (ext_max_x e) \<and>
         f64_le (ext_min_x e) (ext_max_x e) \<and> f64_le (ext_min_y e) (ext_max_y e))"
proof -
  from assms have v: "validate_spatial s = Ok ()"
    by (auto simp: validate_contract_def result_simps optional_section_def)
  have ext: "f64_is_finite (ext_min_x e) \<and> f64_is_finite (ext_max_x e) \<and>
      f64_le (ext_min_x e) (ext_max_x e) \<and> f64_le (ext_min_y e) (ext_max_y e)"
    if "sp_extent s = Some e" for e
  proof -
    from v that have "list_all f64_is_finite [ext_min_x e, ext_min_y e, ext_max_x e, ext_max_y e]"
      "\<not> f64_lt (ext_max_x e) (ext_min_x e)" "\<not> f64_lt (ext_max_y e) (ext_min_y e)"
      by (auto simp: validate_spatial_def validate_extent_def result_simps)
    then show ?thesis by (simp add: f64_is_finite_iff f64_not_lt)
  qed
  from v have "sp_coordinate_unit s \<noteq> UnknownUnit" "sp_geometry_kind s \<noteq> GkUnknown"
    "sp_axis_order s \<noteq> AoUnknown"
    by (auto simp: validate_spatial_def result_simps)
  with validate_spatial_Ok(1) [OF v] ext show ?thesis by blast
qed

theorem validated_spatial_semantics_witness:
  "\<exists>d. crs_definition crs_wgs84 = Some d \<and> Degrees = def_unit d"
proof -
  let ?s = "spatial_known GkPolygon crs_wgs84 AoLongitudeLatitude"
  let ?c = "with_spatial (geo_contract_new ''wards'') ?s"
  have "trim ''wards'' = ''wards''" by code_simp
  then have "require_text ''wards'' ''id'' = Ok ()"
    by (simp add: require_text_def eq_ignore_ascii_case_def)
  then have "validate_contract ?c = Ok ()"
    by (simp add: validate_contract_def with_spatial_def geo_contract_new_def optional_section_def
        validate_spatial_def spatial_known_def unique_texts_def result_simps
        crs_coordinate_unit_known [OF crs_wgs84_definition])
  moreover have "gc_spatial ?c = Some ?s" by (simp add: with_spatial_def)
  ultimately show ?thesis
    using validated_spatial_semantics [of ?c ?s] by (simp add: spatial_known_def)
qed

end
