(* ===== verification/Contract_Json.thy ===== *)
theory Contract_Json
  imports Contract Json
begin

text \<open>
  The JSON values that the \<open>serde\<close> attributes of the contract and source types denote: an enum
  variant is its snake-case name, an \<open>Option\<close> field is left out when it is \<open>None\<close> if the field
  carries \<open>skip_serializing_if\<close> and is \<open>null\<close> otherwise, a \<open>Crs\<close> is its identifier
  (\<open>into = "String"\<close>). They feed the stable digest of a workflow.
\<close>

section \<open>Field helpers\<close>

definition skip_none :: "string \<Rightarrow> ('a \<Rightarrow> json) \<Rightarrow> 'a option \<Rightarrow> (string \<times> json) list" where
  "skip_none k f opt = (case opt of None \<Rightarrow> [] | Some a \<Rightarrow> [(k, f a)])"

definition skip_empty :: "string \<Rightarrow> ('a \<Rightarrow> json) \<Rightarrow> 'a list \<Rightarrow> (string \<times> json) list" where
  "skip_empty k f xs = (if xs = [] then [] else [(k, JArr (map f xs))])"

definition json_opt :: "('a \<Rightarrow> json) \<Rightarrow> 'a option \<Rightarrow> json" where
  "json_opt f opt = (case opt of None \<Rightarrow> JNull | Some a \<Rightarrow> f a)"

text \<open>A finite float is a number; \<open>serde_json\<close> turns NaN and the infinities into \<open>null\<close>.\<close>

definition json_f64 :: "f64 \<Rightarrow> json" where
  "json_f64 x = (if f64_is_finite x then JFloat x else JNull)"

definition json_u64 :: "u64 \<Rightarrow> json" where
  "json_u64 n = JInt (uint n)"

definition json_u32 :: "u32 \<Rightarrow> json" where
  "json_u32 n = JInt (uint n)"

section \<open>References and sources\<close>

definition json_crs :: "crs \<Rightarrow> json" where
  "json_crs c = JStr (crs_identifier c)"

definition json_coordinate_unit :: "coordinate_unit \<Rightarrow> json" where
  "json_coordinate_unit u = JStr (coordinate_unit_as_str u)"

fun json_checksum_verification :: "checksum_verification \<Rightarrow> json" where
  "json_checksum_verification Verified = JStr ''verified''"
| "json_checksum_verification Declared = JStr ''declared''"
| "json_checksum_verification UnknownChecksum = JStr ''unknown''"
| "json_checksum_verification Mismatch = JStr ''mismatch''"

definition json_source :: "source_metadata \<Rightarrow> json" where
  "json_source s = jobj
     (skip_none ''dataset_id'' JStr (src_dataset_id s) @
      [(''uri'', JStr (src_uri s))] @
      skip_none ''license'' JStr (src_license s) @
      skip_none ''checksum'' JStr (src_checksum s) @
      skip_none ''expected_checksum'' JStr (src_expected_checksum s) @
      skip_none ''observed_checksum'' JStr (src_observed_checksum s) @
      skip_none ''retrieved_at'' JStr (src_retrieved_at s) @
      skip_none ''source_version'' JStr (src_source_version s) @
      [(''checksum_status'', json_checksum_verification (src_checksum_status s))])"

section \<open>Contract sections\<close>

fun json_geometry_kind :: "geometry_kind \<Rightarrow> json" where
  "json_geometry_kind GkPoint = JStr ''point''"
| "json_geometry_kind GkLine = JStr ''line''"
| "json_geometry_kind GkPolygon = JStr ''polygon''"
| "json_geometry_kind GkRaster = JStr ''raster''"
| "json_geometry_kind GkPointCloud = JStr ''point_cloud''"
| "json_geometry_kind GkMixed = JStr ''mixed''"
| "json_geometry_kind GkUnknown = JStr ''unknown''"

fun json_axis_order :: "axis_order \<Rightarrow> json" where
  "json_axis_order AoXy = JStr ''xy''"
| "json_axis_order AoLongitudeLatitude = JStr ''longitude_latitude''"
| "json_axis_order AoLatitudeLongitude = JStr ''latitude_longitude''"
| "json_axis_order AoUnknown = JStr ''unknown''"

definition json_extent :: "spatial_extent \<Rightarrow> json" where
  "json_extent e = jobj [(''min_x'', json_f64 (ext_min_x e)), (''min_y'', json_f64 (ext_min_y e)),
     (''max_x'', json_f64 (ext_max_x e)), (''max_y'', json_f64 (ext_max_y e))]"

definition json_resolution :: "spatial_resolution \<Rightarrow> json" where
  "json_resolution r = jobj [(''x'', json_f64 (res_x r)), (''y'', json_f64 (res_y r))]"

definition json_spatial :: "spatial_contract \<Rightarrow> json" where
  "json_spatial s = jobj
     ([(''geometry_kind'', json_geometry_kind (sp_geometry_kind s))] @
      skip_none ''crs'' json_crs (sp_crs s) @
      [(''axis_order'', json_axis_order (sp_axis_order s)),
       (''coordinate_unit'', json_coordinate_unit (sp_coordinate_unit s))] @
      skip_none ''extent'' json_extent (sp_extent s) @
      skip_none ''resolution'' json_resolution (sp_resolution s))"

fun json_measure_kind :: "measure_kind \<Rightarrow> json" where
  "json_measure_kind MkCount = JStr ''count''"
| "json_measure_kind MkArea = JStr ''area''"
| "json_measure_kind MkLength = JStr ''length''"
| "json_measure_kind MkDensity = JStr ''density''"
| "json_measure_kind MkRate = JStr ''rate''"
| "json_measure_kind MkRatio = JStr ''ratio''"
| "json_measure_kind MkCategory = JStr ''category''"
| "json_measure_kind MkIdentifier = JStr ''identifier''"
| "json_measure_kind MkGeometry = JStr ''geometry''"
| "json_measure_kind MkUnknown = JStr ''unknown''"

fun json_aggregation :: "aggregation_basis \<Rightarrow> json" where
  "json_aggregation AbSum = JStr ''sum''"
| "json_aggregation AbMean = JStr ''mean''"
| "json_aggregation AbCount = JStr ''count''"
| "json_aggregation AbRatioOfSums = JStr ''ratio_of_sums''"
| "json_aggregation AbNone = JStr ''none''"
| "json_aggregation AbUnknown = JStr ''unknown''"

definition json_term :: "measure_term \<Rightarrow> json" where
  "json_term t = jobj [(''kind'', json_measure_kind (mt_kind t)), (''unit'', JStr (mt_unit t))]"

definition json_measure :: "measure_contract \<Rightarrow> json" where
  "json_measure m = jobj
     ([(''kind'', json_measure_kind (me_kind m)), (''unit'', JStr (me_unit m))] @
      skip_none ''numerator'' json_term (me_numerator m) @
      skip_none ''denominator'' json_term (me_denominator m) @
      [(''aggregation'', json_aggregation (me_aggregation m))] @
      skip_none ''population_universe'' JStr (me_population_universe m))"

fun json_granularity :: "temporal_granularity \<Rightarrow> json" where
  "json_granularity TgYear = JStr ''year''"
| "json_granularity TgMonth = JStr ''month''"
| "json_granularity TgDay = JStr ''day''"
| "json_granularity TgInstant = JStr ''instant''"
| "json_granularity TgInterval = JStr ''interval''"
| "json_granularity TgUnknown = JStr ''unknown''"

definition json_temporal :: "temporal_contract \<Rightarrow> json" where
  "json_temporal t = jobj
     ([(''reference_period'', JStr (te_reference_period t)),
       (''granularity'', json_granularity (te_granularity t))] @
      skip_none ''observed_at'' JStr (te_observed_at t))"

fun json_key_uniqueness :: "key_uniqueness \<Rightarrow> json" where
  "json_key_uniqueness KuUnique = JStr ''unique''"
| "json_key_uniqueness KuNonUnique = JStr ''non_unique''"
| "json_key_uniqueness KuUnknown = JStr ''unknown''"

fun json_null_policy :: "null_policy \<Rightarrow> json" where
  "json_null_policy NpReject = JStr ''reject''"
| "json_null_policy NpPreserve = JStr ''preserve''"
| "json_null_policy NpDrop = JStr ''drop''"
| "json_null_policy NpUnknown = JStr ''unknown''"

definition json_coverage :: "coverage_contract \<Rightarrow> json" where
  "json_coverage c = jobj
     ([(''scope'', JStr (co_scope c))] @
      skip_none ''expected_feature_count'' json_u64 (co_expected_feature_count c) @
      skip_empty ''join_keys'' JStr (co_join_keys c) @
      [(''key_uniqueness'', json_key_uniqueness (co_key_uniqueness c)),
       (''null_policy'', json_null_policy (co_null_policy c))])"

definition json_source_contract :: "source_contract \<Rightarrow> json" where
  "json_source_contract s = jobj
     ([(''snapshot'', json_source (so_snapshot s))] @
      skip_none ''authority'' JStr (so_authority s) @
      skip_none ''max_age_days'' json_u32 (so_max_age_days s))"

definition json_uncertainty :: "uncertainty \<Rightarrow> json" where
  "json_uncertainty u = jobj
     ([(''method'', JStr (un_method u))] @
      skip_none ''absolute'' json_f64 (un_absolute u) @
      skip_none ''relative_ppm'' json_u64 (un_relative_ppm u))"

definition json_tolerance :: "quality_tolerance \<Rightarrow> json" where
  "json_tolerance t = jobj [(''metric'', JStr (qt_metric t)), (''max_error_ppm'', json_u64 (qt_max_error_ppm t))]"

definition json_quality :: "quality_contract \<Rightarrow> json" where
  "json_quality q = jobj
     (skip_none ''uncertainty'' json_uncertainty (qc_uncertainty q) @
      skip_empty ''tolerances'' json_tolerance (qc_tolerances q))"

definition json_geo_contract :: "geo_contract \<Rightarrow> json" where
  "json_geo_contract c = jobj
     ([(''schema_version'', JStr (gc_schema_version c)), (''id'', JStr (gc_id c))] @
      skip_none ''spatial'' json_spatial (gc_spatial c) @
      skip_none ''measure'' json_measure (gc_measure c) @
      skip_none ''temporal'' json_temporal (gc_temporal c) @
      skip_none ''coverage'' json_coverage (gc_coverage c) @
      skip_none ''source'' json_source_contract (gc_source c) @
      [(''quality'', json_quality (gc_quality c))])"

section \<open>Retrieval events\<close>

text \<open>Removing the runtime fields forgets when a source was retrieved.\<close>

lemma strip_jobj:
  "strip_fields fs (jobj kvs) =
     jobj (map (\<lambda>(k, v). (k, strip_fields fs v)) (filter (\<lambda>(k, v). k \<notin> set fs) kvs))"
proof -
  define keep where "keep = map (\<lambda>(k, v). (k, strip_fields fs v)) \<circ> filter (\<lambda>(k :: string, v). k \<notin> set fs)"
  have get_keep: "bt_get (keep m) k = (if k \<in> set fs then None else map_option (strip_fields fs) (bt_get m k))"
    for m :: "(string \<times> json) list" and k
    by (induction m) (auto simp: keep_def bt_get_def)
  have keys: "map fst (keep m) = filter (\<lambda>k. k \<notin> set fs) (map fst m)" for m
    by (induction m) (auto simp: keep_def)
  have "bt_wf (keep (bt_of_list kvs))"
    using bt_wf_of_list [of kvs] unfolding bt_wf_def keys by (simp add: sorted_wrt_filter)
  moreover have "bt_get (keep (bt_of_list kvs)) k = bt_get (bt_of_list (keep kvs)) k" for k
  proof -
    have "rev (keep kvs) = keep (rev kvs)" by (simp add: keep_def rev_map rev_filter)
    then show ?thesis
      using get_keep [of "bt_of_list kvs" k] get_keep [of "rev kvs" k]
      by (simp add: bt_get_of_list) (simp add: bt_get_def)
  qed
  ultimately have "keep (bt_of_list kvs) = bt_of_list (keep kvs)"
    by (intro bt.entries_eqI) simp_all
  then show ?thesis by (simp add: jobj_def keep_def)
qed

end
