(* ===== verification/Step.thy ===== *)
theory Step
  imports Contract_Json
begin

text \<open>
  \<open>genegis-workflow/src/step.rs\<close> and the data of \<open>graph.rs\<close>: node identifiers, value references,
  steps and workflows. A \<open>WorkflowNodeId\<close> is a transparent wrapper of its string. Fresh UUIDs
  (\<open>Uuid::new_v4\<close>) are arguments of the constructors. The JSON scalar printer and the hash are
  the fields of \<open>hashing\<close>.
\<close>

record hashing =
  h_to_string :: to_string
  h_sha256 :: sha256

section \<open>Data\<close>

type_synonym node_id = string

record data_ref =
  dr_node :: "node_id option"
  dr_port :: string

definition ref_input :: "string \<Rightarrow> data_ref" where
  "ref_input port = \<lparr>dr_node = None, dr_port = port\<rparr>"

definition ref_output :: "node_id \<Rightarrow> string \<Rightarrow> data_ref" where
  "ref_output node port = \<lparr>dr_node = Some node, dr_port = port\<rparr>"

record port_contract =
  pc_port :: string
  pc_contract :: geo_contract

record workflow_step =
  ws_id :: uuid
  ws_stable_id :: string
  ws_operation :: string
  ws_parameters :: json
  ws_expected_schema :: "json option"
  ws_validation :: "json option"
  ws_provenance :: "string option"
  ws_depends_on :: "node_id list"
  ws_inputs :: "data_ref list"
  ws_outputs :: "data_ref list"
  ws_output_contracts :: "port_contract list"

record input_contract =
  ic_name :: string
  ic_crs :: "crs option"
  ic_coordinate_unit :: "coordinate_unit option"
  ic_value_unit :: "string option"
  ic_source_snapshot :: "source_snapshot option"
  ic_geo_contract :: "geo_contract option"

datatype review_status = RsDraft | RsPendingReview | RsApproved | RsRejected | RsExecuted

record citation =
  ci_title :: string
  ci_url :: "string option"
  ci_license :: "string option"
  ci_retrieved_at :: "string option"

record geo_workflow =
  wf_id :: uuid
  wf_goal :: string
  wf_assumptions :: "string list"
  wf_inputs :: "json list"
  wf_input_contracts :: "input_contract list"
  wf_steps :: "workflow_step list"
  wf_outputs :: "json list"
  wf_output_refs :: "data_ref list"
  wf_citations :: "citation list"
  wf_review_status :: review_status

section \<open>Stable identifiers\<close>

text \<open>Bytes \<open>0x80\<close>--\<open>0xBF\<close> continue a UTF-8 character; iterating \<open>chars()\<close> visits each character
  once, so they are dropped before the mapping.\<close>

definition continuation_byte :: "char \<Rightarrow> bool" where
  "continuation_byte c = (128 \<le> (of_char c :: nat) \<and> (of_char c :: nat) < 192)"

definition trim_dashes :: "string \<Rightarrow> string" where
  "trim_dashes s = rev (dropWhile (\<lambda>c. c = CHR ''-'') (rev (dropWhile (\<lambda>c. c = CHR ''-'') s)))"

definition slug :: "string \<Rightarrow> string" where
  "slug operation = trim_dashes
     (map (\<lambda>c. if is_ascii_alphanumeric c then to_ascii_lowercase c else CHR ''-'')
       (filter (\<lambda>c. \<not> continuation_byte c) operation))"

definition generated_stable_id :: "hashing \<Rightarrow> string \<Rightarrow> json \<Rightarrow> string" where
  "generated_stable_id h operation parameters =
     (let canonical_parameters = canonical_json (h_to_string h) parameters;
          digest = h_sha256 h (operation @ [char_of (0 :: nat)] @ canonical_parameters);
          operation = slug operation
      in (if operation = [] then ''node'' else operation) @ ''-'' @ hex (take 8 digest))"

definition node_id :: "hashing \<Rightarrow> workflow_step \<Rightarrow> node_id" where
  "node_id h step =
     (if blank (ws_stable_id step) then generated_stable_id h (ws_operation step) (ws_parameters step)
      else ws_stable_id step)"

section \<open>Constructors\<close>

definition step_new :: "hashing \<Rightarrow> uuid \<Rightarrow> string \<Rightarrow> json \<Rightarrow> workflow_step" where
  "step_new h uid operation parameters =
     \<lparr>ws_id = uid, ws_stable_id = generated_stable_id h operation parameters, ws_operation = operation,
      ws_parameters = parameters, ws_expected_schema = None, ws_validation = None,
      ws_provenance = None, ws_depends_on = [], ws_inputs = [], ws_outputs = [],
      ws_output_contracts = []\<rparr>"

definition step_named :: "hashing \<Rightarrow> uuid \<Rightarrow> string \<Rightarrow> string \<Rightarrow> json \<Rightarrow> workflow_step" where
  "step_named h uid stable_id operation parameters =
     (step_new h uid operation parameters)\<lparr>ws_stable_id := stable_id\<rparr>"

definition with_dependencies :: "workflow_step \<Rightarrow> node_id list \<Rightarrow> workflow_step" where
  "with_dependencies step deps = step\<lparr>ws_depends_on := deps\<rparr>"

definition with_inputs :: "workflow_step \<Rightarrow> data_ref list \<Rightarrow> workflow_step" where
  "with_inputs step refs = step\<lparr>ws_inputs := refs\<rparr>"

definition with_outputs :: "workflow_step \<Rightarrow> data_ref list \<Rightarrow> workflow_step" where
  "with_outputs step refs = step\<lparr>ws_outputs := refs\<rparr>"

definition with_output_contracts :: "workflow_step \<Rightarrow> port_contract list \<Rightarrow> workflow_step" where
  "with_output_contracts step cs = step\<lparr>ws_output_contracts := cs\<rparr>"

definition input_contract_new :: "string \<Rightarrow> input_contract" where
  "input_contract_new name =
     \<lparr>ic_name = name, ic_crs = None, ic_coordinate_unit = None, ic_value_unit = None,
      ic_source_snapshot = None, ic_geo_contract = None\<rparr>"

definition ic_with_crs :: "input_contract \<Rightarrow> crs \<Rightarrow> input_contract" where
  "ic_with_crs c crs = c\<lparr>ic_coordinate_unit := Some (crs_coordinate_unit crs), ic_crs := Some crs\<rparr>"

definition ic_with_coordinate_unit :: "input_contract \<Rightarrow> coordinate_unit \<Rightarrow> input_contract" where
  "ic_with_coordinate_unit c unit = c\<lparr>ic_coordinate_unit := Some unit\<rparr>"

definition ic_with_value_unit :: "input_contract \<Rightarrow> string \<Rightarrow> input_contract" where
  "ic_with_value_unit c unit = c\<lparr>ic_value_unit := Some unit\<rparr>"

definition ic_with_source_snapshot :: "input_contract \<Rightarrow> source_snapshot \<Rightarrow> input_contract" where
  "ic_with_source_snapshot c source = c\<lparr>ic_source_snapshot := Some source\<rparr>"

definition ic_with_geo_contract :: "input_contract \<Rightarrow> geo_contract \<Rightarrow> input_contract" where
  "ic_with_geo_contract c gc = c\<lparr>ic_geo_contract := Some gc\<rparr>"

definition workflow_new :: "uuid \<Rightarrow> string \<Rightarrow> geo_workflow" where
  "workflow_new uid goal =
     \<lparr>wf_id = uid, wf_goal = goal, wf_assumptions = [], wf_inputs = [], wf_input_contracts = [],
      wf_steps = [], wf_outputs = [], wf_output_refs = [], wf_citations = [],
      wf_review_status = RsDraft\<rparr>"

definition push_step :: "geo_workflow \<Rightarrow> workflow_step \<Rightarrow> geo_workflow" where
  "push_step w step = w\<lparr>wf_steps := wf_steps w @ [step]\<rparr>"

definition add_input_contract :: "geo_workflow \<Rightarrow> input_contract \<Rightarrow> geo_workflow" where
  "add_input_contract w c = w\<lparr>wf_input_contracts := wf_input_contracts w @ [c]\<rparr>"

definition add_output_ref :: "geo_workflow \<Rightarrow> data_ref \<Rightarrow> geo_workflow" where
  "add_output_ref w r = w\<lparr>wf_output_refs := wf_output_refs w @ [r]\<rparr>"

definition is_legacy_linear :: "geo_workflow \<Rightarrow> bool" where
  "is_legacy_linear w =
     list_all (\<lambda>step. blank (ws_stable_id step) \<and> ws_depends_on step = [] \<and> ws_inputs step = [] \<and>
       ws_outputs step = []) (wf_steps w)"

section \<open>A node identifier is never blank\<close>

lemma visible_alnum:
  assumes "is_ascii_alphanumeric c" shows "visible (to_ascii_lowercase c)"
  using assms
proof (cases "is_ascii_uppercase c")
  case True
  then have "of_char (to_ascii_lowercase c) = (of_char c + 32 :: nat)"
    by (simp add: to_ascii_lowercase_def is_ascii_uppercase_def)
  with True show ?thesis by (simp add: visible_def is_ascii_uppercase_def)
qed (auto simp: is_ascii_alphanumeric_def is_ascii_digit_def is_ascii_lowercase_def
      to_ascii_lowercase_def visible_def)

lemma hd_trim_dashes: "trim_dashes s \<noteq> [] \<Longrightarrow> hd (trim_dashes s) \<in> set s \<and> hd (trim_dashes s) \<noteq> CHR ''-''"
proof -
  let ?t = "dropWhile (\<lambda>c. c = CHR ''-'') s"
  assume ne: "trim_dashes s \<noteq> []"
  have t: "?t \<noteq> []"
  proof
    assume "?t = []"
    then have "trim_dashes s = []" by (simp only: trim_dashes_def rev.simps dropWhile.simps)
    with ne show False by contradiction
  qed
  have "prefix (trim_dashes s) ?t"
    unfolding trim_dashes_def suffix_to_prefix [symmetric] rev_rev_ident
    using suffix_dropWhile [of _ "rev ?t"] by (simp add: suffix_to_prefix)
  then have "hd (trim_dashes s) = hd ?t" using ne by (auto simp: prefix_def)
  moreover have "hd ?t \<noteq> CHR ''-''" using t by (rule hd_dropWhile)
  moreover have "hd ?t \<in> set s" using t by (metis hd_in_set set_dropWhileD)
  ultimately show ?thesis by simp
qed

lemma hd_slug: "slug s \<noteq> [] \<Longrightarrow> visible (hd (slug s))"
  using hd_trim_dashes visible_alnum unfolding slug_def by fastforce

lemma visible_hex_digit: "n < 16 \<Longrightarrow> visible (hex_digit n)"
  by (auto simp: hex_digit_def visible_def)

lemma visible_last_hex: "hex bs \<noteq> [] \<Longrightarrow> visible (last (hex bs))"
proof (induction bs rule: rev_induct)
  case (snoc b bs)
  have "unat b mod 16 < 16" by simp
  then show ?case using visible_hex_digit by (simp add: hex_def del: unsigned_take_bit_eq)
qed (simp add: hex_def)

lemma generated_stable_id_not_blank: "\<not> blank (generated_stable_id h operation parameters)"
proof -
  let ?id = "generated_stable_id h operation parameters"
  obtain p t where id: "?id = p @ ''-'' @ hex t" and p: "p \<noteq> []" "visible (hd p)"
    using that [of "if slug operation = [] then ''node'' else slug operation"] hd_slug [of operation]
    by (auto simp: generated_stable_id_def Let_def visible_def split: if_splits)
  have "visible (last ?id)"
    using visible_last_hex [of t] unfolding id by (cases "hex t = []") (auto simp: visible_def)
  moreover have "visible (hd ?id)" using p by (simp add: id)
  ultimately have "trim ?id = ?id" by (intro trim_visible) (auto simp: id)
  then show ?thesis by (simp add: id)
qed

lemma node_id_not_blank: "\<not> blank (node_id h step)"
  using generated_stable_id_not_blank by (simp add: node_id_def)

end
