(* ===== verification/Kahn.thy ===== *)
theory Kahn
  imports Ordered
begin

text \<open>
  The graph loops of the workflow validator, over the maps it builds: Kahn's algorithm with a
  \<open>BTreeSet\<close> of ready nodes, the breadth-first reachability sweep, and the depth-first sweep that
  splits the nodes into weak components. A panic of the source (an \<open>expect\<close> on a missing entry,
  an index out of range, an underflow of a \<open>usize\<close>) is the value \<^const>\<open>None\<close>; the locale
  \<open>dependency_graph\<close> states what the maps must satisfy and shows that no panic occurs and what
  the loops compute.
\<close>

section \<open>The loops\<close>

definition children :: "('n, 'n list) btmap \<Rightarrow> 'n \<Rightarrow> 'n list" where
  "children adj n = (case bt_get adj n of None \<Rightarrow> [] | Some cs \<Rightarrow> cs)"

text \<open>The body of the Kahn loop over the children of one node.\<close>

fun relax :: "'n :: linorder list \<Rightarrow> ('n, nat) btmap \<Rightarrow> 'n list \<Rightarrow> (('n, nat) btmap \<times> 'n list) option" where
  "relax [] degrees ready = Some (degrees, ready)"
| "relax (c # cs) degrees ready =
     (case bt_get degrees c of
        None \<Rightarrow> None
      | Some 0 \<Rightarrow> None
      | Some (Suc d) \<Rightarrow>
          relax cs (bt_modify c (\<lambda>_. d) degrees) (if d = 0 then bs_insert c ready else ready))"

lemma sum_update_first:
  "map_of m k = Some (Suc d) \<Longrightarrow>
     Suc (sum_list (map snd (update_first (\<lambda>(k', v). k' = k) (\<lambda>(k', v). (k', d)) m))) =
     sum_list (map snd m)"
  by (induction m) (auto split: if_splits)

lemma length_bs_insert_le: "length (bs_insert k s) \<le> Suc (length s)"
  by (induction k s rule: bs_insert.induct) auto

lemma relax_measure:
  "relax cs degrees ready = Some (degrees', ready') \<Longrightarrow>
     sum_list (map snd degrees') + length ready' \<le> sum_list (map snd degrees) + length ready"
proof (induction cs degrees ready rule: relax.induct)
  case (2 c cs degrees ready)
  then obtain d where d: "bt_get degrees c = Some (Suc d)"
    and r: "relax cs (bt_modify c (\<lambda>_. d) degrees) (if d = 0 then bs_insert c ready else ready) =
      Some (degrees', ready')"
    by (auto split: option.splits nat.splits)
  have "sum_list (map snd degrees') + length ready' \<le>
      sum_list (map snd (bt_modify c (\<lambda>_. d) degrees)) + length (if d = 0 then bs_insert c ready else ready)"
    using 2(1) [OF d] r by simp
  moreover have "Suc (sum_list (map snd (bt_modify c (\<lambda>_. d) degrees))) = sum_list (map snd degrees)"
    using d sum_update_first unfolding bt_get_def bt_modify_def by fast
  ultimately show ?case using length_bs_insert_le [of c ready] by (auto split: if_splits)
qed simp

function kahn ::
  "('n :: linorder, 'n list) btmap \<Rightarrow> ('n, nat) btmap \<Rightarrow> 'n list \<Rightarrow> 'n list \<Rightarrow>
   ('n list \<times> ('n, nat) btmap) option" where
  "kahn adj degrees [] order = Some (order, degrees)"
| "kahn adj degrees (n # ready) order =
     (case relax (children adj n) degrees ready of
        None \<Rightarrow> None
      | Some (degrees', ready') \<Rightarrow> kahn adj degrees' ready' (order @ [n]))"
  by pat_completeness auto
termination
  by (relation "measure (\<lambda>(adj, degrees, ready, order). sum_list (map snd degrees) + length ready)")
    (auto dest!: relax_measure)

definition initial_ready :: "('n :: linorder, nat) btmap \<Rightarrow> 'n list" where
  "initial_ready degrees = bs_of_list (map fst (filter (\<lambda>(n, d). d = 0) degrees))"

text \<open>The nodes a list and the map of children mention; the sweeps stay inside.\<close>

definition universe :: "('n, 'n list) btmap \<Rightarrow> 'n list list \<Rightarrow> 'n list \<Rightarrow> 'n set" where
  "universe adj deps ns = set ns \<union> \<Union> (set ` snd ` set adj) \<union> \<Union> (set ` set deps)"

lemma finite_universe [simp]: "finite (universe adj deps ns)"
  by (simp add: universe_def)

lemma children_universe: "set (children adj n) \<subseteq> universe adj deps ns"
proof (cases "bt_get adj n")
  case (Some cs)
  then have "(n, cs) \<in> set adj" by (simp add: bt_get_def map_of_SomeD)
  with Some show ?thesis by (force simp: children_def universe_def)
qed (simp add: children_def)

function reach :: "('n :: linorder, 'n list) btmap \<Rightarrow> 'n list \<Rightarrow> 'n list \<Rightarrow> 'n list" where
  "reach adj [] visited = visited"
| "reach adj (n # queue) visited =
     (if n \<in> set visited then reach adj queue visited
      else reach adj (queue @ children adj n) (bs_insert n visited))"
  by pat_completeness auto
termination
proof (relation "inv_image (less_than <*lex*> less_than)
    (\<lambda>(adj, queue, visited). (card (universe adj [] queue - set visited), length queue))", goal_cases)
  case (2 adj n queue visited)
  have "universe adj [] queue - set visited = universe adj [] (n # queue) - set visited"
    using 2 by (auto simp: universe_def)
  then show ?case by simp
next
  case (3 adj n queue visited)
  have "universe adj [] (queue @ children adj n) - set (bs_insert n visited) \<subset>
      universe adj [] (n # queue) - set visited"
    using 3 children_universe [of adj n "[]" "n # queue"] by (auto simp: universe_def)
  then show ?case by (simp add: psubset_card_mono)
qed auto

definition lookup_deps :: "('n, nat) btmap \<Rightarrow> 'n list list \<Rightarrow> 'n \<Rightarrow> 'n list option" where
  "lookup_deps nodes deps n =
     (case bt_get nodes n of
        None \<Rightarrow> None
      | Some i \<Rightarrow> if i < length deps then Some (deps ! i) else None)"

lemma lookup_deps_universe:
  "lookup_deps nodes deps n = Some ds \<Longrightarrow> set ds \<subseteq> universe adj deps ns"
  by (auto simp: lookup_deps_def universe_def split: option.splits if_splits)

text \<open>The \<open>Vec\<close> used as a stack has its top at the head of the list.\<close>

function component ::
  "('n :: linorder, nat) btmap \<Rightarrow> 'n list list \<Rightarrow> ('n, 'n list) btmap \<Rightarrow> 'n list \<Rightarrow> 'n list \<Rightarrow> 'n list \<Rightarrow>
   ('n list \<times> 'n list) option" where
  "component nodes deps adj [] found unvisited = Some (found, unvisited)"
| "component nodes deps adj (n # pending) found unvisited =
     (if n \<in> set found then component nodes deps adj pending found unvisited
      else case lookup_deps nodes deps n of
        None \<Rightarrow> None
      | Some ds \<Rightarrow> component nodes deps adj (rev (ds @ children adj n) @ pending)
          (bs_insert n found) (bs_remove n unvisited))"
  by pat_completeness auto
termination
proof (relation "inv_image (less_than <*lex*> less_than)
    (\<lambda>(nodes, deps, adj, pending, found, unvisited).
       (card (universe adj deps pending - set found), length pending))", goal_cases)
  case (2 nodes deps adj n pending found unvisited)
  have "universe adj deps pending - set found = universe adj deps (n # pending) - set found"
    using 2 by (auto simp: universe_def)
  then show ?case by simp
next
  case (3 nodes deps adj n pending found unvisited ds)
  have "universe adj deps (rev (ds @ children adj n) @ pending) - set (bs_insert n found) \<subset>
      universe adj deps (n # pending) - set found"
    using 3 children_universe [of adj n deps "n # pending"]
      lookup_deps_universe [OF 3(2), of adj "n # pending"]
    by (auto simp: universe_def)
  then show ?case by (simp add: psubset_card_mono)
qed auto

lemma component_unvisited:
  "component nodes deps adj pending found unvisited = Some (found', unvisited') \<Longrightarrow>
     length unvisited' \<le> length unvisited"
proof (induction nodes deps adj pending found unvisited rule: component.induct)
  case (2 nodes deps adj n pending found unvisited)
  have "length (bs_remove n unvisited) \<le> length unvisited"
    by (simp add: bs_remove_def)
  with 2 show ?case by (auto split: if_splits option.splits dest: le_trans)
qed simp

function components ::
  "('n :: linorder, nat) btmap \<Rightarrow> 'n list list \<Rightarrow> ('n, 'n list) btmap \<Rightarrow> 'n list \<Rightarrow> 'n list list option" where
  "components nodes deps adj [] = Some []"
| "components nodes deps adj (start # unvisited) =
     (case component nodes deps adj [start] [] unvisited of
        None \<Rightarrow> None
      | Some (found, unvisited') \<Rightarrow> map_option ((#) found) (components nodes deps adj unvisited'))"
  by pat_completeness auto
termination
  by (relation "measure (\<lambda>(nodes, deps, adj, unvisited). length unvisited)")
    (auto dest!: component_unvisited simp del: component.simps)

section \<open>What the loops compute\<close>

text \<open>Specification vocabulary: the edges a map of children denotes, and an order in which every
  node comes after all nodes that have it as a child.\<close>

definition edges :: "('n, 'n list) btmap \<Rightarrow> ('n \<times> 'n) set" where
  "edges adj = {(u, v). v \<in> set (children adj u)}"

definition preds :: "('n, 'n list) btmap \<Rightarrow> 'n \<Rightarrow> 'n set" where
  "preds adj v = {u. v \<in> set (children adj u)}"

definition topological :: "('n, 'n list) btmap \<Rightarrow> 'n list \<Rightarrow> bool" where
  "topological adj order \<longleftrightarrow> (\<forall>i < length order. preds adj (order ! i) \<subseteq> set (take i order))"

lemma topological_Nil [simp]: "topological adj []"
  by (simp add: topological_def)

lemma topological_snoc:
  "topological adj (order @ [n]) \<longleftrightarrow> topological adj order \<and> preds adj n \<subseteq> set order"
  by (auto simp: topological_def nth_append less_Suc_eq)

lemma topological_closed: "topological adj order \<Longrightarrow> v \<in> set order \<Longrightarrow> preds adj v \<subseteq> set order"
  by (metis topological_def in_set_conv_nth set_take_subset order_trans)

lemma preds_edges: "u \<in> preds adj v \<longleftrightarrow> (u, v) \<in> edges adj"
  by (simp add: preds_def edges_def)

text \<open>A topological order excludes cycles among its nodes.\<close>

lemma topological_acyclic:
  assumes "topological adj order" and "distinct order"
  shows "(v, v) \<in> (edges adj)\<^sup>+ \<Longrightarrow> v \<notin> set order"
proof
  assume cyc: "(v, v) \<in> (edges adj)\<^sup>+" and v: "v \<in> set order"
  define pos where "pos x = (THE i. i < length order \<and> order ! i = x)" for x
  have pos: "pos (order ! i) = i" if "i < length order" for i
    unfolding pos_def using that assms(2) by (auto simp: nth_eq_iff_index_eq)
  have step: "u \<in> set order \<and> pos u < pos w" if "(u, w) \<in> edges adj" "w \<in> set order" for u w
  proof -
    from that obtain i where i: "i < length order" "order ! i = w" by (auto simp: in_set_conv_nth)
    with that assms(1) have "u \<in> set (take i order)"
      by (auto simp: topological_def preds_edges [symmetric])
    then obtain j where "j < i" "order ! j = u" using i by (auto simp: in_set_conv_nth)
    with i show ?thesis using pos by auto
  qed
  have "w \<in> set order \<longrightarrow> u \<in> set order \<and> pos u < pos w" if "(u, w) \<in> (edges adj)\<^sup>+" for u w
    using that by (induction rule: trancl.induct) (use step in force)+
  with cyc v show False by blast
qed

text \<open>A finite set in which every node has a predecessor contains a cycle.\<close>

lemma predecessor_closed_cycle:
  assumes "finite R" "R \<noteq> {}" and "\<And>v. v \<in> R \<Longrightarrow> \<exists>u \<in> R. (u, v) \<in> E"
  shows "\<exists>v \<in> R. (v, v) \<in> E\<^sup>+"
proof -
  let ?r = "E \<inter> R \<times> R"
  have "\<not> acyclic ?r"
  proof
    assume "acyclic ?r"
    moreover have "finite ?r" using assms(1) by auto
    ultimately have "wf ?r" by (simp add: finite_acyclic_wf)
    then obtain z where "z \<in> R" "\<And>y. (y, z) \<in> ?r \<Longrightarrow> y \<notin> R"
      using assms(2) wfE_min by (metis ex_in_conv)
    with assms(3) show False by blast
  qed
  then obtain v where "(v, v) \<in> ?r\<^sup>+" by (auto simp: acyclic_def)
  moreover from this have "v \<in> R" by (auto dest: tranclD)
  moreover have "?r\<^sup>+ \<subseteq> E\<^sup>+" by (rule trancl_mono_subset) auto
  ultimately show ?thesis by auto
qed

lemma relax_spec:
  assumes "distinct cs" and "\<And>c. c \<in> set cs \<Longrightarrow> \<exists>d. bt_get degrees c = Some (Suc d)" and "bs_wf ready"
  shows "\<exists>degrees' ready'. relax cs degrees ready = Some (degrees', ready') \<and>
     (\<forall>v. bt_get degrees' v = (if v \<in> set cs then map_option (\<lambda>d. d - 1) (bt_get degrees v) else bt_get degrees v)) \<and>
     bt_keys degrees' = bt_keys degrees \<and> bs_wf ready' \<and>
     set ready' = set ready \<union> {c \<in> set cs. bt_get degrees c = Some 1}"
  using assms
proof (induction cs arbitrary: degrees ready)
  case (Cons c cs)
  from Cons.prems(2) [of c] obtain d where d: "bt_get degrees c = Some (Suc d)" by auto
  let ?deg = "bt_modify c (\<lambda>_. d) degrees" and ?rdy = "if d = 0 then bs_insert c ready else ready"
  have c: "c \<notin> set cs" and dist: "distinct cs" using Cons.prems(1) by auto
  have "\<exists>e. bt_get ?deg c' = Some (Suc e)" if "c' \<in> set cs" for c'
    using that c Cons.prems(2) [of c'] by auto
  moreover have "bs_wf ?rdy" using Cons.prems(3) by simp
  ultimately obtain degrees' ready' where
    r: "relax cs ?deg ?rdy = Some (degrees', ready')"
    and deg: "\<forall>v. bt_get degrees' v = (if v \<in> set cs then map_option (\<lambda>d. d - 1) (bt_get ?deg v) else bt_get ?deg v)"
    and keys: "bt_keys degrees' = bt_keys ?deg" and wf: "bs_wf ready'"
    and rdy: "set ready' = set ?rdy \<union> {c' \<in> set cs. bt_get ?deg c' = Some 1}"
    using Cons.IH [OF dist, of ?deg ?rdy] by blast
  have "relax (c # cs) degrees ready = Some (degrees', ready')" using d r by simp
  moreover have "\<forall>v. bt_get degrees' v =
      (if v \<in> set (c # cs) then map_option (\<lambda>d. d - 1) (bt_get degrees v) else bt_get degrees v)"
    using deg d c by auto
  moreover have "set ready' = set ready \<union> {c' \<in> set (c # cs). bt_get degrees c' = Some 1}"
    using rdy d c by auto
  moreover have "bt_keys degrees' = bt_keys degrees" using keys by simp
  ultimately show ?case using wf by blast
qed simp

lemma set_initial_ready:
  "bt_wf degrees \<Longrightarrow> set (initial_ready degrees) = {v. bt_get degrees v = Some 0}"
  by (force simp: initial_ready_def bt_get_Some_set)

subsection \<open>Reachability\<close>

lemma bs_wf_reach: "bs_wf visited \<Longrightarrow> bs_wf (reach adj queue visited)"
  by (induction adj queue visited rule: reach.induct) auto

lemma reach_sound: "set (reach adj queue visited) \<subseteq> (edges adj)\<^sup>* `` (set queue \<union> set visited)"
proof (induction adj queue visited rule: reach.induct)
  case (2 adj n queue visited)
  show ?case
  proof (cases "n \<in> set visited")
    case True
    with 2(1) show ?thesis by auto
  next
    case False
    have "set (children adj n) \<subseteq> (edges adj)\<^sup>* `` {n}"
      by (auto simp: edges_def intro: r_into_rtrancl)
    then have "(edges adj)\<^sup>* `` (set (queue @ children adj n) \<union> set (bs_insert n visited)) \<subseteq>
        (edges adj)\<^sup>* `` (set (n # queue) \<union> set visited)"
      by (auto dest: rtrancl_trans)
    with 2(2) [OF False] False show ?thesis by auto
  qed
qed auto

lemma reach_closed:
  "edges adj `` set visited \<subseteq> set queue \<union> set visited \<Longrightarrow>
     set queue \<union> set visited \<subseteq> set (reach adj queue visited) \<and>
     edges adj `` set (reach adj queue visited) \<subseteq> set (reach adj queue visited)"
proof (induction adj queue visited rule: reach.induct)
  case (2 adj n queue visited)
  show ?case
  proof (cases "n \<in> set visited")
    case True
    with 2 show ?thesis by auto
  next
    case False
    have "edges adj `` set (bs_insert n visited) \<subseteq> set (queue @ children adj n) \<union> set (bs_insert n visited)"
      using 2(3) by (auto simp: edges_def)
    with 2(2) [OF False] False show ?thesis by auto
  qed
qed auto

lemma closed_rtrancl: "E `` S \<subseteq> S \<Longrightarrow> E\<^sup>* `` S = S"
proof -
  assume c: "E `` S \<subseteq> S"
  have "y \<in> S" if "(x, y) \<in> E\<^sup>*" "x \<in> S" for x y
    using that by (induction rule: rtrancl_induct) (use c in auto)
  then show ?thesis by blast
qed

lemma set_reach: "set (reach adj queue []) = (edges adj)\<^sup>* `` set queue"
proof
  show "set (reach adj queue []) \<subseteq> (edges adj)\<^sup>* `` set queue" using reach_sound [of adj queue "[]"] by simp
  have "set queue \<subseteq> set (reach adj queue [])"
    "edges adj `` set (reach adj queue []) \<subseteq> set (reach adj queue [])"
    using reach_closed [of adj "[]" queue] by auto
  then show "(edges adj)\<^sup>* `` set queue \<subseteq> set (reach adj queue [])"
    using closed_rtrancl [of "edges adj" "set (reach adj queue [])"] by blast
qed

text \<open>In a finite acyclic graph every node is reached from one without predecessors.\<close>

lemma acyclic_roots_reach:
  assumes "finite V" "E \<subseteq> V \<times> V" "acyclic E" "v \<in> V"
  shows "\<exists>r \<in> V. (\<forall>u. (u, r) \<notin> E) \<and> (r, v) \<in> E\<^sup>*"
proof -
  have "finite E" using assms(1,2) finite_subset by blast
  then have "wf E" using assms(3) by (simp add: finite_acyclic_wf)
  then show ?thesis using assms(4)
  proof (induction v rule: wf_induct_rule)
    case (less v)
    show ?case
    proof (cases "\<exists>u. (u, v) \<in> E")
      case True
      then obtain u where "(u, v) \<in> E" "u \<in> V" using assms(2) by blast
      with less show ?thesis by (meson rtrancl.rtrancl_into_rtrancl)
    next
      case False
      with less show ?thesis by blast
    qed
  qed
qed

subsection \<open>Weak components\<close>

definition neighbours :: "('n, nat) btmap \<Rightarrow> 'n list list \<Rightarrow> ('n, 'n list) btmap \<Rightarrow> ('n \<times> 'n) set" where
  "neighbours nodes deps adj =
     {(u, v). (\<exists>ds. lookup_deps nodes deps u = Some ds \<and> v \<in> set ds) \<or> v \<in> set (children adj u)}"

lemma component_spec:
  assumes "\<And>u. u \<in> V \<Longrightarrow> lookup_deps nodes deps u \<noteq> None" and "neighbours nodes deps adj \<subseteq> V \<times> V"
    and "set pending \<subseteq> V"
    and "neighbours nodes deps adj `` set found \<subseteq> set pending \<union> set found"
  shows "\<exists>found' unvisited'. component nodes deps adj pending found unvisited = Some (found', unvisited') \<and>
     set pending \<union> set found \<subseteq> set found' \<and> neighbours nodes deps adj `` set found' \<subseteq> set found' \<and>
     set found' \<subseteq> (neighbours nodes deps adj)\<^sup>* `` (set pending \<union> set found) \<and>
     set unvisited - set found' \<subseteq> set unvisited' \<and> set unvisited' \<subseteq> set unvisited - (set found' - set found)"
  using assms
proof (induction nodes deps adj pending found unvisited rule: component.induct)
  case (2 nodes deps adj n pending found unvisited)
  let ?N = "neighbours nodes deps adj"
  show ?case
  proof (cases "n \<in> set found")
    case True
    then have "?N `` set found \<subseteq> set pending \<union> set found" "set pending \<subseteq> V" using 2(5,6) by auto
    moreover have "set (n # pending) \<union> set found = set pending \<union> set found" using True by auto
    ultimately show ?thesis using 2(1) [OF True 2(3,4)] True by simp
  next
    case False
    then obtain ds where ds: "lookup_deps nodes deps n = Some ds" using 2(3,5) by force
    let ?pending = "rev (ds @ children adj n) @ pending"
    have nb: "?N `` {n} = set ds \<union> set (children adj n)" using ds by (auto simp: neighbours_def)
    then have "set ?pending \<subseteq> V" using 2(4,5) by auto
    moreover have "?N `` set (bs_insert n found) \<subseteq> set ?pending \<union> set (bs_insert n found)"
      using 2(6) nb by auto
    ultimately obtain found' unvisited' where
      r: "component nodes deps adj ?pending (bs_insert n found) (bs_remove n unvisited) = Some (found', unvisited')"
      and sub: "set ?pending \<union> set (bs_insert n found) \<subseteq> set found'" and closed: "?N `` set found' \<subseteq> set found'"
      and sound: "set found' \<subseteq> ?N\<^sup>* `` (set ?pending \<union> set (bs_insert n found))"
      and lo: "set (bs_remove n unvisited) - set found' \<subseteq> set unvisited'"
      and hi: "set unvisited' \<subseteq> set (bs_remove n unvisited) - (set found' - set (bs_insert n found))"
      using 2(2) [OF False ds 2(3,4)] by blast
    have "x \<in> ?N\<^sup>* `` (set (n # pending) \<union> set found)" if x: "x \<in> set found'" for x
    proof -
      obtain y where y: "y \<in> set ?pending \<union> set (bs_insert n found)" "(y, x) \<in> ?N\<^sup>*" using sound x by blast
      then consider "y \<in> ?N `` {n}" | "y \<in> set (n # pending) \<union> set found" using nb by auto
      then show ?thesis
      proof cases
        case 1
        then have "(n, x) \<in> ?N\<^sup>*" using y(2) by (simp add: converse_rtrancl_into_rtrancl)
        then show ?thesis by auto
      qed (use y(2) in blast)
    qed
    then have "set found' \<subseteq> ?N\<^sup>* `` (set (n # pending) \<union> set found)" by blast
    moreover have "component nodes deps adj (n # pending) found unvisited = Some (found', unvisited')"
      using False ds r by simp
    moreover have "set unvisited - set found' \<subseteq> set unvisited'" using lo sub by auto
    moreover have "set unvisited' \<subseteq> set unvisited - (set found' - set found)" using hi by auto
    ultimately show ?thesis using sub closed by auto
  qed
qed auto

text \<open>There is a single component exactly when every node is connected to the first one; no
  iteration panics.\<close>

lemma component_start:
  assumes "\<And>u. u \<in> V \<Longrightarrow> lookup_deps nodes deps u \<noteq> None" and "neighbours nodes deps adj \<subseteq> V \<times> V" and "start \<in> V"
  obtains found unvisited' where "component nodes deps adj [start] [] unvisited = Some (found, unvisited')"
    and "start \<in> set found" and "neighbours nodes deps adj `` set found \<subseteq> set found"
    and "set found \<subseteq> (neighbours nodes deps adj)\<^sup>* `` {start}"
    and "set unvisited' = set unvisited - set found"
proof -
  have "set [start] \<subseteq> V" "neighbours nodes deps adj `` set [] \<subseteq> set [start] \<union> set []" using assms(3) by auto
  from component_spec [OF assms(1,2) this, of unvisited] obtain f u where
    "component nodes deps adj [start] [] unvisited = Some (f, u)" "set [start] \<union> set [] \<subseteq> set f"
    "neighbours nodes deps adj `` set f \<subseteq> set f"
    "set f \<subseteq> (neighbours nodes deps adj)\<^sup>* `` (set [start] \<union> set [])"
    "set unvisited - set f \<subseteq> set u" "set u \<subseteq> set unvisited - (set f - set [])"
    by blast
  then show thesis using that by simp
qed

lemma components_total:
  assumes "\<And>u. u \<in> V \<Longrightarrow> lookup_deps nodes deps u \<noteq> None" and "neighbours nodes deps adj \<subseteq> V \<times> V"
    and "set unvisited \<subseteq> V"
  shows "components nodes deps adj unvisited \<noteq> None"
  using assms
proof (induction nodes deps adj unvisited rule: components.induct)
  case (2 nodes deps adj start unvisited)
  obtain found unvisited' where c: "component nodes deps adj [start] [] unvisited = Some (found, unvisited')"
    and "set unvisited' \<subseteq> set unvisited"
    using component_start [OF 2(2,3), of start unvisited] 2(4) by (metis Diff_subset list.set_intros(1) subsetD)
  with 2(1) [OF c refl 2(2,3)] 2(4) show ?case by (simp del: component.simps) blast
qed simp

lemma components_single:
  assumes "\<And>u. u \<in> V \<Longrightarrow> lookup_deps nodes deps u \<noteq> None" and "neighbours nodes deps adj \<subseteq> V \<times> V"
    and "components nodes deps adj (start # unvisited) = Some cs" and "set (start # unvisited) = V"
  shows "length cs \<le> 1 \<longleftrightarrow> V \<subseteq> (neighbours nodes deps adj)\<^sup>* `` {start}"
proof -
  let ?N = "neighbours nodes deps adj"
  obtain found unvisited' where c: "component nodes deps adj [start] [] unvisited = Some (found, unvisited')"
    and f: "start \<in> set found" "?N `` set found \<subseteq> set found" "set found \<subseteq> ?N\<^sup>* `` {start}"
    and u: "set unvisited' = set unvisited - set found"
    using component_start [OF assms(1,2), of start unvisited] assms(4) by (metis list.set_intros(1))
  have found: "set found = ?N\<^sup>* `` {start}"
    using f closed_rtrancl [OF f(2)] by blast
  have "length cs \<le> 1 \<longleftrightarrow> unvisited' = []"
    using assms(3) c by (cases unvisited') (auto simp del: component.simps split: option.splits)
  also have "\<dots> \<longleftrightarrow> V \<subseteq> set found"
  proof -
    have "unvisited' = [] \<longleftrightarrow> set unvisited \<subseteq> set found" unfolding set_empty [symmetric] u by blast
    moreover have "V = insert start (set unvisited)" using assms(4) by simp
    ultimately show ?thesis using f(1) by blast
  qed
  finally show ?thesis using found by simp
qed

section \<open>The interface to a dependency graph\<close>

locale dependency_graph =
  fixes inv :: "'g \<Rightarrow> bool"
    and vertices :: "'g \<Rightarrow> 'n :: linorder list"
    and adj :: "'g \<Rightarrow> ('n, 'n list) btmap"
    and degrees :: "'g \<Rightarrow> ('n, nat) btmap"
  assumes distinct_vertices: "inv g \<Longrightarrow> distinct (vertices g)"
    and distinct_children: "inv g \<Longrightarrow> distinct (children (adj g) u)"
    and edges_vertices: "inv g \<Longrightarrow> edges (adj g) \<subseteq> set (vertices g) \<times> set (vertices g)"
    and wf_degrees: "inv g \<Longrightarrow> bt_wf (degrees g)"
    and keys_degrees: "inv g \<Longrightarrow> set (bt_keys (degrees g)) = set (vertices g)"
    and get_degrees: "inv g \<Longrightarrow> v \<in> set (vertices g) \<Longrightarrow>
      bt_get (degrees g) v = Some (card (preds (adj g) v))"
begin

text \<open>The loop invariant: the nodes already ordered are closed under predecessors, a counter holds
  the number of predecessors not yet ordered, and the ready set is exactly the unordered nodes
  whose counter is zero.\<close>

definition loop_inv :: "'g \<Rightarrow> 'n list \<Rightarrow> ('n, nat) btmap \<Rightarrow> 'n list \<Rightarrow> bool" where
  "loop_inv g order deg ready \<longleftrightarrow>
     distinct order \<and> set order \<subseteq> set (vertices g) \<and> topological (adj g) order \<and> bs_wf ready \<and>
     bt_keys deg = bt_keys (degrees g) \<and>
     (\<forall>v \<in> set (vertices g). bt_get deg v = Some (card (preds (adj g) v - set order))) \<and>
     set ready = {v \<in> set (vertices g) - set order. preds (adj g) v \<subseteq> set order}"

lemma preds_vertices: "inv g \<Longrightarrow> preds (adj g) v \<subseteq> set (vertices g)"
  using edges_vertices [of g] by (auto simp: preds_edges)

lemma finite_preds [simp]: "inv g \<Longrightarrow> finite (preds (adj g) v)"
  using preds_vertices finite_subset by blast

lemma loop_inv_init:
  assumes "inv g"
  shows "loop_inv g [] (degrees g) (initial_ready (degrees g))"
proof -
  have "bt_get (degrees g) v = Some 0 \<longleftrightarrow> v \<in> set (vertices g) \<and> preds (adj g) v = {}" for v
    using assms get_degrees [OF assms, of v] keys_degrees [OF assms] bt_get_None_keys [of "degrees g" v]
    by (cases "v \<in> set (vertices g)") auto
  then have "set (initial_ready (degrees g)) = {v \<in> set (vertices g). preds (adj g) v = {}}"
    using set_initial_ready [OF wf_degrees [OF assms]] by auto
  moreover have "bs_wf (initial_ready (degrees g))" by (simp add: initial_ready_def)
  ultimately show ?thesis using get_degrees [OF assms] by (simp add: loop_inv_def)
qed

lemma loop_inv_step:
  assumes "inv g" and inv: "loop_inv g order deg (n # ready)"
  shows "\<exists>deg' ready'. relax (children (adj g) n) deg ready = Some (deg', ready') \<and>
    loop_inv g (order @ [n]) deg' ready'"
proof -
  let ?cs = "children (adj g) n"
  from inv have wf: "bs_wf (n # ready)"
    and rdy: "insert n (set ready) = {v \<in> set (vertices g) - set order. preds (adj g) v \<subseteq> set order}"
    and deg: "\<And>v. v \<in> set (vertices g) \<Longrightarrow> bt_get deg v = Some (card (preds (adj g) v - set order))"
    and topo: "topological (adj g) order"
    by (auto simp: loop_inv_def)
  then have n: "n \<in> set (vertices g)" "n \<notin> set order" "preds (adj g) n \<subseteq> set order" "n \<notin> set ready"
    "bs_wf ready"
    using bs_wf_ConsD by blast+
  have cs: "c \<in> set (vertices g) \<and> n \<in> preds (adj g) c - set order" if "c \<in> set ?cs" for c
    using that n edges_vertices [OF assms(1)] by (auto simp: preds_def edges_def)
  have pos: "\<exists>d. bt_get deg c = Some (Suc d)" if "c \<in> set ?cs" for c
    using cs [OF that] deg [of c] assms(1)
    by (metis card_gt_0_iff empty_iff finite_Diff finite_preds gr0_implies_Suc)
  obtain deg' ready' where r: "relax ?cs deg ready = Some (deg', ready')"
    and deg': "\<And>v. bt_get deg' v = (if v \<in> set ?cs then map_option (\<lambda>d. d - 1) (bt_get deg v) else bt_get deg v)"
    and keys: "bt_keys deg' = bt_keys deg" and wf': "bs_wf ready'"
    and rdy': "set ready' = set ready \<union> {c \<in> set ?cs. bt_get deg c = Some 1}"
    using relax_spec [OF distinct_children [OF assms(1)] pos n(5)] by blast
  have "bt_get deg' v = Some (card (preds (adj g) v - set (order @ [n])))" if "v \<in> set (vertices g)" for v
  proof -
    have "preds (adj g) v - set (order @ [n]) = preds (adj g) v - set order - {n}" by auto
    moreover have "n \<in> preds (adj g) v - set order \<longleftrightarrow> v \<in> set ?cs"
      using n by (auto simp: preds_def)
    ultimately show ?thesis
      using deg' [of v] deg [OF that] assms(1) by (simp add: card_Diff_singleton_if)
  qed
  moreover have "set ready' = {v \<in> set (vertices g) - set (order @ [n]). preds (adj g) v \<subseteq> set (order @ [n])}"
    (is "_ = ?new")
  proof (intro set_eqI iffI)
    fix v assume v: "v \<in> set ready'"
    show "v \<in> ?new"
    proof (cases "v \<in> set ready")
      case True
      with rdy n(4) show ?thesis by auto
    next
      case False
      with v rdy' have c: "v \<in> set ?cs" "bt_get deg v = Some 1" by auto
      with cs deg [of v] have "card (preds (adj g) v - set order) = 1" by auto
      then obtain u where "preds (adj g) v - set order = {u}" by (auto simp: card_1_singleton_iff)
      with cs [OF c(1)] have "preds (adj g) v - set order = {n}" by auto
      moreover from this have "v \<notin> set order" using topological_closed [OF topo, of v] by auto
      moreover have "v \<noteq> n" using cs [OF c(1)] n(3) by auto
      ultimately show ?thesis using cs [OF c(1)] by auto
    qed
  next
    fix v assume v: "v \<in> ?new"
    show "v \<in> set ready'"
    proof (cases "v \<in> set ?cs")
      case True
      then have "preds (adj g) v - set order = {n}" using v cs [OF True] by auto
      then show ?thesis using deg [of v] v rdy' True by auto
    next
      case False
      then have "n \<notin> preds (adj g) v" by (simp add: preds_def)
      with v have "v \<in> insert n (set ready)" unfolding rdy by auto
      with v rdy' show ?thesis by auto
    qed
  qed
  ultimately have "loop_inv g (order @ [n]) deg' ready'"
    using inv n keys wf' by (auto simp: loop_inv_def topological_snoc)
  with r show ?thesis by blast
qed

lemma kahn_loop:
  assumes "inv g"
  shows "loop_inv g order deg ready \<Longrightarrow>
    \<exists>order' deg'. kahn (adj g) deg ready order = Some (order', deg') \<and> loop_inv g order' deg' []"
proof (induction "adj g" deg ready order rule: kahn.induct)
  case (2 deg n ready order)
  from loop_inv_step [OF assms 2(2)] obtain deg' ready' where
    "relax (children (adj g) n) deg ready = Some (deg', ready')" "loop_inv g (order @ [n]) deg' ready'"
    by blast
  with 2(1) show ?case by fastforce
qed auto

text \<open>The loop never panics and returns the longest predecessor-closed prefix.\<close>

lemma kahn_total:
  assumes "inv g"
  obtains order deg where
    "kahn (adj g) (degrees g) (initial_ready (degrees g)) [] = Some (order, deg)" "loop_inv g order deg []"
  using kahn_loop [OF assms loop_inv_init [OF assms]] by blast

lemma kahn_complete:
  assumes "inv g" and "loop_inv g order deg []" and "length order = length (vertices g)"
  shows "set order = set (vertices g)" and "topological (adj g) order" and "distinct order"
    and "acyclic (edges (adj g))"
proof -
  from assms(2) have o: "distinct order" "set order \<subseteq> set (vertices g)" "topological (adj g) order"
    by (auto simp: loop_inv_def)
  have "card (set order) = card (set (vertices g))"
    using o(1) distinct_vertices [OF assms(1)] assms(3) by (simp add: distinct_card)
  with o(2) show set: "set order = set (vertices g)" by (simp add: card_subset_eq)
  show "topological (adj g) order" "distinct order" using o by auto
  show "acyclic (edges (adj g))"
  proof (rule acyclicI, rule allI, rule notI)
    fix v assume v: "(v, v) \<in> (edges (adj g))\<^sup>+"
    then have "v \<in> set (vertices g)" using edges_vertices [OF assms(1)] by (auto dest: tranclD)
    with topological_acyclic [OF o(3,1) v] set show False by blast
  qed
qed

lemma kahn_cycle:
  assumes "inv g" and "loop_inv g order deg []" and "length order \<noteq> length (vertices g)"
  shows "\<exists>v. (v, v) \<in> (edges (adj g))\<^sup>+"
    and "{v. \<exists>d. bt_get deg v = Some d \<and> 0 < d} = set (vertices g) - set order"
proof -
  let ?R = "set (vertices g) - set order"
  from assms(2) have o: "distinct order" "set order \<subseteq> set (vertices g)" "topological (adj g) order"
    and deg: "\<And>v. v \<in> set (vertices g) \<Longrightarrow> bt_get deg v = Some (card (preds (adj g) v - set order))"
    and keys: "bt_keys deg = bt_keys (degrees g)"
    and none: "\<And>v. v \<in> ?R \<Longrightarrow> \<not> preds (adj g) v \<subseteq> set order"
    by (auto simp: loop_inv_def)
  have "set order \<noteq> set (vertices g)"
    using assms(3) o(1) distinct_vertices [OF assms(1)] by (metis distinct_card)
  then have "?R \<noteq> {}" using o(2) by blast
  moreover have "\<exists>u \<in> ?R. (u, v) \<in> edges (adj g)" if "v \<in> ?R" for v
    using none [OF that] preds_vertices [OF assms(1), of v] by (auto simp: preds_edges)
  ultimately show "\<exists>v. (v, v) \<in> (edges (adj g))\<^sup>+"
    using predecessor_closed_cycle [of ?R "edges (adj g)"] by blast
  have "0 < card (preds (adj g) v - set order) \<longleftrightarrow> v \<notin> set order" if "v \<in> set (vertices g)" for v
  proof (cases "v \<in> set order")
    case True
    then have "preds (adj g) v - set order = {}" using topological_closed [OF o(3)] by blast
    with True show ?thesis by (metis card.empty less_irrefl)
  next
    case False
    with that none [of v] assms(1) show ?thesis by (auto simp: card_gt_0_iff)
  qed
  moreover have "v \<in> set (vertices g)" if "bt_get deg v = Some d" for v d
    using that keys keys_degrees [OF assms(1)] bt_get_None_keys [of deg v] by (metis option.distinct(1))
  ultimately show "{v. \<exists>d. bt_get deg v = Some d \<and> 0 < d} = ?R"
    using deg by fastforce
qed

end

end
