(* ===== verification/Workflow.thy ===== *)
theory Workflow
  imports Step Kahn
begin

text \<open>
  Validation of a workflow graph: \<open>GeoWorkflow::topological_order\<close> of
  \<open>genegis-workflow/src/graph.rs\<close> with its phases in the order of the source. A Rust panic (an
  \<open>expect\<close> on a missing map entry, an index out of range) is the error value \<open>Panic\<close>, which the
  source cannot return; it is proved unreachable. The \<open>reason\<close> texts of contract errors carry the
  structured error they print. The abstract specification is \<open>valid_workflow\<close>: the declarative
  conditions under which a graph may run.
\<close>

section \<open>Errors\<close>

datatype reason = Reason string | CrsReason crs_error | UnitReason coordinate_unit crs | ContractReason contract_error

datatype workflow_error =
    EmptyGraph
  | DuplicateNodeId string
  | SelfDependency string
  | UnresolvedDependency string string
  | UnresolvedInputReference string string
  | InputWithoutDependency string string
  | UnknownInputPort string string string
  | EmptyOutputPort string
  | MissingOutputReferences string
  | UnknownInputContract string string
  | DuplicateInputContract string
  | InvalidInputContract string reason
  | InvalidOutputContract string string reason
  | UnresolvedOutputReference string
  | UnknownOutputPort string string
  | Cycle "string list"
  | DisconnectedNodes "string list"
  | UnreachableNodes "string list"
  | Panic

section \<open>Input contracts\<close>

definition same_source_contract_identity :: "source_snapshot \<Rightarrow> source_snapshot \<Rightarrow> bool" where
  "same_source_contract_identity l r =
     (src_dataset_id l = src_dataset_id r \<and> src_uri l = src_uri r \<and> src_license l = src_license r \<and>
      src_expected_checksum l = src_expected_checksum r \<and>
      src_observed_checksum l = src_observed_checksum r \<and>
      src_source_version l = src_source_version r \<and>
      src_checksum_status l = src_checksum_status r)"

definition both :: "('a \<Rightarrow> 'b \<Rightarrow> bool) \<Rightarrow> 'a option \<Rightarrow> 'b option \<Rightarrow> bool" where
  "both p x y = (case (x, y) of (Some a, Some b) \<Rightarrow> p a b | _ \<Rightarrow> False)"

definition validate_geo_agreement :: "input_contract \<Rightarrow> geo_contract \<Rightarrow> workflow_error + unit" where
  "validate_geo_agreement c g =
     (let bad = InvalidInputContract (ic_name c) in
      and_then (map_err (\<lambda>e. bad (ContractReason e)) (validate_contract g)) (\<lambda>_.
      and_then (reject (both (\<lambda>legacy spatial. sp_crs spatial \<noteq> Some legacy) (ic_crs c) (gc_spatial g))
        (bad (Reason ''legacy CRS disagrees with GeoContract spatial CRS''))) (\<lambda>_.
      and_then (reject (both (\<lambda>legacy spatial. sp_coordinate_unit spatial \<noteq> legacy)
          (ic_coordinate_unit c) (gc_spatial g))
        (bad (Reason ''legacy coordinate unit disagrees with GeoContract spatial unit''))) (\<lambda>_.
      and_then (reject (both (\<lambda>legacy m. me_unit m \<noteq> legacy) (ic_value_unit c) (gc_measure g))
        (bad (Reason ''legacy value unit disagrees with GeoContract measure unit''))) (\<lambda>_.
      reject (both (\<lambda>legacy source. \<not> same_source_contract_identity legacy (so_snapshot source))
          (ic_source_snapshot c) (gc_source g))
        (bad (Reason ''legacy source snapshot disagrees with GeoContract source'')))))))"

definition validate_crs_unit :: "input_contract \<Rightarrow> crs \<Rightarrow> workflow_error + unit" where
  "validate_crs_unit c crs =
     and_then (map_err (\<lambda>e. InvalidInputContract (ic_name c) (CrsReason e)) (crs_require_known crs)) (\<lambda>d.
       reject (ic_coordinate_unit c \<noteq> Some (def_unit d))
         (InvalidInputContract (ic_name c) (UnitReason (def_unit d) crs)))"

definition validate_input_contract :: "input_contract \<Rightarrow> workflow_error + unit" where
  "validate_input_contract c =
     (let bad = (\<lambda>s. InvalidInputContract (ic_name c) (Reason s)) in
      and_then (reject (blank (ic_name c)) (bad ''name is empty'')) (\<lambda>_.
      and_then (optional_section (validate_crs_unit c) (ic_crs c)) (\<lambda>_.
      and_then (reject (ic_coordinate_unit c = Some UnknownUnit) (bad ''coordinate unit is unknown'')) (\<lambda>_.
      and_then (reject (case ic_value_unit c of None \<Rightarrow> False | Some u \<Rightarrow> blank u)
        (bad ''value unit is empty'')) (\<lambda>_.
      and_then (reject (case ic_source_snapshot c of None \<Rightarrow> False | Some s \<Rightarrow> blank (src_uri s))
        (bad ''source URI is empty'')) (\<lambda>_.
      optional_section (validate_geo_agreement c) (ic_geo_contract c)))))))"

definition validate_input_contracts :: "geo_workflow \<Rightarrow> workflow_error + unit" where
  "validate_input_contracts w =
     map_ok (\<lambda>_. ()) (try_fold (\<lambda>names c.
       if ic_name c \<in> set names then Err (DuplicateInputContract (ic_name c))
       else map_ok (\<lambda>_. bs_insert (ic_name c) names) (validate_input_contract c))
       [] (wf_input_contracts w))"

section \<open>Nodes\<close>

definition collect_node ::
  "hashing \<Rightarrow> node_id list \<times> (node_id, nat) btmap \<Rightarrow> nat \<times> workflow_step \<Rightarrow>
   workflow_error + node_id list \<times> (node_id, nat) btmap" where
  "collect_node h = (\<lambda>(ids, nodes) (index, step).
     let n = node_id h step in
     if blank n then Err (UnresolvedDependency (''index-'' @ show_nat index) ''empty stable ID'')
     else if bt_contains nodes n then Err (DuplicateNodeId n)
     else Ok (ids @ [n], bt_insert n index nodes))"

definition collect_nodes ::
  "hashing \<Rightarrow> geo_workflow \<Rightarrow> workflow_error + node_id list \<times> (node_id, nat) btmap" where
  "collect_nodes h w = try_fold (collect_node h) ([], []) (enumerate0 (wf_steps w))"

section \<open>Edges\<close>

text \<open>The maps the validator builds; \<open>wg_dependencies\<close> has an entry per step already visited.
  Degrees are natural numbers: a \<open>usize\<close> counts at most the dependencies of one step.\<close>

record wf_graph =
  wg_node_ids :: "node_id list"
  wg_nodes :: "(node_id, nat) btmap"
  wg_dependencies :: "node_id list list"
  wg_adjacency :: "(node_id, node_id list) btmap"
  wg_indegree :: "(node_id, nat) btmap"

definition effective_dependencies :: "bool \<Rightarrow> node_id list \<Rightarrow> nat \<Rightarrow> workflow_step \<Rightarrow> node_id list" where
  "effective_dependencies legacy ids index step =
     (if legacy \<and> 0 < index then [ids ! (index - 1)] else ws_depends_on step)"

definition effective_inputs :: "bool \<Rightarrow> node_id list \<Rightarrow> nat \<Rightarrow> workflow_step \<Rightarrow> data_ref list" where
  "effective_inputs legacy ids index step =
     (if legacy \<and> 0 < index then [ref_output (ids ! (index - 1)) ''result''] else ws_inputs step)"

definition add_dependency ::
  "(node_id, nat) btmap \<Rightarrow> node_id \<Rightarrow>
   node_id list \<times> (node_id, node_id list) btmap \<times> (node_id, nat) btmap \<Rightarrow> node_id \<Rightarrow>
   workflow_error + node_id list \<times> (node_id, node_id list) btmap \<times> (node_id, nat) btmap" where
  "add_dependency nodes n = (\<lambda>(unique, adj, indegree) dep.
     if dep = n then Err (SelfDependency n)
     else if \<not> bt_contains nodes dep then Err (UnresolvedDependency n dep)
     else if dep \<in> set unique then Ok (unique, adj, indegree)
     else case bt_get indegree n of
       None \<Rightarrow> Err Panic
     | Some d \<Rightarrow> Ok (bs_insert dep unique, bt_insert dep (bs_insert n (children adj dep)) adj,
                    bt_insert n (Suc d) indegree))"

definition exports :: "workflow_step \<Rightarrow> node_id \<Rightarrow> string \<Rightarrow> bool" where
  "exports step n port = list_ex (\<lambda>out. dr_node out = Some n \<and> dr_port out = port) (ws_outputs step)"

text \<open>\<open>self.steps[nodes[dependency]]\<close>: both indexings panic when they miss.\<close>

definition step_at :: "geo_workflow \<Rightarrow> (node_id, nat) btmap \<Rightarrow> node_id \<Rightarrow> workflow_error + workflow_step" where
  "step_at w nodes n =
     (case bt_get nodes n of
        None \<Rightarrow> Err Panic
      | Some i \<Rightarrow> if i < length (wf_steps w) then Ok (wf_steps w ! i) else Err Panic)"

definition check_input ::
  "geo_workflow \<Rightarrow> bool \<Rightarrow> (node_id, nat) btmap \<Rightarrow> node_id \<Rightarrow> node_id list \<Rightarrow> data_ref \<Rightarrow> workflow_error + unit" where
  "check_input w legacy nodes n unique input =
     (if blank (dr_port input) then Err (UnknownInputContract n [])
      else case dr_node input of
        Some dep \<Rightarrow>
          if dep = n then Err (SelfDependency n)
          else if \<not> bt_contains nodes dep then Err (UnresolvedInputReference n dep)
          else if dep \<notin> set unique then Err (InputWithoutDependency n dep)
          else if legacy then Ok ()
          else and_then (step_at w nodes dep) (\<lambda>producer.
            reject (\<not> exports producer dep (dr_port input)) (UnknownInputPort n dep (dr_port input)))
      | None \<Rightarrow>
          reject (\<not> list_ex (\<lambda>c. ic_name c = dr_port input) (wf_input_contracts w))
            (UnknownInputContract n (dr_port input)))"

definition connect_step ::
  "geo_workflow \<Rightarrow> bool \<Rightarrow> wf_graph \<Rightarrow> nat \<times> workflow_step \<Rightarrow> workflow_error + wf_graph" where
  "connect_step w legacy g = (\<lambda>(index, step).
     let n = wg_node_ids g ! index;
         deps = effective_dependencies legacy (wg_node_ids g) index step;
         inputs = effective_inputs legacy (wg_node_ids g) index step
     in and_then (try_fold (add_dependency (wg_nodes g) n) ([], wg_adjacency g, wg_indegree g) deps)
       (\<lambda>(unique, adj, indegree).
         and_then (try_for (check_input w legacy (wg_nodes g) n unique) inputs) (\<lambda>_.
           Ok (g\<lparr>wg_dependencies := wg_dependencies g @ [deps], wg_adjacency := adj,
                 wg_indegree := indegree\<rparr>))))"

definition initial_graph :: "node_id list \<Rightarrow> (node_id, nat) btmap \<Rightarrow> wf_graph" where
  "initial_graph ids nodes =
     \<lparr>wg_node_ids = ids, wg_nodes = nodes, wg_dependencies = [], wg_adjacency = [],
      wg_indegree = bt_of_list (map (\<lambda>n. (n, 0)) ids)\<rparr>"

definition build_graph :: "hashing \<Rightarrow> geo_workflow \<Rightarrow> workflow_error + wf_graph" where
  "build_graph h w =
     and_then (collect_nodes h w) (\<lambda>(ids, nodes).
     and_then (validate_input_contracts w) (\<lambda>_.
       try_fold (connect_step w (is_legacy_linear w)) (initial_graph ids nodes) (enumerate0 (wf_steps w))))"

section \<open>Ordering and connectivity\<close>

definition check_order :: "wf_graph \<Rightarrow> workflow_error + node_id list" where
  "check_order g =
     (case kahn (wg_adjacency g) (wg_indegree g) (initial_ready (wg_indegree g)) [] of
        None \<Rightarrow> Err Panic
      | Some (order, indegree) \<Rightarrow>
          if length order \<noteq> length (wg_node_ids g)
          then Err (Cycle (map fst (filter (\<lambda>(n, d). 0 < d) indegree)))
          else Ok order)"

definition graph_roots :: "wf_graph \<Rightarrow> node_id list" where
  "graph_roots g =
     map (\<lambda>(i, deps). wg_node_ids g ! i) (filter (\<lambda>(i, deps). deps = []) (enumerate0 (wg_dependencies g)))"

definition check_reachable :: "wf_graph \<Rightarrow> workflow_error + unit" where
  "check_reachable g =
     (let reachable = reach (wg_adjacency g) (graph_roots g) [] in
      reject (length reachable \<noteq> length (wg_node_ids g))
        (UnreachableNodes (filter (\<lambda>n. n \<notin> set reachable) (wg_node_ids g))))"

definition check_connected :: "wf_graph \<Rightarrow> workflow_error + unit" where
  "check_connected g =
     (case components (wg_nodes g) (wg_dependencies g) (wg_adjacency g) (bs_of_list (wg_node_ids g)) of
        None \<Rightarrow> Err Panic
      | Some cs \<Rightarrow> reject (1 < length cs) (DisconnectedNodes (concat (drop 1 cs))))"

section \<open>Outputs\<close>

definition check_step_outputs :: "node_id list \<Rightarrow> nat \<times> workflow_step \<Rightarrow> workflow_error + unit" where
  "check_step_outputs ids = (\<lambda>(index, step).
     let n = ids ! index in
     and_then (reject (ws_outputs step = []) (MissingOutputReferences n)) (\<lambda>_.
       try_for (\<lambda>out. reject (dr_node out \<noteq> Some n \<or> blank (dr_port out)) (EmptyOutputPort n))
         (ws_outputs step)))"

definition validate_output_ref ::
  "geo_workflow \<Rightarrow> bool \<Rightarrow> (node_id, nat) btmap \<Rightarrow> data_ref \<Rightarrow> workflow_error + unit" where
  "validate_output_ref w legacy nodes out =
     (case dr_node out of
        None \<Rightarrow> Err (UnresolvedOutputReference ''graph-input'')
      | Some n \<Rightarrow>
          if \<not> bt_contains nodes n then Err (UnresolvedOutputReference n)
          else if legacy then Ok ()
          else and_then (step_at w nodes n) (\<lambda>step.
            reject (\<not> exports step n (dr_port out)) (UnknownOutputPort n (dr_port out))))"

definition validate_output_refs ::
  "geo_workflow \<Rightarrow> bool \<Rightarrow> (node_id, nat) btmap \<Rightarrow> workflow_error + unit" where
  "validate_output_refs w legacy nodes =
     (if wf_output_refs w = [] then Ok ()
      else try_for (validate_output_ref w legacy nodes) (wf_output_refs w))"

definition validate_output_contract ::
  "bool \<Rightarrow> node_id \<Rightarrow> workflow_step \<Rightarrow> string list \<Rightarrow> port_contract \<Rightarrow> workflow_error + string list" where
  "validate_output_contract legacy n step ports c =
     (let bad = InvalidOutputContract n (pc_port c) in
      if blank (pc_port c) then Err (bad (Reason ''port is empty''))
      else if pc_port c \<in> set ports then Err (bad (Reason ''duplicate output contract''))
      else if \<not> legacy \<and> \<not> exports step n (pc_port c)
      then Err (bad (Reason ''contract does not name an exported output port''))
      else map_ok (\<lambda>_. bs_insert (pc_port c) ports)
        (map_err (\<lambda>e. bad (ContractReason e)) (validate_contract (pc_contract c))))"

definition validate_output_contracts ::
  "geo_workflow \<Rightarrow> node_id list \<Rightarrow> bool \<Rightarrow> workflow_error + unit" where
  "validate_output_contracts w ids legacy =
     try_for (\<lambda>(index, step). map_ok (\<lambda>_. ())
       (try_fold (validate_output_contract legacy (ids ! index) step) [] (ws_output_contracts step)))
       (enumerate0 (wf_steps w))"

section \<open>The validator\<close>

definition topological_order :: "hashing \<Rightarrow> geo_workflow \<Rightarrow> workflow_error + node_id list" where
  "topological_order h w =
     (if wf_steps w = [] then Err EmptyGraph
      else let legacy = is_legacy_linear w in
        and_then (build_graph h w) (\<lambda>g.
        and_then (check_order g) (\<lambda>order.
        and_then (check_reachable g) (\<lambda>_.
        and_then (check_connected g) (\<lambda>_.
        and_then (if legacy then Ok ()
                  else try_for (check_step_outputs (wg_node_ids g)) (enumerate0 (wf_steps w))) (\<lambda>_.
        and_then (validate_output_refs w legacy (wg_nodes g)) (\<lambda>_.
        and_then (validate_output_contracts w (wg_node_ids g) legacy) (\<lambda>_.
          Ok order))))))))"

definition validate_workflow :: "hashing \<Rightarrow> geo_workflow \<Rightarrow> workflow_error + unit" where
  "validate_workflow h w = map_ok (\<lambda>_. ()) (topological_order h w)"

end
