(* ===== verification/Workflow_Valid.thy ===== *)
theory Workflow_Valid
  imports Workflow
begin

text \<open>
  The workflow validator decides its specification. \<open>valid_workflow\<close> states declaratively when a
  graph may run; the phases of the validator are characterised one by one, the maps they build are
  shown to be a \<open>dependency_graph\<close>, and the properties follow: what an accepted order satisfies,
  which errors are possible, and that the code never panics.
\<close>

section \<open>Specification\<close>

definition wf_ids :: "hashing \<Rightarrow> geo_workflow \<Rightarrow> node_id list" where
  "wf_ids h w = map (node_id h) (wf_steps w)"

definition wf_deps :: "hashing \<Rightarrow> geo_workflow \<Rightarrow> nat \<Rightarrow> node_id list" where
  "wf_deps h w i = effective_dependencies (is_legacy_linear w) (wf_ids h w) i (wf_steps w ! i)"

definition wf_edges :: "hashing \<Rightarrow> geo_workflow \<Rightarrow> (node_id \<times> node_id) set" where
  "wf_edges h w = {(d, wf_ids h w ! i) | d i. i < length (wf_steps w) \<and> d \<in> set (wf_deps h w i)}"

definition dependencies_ok :: "hashing \<Rightarrow> geo_workflow \<Rightarrow> nat \<Rightarrow> bool" where
  "dependencies_ok h w i \<longleftrightarrow>
     (\<forall>d \<in> set (wf_deps h w i). d \<in> set (wf_ids h w) \<and> d \<noteq> wf_ids h w ! i)"

definition exported :: "hashing \<Rightarrow> geo_workflow \<Rightarrow> node_id \<Rightarrow> string \<Rightarrow> bool" where
  "exported h w n port \<longleftrightarrow>
     (\<exists>j < length (wf_steps w). wf_ids h w ! j = n \<and> (is_legacy_linear w \<or> exports (wf_steps w ! j) n port))"

definition input_ok :: "hashing \<Rightarrow> geo_workflow \<Rightarrow> nat \<Rightarrow> data_ref \<Rightarrow> bool" where
  "input_ok h w i r \<longleftrightarrow> \<not> blank (dr_port r) \<and>
     (case dr_node r of
        None \<Rightarrow> \<exists>c \<in> set (wf_input_contracts w). ic_name c = dr_port r
      | Some p \<Rightarrow> p \<in> set (wf_deps h w i) \<and> exported h w p (dr_port r))"

definition inputs_ok :: "hashing \<Rightarrow> geo_workflow \<Rightarrow> nat \<Rightarrow> bool" where
  "inputs_ok h w i \<longleftrightarrow>
     (\<forall>r \<in> set (effective_inputs (is_legacy_linear w) (wf_ids h w) i (wf_steps w ! i)). input_ok h w i r)"

definition outputs_ok :: "hashing \<Rightarrow> geo_workflow \<Rightarrow> nat \<Rightarrow> bool" where
  "outputs_ok h w i \<longleftrightarrow>
     (let step = wf_steps w ! i; n = wf_ids h w ! i in
      (is_legacy_linear w \<or> ws_outputs step \<noteq> [] \<and>
        (\<forall>out \<in> set (ws_outputs step). dr_node out = Some n \<and> \<not> blank (dr_port out))) \<and>
      distinct (map pc_port (ws_output_contracts step)) \<and>
      (\<forall>c \<in> set (ws_output_contracts step).
        \<not> blank (pc_port c) \<and> (is_legacy_linear w \<or> exports step n (pc_port c)) \<and>
        validate_contract (pc_contract c) = Ok ()))"

definition connected :: "hashing \<Rightarrow> geo_workflow \<Rightarrow> bool" where
  "connected h w \<longleftrightarrow>
     (\<forall>a \<in> set (wf_ids h w). \<forall>b \<in> set (wf_ids h w). (a, b) \<in> (wf_edges h w \<union> (wf_edges h w)\<inverse>)\<^sup>*)"

definition valid_workflow :: "hashing \<Rightarrow> geo_workflow \<Rightarrow> bool" where
  "valid_workflow h w \<longleftrightarrow>
     wf_steps w \<noteq> [] \<and> distinct (wf_ids h w) \<and>
     distinct (map ic_name (wf_input_contracts w)) \<and>
     (\<forall>c \<in> set (wf_input_contracts w). validate_input_contract c = Ok ()) \<and>
     (\<forall>i < length (wf_steps w). dependencies_ok h w i \<and> inputs_ok h w i \<and> outputs_ok h w i) \<and>
     acyclic (wf_edges h w) \<and> connected h w \<and>
     (\<forall>r \<in> set (wf_output_refs w). \<exists>n. dr_node r = Some n \<and> exported h w n (dr_port r))"

text \<open>Errors that concern one node or one contract, as opposed to the shape of the whole graph.\<close>

fun local_error :: "workflow_error \<Rightarrow> bool" where
  "local_error (Cycle ns) = False"
| "local_error (DisconnectedNodes ns) = False"
| "local_error (UnreachableNodes ns) = False"
| "local_error Panic = False"
| "local_error _ = True"

text \<open>A phase decides a condition when it succeeds exactly under it and otherwise reports a local
  error.\<close>

definition decides :: "workflow_error + 'a \<Rightarrow> bool \<Rightarrow> bool" where
  "decides r ok \<longleftrightarrow> (case r of Inl e \<Rightarrow> local_error e \<and> \<not> ok | Inr _ \<Rightarrow> ok)"

lemma decidesI:
  "(\<And>e. r = Err e \<Longrightarrow> local_error e \<and> \<not> ok) \<Longrightarrow> (\<And>a. r = Ok a \<Longrightarrow> ok) \<Longrightarrow> decides r ok"
  by (cases r) (auto simp: decides_def)

lemma decides_simps [simp]: "decides (Err e) ok \<longleftrightarrow> local_error e \<and> \<not> ok" "decides (Ok a) ok \<longleftrightarrow> ok"
  by (simp_all add: decides_def)

lemma decides_map_ok [simp]: "decides (map_ok f r) ok \<longleftrightarrow> decides r ok"
  by (cases r) auto

lemma decides_and_then:
  "decides r ok \<Longrightarrow> decides r' ok' \<Longrightarrow> decides (and_then r (\<lambda>_. r')) (ok \<and> ok')"
  by (cases r; cases r') auto

lemma decides_try_for:
  assumes "\<And>x. x \<in> set xs \<Longrightarrow> decides (f x) (Q x)"
  shows "decides (try_for f xs) (\<forall>x \<in> set xs. Q x)"
  using assms
proof (induction xs)
  case (Cons x xs)
  have "decides (f x) (Q x)" "decides (try_for f xs) (\<forall>x \<in> set xs. Q x)" using Cons by auto
  then show ?case by (cases "f x"; cases "try_for f xs") auto
qed simp

section \<open>Collecting the nodes\<close>

lemma length_wf_ids [simp]: "length (wf_ids h w) = length (wf_steps w)"
  by (simp add: wf_ids_def)

lemma collect_node_Ok_iff:
  "collect_node h (ids, nodes) (i, s) = Ok r \<longleftrightarrow>
     \<not> bt_contains nodes (node_id h s) \<and> r = (ids @ [node_id h s], bt_insert (node_id h s) i nodes)"
  using node_id_not_blank [of h s] by (auto simp: collect_node_def Let_def)

lemma collect_node_Err: "collect_node h st x = Err e \<Longrightarrow> local_error e"
  by (auto simp: collect_node_def Let_def split: prod.splits if_splits)

definition indexed :: "node_id list \<Rightarrow> (node_id, nat) btmap \<Rightarrow> bool" where
  "indexed ids nodes \<longleftrightarrow> distinct ids \<and> bt_wf nodes \<and>
     (\<forall>n i. bt_get nodes n = Some i \<longleftrightarrow> i < length ids \<and> ids ! i = n)"

lemma indexed_get: "indexed ids nodes \<Longrightarrow> i < length ids \<Longrightarrow> bt_get nodes (ids ! i) = Some i"
  by (simp add: indexed_def)

lemma indexed_keys:
  assumes "indexed ids nodes" shows "set (bt_keys nodes) = set ids"
proof -
  have "bt_get nodes n \<noteq> None \<longleftrightarrow> n \<in> set ids" for n
    using assms unfolding indexed_def not_None_eq in_set_conv_nth by simp
  then show ?thesis by (auto simp: bt_get_None_keys)
qed

lemma collect_nodes_from:
  assumes "indexed ids nodes"
  shows "case try_fold (collect_node h) (ids, nodes) (List.enumerate (length ids) xs) of
      Inl e \<Rightarrow> \<not> distinct (ids @ map (node_id h) xs)
    | Inr (ids', nodes') \<Rightarrow> ids' = ids @ map (node_id h) xs \<and> indexed ids' nodes'"
  using assms
proof (induction xs arbitrary: ids nodes)
  case (Cons s xs)
  let ?n = "node_id h s"
  have keys: "set (bt_keys nodes) = set ids" using Cons.prems indexed_keys by blast
  show ?case
  proof (cases "?n \<in> set ids")
    case True
    then have "collect_node h (ids, nodes) (length ids, s) = Err (DuplicateNodeId ?n)"
      using keys node_id_not_blank [of h s] by (simp add: collect_node_def)
    with True show ?thesis by simp
  next
    case False
    then have step: "collect_node h (ids, nodes) (length ids, s) = Ok (ids @ [?n], bt_insert ?n (length ids) nodes)"
      using keys by (simp add: collect_node_Ok_iff)
    from False have "indexed (ids @ [?n]) (bt_insert ?n (length ids) nodes)"
      using Cons.prems by (auto simp: indexed_def nth_append less_Suc_eq in_set_conv_nth split: if_splits)
    then show ?thesis
      using Cons.IH [of "ids @ [?n]" "bt_insert ?n (length ids) nodes"] step
      by (auto split: sum.splits)
  qed
qed auto

lemma collect_nodes_cases:
  "case collect_nodes h w of
      Inl e \<Rightarrow> \<not> distinct (wf_ids h w)
    | Inr (ids, nodes) \<Rightarrow> ids = wf_ids h w \<and> indexed ids nodes"
  using collect_nodes_from [of "[]" "[]" h "wf_steps w"]
  by (auto simp: collect_nodes_def enumerate0_def wf_ids_def indexed_def split: sum.splits)

lemma collect_nodes_Ok:
  "(\<exists>r. collect_nodes h w = Ok r) \<longleftrightarrow> distinct (wf_ids h w)"
  "collect_nodes h w = Ok (ids, nodes) \<Longrightarrow> ids = wf_ids h w \<and> indexed ids nodes"
  using collect_nodes_cases [of h w] by (auto simp: indexed_def split: sum.splits)

lemma collect_nodes_Err: "collect_nodes h w = Err e \<Longrightarrow> local_error e"
  unfolding collect_nodes_def by (metis try_fold_eq_ErrD collect_node_Err)

section \<open>Building the edges\<close>

text \<open>The invariant of the loop over the steps: the adjacency map and the degrees describe exactly
  the dependencies of the steps visited so far.\<close>

definition wg_inv :: "wf_graph \<Rightarrow> bool" where
  "wg_inv g \<longleftrightarrow>
     (let ids = wg_node_ids g; deps = wg_dependencies g in
      indexed ids (wg_nodes g) \<and> length deps \<le> length ids \<and>
      (\<forall>ds \<in> set deps. set ds \<subseteq> set ids) \<and>
      (\<forall>u. bs_wf (children (wg_adjacency g) u) \<and>
        set (children (wg_adjacency g) u) = {ids ! i | i. i < length deps \<and> u \<in> set (deps ! i)}) \<and>
      bt_wf (wg_indegree g) \<and> set (bt_keys (wg_indegree g)) = set ids \<and>
      (\<forall>i < length ids. bt_get (wg_indegree g) (ids ! i) =
        Some (if i < length deps then card (set (deps ! i)) else 0)))"

lemma children_bt_insert [simp]:
  "children (bt_insert k v adj) u = (if u = k then v else children adj u)"
  by (simp add: children_def)

lemma children_Nil [simp]: "children [] u = []"
  by (simp add: children_def)

lemma add_dependency_apply:
  "add_dependency nodes n (unique, adj, indegree) dep =
     (if dep = n then Err (SelfDependency n)
      else if \<not> bt_contains nodes dep then Err (UnresolvedDependency n dep)
      else if dep \<in> set unique then Ok (unique, adj, indegree)
      else case bt_get indegree n of
        None \<Rightarrow> Err Panic
      | Some d \<Rightarrow> Ok (bs_insert dep unique, bt_insert dep (bs_insert n (children adj dep)) adj,
                     bt_insert n (Suc d) indegree))"
  by (simp add: add_dependency_def)

lemma add_dependency_Err:
  "try_fold (add_dependency nodes n) st ds = Err e \<Longrightarrow> (\<exists>d. bt_get (snd (snd st)) n = Some d) \<Longrightarrow>
     local_error e \<and> (\<exists>d \<in> set ds. d = n \<or> \<not> bt_contains nodes d)"
proof (induction ds arbitrary: st)
  case (Cons d ds)
  obtain unique adj indegree where st: "st = (unique, adj, indegree)" by (cases st) auto
  with Cons.prems(2) obtain k where k: "bt_get indegree n = Some k" by auto
  show ?case
  proof (cases "d = n \<or> \<not> bt_contains nodes d")
    case True
    then show ?thesis using Cons.prems(1) st by (auto simp: add_dependency_apply split: if_splits)
  next
    case False
    then obtain st' where st': "add_dependency nodes n st d = Ok st'" "\<exists>d. bt_get (snd (snd st')) n = Some d"
      using st k by (cases "d \<in> set unique") (auto simp: add_dependency_apply)
    then have "try_fold (add_dependency nodes n) st' ds = Err e" using Cons.prems(1) by simp
    from Cons.IH [OF this st'(2)] show ?thesis by auto
  qed
qed simp

lemma add_dependencies_Ok:
  assumes "try_fold (add_dependency nodes n) (unique, adj, indegree) ds = Ok (unique', adj', indegree')"
    and "bs_wf unique" "bt_wf indegree" "\<And>u. bs_wf (children adj u)"
    and "bt_get indegree n = Some (card (set unique))"
  shows "(\<forall>d \<in> set ds. d \<noteq> n \<and> bt_contains nodes d) \<and>
    set unique' = set unique \<union> set ds \<and>
    (\<forall>u. bs_wf (children adj' u) \<and> set (children adj' u) =
      set (children adj u) \<union> (if u \<in> set ds - set unique then {n} else {})) \<and>
    bt_wf indegree' \<and>
    (\<forall>v. bt_get indegree' v = (if v = n then Some (card (set unique')) else bt_get indegree v))"
  using assms
proof (induction ds arbitrary: unique adj indegree)
  case Nil
  then show ?case by auto
next
  case (Cons d ds)
  have d: "d \<noteq> n" "bt_contains nodes d"
    using Cons.prems(1) by (auto simp: add_dependency_apply split: if_splits)
  show ?case
  proof (cases "d \<in> set unique")
    case True
    then have "try_fold (add_dependency nodes n) (unique, adj, indegree) ds = Ok (unique', adj', indegree')"
      using Cons.prems(1) d by (simp add: add_dependency_apply)
    from Cons.IH [OF this Cons.prems(2-)] d True show ?thesis by auto
  next
    case False
    let ?u = "bs_insert d unique" and ?a = "bt_insert d (bs_insert n (children adj d)) adj"
      and ?i = "bt_insert n (Suc (card (set unique))) indegree"
    have r: "try_fold (add_dependency nodes n) (?u, ?a, ?i) ds = Ok (unique', adj', indegree')"
      using Cons.prems(1) d False Cons.prems(5) by (simp add: add_dependency_apply)
    have "bs_wf ?u" "bt_wf ?i" "\<And>u. bs_wf (children ?a u)" "bt_get ?i n = Some (card (set ?u))"
      using Cons.prems(2-4) False by auto
    from Cons.IH [OF r this] d False show ?thesis by auto
  qed
qed

lemma wg_inv_initial:
  assumes "indexed ids nodes"
  shows "wg_inv (initial_graph ids nodes)"
proof -
  have d: "distinct (map fst (map (\<lambda>n. (n, 0 :: nat)) ids))"
    using assms by (simp add: indexed_def comp_def)
  have get: "bt_get (bt_of_list (map (\<lambda>n. (n, 0 :: nat)) ids)) v = (if v \<in> set ids then Some 0 else None)" for v
    unfolding bt_get_of_list_distinct [OF d] by (induction ids) auto
  have "set (bt_keys (bt_of_list (map (\<lambda>n. (n, 0 :: nat)) ids))) = set ids"
    using bt_get_None_keys get by (metis (mono_tags, lifting) option.distinct(1) subsetI subset_antisym)
  then show ?thesis
    using assms get by (simp add: wg_inv_def initial_graph_def indexed_def)
qed

lemma step_at_indexed:
  assumes "indexed (wf_ids h w) nodes" and "i < length (wf_steps w)"
  shows "step_at w nodes (wf_ids h w ! i) = Ok (wf_steps w ! i)"
  using indexed_get [OF assms(1), of i] assms(2) by (simp add: step_at_def)

lemma exported_nth:
  assumes "distinct (wf_ids h w)" and "i < length (wf_steps w)"
  shows "exported h w (wf_ids h w ! i) port \<longleftrightarrow>
    is_legacy_linear w \<or> exports (wf_steps w ! i) (wf_ids h w ! i) port"
  using assms by (auto simp: exported_def nth_eq_iff_index_eq)

lemma check_input_decides:
  assumes ix: "indexed (wf_ids h w) nodes" and i: "i < length (wf_steps w)"
    and deps: "dependencies_ok h w i" and unique: "set unique = set (wf_deps h w i)"
  shows "decides (check_input w (is_legacy_linear w) nodes (wf_ids h w ! i) unique r) (input_ok h w i r)"
proof (cases "dr_node r")
  case None
  then show ?thesis by (auto simp: check_input_def input_ok_def reject_def list_ex_iff)
next
  case (Some p)
  have keys: "set (bt_keys nodes) = set (wf_ids h w)" using indexed_keys [OF ix] .
  show ?thesis
  proof (cases "blank (dr_port r) \<or> p \<notin> set (wf_deps h w i)")
    case True
    then show ?thesis using Some unique by (auto simp: check_input_def input_ok_def)
  next
    case False
    then have p: "p \<noteq> wf_ids h w ! i" "p \<in> set (wf_ids h w)" using deps by (auto simp: dependencies_ok_def)
    then obtain j where j: "j < length (wf_steps w)" "wf_ids h w ! j = p"
      by (auto simp: in_set_conv_nth)
    have "distinct (wf_ids h w)" using ix by (simp add: indexed_def)
    with False Some p keys unique j step_at_indexed [OF ix j(1)] exported_nth [of h w j "dr_port r"]
    show ?thesis by (auto simp: check_input_def input_ok_def reject_def)
  qed
qed

lemma wg_inv_extend:
  assumes inv: "wg_inv g" and i: "length (wg_dependencies g) < length (wg_node_ids g)"
    and n: "n = wg_node_ids g ! length (wg_dependencies g)" and ds: "set ds \<subseteq> set (wg_node_ids g)"
    and ch: "\<forall>u. bs_wf (children adj u) \<and> set (children adj u) =
      set (children (wg_adjacency g) u) \<union> (if u \<in> set ds then {n} else {})"
    and wf: "bt_wf indegree"
    and deg: "\<forall>v. bt_get indegree v = (if v = n then Some (card (set ds)) else bt_get (wg_indegree g) v)"
  shows "wg_inv (g\<lparr>wg_dependencies := wg_dependencies g @ [ds], wg_adjacency := adj, wg_indegree := indegree\<rparr>)"
proof -
  let ?ids = "wg_node_ids g" and ?deps = "wg_dependencies g"
  have dist: "distinct ?ids" using inv by (simp add: wg_inv_def Let_def indexed_def)
  have "bt_get indegree v = None \<longleftrightarrow> v \<notin> set ?ids" for v
    using deg inv i n by (auto simp: wg_inv_def Let_def bt_get_None_keys)
  then have keys: "set (bt_keys indegree) = set ?ids" by (auto simp: bt_get_None_keys)
  have "set (children adj u) = {?ids ! j | j. j < length (?deps @ [ds]) \<and> u \<in> set ((?deps @ [ds]) ! j)}" for u
  proof -
    have "set (children (wg_adjacency g) u) = {?ids ! j | j. j < length ?deps \<and> u \<in> set (?deps ! j)}"
      using inv by (simp add: wg_inv_def Let_def)
    then show ?thesis using ch n by (auto simp: nth_append less_Suc_eq)
  qed
  moreover have "bt_get indegree (?ids ! j) =
      Some (if j < length (?deps @ [ds]) then card (set ((?deps @ [ds]) ! j)) else 0)" if "j < length ?ids" for j
  proof (cases "j = length ?deps")
    case False
    then have "?ids ! j \<noteq> n" using that i n dist by (simp add: nth_eq_iff_index_eq)
    then show ?thesis using False that deg inv by (simp add: wg_inv_def Let_def nth_append less_Suc_eq)
  qed (use deg n in simp)
  ultimately show ?thesis
    using inv i ds ch wf keys by (simp add: wg_inv_def Let_def)
qed

lemma connect_step_cases:
  assumes inv: "wg_inv g" and ids: "wg_node_ids g = wf_ids h w"
    and i: "i < length (wf_steps w)" "length (wg_dependencies g) = i"
  shows "case connect_step w (is_legacy_linear w) g (i, wf_steps w ! i) of
      Inl e \<Rightarrow> local_error e \<and> \<not> (dependencies_ok h w i \<and> inputs_ok h w i)
    | Inr g' \<Rightarrow> dependencies_ok h w i \<and> inputs_ok h w i \<and> wg_inv g' \<and>
        wg_node_ids g' = wg_node_ids g \<and> wg_nodes g' = wg_nodes g \<and>
        wg_dependencies g' = wg_dependencies g @ [wf_deps h w i]"
proof -
  let ?n = "wf_ids h w ! i" and ?deps = "wf_deps h w i"
  let ?inputs = "effective_inputs (is_legacy_linear w) (wf_ids h w) i (wf_steps w ! i)"
  let ?add = "try_fold (add_dependency (wg_nodes g) ?n) ([], wg_adjacency g, wg_indegree g) ?deps"
  from inv have ix: "indexed (wf_ids h w) (wg_nodes g)" and wf: "bt_wf (wg_indegree g)"
    and ch: "\<And>u. bs_wf (children (wg_adjacency g) u)"
    and ch_set: "\<And>u. set (children (wg_adjacency g) u) =
      {wf_ids h w ! j | j. j < i \<and> u \<in> set (wg_dependencies g ! j)}"
    and deg: "\<And>j. j < length (wf_steps w) \<Longrightarrow> bt_get (wg_indegree g) (wf_ids h w ! j) =
      Some (if j < i then card (set (wg_dependencies g ! j)) else 0)"
    using ids i(2) by (auto simp: wg_inv_def Let_def)
  have keys: "set (bt_keys (wg_nodes g)) = set (wf_ids h w)" using indexed_keys [OF ix] .
  have step: "connect_step w (is_legacy_linear w) g (i, wf_steps w ! i) =
      and_then ?add (\<lambda>(unique, adj, indegree).
        and_then (try_for (check_input w (is_legacy_linear w) (wg_nodes g) ?n unique) ?inputs) (\<lambda>_.
          Ok (g\<lparr>wg_dependencies := wg_dependencies g @ [?deps], wg_adjacency := adj, wg_indegree := indegree\<rparr>)))"
    by (simp add: connect_step_def ids wf_deps_def Let_def)
  show ?thesis
  proof (cases ?add)
    case (Inl e)
    then have "local_error e \<and> (\<exists>d \<in> set ?deps. d = ?n \<or> \<not> bt_contains (wg_nodes g) d)"
      using add_dependency_Err [OF Inl] deg [OF i(1)] by simp
    then show ?thesis using Inl keys by (auto simp: step dependencies_ok_def)
  next
    case (Inr r)
    obtain unique adj indegree where r: "r = (unique, adj, indegree)" by (cases r) auto
    have add: "(\<forall>d \<in> set ?deps. d \<noteq> ?n \<and> bt_contains (wg_nodes g) d) \<and> set unique = set ?deps \<and>
      (\<forall>u. bs_wf (children adj u) \<and> set (children adj u) =
        set (children (wg_adjacency g) u) \<union> (if u \<in> set ?deps then {?n} else {})) \<and> bt_wf indegree \<and>
      (\<forall>v. bt_get indegree v = (if v = ?n then Some (card (set unique)) else bt_get (wg_indegree g) v))"
      using add_dependencies_Ok [of "wg_nodes g" ?n "[]" "wg_adjacency g" "wg_indegree g" ?deps unique adj indegree]
        Inr r wf ch deg [OF i(1)] by simp
    then have ok: "dependencies_ok h w i" and u: "set unique = set ?deps" using keys by (auto simp: dependencies_ok_def)
    let ?g = "g\<lparr>wg_dependencies := wg_dependencies g @ [?deps], wg_adjacency := adj, wg_indegree := indegree\<rparr>"
    have inv': "wg_inv ?g"
      using wg_inv_extend [OF inv, of ?n ?deps adj indegree] add i ids keys by (auto simp: subset_iff)
    have "decides (try_for (check_input w (is_legacy_linear w) (wg_nodes g) ?n unique) ?inputs) (inputs_ok h w i)"
      unfolding inputs_ok_def using check_input_decides [OF ix i(1) ok u] by (rule decides_try_for)
    then show ?thesis using Inr r ok inv' by (auto simp: step decides_def split: sum.splits)
  qed
qed

lemma connect_steps_cases:
  assumes "wg_inv g" and "wg_node_ids g = wf_ids h w" and "length (wg_dependencies g) = k"
    and "k + length xs = length (wf_steps w)" and "xs = drop k (wf_steps w)"
  shows "case try_fold (connect_step w (is_legacy_linear w)) g (List.enumerate k xs) of
      Inl e \<Rightarrow> local_error e \<and> \<not> (\<forall>i. k \<le> i \<and> i < length (wf_steps w) \<longrightarrow> dependencies_ok h w i \<and> inputs_ok h w i)
    | Inr g' \<Rightarrow> (\<forall>i. k \<le> i \<and> i < length (wf_steps w) \<longrightarrow> dependencies_ok h w i \<and> inputs_ok h w i) \<and>
        wg_inv g' \<and> wg_node_ids g' = wf_ids h w \<and> wg_nodes g' = wg_nodes g \<and>
        wg_dependencies g' = wg_dependencies g @ map (wf_deps h w) [k..<length (wf_steps w)]"
  using assms
proof (induction xs arbitrary: g k)
  case (Cons x xs)
  from Cons.prems(4) have k: "k < length (wf_steps w)" by simp
  then have x: "x = wf_steps w ! k" "xs = drop (Suc k) (wf_steps w)"
    using Cons.prems(5) Cons_nth_drop_Suc [OF k] by (metis list.inject)+
  note step = connect_step_cases [OF Cons.prems(1,2) k Cons.prems(3)]
  have split: "(\<forall>i. k \<le> i \<and> i < length (wf_steps w) \<longrightarrow> P i) \<longleftrightarrow>
      P k \<and> (\<forall>i. Suc k \<le> i \<and> i < length (wf_steps w) \<longrightarrow> P i)" for P
    using k by (metis Suc_le_eq le_less le_refl less_imp_le)
  show ?case
  proof (cases "connect_step w (is_legacy_linear w) g (k, x)")
    case (Inl e)
    then show ?thesis using step x k by auto
  next
    case (Inr g')
    then have g': "wg_inv g'" "wg_node_ids g' = wf_ids h w" "length (wg_dependencies g') = Suc k"
      "wg_nodes g' = wg_nodes g" "wg_dependencies g' = wg_dependencies g @ [wf_deps h w k]"
      and ok: "dependencies_ok h w k" "inputs_ok h w k"
      using step x Cons.prems(2,3) by auto
    have "Suc k + length xs = length (wf_steps w)" using Cons.prems(4) by simp
    from Cons.IH [OF g'(1,2,3) this x(2)] show ?thesis
      using Inr g' ok k unfolding split [of "\<lambda>i. dependencies_ok h w i \<and> inputs_ok h w i"]
      by (auto simp: upt_conv_Cons split: sum.splits)
  qed
qed auto

lemma validate_input_contract_Err: "validate_input_contract c = Err e \<Longrightarrow> local_error e"
  by (auto simp: validate_input_contract_def validate_crs_unit_def validate_geo_agreement_def Let_def
      result_simps optional_section_def split: option.splits)

lemma try_fold_names_cases:
  "case try_fold (\<lambda>names c. if f c \<in> set names then Err (dup c) else map_ok (\<lambda>_. bs_insert (f c) names) (v c)) s xs of
      Inl e \<Rightarrow> (\<exists>c. e = dup c \<or> v c = Err e) \<and>
        \<not> (distinct (map f xs) \<and> set (map f xs) \<inter> set s = {} \<and> (\<forall>c \<in> set xs. v c = Ok ()))
    | Inr _ \<Rightarrow> distinct (map f xs) \<and> set (map f xs) \<inter> set s = {} \<and> (\<forall>c \<in> set xs. v c = Ok ())"
proof (induction xs arbitrary: s)
  case (Cons c xs)
  show ?case
  proof (cases "f c \<in> set s")
    case False
    show ?thesis
    proof (cases "v c")
      case (Inl e)
      with False show ?thesis by auto
    next
      case (Inr u)
      with False Cons [of "bs_insert (f c) s"] show ?thesis by (auto split: sum.splits)
    qed
  qed auto
qed simp

lemma validate_input_contracts_decides:
  "decides (validate_input_contracts w) (distinct (map ic_name (wf_input_contracts w)) \<and>
     (\<forall>c \<in> set (wf_input_contracts w). validate_input_contract c = Ok ()))"
  using try_fold_names_cases [where f = ic_name and dup = "\<lambda>c. DuplicateInputContract (ic_name c)"
    and v = validate_input_contract and s = "[]" and xs = "wf_input_contracts w"]
  unfolding validate_input_contracts_def
  by (auto simp: result_simps decides_def dest: validate_input_contract_Err split: sum.splits)

text \<open>The first phases together: either an error that concerns one node or one contract, or the
  graph of the workflow.\<close>

definition graph_ok :: "hashing \<Rightarrow> geo_workflow \<Rightarrow> bool" where
  "graph_ok h w \<longleftrightarrow> distinct (wf_ids h w) \<and> distinct (map ic_name (wf_input_contracts w)) \<and>
     (\<forall>c \<in> set (wf_input_contracts w). validate_input_contract c = Ok ()) \<and>
     (\<forall>i < length (wf_steps w). dependencies_ok h w i \<and> inputs_ok h w i)"

definition graph_of :: "hashing \<Rightarrow> geo_workflow \<Rightarrow> wf_graph \<Rightarrow> bool" where
  "graph_of h w g \<longleftrightarrow> wg_inv g \<and> wg_node_ids g = wf_ids h w \<and>
     wg_dependencies g = map (wf_deps h w) [0..<length (wf_steps w)]"

lemma build_graph_cases:
  "case build_graph h w of
      Inl e \<Rightarrow> local_error e \<and> \<not> graph_ok h w
    | Inr g \<Rightarrow> graph_ok h w \<and> graph_of h w g"
proof (cases "collect_nodes h w")
  case (Inl e)
  then show ?thesis
    using collect_nodes_cases [of h w] collect_nodes_Err [OF Inl] by (simp add: build_graph_def graph_ok_def)
next
  case (Inr r)
  obtain ids nodes where r: "r = (ids, nodes)" by (cases r)
  with Inr collect_nodes_cases [of h w] have ids: "ids = wf_ids h w" and ix: "indexed ids nodes" by auto
  let ?g = "initial_graph ids nodes"
  have "wg_node_ids ?g = wf_ids h w" "length (wg_dependencies ?g) = 0" "wg_dependencies ?g = []"
    by (simp_all add: initial_graph_def ids)
  with connect_steps_cases [OF wg_inv_initial [OF ix], of h w 0 "wf_steps w"] ix ids
    validate_input_contracts_decides [of w]
  show ?thesis
    unfolding build_graph_def Inr r
    by (auto simp: graph_ok_def graph_of_def enumerate0_def indexed_def decides_def split: sum.splits)
qed

section \<open>The graph is a dependency graph\<close>

definition wg_full :: "wf_graph \<Rightarrow> bool" where
  "wg_full g \<longleftrightarrow> wg_inv g \<and> length (wg_dependencies g) = length (wg_node_ids g)"

lemma graph_of_full: "graph_of h w g \<Longrightarrow> wg_full g"
  by (simp add: graph_of_def wg_full_def)

lemma wg_preds:
  assumes "wg_full g" and "i < length (wg_node_ids g)"
  shows "preds (wg_adjacency g) (wg_node_ids g ! i) = set (wg_dependencies g ! i)"
proof -
  have "distinct (wg_node_ids g)" using assms(1) by (simp add: wg_full_def wg_inv_def Let_def indexed_def)
  with assms show ?thesis
    by (auto simp: preds_def wg_full_def wg_inv_def Let_def nth_eq_iff_index_eq)
qed

interpretation wg: dependency_graph wg_full wg_node_ids wg_adjacency wg_indegree
proof
  fix g u v assume g: "wg_full g"
  then have inv: "wg_inv g" and len: "length (wg_dependencies g) = length (wg_node_ids g)"
    by (simp_all add: wg_full_def)
  show "distinct (wg_node_ids g)" using inv by (simp add: wg_inv_def Let_def indexed_def)
  show "distinct (children (wg_adjacency g) u)"
    using inv bs_wf_distinct by (auto simp: wg_inv_def Let_def)
  show "edges (wg_adjacency g) \<subseteq> set (wg_node_ids g) \<times> set (wg_node_ids g)"
    using inv len by (force simp: edges_def wg_inv_def Let_def)
  show "bt_wf (wg_indegree g)" "set (bt_keys (wg_indegree g)) = set (wg_node_ids g)"
    using inv by (simp_all add: wg_inv_def Let_def)
  show "bt_get (wg_indegree g) v = Some (card (preds (wg_adjacency g) v))" if v: "v \<in> set (wg_node_ids g)"
  proof -
    obtain i where i: "i < length (wg_node_ids g)" "v = wg_node_ids g ! i" using v by (auto simp: in_set_conv_nth)
    then have "bt_get (wg_indegree g) v = Some (card (set (wg_dependencies g ! i)))"
      using inv len by (simp add: wg_inv_def Let_def)
    then show ?thesis using wg_preds [OF g i(1)] i(2) by simp
  qed
qed

lemma graph_of_edges:
  assumes "graph_of h w g" shows "edges (wg_adjacency g) = wf_edges h w"
proof -
  have ids: "wg_node_ids g = wf_ids h w" and deps: "wg_dependencies g = map (wf_deps h w) [0..<length (wf_steps w)]"
    using assms by (simp_all add: graph_of_def)
  have "set (children (wg_adjacency g) u) = {wf_ids h w ! i | i. i < length (wf_steps w) \<and> u \<in> set (wf_deps h w i)}" for u
    using assms deps unfolding graph_of_def wg_inv_def Let_def ids by auto
  then show ?thesis by (auto simp: edges_def wf_edges_def)
qed

section \<open>The later phases\<close>

text \<open>What an accepted order is: a permutation of the nodes in which every dependency comes first.\<close>

definition ordered_by :: "(node_id \<times> node_id) set \<Rightarrow> node_id list \<Rightarrow> bool" where
  "ordered_by E order \<longleftrightarrow> (\<forall>i < length order. \<forall>u. (u, order ! i) \<in> E \<longrightarrow> u \<in> set (take i order))"

lemma check_order_cases:
  assumes "graph_of h w g"
  shows "case check_order g of
      Inl e \<Rightarrow> \<not> acyclic (wf_edges h w) \<and> (\<exists>ns. e = Cycle ns \<and> ns \<noteq> [] \<and> set ns \<subseteq> set (wf_ids h w) \<and>
        (\<forall>n \<in> set ns. \<exists>m \<in> set ns. (m, n) \<in> wf_edges h w))
    | Inr order \<Rightarrow> acyclic (wf_edges h w) \<and> distinct order \<and> set order = set (wf_ids h w) \<and>
        ordered_by (wf_edges h w) order"
proof -
  have full: "wg_full g" and ids: "wg_node_ids g = wf_ids h w" and E: "edges (wg_adjacency g) = wf_edges h w"
    using assms graph_of_full graph_of_edges by (auto simp: graph_of_def)
  obtain order deg where k: "kahn (wg_adjacency g) (wg_indegree g) (initial_ready (wg_indegree g)) [] = Some (order, deg)"
    and inv: "wg.loop_inv g order deg []"
    using wg.kahn_total [OF full] by blast
  show ?thesis
  proof (cases "length order = length (wg_node_ids g)")
    case True
    then show ?thesis
      using wg.kahn_complete [OF full inv True] k
      by (auto simp: check_order_def ordered_by_def topological_def preds_edges subset_iff E ids)
  next
    case False
    let ?ns = "map fst (filter (\<lambda>(n, d). 0 < d) deg)"
    have wf: "bt_wf deg"
      using inv wg.wf_degrees [OF full] by (simp add: wg.loop_inv_def bt_wf_def bt_keys_def)
    have set: "set ?ns = set (wf_ids h w) - set order"
    proof -
      have "set ?ns = {v. \<exists>d. bt_get deg v = Some d \<and> 0 < d}"
        unfolding bt_get_Some_set [OF wf] by (auto simp: image_iff)
      then show ?thesis using wg.kahn_cycle(2) [OF full inv False] ids by simp
    qed
    have o: "distinct order" "set order \<subseteq> set (wf_ids h w)"
      using inv ids by (simp_all add: wg.loop_inv_def)
    have "set order \<noteq> set (wf_ids h w)"
      using o(1) False wg.distinct_vertices [OF full] ids by (metis distinct_card)
    with o(2) have "set ?ns \<noteq> {}" unfolding set by blast
    then have "?ns \<noteq> []" by (metis list.set(1))
    moreover have "\<exists>m \<in> set ?ns. (m, n) \<in> wf_edges h w" if "n \<in> set ?ns" for n
    proof -
      have "\<not> preds (wg_adjacency g) n \<subseteq> set order"
        using that inv unfolding set wg.loop_inv_def ids by auto
      then obtain m where "m \<in> preds (wg_adjacency g) n" "m \<notin> set order" by blast
      moreover from this have "(m, n) \<in> wf_edges h w" "m \<in> set (wf_ids h w)"
        using wg.preds_vertices [OF full, of n] ids E by (auto simp: preds_edges [symmetric])
      ultimately show ?thesis unfolding set by blast
    qed
    moreover have "\<not> acyclic (wf_edges h w)"
      using wg.kahn_cycle(1) [OF full inv False] E by (auto simp: acyclic_def)
    moreover have "check_order g = Err (Cycle ?ns)" using k False by (simp add: check_order_def)
    moreover have "set ?ns \<subseteq> set (wf_ids h w)" unfolding set by blast
    ultimately show ?thesis by (simp del: set_map set_filter map_is_Nil_conv)
  qed
qed

lemma graph_of_roots:
  assumes "graph_of h w g"
  shows "set (graph_roots g) = {v \<in> set (wf_ids h w). \<forall>u. (u, v) \<notin> wf_edges h w}"
proof -
  have full: "wg_full g" and ids: "wg_node_ids g = wf_ids h w" and E: "edges (wg_adjacency g) = wf_edges h w"
    and deps: "wg_dependencies g = map (wf_deps h w) [0..<length (wf_steps w)]"
    using assms graph_of_full graph_of_edges by (auto simp: graph_of_def)
  have "wf_deps h w i = [] \<longleftrightarrow> (\<forall>u. (u, wf_ids h w ! i) \<notin> wf_edges h w)" if i: "i < length (wf_steps w)" for i
  proof -
    have "preds (wg_adjacency g) (wf_ids h w ! i) = set (wf_deps h w i)"
      using wg_preds [OF full, of i] i ids deps by simp
    then have "u \<in> set (wf_deps h w i) \<longleftrightarrow> (u, wf_ids h w ! i) \<in> wf_edges h w" for u
      using preds_edges [of u "wg_adjacency g"] E by metis
    then show ?thesis by (metis list.set_intros(1) neq_Nil_conv empty_iff list.set(1))
  qed
  moreover have "set (graph_roots g) = {wf_ids h w ! i | i. i < length (wf_steps w) \<and> wf_deps h w i = []}"
    by (auto simp: graph_roots_def ids deps enumerate0_def in_set_enumerate_eq image_iff)
  ultimately have "set (graph_roots g) =
      {wf_ids h w ! i | i. i < length (wf_steps w) \<and> (\<forall>u. (u, wf_ids h w ! i) \<notin> wf_edges h w)}"
    by blast
  then show ?thesis by (auto simp: in_set_conv_nth)
qed

lemma wf_edges_ids:
  assumes "graph_ok h w" shows "wf_edges h w \<subseteq> set (wf_ids h w) \<times> set (wf_ids h w)"
  using assms by (auto simp: wf_edges_def graph_ok_def dependencies_ok_def)

text \<open>After the order check the reachability check cannot fail.\<close>

lemma check_reachable_Ok:
  assumes g: "graph_of h w g" and ok: "graph_ok h w" and "acyclic (wf_edges h w)"
  shows "check_reachable g = Ok ()"
proof -
  let ?r = "reach (wg_adjacency g) (graph_roots g) []" and ?V = "set (wf_ids h w)"
  have "?V \<subseteq> (wf_edges h w)\<^sup>* `` set (graph_roots g)"
  proof
    fix v assume "v \<in> ?V"
    from acyclic_roots_reach [OF _ wf_edges_ids [OF ok] assms(3) this]
    show "v \<in> (wf_edges h w)\<^sup>* `` set (graph_roots g)" using graph_of_roots [OF g] by auto
  qed
  moreover have "(wf_edges h w)\<^sup>* `` ?V \<subseteq> ?V"
    using closed_rtrancl [of "wf_edges h w" ?V] wf_edges_ids [OF ok] by blast
  ultimately have "set ?r = ?V"
    using graph_of_roots [OF g] unfolding set_reach graph_of_edges [OF g] by blast
  moreover have "bs_wf ?r" by (rule bs_wf_reach) simp
  ultimately have "length ?r = length (wf_ids h w)"
    using ok by (simp add: graph_ok_def length_bs distinct_card)
  then show ?thesis using g by (simp add: check_reachable_def graph_of_def reject_def)
qed

lemma graph_of_neighbours:
  assumes g: "graph_of h w g"
  shows "neighbours (wg_nodes g) (wg_dependencies g) (wg_adjacency g) = wf_edges h w \<union> (wf_edges h w)\<inverse>"
    and "u \<in> set (wf_ids h w) \<Longrightarrow> lookup_deps (wg_nodes g) (wg_dependencies g) u \<noteq> None"
proof -
  have ids: "wg_node_ids g = wf_ids h w" and deps: "wg_dependencies g = map (wf_deps h w) [0..<length (wf_steps w)]"
    and ix: "indexed (wf_ids h w) (wg_nodes g)"
    using g by (auto simp: graph_of_def wg_inv_def Let_def)
  have look: "lookup_deps (wg_nodes g) (wg_dependencies g) u = Some ds \<longleftrightarrow>
      (\<exists>i < length (wf_steps w). u = wf_ids h w ! i \<and> ds = wf_deps h w i)" for u ds
  proof (cases "u \<in> set (wf_ids h w)")
    case True
    then obtain i where i: "i < length (wf_steps w)" "u = wf_ids h w ! i" by (auto simp: in_set_conv_nth)
    have "distinct (wf_ids h w)" using ix by (simp add: indexed_def)
    then have "u = wf_ids h w ! j \<longleftrightarrow> j = i" if "j < length (wf_steps w)" for j
      using i that by (auto simp: nth_eq_iff_index_eq)
    then have "(\<exists>j < length (wf_steps w). u = wf_ids h w ! j \<and> ds = wf_deps h w j) \<longleftrightarrow> ds = wf_deps h w i"
      using i by blast
    moreover have "lookup_deps (wg_nodes g) (wg_dependencies g) u = Some (wf_deps h w i)"
      using i indexed_get [OF ix, of i] by (simp add: lookup_deps_def deps)
    ultimately show ?thesis by auto
  next
    case False
    then have "bt_get (wg_nodes g) u = None" using indexed_keys [OF ix] by (simp add: bt_get_None_keys)
    with False show ?thesis by (auto simp: lookup_deps_def)
  qed
  show "neighbours (wg_nodes g) (wg_dependencies g) (wg_adjacency g) = wf_edges h w \<union> (wf_edges h w)\<inverse>"
  proof -
    have "v \<in> set (children (wg_adjacency g) u) \<longleftrightarrow> (u, v) \<in> wf_edges h w" for u v
      using graph_of_edges [OF g] by (auto simp: edges_def)
    then show ?thesis unfolding neighbours_def look by (auto simp: wf_edges_def)
  qed
  show "u \<in> set (wf_ids h w) \<Longrightarrow> lookup_deps (wg_nodes g) (wg_dependencies g) u \<noteq> None"
    using look by (fastforce simp: in_set_conv_nth)
qed

lemma check_connected_cases:
  assumes g: "graph_of h w g" and ok: "graph_ok h w" and ne: "wf_steps w \<noteq> []"
  shows "case check_connected g of
      Inl e \<Rightarrow> \<not> connected h w \<and> (\<exists>ns. e = DisconnectedNodes ns)
    | Inr _ \<Rightarrow> connected h w"
proof -
  let ?E = "wf_edges h w" and ?V = "set (wf_ids h w)"
  let ?N = "neighbours (wg_nodes g) (wg_dependencies g) (wg_adjacency g)"
  have ids: "wg_node_ids g = wf_ids h w" using g by (simp add: graph_of_def)
  have N: "?N = ?E \<union> ?E\<inverse>" using graph_of_neighbours(1) [OF g] .
  have sub: "?N \<subseteq> ?V \<times> ?V" using wf_edges_ids [OF ok] N by auto
  have "?V \<noteq> {}" using ne by (simp add: wf_ids_def)
  then obtain start unvisited where u: "bs_of_list (wf_ids h w) = start # unvisited"
    by (metis set_bs_of_list list.set(1) neq_Nil_conv)
  then have V: "set (start # unvisited) = ?V" by (metis set_bs_of_list)
  obtain cs where cs: "components (wg_nodes g) (wg_dependencies g) (wg_adjacency g) (start # unvisited) = Some cs"
    using components_total [OF graph_of_neighbours(2) [OF g] sub, of "start # unvisited"] V by auto
  have single: "length cs \<le> 1 \<longleftrightarrow> ?V \<subseteq> ?N\<^sup>* `` {start}"
    by (rule components_single [OF graph_of_neighbours(2) [OF g] sub cs V])
  have "sym (?N\<^sup>*)" unfolding N by (intro sym_rtrancl) (auto simp: sym_def)
  then have "?V \<subseteq> ?N\<^sup>* `` {start} \<longleftrightarrow> connected h w"
  proof -
    have start: "start \<in> ?V" using V by auto
    assume sym: "sym (?N\<^sup>*)"
    have "(a, b) \<in> ?N\<^sup>*" if "?V \<subseteq> ?N\<^sup>* `` {start}" "a \<in> ?V" "b \<in> ?V" for a b
    proof -
      have "(start, a) \<in> ?N\<^sup>*" "(start, b) \<in> ?N\<^sup>*" using that by blast+
      from rtrancl_trans [OF symD [OF sym this(1)] this(2)] show ?thesis .
    qed
    with start show ?thesis unfolding connected_def N [symmetric] by blast
  qed
  with single cs u ids show ?thesis by (auto simp: check_connected_def reject_def)
qed

lemma ball_enumerate0: "(\<forall>x \<in> set (enumerate0 xs). P x) \<longleftrightarrow> (\<forall>i < length xs. P (i, xs ! i))"
  by (auto simp: enumerate0_def in_set_enumerate_eq)

lemma in_enumerate0: "x \<in> set (enumerate0 xs) \<Longrightarrow> \<exists>i < length xs. x = (i, xs ! i)"
  by (cases x) (auto simp: enumerate0_def in_set_enumerate_eq)

definition outputs_declared :: "hashing \<Rightarrow> geo_workflow \<Rightarrow> nat \<times> workflow_step \<Rightarrow> bool" where
  "outputs_declared h w = (\<lambda>(i, step). ws_outputs step \<noteq> [] \<and>
     (\<forall>out \<in> set (ws_outputs step). dr_node out = Some (wf_ids h w ! i) \<and> \<not> blank (dr_port out)))"

definition output_contracts_ok :: "hashing \<Rightarrow> geo_workflow \<Rightarrow> nat \<times> workflow_step \<Rightarrow> bool" where
  "output_contracts_ok h w = (\<lambda>(i, step). distinct (map pc_port (ws_output_contracts step)) \<and>
     (\<forall>c \<in> set (ws_output_contracts step). \<not> blank (pc_port c) \<and>
       (is_legacy_linear w \<or> exports step (wf_ids h w ! i) (pc_port c)) \<and>
       validate_contract (pc_contract c) = Ok ()))"

lemma outputs_ok_parts:
  "outputs_ok h w i \<longleftrightarrow> (is_legacy_linear w \<or> outputs_declared h w (i, wf_steps w ! i)) \<and>
     output_contracts_ok h w (i, wf_steps w ! i)"
  by (auto simp: outputs_ok_def Let_def outputs_declared_def output_contracts_ok_def)

lemma outputs_phase:
  "decides (try_for (check_step_outputs (wf_ids h w)) (enumerate0 (wf_steps w)))
     (\<forall>x \<in> set (enumerate0 (wf_steps w)). outputs_declared h w x)"
proof (rule decides_try_for)
  fix x assume "x \<in> set (enumerate0 (wf_steps w))"
  obtain i step where x: "x = (i, step)" by (cases x)
  show "decides (check_step_outputs (wf_ids h w) x) (outputs_declared h w x)"
    by (rule decidesI)
      (auto simp: x check_step_outputs_def outputs_declared_def Let_def result_simps dest!: try_for_eq_ErrD)
qed

lemma validate_step_contracts_decides:
  "decides (try_fold (validate_output_contract legacy n step) s cs)
     (distinct (map pc_port cs) \<and> pc_port ` set cs \<inter> set s = {} \<and>
      (\<forall>c \<in> set cs. \<not> blank (pc_port c) \<and> (legacy \<or> exports step n (pc_port c)) \<and>
        validate_contract (pc_contract c) = Ok ()))"
proof (induction cs arbitrary: s)
  case (Cons c cs)
  show ?case
  proof (cases "validate_output_contract legacy n step s c")
    case (Inl e)
    then show ?thesis
      by (auto simp: validate_output_contract_def Let_def result_simps split: if_splits)
  next
    case (Inr s')
    then have "s' = bs_insert (pc_port c) s" "\<not> blank (pc_port c)" "pc_port c \<notin> set s"
      "legacy \<or> exports step n (pc_port c)" "validate_contract (pc_contract c) = Ok ()"
      by (auto simp: validate_output_contract_def Let_def result_simps split: if_splits)
    with Inr Cons [of s'] show ?thesis by (auto simp: decides_def split: sum.splits)
  qed
qed simp

lemma output_contracts_phase:
  "decides (validate_output_contracts w (wf_ids h w) (is_legacy_linear w))
     (\<forall>x \<in> set (enumerate0 (wf_steps w)). output_contracts_ok h w x)"
  unfolding validate_output_contracts_def
proof (rule decides_try_for)
  fix x assume "x \<in> set (enumerate0 (wf_steps w))"
  obtain i step where x: "x = (i, step)" by (cases x)
  show "decides (case x of (index, step) \<Rightarrow> map_ok (\<lambda>_. ())
      (try_fold (validate_output_contract (is_legacy_linear w) (wf_ids h w ! index) step) []
        (ws_output_contracts step))) (output_contracts_ok h w x)"
    using validate_step_contracts_decides [where s = "[]"] by (simp add: x output_contracts_ok_def)
qed

lemma validate_output_ref_decides:
  assumes ix: "indexed (wf_ids h w) nodes"
  shows "decides (validate_output_ref w (is_legacy_linear w) nodes r)
    (\<exists>n. dr_node r = Some n \<and> exported h w n (dr_port r))"
proof (cases "\<exists>n. dr_node r = Some n \<and> n \<in> set (wf_ids h w)")
  case True
  then obtain i where i: "i < length (wf_steps w)" "dr_node r = Some (wf_ids h w ! i)"
    by (auto simp: in_set_conv_nth)
  have "distinct (wf_ids h w)" using ix by (simp add: indexed_def)
  with i indexed_keys [OF ix] step_at_indexed [OF ix i(1)] exported_nth [of h w i "dr_port r"]
  show ?thesis by (auto simp: validate_output_ref_def reject_def)
next
  case False
  with indexed_keys [OF ix] show ?thesis
    by (auto simp: validate_output_ref_def exported_def split: option.splits)
qed

lemma output_refs_phase:
  assumes "indexed (wf_ids h w) nodes"
  shows "decides (validate_output_refs w (is_legacy_linear w) nodes)
    (\<forall>r \<in> set (wf_output_refs w). \<exists>n. dr_node r = Some n \<and> exported h w n (dr_port r))"
proof -
  have "validate_output_refs w (is_legacy_linear w) nodes =
      try_for (validate_output_ref w (is_legacy_linear w) nodes) (wf_output_refs w)"
    by (simp add: validate_output_refs_def)
  then show ?thesis using validate_output_ref_decides [OF assms] by (simp only: decides_try_for)
qed

section \<open>All phases together\<close>

definition shape_error :: "hashing \<Rightarrow> geo_workflow \<Rightarrow> workflow_error \<Rightarrow> bool" where
  "shape_error h w e \<longleftrightarrow>
     (\<exists>ns. e = Cycle ns \<and> ns \<noteq> [] \<and> set ns \<subseteq> set (wf_ids h w) \<and>
        (\<forall>n \<in> set ns. \<exists>m \<in> set ns. (m, n) \<in> wf_edges h w) \<and> \<not> acyclic (wf_edges h w)) \<or>
     (\<exists>ns. e = DisconnectedNodes ns \<and> \<not> connected h w)"

lemma topological_order_cases:
  "case topological_order h w of
      Inl e \<Rightarrow> \<not> valid_workflow h w \<and> (local_error e \<or> shape_error h w e)
    | Inr order \<Rightarrow> valid_workflow h w \<and> distinct order \<and> set order = set (wf_ids h w) \<and>
        ordered_by (wf_edges h w) order"
proof (cases "wf_steps w = []")
  case True
  then show ?thesis by (simp add: topological_order_def valid_workflow_def)
next
  case ne: False
  show ?thesis
  proof (cases "build_graph h w")
    case (Inl e)
    then show ?thesis using build_graph_cases [of h w] ne
      by (auto simp: topological_order_def valid_workflow_def graph_ok_def Let_def)
  next
    case (Inr g)
    then have ok: "graph_ok h w" and g: "graph_of h w g" using build_graph_cases [of h w] by auto
    have ids: "wg_node_ids g = wf_ids h w" and ix: "indexed (wf_ids h w) (wg_nodes g)"
      using g by (auto simp: graph_of_def wg_inv_def Let_def)
    show ?thesis
    proof (cases "check_order g")
      case (Inl e)
      then show ?thesis using check_order_cases [OF g] Inr ne
        by (auto simp: topological_order_def valid_workflow_def shape_error_def Let_def)
    next
      case ord: (Inr order)
      then have order: "acyclic (wf_edges h w)" "distinct order" "set order = set (wf_ids h w)"
        "ordered_by (wf_edges h w) order"
        using check_order_cases [OF g] by auto
      define rest where "rest =
        and_then (if is_legacy_linear w then Ok ()
          else try_for (check_step_outputs (wf_ids h w)) (enumerate0 (wf_steps w))) (\<lambda>_.
        and_then (validate_output_refs w (is_legacy_linear w) (wg_nodes g)) (\<lambda>_.
          validate_output_contracts w (wf_ids h w) (is_legacy_linear w)))"
      have "decides rest ((\<forall>i < length (wf_steps w). outputs_ok h w i) \<and>
          (\<forall>r \<in> set (wf_output_refs w). \<exists>n. dr_node r = Some n \<and> exported h w n (dr_port r)))"
      proof -
        have "decides (if is_legacy_linear w then Ok ()
            else try_for (check_step_outputs (wf_ids h w)) (enumerate0 (wf_steps w)))
            (is_legacy_linear w \<or> (\<forall>x \<in> set (enumerate0 (wf_steps w)). outputs_declared h w x))"
          using outputs_phase [of h w] by simp
        from decides_and_then [OF this decides_and_then [OF output_refs_phase [OF ix] output_contracts_phase]]
        show ?thesis unfolding rest_def ball_enumerate0 outputs_ok_parts
          by (rule back_subst [of "decides _"]) blast
      qed
      moreover have "topological_order h w =
          and_then (check_connected g) (\<lambda>_. and_then rest (\<lambda>_. Ok order))"
        using ne Inr ord check_reachable_Ok [OF g ok order(1)] ids
        by (simp add: topological_order_def rest_def Let_def and_then_assoc)
      ultimately show ?thesis
        using check_connected_cases [OF g ok ne] ok ne order
        by (auto simp: valid_workflow_def graph_ok_def shape_error_def decides_def split: sum.splits)
    qed
  qed
qed

lemma topological_order_Ok:
  assumes "topological_order h w = Ok order"
  shows "valid_workflow h w" "distinct order" "set order = set (wf_ids h w)" "ordered_by (wf_edges h w) order"
  using topological_order_cases [of h w] assms by auto

lemma valid_workflow_validate: "valid_workflow h w \<Longrightarrow> validate_workflow h w = Ok ()"
  and validate_valid_workflow: "validate_workflow h w = Ok () \<Longrightarrow> valid_workflow h w"
  using topological_order_cases [of h w]
  by (auto simp: validate_workflow_def result_simps split: sum.splits)

lemma ordered_by_positions:
  assumes "ordered_by E order" "distinct order" "(u, v) \<in> E" "v \<in> set order"
  shows "\<exists>j k. j < k \<and> k < length order \<and> order ! j = u \<and> order ! k = v"
proof -
  obtain k where k: "k < length order" "order ! k = v" using assms(4) by (auto simp: in_set_conv_nth)
  then have "u \<in> set (take k order)" using assms(1,3) by (auto simp: ordered_by_def)
  then obtain j where "j < k" "order ! j = u" using k(1) by (auto simp: in_set_conv_nth)
  with k show ?thesis by blast
qed

text \<open>A chain has a single topological order.\<close>

lemma chain_order:
  assumes "distinct ids" "distinct order" "set order = set ids"
    and before: "\<And>i. 0 < i \<Longrightarrow> i < length ids \<Longrightarrow>
      \<exists>j k. j < k \<and> k < length order \<and> order ! j = ids ! (i - 1) \<and> order ! k = ids ! i"
  shows "order = ids"
proof (rule nth_equalityI)
  show len: "length order = length ids" using assms(1-3) by (metis distinct_card)
  have "\<forall>i. \<exists>k. i < length ids \<longrightarrow> k < length order \<and> order ! k = ids ! i"
    using assms(3) by (auto simp: in_set_conv_nth set_eq_iff)
  then obtain pos where pos: "\<And>i. i < length ids \<Longrightarrow> pos i < length order \<and> order ! pos i = ids ! i"
    by metis
  have mono: "pos (i - 1) < pos i" if "0 < i" "i < length ids" for i
  proof -
    obtain j k where jk: "j < k" "k < length order" "order ! j = ids ! (i - 1)" "order ! k = ids ! i"
      using before \<open>0 < i\<close> \<open>i < length ids\<close> by blast
    have "i - 1 < length ids" using that by simp
    then have "order ! j = order ! pos (i - 1)" "order ! k = order ! pos i"
      "pos (i - 1) < length order" "pos i < length order"
      using pos [of "i - 1"] pos [of i] that jk by auto
    then have "j = pos (i - 1)" "k = pos i"
      using jk(1,2) assms(2) nth_eq_iff_index_eq [OF assms(2)] by (metis less_trans)+
    with jk(1) show ?thesis by simp
  qed
  have ge: "i \<le> pos i" if "i < length ids" for i
    using that
  proof (induction i)
    case (Suc i)
    with mono [of "Suc i"] show ?case by simp
  qed simp
  have le: "pos (length ids - Suc d) \<le> length ids - Suc d" if "d < length ids" for d
    using that
  proof (induction d)
    case 0
    then have "length ids - 1 < length ids" by simp
    from pos [OF this] have "pos (length ids - 1) < length ids" unfolding len by (rule conjunct1)
    then have "pos (length ids - 1) \<le> length ids - 1" by linarith
    then show ?case by simp
  next
    case (Suc d)
    then have "pos (length ids - Suc d) \<le> length ids - Suc d" by simp
    moreover have "pos (length ids - Suc d - 1) < pos (length ids - Suc d)" using Suc.prems by (intro mono) auto
    ultimately have "pos (length ids - Suc d - 1) \<le> length ids - Suc d - 1" by linarith
    moreover have "length ids - Suc d - 1 = length ids - Suc (Suc d)" by simp
    ultimately show ?case by (simp only:)
  qed
  show "order ! i = ids ! i" if "i < length order" for i
  proof -
    have i: "i < length ids" using that len by simp
    then have "pos i \<le> i" using le [of "length ids - Suc i"] by simp
    with ge [OF i] pos [OF i] show ?thesis by simp
  qed
qed

section \<open>Sample workflows\<close>

text \<open>A hashing environment that quotes strings and hashes to nothing, steps that pass one result
  along, a diamond-free graph listed out of order, a two-node cycle and a legacy workflow.\<close>

definition sample_hashing :: hashing where
  "sample_hashing =
     \<lparr>h_to_string = (\<lambda>j. case j of JStr s \<Rightarrow> CHR 0x22 # s @ [CHR 0x22] | _ \<Rightarrow> ''null''),
      h_sha256 = (\<lambda>s. [])\<rparr>"

definition sample_step :: "string \<Rightarrow> node_id list \<Rightarrow> workflow_step" where
  "sample_step s deps =
     with_outputs (with_inputs (with_dependencies (step_named sample_hashing 0 s ''op'' JNull) deps)
       (map (\<lambda>d. ref_output d ''result'') deps)) [ref_output s ''result'']"

definition sample_graph :: geo_workflow where
  "sample_graph = (workflow_new 0 ''goal'')
     \<lparr>wf_steps := [sample_step ''c'' [''a'', ''b''], sample_step ''a'' [], sample_step ''b'' [''a'']],
      wf_output_refs := [ref_output ''c'' ''result'']\<rparr>"

definition sample_cycle :: geo_workflow where
  "sample_cycle = (workflow_new 0 ''goal'')
     \<lparr>wf_steps := [sample_step ''a'' [''b''], sample_step ''b'' [''a''], sample_step ''r'' []]\<rparr>"

definition sample_legacy :: geo_workflow where
  "sample_legacy = (workflow_new 0 ''goal'')
     \<lparr>wf_steps := map (\<lambda>op. (step_new sample_hashing 0 op JNull)\<lparr>ws_stable_id := []\<rparr>) [''load'', ''join'', ''map'']\<rparr>"

lemma sample_graph_order: "topological_order sample_hashing sample_graph = Ok [''a'', ''b'', ''c'']"
  by code_simp

lemma sample_cycle_order: "topological_order sample_hashing sample_cycle = Err (Cycle [''a'', ''b''])"
  by code_simp

lemma sample_legacy_order:
  "is_legacy_linear sample_legacy"
  "topological_order sample_hashing sample_legacy = Ok [''load-'', ''join-'', ''map-'']"
  by code_simp+

section \<open>Properties\<close>

text \<open>C2: \<open>GeoWorkflow::validate\<close> accepts exactly the workflows that satisfy the declarative
  specification: non-empty, unique node identifiers, valid and unique input contracts, resolved
  dependencies and inputs, exported ports, an acyclic and weakly connected dependency graph, and
  valid outputs with their contracts.\<close>

theorem validate_workflow_iff: "validate_workflow h w = Ok () \<longleftrightarrow> valid_workflow h w"
  using valid_workflow_validate validate_valid_workflow by blast

text \<open>C14: an order returned by \<open>topological_order\<close> lists every node once, and every (declared or
  legacy-implied) dependency of a step stands before the step.\<close>

theorem topological_order_sound:
  assumes "topological_order h w = Ok order"
  shows "distinct order \<and> set order = set (map (node_id h) (wf_steps w)) \<and> length order = length (wf_steps w) \<and>
    (\<forall>i < length (wf_steps w). \<forall>d \<in> set (wf_deps h w i).
      \<exists>j k. j < k \<and> k < length order \<and> order ! j = d \<and> order ! k = node_id h (wf_steps w ! i))"
proof -
  note o = topological_order_Ok [OF assms]
  have "\<exists>j k. j < k \<and> k < length order \<and> order ! j = d \<and> order ! k = wf_ids h w ! i"
    if "i < length (wf_steps w)" "d \<in> set (wf_deps h w i)" for i d
    using ordered_by_positions [OF o(4,2), of d "wf_ids h w ! i"] that o(3) by (auto simp: wf_edges_def)
  moreover have "length order = length (wf_steps w)"
    using o by (metis distinct_card length_wf_ids valid_workflow_def)
  ultimately show ?thesis using o(2,3) by (auto simp: wf_ids_def)
qed

theorem topological_order_sound_witness:
  "topological_order sample_hashing sample_graph = Ok [''a'', ''b'', ''c''] \<and>
   (\<exists>j k. j < k \<and> [''a'', ''b'', ''c''] ! j = ''b'' \<and>
      [''a'', ''b'', ''c''] ! k = node_id sample_hashing (wf_steps sample_graph ! 0))"
proof -
  have "0 < length (wf_steps sample_graph)" "''b'' \<in> set (wf_deps sample_hashing sample_graph 0)"
    by code_simp+
  with topological_order_sound [OF sample_graph_order] sample_graph_order show ?thesis by blast
qed

text \<open>The validator never panics, and its \<open>UnreachableNodes\<close> error is never produced: once the
  graph is acyclic every node is reachable from a root.\<close>

theorem topological_order_no_panic:
  "topological_order h w \<noteq> Err Panic \<and> topological_order h w \<noteq> Err (UnreachableNodes ns)"
  using topological_order_cases [of h w] by (auto simp: shape_error_def split: sum.splits)

text \<open>A cycle report is justified: the reported nodes are nodes of the workflow, each depends on
  another reported node, and the dependency relation has a cycle.\<close>

theorem topological_order_cycle:
  assumes "topological_order h w = Err (Cycle ns)"
  shows "ns \<noteq> [] \<and> set ns \<subseteq> set (wf_ids h w) \<and> \<not> acyclic (wf_edges h w) \<and>
    (\<forall>n \<in> set ns. \<exists>m \<in> set ns. (m, n) \<in> wf_edges h w)"
  using topological_order_cases [of h w] assms by (auto simp: shape_error_def)

theorem topological_order_cycle_witness:
  "topological_order sample_hashing sample_cycle = Err (Cycle [''a'', ''b'']) \<and>
   \<not> acyclic (wf_edges sample_hashing sample_cycle)"
  using sample_cycle_order topological_order_cycle [OF sample_cycle_order] by blast

text \<open>A workflow written before the graph schema (no identifiers, dependencies, inputs or
  outputs) runs its steps in the order in which they are listed.\<close>

theorem legacy_order:
  assumes "is_legacy_linear w" and "topological_order h w = Ok order"
  shows "order = map (node_id h) (wf_steps w)"
proof -
  note o = topological_order_Ok [OF assms(2)]
  have "(wf_ids h w ! (i - 1), wf_ids h w ! i) \<in> wf_edges h w" if "0 < i" "i < length (wf_ids h w)" for i
    using that assms(1) by (force simp: wf_edges_def wf_deps_def effective_dependencies_def)
  then have "order = wf_ids h w"
    using o ordered_by_positions [OF o(4,2)] by (intro chain_order) (auto simp: valid_workflow_def)
  then show ?thesis by (simp add: wf_ids_def)
qed

theorem legacy_order_witness:
  "[''load-'', ''join-'', ''map-''] = map (node_id sample_hashing) (wf_steps sample_legacy)"
  by (rule legacy_order [OF sample_legacy_order])

text \<open>In an accepted workflow every data input either names a declared input contract or a port
  that an earlier step, listed among the dependencies, exports.\<close>

theorem accepted_inputs_resolved:
  assumes "topological_order h w = Ok order" and "\<not> is_legacy_linear w"
    and "i < length (wf_steps w)" and "r \<in> set (ws_inputs (wf_steps w ! i))"
  shows "case dr_node r of
      None \<Rightarrow> \<exists>c \<in> set (wf_input_contracts w). ic_name c = dr_port r
    | Some p \<Rightarrow> p \<in> set (ws_depends_on (wf_steps w ! i)) \<and>
        (\<exists>j < length (wf_steps w). node_id h (wf_steps w ! j) = p \<and>
          ref_output p (dr_port r) \<in> set (ws_outputs (wf_steps w ! j)))"
proof -
  have "input_ok h w i r"
    using topological_order_Ok(1) [OF assms(1)] assms(2-)
    by (auto simp: valid_workflow_def inputs_ok_def effective_inputs_def)
  moreover have "ref_output p port \<in> set outs" if "out \<in> set outs" "dr_node out = Some p" "dr_port out = port"
    for out p port outs
  proof -
    have "out = ref_output p port" using that(2,3) by (simp add: ref_output_def)
    with that(1) show ?thesis by simp
  qed
  ultimately show ?thesis
    using assms(2,3)
    by (auto simp: input_ok_def wf_deps_def effective_dependencies_def exported_def exports_def wf_ids_def
        list_ex_iff split: option.splits)
qed

theorem accepted_inputs_resolved_witness:
  "ref_output ''b'' ''result'' \<in> set (ws_inputs (wf_steps sample_graph ! 0)) \<and>
   (\<exists>j < length (wf_steps sample_graph). node_id sample_hashing (wf_steps sample_graph ! j) = ''b'' \<and>
      ref_output ''b'' ''result'' \<in> set (ws_outputs (wf_steps sample_graph ! j)))"
proof -
  have f: "\<not> is_legacy_linear sample_graph" "0 < length (wf_steps sample_graph)"
    "ref_output ''b'' ''result'' \<in> set (ws_inputs (wf_steps sample_graph ! 0))"
    by code_simp+
  from accepted_inputs_resolved [OF sample_graph_order this] f(3) show ?thesis
    by (simp add: ref_output_def)
qed

end
