(* ===== verification/Digest.thy ===== *)
theory Digest
  imports Workflow_Valid "HOL-Library.Option_ord" "HOL-Library.Multiset"
begin

text \<open>
  The stable digest of a workflow (\<open>GeoWorkflow::stable_digest\<close> of \<open>graph.rs\<close>): the canonical JSON
  document, the sorting of its lists, the removal of retrieval events, and the hash of its text.
  Shown: what the digest ignores, and one retrieval event it does not ignore because lists are
  sorted before retrieval events are removed.
\<close>

section \<open>The document\<close>

definition json_data_ref :: "data_ref \<Rightarrow> json" where
  "json_data_ref r = jobj [(''node'', json_opt JStr (dr_node r)), (''port'', JStr (dr_port r))]"

definition json_port_contract :: "port_contract \<Rightarrow> json" where
  "json_port_contract c = jobj [(''port'', JStr (pc_port c)), (''contract'', json_geo_contract (pc_contract c))]"

definition json_input_contract :: "input_contract \<Rightarrow> json" where
  "json_input_contract c = jobj
     ([(''name'', JStr (ic_name c)),
       (''crs'', json_opt json_crs (ic_crs c)),
       (''coordinate_unit'', json_opt json_coordinate_unit (ic_coordinate_unit c)),
       (''value_unit'', json_opt JStr (ic_value_unit c)),
       (''source_snapshot'', json_opt json_source (ic_source_snapshot c))] @
      skip_none ''geo_contract'' json_geo_contract (ic_geo_contract c))"

definition canonical_step :: "hashing \<Rightarrow> geo_workflow \<Rightarrow> nat \<times> workflow_step \<Rightarrow> json" where
  "canonical_step h w = (\<lambda>(index, step).
     let legacy = is_legacy_linear w;
         n = node_id h step;
         previous = node_id h (wf_steps w ! (index - 1));
         depends_on = (if legacy \<and> 0 < index then [previous] else ws_depends_on step);
         inputs = (if legacy \<and> 0 < index then [ref_output previous ''result''] else ws_inputs step);
         outputs = (if legacy then [ref_output n ''result''] else ws_outputs step)
     in jobj
       [(''stable_id'', JStr n),
        (''operation'', JStr (ws_operation step)),
        (''parameters'', ws_parameters step),
        (''expected_schema'', json_opt (\<lambda>v. v) (ws_expected_schema step)),
        (''validation'', json_opt (\<lambda>v. v) (ws_validation step)),
        (''provenance'', json_opt JStr (ws_provenance step)),
        (''depends_on'', JArr (map JStr depends_on)),
        (''inputs'', JArr (map json_data_ref inputs)),
        (''outputs'', JArr (map json_data_ref outputs)),
        (''output_contracts'', JArr (map json_port_contract (ws_output_contracts step)))])"

definition canonical_output_refs :: "hashing \<Rightarrow> geo_workflow \<Rightarrow> data_ref list" where
  "canonical_output_refs h w =
     (if wf_output_refs w = [] \<and> is_legacy_linear w
      then (if wf_steps w = [] then [] else [ref_output (node_id h (last (wf_steps w))) ''result''])
      else wf_output_refs w)"

definition json_citation :: "citation \<Rightarrow> json" where
  "json_citation c = jobj
     [(''title'', JStr (ci_title c)), (''url'', json_opt JStr (ci_url c)),
      (''license'', json_opt JStr (ci_license c))]"

definition workflow_document :: "hashing \<Rightarrow> geo_workflow \<Rightarrow> json" where
  "workflow_document h w = jobj
     [(''goal'', JStr (wf_goal w)),
      (''assumptions'', JArr (map JStr (wf_assumptions w))),
      (''inputs'', JArr (wf_inputs w)),
      (''input_contracts'', JArr (map json_input_contract (wf_input_contracts w))),
      (''outputs'', JArr (wf_outputs w)),
      (''output_refs'', JArr (map json_data_ref (canonical_output_refs h w))),
      (''steps'', JArr (map (canonical_step h w) (enumerate0 (wf_steps w)))),
      (''citations'', JArr (map json_citation (wf_citations w)))]"

section \<open>Sorting\<close>

text \<open>\<open>get_mut(field).and_then(as_array_mut)\<close> followed by an in-place sort (stable in Rust and here).\<close>

fun modify_field :: "(json \<Rightarrow> json) \<Rightarrow> string \<Rightarrow> json \<Rightarrow> json" where
  "modify_field f k (JObj m) = JObj (bt_modify k f m)"
| "modify_field f k v = v"

fun sort_values :: "to_string \<Rightarrow> json \<Rightarrow> json" where
  "sort_values ts (JArr vs) = JArr (sort_key (canonical_json ts) vs)"
| "sort_values ts v = v"

definition step_key :: "to_string \<Rightarrow> json \<Rightarrow> string option" where
  "step_key ts step = map_option (canonical_json ts) (json_get step ''stable_id'')"

definition sort_step_fields :: "to_string \<Rightarrow> json \<Rightarrow> json" where
  "sort_step_fields ts step =
     fold (modify_field (sort_values ts)) [''depends_on'', ''inputs'', ''outputs'', ''output_contracts''] step"

fun sort_steps :: "to_string \<Rightarrow> json \<Rightarrow> json" where
  "sort_steps ts (JArr steps) = JArr (map (sort_step_fields ts) (sort_key (step_key ts) steps))"
| "sort_steps ts v = v"

definition strip_runtime_fields :: "json \<Rightarrow> json" where
  "strip_runtime_fields = strip_fields [''retrieved_at'']"

definition stable_document :: "hashing \<Rightarrow> geo_workflow \<Rightarrow> json" where
  "stable_document h w =
     (let ts = h_to_string h;
          sorted = modify_field (sort_steps ts) ''steps'' (workflow_document h w)
      in strip_runtime_fields
           (fold (modify_field (sort_values ts)) [''input_contracts'', ''output_refs'', ''citations''] sorted))"

definition stable_digest_unchecked :: "hashing \<Rightarrow> geo_workflow \<Rightarrow> string" where
  "stable_digest_unchecked h w =
     ''sha256:'' @ hex (h_sha256 h (canonical_json (h_to_string h) (stable_document h w)))"

definition stable_digest :: "hashing \<Rightarrow> geo_workflow \<Rightarrow> workflow_error + string" where
  "stable_digest h w = map_ok (\<lambda>_. stable_digest_unchecked h w) (validate_workflow h w)"

section \<open>Facts\<close>

definition map_field :: "(json \<Rightarrow> json) \<Rightarrow> string \<Rightarrow> (string \<times> json) list \<Rightarrow> (string \<times> json) list" where
  "map_field f k kvs = map (\<lambda>(k', v). (k', if k' = k then f v else v)) kvs"

lemma map_field_simps [simp]:
  "map_field f k [] = []"
  "map_field f k ((k', v) # kvs) = (k', if k' = k then f v else v) # map_field f k kvs"
  by (simp_all add: map_field_def)

lemma modify_field_jobj:
  assumes "distinct (map fst kvs)"
  shows "modify_field f k (jobj kvs) = jobj (map_field f k kvs)"
proof -
  have d: "distinct (map fst (map_field f k kvs))"
    using assms by (simp add: map_field_def comp_def case_prod_unfold)
  have "map_of (map_field f k kvs) k' = (if k' = k then map_option f (map_of kvs k') else map_of kvs k')" for k'
    by (induction kvs) auto
  then have "bt_modify k f (bt_of_list kvs) = bt_of_list (map_field f k kvs)"
    using assms d by (intro bt.entries_eqI) (simp_all add: bt_get_of_list_distinct)
  then show ?thesis by (simp add: jobj_def)
qed

text \<open>Sorting steps by a key that separates them forgets their order.\<close>

lemma json_get_jobj: "distinct (map fst kvs) \<Longrightarrow> json_get (jobj kvs) k = map_of kvs k"
  by (simp add: json_get_def jobj_def bt_get_of_list_distinct)

lemma step_key_canonical_step [simp]:
  "step_key ts (canonical_step h w (i, step)) = Some (ts (JStr (node_id h step)))"
  by (simp add: step_key_def canonical_step_def Let_def json_get_jobj)

subsection \<open>Runtime identity\<close>

text \<open>The execution-dependent fields the digest is documented to omit, other than those inside source
  snapshots.\<close>

definition erase_runtime :: "geo_workflow \<Rightarrow> geo_workflow" where
  "erase_runtime w = w\<lparr>wf_id := 0, wf_review_status := RsDraft,
     wf_steps := map (\<lambda>s. s\<lparr>ws_id := 0\<rparr>) (wf_steps w),
     wf_citations := map (\<lambda>c. c\<lparr>ci_retrieved_at := None\<rparr>) (wf_citations w)\<rparr>"

lemma node_id_ws_id [simp]: "node_id h (s\<lparr>ws_id := i\<rparr>) = node_id h s"
  by (simp add: node_id_def)

lemma is_legacy_erase [simp]: "is_legacy_linear (erase_runtime w) \<longleftrightarrow> is_legacy_linear w"
  by (simp add: is_legacy_linear_def erase_runtime_def list_all_length)

lemma enumerate0_map: "enumerate0 (map f xs) = map (\<lambda>(i, x). (i, f x)) (enumerate0 xs)"
  by (simp add: enumerate0_def enumerate_map_upt enumerate_eq_zip zip_map2)

lemma workflow_document_erase: "workflow_document h (erase_runtime w) = workflow_document h w"
proof -
  have "canonical_step h (erase_runtime w) (i, s\<lparr>ws_id := 0\<rparr>) = canonical_step h w (i, s)"
    if "i < length (wf_steps w)" for i s
    using that by (simp add: canonical_step_def Let_def) (simp add: erase_runtime_def)
  then have "map (canonical_step h (erase_runtime w)) (enumerate0 (wf_steps (erase_runtime w))) =
      map (canonical_step h w) (enumerate0 (wf_steps w))"
  proof -
    assume eq: "\<And>i s. i < length (wf_steps w) \<Longrightarrow>
      canonical_step h (erase_runtime w) (i, s\<lparr>ws_id := 0\<rparr>) = canonical_step h w (i, s)"
    have steps: "wf_steps (erase_runtime w) = map (\<lambda>s. s\<lparr>ws_id := 0\<rparr>) (wf_steps w)"
      by (simp add: erase_runtime_def)
    show ?thesis
      unfolding steps enumerate0_map using eq in_enumerate0 by fastforce
  qed
  moreover have "canonical_output_refs h (erase_runtime w) = canonical_output_refs h w"
    by (auto simp: canonical_output_refs_def last_map) (auto simp: erase_runtime_def last_map)
  moreover have "json_citation (c\<lparr>ci_retrieved_at := None\<rparr>) = json_citation c" for c
    by (simp add: json_citation_def)
  ultimately show ?thesis
    by (simp add: workflow_document_def) (simp add: erase_runtime_def comp_def)
qed

subsection \<open>Order of steps\<close>

lemma canonical_step_graph:
  "\<not> is_legacy_linear w \<Longrightarrow> \<not> is_legacy_linear w' \<Longrightarrow> canonical_step h w (i, s) = canonical_step h w' (j, s)"
  by (simp add: canonical_step_def)

lemma map_canonical_steps:
  assumes "\<not> is_legacy_linear w"
  shows "map (canonical_step h w) (enumerate0 xs) = map (\<lambda>s. canonical_step h w (0, s)) xs"
proof (rule nth_equalityI)
  fix i assume "i < length (map (canonical_step h w) (enumerate0 xs))"
  then have "i < length xs" by (simp add: enumerate0_def)
  then show "map (canonical_step h w) (enumerate0 xs) ! i = map (\<lambda>s. canonical_step h w (0, s)) xs ! i"
    using canonical_step_graph [OF assms assms, of h i "xs ! i" 0] by (simp add: enumerate0_def nth_enumerate_eq)
qed (simp add: enumerate0_def)

lemma sort_steps_permuted:
  assumes "\<not> is_legacy_linear w" and "inj (\<lambda>s. ts (JStr s))"
    and "distinct (map (node_id h) xs)" and "mset ys = mset xs"
  shows "sort_key (step_key ts) (map (\<lambda>s. canonical_step h w (0, s)) ys) =
    sort_key (step_key ts) (map (\<lambda>s. canonical_step h w (0, s)) xs)"
proof -
  let ?c = "\<lambda>s. canonical_step h w (0, s)"
  have "set ys = set xs" using assms(4) by (metis set_mset_mset)
  then have "inj_on (step_key ts) (set (map ?c ys))"
    using assms(2,3) by (auto simp: distinct_map inj_on_def dest!: injD [OF assms(2)])
  moreover have "mset (map ?c ys) = mset (sort_key (step_key ts) (map ?c xs))"
    using assms(4) by simp
  ultimately show ?thesis
    by (intro sort_key_inj_key_eq) simp_all
qed

lemma is_legacy_set: "set (wf_steps w) = set (wf_steps w') \<Longrightarrow> is_legacy_linear w \<longleftrightarrow> is_legacy_linear w'"
  by (simp add: is_legacy_linear_def list_all_iff)

lemma stable_document_permuted:
  assumes "\<not> is_legacy_linear w" and "inj (\<lambda>s. h_to_string h (JStr s))"
    and "distinct (wf_ids h w)" and "mset steps = mset (wf_steps w)"
  shows "stable_document h (w\<lparr>wf_steps := steps\<rparr>) = stable_document h w"
proof -
  let ?w = "w\<lparr>wf_steps := steps\<rparr>" and ?ts = "h_to_string h"
  have leg: "\<not> is_legacy_linear ?w"
    using assms(1,4) is_legacy_set [of ?w w] mset_eq_setD [OF assms(4)] by simp
  have "sort_steps ?ts (JArr (map (canonical_step h ?w) (enumerate0 steps))) =
      sort_steps ?ts (JArr (map (canonical_step h w) (enumerate0 (wf_steps w))))"
    using sort_steps_permuted [OF assms(1,2), of h "wf_steps w" steps] assms(3,4)
      canonical_step_graph [OF leg assms(1), of h 0 _ 0]
    by (simp add: map_canonical_steps [OF leg] map_canonical_steps [OF assms(1)] wf_ids_def)
  moreover have "canonical_output_refs h ?w = canonical_output_refs h w"
    using leg assms(1) by (simp add: canonical_output_refs_def)
  ultimately have "modify_field (sort_steps ?ts) ''steps'' (workflow_document h ?w) =
      modify_field (sort_steps ?ts) ''steps'' (workflow_document h w)"
    by (simp add: workflow_document_def modify_field_jobj)
  then show ?thesis by (simp add: stable_document_def)
qed

section \<open>A retrieval event that is not ignored\<close>

text \<open>Two input contracts whose semantic contracts share an identifier. Canonical text lists keys in
  order, so \<open>geo_contract\<close> comes before \<open>name\<close> and, inside a snapshot, \<open>retrieved_at\<close> before \<open>uri\<close>:
  the retrieval instants decide how the two contracts are sorted.\<close>

definition erase_snapshot :: "source_snapshot \<Rightarrow> source_snapshot" where
  "erase_snapshot s = s\<lparr>src_retrieved_at := None\<rparr>"

definition erase_contract :: "geo_contract \<Rightarrow> geo_contract" where
  "erase_contract c = c\<lparr>gc_source := map_option (\<lambda>s. s\<lparr>so_snapshot := erase_snapshot (so_snapshot s)\<rparr>) (gc_source c)\<rparr>"

definition erase_input :: "input_contract \<Rightarrow> input_contract" where
  "erase_input c = c\<lparr>ic_source_snapshot := map_option erase_snapshot (ic_source_snapshot c),
     ic_geo_contract := map_option erase_contract (ic_geo_contract c)\<rparr>"

definition fetched_input :: "string \<Rightarrow> string \<Rightarrow> string \<Rightarrow> input_contract" where
  "fetched_input name uri instant = ic_with_geo_contract (input_contract_new name)
     (with_source (geo_contract_new ''g'')
       (source_contract_new (with_retrieved_at (source_metadata_new uri) instant)))"

definition fetched_workflow :: "string \<Rightarrow> string \<Rightarrow> geo_workflow" where
  "fetched_workflow t1 t2 = (workflow_new 0 ''goal'')
     \<lparr>wf_steps := [sample_step ''s'' []],
      wf_input_contracts := [fetched_input ''a'' ''u1'' t1, fetched_input ''b'' ''u2'' t2]\<rparr>"

text \<open>An injective stand-in for the hash: the bytes of the text themselves.\<close>

definition identity_hashing :: hashing where
  "identity_hashing = sample_hashing\<lparr>h_sha256 := map (\<lambda>c. word_of_int (of_char c))\<rparr>"

lemma fetched_documents_differ:
  "canonical_json (h_to_string identity_hashing) (stable_document identity_hashing (fetched_workflow ''1'' ''2'')) \<noteq>
   canonical_json (h_to_string identity_hashing) (stable_document identity_hashing (fetched_workflow ''2'' ''1''))"
  by code_simp

lemma fetched_workflows_valid:
  "validate_workflow identity_hashing (fetched_workflow ''1'' ''2'') = Ok ()"
  "validate_workflow identity_hashing (fetched_workflow ''2'' ''1'') = Ok ()"
  by code_simp+

lemma inj_byte: "inj (\<lambda>c. word_of_int (of_char c) :: u8)"
proof (rule injI)
  fix c d :: char assume eq: "(word_of_int (of_char c) :: u8) = word_of_int (of_char d)"
  have "uint (word_of_int (of_char e) :: u8) = of_char e" for e :: char
    by (simp add: uint_word_of_int take_bit_eq_mod)
  then have "(of_char c :: int) = of_char d" using eq by metis
  then show "c = d" by (simp add: of_char_eq_iff)
qed

section \<open>Properties\<close>

text \<open>The stable digest does not depend on the runtime identity of the workflow or of its steps,
  on the review status, or on when a citation was retrieved.\<close>

theorem digest_ignores_runtime:
  assumes "erase_runtime w = erase_runtime w'"
  shows "stable_digest_unchecked h w = stable_digest_unchecked h w'"
proof -
  have "workflow_document h w = workflow_document h w'"
    using workflow_document_erase [of h w] workflow_document_erase [of h w'] assms by simp
  then show ?thesis by (simp add: stable_digest_unchecked_def stable_document_def)
qed

theorem digest_ignores_runtime_witness:
  "stable_digest_unchecked sample_hashing sample_graph =
   stable_digest_unchecked sample_hashing (sample_graph\<lparr>wf_id := 7, wf_review_status := RsApproved\<rparr>)"
  by (rule digest_ignores_runtime) (simp add: erase_runtime_def)

text \<open>C40: listing the steps of a workflow that validates and declares its dependencies in another order
  does not change its digest, provided the JSON printer prints different strings differently. Legacy
  linear workflows are excluded: in them the order of the steps is their meaning and enters the digest.\<close>

theorem digest_ignores_step_order:
  assumes "\<not> is_legacy_linear w" and "inj (\<lambda>s. h_to_string h (JStr s))"
    and "validate_workflow h w = Ok ()" and "mset steps = mset (wf_steps w)"
  shows "stable_digest_unchecked h (w\<lparr>wf_steps := steps\<rparr>) = stable_digest_unchecked h w"
proof -
  have "distinct (wf_ids h w)"
    using assms(3) topological_order_Ok(1) [of h w]
    by (auto simp: validate_workflow_def result_simps valid_workflow_def)
  from stable_document_permuted [OF assms(1,2) this assms(4)] show ?thesis
    by (simp add: stable_digest_unchecked_def)
qed

theorem digest_ignores_step_order_witness:
  "stable_digest_unchecked sample_hashing (sample_graph\<lparr>wf_steps := rev (wf_steps sample_graph)\<rparr>) =
   stable_digest_unchecked sample_hashing sample_graph"
proof (rule digest_ignores_step_order)
  show "\<not> is_legacy_linear sample_graph" by code_simp
  show "inj (\<lambda>s. h_to_string sample_hashing (JStr s))" by (auto simp: inj_def sample_hashing_def)
  show "validate_workflow sample_hashing sample_graph = Ok ()"
    by (simp add: validate_workflow_def sample_graph_order)
qed simp

text \<open>The digest is documented to omit retrieval timestamps, but two valid workflows that differ
  only in when their sources were retrieved can have different digests, under a hash that
  separates all texts: lists are sorted by their full text before the timestamps are removed.\<close>

theorem digest_depends_on_retrieval:
  "map erase_input (wf_input_contracts (fetched_workflow ''1'' ''2'')) =
     map erase_input (wf_input_contracts (fetched_workflow ''2'' ''1'')) \<and>
   fetched_workflow ''2'' ''1'' = (fetched_workflow ''1'' ''2'')
     \<lparr>wf_input_contracts := wf_input_contracts (fetched_workflow ''2'' ''1'')\<rparr> \<and>
   is_ok (stable_digest identity_hashing (fetched_workflow ''1'' ''2'')) \<and>
   is_ok (stable_digest identity_hashing (fetched_workflow ''2'' ''1'')) \<and>
   stable_digest identity_hashing (fetched_workflow ''1'' ''2'') \<noteq>
     stable_digest identity_hashing (fetched_workflow ''2'' ''1'')"
proof -
  have "stable_digest_unchecked identity_hashing (fetched_workflow ''1'' ''2'') \<noteq>
      stable_digest_unchecked identity_hashing (fetched_workflow ''2'' ''1'')"
    using fetched_documents_differ inj_byte
    by (auto simp: stable_digest_unchecked_def identity_hashing_def inj_map_eq_map dest!: hex_inj)
  then show ?thesis
    using fetched_workflows_valid
    by (simp add: stable_digest_def fetched_workflow_def fetched_input_def erase_input_def
        erase_contract_def erase_snapshot_def ic_with_geo_contract_def with_source_def
        source_contract_new_def with_retrieved_at_def)
qed

end
