(* ===== verification/Edit.thy ===== *)
theory Edit
  imports Crs
begin

text \<open>
  \<open>genegis-core/src/edit.rs\<close>: revisioned vector editing. A coordinate is a pair of \<open>f64\<close>, a
  revision a 64-bit word. \<open>EditableLayer::apply\<close> returns the edited layer with its receipt, or an
  error; the source assigns a field only after the last check of a branch, so an error leaves the
  layer as it was. Overflow of the unchecked \<open>revision + 1\<close> in a split wraps, as it does in a
  release build.
\<close>

section \<open>Data\<close>

type_synonym i64 = "64 word"
type_synonym coordinate = "f64 \<times> f64"

datatype attribute_value = AvNull | AvBoolean bool | AvInteger i64 | AvNumber f64 | AvText string

datatype attribute_type = AtBoolean | AtInteger | AtNumber | AtText

record attribute_field =
  af_name :: string
  af_value_type :: attribute_type
  af_nullable :: bool

record feature_schema =
  fs_primary_key :: string
  fs_fields :: "attribute_field list"

datatype editable_geometry_kind = EgPoint | EgLineString | EgPolygon

datatype feature_geometry =
    Point coordinate
  | LineString "coordinate list"
  | Polygon "coordinate list list"
  | MultiPolygon "coordinate list list list"

type_synonym attributes = "(string, attribute_value) btmap"

record editable_feature =
  ef_id :: string
  ef_revision :: u64
  ef_geometry :: feature_geometry
  ef_attributes :: attributes

record feature_draft =
  fd_id :: string
  fd_geometry :: feature_geometry
  fd_attributes :: attributes

datatype feature_edit =
    Create feature_draft
  | Update feature_draft u64
  | Delete string u64
  | Split string u64 "feature_draft list"
  | Merge "string list" "u64 list" feature_draft
  | Repair string u64

fun workflow_operation :: "feature_edit \<Rightarrow> string" where
  "workflow_operation (Create _) = ''EditFeatureCreate''"
| "workflow_operation (Update _ _) = ''EditFeatureUpdate''"
| "workflow_operation (Delete _ _) = ''EditFeatureDelete''"
| "workflow_operation (Split _ _ _) = ''EditFeatureSplit''"
| "workflow_operation (Merge _ _ _) = ''EditFeatureMerge''"
| "workflow_operation (Repair _ _) = ''EditFeatureRepair''"

record mutation_binding =
  mb_workflow_id :: uuid
  mb_node_id :: string

record editable_layer =
  el_layer_id :: uuid
  el_crs :: crs
  el_coordinate_unit :: coordinate_unit
  el_geometry_kind :: editable_geometry_kind
  el_schema :: feature_schema
  el_revision :: u64
  el_features :: "(string, editable_feature) btmap"

record edit_receipt =
  er_before_revision :: u64
  er_after_revision :: u64
  er_changed_features :: "string list"

text \<open>\<open>EditPanic\<close> stands for the panic of an \<open>expect\<close>; it is proved unreachable. The texts of \<open>EditError::Layer\<close> and \<open>EditError::Conservation\<close> carry the values they print.\<close>

datatype edit_text = EditText string | EditCrs crs_error | EditAreas f64 f64

datatype edit_error =
    StaleRevision u64 u64
  | FeatureNotFound string
  | DuplicateFeature string
  | GeometryError string
  | AttributesError string
  | ConservationError edit_text
  | LayerError edit_text
  | EditPanic

section \<open>Geometry\<close>

fun geometry_kind_of :: "feature_geometry \<Rightarrow> editable_geometry_kind" where
  "geometry_kind_of (Point _) = EgPoint"
| "geometry_kind_of (LineString _) = EgLineString"
| "geometry_kind_of (Polygon _) = EgPolygon"
| "geometry_kind_of (MultiPolygon _) = EgPolygon"

fun coordinates :: "feature_geometry \<Rightarrow> coordinate list" where
  "coordinates (Point p) = [p]"
| "coordinates (LineString ps) = ps"
| "coordinates (Polygon rings) = concat rings"
| "coordinates (MultiPolygon polygons) = concat (concat polygons)"

fun windows2 :: "'a list \<Rightarrow> ('a \<times> 'a) list" where
  "windows2 (x # y # r) = (x, y) # windows2 (y # r)"
| "windows2 _ = []"

definition ring_area :: "coordinate list \<Rightarrow> f64" where
  "ring_area ring =
     f64_div (f64_abs (f64_sum (map (\<lambda>((x0, y0), (x1, y1)). f64_sub (f64_mul x0 y1) (f64_mul x1 y0))
       (windows2 ring)))) (Fin 2)"

definition polygon_area :: "coordinate list list \<Rightarrow> f64" where
  "polygon_area rings =
     f64_sub (case rings of [] \<Rightarrow> Fin 0 | ring # _ \<Rightarrow> ring_area ring)
       (f64_sum (map ring_area (drop 1 rings)))"

fun geometry_area :: "feature_geometry \<Rightarrow> f64" where
  "geometry_area (Polygon rings) = polygon_area rings"
| "geometry_area (MultiPolygon polygons) = f64_sum (map polygon_area polygons)"
| "geometry_area _ = Fin 0"

text \<open>\<open>PartialEq\<close> on \<open>[f64; 2]\<close>, and \<open>Vec::dedup\<close>, which compares with the last element kept.\<close>

definition coordinate_eq :: "coordinate \<Rightarrow> coordinate \<Rightarrow> bool" where
  "coordinate_eq p q = (f64_eq (fst p) (fst q) \<and> f64_eq (snd p) (snd q))"

fun dedup :: "coordinate list \<Rightarrow> coordinate list" where
  "dedup (p # q # r) = (if coordinate_eq q p then dedup (p # r) else p # dedup (q # r))"
| "dedup r = r"

definition repair_ring :: "coordinate list \<Rightarrow> coordinate list" where
  "repair_ring ring =
     (let ring = dedup ring in
      case ring of
        [] \<Rightarrow> ring
      | first # _ \<Rightarrow> if \<not> coordinate_eq (last ring) first then ring @ [first] else ring)"

fun geometry_repair :: "feature_geometry \<Rightarrow> feature_geometry" where
  "geometry_repair (Polygon rings) = Polygon (map repair_ring rings)"
| "geometry_repair (MultiPolygon polygons) = MultiPolygon (map (map repair_ring) polygons)"
| "geometry_repair g = g"

fun geometry_polygons :: "feature_geometry \<Rightarrow> coordinate list list list option" where
  "geometry_polygons (Polygon rings) = Some [rings]"
| "geometry_polygons (MultiPolygon polygons) = Some polygons"
| "geometry_polygons _ = None"

section \<open>Validation\<close>

definition validate_schema :: "feature_schema \<Rightarrow> edit_error + unit" where
  "validate_schema s =
     (if blank (fs_primary_key s) \<or> fs_fields s = []
      then Err (LayerError (EditText ''schema needs a primary key and at least one field''))
      else let names = bs_of_list (map af_name (fs_fields s)) in
        if length names \<noteq> length (fs_fields s) \<or> fs_primary_key s \<notin> set names
        then Err (LayerError (EditText ''schema field names must be unique and include the primary key''))
        else case find (\<lambda>f. af_name f = fs_primary_key s) (fs_fields s) of
            None \<Rightarrow> Err EditPanic
          | Some pk \<Rightarrow>
              reject (af_nullable pk \<or> \<not> (af_value_type pk = AtInteger \<or> af_value_type pk = AtText))
                (LayerError (EditText ''primary key must be non-null text or integer'')))"

fun value_matches :: "attribute_field \<Rightarrow> attribute_value \<Rightarrow> bool" where
  "value_matches f AvNull = af_nullable f"
| "value_matches f (AvBoolean _) = (af_value_type f = AtBoolean)"
| "value_matches f (AvInteger _) = (af_value_type f = AtInteger)"
| "value_matches f (AvNumber x) = (af_value_type f = AtNumber \<and> f64_is_finite x)"
| "value_matches f (AvText _) = (af_value_type f = AtText)"

definition validate_attributes :: "attributes \<Rightarrow> feature_schema \<Rightarrow> edit_error + unit" where
  "validate_attributes values s =
     (if length values \<noteq> length (fs_fields s)
      then Err (AttributesError ''attributes must exactly match the closed schema'')
      else try_for (\<lambda>f.
        and_then (ok_or (bt_get values (af_name f)) (AttributesError (''missing field '' @ af_name f))) (\<lambda>v.
          reject (\<not> value_matches f v)
            (AttributesError (''field '' @ af_name f @ '' violates type or null policy''))))
        (fs_fields s))"

definition ring_closed :: "coordinate list \<Rightarrow> bool" where
  "ring_closed ring \<longleftrightarrow> ring = [] \<or> coordinate_eq (hd ring) (last ring)"

definition validate_rings :: "coordinate list list \<Rightarrow> edit_error + unit" where
  "validate_rings rings =
     (if rings = [] \<or> list_ex (\<lambda>ring. length ring < 4 \<or> \<not> ring_closed ring) rings
      then Err (GeometryError ''polygon rings must be closed and contain at least four coordinates'')
      else let area = geometry_area (Polygon rings) in
        reject (f64_le area (Fin 0) \<or> \<not> f64_is_finite area)
          (GeometryError ''polygon area must be finite and positive after holes''))"

definition validate_geometry ::
  "feature_geometry \<Rightarrow> editable_geometry_kind \<Rightarrow> crs \<Rightarrow> edit_error + unit" where
  "validate_geometry g required_kind crs =
     (if geometry_kind_of g \<noteq> required_kind then Err (GeometryError ''geometry family mismatch'')
      else if coordinates g = [] \<or> list_ex (\<lambda>(x, y). \<not> f64_is_finite x \<or> \<not> f64_is_finite y \<or>
          \<not> is_ok (crs_validate_coordinate crs x y)) (coordinates g)
      then Err (GeometryError ''coordinates are empty, non-finite, or outside the CRS domain'')
      else case g of
          Point _ \<Rightarrow> Ok ()
        | LineString points \<Rightarrow>
            reject (length points < 2) (GeometryError ''line strings require at least two coordinates'')
        | Polygon rings \<Rightarrow> validate_rings rings
        | MultiPolygon polygons \<Rightarrow>
            if polygons = [] then Err (GeometryError ''multipolygon is empty'')
            else try_for validate_rings polygons)"

definition require_area_conservation :: "f64 \<Rightarrow> f64 \<Rightarrow> edit_error + unit" where
  "require_area_conservation input output =
     (let relative = f64_div (f64_abs (f64_sub input output))
            (f64_max (f64_max (f64_abs input) (f64_abs output)) f64_epsilon)
      in reject (f64_lt (f64_lit (1 / 10 ^ 6)) relative) (ConservationError (EditAreas input output)))"

section \<open>The layer\<close>

definition editable_layer_new ::
  "uuid \<Rightarrow> crs \<Rightarrow> editable_geometry_kind \<Rightarrow> feature_schema \<Rightarrow> edit_error + editable_layer" where
  "editable_layer_new layer_id crs kind schema =
     and_then (map_err (\<lambda>e. LayerError (EditCrs e)) (crs_require_known crs)) (\<lambda>_.
     and_then (validate_schema schema) (\<lambda>_.
       Ok \<lparr>el_layer_id = layer_id, el_crs = crs, el_coordinate_unit = crs_coordinate_unit crs,
           el_geometry_kind = kind, el_schema = schema, el_revision = 0, el_features = []\<rparr>))"

definition into_feature :: "feature_draft \<Rightarrow> u64 \<Rightarrow> editable_feature" where
  "into_feature d revision =
     \<lparr>ef_id = fd_id d, ef_revision = revision, ef_geometry = fd_geometry d, ef_attributes = fd_attributes d\<rparr>"

definition saturating_succ :: "u64 \<Rightarrow> u64" where
  "saturating_succ n = (if n = - 1 then n else n + 1)"

definition feature_with_revision :: "editable_layer \<Rightarrow> string \<Rightarrow> u64 \<Rightarrow> edit_error + editable_feature" where
  "feature_with_revision layer ident expected =
     and_then (ok_or (bt_get (el_features layer) ident) (FeatureNotFound ident)) (\<lambda>f.
       if ef_revision f \<noteq> expected then Err (StaleRevision expected (ef_revision f)) else Ok f)"

definition validate_draft :: "editable_layer \<Rightarrow> feature_draft \<Rightarrow> edit_error + unit" where
  "validate_draft layer d =
     (if blank (fd_id d) \<or> 256 < length (fd_id d) then Err (DuplicateFeature (fd_id d))
      else and_then (validate_geometry (fd_geometry d) (el_geometry_kind layer) (el_crs layer)) (\<lambda>_.
        validate_attributes (fd_attributes d) (el_schema layer)))"

type_synonym features = "(string, editable_feature) btmap"

definition check_part :: "editable_layer \<Rightarrow> string \<Rightarrow> string list \<Rightarrow> feature_draft \<Rightarrow> edit_error + string list" where
  "check_part layer feature_id ids part =
     and_then (validate_draft layer part) (\<lambda>_.
       if fd_id part \<in> set ids \<or> (fd_id part \<noteq> feature_id \<and> bt_contains (el_features layer) (fd_id part))
       then Err (DuplicateFeature (fd_id part))
       else Ok (bs_insert (fd_id part) ids))"

definition apply_split ::
  "editable_layer \<Rightarrow> string \<Rightarrow> u64 \<Rightarrow> feature_draft list \<Rightarrow> edit_error + features \<times> string list" where
  "apply_split layer feature_id expected parts =
     and_then (feature_with_revision layer feature_id expected) (\<lambda>source.
       if length parts < 2
       then Err (ConservationError (EditText ''a split requires at least two output features''))
       else and_then (try_fold (check_part layer feature_id) [] parts) (\<lambda>ids.
         and_then (require_area_conservation (geometry_area (ef_geometry source))
             (f64_sum (map (\<lambda>p. geometry_area (fd_geometry p)) parts))) (\<lambda>_.
           Ok (fold (\<lambda>p. bt_insert (fd_id p) (into_feature p (ef_revision source + 1))) parts
                 (bt_remove feature_id (el_features layer)), ids))))"

definition collect_member ::
  "editable_layer \<Rightarrow> coordinate list list list \<times> f64 \<times> u64 \<Rightarrow> string \<times> u64 \<Rightarrow>
   edit_error + coordinate list list list \<times> f64 \<times> u64" where
  "collect_member layer = (\<lambda>(polygons, area, max_revision) (ident, revision).
     and_then (feature_with_revision layer ident revision) (\<lambda>f.
     and_then (ok_or (geometry_polygons (ef_geometry f))
         (ConservationError (EditText ''merge supports polygonal geometry only''))) (\<lambda>members.
       Ok (polygons @ members, f64_add area (geometry_area (ef_geometry f)),
           max max_revision (ef_revision f)))))"

definition apply_merge ::
  "editable_layer \<Rightarrow> string list \<Rightarrow> u64 list \<Rightarrow> feature_draft \<Rightarrow> edit_error + features \<times> string list" where
  "apply_merge layer feature_ids revisions merged =
     (if length feature_ids < 2 \<or> length feature_ids \<noteq> length revisions
      then Err (ConservationError
        (EditText ''merge requires at least two identities and one revision per identity''))
      else let ids = bs_of_list feature_ids in
        if length ids \<noteq> length feature_ids then Err (DuplicateFeature ''merge input'')
        else and_then (try_fold (collect_member layer) ([], Fin 0, 0) (zip feature_ids revisions))
          (\<lambda>(polygons, input_area, max_revision).
            let merged = merged\<lparr>fd_geometry := MultiPolygon polygons\<rparr> in
            and_then (validate_draft layer merged) (\<lambda>_.
            and_then (require_area_conservation input_area (geometry_area (fd_geometry merged))) (\<lambda>_.
              if fd_id merged \<notin> set ids \<and> bt_contains (el_features layer) (fd_id merged)
              then Err (DuplicateFeature (fd_id merged))
              else Ok (bt_insert (fd_id merged) (into_feature merged (saturating_succ max_revision))
                        (fold bt_remove ids (el_features layer)),
                      if fd_id merged \<in> set ids then ids else sort (ids @ [fd_id merged]))))))"

fun apply_kind :: "editable_layer \<Rightarrow> feature_edit \<Rightarrow> edit_error + features \<times> string list" where
  "apply_kind layer (Create d) =
     and_then (validate_draft layer d) (\<lambda>_.
       if bt_contains (el_features layer) (fd_id d) then Err (DuplicateFeature (fd_id d))
       else Ok (bt_insert (fd_id d) (into_feature d 1) (el_features layer), [fd_id d]))"
| "apply_kind layer (Update d expected) =
     and_then (validate_draft layer d) (\<lambda>_.
     and_then (feature_with_revision layer (fd_id d) expected) (\<lambda>previous.
       Ok (bt_insert (fd_id d) (into_feature d (saturating_succ (ef_revision previous))) (el_features layer),
           [fd_id d])))"
| "apply_kind layer (Delete ident expected) =
     and_then (feature_with_revision layer ident expected) (\<lambda>_.
       Ok (bt_remove ident (el_features layer), [ident]))"
| "apply_kind layer (Split ident expected parts) = apply_split layer ident expected parts"
| "apply_kind layer (Merge idents expected merged) = apply_merge layer idents expected merged"
| "apply_kind layer (Repair ident expected) =
     and_then (feature_with_revision layer ident expected) (\<lambda>previous.
       let repaired = \<lparr>fd_id = ef_id previous, fd_geometry = geometry_repair (ef_geometry previous),
             fd_attributes = ef_attributes previous\<rparr> in
       and_then (validate_draft layer repaired) (\<lambda>_.
         Ok (bt_insert ident (into_feature repaired (saturating_succ (ef_revision previous)))
               (el_features layer), [ident])))"

definition apply_edit :: "editable_layer \<Rightarrow> u64 \<Rightarrow> feature_edit \<Rightarrow> edit_error + editable_layer \<times> edit_receipt" where
  "apply_edit layer expected edit =
     (if el_revision layer \<noteq> expected then Err (StaleRevision expected (el_revision layer))
      else and_then (apply_kind layer edit) (\<lambda>(features, changed).
        let after = saturating_succ (el_revision layer) in
        Ok (layer\<lparr>el_features := features, el_revision := after\<rparr>,
            \<lparr>er_before_revision = el_revision layer, er_after_revision = after,
             er_changed_features = changed\<rparr>)))"

section \<open>The invariant\<close>

definition as_draft :: "editable_feature \<Rightarrow> feature_draft" where
  "as_draft f = \<lparr>fd_id = ef_id f, fd_geometry = ef_geometry f, fd_attributes = ef_attributes f\<rparr>"

definition layer_ok :: "editable_layer \<Rightarrow> bool" where
  "layer_ok layer \<longleftrightarrow>
     crs_definition (el_crs layer) \<noteq> None \<and> el_coordinate_unit layer = crs_coordinate_unit (el_crs layer) \<and>
     validate_schema (el_schema layer) = Ok () \<and> bt_wf (el_features layer) \<and>
     (\<forall>k f. bt_get (el_features layer) k = Some f \<longrightarrow>
       ef_id f = k \<and> validate_draft layer (as_draft f) = Ok ())"

lemma as_draft_into_feature [simp]: "as_draft (into_feature d r) = d"
  by (simp add: as_draft_def into_feature_def)

lemma into_feature_simps [simp]:
  "ef_id (into_feature d r) = fd_id d" "ef_revision (into_feature d r) = r"
  "ef_geometry (into_feature d r) = fd_geometry d" "ef_attributes (into_feature d r) = fd_attributes d"
  by (simp_all add: into_feature_def)

text \<open>Validation of a draft looks at the geometry family, the reference system and the schema only.\<close>

lemma validate_draft_features [simp]:
  "validate_draft (layer\<lparr>el_features := fs, el_revision := r\<rparr>) d = validate_draft layer d"
  by (simp add: validate_draft_def)

lemma feature_with_revision_Ok_iff:
  "feature_with_revision layer i r = Ok f \<longleftrightarrow> bt_get (el_features layer) i = Some f \<and> ef_revision f = r"
  by (auto simp: feature_with_revision_def result_simps)

lemma check_part_Ok_iff:
  "check_part layer fid s p = Ok s' \<longleftrightarrow> validate_draft layer p = Ok () \<and> fd_id p \<notin> set s \<and>
     (fd_id p = fid \<or> bt_get (el_features layer) (fd_id p) = None) \<and> s' = bs_insert (fd_id p) s"
  by (auto simp: check_part_def result_simps bt_get_None_keys)

lemma check_parts_Ok:
  assumes "try_fold (check_part layer fid) s parts = Ok ids" and "bs_wf s"
  shows "bs_wf ids \<and> set ids = set s \<union> fd_id ` set parts \<and> distinct (map fd_id parts) \<and>
    set s \<inter> fd_id ` set parts = {} \<and>
    (\<forall>p \<in> set parts. validate_draft layer p = Ok () \<and>
      (fd_id p = fid \<or> bt_get (el_features layer) (fd_id p) = None))"
  using assms
proof (induction parts arbitrary: s)
  case (Cons p parts)
  then have "validate_draft layer p = Ok ()" "fd_id p \<notin> set s"
    "fd_id p = fid \<or> bt_get (el_features layer) (fd_id p) = None"
    and "try_fold (check_part layer fid) (bs_insert (fd_id p) s) parts = Ok ids"
    by (auto simp: check_part_Ok_iff result_simps)
  with Cons.IH [of "bs_insert (fd_id p) s"] Cons.prems(2) show ?case by auto
qed simp

lemma find_key: "distinct (map f xs) \<Longrightarrow> x \<in> set xs \<Longrightarrow> find (\<lambda>y. f y = f x) xs = Some x"
  by (induction xs) (auto simp: image_iff)

lemma insert_parts_get:
  assumes "bt_wf m" "distinct (map fd_id parts)"
  shows "bt_wf (fold (\<lambda>p. bt_insert (fd_id p) (into_feature p r)) parts m)"
    and "bt_get (fold (\<lambda>p. bt_insert (fd_id p) (into_feature p r)) parts m) k =
      (case find (\<lambda>p. fd_id p = k) parts of Some p \<Rightarrow> Some (into_feature p r) | None \<Rightarrow> bt_get m k)"
proof -
  show "bt_wf (fold (\<lambda>p. bt_insert (fd_id p) (into_feature p r)) parts m)"
    using assms(1) by (induction parts arbitrary: m) auto
  show "bt_get (fold (\<lambda>p. bt_insert (fd_id p) (into_feature p r)) parts m) k =
      (case find (\<lambda>p. fd_id p = k) parts of Some p \<Rightarrow> Some (into_feature p r) | None \<Rightarrow> bt_get m k)"
    using assms(2)
  proof (induction parts arbitrary: m)
    case (Cons p parts)
    have "find (\<lambda>q. fd_id q = fd_id p) parts = None"
      using Cons.prems unfolding find_None_iff by (metis distinct.simps(2) image_eqI list.set_map list.simps(9))
    with Cons show ?case by (auto split: option.splits)
  qed simp
qed

text \<open>The identities an edit may touch: those it reports and, for a split, the source.\<close>

fun touched :: "feature_edit \<Rightarrow> string list \<Rightarrow> string set" where
  "touched (Split i r parts) changed = insert i (set changed)"
| "touched _ changed = set changed"

definition edit_effect :: "editable_layer \<Rightarrow> feature_edit \<Rightarrow> features \<Rightarrow> string list \<Rightarrow> bool" where
  "edit_effect layer edit fs changed \<longleftrightarrow> bt_wf fs \<and> bs_wf changed \<and>
     (\<forall>k. k \<notin> touched edit changed \<longrightarrow> bt_get fs k = bt_get (el_features layer) k) \<and>
     (\<forall>k f. k \<in> touched edit changed \<longrightarrow> bt_get fs k = Some f \<longrightarrow>
       ef_id f = k \<and> validate_draft layer (as_draft f) = Ok ())"

lemma bs_wf_singleton [simp]: "bs_wf [x]"
  by (simp add: bs_wf_def)

lemma apply_split_Ok_iff:
  "apply_split layer i r parts = Ok (fs, changed) \<longleftrightarrow>
     (\<exists>source. feature_with_revision layer i r = Ok source \<and> 2 \<le> length parts \<and>
       try_fold (check_part layer i) [] parts = Ok changed \<and>
       require_area_conservation (geometry_area (ef_geometry source))
         (f64_sum (map (\<lambda>p. geometry_area (fd_geometry p)) parts)) = Ok () \<and>
       fs = fold (\<lambda>p. bt_insert (fd_id p) (into_feature p (ef_revision source + 1))) parts
         (bt_remove i (el_features layer)))"
  by (auto simp: apply_split_def result_simps not_less split: if_splits)

lemma split_effect:
  assumes "layer_ok layer" and "apply_split layer i r parts = Ok (fs, changed)"
  shows "edit_effect layer (Split i r parts) fs changed"
proof -
  obtain source where "feature_with_revision layer i r = Ok source"
    and ids: "try_fold (check_part layer i) [] parts = Ok changed"
    and fs: "fs = fold (\<lambda>p. bt_insert (fd_id p) (into_feature p (ef_revision source + 1))) parts
      (bt_remove i (el_features layer))"
    using assms(2) unfolding apply_split_Ok_iff by blast
  note parts = check_parts_Ok [OF ids bs_wf_Nil]
  have wf: "bt_wf (bt_remove i (el_features layer))" using assms(1) by (simp add: layer_ok_def)
  have "ef_id f = k \<and> validate_draft layer (as_draft f) = Ok ()"
    if "bt_get fs k = Some f" "k \<in> insert i (set changed)" for k f
    using that parts unfolding fs insert_parts_get(2) [OF wf conjunct1 [OF conjunct2 [OF conjunct2 [OF parts]]]]
    by (auto split: option.splits if_splits dest!: find_Some_set simp: find_None_iff)
  moreover have "bt_get fs k = bt_get (el_features layer) k" if "k \<notin> insert i (set changed)" for k
    using that parts unfolding fs insert_parts_get(2) [OF wf conjunct1 [OF conjunct2 [OF conjunct2 [OF parts]]]]
    by (auto split: option.splits dest!: find_Some_set)
  moreover have "bt_wf fs" unfolding fs using parts by (intro insert_parts_get(1) wf) auto
  ultimately show ?thesis using parts by (simp add: edit_effect_def)
qed

lemma collect_members_Ok:
  assumes "try_fold (collect_member layer) (ps, area, r) (zip is rs) = Ok (ps', area', r')"
  shows "\<forall>(i, e) \<in> set (zip is rs). \<exists>f. bt_get (el_features layer) i = Some f \<and> ef_revision f = e"
  using assms
proof (induction "zip is rs" arbitrary: "is" rs ps area r)
  case (Cons x xs)
  then obtain i is' e rs' where eq: "is = i # is'" "rs = e # rs'" "x = (i, e)" "xs = zip is' rs'"
    by (cases "is"; cases rs) auto
  then obtain f ps1 area1 r1 where "feature_with_revision layer i e = Ok f"
    and "try_fold (collect_member layer) (ps1, area1, r1) (zip is' rs') = Ok (ps', area', r')"
    using Cons.prems by (auto simp: collect_member_def result_simps)
  with Cons.hyps(1) [OF eq(4)] eq show ?case by (auto simp: feature_with_revision_Ok_iff)
next
  case Nil
  then show ?case by (metis empty_iff list.set(1))
qed

lemma saturating_succ_ge: "r \<le> saturating_succ r"
proof (cases "r = - 1")
  case False
  then have "1 + r \<noteq> 0" by (metis add.commute add_eq_0_iff minus_equation_iff)
  then have "unat (1 + r) = Suc (unat r)" by (rule unatSuc)
  with False show ?thesis by (simp add: saturating_succ_def word_le_nat_alt add.commute)
qed (simp add: saturating_succ_def)

lemma collect_members_polygons:
  assumes "try_fold (collect_member layer) (ps, area, r) (zip is rs) = Ok (ps', area', r')" and "length is = length rs"
  shows "ps' = ps @ concat (map (\<lambda>i. the (geometry_polygons (ef_geometry (the (bt_get (el_features layer) i))))) is) \<and>
    r \<le> r' \<and> (\<forall>e \<in> set rs. e \<le> r')"
  using assms(2,1)
proof (induction "is" rs arbitrary: ps area r rule: list_induct2)
  case (Cons i "is" e rs)
  then obtain f members where f: "bt_get (el_features layer) i = Some f" "ef_revision f = e"
    "geometry_polygons (ef_geometry f) = Some members"
    and "try_fold (collect_member layer) (ps @ members, f64_add area (geometry_area (ef_geometry f)), max r e)
      (zip is rs) = Ok (ps', area', r')"
    by (auto simp: collect_member_def result_simps feature_with_revision_Ok_iff)
  from Cons.IH [OF this(4)] f show ?case by auto
qed simp

lemma apply_merge_Ok_iff:
  "apply_merge layer is rs d = Ok (fs, changed) \<longleftrightarrow>
     (\<exists>polygons area r. 2 \<le> length is \<and> length is = length rs \<and> distinct is \<and>
       try_fold (collect_member layer) ([], Fin 0, 0) (zip is rs) = Ok (polygons, area, r) \<and>
       validate_draft layer (d\<lparr>fd_geometry := MultiPolygon polygons\<rparr>) = Ok () \<and>
       require_area_conservation area (geometry_area (MultiPolygon polygons)) = Ok () \<and>
       (fd_id d \<in> set is \<or> bt_get (el_features layer) (fd_id d) = None) \<and>
       fs = bt_insert (fd_id d) (into_feature (d\<lparr>fd_geometry := MultiPolygon polygons\<rparr>) (saturating_succ r))
         (fold bt_remove (bs_of_list is) (el_features layer)) \<and>
       changed = (if fd_id d \<in> set is then bs_of_list is else sort (bs_of_list is @ [fd_id d])))"
  unfolding apply_merge_def Let_def length_bs_of_list_eq_iff
  by (auto simp: result_simps not_less bt_get_None_keys split: if_splits)

lemma merge_effect:
  assumes "layer_ok layer" and "apply_merge layer is rs d = Ok (fs, changed)"
  shows "edit_effect layer (Merge is rs d) fs changed"
proof -
  from assms(2) obtain polygons r where
    valid: "validate_draft layer (d\<lparr>fd_geometry := MultiPolygon polygons\<rparr>) = Ok ()"
    and fs: "fs = bt_insert (fd_id d) (into_feature (d\<lparr>fd_geometry := MultiPolygon polygons\<rparr>) (saturating_succ r))
      (fold bt_remove (bs_of_list is) (el_features layer))"
    and changed: "changed = (if fd_id d \<in> set is then bs_of_list is else sort (bs_of_list is @ [fd_id d]))"
    unfolding apply_merge_Ok_iff by (elim exE conjE) (rule that)
  have wf: "bt_wf (el_features layer)" using assms(1) by (simp add: layer_ok_def)
  have set: "set changed = insert (fd_id d) (set is)" using changed by auto
  have "bs_wf changed"
    using changed bs_wf_of_list [of "is"] bs_wf_distinct [OF bs_wf_of_list, of "is"]
    by (auto simp: bs_wf_def strict_sorted_iff)
  moreover have "bt_wf fs" unfolding fs using bt.inv_fold_remove [OF wf] by simp
  moreover have "bt_get fs k = (if k = fd_id d then Some (into_feature (d\<lparr>fd_geometry := MultiPolygon polygons\<rparr>)
      (saturating_succ r)) else if k \<in> set is then None else bt_get (el_features layer) k)" for k
    unfolding fs using bt.get_fold_remove [OF wf] by simp
  ultimately show ?thesis using valid by (auto simp: edit_effect_def set)
qed

lemma apply_kind_effect:
  assumes "layer_ok layer" and "apply_kind layer edit = Ok (fs, changed)"
  shows "edit_effect layer edit fs changed"
proof -
  have wf: "bt_wf (el_features layer)" using assms(1) by (simp add: layer_ok_def)
  show ?thesis
  proof (cases edit)
    case (Split i r parts)
    with assms split_effect show ?thesis by simp
  next
    case (Merge "is" rs d)
    with assms merge_effect show ?thesis by simp
  next
    case (Repair i r)
    then obtain f where "bt_get (el_features layer) i = Some f" and v: "validate_draft layer
        \<lparr>fd_id = ef_id f, fd_geometry = geometry_repair (ef_geometry f), fd_attributes = ef_attributes f\<rparr> = Ok ()"
      and fs: "fs = bt_insert i (into_feature \<lparr>fd_id = ef_id f, fd_geometry = geometry_repair (ef_geometry f),
        fd_attributes = ef_attributes f\<rparr> (saturating_succ (ef_revision f))) (el_features layer)" "changed = [i]"
      using assms(2) by (auto simp: result_simps feature_with_revision_Ok_iff Let_def)
    moreover from this have "ef_id f = i" using assms(1) by (auto simp: layer_ok_def)
    ultimately show ?thesis using wf Repair by (auto simp: edit_effect_def)
  qed (use assms(2) wf in \<open>auto simp: edit_effect_def result_simps split: if_splits\<close>)
qed

lemma layer_ok_effect:
  assumes "layer_ok layer" and "apply_kind layer edit = Ok (fs, changed)"
  shows "layer_ok (layer\<lparr>el_features := fs, el_revision := r\<rparr>)"
  using apply_kind_effect [OF assms] assms(1)
  unfolding layer_ok_def edit_effect_def by (auto simp del: not_None_eq) metis+

section \<open>Repair\<close>

lemma dedup_hd: "dedup (p # r) \<noteq> [] \<and> hd (dedup (p # r)) = p"
  by (induction "p # r" arbitrary: p r rule: dedup.induct) (auto split: list.splits)

lemma dedup_set: "set (dedup r) \<subseteq> set r"
  by (induction r rule: dedup.induct) auto

text \<open>No two neighbours of a deduplicated ring are equal.\<close>

lemma dedup_adjacent: "list_all (\<lambda>(p, q). \<not> coordinate_eq q p) (windows2 (dedup r))"
proof (induction r rule: dedup.induct)
  case (1 p q r)
  show ?case
  proof (cases "coordinate_eq q p")
    case False
    obtain t where t: "dedup (q # r) = q # t" using dedup_hd [of q r] by (cases "dedup (q # r)") auto
    with 1(2) [OF False] False show ?thesis by simp
  qed (use 1(1) in simp)
qed auto

lemma dedup_fixed: "list_all (\<lambda>(p, q). \<not> coordinate_eq q p) (windows2 r) \<Longrightarrow> dedup r = r"
  by (induction r rule: dedup.induct) auto

lemma windows2_snoc: "r \<noteq> [] \<Longrightarrow> windows2 (r @ [p]) = windows2 r @ [(last r, p)]"
  by (induction r rule: windows2.induct) auto

lemma coordinate_eq_sym: "coordinate_eq p q \<longleftrightarrow> coordinate_eq q p"
  by (auto simp: coordinate_eq_def intro: f64_eq_sym)

definition not_nan :: "coordinate \<Rightarrow> bool" where
  "not_nan p \<longleftrightarrow> fst p \<noteq> NaN \<and> snd p \<noteq> NaN"

lemma coordinate_eq_refl [simp]: "coordinate_eq p p \<longleftrightarrow> not_nan p"
  by (simp add: coordinate_eq_def not_nan_def)

lemma repair_ring_cases:
  assumes "\<forall>p \<in> set r. not_nan p"
  shows "ring_closed (repair_ring r) \<and> repair_ring (repair_ring r) = repair_ring r"
proof (cases "dedup r")
  case Nil
  then show ?thesis by (simp add: repair_ring_def ring_closed_def)
next
  case (Cons p t)
  have p: "not_nan p" using dedup_set [of r] Cons assms by auto
  show ?thesis
  proof (cases "coordinate_eq (last (p # t)) p")
    case True
    then have eq: "repair_ring r = p # t" using Cons by (simp add: repair_ring_def)
    moreover have "dedup (p # t) = p # t" using dedup_adjacent [of r] Cons by (simp add: dedup_fixed)
    ultimately show ?thesis
      using True Cons coordinate_eq_sym unfolding eq by (simp add: ring_closed_def repair_ring_def)
  next
    case False
    then have eq: "repair_ring r = (p # t) @ [p]" using Cons by (simp add: repair_ring_def)
    have "list_all (\<lambda>(p, q). \<not> coordinate_eq q p) (windows2 ((p # t) @ [p]))"
      using dedup_adjacent [of r] Cons False coordinate_eq_sym
      by (subst windows2_snoc) auto
    then have "dedup ((p # t) @ [p]) = (p # t) @ [p]" by (rule dedup_fixed)
    then show ?thesis using p unfolding eq by (simp add: ring_closed_def repair_ring_def)
  qed
qed

fun rings_of :: "feature_geometry \<Rightarrow> coordinate list list" where
  "rings_of (Polygon rings) = rings"
| "rings_of (MultiPolygon polygons) = concat polygons"
| "rings_of _ = []"

section \<open>Area conservation\<close>

text \<open>Equal finite areas pass the check.\<close>

lemma area_conservation_refl:
  assumes "f64_is_finite a" shows "require_area_conservation a a = Ok ()"
proof -
  define d where "d = f64_max (f64_max (f64_abs a) (f64_abs a)) f64_epsilon"
  have a: "f64_is_finite (f64_abs a)" using assms by (cases a) (auto simp: f64_abs_def)
  then have d: "f64_is_finite d" "0 < f64_val d"
    unfolding d_def f64_epsilon_def
    by (cases "f64_abs a"; force simp: f64_max_def f64_lt_def)+
  have "f64_abs (f64_sub a a) = Fin 0"
    using assms by (cases a) (auto simp: f64_sub_def f64_add_def f64_abs_def f64_sign_def)
  then have "f64_div (f64_abs (f64_sub a a)) d \<in> {Fin 0, NegZero}"
    using d by (cases d) (auto simp: f64_div_def Let_def)
  moreover have "\<not> f64_lt (f64_lit r) z" if "0 \<le> r" "z \<in> {Fin 0, NegZero}" for r z
    using that f64_round_nonneg [of r False] f64_rank_range [of "f64_round False r"]
    by (auto simp: f64_lit_def f64_lt_def)
  ultimately show ?thesis
    unfolding require_area_conservation_def Let_def d_def [symmetric] by (simp add: reject_def)
qed

section \<open>Sample layer\<close>

definition sample_schema :: feature_schema where
  "sample_schema = \<lparr>fs_primary_key = ''code'',
     fs_fields = [\<lparr>af_name = ''code'', af_value_type = AtText, af_nullable = False\<rparr>]\<rparr>"

definition sample_box :: "string \<Rightarrow> rat \<Rightarrow> rat \<Rightarrow> feature_draft" where
  "sample_box i x0 x1 = \<lparr>fd_id = i,
     fd_geometry = Polygon [[(Fin x0, Fin 0), (Fin x1, Fin 0), (Fin x1, Fin 4), (Fin x0, Fin 4), (Fin x0, Fin 0)]],
     fd_attributes = [(''code'', AvText i)]\<rparr>"

definition sample_layer :: editable_layer where
  "sample_layer = \<lparr>el_layer_id = 0, el_crs = crs_wgs84, el_coordinate_unit = Degrees,
     el_geometry_kind = EgPolygon, el_schema = sample_schema, el_revision = 3,
     el_features = [(''a'', into_feature (sample_box ''a'' 1 5) 2)]\<rparr>"

lemma sample_areas [simp]:
  "geometry_area (fd_geometry (sample_box i 1 5)) = Fin 16"
  "geometry_area (fd_geometry (sample_box i 1 3)) = Fin 8"
  "geometry_area (fd_geometry (sample_box i 3 5)) = Fin 8"
  by (simp_all add: sample_box_def polygon_area_def ring_area_def f64_arith)

lemma trim_short: "trim [CHR ''a''] = ''a''" "trim [CHR ''b''] = ''b''"  "trim [CHR ''c''] = ''c''"
  by code_simp+

lemma sample_boxes_valid:
  "i \<in> {''a'', ''b'', ''c''} \<Longrightarrow> (x, y) \<in> {(1, 5), (1, 3), (3, 5)} \<Longrightarrow>
     validate_draft sample_layer (sample_box i x y) = Ok ()"
  using sample_areas
  by (auto simp: validate_draft_def validate_geometry_def validate_attributes_def validate_rings_def
      sample_box_def sample_layer_def sample_schema_def ring_closed_def coordinate_eq_def
      crs_validate_coordinate_def crs_require_known_def ok_or_def reject_def in_closed_range_def
      trim_short bt_get_def f64_le_def f64_eq_def)

lemma sample_layer_ok: "layer_ok sample_layer"
proof -
  have "validate_schema sample_schema = Ok ()" by code_simp
  moreover have "validate_draft sample_layer (sample_box ''a'' 1 5) = Ok ()"
    by (rule sample_boxes_valid) auto
  ultimately show ?thesis
    by (auto simp: layer_ok_def sample_layer_def bt_wf_def bt_get_def sample_box_def split: if_splits)
qed

definition sample_parts :: "feature_draft list" where
  "sample_parts = [sample_box ''b'' 1 3, sample_box ''c'' 3 5]"

definition split_features :: features where
  "split_features = [(''b'', into_feature (sample_box ''b'' 1 3) 3), (''c'', into_feature (sample_box ''c'' 3 5) 3)]"

lemma sample_split: "apply_split sample_layer ''a'' 2 sample_parts = Ok (split_features, [''b'', ''c''])"
proof -
  have v: "validate_draft sample_layer (sample_box ''b'' 1 3) = Ok ()"
    "validate_draft sample_layer (sample_box ''c'' 3 5) = Ok ()"
    by (rule sample_boxes_valid; simp)+
  have id: "fd_id (sample_box i x y) = i" for i x y by (simp add: sample_box_def)
  have "f64_sum [Fin 8, Fin 8] = Fin 16" by (simp add: f64_arith)
  then have "require_area_conservation (Fin 16) (f64_sum [Fin 8, Fin 8]) = Ok ()"
    by (simp add: area_conservation_refl)
  moreover have "bt_get (el_features sample_layer) ''a'' = Some (into_feature (sample_box ''a'' 1 5) 2)"
    "bt_contains (el_features sample_layer) ''b'' = False" "bt_contains (el_features sample_layer) ''c'' = False"
    "bt_remove ''a'' (el_features sample_layer) = []"
    by (simp_all add: sample_layer_def bt_get_def bt_contains_def bt_remove_def bt_keys_def)
  moreover have "bs_insert ''c'' (bs_insert ''b'' []) = [''b'', ''c'']"
    "bt_insert ''c'' u (bt_insert ''b'' t []) = [(''b'', t), (''c'', u)]" for t u :: editable_feature
    by code_simp+
  ultimately show ?thesis using v
    by (simp add: apply_split_def sample_parts_def feature_with_revision_def ok_or_def check_part_def id
        split_features_def)
qed

lemma sample_apply_split:
  "apply_edit sample_layer 3 (Split ''a'' 2 sample_parts) =
     Ok (sample_layer\<lparr>el_features := split_features, el_revision := 4\<rparr>,
       \<lparr>er_before_revision = 3, er_after_revision = 4, er_changed_features = [''b'', ''c'']\<rparr>)"
  by (simp add: apply_edit_def sample_split) (simp add: sample_layer_def saturating_succ_def)

definition split_layer :: editable_layer where
  "split_layer = sample_layer\<lparr>el_features := split_features, el_revision := 4\<rparr>"

definition merged_box :: feature_draft where
  "merged_box = (sample_box ''a'' 0 0)\<lparr>fd_geometry := MultiPolygon
     (map (\<lambda>d. case fd_geometry d of Polygon rings \<Rightarrow> rings | _ \<Rightarrow> []) sample_parts)\<rparr>"

lemma polygon_areas:
  "polygon_area [[(Fin 1, Fin 0), (Fin 3, Fin 0), (Fin 3, Fin 4), (Fin 1, Fin 4), (Fin 1, Fin 0)]] = Fin 8"
  "polygon_area [[(Fin 3, Fin 0), (Fin 5, Fin 0), (Fin 5, Fin 4), (Fin 3, Fin 4), (Fin 3, Fin 0)]] = Fin 8"
  by (simp_all add: polygon_area_def ring_area_def f64_arith)

lemma merged_box_valid: "validate_draft split_layer merged_box = Ok ()"
  using polygon_areas
  by (auto simp: merged_box_def sample_parts_def split_layer_def validate_draft_def validate_geometry_def
      validate_attributes_def validate_rings_def sample_box_def sample_layer_def sample_schema_def
      ring_closed_def coordinate_eq_def crs_validate_coordinate_def crs_require_known_def ok_or_def
      reject_def in_closed_range_def trim_short bt_get_def f64_le_def f64_eq_def)

lemma sample_merge:
  "apply_merge split_layer [''b'', ''c''] [3, 3] (sample_box ''a'' 0 0) =
     Ok ([(''a'', into_feature merged_box 4)], [''a'', ''b'', ''c''])"
proof -
  have ids: "bs_of_list [''b'', ''c''] = [''b'', ''c'']" "sort ([''b'', ''c''] @ [''a'']) = [''a'', ''b'', ''c'']"
    by code_simp+
  have f: "el_features split_layer = split_features" by (simp add: split_layer_def)
  have c: "try_fold (collect_member split_layer) ([], Fin 0, 0) (zip [''b'', ''c''] [3, 3]) =
      Ok (map (\<lambda>d. case fd_geometry d of Polygon rings \<Rightarrow> rings | _ \<Rightarrow> []) sample_parts, Fin 16, 3)"
    using polygon_areas
    by (simp add: collect_member_def feature_with_revision_def f split_features_def bt_get_def ok_or_def
        sample_box_def sample_parts_def f64_add_def)
  have area: "geometry_area (fd_geometry merged_box) = Fin 16"
    using polygon_areas by (simp add: merged_box_def sample_parts_def sample_box_def f64_arith)
  have m: "(sample_box ''a'' 0 0)\<lparr>fd_geometry := MultiPolygon
      (map (\<lambda>d. case fd_geometry d of Polygon rings \<Rightarrow> rings | _ \<Rightarrow> []) sample_parts)\<rparr> = merged_box"
    by (simp add: merged_box_def)
  show ?thesis
    unfolding apply_merge_def ids c Let_def
    using merged_box_valid area area_conservation_refl [of "Fin 16"] ids(2)
    by (simp add: m f split_features_def) (simp add: merged_box_def sample_box_def bt_keys_def bt_remove_def saturating_succ_def)
qed

section \<open>Properties\<close>

text \<open>C25: a successful edit keeps the layer well formed: the reference system is known, the schema
  valid, every feature is stored under its own identity and passes geometry, coordinate and
  attribute validation.\<close>

theorem apply_edit_preserves:
  assumes "layer_ok layer" and "apply_edit layer r e = Ok (layer', receipt)"
  shows "layer_ok layer'"
proof -
  obtain fs changed where k: "apply_kind layer e = Ok (fs, changed)"
    and l: "layer' = layer\<lparr>el_features := fs, el_revision := saturating_succ (el_revision layer)\<rparr>"
    using assms(2) by (auto simp: apply_edit_def result_simps Let_def split: if_splits)
  show ?thesis unfolding l by (rule layer_ok_effect [OF assms(1) k])
qed

theorem apply_edit_preserves_witness:
  "layer_ok (sample_layer\<lparr>el_features := split_features, el_revision := 4\<rparr>)"
  by (rule apply_edit_preserves [OF sample_layer_ok sample_apply_split])

text \<open>C27: a successful edit advances the layer revision by one (saturating), reports the revisions it
  moved between and the changed identities in strictly increasing order, and leaves every feature
  it does not touch as it was.\<close>

theorem apply_edit_frame:
  assumes "layer_ok layer" and "apply_edit layer r e = Ok (layer', receipt)"
  shows "r = el_revision layer \<and> er_before_revision receipt = r \<and>
    er_after_revision receipt = el_revision layer' \<and> el_revision layer' = saturating_succ r \<and>
    sorted_wrt (<) (er_changed_features receipt) \<and>
    (\<forall>k. k \<notin> touched e (er_changed_features receipt) \<longrightarrow>
      bt_get (el_features layer') k = bt_get (el_features layer) k)"
proof -
  obtain fs changed where r: "el_revision layer = r" and k: "apply_kind layer e = Ok (fs, changed)"
    and l: "layer' = layer\<lparr>el_features := fs, el_revision := saturating_succ (el_revision layer)\<rparr>"
    and c: "receipt = \<lparr>er_before_revision = el_revision layer,
      er_after_revision = saturating_succ (el_revision layer), er_changed_features = changed\<rparr>"
    using assms(2) by (auto simp: apply_edit_def result_simps Let_def split: if_splits)
  from apply_kind_effect [OF assms(1) k] show ?thesis
    using r unfolding l c by (simp add: edit_effect_def bs_wf_def)
qed

theorem apply_edit_frame_witness:
  "sorted_wrt (<) [''b'', ''c''] \<and> bt_get split_features ''z'' = bt_get (el_features sample_layer) ''z''"
proof -
  from apply_edit_frame [OF sample_layer_ok sample_apply_split] show ?thesis by simp
qed

text \<open>C26: no lost update: two edits prepared against the same layer revision cannot both succeed (the
  only exception is the saturated revision \<open>u64::MAX\<close>).\<close>

theorem no_lost_update:
  assumes "apply_edit layer r e = Ok (layer', receipt)" and "r \<noteq> - 1"
  shows "apply_edit layer' r e' = Err (StaleRevision r (r + 1))"
proof -
  have "el_revision layer' = r + 1"
    using assms by (auto simp: apply_edit_def result_simps saturating_succ_def Let_def split: if_splits)
  then show ?thesis by (simp add: apply_edit_def)
qed

theorem no_lost_update_witness:
  "apply_edit (sample_layer\<lparr>el_features := [], el_revision := 4\<rparr>) 3 (Delete ''a'' 2) = Err (StaleRevision 3 4)"
proof -
  have "apply_edit sample_layer 3 (Delete ''a'' 2) =
      Ok (sample_layer\<lparr>el_features := [], el_revision := 4\<rparr>,
        \<lparr>er_before_revision = 3, er_after_revision = 4, er_changed_features = [''a'']\<rparr>)"
    by (simp add: apply_edit_def feature_with_revision_def sample_layer_def bt_get_def ok_or_def bt_remove_def
        saturating_succ_def Let_def)
  from no_lost_update [OF this] show ?thesis by simp
qed

text \<open>A split replaces its source by the parts: every part is stored as given with the source's
  revision plus one (modulo \<open>2\<^sup>6\<^sup>4\<close>), the source is gone unless a part takes over its identity, no
  other feature is overwritten, and the areas passed the conservation check.\<close>

theorem split_parts:
  assumes "layer_ok layer" and "apply_split layer i r parts = Ok (fs, changed)"
  shows "2 \<le> length parts \<and> distinct (map fd_id parts) \<and> set changed = fd_id ` set parts \<and>
    (\<forall>p \<in> set parts. bt_get fs (fd_id p) = Some (into_feature p (r + 1)) \<and>
      (fd_id p = i \<or> bt_get (el_features layer) (fd_id p) = None)) \<and>
    (i \<notin> fd_id ` set parts \<longrightarrow> bt_get fs i = None) \<and>
    (\<exists>source. bt_get (el_features layer) i = Some source \<and>
      require_area_conservation (geometry_area (ef_geometry source))
        (f64_sum (map (\<lambda>p. geometry_area (fd_geometry p)) parts)) = Ok ())"
proof -
  obtain source where s: "bt_get (el_features layer) i = Some source" "ef_revision source = r"
    and len: "2 \<le> length parts" and ids: "try_fold (check_part layer i) [] parts = Ok changed"
    and area: "require_area_conservation (geometry_area (ef_geometry source))
        (f64_sum (map (\<lambda>p. geometry_area (fd_geometry p)) parts)) = Ok ()"
    and fs: "fs = fold (\<lambda>p. bt_insert (fd_id p) (into_feature p (ef_revision source + 1))) parts
      (bt_remove i (el_features layer))"
    using assms(2) unfolding apply_split_Ok_iff feature_with_revision_Ok_iff by blast
  note parts = check_parts_Ok [OF ids bs_wf_Nil]
  then have d: "distinct (map fd_id parts)" by simp
  have wf: "bt_wf (bt_remove i (el_features layer))" using assms(1) by (simp add: layer_ok_def)
  note find = find_key [OF d]
  have "bt_get fs (fd_id p) = Some (into_feature p (r + 1))" if "p \<in> set parts" for p
    unfolding fs insert_parts_get(2) [OF wf d] using find [OF that] s by simp
  moreover have "bt_get fs i = None" if "i \<notin> fd_id ` set parts"
  proof -
    have "find (\<lambda>p. fd_id p = i) parts = None" using that by (auto simp: find_None_iff)
    then show ?thesis unfolding fs insert_parts_get(2) [OF wf d] by simp
  qed
  ultimately show ?thesis using len parts s area by auto
qed

theorem split_parts_witness:
  "bt_get split_features ''b'' = Some (into_feature (sample_box ''b'' 1 3) 3) \<and> bt_get split_features ''a'' = None"
  using split_parts [OF sample_layer_ok sample_split]
  by (simp add: sample_parts_def) (simp add: sample_box_def)

text \<open>The receipt of a split does not list the source feature it deletes when no part keeps its
  identity, although the receipt is documented to list the identities changed by the operation
  (deletions and merges do list theirs).\<close>

theorem split_receipt_omits_source:
  "\<exists>layer' receipt. layer_ok sample_layer \<and>
     apply_edit sample_layer 3 (Split ''a'' 2 sample_parts) = Ok (layer', receipt) \<and>
     bt_get (el_features sample_layer) ''a'' \<noteq> None \<and> bt_get (el_features layer') ''a'' = None \<and>
     ''a'' \<notin> set (er_changed_features receipt)"
proof -
  have "bt_get (el_features sample_layer) ''a'' \<noteq> None" "bt_get split_features ''a'' = None"
    by (simp_all add: sample_layer_def split_features_def bt_get_def)
  then show ?thesis using sample_layer_ok sample_apply_split by auto
qed

text \<open>A merge collects the polygons of all members, in the order given, into one multipolygon under
  the merged identity, with a revision above every member's, and removes the other members; each
  member carried the revision the caller expected.\<close>

theorem merge_members:
  assumes "layer_ok layer" and "apply_merge layer is rs d = Ok (fs, changed)"
  shows "distinct is \<and> length rs = length is \<and> set changed = insert (fd_id d) (set is) \<and>
    (\<forall>j < length is. \<exists>f. bt_get (el_features layer) (is ! j) = Some f \<and> ef_revision f = rs ! j) \<and>
    (\<forall>i \<in> set is. i \<noteq> fd_id d \<longrightarrow> bt_get fs i = None) \<and>
    (\<exists>merged. bt_get fs (fd_id d) = Some merged \<and> ef_attributes merged = fd_attributes d \<and>
      ef_geometry merged = MultiPolygon (concat (map (\<lambda>i. the (geometry_polygons (ef_geometry
        (the (bt_get (el_features layer) i))))) is)) \<and>
      (\<forall>r \<in> set rs. r \<le> ef_revision merged))"
proof -
  obtain polygons area r where len: "length is = length rs" "distinct is"
    and c: "try_fold (collect_member layer) ([], Fin 0, 0) (zip is rs) = Ok (polygons, area, r)"
    and fs: "fs = bt_insert (fd_id d) (into_feature (d\<lparr>fd_geometry := MultiPolygon polygons\<rparr>) (saturating_succ r))
         (fold bt_remove (bs_of_list is) (el_features layer))"
    and changed: "changed = (if fd_id d \<in> set is then bs_of_list is else sort (bs_of_list is @ [fd_id d]))"
    using assms(2) unfolding apply_merge_Ok_iff by blast
  have wf: "bt_wf (el_features layer)" using assms(1) by (simp add: layer_ok_def)
  have get: "bt_get fs k = (if k = fd_id d then Some (into_feature (d\<lparr>fd_geometry := MultiPolygon polygons\<rparr>)
      (saturating_succ r)) else if k \<in> set is then None else bt_get (el_features layer) k)" for k
    unfolding fs using bt.get_fold_remove [OF wf] by simp
  note m = collect_members_polygons [OF c len(1)]
  have "\<exists>f. bt_get (el_features layer) (is ! j) = Some f \<and> ef_revision f = rs ! j" if "j < length is" for j
    using collect_members_Ok [OF c] that len(1) by (auto simp: set_zip)
  moreover have "r' \<le> saturating_succ r" if "r' \<in> set rs" for r'
    using m that saturating_succ_ge [of r] by (auto intro: order_trans)
  ultimately show ?thesis using len changed get m by auto
qed

theorem merge_members_witness:
  "(\<exists>f. bt_get split_features ''c'' = Some f \<and> ef_revision f = 3) \<and>
   bt_get [(''a'', into_feature merged_box 4)] ''b'' = None"
proof -
  have "layer_ok split_layer"
    unfolding split_layer_def
    by (rule layer_ok_effect [OF sample_layer_ok, of "Split ''a'' 2 sample_parts"]) (simp add: sample_split)
  note m = merge_members [OF this sample_merge]
  then have "\<forall>j < 2. \<exists>f. bt_get split_features ([''b'', ''c''] ! j) = Some f \<and> ef_revision f = [3, 3] ! j"
    by (simp add: split_layer_def numeral_2_eq_2)
  then have "\<exists>f. bt_get split_features ([''b'', ''c''] ! 1) = Some f \<and> ef_revision f = [3, 3] ! 1"
    by (rule allE [where x = 1]) (auto simp del: nth_Cons')
  moreover have "bt_get [(''a'', into_feature merged_box 4)] ''b'' = None"
    using m by (simp add: split_layer_def) (simp add: sample_box_def)
  ultimately show ?thesis by simp
qed

text \<open>Repairing a geometry without NaN coordinates closes every ring, and repairing it again changes
  nothing.\<close>

theorem repair_idempotent:
  assumes "\<forall>p \<in> set (coordinates g). not_nan p"
  shows "geometry_repair (geometry_repair g) = geometry_repair g \<and>
    (\<forall>ring \<in> set (rings_of (geometry_repair g)). ring_closed ring)"
proof (cases g)
  case (Polygon rings)
  with assms have "\<forall>ring \<in> set rings. \<forall>p \<in> set ring. not_nan p" by auto
  with Polygon repair_ring_cases show ?thesis by (auto simp: comp_def)
next
  case (MultiPolygon polygons)
  with assms have "\<forall>rings \<in> set polygons. \<forall>ring \<in> set rings. \<forall>p \<in> set ring. not_nan p" by auto
  with MultiPolygon repair_ring_cases show ?thesis by (auto simp: comp_def)
qed auto

theorem repair_idempotent_witness:
  "geometry_repair (geometry_repair (Polygon [[(Fin 0, Fin 0), (Fin 1, Fin 0), (Fin 1, Fin 0), (Fin 1, Fin 1)]])) =
   geometry_repair (Polygon [[(Fin 0, Fin 0), (Fin 1, Fin 0), (Fin 1, Fin 0), (Fin 1, Fin 1)]])"
  using repair_idempotent [of "Polygon [[(Fin 0, Fin 0), (Fin 1, Fin 0), (Fin 1, Fin 0), (Fin 1, Fin 1)]]"]
  by (simp add: not_nan_def)

text \<open>The conservation check does not fail closed: when the total output area overflows to
  infinity the relative error is NaN, no comparison with NaN holds, and the check accepts any input
  area.\<close>

theorem conservation_accepts_overflow: "require_area_conservation (Fin a) (Inf False) = Ok ()"
  by (simp add: require_area_conservation_def reject_def f64_arith f64_epsilon_def)

end
