(* ===== verification/Style.thy ===== *)
theory Style
  imports Contract_Json
begin

text \<open>
  \<open>genegis-style/src/evidence.rs\<close>: evidence-carrying map styles, their validation, the lookup
  of the class of a value, and the text helpers of the module. The rendering of a page to SVG
  (\<open>render_evidence_svg\<close>) is not modelled.
\<close>

section \<open>Data\<close>

datatype classification_method = EqualInterval | Quantile | Manual

record class_break =
  cb_minimum :: f64
  cb_maximum :: f64
  cb_fill :: string
  cb_label :: string

record legend_spec =
  ls_title :: string
  ls_unit :: string
  ls_x :: u32
  ls_y :: u32

record label_style =
  lb_field :: string
  lb_font_family :: string
  lb_font_digest :: string
  lb_size_px :: f64
  lb_color :: string

record evidence_map_style =
  ms_id :: uuid
  ms_layer_id :: uuid
  ms_field :: string
  ms_value_unit :: string
  ms_classification :: classification_method
  ms_breaks :: "class_break list"
  ms_legend :: legend_spec
  ms_labels :: "label_style option"

text \<open>A message that prints a float carries the float.\<close>

datatype style_text = StyleText string | OutsideBreaks f64

datatype style_error =
    InvalidStyle style_text
  | StyleLayout style_text
  | StyleFeature style_text
  | StyleEvidence style_text
  | StyleSerialization style_text

section \<open>Text helpers\<close>

definition valid_hex_color :: "string \<Rightarrow> bool" where
  "valid_hex_color v = (length v = 7 \<and> prefix ''#'' v \<and> list_all is_ascii_hexdigit (drop 1 v))"

definition valid_digest :: "string \<Rightarrow> bool" where
  "valid_digest v = (length v = 71 \<and> prefix ''sha256:'' v \<and> list_all is_ascii_hexdigit (drop 7 v))"

definition replace_char :: "char \<Rightarrow> string \<Rightarrow> string \<Rightarrow> string" where
  "replace_char c by_text s = concat (map (\<lambda>x. if x = c then by_text else [x]) s)"

definition escape_xml :: "string \<Rightarrow> string" where
  "escape_xml s =
     replace_char CHR 0x27 ''&apos;'' (replace_char CHR 0x22 ''&quot;'' (replace_char CHR ''>'' ''&gt;''
       (replace_char CHR ''<'' ''&lt;'' (replace_char CHR ''&'' ''&amp;'' s))))"

section \<open>Validation and classification\<close>

definition check_class :: "class_break list \<Rightarrow> nat \<times> class_break \<Rightarrow> style_error + unit" where
  "check_class breaks = (\<lambda>(index, c).
     if \<not> f64_is_finite (cb_minimum c) \<or> \<not> f64_is_finite (cb_maximum c) \<or>
        f64_le (cb_maximum c) (cb_minimum c) \<or> \<not> valid_hex_color (cb_fill c) \<or> blank (cb_label c)
     then Err (InvalidStyle (StyleText (''class '' @ show_nat index @ '' has invalid bounds, fill, or label'')))
     else reject (0 < index \<and> \<not> f64_eq (cb_maximum (breaks ! (index - 1))) (cb_minimum c))
       (InvalidStyle (StyleText (''classes '' @ show_nat (index - 1) @ '' and '' @ show_nat index @
          '' have a gap or overlap''))))"

definition valid_labels :: "label_style \<Rightarrow> bool" where
  "valid_labels l = (\<not> (blank (lb_field l) \<or> blank (lb_font_family l) \<or> \<not> valid_digest (lb_font_digest l) \<or>
     \<not> f64_is_finite (lb_size_px l) \<or> \<not> (f64_le (Fin 4) (lb_size_px l) \<and> f64_le (lb_size_px l) (Fin 96)) \<or>
     \<not> valid_hex_color (lb_color l)))"

definition validate_style :: "evidence_map_style \<Rightarrow> style_error + unit" where
  "validate_style s =
     (if blank (ms_field s) \<or> blank (ms_value_unit s) \<or> blank (ls_title (ms_legend s)) \<or>
         ls_unit (ms_legend s) \<noteq> ms_value_unit s \<or> ms_breaks s = []
      then Err (InvalidStyle (StyleText ''field, unit, matching legend unit, title, and breaks are required''))
      else and_then (try_for (check_class (ms_breaks s)) (enumerate0 (ms_breaks s))) (\<lambda>_.
        case ms_labels s of
          None \<Rightarrow> Ok ()
        | Some l \<Rightarrow> reject (\<not> valid_labels l)
            (InvalidStyle (StyleText ''labels require field, font identity, 4-96 px size, and color''))))"

definition in_class :: "nat \<Rightarrow> f64 \<Rightarrow> nat \<times> class_break \<Rightarrow> bool" where
  "in_class n v = (\<lambda>(index, c). f64_le (cb_minimum c) v \<and>
     (f64_lt v (cb_maximum c) \<or> index = n - 1 \<and> f64_le v (cb_maximum c)))"

definition fill_for :: "evidence_map_style \<Rightarrow> f64 \<Rightarrow> style_error + string" where
  "fill_for s v =
     (if \<not> f64_is_finite v then Err (StyleFeature (StyleText ''classification value is not finite''))
      else ok_or (map_option (\<lambda>(_, c). cb_fill c)
          (find (in_class (length (ms_breaks s)) v) (enumerate0 (ms_breaks s))))
        (StyleFeature (OutsideBreaks v)))"

section \<open>Serialised form\<close>

fun json_classification :: "classification_method \<Rightarrow> json" where
  "json_classification EqualInterval = JStr ''equal_interval''"
| "json_classification Quantile = JStr ''quantile''"
| "json_classification Manual = JStr ''manual''"

definition json_class_break :: "class_break \<Rightarrow> json" where
  "json_class_break c = jobj [(''minimum'', json_f64 (cb_minimum c)), (''maximum'', json_f64 (cb_maximum c)),
     (''fill'', JStr (cb_fill c)), (''label'', JStr (cb_label c))]"

definition json_legend :: "legend_spec \<Rightarrow> json" where
  "json_legend l = jobj [(''title'', JStr (ls_title l)), (''unit'', JStr (ls_unit l)),
     (''x'', json_u32 (ls_x l)), (''y'', json_u32 (ls_y l))]"

definition json_labels :: "label_style \<Rightarrow> json" where
  "json_labels l = jobj [(''field'', JStr (lb_field l)), (''font_family'', JStr (lb_font_family l)),
     (''font_digest'', JStr (lb_font_digest l)), (''size_px'', json_f64 (lb_size_px l)),
     (''color'', JStr (lb_color l))]"

definition json_map_style :: "(uuid \<Rightarrow> string) \<Rightarrow> evidence_map_style \<Rightarrow> json" where
  "json_map_style show_uuid s = jobj
     ([(''id'', JStr (show_uuid (ms_id s))), (''layer_id'', JStr (show_uuid (ms_layer_id s))),
       (''field'', JStr (ms_field s)), (''value_unit'', JStr (ms_value_unit s)),
       (''classification'', json_classification (ms_classification s)),
       (''breaks'', JArr (map json_class_break (ms_breaks s))), (''legend'', json_legend (ms_legend s))] @
      skip_none ''labels'' json_labels (ms_labels s))"

section \<open>Validated classes partition the range\<close>

lemma set_enumerate0: "(i, x) \<in> set (enumerate0 xs) \<longleftrightarrow> i < length xs \<and> x = xs ! i"
  by (force simp: enumerate0_def enumerate_eq_zip set_zip)

lemma validate_style_Ok_iff:
  "validate_style s = Ok () \<longleftrightarrow>
     \<not> blank (ms_field s) \<and> \<not> blank (ms_value_unit s) \<and> \<not> blank (ls_title (ms_legend s)) \<and>
     ls_unit (ms_legend s) = ms_value_unit s \<and> ms_breaks s \<noteq> [] \<and>
     (\<forall>i < length (ms_breaks s). check_class (ms_breaks s) (i, ms_breaks s ! i) = Ok ()) \<and>
     (\<forall>l. ms_labels s = Some l \<longrightarrow> valid_labels l)"
  by (auto simp: validate_style_def result_simps set_enumerate0 Ball_def split: option.splits)

lemma check_class_Ok_iff:
  "check_class breaks (i, c) = Ok () \<longleftrightarrow>
     f64_is_finite (cb_minimum c) \<and> f64_is_finite (cb_maximum c) \<and>
     \<not> f64_le (cb_maximum c) (cb_minimum c) \<and> valid_hex_color (cb_fill c) \<and> \<not> blank (cb_label c) \<and>
     (0 < i \<longrightarrow> f64_eq (cb_maximum (breaks ! (i - 1))) (cb_minimum c))"
  by (auto simp: check_class_def)

lemma f64_le_finite: "f64_is_finite x \<Longrightarrow> f64_is_finite y \<Longrightarrow> f64_le x y \<longleftrightarrow> f64_val x \<le> f64_val y"
  by (cases x; cases y) (auto simp: f64_le_def f64_lt_def f64_eq_def)

lemma f64_lt_finite: "f64_is_finite x \<Longrightarrow> f64_is_finite y \<Longrightarrow> f64_lt x y \<longleftrightarrow> f64_val x < f64_val y"
  by (cases x; cases y) (auto simp: f64_lt_def)

text \<open>Consecutive half-open intervals that share their end points.\<close>

lemma intervals_ordered:
  fixes lo hi :: "nat \<Rightarrow> 'a :: linorder"
  assumes "\<And>i. i < n \<Longrightarrow> lo i < hi i" "\<And>i. Suc i < n \<Longrightarrow> hi i = lo (Suc i)"
  shows "i < j \<Longrightarrow> j < n \<Longrightarrow> hi i \<le> lo j"
proof (induction j)
  case (Suc j)
  show ?case
  proof (cases "i = j")
    case False
    then have "hi i \<le> lo j" using Suc by simp
    also have "lo j < hi j" using Suc.prems assms(1) by simp
    finally show ?thesis using assms(2) [of j] Suc.prems by simp
  qed (use Suc.prems assms(2) in simp)
qed simp

lemma intervals_cover:
  fixes lo hi :: "nat \<Rightarrow> 'a :: linorder"
  assumes "\<And>i. Suc i < n \<Longrightarrow> hi i = lo (Suc i)" "0 < n" "lo 0 \<le> v" "v \<le> hi (n - 1)"
  shows "\<exists>i < n. lo i \<le> v \<and> (v < hi i \<or> i = n - 1 \<and> v \<le> hi i)"
proof -
  let ?S = "{i. i < n \<and> lo i \<le> v}"
  have fin: "finite ?S" by simp
  have "0 \<in> ?S" using assms by simp
  then have mem: "Max ?S \<in> ?S" using Max_in [OF fin] by blast
  have "v < hi (Max ?S)" if "Max ?S \<noteq> n - 1"
  proof (rule ccontr)
    assume *: "\<not> v < hi (Max ?S)"
    have "Suc (Max ?S) < n" using mem that by auto
    then have "Suc (Max ?S) \<in> ?S" using * assms(1) by auto
    then show False using Max_ge [OF fin] by fastforce
  qed
  then show ?thesis using mem assms(4) by (cases "Max ?S = n - 1") auto
qed

lemma intervals_disjoint:
  fixes lo hi :: "nat \<Rightarrow> 'a :: linorder"
  assumes "\<And>i. i < n \<Longrightarrow> lo i < hi i" "\<And>i. Suc i < n \<Longrightarrow> hi i = lo (Suc i)"
    and "i < n" "lo i \<le> v" "v < hi i \<or> i = n - 1 \<and> v \<le> hi i"
    and "j < n" "lo j \<le> v" "v < hi j \<or> j = n - 1 \<and> v \<le> hi j"
  shows "i = j"
proof (rule linorder_cases [of i j])
  assume "i < j"
  then have "hi i \<le> v" using intervals_ordered [where n = n and lo = lo and hi = hi, OF assms(1,2), of i j] assms by force
  then show ?thesis using assms \<open>i < j\<close> by auto
next
  assume "j < i"
  then have "hi j \<le> v" using intervals_ordered [where n = n and lo = lo and hi = hi, OF assms(1,2), of j i] assms by force
  then show ?thesis using assms \<open>j < i\<close> by auto
qed

lemma breaks_bounds:
  assumes "validate_style s = Ok ()"
  shows "i < length (ms_breaks s) \<Longrightarrow> f64_is_finite (cb_minimum (ms_breaks s ! i)) \<and>
           f64_is_finite (cb_maximum (ms_breaks s ! i)) \<and>
           f64_val (cb_minimum (ms_breaks s ! i)) < f64_val (cb_maximum (ms_breaks s ! i))"
    and "Suc i < length (ms_breaks s) \<Longrightarrow>
           f64_val (cb_maximum (ms_breaks s ! i)) = f64_val (cb_minimum (ms_breaks s ! Suc i))"
proof -
  have all: "check_class (ms_breaks s) (i, ms_breaks s ! i) = Ok ()" if "i < length (ms_breaks s)" for i
    using assms that by (simp add: validate_style_Ok_iff)
  show 1: "f64_is_finite (cb_minimum (ms_breaks s ! i)) \<and> f64_is_finite (cb_maximum (ms_breaks s ! i)) \<and>
     f64_val (cb_minimum (ms_breaks s ! i)) < f64_val (cb_maximum (ms_breaks s ! i))"
    if "i < length (ms_breaks s)" for i
    using all [OF that] by (auto simp: check_class_Ok_iff f64_le_finite)
  show "f64_val (cb_maximum (ms_breaks s ! i)) = f64_val (cb_minimum (ms_breaks s ! Suc i))"
    if "Suc i < length (ms_breaks s)"
    using all [OF that] 1 [of i] 1 [OF that] that by (auto simp: check_class_Ok_iff f64_eq_finite)
qed

lemma in_class_finite:
  assumes "validate_style s = Ok ()" "f64_is_finite v" "i < length (ms_breaks s)"
  shows "in_class n v (i, ms_breaks s ! i) \<longleftrightarrow> f64_val (cb_minimum (ms_breaks s ! i)) \<le> f64_val v \<and>
     (f64_val v < f64_val (cb_maximum (ms_breaks s ! i)) \<or>
      i = n - 1 \<and> f64_val v \<le> f64_val (cb_maximum (ms_breaks s ! i)))"
  using breaks_bounds(1) [OF assms(1,3)] assms(2) by (auto simp: in_class_def f64_le_finite f64_lt_finite)

lemma in_class_unique:
  assumes "validate_style s = Ok ()" "f64_is_finite v"
    and "i < length (ms_breaks s)" "in_class (length (ms_breaks s)) v (i, ms_breaks s ! i)"
    and "j < length (ms_breaks s)" "in_class (length (ms_breaks s)) v (j, ms_breaks s ! j)"
  shows "i = j"
proof (rule intervals_disjoint [where n = "length (ms_breaks s)" and v = "f64_val v"
      and lo = "\<lambda>i. f64_val (cb_minimum (ms_breaks s ! i))" and hi = "\<lambda>i. f64_val (cb_maximum (ms_breaks s ! i))"])
  note finite = in_class_finite [OF assms(1,2)]
  show "f64_val (cb_minimum (ms_breaks s ! i)) \<le> f64_val v"
    "f64_val v < f64_val (cb_maximum (ms_breaks s ! i)) \<or>
      i = length (ms_breaks s) - 1 \<and> f64_val v \<le> f64_val (cb_maximum (ms_breaks s ! i))"
    using finite [OF assms(3)] assms(4) by blast+
  show "f64_val (cb_minimum (ms_breaks s ! j)) \<le> f64_val v"
    "f64_val v < f64_val (cb_maximum (ms_breaks s ! j)) \<or>
      j = length (ms_breaks s) - 1 \<and> f64_val v \<le> f64_val (cb_maximum (ms_breaks s ! j))"
    using finite [OF assms(5)] assms(6) by blast+
qed (use breaks_bounds [OF assms(1)] assms(3,5) in simp_all)

lemma in_class_ex:
  assumes "validate_style s = Ok ()" "f64_is_finite v"
  shows "(\<exists>i < length (ms_breaks s). in_class (length (ms_breaks s)) v (i, ms_breaks s ! i)) \<longleftrightarrow>
     f64_le (cb_minimum (hd (ms_breaks s))) v \<and> f64_le v (cb_maximum (last (ms_breaks s)))"
    (is "?L \<longleftrightarrow> ?R")
proof -
  let ?n = "length (ms_breaks s)"
  let ?lo = "\<lambda>i. f64_val (cb_minimum (ms_breaks s ! i))" and ?hi = "\<lambda>i. f64_val (cb_maximum (ms_breaks s ! i))"
  have ne: "ms_breaks s \<noteq> []" using assms(1) by (simp add: validate_style_Ok_iff)
  then have n: "0 < ?n" "?n - 1 < ?n" by auto
  note lt = breaks_bounds(1) [OF assms(1)] and eq = breaks_bounds(2) [OF assms(1)]
  note ord = intervals_ordered [where n = ?n and lo = ?lo and hi = ?hi, OF conjunct2 [OF conjunct2 [OF lt]] eq]
  have R: "?R \<longleftrightarrow> ?lo 0 \<le> f64_val v \<and> f64_val v \<le> ?hi (?n - 1)"
    using lt [OF n(1)] lt [OF n(2)] assms(2) ne by (simp add: hd_conv_nth last_conv_nth f64_le_finite)
  show ?thesis
  proof
    assume ?L
    then obtain i where i: "i < ?n" "?lo i \<le> f64_val v" "f64_val v \<le> ?hi i"
      using in_class_finite [OF assms] by force
    have "?lo 0 \<le> ?lo i" using ord [of 0 i] lt [OF n(1)] i(1) by (cases "i = 0") auto
    moreover have "?hi i \<le> ?hi (?n - 1)" using ord [of i "?n - 1"] lt [OF n(2)] i(1) n(2)
      by (cases "i < ?n - 1") (auto, metis Suc_pred less_antisym n(1) order_refl)
    ultimately show ?R using R i by auto
  next
    assume ?R
    then show ?L using intervals_cover [where n = ?n and lo = ?lo and hi = ?hi and v = "f64_val v", OF eq n(1)] R
      by (auto simp: in_class_finite [OF assms])
  qed
qed

lemma find_enumerate0:
  "find p (enumerate0 xs) = Some (i, x) \<Longrightarrow> i < length xs \<and> x = xs ! i \<and> p (i, xs ! i)"
  "find p (enumerate0 xs) = None \<Longrightarrow> i < length xs \<Longrightarrow> \<not> p (i, xs ! i)"
  using find_Some_set [of p "enumerate0 xs" "(i, x)"] find_None_not [of p "enumerate0 xs" "(i, xs ! i)"]
  by (auto simp: set_enumerate0)

text \<open>A validated style classifies every finite value between its first lower bound and its
  last upper bound by exactly one class, and \<open>fill_for\<close> returns the fill of that class; a finite
  value outside that range is rejected.\<close>

theorem style_classifies:
  assumes "validate_style s = Ok ()" "f64_is_finite v"
  shows "if f64_le (cb_minimum (hd (ms_breaks s))) v \<and> f64_le v (cb_maximum (last (ms_breaks s)))
    then \<exists>!i. i < length (ms_breaks s) \<and> in_class (length (ms_breaks s)) v (i, ms_breaks s ! i) \<and>
           fill_for s v = Ok (cb_fill (ms_breaks s ! i))
    else fill_for s v = Err (StyleFeature (OutsideBreaks v))"
proof (cases "find (in_class (length (ms_breaks s)) v) (enumerate0 (ms_breaks s))")
  case None
  then show ?thesis
    using in_class_ex [OF assms] find_enumerate0(2) [OF None] assms(2) by (auto simp: fill_for_def ok_or_def)
next
  case (Some ic)
  then obtain i c where ic: "i < length (ms_breaks s)" "in_class (length (ms_breaks s)) v (i, ms_breaks s ! i)"
      "ic = (i, ms_breaks s ! i)"
    using find_enumerate0(1) by (metis surj_pair)
  then have "fill_for s v = Ok (cb_fill (ms_breaks s ! i))"
    using Some assms(2) by (simp add: fill_for_def ok_or_def)
  then have "\<exists>!i. i < length (ms_breaks s) \<and> in_class (length (ms_breaks s)) v (i, ms_breaks s ! i) \<and>
      fill_for s v = Ok (cb_fill (ms_breaks s ! i))"
    using ic in_class_unique [OF assms] by blast
  then show ?thesis using ic in_class_ex [OF assms] by auto
qed

definition sample_style :: evidence_map_style where
  "sample_style = \<lparr>ms_id = 7, ms_layer_id = 3, ms_field = ''density'', ms_value_unit = ''people/km2'',
     ms_classification = Manual,
     ms_breaks = [\<lparr>cb_minimum = Fin 0, cb_maximum = Fin 10, cb_fill = ''#00ff00'', cb_label = ''low''\<rparr>,
                  \<lparr>cb_minimum = Fin 10, cb_maximum = Fin 20, cb_fill = ''#ff0000'', cb_label = ''high''\<rparr>],
     ms_legend = \<lparr>ls_title = ''Density'', ls_unit = ''people/km2'', ls_x = 8, ls_y = 8\<rparr>, ms_labels = None\<rparr>"

lemma sample_style_valid: "validate_style sample_style = Ok ()"
proof -
  have *: "\<not> blank ''density''" "\<not> blank ''people/km2''" "\<not> blank ''Density''" "\<not> blank ''low''" "\<not> blank ''high''"
    "valid_hex_color ''#00ff00''" "valid_hex_color ''#ff0000''" by code_simp+
  show ?thesis unfolding validate_style_Ok_iff
    by (auto simp: sample_style_def * check_class_Ok_iff less_Suc_eq f64_le_finite)
qed

theorem style_classifies_witness:
  "\<exists>!i. i < 2 \<and> in_class 2 (Fin 10) (i, ms_breaks sample_style ! i) \<and>
     fill_for sample_style (Fin 10) = Ok (cb_fill (ms_breaks sample_style ! i))"
proof -
  have "length (ms_breaks sample_style) = 2" by (simp add: sample_style_def)
  moreover have "f64_le (cb_minimum (hd (ms_breaks sample_style))) (Fin 10) \<and>
      f64_le (Fin 10) (cb_maximum (last (ms_breaks sample_style)))"
    by (simp add: sample_style_def f64_le_finite)
  ultimately show ?thesis
    using style_classifies [OF sample_style_valid, of "Fin 10"] by simp
qed

end
