(* ===== verification/Project.thy ===== *)
theory Project
  imports Digest Edit Style
begin

text \<open>
  The semantic project state of \<open>genegis-core\<close>: \<open>layer.rs\<close>, \<open>source.rs\<close>, \<open>view.rs\<close>, \<open>workspace.rs\<close>
  and \<open>project.rs\<close>, with the serialised form that the state digest hashes. \<open>Uuid::new_v4\<close> and
  \<open>Utc::now\<close> are arguments of the constructors; the texts of UUIDs and instants belong to the
  \<open>uuid\<close> and \<open>chrono\<close> crates and are fields of \<open>host\<close>. The one \<open>f32\<close>, a layer's opacity, is the
  equal \<open>f64\<close>, as which it is serialised.
\<close>

section \<open>Data\<close>

datatype layer_kind = LkVector | LkRaster | LkTile | LkPointCloud | LkScene3d | LkTable

type_synonym bbox = "f64 \<times> f64 \<times> f64 \<times> f64"

record layer_statistics =
  st_feature_count :: "u64 option"
  st_bbox :: "bbox option"

record layer =
  ly_id :: uuid
  ly_name :: string
  ly_kind :: layer_kind
  ly_source_id :: uuid
  ly_crs :: "string option"
  ly_extent :: "bbox option"
  ly_time_extent :: "(timestamp \<times> timestamp) option"
  ly_statistics :: layer_statistics
  ly_style_id :: "uuid option"
  ly_visible :: bool
  ly_opacity :: f64

datatype source_kind = SkFile | SkDirectory | SkObjectStore | SkHttpRange | SkDatabase | SkStac
  | SkOgcApi | SkRest | SkSensorStream | SkGenerated

record data_source =
  ds_id :: uuid
  ds_name :: string
  ds_kind :: source_kind
  ds_uri :: string
  ds_format_hint :: "string option"
  ds_crs :: "string option"
  ds_license :: "string option"
  ds_source_url :: "string option"

datatype view_kind = VkMap | VkScene | VkDashboard | VkNotebook | VkReport

record map_view =
  vw_id :: uuid
  vw_name :: string
  vw_kind :: view_kind
  vw_layer_ids :: "uuid list"
  vw_crs :: "string option"
  vw_center :: "coordinate option"
  vw_zoom :: "f64 option"

record provenance_entry =
  pv_id :: uuid
  pv_timestamp :: timestamp
  pv_actor :: string
  pv_action :: string
  pv_target :: string
  pv_details :: json
  pv_agent_run_id :: "uuid option"
  pv_workflow_id :: "string option"

record workspace =
  wk_id :: uuid
  wk_name :: string
  wk_created_at :: timestamp
  wk_updated_at :: timestamp
  wk_sources :: "data_source list"
  wk_layers :: "layer list"
  wk_editable_layers :: "editable_layer list"
  wk_map_styles :: "evidence_map_style list"
  wk_views :: "map_view list"
  wk_active_view :: "uuid option"
  wk_provenance :: "provenance_entry list"

record project =
  pj_schema_version :: u32
  pj_workspace :: workspace
  pj_path :: "string option"

section \<open>Operations\<close>

definition layer_new :: "uuid \<Rightarrow> string \<Rightarrow> layer_kind \<Rightarrow> uuid \<Rightarrow> layer" where
  "layer_new ident name kind source_id =
     \<lparr>ly_id = ident, ly_name = name, ly_kind = kind, ly_source_id = source_id, ly_crs = None, ly_extent = None,
      ly_time_extent = None, ly_statistics = \<lparr>st_feature_count = None, st_bbox = None\<rparr>, ly_style_id = None,
      ly_visible = True, ly_opacity = Fin 1\<rparr>"

definition data_source_new :: "uuid \<Rightarrow> string \<Rightarrow> source_kind \<Rightarrow> string \<Rightarrow> data_source" where
  "data_source_new ident name kind uri =
     \<lparr>ds_id = ident, ds_name = name, ds_kind = kind, ds_uri = uri, ds_format_hint = None, ds_crs = None,
      ds_license = None, ds_source_url = None\<rparr>"

definition view_new :: "uuid \<Rightarrow> string \<Rightarrow> view_kind \<Rightarrow> map_view" where
  "view_new ident name kind =
     \<lparr>vw_id = ident, vw_name = name, vw_kind = kind, vw_layer_ids = [], vw_crs = None, vw_center = None,
      vw_zoom = None\<rparr>"

definition workspace_new :: "uuid \<Rightarrow> timestamp \<Rightarrow> string \<Rightarrow> workspace" where
  "workspace_new ident now name =
     \<lparr>wk_id = ident, wk_name = name, wk_created_at = now, wk_updated_at = now, wk_sources = [], wk_layers = [],
      wk_editable_layers = [], wk_map_styles = [], wk_views = [], wk_active_view = None, wk_provenance = []\<rparr>"

definition touch :: "timestamp \<Rightarrow> workspace \<Rightarrow> workspace" where
  "touch now w = w\<lparr>wk_updated_at := now\<rparr>"

definition add_source :: "timestamp \<Rightarrow> data_source \<Rightarrow> workspace \<Rightarrow> workspace" where
  "add_source now s w = touch now (w\<lparr>wk_sources := wk_sources w @ [s]\<rparr>)"

definition add_layer :: "timestamp \<Rightarrow> layer \<Rightarrow> workspace \<Rightarrow> workspace" where
  "add_layer now l w = touch now (w\<lparr>wk_layers := wk_layers w @ [l]\<rparr>)"

definition add_view :: "timestamp \<Rightarrow> map_view \<Rightarrow> workspace \<Rightarrow> workspace" where
  "add_view now v w =
     (let w = (if wk_active_view w = None then w\<lparr>wk_active_view := Some (vw_id v)\<rparr> else w)
      in touch now (w\<lparr>wk_views := wk_views w @ [v]\<rparr>))"

definition project_schema_version :: u32 where
  "project_schema_version = 1"

definition project_new :: "uuid \<Rightarrow> timestamp \<Rightarrow> string \<Rightarrow> project" where
  "project_new ident now name =
     \<lparr>pj_schema_version = project_schema_version, pj_workspace = workspace_new ident now name, pj_path = None\<rparr>"

text \<open>\<open>workspace_mut\<close>: an update of the workspace in place.\<close>

definition workspace_mut :: "(workspace \<Rightarrow> workspace) \<Rightarrow> project \<Rightarrow> project" where
  "workspace_mut f p = p\<lparr>pj_workspace := f (pj_workspace p)\<rparr>"

definition record_workflow :: "uuid \<Rightarrow> timestamp \<Rightarrow> string \<Rightarrow> string \<Rightarrow> string \<Rightarrow> string \<Rightarrow> json \<Rightarrow>
    provenance_entry list \<Rightarrow> provenance_entry list" where
  "record_workflow ident now workflow_id actor action target details entries = entries @
     [\<lparr>pv_id = ident, pv_timestamp = now, pv_actor = actor, pv_action = action, pv_target = target,
       pv_details = details, pv_agent_run_id = None, pv_workflow_id = Some workflow_id\<rparr>]"

definition record_entry :: "uuid \<Rightarrow> timestamp \<Rightarrow> string \<Rightarrow> string \<Rightarrow> string \<Rightarrow> json \<Rightarrow>
    provenance_entry list \<Rightarrow> provenance_entry list" where
  "record_entry ident now actor action target details entries = entries @
     [\<lparr>pv_id = ident, pv_timestamp = now, pv_actor = actor, pv_action = action, pv_target = target,
       pv_details = details, pv_agent_run_id = None, pv_workflow_id = None\<rparr>]"

definition record_agent_run :: "uuid \<Rightarrow> timestamp \<Rightarrow> uuid \<Rightarrow> string \<Rightarrow> string \<Rightarrow> string \<Rightarrow> json \<Rightarrow>
    provenance_entry list \<Rightarrow> provenance_entry list" where
  "record_agent_run ident now run_id workflow_id actor action details entries = entries @
     [\<lparr>pv_id = ident, pv_timestamp = now, pv_actor = actor, pv_action = action, pv_target = workflow_id,
       pv_details = details, pv_agent_run_id = Some run_id, pv_workflow_id = Some workflow_id\<rparr>]"

section \<open>Serialised form\<close>

record host =
  ho_hash :: hashing
  ho_uuid :: "uuid \<Rightarrow> string"
  ho_time :: "timestamp \<Rightarrow> string"

definition json_uuid :: "host \<Rightarrow> uuid \<Rightarrow> json" where
  "json_uuid h u = JStr (ho_uuid h u)"

definition json_time :: "host \<Rightarrow> timestamp \<Rightarrow> json" where
  "json_time h t = JStr (ho_time h t)"

definition json_bbox :: "bbox \<Rightarrow> json" where
  "json_bbox = (\<lambda>(a, b, c, d). JArr [json_f64 a, json_f64 b, json_f64 c, json_f64 d])"

definition json_coordinate :: "coordinate \<Rightarrow> json" where
  "json_coordinate = (\<lambda>(x, y). JArr [json_f64 x, json_f64 y])"

fun json_layer_kind :: "layer_kind \<Rightarrow> json" where
  "json_layer_kind LkVector = JStr ''vector''"
| "json_layer_kind LkRaster = JStr ''raster''"
| "json_layer_kind LkTile = JStr ''tile''"
| "json_layer_kind LkPointCloud = JStr ''point_cloud''"
| "json_layer_kind LkScene3d = JStr ''scene3d''"
| "json_layer_kind LkTable = JStr ''table''"

definition json_layer :: "host \<Rightarrow> layer \<Rightarrow> json" where
  "json_layer h l = jobj
     [(''id'', json_uuid h (ly_id l)), (''name'', JStr (ly_name l)), (''kind'', json_layer_kind (ly_kind l)),
      (''source_id'', json_uuid h (ly_source_id l)), (''crs'', json_opt JStr (ly_crs l)),
      (''extent'', json_opt json_bbox (ly_extent l)),
      (''time_extent'', json_opt (\<lambda>(a, b). JArr [json_time h a, json_time h b]) (ly_time_extent l)),
      (''statistics'', jobj
         [(''feature_count'', json_opt json_u64 (st_feature_count (ly_statistics l))),
          (''bbox'', json_opt json_bbox (st_bbox (ly_statistics l)))]),
      (''style_id'', json_opt (json_uuid h) (ly_style_id l)), (''visible'', JBool (ly_visible l)),
      (''opacity'', json_f64 (ly_opacity l))]"

fun json_source_kind :: "source_kind \<Rightarrow> json" where
  "json_source_kind SkFile = JStr ''file''"
| "json_source_kind SkDirectory = JStr ''directory''"
| "json_source_kind SkObjectStore = JStr ''object_store''"
| "json_source_kind SkHttpRange = JStr ''http_range''"
| "json_source_kind SkDatabase = JStr ''database''"
| "json_source_kind SkStac = JStr ''stac''"
| "json_source_kind SkOgcApi = JStr ''ogc_api''"
| "json_source_kind SkRest = JStr ''rest''"
| "json_source_kind SkSensorStream = JStr ''sensor_stream''"
| "json_source_kind SkGenerated = JStr ''generated''"

definition json_data_source :: "host \<Rightarrow> data_source \<Rightarrow> json" where
  "json_data_source h s = jobj
     [(''id'', json_uuid h (ds_id s)), (''name'', JStr (ds_name s)), (''kind'', json_source_kind (ds_kind s)),
      (''uri'', JStr (ds_uri s)), (''format_hint'', json_opt JStr (ds_format_hint s)),
      (''crs'', json_opt JStr (ds_crs s)), (''license'', json_opt JStr (ds_license s)),
      (''source_url'', json_opt JStr (ds_source_url s))]"

fun json_view_kind :: "view_kind \<Rightarrow> json" where
  "json_view_kind VkMap = JStr ''map''"
| "json_view_kind VkScene = JStr ''scene''"
| "json_view_kind VkDashboard = JStr ''dashboard''"
| "json_view_kind VkNotebook = JStr ''notebook''"
| "json_view_kind VkReport = JStr ''report''"

definition json_view :: "host \<Rightarrow> map_view \<Rightarrow> json" where
  "json_view h v = jobj
     [(''id'', json_uuid h (vw_id v)), (''name'', JStr (vw_name v)), (''kind'', json_view_kind (vw_kind v)),
      (''layer_ids'', JArr (map (json_uuid h) (vw_layer_ids v))), (''crs'', json_opt JStr (vw_crs v)),
      (''center'', json_opt json_coordinate (vw_center v)), (''zoom'', json_opt json_f64 (vw_zoom v))]"

fun json_attribute_value :: "attribute_value \<Rightarrow> json" where
  "json_attribute_value AvNull = jobj [(''type'', JStr ''null'')]"
| "json_attribute_value (AvBoolean b) = jobj [(''type'', JStr ''boolean''), (''value'', JBool b)]"
| "json_attribute_value (AvInteger i) = jobj [(''type'', JStr ''integer''), (''value'', JInt (sint i))]"
| "json_attribute_value (AvNumber x) = jobj [(''type'', JStr ''number''), (''value'', json_f64 x)]"
| "json_attribute_value (AvText s) = jobj [(''type'', JStr ''text''), (''value'', JStr s)]"

fun json_attribute_type :: "attribute_type \<Rightarrow> json" where
  "json_attribute_type AtBoolean = JStr ''boolean''"
| "json_attribute_type AtInteger = JStr ''integer''"
| "json_attribute_type AtNumber = JStr ''number''"
| "json_attribute_type AtText = JStr ''text''"

definition json_schema :: "feature_schema \<Rightarrow> json" where
  "json_schema s = jobj
     [(''primary_key'', JStr (fs_primary_key s)),
      (''fields'', JArr (map (\<lambda>f. jobj [(''name'', JStr (af_name f)),
         (''value_type'', json_attribute_type (af_value_type f)), (''nullable'', JBool (af_nullable f))])
        (fs_fields s)))]"

fun json_editable_kind :: "editable_geometry_kind \<Rightarrow> json" where
  "json_editable_kind EgPoint = JStr ''point''"
| "json_editable_kind EgLineString = JStr ''line_string''"
| "json_editable_kind EgPolygon = JStr ''polygon''"

abbreviation json_ring :: "coordinate list \<Rightarrow> json" where
  "json_ring ring \<equiv> JArr (map json_coordinate ring)"

fun json_geometry :: "feature_geometry \<Rightarrow> json" where
  "json_geometry (Point p) = jobj [(''type'', JStr ''point''), (''coordinates'', json_coordinate p)]"
| "json_geometry (LineString ps) = jobj [(''type'', JStr ''line_string''), (''coordinates'', json_ring ps)]"
| "json_geometry (Polygon rings) =
     jobj [(''type'', JStr ''polygon''), (''coordinates'', JArr (map json_ring rings))]"
| "json_geometry (MultiPolygon ps) =
     jobj [(''type'', JStr ''multi_polygon''), (''coordinates'', JArr (map (\<lambda>p. JArr (map json_ring p)) ps))]"

definition json_feature :: "editable_feature \<Rightarrow> json" where
  "json_feature f = jobj
     [(''id'', JStr (ef_id f)), (''revision'', json_u64 (ef_revision f)),
      (''geometry'', json_geometry (ef_geometry f)),
      (''attributes'', jobj (map (\<lambda>(k, v). (k, json_attribute_value v)) (ef_attributes f)))]"

definition json_editable_layer :: "host \<Rightarrow> editable_layer \<Rightarrow> json" where
  "json_editable_layer h l = jobj
     [(''layer_id'', json_uuid h (el_layer_id l)), (''crs'', json_crs (el_crs l)),
      (''coordinate_unit'', json_coordinate_unit (el_coordinate_unit l)),
      (''geometry_kind'', json_editable_kind (el_geometry_kind l)), (''schema'', json_schema (el_schema l)),
      (''revision'', json_u64 (el_revision l)),
      (''features'', jobj (map (\<lambda>(k, f). (k, json_feature f)) (el_features l)))]"

definition json_provenance :: "host \<Rightarrow> provenance_entry \<Rightarrow> json" where
  "json_provenance h e = jobj
     ([(''id'', json_uuid h (pv_id e)), (''timestamp'', json_time h (pv_timestamp e)),
       (''actor'', JStr (pv_actor e)), (''action'', JStr (pv_action e)), (''target'', JStr (pv_target e)),
       (''details'', pv_details e)] @
      skip_none ''agent_run_id'' (json_uuid h) (pv_agent_run_id e) @
      skip_none ''workflow_id'' JStr (pv_workflow_id e))"

definition json_workspace :: "host \<Rightarrow> workspace \<Rightarrow> json" where
  "json_workspace h w = jobj
     [(''id'', json_uuid h (wk_id w)), (''name'', JStr (wk_name w)),
      (''created_at'', json_time h (wk_created_at w)), (''updated_at'', json_time h (wk_updated_at w)),
      (''sources'', JArr (map (json_data_source h) (wk_sources w))),
      (''layers'', JArr (map (json_layer h) (wk_layers w))),
      (''editable_layers'', JArr (map (json_editable_layer h) (wk_editable_layers w))),
      (''map_styles'', JArr (map (json_map_style (ho_uuid h)) (wk_map_styles w))),
      (''views'', JArr (map (json_view h) (wk_views w))),
      (''active_view'', json_opt (json_uuid h) (wk_active_view w)),
      (''provenance'', jobj [(''entries'', JArr (map (json_provenance h) (wk_provenance w)))])]"

definition json_project :: "host \<Rightarrow> project \<Rightarrow> json" where
  "json_project h p = jobj
     [(''manifest'', jobj
        [(''schema_version'', json_u32 (pj_schema_version p)), (''workspace'', json_workspace h (pj_workspace p))]),
      (''path'', json_opt JStr (pj_path p))]"

section \<open>State digest\<close>

definition runtime_fields :: "string list" where
  "runtime_fields = [''created_at'', ''updated_at'', ''timestamp'', ''command_timestamp'', ''observed_at'',
     ''retrieved_at'', ''path'']"

definition canonical_state_json :: "host \<Rightarrow> project \<Rightarrow> json" where
  "canonical_state_json h p = strip_fields runtime_fields (json_project h p)"

definition state_digest :: "host \<Rightarrow> project \<Rightarrow> string" where
  "state_digest h p = digest_json (h_to_string (ho_hash h)) (h_sha256 (ho_hash h)) (canonical_state_json h p)"

text \<open>The same project with its clock readings and its location forgotten.\<close>

definition erase_entry :: "provenance_entry \<Rightarrow> provenance_entry" where
  "erase_entry e = e\<lparr>pv_timestamp := 0\<rparr>"

definition erase_project :: "project \<Rightarrow> project" where
  "erase_project p = p\<lparr>pj_path := None, pj_workspace := (pj_workspace p)\<lparr>wk_created_at := 0, wk_updated_at := 0,
     wk_provenance := map erase_entry (wk_provenance (pj_workspace p))\<rparr>\<rparr>"

lemma runtime_field [simp]:
  "''created_at'' \<in> set runtime_fields" "''updated_at'' \<in> set runtime_fields" "''timestamp'' \<in> set runtime_fields"
  "''path'' \<in> set runtime_fields"
  by (simp_all add: runtime_fields_def)

lemma semantic_field [simp]:
  "''manifest'' \<notin> set runtime_fields" "''schema_version'' \<notin> set runtime_fields" "''workspace'' \<notin> set runtime_fields"
  "''id'' \<notin> set runtime_fields" "''name'' \<notin> set runtime_fields" "''sources'' \<notin> set runtime_fields"
  "''layers'' \<notin> set runtime_fields" "''editable_layers'' \<notin> set runtime_fields"
  "''map_styles'' \<notin> set runtime_fields" "''views'' \<notin> set runtime_fields" "''active_view'' \<notin> set runtime_fields"
  "''provenance'' \<notin> set runtime_fields" "''entries'' \<notin> set runtime_fields" "''actor'' \<notin> set runtime_fields"
  "''action'' \<notin> set runtime_fields" "''target'' \<notin> set runtime_fields" "''details'' \<notin> set runtime_fields"
  "''agent_run_id'' \<notin> set runtime_fields" "''workflow_id'' \<notin> set runtime_fields" "''layer_id'' \<notin> set runtime_fields"
  "''crs'' \<notin> set runtime_fields" "''coordinate_unit'' \<notin> set runtime_fields"
  "''geometry_kind'' \<notin> set runtime_fields" "''schema'' \<notin> set runtime_fields" "''revision'' \<notin> set runtime_fields"
  "''features'' \<notin> set runtime_fields" "''geometry'' \<notin> set runtime_fields" "''attributes'' \<notin> set runtime_fields"
  by code_simp+

lemma strip_json_provenance:
  "strip_fields runtime_fields (json_provenance h (erase_entry e)) = strip_fields runtime_fields (json_provenance h e)"
  by (auto simp: json_provenance_def erase_entry_def strip_jobj skip_none_def split: option.splits)

lemma canonical_state_erase: "canonical_state_json h (erase_project p) = canonical_state_json h p"
proof -
  have *: "map (strip_fields runtime_fields \<circ> (json_provenance h \<circ> erase_entry)) es =
      map (strip_fields runtime_fields \<circ> json_provenance h) es" for es
    by (simp add: strip_json_provenance)
  show ?thesis
    by (simp add: canonical_state_json_def json_project_def json_workspace_def erase_project_def strip_jobj *)
qed

text \<open>The state digest is a function of the project without its clock readings (creation and
  update instants, provenance instants) and without its path: projects that agree once these are
  forgotten have the same digest.\<close>

theorem state_digest_ignores_runtime:
  assumes "erase_project p = erase_project q"
  shows "state_digest h p = state_digest h q"
  using canonical_state_erase [of h p] canonical_state_erase [of h q] assms by (simp add: state_digest_def)

definition sample_host :: host where
  "sample_host = \<lparr>ho_hash = identity_hashing, ho_uuid = (\<lambda>u. show_nat (unat u)),
     ho_time = (\<lambda>t. show_nat (nat t))\<rparr>"

theorem state_digest_ignores_runtime_witness:
  "state_digest sample_host (project_new 1 5 ''demo'') = state_digest sample_host (project_new 1 9 ''demo'')"
  by (rule state_digest_ignores_runtime) (simp add: erase_project_def project_new_def workspace_new_def)

text \<open>The removal of runtime fields is by name and recursive, so it also reaches the objects whose keys
  are data: features by identity, attributes by field name.\<close>

definition forget_named_data :: "editable_layer \<Rightarrow> editable_layer" where
  "forget_named_data l = l\<lparr>el_features :=
     map (\<lambda>(k, f). (k, f\<lparr>ef_attributes := filter (\<lambda>(name, _). name \<notin> set runtime_fields) (ef_attributes f)\<rparr>))
       (filter (\<lambda>(k, _). k \<notin> set runtime_fields) (el_features l))\<rparr>"

lemma strip_json_feature:
  "strip_fields runtime_fields
     (json_feature (f\<lparr>ef_attributes := filter (\<lambda>(name, _). name \<notin> set runtime_fields) (ef_attributes f)\<rparr>)) =
   strip_fields runtime_fields (json_feature f)"
  by (simp add: json_feature_def strip_jobj filter_map comp_def case_prod_unfold)

lemma strip_json_editable_layer:
  "strip_fields runtime_fields (json_editable_layer h (forget_named_data l)) =
   strip_fields runtime_fields (json_editable_layer h l)"
  by (simp add: json_editable_layer_def forget_named_data_def strip_jobj filter_map comp_def case_prod_unfold
      strip_json_feature [unfolded case_prod_unfold])

text \<open>The state digest does not see an editable feature whose identity is one of the runtime field
  names (\<open>path\<close>, \<open>timestamp\<close>, \<open>created_at\<close>, ...), nor an attribute of any feature under such a name:
  removing them from every editable layer leaves the digest as it was.\<close>

theorem state_digest_misses_named_data:
  "state_digest h (workspace_mut (\<lambda>w. w\<lparr>wk_editable_layers := map forget_named_data (wk_editable_layers w)\<rparr>) p) =
   state_digest h p"
  by (simp add: state_digest_def canonical_state_json_def json_project_def json_workspace_def workspace_mut_def
      strip_jobj comp_def strip_json_editable_layer)

end
