(* ===== verification/Command.thy ===== *)
theory Command
  imports Project
begin

text \<open>
  \<open>genegis-core/src/command.rs\<close>, the stateful dispatcher: command envelopes, the \<open>CommandBus\<close> with its
  history, cursor and snapshots, the checks that bind a mutation to a reviewed workflow graph, every
  branch of the project mutation, undo and redo. The workflow executor is an argument, as is the
  clock reading of \<open>Workspace::touch\<close>. Operations that take \<open>&mut\<close> state return it together with
  their result, on error paths too. \<open>CommandPanic\<close> stands for the panic of an \<open>expect\<close> or
  \<open>unreachable!\<close>; it is proved unreachable.
\<close>

section \<open>Data\<close>

datatype command_origin = Ui | Ai | Cli | Plugin | System

type_synonym workflow_digest = string

definition workflow_digest_new :: "string \<Rightarrow> workflow_digest" where
  "workflow_digest_new v = trim v"

record input_snapshot =
  is_name :: string
  is_source :: source_snapshot
  is_crs :: "crs option"
  is_coordinate_unit :: "coordinate_unit option"
  is_value_unit :: "string option"

definition input_snapshot_new :: "string \<Rightarrow> source_snapshot \<Rightarrow> input_snapshot" where
  "input_snapshot_new name source =
     \<lparr>is_name = name, is_source = source, is_crs = None, is_coordinate_unit = None, is_value_unit = None\<rparr>"

definition snapshot_with_crs :: "crs \<Rightarrow> input_snapshot \<Rightarrow> input_snapshot" where
  "snapshot_with_crs crs s = s\<lparr>is_coordinate_unit := Some (crs_coordinate_unit crs), is_crs := Some crs\<rparr>"

definition snapshot_with_value_unit :: "string \<Rightarrow> input_snapshot \<Rightarrow> input_snapshot" where
  "snapshot_with_value_unit unit s = s\<lparr>is_value_unit := Some unit\<rparr>"

datatype command =
    RegisterStacEndpoint string string string string "string option" "string option"
  | RemoveStacEndpoint string
  | SearchFederatedStac "string list" "bbox option" "string option" "string list" "u64 option"
  | BindStacAsset string string "string list" string string string string string
  | ReadRemoteGeoParquet string "u64 list option"
  | AddLayer string uuid
  | RemoveLayer uuid
  | SetLayerVisibility uuid bool
  | SetViewCamera uuid coordinate f64
  | InitializeEditableLayer uuid crs editable_geometry_kind feature_schema mutation_binding
  | EditFeatures uuid u64 feature_edit mutation_binding
  | SetEvidenceMapStyle evidence_map_style mutation_binding
  | RunWorkflow uuid
  | Undo
  | Redo

record command_envelope =
  ce_id :: uuid
  ce_origin :: command_origin
  ce_timestamp :: timestamp
  ce_workflow_digest :: "workflow_digest option"
  ce_source_snapshots :: "source_snapshot list"
  ce_input_snapshots :: "input_snapshot list"
  ce_command :: command

definition envelope_new :: "uuid \<Rightarrow> timestamp \<Rightarrow> command_origin \<Rightarrow> command \<Rightarrow> command_envelope" where
  "envelope_new ident now origin cmd =
     \<lparr>ce_id = ident, ce_origin = origin, ce_timestamp = now, ce_workflow_digest = None,
      ce_source_snapshots = [], ce_input_snapshots = [], ce_command = cmd\<rparr>"

definition with_workflow_digest :: "string \<Rightarrow> command_envelope \<Rightarrow> command_envelope" where
  "with_workflow_digest d e = e\<lparr>ce_workflow_digest := Some (workflow_digest_new d)\<rparr>"

definition with_source_snapshot :: "source_snapshot \<Rightarrow> command_envelope \<Rightarrow> command_envelope" where
  "with_source_snapshot s e = e\<lparr>ce_source_snapshots := ce_source_snapshots e @ [s]\<rparr>"

definition with_input_snapshot :: "input_snapshot \<Rightarrow> command_envelope \<Rightarrow> command_envelope" where
  "with_input_snapshot s e = e\<lparr>ce_input_snapshots := ce_input_snapshots e @ [s]\<rparr>"

record execution_context =
  cx_workflow_digest :: workflow_digest
  cx_command_id :: uuid
  cx_command_timestamp :: timestamp
  cx_source_snapshots :: "source_snapshot list"
  cx_input_snapshots :: "input_snapshot list"

record execution_event =
  ev_kind :: string
  ev_source_uri :: "string option"
  ev_observed_at :: timestamp
  ev_details :: json

record workflow_execution =
  we_result_digest :: string
  we_output :: json
  we_evidence :: json
  we_events :: "execution_event list"

record execution_record =
  xr_command_id :: uuid
  xr_workflow_digest :: workflow_digest
  xr_result_digest :: string
  xr_output :: json
  xr_evidence :: json
  xr_events :: "execution_event list"

datatype execution_error = Failed string

type_synonym executor = "geo_workflow \<Rightarrow> execution_context \<Rightarrow> execution_error + workflow_execution"

record command_execution =
  cr_command_id :: uuid
  cr_state_digest :: string
  cr_workflow_digest :: "workflow_digest option"
  cr_result_digest :: "string option"
  cr_output :: "json option"
  cr_evidence :: "json option"
  cr_events :: "execution_event list"
  cr_cursor :: nat

text \<open>A reason is a message or the error whose message it is; \<open>UnsupportedDebug\<close> is the \<open>Debug\<close>
  text of a command, \<open>ReasonOperation\<close> the message naming a node, its operation and the expected one.\<close>

datatype command_reason =
    ReasonText string
  | ReasonWorkflow workflow_error
  | ReasonEdit edit_error
  | ReasonStyle style_error
  | ReasonExecution execution_error
  | ReasonOperation string string string
  | UnsupportedDebug command

datatype command_error =
    TargetNotFound string
  | UnsupportedCommand command_reason
  | WorkflowNotRegistered uuid
  | WorkflowInvalid command_reason
  | ExecutorRequired
  | WorkflowExecutionFailed command_reason
  | EmptyResultDigest
  | MissingWorkflowDigest
  | WorkflowDigestMismatch string string
  | MutationWorkflowBinding command_reason
  | FeatureEditRejected command_reason
  | MapStyleRejected command_reason
  | MissingInputSnapshot string
  | InputSnapshotMismatch string
  | NothingToUndo
  | NothingToRedo
  | MissingStateSnapshot
  | UnsupportedLogSchema u32
  | MissingLogDigest
  | LogDigestMismatch string string
  | ReplayDigestMismatch string string
  | CommandIo string
  | CommandJson string
  | CommandPanic

record command_bus =
  bus_history :: "command_envelope list"
  bus_cursor :: nat
  bus_before :: "project list"
  bus_after :: "project list"
  bus_initial :: "project option"
  bus_current :: "project option"
  bus_audit_log :: "command_envelope list"
  bus_workflows :: "(uuid, geo_workflow) btmap"
  bus_executions :: "(uuid, execution_record) btmap"
  bus_expected_digest :: "string option"

section \<open>Authorisation\<close>

definition same_source_identity :: "source_snapshot \<Rightarrow> source_snapshot \<Rightarrow> bool" where
  "same_source_identity l r = (l\<lparr>src_retrieved_at := None\<rparr> = r\<lparr>src_retrieved_at := None\<rparr>)"

definition contract_sources :: "geo_workflow \<Rightarrow> source_snapshot list" where
  "contract_sources w = List.map_filter ic_source_snapshot (wf_input_contracts w)"

definition check_source_snapshot :: "geo_workflow \<Rightarrow> source_snapshot \<Rightarrow> command_error + unit" where
  "check_source_snapshot w s =
     (let known = list_ex (same_source_identity s) (contract_sources w);
          belongs_to_contract = list_ex (\<lambda>c.
            case (Option.bind (ic_source_snapshot c) src_dataset_id, src_dataset_id s) of
              (Some expected, Some observed) \<Rightarrow> expected = observed
            | _ \<Rightarrow> False) (wf_input_contracts w);
          supplemental_catalog_source = (src_dataset_id s \<noteq> None \<and> \<not> belongs_to_contract)
      in reject (\<not> known \<and> \<not> supplemental_catalog_source \<and> wf_input_contracts w \<noteq> [])
           (InputSnapshotMismatch (src_uri s)))"

definition check_input_snapshot :: "geo_workflow \<Rightarrow> input_snapshot \<Rightarrow> command_error + unit" where
  "check_input_snapshot w s =
     (case find (\<lambda>c. ic_name c = is_name s) (wf_input_contracts w) of
        None \<Rightarrow> Err (InputSnapshotMismatch (is_name s))
      | Some c \<Rightarrow>
          let matches_contract = (case ic_source_snapshot c of
                None \<Rightarrow> True | Some expected \<Rightarrow> same_source_identity (is_source s) expected)
          in reject (\<not> matches_contract) (InputSnapshotMismatch (is_name s)))"

definition check_contract_satisfied :: "command_envelope \<Rightarrow> input_contract \<Rightarrow> command_error + unit" where
  "check_contract_satisfied e c =
     (case ic_source_snapshot c of
        None \<Rightarrow> Ok ()
      | Some expected \<Rightarrow>
          let input_match = (case find (\<lambda>s. is_name s = ic_name c) (ce_input_snapshots e) of
                None \<Rightarrow> False | Some s \<Rightarrow> same_source_identity (is_source s) expected);
              source_match = list_ex (\<lambda>s. same_source_identity s expected) (ce_source_snapshots e)
          in if \<not> input_match \<and> \<not> source_match
             then Err (if ce_input_snapshots e = [] \<and> ce_source_snapshots e = []
                       then MissingInputSnapshot (ic_name c) else InputSnapshotMismatch (ic_name c))
             else Ok ())"

definition validate_input_snapshots :: "geo_workflow \<Rightarrow> command_envelope \<Rightarrow> command_error + unit" where
  "validate_input_snapshots w e =
     and_then (try_for (check_source_snapshot w) (ce_source_snapshots e)) (\<lambda>_.
     and_then (try_for (check_input_snapshot w) (ce_input_snapshots e)) (\<lambda>_.
       try_for (check_contract_satisfied e) (wf_input_contracts w)))"

definition validate_workflow_command ::
  "host \<Rightarrow> command_bus \<Rightarrow> command_envelope \<Rightarrow> command_error + workflow_digest option" where
  "validate_workflow_command h bus e =
     (case ce_command e of
        RunWorkflow workflow_id \<Rightarrow>
          and_then (ok_or (bt_get (bus_workflows bus) workflow_id) (WorkflowNotRegistered workflow_id)) (\<lambda>w.
          and_then (map_err (\<lambda>r. WorkflowInvalid (ReasonWorkflow r)) (validate_workflow (ho_hash h) w)) (\<lambda>_.
          and_then (map_err (\<lambda>r. WorkflowInvalid (ReasonWorkflow r)) (stable_digest (ho_hash h) w)) (\<lambda>d.
            let actual = workflow_digest_new d in
            and_then (ok_or (ce_workflow_digest e) MissingWorkflowDigest) (\<lambda>expected.
              if expected \<noteq> actual then Err (WorkflowDigestMismatch expected actual)
              else and_then (validate_input_snapshots w e) (\<lambda>_. Ok (Some actual))))))
      | _ \<Rightarrow> Ok None)"

fun mutation_of :: "command \<Rightarrow> (mutation_binding \<times> string) option" where
  "mutation_of (InitializeEditableLayer _ _ _ _ binding) = Some (binding, ''InitializeEditableLayer'')"
| "mutation_of (EditFeatures _ _ edit binding) = Some (binding, workflow_operation edit)"
| "mutation_of (SetEvidenceMapStyle _ binding) = Some (binding, ''SetEvidenceMapStyle'')"
| "mutation_of _ = None"

definition validate_mutation_workflow :: "host \<Rightarrow> command_bus \<Rightarrow> command_envelope \<Rightarrow> command_error + unit" where
  "validate_mutation_workflow h bus e =
     (case mutation_of (ce_command e) of
        None \<Rightarrow> Ok ()
      | Some (binding, expected_operation) \<Rightarrow>
          and_then (ok_or (bt_get (bus_workflows bus) (mb_workflow_id binding)) (MutationWorkflowBinding (ReasonText
            (''workflow '' @ ho_uuid h (mb_workflow_id binding) @ '' is not registered'')))) (\<lambda>w.
          and_then (map_err (\<lambda>r. MutationWorkflowBinding (ReasonWorkflow r)) (validate_workflow (ho_hash h) w)) (\<lambda>_.
          and_then (map_err (\<lambda>r. MutationWorkflowBinding (ReasonWorkflow r)) (stable_digest (ho_hash h) w)) (\<lambda>actual.
          and_then (ok_or (ce_workflow_digest e)
            (MutationWorkflowBinding (ReasonText ''command envelope has no workflow digest''))) (\<lambda>expected.
            if expected \<noteq> actual then Err (WorkflowDigestMismatch expected actual)
            else and_then (ok_or (find (\<lambda>s. node_id (ho_hash h) s = mb_node_id binding) (wf_steps w))
                (MutationWorkflowBinding (ReasonText (''node '' @ mb_node_id binding @ '' does not exist'')))) (\<lambda>node.
              reject (ws_operation node \<noteq> expected_operation) (MutationWorkflowBinding
                (ReasonOperation (mb_node_id binding) (ws_operation node) expected_operation))))))))"

section \<open>Mutation of the project\<close>

fun origin_actor :: "command_origin \<Rightarrow> string" where
  "origin_actor Ui = ''ui''"
| "origin_actor Ai = ''ai''"
| "origin_actor Cli = ''cli''"
| "origin_actor Plugin = ''plugin''"
| "origin_actor System = ''system''"

fun command_workflow :: "command \<Rightarrow> uuid option" where
  "command_workflow (RunWorkflow workflow_id) = Some workflow_id"
| "command_workflow (InitializeEditableLayer _ _ _ _ binding) = Some (mb_workflow_id binding)"
| "command_workflow (EditFeatures _ _ _ binding) = Some (mb_workflow_id binding)"
| "command_workflow (SetEvidenceMapStyle _ binding) = Some (mb_workflow_id binding)"
| "command_workflow _ = None"

definition command_entry :: "host \<Rightarrow> command_envelope \<Rightarrow> string \<Rightarrow> string \<Rightarrow> json \<Rightarrow> provenance_entry" where
  "command_entry h e action target details =
     \<lparr>pv_id = ce_id e, pv_timestamp = ce_timestamp e, pv_actor = origin_actor (ce_origin e), pv_action = action,
      pv_target = target, pv_details = details, pv_agent_run_id = None,
      pv_workflow_id = map_option (ho_uuid h) (command_workflow (ce_command e))\<rparr>"

definition record_command_provenance ::
  "host \<Rightarrow> command_envelope \<Rightarrow> string \<Rightarrow> string \<Rightarrow> json \<Rightarrow> project \<Rightarrow> project" where
  "record_command_provenance h e action target details =
     workspace_mut (\<lambda>w. w\<lparr>wk_provenance := wk_provenance w @ [command_entry h e action target details]\<rparr>)"

definition json_event :: "host \<Rightarrow> execution_event \<Rightarrow> json" where
  "json_event h ev = jobj
     ([(''kind'', JStr (ev_kind ev))] @ skip_none ''source_uri'' JStr (ev_source_uri ev) @
      [(''observed_at'', json_time h (ev_observed_at ev)), (''details'', ev_details ev)])"

definition json_input_snapshot :: "input_snapshot \<Rightarrow> json" where
  "json_input_snapshot s = jobj
     ([(''name'', JStr (is_name s)), (''source'', json_source (is_source s))] @
      skip_none ''crs'' json_crs (is_crs s) @ skip_none ''coordinate_unit'' json_coordinate_unit (is_coordinate_unit s) @
      skip_none ''value_unit'' JStr (is_value_unit s))"

definition json_receipt :: "edit_receipt \<Rightarrow> json" where
  "json_receipt r = jobj
     [(''before_revision'', json_u64 (er_before_revision r)), (''after_revision'', json_u64 (er_after_revision r)),
      (''changed_features'', JArr (map JStr (er_changed_features r)))]"

definition binding_fields :: "host \<Rightarrow> command_envelope \<Rightarrow> mutation_binding \<Rightarrow> (string \<times> json) list" where
  "binding_fields h e binding =
     [(''workflow_id'', json_uuid h (mb_workflow_id binding)), (''workflow_node'', JStr (mb_node_id binding)),
      (''workflow_digest'', json_opt JStr (ce_workflow_digest e))]"

text \<open>Replace the first style with the same identity, or push and sort by identity.\<close>

definition install_style :: "evidence_map_style \<Rightarrow> evidence_map_style list \<Rightarrow> evidence_map_style list" where
  "install_style style styles =
     (if list_ex (\<lambda>c. ms_id c = ms_id style) styles then update_first (\<lambda>c. ms_id c = ms_id style) (\<lambda>_. style) styles
      else sort_key ms_id (styles @ [style]))"

fun mutate :: "host \<Rightarrow> timestamp \<Rightarrow> command_envelope \<Rightarrow> workflow_digest option \<Rightarrow> workflow_execution option \<Rightarrow>
    project \<Rightarrow> command \<Rightarrow> (command_error + unit) \<times> project" where
  "mutate h now e digest execution p (AddLayer name source_id) =
     (let l = layer_new (ce_id e) name LkVector source_id in
      if list_ex (\<lambda>c. ly_id c = ly_id l) (wk_layers (pj_workspace p))
      then (Err (UnsupportedCommand (ReasonText ''AddLayer would duplicate envelope identity'')), p)
      else (Ok (), record_command_provenance h e ''add_layer'' (ho_uuid h (ce_id e))
        (jobj [(''name'', JStr name), (''source_id'', json_uuid h source_id)]) (workspace_mut (add_layer now l) p)))"
| "mutate h now e digest execution p (RemoveLayer layer_id) =
     (if \<not> list_ex (\<lambda>l. ly_id l = layer_id) (wk_layers (pj_workspace p))
      then (Err (TargetNotFound (''layer '' @ ho_uuid h layer_id)), p)
      else (Ok (), record_command_provenance h e ''remove_layer'' (ho_uuid h layer_id) (jobj [])
        (workspace_mut (\<lambda>w. w\<lparr>wk_layers := remove_first (\<lambda>l. ly_id l = layer_id) (wk_layers w),
           wk_updated_at := ce_timestamp e\<rparr>) p)))"
| "mutate h now e digest execution p (SetLayerVisibility layer_id shown) =
     (if \<not> list_ex (\<lambda>l. ly_id l = layer_id) (wk_layers (pj_workspace p))
      then (Err (TargetNotFound (''layer '' @ ho_uuid h layer_id)), p)
      else (Ok (), record_command_provenance h e ''set_layer_visibility'' (ho_uuid h layer_id)
        (jobj [(''visible'', JBool shown)])
        (workspace_mut (\<lambda>w. w\<lparr>wk_layers :=
             update_first (\<lambda>l. ly_id l = layer_id) (\<lambda>l. l\<lparr>ly_visible := shown\<rparr>) (wk_layers w),
           wk_updated_at := ce_timestamp e\<rparr>) p)))"
| "mutate h now e digest execution p (SetViewCamera view_id center zoom) =
     (if \<not> list_ex (\<lambda>v. vw_id v = view_id) (wk_views (pj_workspace p))
      then (Err (TargetNotFound (''view '' @ ho_uuid h view_id)), p)
      else (Ok (), record_command_provenance h e ''set_view_camera'' (ho_uuid h view_id)
        (jobj [(''center'', json_coordinate center), (''zoom'', json_f64 zoom)])
        (workspace_mut (\<lambda>w. w\<lparr>wk_views := update_first (\<lambda>v. vw_id v = view_id)
             (\<lambda>v. v\<lparr>vw_center := Some center, vw_zoom := Some zoom\<rparr>) (wk_views w),
           wk_updated_at := ce_timestamp e\<rparr>) p)))"
| "mutate h now e digest execution p (InitializeEditableLayer layer_id crs kind schema binding) =
     (case find (\<lambda>l. ly_id l = layer_id) (wk_layers (pj_workspace p)) of
        None \<Rightarrow> (Err (TargetNotFound (''layer '' @ ho_uuid h layer_id)), p)
      | Some l \<Rightarrow>
          if ly_kind l \<noteq> LkVector
          then (Err (FeatureEditRejected (ReasonText ''only vector layers can become editable'')), p)
          else if list_ex (\<lambda>l. el_layer_id l = layer_id) (wk_editable_layers (pj_workspace p))
          then (Err (FeatureEditRejected (ReasonText ''editable layer already initialized'')), p)
          else case editable_layer_new layer_id crs kind schema of
              Inl r \<Rightarrow> (Err (FeatureEditRejected (ReasonEdit r)), p)
            | Inr editable \<Rightarrow>
                (Ok (), record_command_provenance h e ''initialize_editable_layer'' (ho_uuid h layer_id)
                  (jobj ([(''crs'', json_crs crs),
                     (''coordinate_unit'', json_coordinate_unit (el_coordinate_unit editable)),
                     (''geometry_kind'', json_editable_kind kind), (''schema'', json_schema schema)] @
                     binding_fields h e binding))
                  (workspace_mut (\<lambda>w. w\<lparr>wk_editable_layers := wk_editable_layers w @ [editable],
                     wk_updated_at := ce_timestamp e\<rparr>) p)))"
| "mutate h now e digest execution p (EditFeatures layer_id expected edit binding) =
     (case find (\<lambda>l. el_layer_id l = layer_id) (wk_editable_layers (pj_workspace p)) of
        None \<Rightarrow> (Err (TargetNotFound (''editable layer '' @ ho_uuid h layer_id)), p)
      | Some l \<Rightarrow>
          case apply_edit l expected edit of
            Inl r \<Rightarrow> (Err (FeatureEditRejected (ReasonEdit r)), p)
          | Inr (l', receipt) \<Rightarrow>
              let p' = workspace_mut (\<lambda>w. w\<lparr>wk_editable_layers :=
                     update_first (\<lambda>l. el_layer_id l = layer_id) (\<lambda>_. l') (wk_editable_layers w),
                   wk_updated_at := ce_timestamp e\<rparr>) p;
                  edited = find (\<lambda>l. el_layer_id l = layer_id) (wk_editable_layers (pj_workspace p'))
              in (Ok (), record_command_provenance h e (workflow_operation edit) (ho_uuid h layer_id)
                   (jobj ([(''receipt'', json_receipt receipt), (''crs'', json_opt (json_crs \<circ> el_crs) edited),
                      (''coordinate_unit'', json_opt (json_coordinate_unit \<circ> el_coordinate_unit) edited)] @
                      binding_fields h e binding)) p'))"
| "mutate h now e digest execution p (SetEvidenceMapStyle style binding) =
     (case validate_style style of
        Inl r \<Rightarrow> (Err (MapStyleRejected (ReasonStyle r)), p)
      | Inr _ \<Rightarrow>
          if \<not> list_ex (\<lambda>l. ly_id l = ms_layer_id style) (wk_layers (pj_workspace p))
          then (Err (TargetNotFound (''layer '' @ ho_uuid h (ms_layer_id style))), p)
          else (Ok (), record_command_provenance h e ''set_evidence_map_style'' (ho_uuid h (ms_layer_id style))
            (jobj ([(''style'', json_map_style (ho_uuid h) style)] @ binding_fields h e binding))
            (workspace_mut (\<lambda>w. w\<lparr>wk_layers := update_first (\<lambda>l. ly_id l = ms_layer_id style)
                 (\<lambda>l. l\<lparr>ly_style_id := Some (ms_id style)\<rparr>) (wk_layers w),
               wk_map_styles := install_style style (wk_map_styles w), wk_updated_at := ce_timestamp e\<rparr>) p)))"
| "mutate h now e digest execution p (RunWorkflow workflow_id) =
     (case (digest, execution) of
        (Some d, Some x) \<Rightarrow>
          (Ok (), record_command_provenance h e ''run_workflow'' (ho_uuid h workflow_id)
            (jobj [(''workflow_digest'', JStr d), (''workflow_id'', json_uuid h workflow_id),
               (''result_digest'', JStr (we_result_digest x)), (''evidence'', we_evidence x),
               (''events'', JArr (map (json_event h) (we_events x))),
               (''source_snapshots'', JArr (map json_source (ce_source_snapshots e))),
               (''input_snapshots'', JArr (map json_input_snapshot (ce_input_snapshots e)))]) p)
      | _ \<Rightarrow> (Err CommandPanic, p))"
| "mutate h now e digest execution p cmd = (Err (UnsupportedCommand (UnsupportedDebug cmd)), p)"

definition apply_project_mutation :: "host \<Rightarrow> timestamp \<Rightarrow> command_envelope \<Rightarrow> workflow_digest option \<Rightarrow>
    workflow_execution option \<Rightarrow> project \<Rightarrow> (command_error + unit) \<times> project" where
  "apply_project_mutation h now e digest execution p = mutate h now e digest execution p (ce_command e)"

section \<open>The bus\<close>

definition bus_default :: command_bus where
  "bus_default = \<lparr>bus_history = [], bus_cursor = 0, bus_before = [], bus_after = [], bus_initial = None,
     bus_current = None, bus_audit_log = [], bus_workflows = [], bus_executions = [], bus_expected_digest = None\<rparr>"

definition bus_new :: "project \<Rightarrow> command_bus" where
  "bus_new p = bus_default\<lparr>bus_initial := Some p, bus_current := Some p\<rparr>"

definition register_workflow :: "host \<Rightarrow> geo_workflow \<Rightarrow> command_bus \<Rightarrow> (command_error + workflow_digest) \<times> command_bus" where
  "register_workflow h w bus =
     (case map_err (\<lambda>r. WorkflowInvalid (ReasonWorkflow r)) (validate_workflow (ho_hash h) w) of
        Inl r \<Rightarrow> (Err r, bus)
      | Inr _ \<Rightarrow>
          case map_err (\<lambda>r. WorkflowInvalid (ReasonWorkflow r)) (stable_digest (ho_hash h) w) of
            Inl r \<Rightarrow> (Err r, bus)
          | Inr d \<Rightarrow> (Ok (workflow_digest_new d), bus\<lparr>bus_workflows := bt_insert (wf_id w) w (bus_workflows bus)\<rparr>))"

definition push :: "command_envelope \<Rightarrow> command_bus \<Rightarrow> command_bus" where
  "push e bus =
     (let history = take (bus_cursor bus) (bus_history bus) @ [e] in
      bus\<lparr>bus_history := history, bus_before := take (bus_cursor bus) (bus_before bus),
          bus_after := take (bus_cursor bus) (bus_after bus), bus_cursor := length history,
          bus_audit_log := bus_audit_log bus @ [e]\<rparr>)"

definition list_get :: "'a list \<Rightarrow> nat \<Rightarrow> 'a option" where
  "list_get xs i = (if i < length xs then Some (xs ! i) else None)"

definition undo :: "project \<Rightarrow> command_bus \<Rightarrow> (command_error + unit) \<times> project \<times> command_bus" where
  "undo p bus =
     (if bus_cursor bus = 0 then (Err NothingToUndo, p, bus)
      else case list_get (bus_before bus) (bus_cursor bus - 1) of
          None \<Rightarrow> (Err MissingStateSnapshot, p, bus)
        | Some s \<Rightarrow> (Ok (), s, bus\<lparr>bus_cursor := bus_cursor bus - 1, bus_current := Some s\<rparr>))"

definition redo :: "project \<Rightarrow> command_bus \<Rightarrow> (command_error + unit) \<times> project \<times> command_bus" where
  "redo p bus =
     (if length (bus_history bus) \<le> bus_cursor bus then (Err NothingToRedo, p, bus)
      else case list_get (bus_after bus) (bus_cursor bus) of
          None \<Rightarrow> (Err MissingStateSnapshot, p, bus)
        | Some s \<Rightarrow> (Ok (), s, bus\<lparr>bus_cursor := bus_cursor bus + 1, bus_current := Some s\<rparr>))"

definition can_undo :: "command_bus \<Rightarrow> bool" where
  "can_undo bus \<longleftrightarrow> 0 < bus_cursor bus"

definition can_redo :: "command_bus \<Rightarrow> bool" where
  "can_redo bus \<longleftrightarrow> bus_cursor bus < length (bus_history bus)"

definition execution :: "host \<Rightarrow> command_bus \<Rightarrow> uuid \<Rightarrow> workflow_digest option \<Rightarrow> workflow_execution option \<Rightarrow>
    project \<Rightarrow> command_execution" where
  "execution h bus command_id digest x p =
     \<lparr>cr_command_id = command_id, cr_state_digest = state_digest h p, cr_workflow_digest = digest,
      cr_result_digest = map_option we_result_digest x, cr_output = map_option we_output x,
      cr_evidence = map_option we_evidence x, cr_events = (case x of None \<Rightarrow> [] | Some x \<Rightarrow> we_events x),
      cr_cursor = bus_cursor bus\<rparr>"

definition context_of :: "workflow_digest \<Rightarrow> command_envelope \<Rightarrow> execution_context" where
  "context_of d e =
     \<lparr>cx_workflow_digest = d, cx_command_id = ce_id e, cx_command_timestamp = ce_timestamp e,
      cx_source_snapshots = ce_source_snapshots e, cx_input_snapshots = ce_input_snapshots e\<rparr>"

definition run_executor :: "executor option \<Rightarrow> command_bus \<Rightarrow> command_envelope \<Rightarrow> workflow_digest option \<Rightarrow>
    command_error + workflow_execution option" where
  "run_executor executor bus e digest =
     (case digest of
        None \<Rightarrow> Ok None
      | Some d \<Rightarrow>
          and_then (ok_or executor ExecutorRequired) (\<lambda>exec.
            case ce_command e of
              RunWorkflow workflow_id \<Rightarrow>
                (case bt_get (bus_workflows bus) workflow_id of
                   None \<Rightarrow> Err CommandPanic
                 | Some w \<Rightarrow>
                     and_then (map_err (\<lambda>r. WorkflowExecutionFailed (ReasonExecution r)) (exec w (context_of d e))) (\<lambda>x.
                       if blank (we_result_digest x) then Err EmptyResultDigest else Ok (Some x)))
            | _ \<Rightarrow> Err CommandPanic))"

definition record_of :: "command_envelope \<Rightarrow> workflow_digest \<Rightarrow> workflow_execution \<Rightarrow> execution_record" where
  "record_of e d x =
     \<lparr>xr_command_id = ce_id e, xr_workflow_digest = d, xr_result_digest = we_result_digest x,
      xr_output = we_output x, xr_evidence = we_evidence x, xr_events = we_events x\<rparr>"

definition commit :: "command_envelope \<Rightarrow> workflow_digest option \<Rightarrow> workflow_execution option \<Rightarrow>
    project \<Rightarrow> project \<Rightarrow> command_bus \<Rightarrow> command_bus" where
  "commit e digest x before p bus =
     (let history = take (bus_cursor bus) (bus_history bus) @ [e] in
      bus\<lparr>bus_initial := (case bus_initial bus of None \<Rightarrow> Some before | s \<Rightarrow> s),
          bus_history := history,
          bus_before := take (bus_cursor bus) (bus_before bus) @ [before],
          bus_after := take (bus_cursor bus) (bus_after bus) @ [p],
          bus_cursor := length history, bus_current := Some p, bus_audit_log := bus_audit_log bus @ [e],
          bus_executions := (case (digest, x) of
              (Some d, Some x) \<Rightarrow> bt_insert (ce_id e) (record_of e d x) (bus_executions bus)
            | _ \<Rightarrow> bus_executions bus)\<rparr>)"

type_synonym dispatch_result = "(command_error + command_execution) \<times> project \<times> command_bus"

definition control :: "host \<Rightarrow> command_envelope \<Rightarrow> (command_error + unit) \<times> project \<times> command_bus \<Rightarrow> dispatch_result" where
  "control h e = (\<lambda>(r, p, bus). case r of
     Inl err \<Rightarrow> (Err err, p, bus)
   | Inr _ \<Rightarrow>
       let bus = bus\<lparr>bus_audit_log := bus_audit_log bus @ [e]\<rparr>
       in (Ok (execution h bus (ce_id e) None None p), p, bus))"

definition dispatch_mutation :: "host \<Rightarrow> timestamp \<Rightarrow> executor option \<Rightarrow> command_envelope \<Rightarrow> project \<Rightarrow>
    command_bus \<Rightarrow> dispatch_result" where
  "dispatch_mutation h now executor e p bus =
     (case and_then (validate_mutation_workflow h bus e) (\<lambda>_.
           and_then (validate_workflow_command h bus e) (\<lambda>digest.
             map_ok (Pair digest) (run_executor executor bus e digest))) of
        Inl err \<Rightarrow> (Err err, p, bus)
      | Inr (digest, x) \<Rightarrow>
          case apply_project_mutation h now e digest x p of
            (Inl err, p') \<Rightarrow> (Err err, p', bus)
          | (Inr _, p') \<Rightarrow>
              let bus' = commit e digest x p p' bus in (Ok (execution h bus' (ce_id e) digest x p'), p', bus'))"

definition dispatch :: "host \<Rightarrow> timestamp \<Rightarrow> executor option \<Rightarrow> command_envelope \<Rightarrow> project \<Rightarrow> command_bus \<Rightarrow>
    dispatch_result" where
  "dispatch h now executor e p bus =
     (case ce_command e of
        Undo \<Rightarrow> control h e (undo p bus)
      | Redo \<Rightarrow> control h e (redo p bus)
      | _ \<Rightarrow> dispatch_mutation h now executor e p bus)"

definition apply_command :: "host \<Rightarrow> timestamp \<Rightarrow> command_envelope \<Rightarrow> project \<Rightarrow> command_bus \<Rightarrow> dispatch_result" where
  "apply_command h now e p bus = dispatch h now None e p bus"

definition apply_with_executor ::
  "host \<Rightarrow> timestamp \<Rightarrow> executor \<Rightarrow> command_envelope \<Rightarrow> project \<Rightarrow> command_bus \<Rightarrow> dispatch_result" where
  "apply_with_executor h now executor e p bus = dispatch h now (Some executor) e p bus"

definition apply_with_workflow ::
  "host \<Rightarrow> timestamp \<Rightarrow> command_envelope \<Rightarrow> geo_workflow \<Rightarrow> project \<Rightarrow> command_bus \<Rightarrow> dispatch_result" where
  "apply_with_workflow h now e w p bus =
     (case register_workflow h w bus of
        (Inl err, bus) \<Rightarrow> (Err err, p, bus)
      | (Inr _, bus) \<Rightarrow> apply_command h now e p bus)"

definition apply_with_workflow_executor ::
  "host \<Rightarrow> timestamp \<Rightarrow> executor \<Rightarrow> command_envelope \<Rightarrow> geo_workflow \<Rightarrow> project \<Rightarrow> command_bus \<Rightarrow> dispatch_result" where
  "apply_with_workflow_executor h now executor e w p bus =
     (case register_workflow h w bus of
        (Inl err, bus) \<Rightarrow> (Err err, p, bus)
      | (Inr _, bus) \<Rightarrow> apply_with_executor h now executor e p bus)"

end
