(* ===== verification/History.thy ===== *)
theory History
  imports Prelude
begin

text \<open>
  The abstract linear undo history that the command bus (\<open>genegis-core/src/command.rs\<close>) and the workflow
  composer (\<open>genegis-workflow/src/composer.rs\<close>) both implement: past states, the present one, undone
  future states. The locale \<open>undo_history\<close> states what such a component promises; its lemmas are the
  user-visible consequences.
\<close>

section \<open>The abstract machine\<close>

record 'a zipper =
  zp_past :: "'a list"
  zp_present :: 'a
  zp_future :: "'a list"

definition z_do :: "'a \<Rightarrow> 'a zipper \<Rightarrow> 'a zipper" where
  "z_do s z = \<lparr>zp_past = zp_past z @ [zp_present z], zp_present = s, zp_future = []\<rparr>"

definition z_undo :: "'a zipper \<Rightarrow> 'a zipper option" where
  "z_undo z = (if zp_past z = [] then None
     else Some \<lparr>zp_past = butlast (zp_past z), zp_present = last (zp_past z), zp_future = zp_present z # zp_future z\<rparr>)"

definition z_redo :: "'a zipper \<Rightarrow> 'a zipper option" where
  "z_redo z = (case zp_future z of [] \<Rightarrow> None
     | s # r \<Rightarrow> Some \<lparr>zp_past = zp_past z @ [zp_present z], zp_present = s, zp_future = r\<rparr>)"

lemma z_undo_do: "z_undo (z_do s z) = Some \<lparr>zp_past = zp_past z, zp_present = zp_present z, zp_future = [s]\<rparr>"
  by (simp add: z_undo_def z_do_def)

lemma z_redo_one: "z_redo \<lparr>zp_past = zp_past z, zp_present = zp_present z, zp_future = [s]\<rparr> = Some (z_do s z)"
  by (simp add: z_redo_def z_do_def)

section \<open>The contract\<close>

locale undo_history =
  fixes abs :: "'s \<Rightarrow> 'a zipper" and inv :: "'s \<Rightarrow> bool"
    and exec :: "'c \<Rightarrow> 's \<Rightarrow> 's option" and undo1 :: "'s \<Rightarrow> 's option" and redo1 :: "'s \<Rightarrow> 's option"
  assumes inv_exec: "inv s \<Longrightarrow> exec c s = Some t \<Longrightarrow> inv t"
    and inv_undo1: "inv s \<Longrightarrow> undo1 s = Some t \<Longrightarrow> inv t"
    and inv_redo1: "inv s \<Longrightarrow> redo1 s = Some t \<Longrightarrow> inv t"
    and abs_exec: "inv s \<Longrightarrow> exec c s = Some t \<Longrightarrow> abs t = z_do (zp_present (abs t)) (abs s)"
    and abs_undo1: "inv s \<Longrightarrow> map_option abs (undo1 s) = z_undo (abs s)"
    and abs_redo1: "inv s \<Longrightarrow> map_option abs (redo1 s) = z_redo (abs s)"
begin

lemma undo_exec:
  assumes "inv s" "exec c s = Some t"
  shows "\<exists>u. undo1 t = Some u \<and> zp_present (abs u) = zp_present (abs s) \<and> zp_past (abs u) = zp_past (abs s) \<and>
    (\<exists>v. redo1 u = Some v \<and> abs v = abs t)"
proof -
  obtain n where t: "inv t" "abs t = z_do n (abs s)"
    using inv_exec abs_exec assms by blast
  obtain u where u: "undo1 t = Some u" "abs u = \<lparr>zp_past = zp_past (abs s), zp_present = zp_present (abs s),
      zp_future = [n]\<rparr>"
    using abs_undo1 [OF t(1)] by (auto simp: t(2) z_undo_do)
  obtain v where v: "redo1 u = Some v" "abs v = z_do n (abs s)"
    using abs_redo1 [OF inv_undo1 [OF t(1) u(1)]] by (auto simp: u(2) z_redo_one)
  show ?thesis using u v t(2) by simp
qed

lemma undo_available: "inv s \<Longrightarrow> undo1 s = None \<longleftrightarrow> zp_past (abs s) = []"
  using abs_undo1 [of s] by (cases "undo1 s") (auto simp: z_undo_def split: if_splits)

lemma redo_available: "inv s \<Longrightarrow> redo1 s = None \<longleftrightarrow> zp_future (abs s) = []"
  using abs_redo1 [of s] by (cases "redo1 s") (auto simp: z_redo_def split: list.splits)

lemma redo_undo: "inv s \<Longrightarrow> undo1 s = Some u \<Longrightarrow> \<exists>v. redo1 u = Some v \<and> abs v = abs s"
  using abs_undo1 [of s] abs_redo1 [OF inv_undo1, of s u]
  by (cases "redo1 u") (auto simp: z_undo_def z_redo_def split: if_splits)

end

section \<open>Handlers that return a result and a state\<close>

text \<open>The state after a call that succeeded.\<close>

definition settle :: "('e + 'a) \<times> 's \<Rightarrow> 's option" where
  "settle = (\<lambda>(r, s). if is_ok r then Some s else None)"

lemma settle_Some_iff: "settle rs = Some s \<longleftrightarrow> (\<exists>a. rs = (Ok a, s))"
  by (cases rs) (auto simp: settle_def is_ok_def split: sum.splits)

end
