(* ===== verification/Command_Bus.thy ===== *)
theory Command_Bus
  imports Command History
begin

text \<open>
  Correctness of the command dispatcher of \<open>Command.thy\<close>: failed commands change nothing, an
  accepted mutation is authorised by a registered workflow, the snapshots of the bus form a
  linear undo history (an abstract zipper is refined), every change leaves a provenance entry,
  and project invariants hold in every reachable state.
\<close>

section \<open>One mutation\<close>

lemmas mutate_splits = option.splits sum.splits prod.splits if_splits

lemma mutate_error: "mutate h now e d x p c = (Err err, p') \<Longrightarrow> p' = p"
  by (cases c) (auto simp: Let_def split: mutate_splits)

text \<open>The entry a command leaves behind identifies the command, its origin, instant and workflow.\<close>

definition entry_of :: "host \<Rightarrow> command_envelope \<Rightarrow> provenance_entry \<Rightarrow> bool" where
  "entry_of h e entry \<longleftrightarrow> pv_id entry = ce_id e \<and> pv_timestamp entry = ce_timestamp e \<and>
     pv_actor entry = origin_actor (ce_origin e) \<and>
     pv_workflow_id entry = map_option (ho_uuid h) (command_workflow (ce_command e))"

lemma entry_of_command_entry [simp]: "entry_of h e (command_entry h e a t d)"
  by (simp add: entry_of_def command_entry_def)

abbreviation provenance :: "project \<Rightarrow> provenance_entry list" where
  "provenance p \<equiv> wk_provenance (pj_workspace p)"

lemma workspace_mut_simps [simp]:
  "pj_workspace (workspace_mut f p) = f (pj_workspace p)" "pj_path (workspace_mut f p) = pj_path p"
  "pj_schema_version (workspace_mut f p) = pj_schema_version p"
  "workspace_mut f (workspace_mut g p) = workspace_mut (f \<circ> g) p"
  by (simp_all add: workspace_mut_def)

lemma add_layer_simps [simp]:
  "wk_layers (add_layer now l w) = wk_layers w @ [l]" "wk_provenance (add_layer now l w) = wk_provenance w"
  "wk_editable_layers (add_layer now l w) = wk_editable_layers w" "wk_map_styles (add_layer now l w) = wk_map_styles w"
  "wk_views (add_layer now l w) = wk_views w"
  by (simp_all add: add_layer_def touch_def)

lemma provenance_record [simp]:
  "provenance (record_command_provenance h e a t d p) = provenance p @ [command_entry h e a t d]"
  by (simp add: record_command_provenance_def)

lemma workspace_record [simp]:
  "wk_layers (pj_workspace (record_command_provenance h e a t d p)) = wk_layers (pj_workspace p)"
  "wk_editable_layers (pj_workspace (record_command_provenance h e a t d p)) = wk_editable_layers (pj_workspace p)"
  "wk_map_styles (pj_workspace (record_command_provenance h e a t d p)) = wk_map_styles (pj_workspace p)"
  "wk_views (pj_workspace (record_command_provenance h e a t d p)) = wk_views (pj_workspace p)"
  by (simp_all add: record_command_provenance_def)

lemma mutate_provenance:
  "mutate h now e d x p (ce_command e) = (Ok u, p') \<Longrightarrow> \<exists>entry. provenance p' = provenance p @ [entry] \<and> entry_of h e entry"
  by (cases "ce_command e") (auto simp: Let_def split: mutate_splits)

lemma mutate_no_panic:
  assumes "mutate h now e d x p c = (Err err, p')" "\<And>w. c = RunWorkflow w \<Longrightarrow> d \<noteq> None \<and> x \<noteq> None"
  shows "err \<noteq> CommandPanic"
  using assms by (cases c) (auto simp: Let_def split: mutate_splits)

section \<open>Authorisation\<close>

lemma run_executor_None [simp]: "run_executor ex bus e None = Ok None"
  by (simp add: run_executor_def)

lemma run_executor_Some:
  "run_executor ex bus e (Some d) = Ok x \<Longrightarrow> \<exists>f w x' i. ex = Some f \<and> ce_command e = RunWorkflow i \<and>
     bt_get (bus_workflows bus) i = Some w \<and> f w (context_of d e) = Ok x' \<and> \<not> blank (we_result_digest x') \<and> x = Some x'"
  by (cases "ce_command e") (auto simp: run_executor_def result_simps split: option.splits if_splits)

lemma validate_workflow_command_cases:
  "validate_workflow_command h bus e = Ok d \<Longrightarrow>
     (case ce_command e of
        RunWorkflow i \<Rightarrow> \<exists>w. bt_get (bus_workflows bus) i = Some w \<and>
          d = Some (workflow_digest_new (stable_digest_unchecked (ho_hash h) w)) \<and>
          validate_workflow (ho_hash h) w = Ok () \<and> ce_workflow_digest e = d \<and> validate_input_snapshots w e = Ok ()
      | _ \<Rightarrow> d = None)"
  by (auto simp: validate_workflow_command_def result_simps Let_def stable_digest_def split: command.splits if_splits)

lemma validate_mutation_workflow_cases:
  "validate_mutation_workflow h bus e = Ok u \<Longrightarrow> mutation_of (ce_command e) = Some (b, op) \<Longrightarrow>
     \<exists>w node. bt_get (bus_workflows bus) (mb_workflow_id b) = Some w \<and> validate_workflow (ho_hash h) w = Ok () \<and>
       ce_workflow_digest e = Some (stable_digest_unchecked (ho_hash h) w) \<and> node \<in> set (wf_steps w) \<and>
       node_id (ho_hash h) node = mb_node_id b \<and> ws_operation node = op"
  by (auto simp: validate_mutation_workflow_def result_simps stable_digest_def split: if_splits dest!: find_Some_set)

section \<open>Dispatch\<close>

text \<open>The three outcomes of a dispatch: an error that changes nothing, a control event, a commit.\<close>

definition controls :: "command \<Rightarrow> bool" where
  "controls c \<longleftrightarrow> c = Undo \<or> c = Redo"

lemma dispatch_cases:
  "dispatch h now ex e p bus = (if ce_command e = Undo then control h e (undo p bus)
     else if ce_command e = Redo then control h e (redo p bus) else dispatch_mutation h now ex e p bus)"
  by (simp add: dispatch_def split: command.splits)

lemma undo_error: "undo p bus = (Err err, p', bus') \<Longrightarrow> p' = p \<and> bus' = bus"
  by (auto simp: undo_def split: if_splits option.splits)

lemma redo_error: "redo p bus = (Err err, p', bus') \<Longrightarrow> p' = p \<and> bus' = bus"
  by (auto simp: redo_def split: if_splits option.splits)

lemma control_error: "control h e r = (Err err, p', bus') \<Longrightarrow> r = (Err err, p', bus')"
  by (auto simp: control_def Let_def split: prod.splits sum.splits)

lemma control_Ok:
  "control h e r = (Ok x, p', bus') \<Longrightarrow> \<exists>bus1. r = (Ok (), p', bus1) \<and>
     bus' = bus1\<lparr>bus_audit_log := bus_audit_log bus1 @ [e]\<rparr>"
  by (auto simp: control_def Let_def split: prod.splits sum.splits)

lemma dispatch_mutation_error:
  "dispatch_mutation h now ex e p bus = (Err err, p', bus') \<Longrightarrow> p' = p \<and> bus' = bus"
  by (auto simp: dispatch_mutation_def apply_project_mutation_def Let_def split: sum.splits prod.splits dest: mutate_error)

text \<open>What an accepted mutation was checked against.\<close>

definition accepted :: "host \<Rightarrow> timestamp \<Rightarrow> executor option \<Rightarrow> command_envelope \<Rightarrow> project \<Rightarrow> command_bus \<Rightarrow>
    workflow_digest option \<Rightarrow> workflow_execution option \<Rightarrow> project \<Rightarrow> bool" where
  "accepted h now ex e p bus d x p' \<longleftrightarrow>
     validate_mutation_workflow h bus e = Ok () \<and> validate_workflow_command h bus e = Ok d \<and>
     run_executor ex bus e d = Ok x \<and> mutate h now e d x p (ce_command e) = (Ok (), p')"

lemma dispatch_mutation_Ok_iff:
  "dispatch_mutation h now ex e p bus = (Ok r, p', bus') \<longleftrightarrow>
     (\<exists>d x. accepted h now ex e p bus d x p' \<and> bus' = commit e d x p p' bus \<and> r = execution h bus' (ce_id e) d x p')"
  by (auto simp: dispatch_mutation_def apply_project_mutation_def accepted_def Let_def result_simps
      split: sum.splits prod.splits)

lemma dispatch_mutation_accepted:
  "accepted h now ex e p bus d x p' \<Longrightarrow> dispatch_mutation h now ex e p bus =
     (Ok (execution h (commit e d x p p' bus) (ce_id e) d x p'), p', commit e d x p p' bus)"
  by (simp add: dispatch_mutation_def apply_project_mutation_def accepted_def Let_def)

lemma dispatch_error_same: "dispatch h now ex e p bus = (Err err, p', bus') \<Longrightarrow> p' = p \<and> bus' = bus"
  by (auto simp: dispatch_cases dest: control_error undo_error redo_error dispatch_mutation_error split: if_splits)

lemma accepted_not_control: "accepted h now ex e p bus d x p' \<Longrightarrow> \<not> controls (ce_command e)"
  by (auto simp: accepted_def controls_def)

lemma commit_simps [simp]:
  "bus_history (commit e d x p p' bus) = take (bus_cursor bus) (bus_history bus) @ [e]"
  "bus_before (commit e d x p p' bus) = take (bus_cursor bus) (bus_before bus) @ [p]"
  "bus_after (commit e d x p p' bus) = take (bus_cursor bus) (bus_after bus) @ [p']"
  "bus_cursor (commit e d x p p' bus) = Suc (min (length (bus_history bus)) (bus_cursor bus))"
  "bus_initial (commit e d x p p' bus) = (case bus_initial bus of None \<Rightarrow> Some p | s \<Rightarrow> s)"
  "bus_current (commit e d x p p' bus) = Some p'"
  "bus_audit_log (commit e d x p p' bus) = bus_audit_log bus @ [e]"
  "bus_workflows (commit e d x p p' bus) = bus_workflows bus"
  "bus_expected_digest (commit e d x p p' bus) = bus_expected_digest bus"
  by (simp_all add: commit_def Let_def)

text \<open>C8: A command that fails changes nothing: the project and the whole bus (history, cursor,
  snapshots, audit log, registered workflows, recorded executions) are the ones it started from.\<close>

theorem dispatch_error_unchanged:
  assumes "dispatch h now ex e p bus = (Err err, p', bus')"
  shows "p' = p \<and> bus' = bus"
  using dispatch_error_same [OF assms] .

theorem dispatch_error_unchanged_witness:
  "dispatch sample_host 5 None (envelope_new 1 5 Ui Undo) (project_new 1 5 ''demo'') (bus_new (project_new 1 5 ''demo'')) =
     (Err NothingToUndo, project_new 1 5 ''demo'', bus_new (project_new 1 5 ''demo'')) \<and>
   project_new 1 5 ''demo'' = project_new 1 5 ''demo'' \<and> bus_new (project_new 1 5 ''demo'') = bus_new (project_new 1 5 ''demo'')"
proof -
  have "dispatch sample_host 5 None (envelope_new 1 5 Ui Undo) (project_new 1 5 ''demo'') (bus_new (project_new 1 5 ''demo'')) =
      (Err NothingToUndo, project_new 1 5 ''demo'', bus_new (project_new 1 5 ''demo''))"
    by (simp add: dispatch_cases envelope_new_def control_def undo_def bus_new_def bus_default_def)
  from this dispatch_error_unchanged [OF this] show ?thesis by blast
qed

section \<open>Sessions\<close>

text \<open>The states a client reaches from a fresh bus over \<open>p0\<close> by registering workflows and dispatching
  commands on the project the bus returned, with any executors and clock readings.\<close>

inductive session :: "host \<Rightarrow> project \<Rightarrow> project \<Rightarrow> command_bus \<Rightarrow> bool" for h p0 where
  session_new: "session h p0 p0 (bus_new p0)"
| session_register: "session h p0 p bus \<Longrightarrow> register_workflow h w bus = (r, bus') \<Longrightarrow> session h p0 p bus'"
| session_dispatch: "session h p0 p bus \<Longrightarrow> dispatch h now ex e p bus = (r, p', bus') \<Longrightarrow> session h p0 p' bus'"

text \<open>The states along the active branch, the initial one first.\<close>

definition timeline :: "project \<Rightarrow> command_bus \<Rightarrow> project list" where
  "timeline p0 bus = p0 # bus_after bus"

definition snapshots_ok :: "project \<Rightarrow> project \<Rightarrow> command_bus \<Rightarrow> bool" where
  "snapshots_ok p0 p bus \<longleftrightarrow>
     length (bus_after bus) = length (bus_history bus) \<and> bus_cursor bus \<le> length (bus_history bus) \<and>
     bus_before bus = butlast (timeline p0 bus) \<and> p = timeline p0 bus ! bus_cursor bus \<and>
     bus_initial bus = Some p0 \<and> bus_current bus = Some p"

lemma take_butlast_snoc: "n < length xs \<Longrightarrow> take n (butlast xs) @ [xs ! n] = take (Suc n) xs"
  by (metis length_butlast less_Suc_eq_le nat_less_le take_Suc_conv_app_nth take_butlast Suc_pred length_greater_0_conv
      gr_implies_not0 not_less_eq)

lemma snapshots_new: "snapshots_ok p0 p0 (bus_new p0)"
  by (simp add: snapshots_ok_def timeline_def bus_new_def bus_default_def)

lemma snapshots_register:
  "register_workflow h w bus = (r, bus') \<Longrightarrow> snapshots_ok p0 p bus' \<longleftrightarrow> snapshots_ok p0 p bus"
  by (auto simp: register_workflow_def snapshots_ok_def timeline_def split: sum.splits)

lemma timeline_commit:
  "bus_cursor bus \<le> length (bus_after bus) \<Longrightarrow>
     timeline p0 (commit e d x p p' bus) = take (Suc (bus_cursor bus)) (timeline p0 bus) @ [p']"
  by (simp add: timeline_def)

lemma snapshots_commit:
  assumes "snapshots_ok p0 p bus"
  shows "snapshots_ok p0 p' (commit e d x p p' bus)"
proof -
  let ?t = "timeline p0 bus" and ?c = "bus_cursor bus"
  have len: "length ?t = Suc (length (bus_history bus))" and c: "?c \<le> length (bus_history bus)"
    using assms by (simp_all add: snapshots_ok_def timeline_def)
  have "take ?c (bus_before bus) @ [p] = take (Suc ?c) ?t"
    using assms len c take_butlast_snoc [of ?c ?t] by (simp add: snapshots_ok_def)
  then show ?thesis
    using assms len c by (auto simp: snapshots_ok_def timeline_commit butlast_append nth_append min_def)
qed

section \<open>The bus as an undo history\<close>

definition bus_zipper :: "project \<times> command_bus \<Rightarrow> project zipper" where
  "bus_zipper = (\<lambda>(p, bus). \<lparr>zp_past = take (bus_cursor bus) (bus_before bus), zp_present = p,
     zp_future = drop (bus_cursor bus) (bus_after bus)\<rparr>)"

definition aligned :: "project \<times> command_bus \<Rightarrow> bool" where
  "aligned = (\<lambda>(p, bus). \<exists>p0. snapshots_ok p0 p bus)"

definition exec_step :: "host \<Rightarrow> timestamp \<times> executor option \<times> command_envelope \<Rightarrow> project \<times> command_bus \<Rightarrow>
    (project \<times> command_bus) option" where
  "exec_step h = (\<lambda>(now, ex, e) (p, bus). settle (dispatch_mutation h now ex e p bus))"

definition undo_step :: "project \<times> command_bus \<Rightarrow> (project \<times> command_bus) option" where
  "undo_step = (\<lambda>(p, bus). settle (undo p bus))"

definition redo_step :: "project \<times> command_bus \<Rightarrow> (project \<times> command_bus) option" where
  "redo_step = (\<lambda>(p, bus). settle (redo p bus))"

lemma exec_step_Some_iff:
  "exec_step h (now, ex, e) (p, bus) = Some (p', bus') \<longleftrightarrow>
     (\<exists>d x. accepted h now ex e p bus d x p' \<and> bus' = commit e d x p p' bus)"
  by (auto simp: exec_step_def settle_Some_iff dispatch_mutation_Ok_iff)

lemma snapshots_before:
  assumes "snapshots_ok p0 p bus" "i < length (bus_history bus)"
  shows "i < length (bus_before bus)" "bus_before bus ! i = timeline p0 bus ! i"
  using assms by (simp_all add: snapshots_ok_def timeline_def nth_butlast del: butlast.simps)

lemma undo_snapshots:
  assumes "snapshots_ok p0 p bus" "0 < bus_cursor bus"
  shows "undo p bus = (Ok (), bus_before bus ! (bus_cursor bus - 1),
    bus\<lparr>bus_cursor := bus_cursor bus - 1, bus_current := Some (bus_before bus ! (bus_cursor bus - 1))\<rparr>)"
  using assms snapshots_before(1) [OF assms(1), of "bus_cursor bus - 1"]
  by (auto simp: undo_def list_get_def snapshots_ok_def)

lemma redo_snapshots:
  assumes "snapshots_ok p0 p bus" "bus_cursor bus < length (bus_history bus)"
  shows "redo p bus = (Ok (), bus_after bus ! bus_cursor bus,
    bus\<lparr>bus_cursor := bus_cursor bus + 1, bus_current := Some (bus_after bus ! bus_cursor bus)\<rparr>)"
  using assms by (auto simp: redo_def list_get_def snapshots_ok_def)

lemma snapshots_undo:
  assumes "snapshots_ok p0 p bus" "undo p bus = (Ok u, p', bus')"
  shows "snapshots_ok p0 p' bus'"
proof -
  have c: "0 < bus_cursor bus" using assms(2) by (auto simp: undo_def split: if_splits)
  have "bus_cursor bus - 1 < length (bus_history bus)" using assms(1) c by (auto simp: snapshots_ok_def)
  from snapshots_before [OF assms(1) this] undo_snapshots [OF assms(1) c] assms show ?thesis
    by (auto simp: snapshots_ok_def timeline_def)
qed

lemma snapshots_redo:
  assumes "snapshots_ok p0 p bus" "redo p bus = (Ok u, p', bus')"
  shows "snapshots_ok p0 p' bus'"
proof -
  have c: "bus_cursor bus < length (bus_history bus)" using assms(2) by (auto simp: redo_def split: if_splits)
  from redo_snapshots [OF assms(1) c] assms c show ?thesis
    by (auto simp: snapshots_ok_def timeline_def)
qed

lemma zipper_undo:
  assumes "snapshots_ok p0 p bus"
  shows "map_option bus_zipper (undo_step (p, bus)) = z_undo (bus_zipper (p, bus))"
proof (cases "bus_cursor bus = 0")
  case True
  then show ?thesis by (simp add: undo_step_def settle_def undo_def z_undo_def bus_zipper_def)
next
  case False
  let ?c = "bus_cursor bus"
  have c: "?c - 1 < length (bus_before bus)" "?c \<le> length (bus_before bus)" "?c \<le> length (bus_after bus)"
    using assms False by (auto simp: snapshots_ok_def timeline_def simp del: butlast.simps)
  have "p = bus_after bus ! (?c - 1)" using assms False by (simp add: snapshots_ok_def timeline_def)
  then have "p # drop ?c (bus_after bus) = drop (?c - 1) (bus_after bus)"
    using c(3) False Cons_nth_drop_Suc [of "?c - 1" "bus_after bus"] by simp
  moreover have "take ?c (bus_before bus) = take (?c - 1) (bus_before bus) @ [bus_before bus ! (?c - 1)]"
    using c False take_Suc_conv_app_nth [of "?c - 1" "bus_before bus"] by simp
  ultimately show ?thesis
    using False undo_snapshots [OF assms] by (simp add: undo_step_def settle_def z_undo_def bus_zipper_def)
qed

lemma zipper_redo:
  assumes "snapshots_ok p0 p bus"
  shows "map_option bus_zipper (redo_step (p, bus)) = z_redo (bus_zipper (p, bus))"
proof (cases "bus_cursor bus < length (bus_history bus)")
  case False
  then show ?thesis using assms
    by (simp add: redo_step_def settle_def redo_def z_redo_def bus_zipper_def snapshots_ok_def)
next
  case True
  let ?c = "bus_cursor bus"
  have "take (Suc ?c) (bus_before bus) = take ?c (bus_before bus) @ [p]"
    using snapshots_before [OF assms True] assms by (simp add: take_Suc_conv_app_nth snapshots_ok_def)
  moreover have "drop ?c (bus_after bus) = bus_after bus ! ?c # drop (Suc ?c) (bus_after bus)"
    using assms True by (simp add: Cons_nth_drop_Suc snapshots_ok_def)
  ultimately show ?thesis
    using True redo_snapshots [OF assms] by (simp add: redo_step_def settle_def z_redo_def bus_zipper_def)
qed

lemma zipper_commit:
  assumes "snapshots_ok p0 p bus"
  shows "bus_zipper (p', commit e d x p p' bus) = z_do p' (bus_zipper (p, bus))"
proof -
  have c: "bus_cursor bus \<le> length (bus_before bus)" "bus_cursor bus \<le> length (bus_history bus)"
     "length (bus_after bus) = length (bus_history bus)"
    using assms by (auto simp: snapshots_ok_def timeline_def)
  then show ?thesis by (simp add: bus_zipper_def z_do_def min_def)
qed

interpretation cb: undo_history bus_zipper aligned "exec_step h" undo_step redo_step for h
proof
  fix s t :: "project \<times> command_bus" and c :: "timestamp \<times> executor option \<times> command_envelope"
  obtain p bus p' bus' where st: "s = (p, bus)" "t = (p', bus')" by (cases s, cases t)
  obtain now ex e where c: "c = (now, ex, e)" by (cases c)
  assume "aligned s"
  then obtain p0 where ok: "snapshots_ok p0 p bus" by (auto simp: aligned_def st)
  show "aligned t" if "exec_step h c s = Some t"
    using that snapshots_commit [OF ok] by (simp add: aligned_def st c exec_step_Some_iff) blast
  show "aligned t" if "undo_step s = Some t"
    using that snapshots_undo [OF ok] by (auto simp: aligned_def st undo_step_def settle_Some_iff)
  show "aligned t" if "redo_step s = Some t"
    using that snapshots_redo [OF ok] by (auto simp: aligned_def st redo_step_def settle_Some_iff)
  show "bus_zipper t = z_do (zp_present (bus_zipper t)) (bus_zipper s)" if "exec_step h c s = Some t"
    using that zipper_commit [OF ok] by (auto simp: st c exec_step_Some_iff z_do_def)
  show "map_option bus_zipper (undo_step s) = z_undo (bus_zipper s)"
    using zipper_undo [OF ok] by (simp add: st)
  show "map_option bus_zipper (redo_step s) = z_redo (bus_zipper s)"
    using zipper_redo [OF ok] by (simp add: st)
qed

lemma dispatch_Ok_cases:
  assumes "dispatch h now ex e p bus = (Ok r, p', bus')"
  obtains (mutation) d x where "\<not> controls (ce_command e)" "accepted h now ex e p bus d x p'"
      "bus' = commit e d x p p' bus" "exec_step h (now, ex, e) (p, bus) = Some (p', bus')"
  | (undone) bus1 where "ce_command e = Undo" "undo p bus = (Ok (), p', bus1)"
      "bus' = bus1\<lparr>bus_audit_log := bus_audit_log bus1 @ [e]\<rparr>"
  | (redone) bus1 where "ce_command e = Redo" "redo p bus = (Ok (), p', bus1)"
      "bus' = bus1\<lparr>bus_audit_log := bus_audit_log bus1 @ [e]\<rparr>"
proof -
  consider "ce_command e = Undo" | "ce_command e = Redo" | "\<not> controls (ce_command e)"
    by (auto simp: controls_def)
  then show ?thesis
  proof cases
    case 3
    then have "dispatch_mutation h now ex e p bus = (Ok r, p', bus')"
      using assms by (simp add: dispatch_cases controls_def)
    then show ?thesis using mutation 3 by (auto simp: dispatch_mutation_Ok_iff exec_step_Some_iff)
  qed (use assms undone redone in \<open>auto simp: dispatch_cases dest!: control_Ok\<close>)
qed

lemma snapshots_audit [simp]: "snapshots_ok p0 p (bus\<lparr>bus_audit_log := l\<rparr>) \<longleftrightarrow> snapshots_ok p0 p bus"
  by (simp add: snapshots_ok_def timeline_def)

lemma zipper_audit [simp]: "bus_zipper (p, bus\<lparr>bus_audit_log := l\<rparr>) = bus_zipper (p, bus)"
  by (simp add: bus_zipper_def)

lemma snapshots_dispatch:
  assumes "snapshots_ok p0 p bus" "dispatch h now ex e p bus = (r, p', bus')"
  shows "snapshots_ok p0 p' bus'"
proof (cases r)
  case (Inl err)
  then show ?thesis using assms dispatch_error_same by blast
next
  case (Inr a)
  with assms(2) have "dispatch h now ex e p bus = (Ok a, p', bus')" by simp
  then show ?thesis
    by (cases rule: dispatch_Ok_cases)
      (use assms(1) in \<open>auto intro: snapshots_commit snapshots_undo snapshots_redo\<close>)
qed

lemma session_snapshots: "session h p0 p bus \<Longrightarrow> snapshots_ok p0 p bus"
  by (induction rule: session.induct) (auto simp: snapshots_new snapshots_register intro: snapshots_dispatch)

lemma session_aligned: "session h p0 p bus \<Longrightarrow> aligned (p, bus)"
  using session_snapshots by (simp add: aligned_def) blast

lemma zipper_control:
  "control h e s = (r, p', bus') \<Longrightarrow>
     (if is_ok r then Some (bus_zipper (p', bus')) else None) = map_option bus_zipper (settle s)"
  by (cases s) (auto simp: control_def settle_def Let_def split: sum.splits)

subsection \<open>Properties of sessions\<close>

text \<open>C3: In every session the bus implements a linear undo history: with the states before the cursor
  as the past, the project as the present and the states after the cursor as the future, an accepted
  mutation appends to the past and drops the future, an accepted undo and redo are the moves of the
  abstract machine, and they are refused exactly when that machine cannot move.\<close>

theorem session_refines_history:
  assumes "session h p0 p bus" and "dispatch h now ex e p bus = (r, p', bus')"
  shows "case ce_command e of
      Undo \<Rightarrow> (if is_ok r then Some (bus_zipper (p', bus')) else None) = z_undo (bus_zipper (p, bus))
    | Redo \<Rightarrow> (if is_ok r then Some (bus_zipper (p', bus')) else None) = z_redo (bus_zipper (p, bus))
    | _ \<Rightarrow> bus_zipper (p', bus') = (if is_ok r then z_do p' (bus_zipper (p, bus)) else bus_zipper (p, bus))"
proof -
  note ok = session_aligned [OF assms(1)]
  have undo: "map_option bus_zipper (settle (undo p bus)) = z_undo (bus_zipper (p, bus))"
    using cb.abs_undo1 [OF ok] by (simp add: undo_step_def)
  have redo: "map_option bus_zipper (settle (redo p bus)) = z_redo (bus_zipper (p, bus))"
    using cb.abs_redo1 [OF ok] by (simp add: redo_step_def)
  have mutation: "bus_zipper (p', bus') = (if is_ok r then z_do p' (bus_zipper (p, bus)) else bus_zipper (p, bus))"
    if "\<not> controls (ce_command e)"
  proof (cases r)
    case (Inl err)
    then show ?thesis using assms(2) dispatch_error_same [of h now ex e p bus err p' bus'] by simp
  next
    case (Inr a)
    then have "exec_step h (now, ex, e) (p, bus) = Some (p', bus')"
      using assms(2) that by (auto simp: controls_def elim: dispatch_Ok_cases)
    from cb.abs_exec [OF ok this] show ?thesis using Inr by (simp add: bus_zipper_def)
  qed
  show ?thesis
    using assms(2) mutation zipper_control [of h e "undo p bus" r p' bus'] zipper_control [of h e "redo p bus" r p' bus']
    by (auto simp: dispatch_cases controls_def undo redo split: command.splits)
qed

text \<open>In every session \<open>can_undo\<close> and \<open>can_redo\<close> are exact, and undoing an accepted mutation brings
  back the very project it was applied to, after which redo brings back its result.\<close>

theorem session_undo_redo:
  assumes "session h p0 p bus"
  shows "(can_undo bus \<longleftrightarrow> is_ok (fst (undo p bus))) \<and> (can_redo bus \<longleftrightarrow> is_ok (fst (redo p bus))) \<and>
    (\<forall>now ex e r p' bus'. dispatch h now ex e p bus = (Ok r, p', bus') \<longrightarrow> \<not> controls (ce_command e) \<longrightarrow>
       (\<exists>bus1 bus2. undo p' bus' = (Ok (), p, bus1) \<and> redo p bus1 = (Ok (), p', bus2)))"
proof (intro conjI allI impI)
  note ok = session_snapshots [OF assms]
  show "can_undo bus \<longleftrightarrow> is_ok (fst (undo p bus))"
    using undo_snapshots [OF ok] by (auto simp: can_undo_def undo_def)
  show "can_redo bus \<longleftrightarrow> is_ok (fst (redo p bus))"
    using redo_snapshots [OF ok] by (auto simp: can_redo_def redo_def)
  fix now ex e r p' bus'
  assume d: "dispatch h now ex e p bus = (Ok r, p', bus')" and e: "\<not> controls (ce_command e)"
  have "exec_step h (now, ex, e) (p, bus) = Some (p', bus')"
    using d e by (auto simp: controls_def elim: dispatch_Ok_cases)
  from cb.undo_exec [OF session_aligned [OF assms] this]
  obtain u v where u: "undo_step (p', bus') = Some u" "fst u = p" "redo_step u = Some v" "fst v = p'"
    by (auto simp: bus_zipper_def case_prod_unfold)
  then show "\<exists>bus1 bus2. undo p' bus' = (Ok (), p, bus1) \<and> redo p bus1 = (Ok (), p', bus2)"
    by (cases u; cases v) (auto simp: undo_step_def redo_step_def settle_Some_iff)
qed

subsection \<open>A sample session\<close>

definition demo_project :: project where
  "demo_project = project_new 1 5 ''demo''"

definition demo_add :: command_envelope where
  "demo_add = envelope_new 9 6 Ui (AddLayer ''wards'' 4)"

definition demo_layers :: project where
  "demo_layers = snd (mutate sample_host 7 demo_add None None demo_project (AddLayer ''wards'' 4))"

definition demo_bus :: command_bus where
  "demo_bus = commit demo_add None None demo_project demo_layers (bus_new demo_project)"

lemma demo_accepted:
  "bus_workflows bus = ws \<Longrightarrow> accepted sample_host 7 ex demo_add demo_project bus None None demo_layers"
  by (simp add: accepted_def demo_add_def envelope_new_def validate_mutation_workflow_def
      validate_workflow_command_def demo_layers_def demo_project_def project_new_def workspace_new_def Let_def)

lemma demo_dispatch:
  "dispatch sample_host 7 None demo_add demo_project (bus_new demo_project) =
     (Ok (execution sample_host demo_bus 9 None None demo_layers), demo_layers, demo_bus)"
  using dispatch_mutation_accepted [OF demo_accepted [of "bus_new demo_project" _ None]]
  by (simp add: dispatch_cases demo_bus_def) (simp add: demo_add_def envelope_new_def)

lemma demo_session: "session sample_host demo_project demo_layers demo_bus"
  by (rule session_dispatch [OF session_new demo_dispatch])

theorem session_refines_history_witness:
  "bus_zipper (demo_layers, demo_bus) = z_do demo_layers (bus_zipper (demo_project, bus_new demo_project))"
  using session_refines_history [OF session_new demo_dispatch] by (simp add: demo_add_def envelope_new_def)

theorem session_undo_redo_witness:
  "can_undo demo_bus \<and> is_ok (fst (undo demo_layers demo_bus)) \<and>
   (\<exists>bus1 bus2. undo demo_layers demo_bus = (Ok (), demo_project, bus1) \<and> redo demo_project bus1 = (Ok (), demo_layers, bus2))"
proof -
  have "can_undo demo_bus" by (simp add: can_undo_def demo_bus_def)
  moreover have "\<not> controls (ce_command demo_add)" by (simp add: controls_def demo_add_def envelope_new_def)
  ultimately show ?thesis
    using session_undo_redo [OF demo_session] session_undo_redo [OF session_new [of sample_host demo_project]] demo_dispatch
    by blast
qed

section \<open>Provenance\<close>

lemma accepted_provenance:
  "accepted h now ex e p bus d x p' \<Longrightarrow> \<exists>entry. provenance p' = provenance p @ [entry] \<and> entry_of h e entry"
  by (auto simp: accepted_def intro: mutate_provenance)

definition trail :: "host \<Rightarrow> project \<Rightarrow> command_envelope list \<Rightarrow> project \<Rightarrow> bool" where
  "trail h p0 es p \<longleftrightarrow> (\<exists>entries. provenance p = provenance p0 @ entries \<and> list_all2 (entry_of h) es entries)"

lemma trail_Nil [simp]: "trail h p0 [] p \<longleftrightarrow> provenance p = provenance p0"
  by (simp add: trail_def)

lemma trail_snoc: "trail h p0 es p \<Longrightarrow> provenance p' = provenance p @ [entry] \<Longrightarrow> entry_of h e entry \<Longrightarrow> trail h p0 (es @ [e]) p'"
  by (auto simp: trail_def intro!: list_all2_appendI)

definition trails_ok :: "host \<Rightarrow> project \<Rightarrow> command_bus \<Rightarrow> bool" where
  "trails_ok h p0 bus \<longleftrightarrow> (\<forall>i \<le> length (bus_history bus). trail h p0 (take i (bus_history bus)) (timeline p0 bus ! i))"

lemma trails_commit:
  assumes "snapshots_ok p0 p bus" "trails_ok h p0 bus" "accepted h now ex e p bus d x p'"
  shows "trails_ok h p0 (commit e d x p p' bus)"
proof -
  let ?c = "bus_cursor bus"
  have c: "?c \<le> length (bus_history bus)" "length (bus_after bus) = length (bus_history bus)" "p = timeline p0 bus ! ?c"
    using assms(1) by (auto simp: snapshots_ok_def)
  then have t: "timeline p0 (commit e d x p p' bus) = take (Suc ?c) (timeline p0 bus) @ [p']"
    "length (timeline p0 bus) = Suc (length (bus_history bus))"
    by (simp_all add: timeline_commit) (simp add: timeline_def)
  obtain entry where "provenance p' = provenance p @ [entry]" "entry_of h e entry"
    using accepted_provenance [OF assms(3)] by blast
  then have new: "trail h p0 (take ?c (bus_history bus) @ [e]) p'"
    using assms(2) c by (auto simp: trails_ok_def intro: trail_snoc)
  have "trail h p0 (take i (take ?c (bus_history bus) @ [e])) ((take (Suc ?c) (timeline p0 bus) @ [p']) ! i)"
    if "i \<le> Suc ?c" for i
  proof (cases "i = Suc ?c")
    case True
    then show ?thesis using new c t(2) by (simp add: nth_append min_def)
  next
    case False
    then have "i \<le> ?c" using that by simp
    then show ?thesis using assms(2) c t(2) by (simp add: trails_ok_def nth_append min_def)
  qed
  moreover have "length (take ?c (bus_history bus) @ [e]) = Suc ?c" using c by simp
  ultimately show ?thesis unfolding trails_ok_def commit_simps t(1) by simp
qed

lemma trails_same: "bus_history bus' = bus_history bus \<Longrightarrow> bus_after bus' = bus_after bus \<Longrightarrow> trails_ok h p0 bus' \<longleftrightarrow> trails_ok h p0 bus"
  by (simp add: trails_ok_def timeline_def)

lemma undo_redo_frame:
  "undo p bus = (Ok u, p', bus') \<Longrightarrow> bus_history bus' = bus_history bus \<and> bus_after bus' = bus_after bus \<and>
     bus_before bus' = bus_before bus \<and> bus_workflows bus' = bus_workflows bus \<and> bus_executions bus' = bus_executions bus \<and>
     bus_audit_log bus' = bus_audit_log bus \<and> bus_initial bus' = bus_initial bus \<and>
     bus_expected_digest bus' = bus_expected_digest bus"
  "redo p bus = (Ok u, p', bus') \<Longrightarrow> bus_history bus' = bus_history bus \<and> bus_after bus' = bus_after bus \<and>
     bus_before bus' = bus_before bus \<and> bus_workflows bus' = bus_workflows bus \<and> bus_executions bus' = bus_executions bus \<and>
     bus_audit_log bus' = bus_audit_log bus \<and> bus_initial bus' = bus_initial bus \<and>
     bus_expected_digest bus' = bus_expected_digest bus"
  by (auto simp: undo_def redo_def split: if_splits option.splits)

lemma register_frame:
  "register_workflow h w bus = (r, bus') \<Longrightarrow> bus_history bus' = bus_history bus \<and> bus_after bus' = bus_after bus"
  by (auto simp: register_workflow_def split: sum.splits)

lemma session_trails: "session h p0 p bus \<Longrightarrow> trails_ok h p0 bus"
proof (induction rule: session.induct)
  case session_new
  show ?case by (simp add: trails_ok_def timeline_def bus_new_def bus_default_def)
next
  case (session_register p bus w r bus')
  then show ?case using register_frame [of h w bus r bus'] trails_same by blast
next
  case (session_dispatch p bus now ex e r p' bus')
  show ?case
  proof (cases r)
    case (Inl err)
    then show ?thesis using session_dispatch dispatch_error_same by blast
  next
    case (Inr a)
    with session_dispatch(2) have "dispatch h now ex e p bus = (Ok a, p', bus')" by simp
    then show ?thesis
    proof (cases rule: dispatch_Ok_cases)
      case (mutation d x)
      then show ?thesis using trails_commit [OF session_snapshots] session_dispatch by blast
    next
      case (undone bus1)
      then show ?thesis using session_dispatch(3) undo_redo_frame(1) [OF undone(2)] trails_same [of bus' bus h p0] by simp
    next
      case (redone bus1)
      then show ?thesis using session_dispatch(3) undo_redo_frame(2) [OF redone(2)] trails_same [of bus' bus h p0] by simp
    qed
  qed
qed

text \<open>C9: In every session the provenance of the project is the initial provenance followed by one entry
  for each command up to the cursor, in order, and that entry carries the command's identity, instant,
  origin and workflow; undone commands leave no entry.\<close>

theorem session_provenance:
  assumes "session h p0 p bus"
  shows "\<exists>entries. wk_provenance (pj_workspace p) = wk_provenance (pj_workspace p0) @ entries \<and>
    list_all2 (entry_of h) (take (bus_cursor bus) (bus_history bus)) entries"
  using session_trails [OF assms] session_snapshots [OF assms]
  by (auto simp: trails_ok_def snapshots_ok_def trail_def)

theorem session_provenance_witness:
  "\<exists>entries. wk_provenance (pj_workspace demo_layers) = wk_provenance (pj_workspace demo_project) @ entries \<and>
     list_all2 (entry_of sample_host) [demo_add] entries"
  using session_provenance [OF demo_session] by (simp add: demo_bus_def bus_new_def bus_default_def)

section \<open>Authorised mutations\<close>


text \<open>The source identity of a snapshot: all fields but the retrieval instant.\<close>

lemma same_source_identity_iff:
  "same_source_identity l r \<longleftrightarrow> src_dataset_id l = src_dataset_id r \<and> src_uri l = src_uri r \<and> src_license l = src_license r \<and>
     src_checksum l = src_checksum r \<and> src_expected_checksum l = src_expected_checksum r \<and>
     src_observed_checksum l = src_observed_checksum r \<and> src_source_version l = src_source_version r \<and>
     src_checksum_status l = src_checksum_status r"
  by (cases l; cases r) (auto simp: same_source_identity_def)

lemma check_contract_satisfied_Ok:
  "check_contract_satisfied e c = Ok () \<Longrightarrow> ic_source_snapshot c = Some s \<Longrightarrow>
     \<exists>s' \<in> set (ce_source_snapshots e) \<union> is_source ` set (ce_input_snapshots e). same_source_identity s' s"
  by (auto simp: check_contract_satisfied_def Let_def list_ex_iff split: option.splits if_splits dest!: find_Some_set)


subsection \<open>Authorised sample commands\<close>

definition demo_source :: source_snapshot where
  "demo_source = source_metadata_new ''file:wards.parquet''"

definition demo_workflow :: geo_workflow where
  "demo_workflow = (workflow_new 2 ''goal'')
     \<lparr>wf_steps := [(sample_step ''s'' [])\<lparr>ws_operation := ''InitializeEditableLayer''\<rparr>],
      wf_input_contracts := [(input_contract_new ''wards'')\<lparr>ic_source_snapshot := Some demo_source\<rparr>]\<rparr>"

definition demo_digest :: string where
  "demo_digest = stable_digest_unchecked identity_hashing demo_workflow"

definition demo_registered :: command_bus where
  "demo_registered = demo_bus\<lparr>bus_workflows := [(2, demo_workflow)]\<rparr>"

definition demo_initialize :: command_envelope where
  "demo_initialize = (envelope_new 10 8 Ui (InitializeEditableLayer 9 crs_wgs84 EgPolygon sample_schema
     \<lparr>mb_workflow_id = 2, mb_node_id = ''s''\<rparr>))\<lparr>ce_workflow_digest := Some demo_digest\<rparr>"

definition demo_run :: command_envelope where
  "demo_run = with_source_snapshot demo_source
     (with_workflow_digest demo_digest (envelope_new 11 8 Ai (RunWorkflow 2)))"

definition demo_executor :: executor where
  "demo_executor w c = Ok \<lparr>we_result_digest = ''sha256:00'', we_output = JNull, we_evidence = JNull, we_events = []\<rparr>"

lemma demo_workflow_valid: "validate_workflow identity_hashing demo_workflow = Ok ()"
  by code_simp

lemma demo_registered_step: "register_workflow sample_host demo_workflow demo_bus = (Ok (trim demo_digest), demo_registered)"
proof -
  have "wf_id demo_workflow = 2" by (simp add: demo_workflow_def workflow_new_def)
  moreover have "bus_workflows demo_bus = []" by (simp add: demo_bus_def bus_new_def bus_default_def)
  ultimately show ?thesis
    by (simp add: register_workflow_def demo_workflow_valid stable_digest_def sample_host_def demo_digest_def
        demo_registered_def workflow_digest_new_def)
qed

lemma demo_lookup [simp]:
  "bt_get (bus_workflows demo_registered) 2 = Some demo_workflow" "ho_hash sample_host = identity_hashing"
  "stable_digest identity_hashing demo_workflow = Ok demo_digest"
  using demo_workflow_valid by (simp_all add: demo_registered_def bt_get_def sample_host_def stable_digest_def demo_digest_def)

lemma demo_initialize_Ok: "\<exists>r p bus. dispatch sample_host 9 None demo_initialize demo_layers demo_registered = (Ok r, p, bus)"
proof -
  have "node_id identity_hashing ((sample_step ''s'' [])\<lparr>ws_operation := ''InitializeEditableLayer''\<rparr>) = ''s''" by code_simp
  then have "find (\<lambda>s. node_id identity_hashing s = ''s'') (wf_steps demo_workflow) =
      Some ((sample_step ''s'' [])\<lparr>ws_operation := ''InitializeEditableLayer''\<rparr>)"
    by (simp add: demo_workflow_def)
  then have "validate_mutation_workflow sample_host demo_registered demo_initialize = Ok ()"
    using demo_workflow_valid
    by (simp add: validate_mutation_workflow_def demo_initialize_def envelope_new_def ok_or_def)
  moreover have "validate_schema sample_schema = Ok ()" by code_simp
  then have "\<exists>l. editable_layer_new 9 crs_wgs84 EgPolygon sample_schema = Ok l"
    by (simp add: editable_layer_new_def crs_require_known_def ok_or_def)
  ultimately show ?thesis
    by (auto simp: dispatch_def demo_initialize_def envelope_new_def dispatch_mutation_def validate_workflow_command_def
       apply_project_mutation_def demo_layers_def demo_project_def project_new_def workspace_new_def demo_add_def
       record_command_provenance_def workspace_mut_def add_layer_def touch_def layer_new_def Let_def)
qed

lemma demo_run_Ok: "\<exists>r p bus. dispatch sample_host 9 (Some demo_executor) demo_run demo_layers demo_registered = (Ok r, p, bus)"
proof -
  have run: "ce_command demo_run = RunWorkflow 2" "ce_workflow_digest demo_run = Some (trim demo_digest)"
    "ce_source_snapshots demo_run = [demo_source]" "ce_input_snapshots demo_run = []"
    by (simp_all add: demo_run_def with_source_snapshot_def with_workflow_digest_def envelope_new_def workflow_digest_new_def)
  have contracts: "wf_input_contracts demo_workflow = [(input_contract_new ''wards'')\<lparr>ic_source_snapshot := Some demo_source\<rparr>]"
    by (simp add: demo_workflow_def)
  have "validate_input_snapshots demo_workflow demo_run = Ok ()"
    by (simp add: validate_input_snapshots_def run contracts check_source_snapshot_def contract_sources_def
        check_contract_satisfied_def same_source_identity_def List.map_filter_def reject_def)
  then have "validate_workflow_command sample_host demo_registered demo_run = Ok (Some (trim demo_digest))"
    using demo_workflow_valid by (simp add: validate_workflow_command_def run ok_or_def workflow_digest_new_def)
  moreover have "trim ''sha256:00'' \<noteq> []" by code_simp
  ultimately show ?thesis
    by (simp add: dispatch_def run dispatch_mutation_def validate_mutation_workflow_def
       run_executor_def demo_executor_def apply_project_mutation_def Let_def ok_or_def)
qed



section \<open>No panic\<close>

text \<open>The errors that stand for a panic of an \<open>expect\<close> or \<open>unreachable!\<close> in the code below the bus.\<close>

definition panics :: "command_error \<Rightarrow> bool" where
  "panics err \<longleftrightarrow> err = CommandPanic \<or> err = WorkflowInvalid (ReasonWorkflow Panic) \<or>
     err = MutationWorkflowBinding (ReasonWorkflow Panic) \<or> err = FeatureEditRejected (ReasonEdit EditPanic)"

lemma validate_schema_no_panic: "validate_schema s \<noteq> Err EditPanic"
  by (auto simp: validate_schema_def Let_def find_None_iff split: option.splits)

lemma validate_rings_no_panic: "validate_rings r \<noteq> Err EditPanic"
  by (auto simp: validate_rings_def Let_def)

lemma validate_geometry_no_panic: "validate_geometry g k c \<noteq> Err EditPanic"
  using validate_rings_no_panic
  by (auto simp: validate_geometry_def split: feature_geometry.splits dest!: try_for_eq_ErrD)

lemma validate_draft_no_panic: "validate_draft l d \<noteq> Err EditPanic"
  using validate_geometry_no_panic
  by (auto simp: validate_draft_def validate_attributes_def result_simps dest!: try_for_eq_ErrD)

lemma feature_with_revision_no_panic: "feature_with_revision l i r \<noteq> Err EditPanic"
  by (auto simp: feature_with_revision_def result_simps)

lemma area_conservation_no_panic: "require_area_conservation a b \<noteq> Err EditPanic"
  by (auto simp: require_area_conservation_def Let_def)

lemma apply_edit_no_panic: "apply_edit l r ed \<noteq> Err EditPanic"
proof -
  note no = validate_draft_no_panic feature_with_revision_no_panic area_conservation_no_panic
  have "apply_split l i r ps \<noteq> Err EditPanic" for i r ps
    using no by (auto simp: apply_split_def result_simps check_part_def split: if_splits dest!: try_fold_eq_ErrD)
  moreover have "apply_merge l i r m \<noteq> Err EditPanic" for i r m
    using no by (auto simp: apply_merge_def result_simps collect_member_def Let_def split: if_splits prod.splits dest!: try_fold_eq_ErrD)
  ultimately have "apply_kind l ed \<noteq> Err EditPanic"
    using no by (cases ed) (auto simp: result_simps Let_def split: if_splits)
  then show ?thesis by (auto simp: apply_edit_def result_simps Let_def)
qed

lemma editable_layer_new_no_panic: "editable_layer_new i c k s \<noteq> Err EditPanic"
  using validate_schema_no_panic by (auto simp: editable_layer_new_def result_simps)

lemma validate_workflow_no_panic: "validate_workflow h w \<noteq> Err Panic"
  using topological_order_cases [of h w] by (auto simp: validate_workflow_def shape_error_def split: sum.splits)

lemma stable_digest_no_panic: "stable_digest h w \<noteq> Err Panic"
  using validate_workflow_no_panic by (simp add: stable_digest_def)

lemma authorisation_no_panic:
  "validate_mutation_workflow h bus e = Err err \<Longrightarrow> \<not> panics err"
  "validate_workflow_command h bus e = Err err \<Longrightarrow> \<not> panics err"
proof -
  note no = validate_workflow_no_panic stable_digest_no_panic
  show "validate_mutation_workflow h bus e = Err err \<Longrightarrow> \<not> panics err"
    using no by (auto simp: validate_mutation_workflow_def panics_def result_simps split: option.splits prod.splits if_splits)
  have "validate_input_snapshots w e = Err err \<Longrightarrow> \<not> panics err" for w
    by (auto simp: validate_input_snapshots_def check_source_snapshot_def check_input_snapshot_def
        check_contract_satisfied_def panics_def result_simps Let_def split: option.splits if_splits dest!: try_for_eq_ErrD)
  then show "validate_workflow_command h bus e = Err err \<Longrightarrow> \<not> panics err"
    using no by (cases "ce_command e") (auto simp: validate_workflow_command_def panics_def result_simps Let_def split: if_splits)
qed

lemma run_executor_no_panic:
  "validate_workflow_command h bus e = Ok d \<Longrightarrow> run_executor ex bus e d = Err err \<Longrightarrow> \<not> panics err"
  using validate_workflow_command_cases [of h bus e d]
  by (cases "ce_command e") (auto simp: run_executor_def panics_def result_simps split: option.splits if_splits)

lemma mutate_no_panics:
  assumes "mutate h now e d x p c = (Err err, p')" "\<And>w. c = RunWorkflow w \<Longrightarrow> d \<noteq> None \<and> x \<noteq> None"
  shows "\<not> panics err"
  using assms apply_edit_no_panic editable_layer_new_no_panic
  by (cases c) (auto simp: Let_def panics_def split: mutate_splits)

text \<open>C37: No command reaches an \<open>expect\<close> that fails or an \<open>unreachable!\<close> in the dispatcher, the workflow
  validator or the feature editor: none of the errors that stand for them is ever returned. Arithmetic is
  outside this claim: the unchecked \<open>revision + 1\<close> of a split wraps here, and a build with overflow checks
  panics there for a feature at revision \<open>u64::MAX\<close>.\<close>

theorem dispatch_no_panic:
  "case fst (dispatch h now ex e p bus) of Inl err \<Rightarrow> \<not> panics err | Inr _ \<Rightarrow> True"
proof (cases "fst (dispatch h now ex e p bus)")
  case (Inl err)
  have c: "fst (control h e r) = Err err \<Longrightarrow> fst r = Err err" for r
    by (auto simp: control_def Let_def split: prod.splits sum.splits)
  have u: "fst (undo p bus) = Err err \<Longrightarrow> \<not> panics err" "fst (redo p bus) = Err err \<Longrightarrow> \<not> panics err"
    by (auto simp: undo_def redo_def panics_def split: if_splits option.splits)
  have "\<not> panics err" if d: "fst (dispatch_mutation h now ex e p bus) = Err err"
  proof -
    have x: "d \<noteq> None \<and> x \<noteq> None" if "validate_workflow_command h bus e = Ok d" "run_executor ex bus e d = Ok x"
        "ce_command e = RunWorkflow w" for d x w
      using validate_workflow_command_cases [OF that(1)] that by (auto dest!: run_executor_Some)
    show ?thesis
      using d authorisation_no_panic run_executor_no_panic mutate_no_panics x
      by (auto simp: dispatch_mutation_def apply_project_mutation_def Let_def result_simps split: sum.splits prod.splits)
  qed
  then show ?thesis
    using Inl c u by (auto simp: dispatch_cases split: if_splits)
qed simp

section \<open>Project invariants\<close>

text \<open>Layer identities are unique, so are the layers with a feature store, every feature store is well
  formed, and the map styles are valid and strictly ordered by identity.\<close>

definition project_ok :: "project \<Rightarrow> bool" where
  "project_ok p \<longleftrightarrow> (let w = pj_workspace p in
     distinct (map ly_id (wk_layers w)) \<and> distinct (map el_layer_id (wk_editable_layers w)) \<and>
     list_all layer_ok (wk_editable_layers w) \<and> list_all (\<lambda>s. validate_style s = Ok ()) (wk_map_styles w) \<and>
     sorted_wrt (<) (map ms_id (wk_map_styles w)))"

lemma set_update_first_const: "set (update_first p (\<lambda>_. y) xs) \<subseteq> insert y (set xs)"
  by (induction xs) auto

lemma map_update_first_const:
  "(\<And>x. p x \<Longrightarrow> g x = g y) \<Longrightarrow> map g (update_first p (\<lambda>_. y) xs) = map g xs"
  by (induction xs) auto

lemma editable_layer_new_ok: "editable_layer_new i c k s = Ok l \<Longrightarrow> layer_ok l \<and> el_layer_id l = i"
  by (auto simp: editable_layer_new_def layer_ok_def crs_require_known_def result_simps)

lemma apply_edit_ok: "layer_ok l \<Longrightarrow> apply_edit l r ed = Ok (l', receipt) \<Longrightarrow> layer_ok l' \<and> el_layer_id l' = el_layer_id l"
  by (auto simp: apply_edit_def result_simps Let_def split: if_splits intro: layer_ok_effect)

lemma install_style_ok:
  assumes "validate_style s = Ok ()" "list_all (\<lambda>s. validate_style s = Ok ()) ss" "sorted_wrt (<) (map ms_id ss)"
  shows "list_all (\<lambda>s. validate_style s = Ok ()) (install_style s ss) \<and> sorted_wrt (<) (map ms_id (install_style s ss))"
proof (cases "list_ex (\<lambda>c. ms_id c = ms_id s) ss")
  case True
  have "map ms_id (update_first (\<lambda>c. ms_id c = ms_id s) (\<lambda>_. s) ss) = map ms_id ss"
    by (rule map_update_first_const) simp
  then show ?thesis
    using True assms set_update_first_const [of "\<lambda>c. ms_id c = ms_id s" s ss]
    by (auto simp: install_style_def list_all_iff)
next
  case False
  have "distinct (map ms_id ss)" using assms(3) strict_sorted_iff by blast
  then have "distinct (map ms_id (ss @ [s]))" using False by (auto simp: list_ex_iff)
  then have "distinct (map ms_id (sort_key ms_id (ss @ [s])))" 
    by (metis distinct_map distinct_sort set_sort)
  moreover have "sorted (map ms_id (sort_key ms_id (ss @ [s])))" by (rule sorted_sort_key)
  ultimately show ?thesis using assms False by (auto simp: install_style_def list_all_iff strict_sorted_iff)
qed

lemma mutate_project_ok: "project_ok p \<Longrightarrow> mutate h now e d x p c = (Ok u, p') \<Longrightarrow> project_ok p'"
proof (cases c)
  case (EditFeatures i r ed b)
  assume p: "project_ok p" and m: "mutate h now e d x p c = (Ok u, p')"
  let ?ls = "wk_editable_layers (pj_workspace p)"
  from m EditFeatures obtain l l' receipt where l: "find (\<lambda>l. el_layer_id l = i) ?ls = Some l"
      "apply_edit l r ed = Ok (l', receipt)"
      and w: "wk_editable_layers (pj_workspace p') = update_first (\<lambda>l. el_layer_id l = i) (\<lambda>_. l') ?ls"
      "wk_layers (pj_workspace p') = wk_layers (pj_workspace p)" "wk_map_styles (pj_workspace p') = wk_map_styles (pj_workspace p)"
    by (auto simp: Let_def split: mutate_splits)
  have "l \<in> set ?ls" "el_layer_id l = i" using find_Some_set [OF l(1)] by auto
  moreover from this have l': "layer_ok l'" "el_layer_id l' = i"
    using p apply_edit_ok [OF _ l(2)] by (auto simp: project_ok_def Let_def list_all_iff)
  ultimately show ?thesis
    using p map_update_first_const [of "\<lambda>l. el_layer_id l = i" el_layer_id l' ?ls]
      set_update_first_const [of "\<lambda>l. el_layer_id l = i" l' ?ls]
    by (auto simp: project_ok_def Let_def w list_all_iff)
next
  case (SetEvidenceMapStyle s b)
  assume p: "project_ok p" and m: "mutate h now e d x p c = (Ok u, p')"
  then have v: "validate_style s = Ok ()" using SetEvidenceMapStyle by (auto split: mutate_splits)
  have "wk_map_styles (pj_workspace p') = install_style s (wk_map_styles (pj_workspace p))"
    "wk_editable_layers (pj_workspace p') = wk_editable_layers (pj_workspace p)"
    "map ly_id (wk_layers (pj_workspace p')) = map ly_id (wk_layers (pj_workspace p))"
    using m v unfolding SetEvidenceMapStyle by (auto split: if_splits)
  with install_style_ok [OF v] p show ?thesis unfolding project_ok_def Let_def by simp
qed (auto simp: project_ok_def Let_def list_ex_iff distinct_map_remove_first layer_new_def dest: editable_layer_new_ok
      split: mutate_splits, blast, metis editable_layer_new_ok)

definition states_ok :: "project \<Rightarrow> command_bus \<Rightarrow> bool" where
  "states_ok p0 bus \<longleftrightarrow> list_all project_ok (timeline p0 bus)"

lemma states_current: "snapshots_ok p0 p bus \<Longrightarrow> states_ok p0 bus \<Longrightarrow> project_ok p"
  by (auto simp: snapshots_ok_def states_ok_def timeline_def list_all_length)

lemma session_states: "session h p0 p bus \<Longrightarrow> project_ok p0 \<Longrightarrow> states_ok p0 bus"
proof (induction rule: session.induct)
  case session_new
  then show ?case by (simp add: states_ok_def timeline_def bus_new_def bus_default_def)
next
  case (session_register p bus w r bus')
  then show ?case using register_frame [of h w bus r bus'] by (simp add: states_ok_def timeline_def)
next
  case (session_dispatch p bus now ex e r p' bus')
  note ok = session_snapshots [OF session_dispatch(1)] and st = session_dispatch(3) [OF session_dispatch(4)]
  show ?case
  proof (cases r)
    case (Inl err)
    then show ?thesis using session_dispatch(2) st dispatch_error_same by blast
  next
    case (Inr a)
    with session_dispatch(2) have "dispatch h now ex e p bus = (Ok a, p', bus')" by simp
    then show ?thesis
    proof (cases rule: dispatch_Ok_cases)
      case (mutation d x)
      then have "project_ok p'" using states_current [OF ok st] mutate_project_ok by (auto simp: accepted_def)
      then show ?thesis using st mutation(3) by (auto simp: states_ok_def timeline_def list_all_iff dest: in_set_takeD)
    next
      case (undone bus1)
      then show ?thesis using st undo_redo_frame(1) [OF undone(2)] by (simp add: states_ok_def timeline_def)
    next
      case (redone bus1)
      then show ?thesis using st undo_redo_frame(2) [OF redone(2)] by (simp add: states_ok_def timeline_def)
    qed
  qed
qed

text \<open>C11: Every project reached in a session from a well-formed one is well formed: layer identities are
  unique, at most one feature store exists per layer and each satisfies the invariant of the editor, and
  the map styles validate and are strictly ordered by identity.\<close>

theorem session_project_ok:
  assumes "session h p0 p bus" and "project_ok p0"
  shows "project_ok p"
  using states_current [OF session_snapshots [OF assms(1)] session_states [OF assms]] .

theorem session_project_ok_witness: "project_ok demo_layers"
  by (rule session_project_ok [OF demo_session])
    (simp add: project_ok_def demo_project_def project_new_def workspace_new_def)

section \<open>Pushed envelopes\<close>

text \<open>After \<open>push\<close> records an envelope on a bus whose snapshots are aligned, \<open>can_undo\<close> reports that an
  undo is available, yet undo fails for want of a snapshot; and it keeps failing after the next mutation
  has been applied, so that mutation cannot be undone either.\<close>

theorem push_breaks_undo:
  assumes "session h p0 p bus"
  shows "can_undo (push e bus) \<and> undo p (push e bus) = (Err MissingStateSnapshot, p, push e bus) \<and>
    (\<forall>now ex e' r p' bus'. dispatch h now ex e' p (push e bus) = (Ok r, p', bus') \<longrightarrow>
       \<not> controls (ce_command e') \<longrightarrow> undo p' bus' = (Err MissingStateSnapshot, p', bus'))"
proof (intro conjI allI impI)
  have len: "length (bus_before bus) = length (bus_history bus)" "bus_cursor bus \<le> length (bus_history bus)"
    using session_snapshots [OF assms] by (simp_all add: snapshots_ok_def timeline_def del: butlast.simps)
  then have p: "bus_cursor (push e bus) = Suc (bus_cursor bus)" "length (bus_before (push e bus)) = bus_cursor bus"
      "length (bus_history (push e bus)) = Suc (bus_cursor bus)"
    by (simp_all add: push_def Let_def)
  show "can_undo (push e bus)" by (simp add: can_undo_def p)
  show "undo p (push e bus) = (Err MissingStateSnapshot, p, push e bus)"
    by (simp add: undo_def list_get_def p)
  fix now ex e' r p' bus'
  assume "dispatch h now ex e' p (push e bus) = (Ok r, p', bus')" "\<not> controls (ce_command e')"
  then obtain d x where "bus' = commit e' d x p p' (push e bus)"
    by (auto simp: controls_def elim: dispatch_Ok_cases)
  then show "undo p' bus' = (Err MissingStateSnapshot, p', bus')"
    by (simp add: undo_def list_get_def p)
qed

theorem push_breaks_undo_witness:
  "can_undo (push demo_run demo_bus) \<and> undo demo_layers (push demo_run demo_bus) = (Err MissingStateSnapshot, demo_layers, push demo_run demo_bus)"
  using push_breaks_undo [OF demo_session] by blast

end
