(* ===== verification/Command_Log.thy ===== *)
theory Command_Log
  imports Command_Bus
begin

text \<open>
  \<open>genegis-core/src/command.rs\<close>, the persistence half: the tamper-evident \<open>CommandLog\<close>, \<open>persist\<close>,
  \<open>load\<close>, and the replay of a log. The \<open>serde\<close> encoding of a log and its parser are the fields of
  \<open>codec\<close>, the file system is a map from paths to texts, and \<open>clock\<close> gives the readings of
  \<open>Utc::now\<close> during a replay.
\<close>

section \<open>The log\<close>

record command_log =
  cl_schema_version :: u32
  cl_initial_state :: project
  cl_commands :: "command_envelope list"
  cl_audit_log :: "command_envelope list"
  cl_cursor :: nat
  cl_workflows :: "geo_workflow list"
  cl_executions :: "execution_record list"
  cl_state_digest :: string
  cl_log_digest :: "string option"

definition log_schema_version :: u32 where
  "log_schema_version = 1"

record codec =
  cd_to_value :: "command_log \<Rightarrow> json"
  cd_pretty :: "json \<Rightarrow> string"
  cd_from_str :: "string \<Rightarrow> string + command_log"

type_synonym files = "string \<rightharpoonup> string"

definition log_value_digest :: "host \<Rightarrow> codec \<Rightarrow> command_log \<Rightarrow> string" where
  "log_value_digest h cd entry =
     digest_json (h_to_string (ho_hash h)) (h_sha256 (ho_hash h)) (cd_to_value cd entry)"

section \<open>Replay\<close>

definition execution_of :: "execution_record \<Rightarrow> workflow_execution" where
  "execution_of r = \<lparr>we_result_digest = xr_result_digest r, we_output = xr_output r, we_evidence = xr_evidence r,
     we_events = xr_events r\<rparr>"

definition recorded_executor :: "host \<Rightarrow> (uuid, execution_record) btmap \<Rightarrow> executor" where
  "recorded_executor h records w c =
     and_then (ok_or (bt_get records (cx_command_id c))
       (Failed (''persisted workflow execution missing for command '' @ ho_uuid h (cx_command_id c)))) (\<lambda>r.
       if xr_workflow_digest r \<noteq> cx_workflow_digest c
       then Err (Failed ''persisted workflow execution digest differs from command'')
       else Ok (execution_of r))"

fun register_all :: "host \<Rightarrow> geo_workflow list \<Rightarrow> command_bus \<Rightarrow> command_error + command_bus" where
  "register_all h [] bus = Ok bus"
| "register_all h (w # ws) bus =
     (case register_workflow h w bus of
        (Inl err, _) \<Rightarrow> Err err
      | (Inr _, bus) \<Rightarrow> register_all h ws bus)"

fun apply_events :: "host \<Rightarrow> (nat \<Rightarrow> timestamp) \<Rightarrow> executor option \<Rightarrow> command_envelope list \<Rightarrow> project \<Rightarrow>
    command_bus \<Rightarrow> command_error + project \<times> command_bus" where
  "apply_events h clock ex [] p bus = Ok (p, bus)"
| "apply_events h clock ex (e # es) p bus =
     (case dispatch h (clock (length es)) ex e p bus of
        (Inl err, _, _) \<Rightarrow> Err err
      | (Inr _, p, bus) \<Rightarrow> apply_events h clock ex es p bus)"

definition replay_executor :: "host \<Rightarrow> executor option \<Rightarrow> command_bus \<Rightarrow> executor option" where
  "replay_executor h ex bus =
     (case ex of
        Some f \<Rightarrow> Some f
      | None \<Rightarrow> if bus_executions bus \<noteq> [] then Some (recorded_executor h (bus_executions bus)) else None)"

definition replay_active :: "host \<Rightarrow> (nat \<Rightarrow> timestamp) \<Rightarrow> executor option \<Rightarrow> command_bus \<Rightarrow> command_bus \<Rightarrow>
    command_error + project" where
  "replay_active h clock ex bus replayed =
     and_then (ok_or (bus_initial replayed) MissingStateSnapshot) (\<lambda>initial.
     and_then (register_all h (map snd (bus_workflows replayed)) (bus_new initial)) (\<lambda>active.
     and_then (ok_or (bus_initial active) MissingStateSnapshot) (\<lambda>state.
       map_ok fst (apply_events h clock ex (take (bus_cursor bus) (bus_history bus)) state active))))"

definition check_replay_digest :: "host \<Rightarrow> string option \<Rightarrow> project \<Rightarrow> command_error + unit" where
  "check_replay_digest h expected p =
     (case expected of
        None \<Rightarrow> Ok ()
      | Some d \<Rightarrow> reject (d \<noteq> state_digest h p) (ReplayDigestMismatch d (state_digest h p)))"

definition replay_states :: "host \<Rightarrow> (nat \<Rightarrow> timestamp) \<Rightarrow> executor option \<Rightarrow> command_bus \<Rightarrow>
    command_error + project \<times> command_bus" where
  "replay_states h clock ex bus =
     and_then (ok_or (bus_initial bus) MissingStateSnapshot) (\<lambda>initial.
       let events = (if bus_audit_log bus = [] then bus_history bus else bus_audit_log bus);
           exec = replay_executor h ex bus in
       and_then (register_all h (map snd (bus_workflows bus)) (bus_new initial)) (\<lambda>replayed.
       and_then (apply_events h clock exec events initial replayed) (\<lambda>(state, replayed).
       and_then (if bus_cursor replayed = bus_cursor bus then Ok state
                 else replay_active h clock exec bus replayed) (\<lambda>result.
       and_then (check_replay_digest h (bus_expected_digest bus) result) (\<lambda>_. Ok (result, replayed))))))"

definition replay_inner :: "host \<Rightarrow> (nat \<Rightarrow> timestamp) \<Rightarrow> executor option \<Rightarrow> command_bus \<Rightarrow>
    (command_error + project) \<times> command_bus" where
  "replay_inner h clock ex bus =
     (case replay_states h clock ex bus of
        Inl err \<Rightarrow> (Err err, bus)
      | Inr (result, replayed) \<Rightarrow>
          (Ok result, bus\<lparr>bus_history := bus_history replayed, bus_before := bus_before replayed,
             bus_after := bus_after replayed, bus_cursor := bus_cursor replayed, bus_initial := bus_initial replayed,
             bus_executions := bus_executions replayed, bus_current := Some result\<rparr>))"

definition replay :: "host \<Rightarrow> (nat \<Rightarrow> timestamp) \<Rightarrow> command_bus \<Rightarrow> (command_error + project) \<times> command_bus" where
  "replay h clock bus = replay_inner h clock None bus"

definition replay_with_executor ::
  "host \<Rightarrow> (nat \<Rightarrow> timestamp) \<Rightarrow> executor \<Rightarrow> command_bus \<Rightarrow> (command_error + project) \<times> command_bus" where
  "replay_with_executor h clock ex bus = replay_inner h clock (Some ex) bus"

definition replay_digest :: "host \<Rightarrow> (nat \<Rightarrow> timestamp) \<Rightarrow> command_bus \<Rightarrow> (command_error + string) \<times> command_bus" where
  "replay_digest h clock bus = (case replay h clock bus of (r, bus) \<Rightarrow> (map_ok (state_digest h) r, bus))"

definition replay_digest_with_executor ::
  "host \<Rightarrow> (nat \<Rightarrow> timestamp) \<Rightarrow> executor \<Rightarrow> command_bus \<Rightarrow> (command_error + string) \<times> command_bus" where
  "replay_digest_with_executor h clock ex bus =
     (case replay_with_executor h clock ex bus of (r, bus) \<Rightarrow> (map_ok (state_digest h) r, bus))"

section \<open>Persistence\<close>

definition current_project_for_persistence ::
  "host \<Rightarrow> (nat \<Rightarrow> timestamp) \<Rightarrow> command_bus \<Rightarrow> command_error + project" where
  "current_project_for_persistence h clock bus =
     (case bus_current bus of Some s \<Rightarrow> Ok s | None \<Rightarrow> fst (replay h clock bus))"

definition log_of :: "host \<Rightarrow> command_bus \<Rightarrow> project \<Rightarrow> project \<Rightarrow> command_log" where
  "log_of h bus initial state =
     \<lparr>cl_schema_version = log_schema_version, cl_initial_state = initial, cl_commands = bus_history bus,
      cl_audit_log = bus_audit_log bus, cl_cursor = bus_cursor bus, cl_workflows = map snd (bus_workflows bus),
      cl_executions = map snd (bus_executions bus), cl_state_digest = state_digest h state, cl_log_digest = None\<rparr>"

definition seal :: "host \<Rightarrow> codec \<Rightarrow> command_log \<Rightarrow> command_log" where
  "seal h cd entry = entry\<lparr>cl_log_digest := Some (log_value_digest h cd entry)\<rparr>"

text \<open>\<open>io\<close> is the failure of creating the directory or writing the file, if any.\<close>

definition persist :: "host \<Rightarrow> (nat \<Rightarrow> timestamp) \<Rightarrow> codec \<Rightarrow> string option \<Rightarrow> string \<Rightarrow> command_bus \<Rightarrow> files \<Rightarrow>
    (command_error + unit) \<times> files" where
  "persist h clock cd io path bus fs =
     (case and_then (current_project_for_persistence h clock bus) (\<lambda>state.
             map_ok (\<lambda>initial. seal h cd (log_of h bus initial state)) (ok_or (bus_initial bus) MissingStateSnapshot)) of
        Inl err \<Rightarrow> (Err err, fs)
      | Inr entry \<Rightarrow>
          case io of
            Some message \<Rightarrow> (Err (CommandIo message), fs)
          | None \<Rightarrow> (Ok (), fs(path \<mapsto> cd_pretty cd (cd_to_value cd entry))))"

definition check_log :: "host \<Rightarrow> codec \<Rightarrow> command_log \<Rightarrow> command_error + unit" where
  "check_log h cd entry =
     (if cl_schema_version entry \<noteq> log_schema_version then Err (UnsupportedLogSchema (cl_schema_version entry))
      else and_then (ok_or (cl_log_digest entry) MissingLogDigest) (\<lambda>expected.
        let observed = log_value_digest h cd (entry\<lparr>cl_log_digest := None\<rparr>) in
        if expected \<noteq> observed then Err (LogDigestMismatch expected observed)
        else reject (length (cl_commands entry) < cl_cursor entry)
          (CommandJson ''command cursor exceeds command history'')))"

definition bus_of_log :: "command_log \<Rightarrow> command_bus" where
  "bus_of_log entry =
     \<lparr>bus_history = cl_commands entry, bus_cursor = cl_cursor entry, bus_before = [], bus_after = [],
      bus_initial = Some (cl_initial_state entry), bus_current = None, bus_audit_log = cl_audit_log entry,
      bus_workflows = bt_of_list (map (\<lambda>w. (wf_id w, w)) (cl_workflows entry)),
      bus_executions = bt_of_list (map (\<lambda>r. (xr_command_id r, r)) (cl_executions entry)),
      bus_expected_digest = Some (cl_state_digest entry)\<rparr>"

definition load :: "host \<Rightarrow> codec \<Rightarrow> string \<Rightarrow> files \<Rightarrow> command_error + command_bus" where
  "load h cd path fs =
     and_then (ok_or (fs path) (CommandIo ''no such file'')) (\<lambda>text.
     and_then (map_err CommandJson (cd_from_str cd text)) (\<lambda>entry.
     and_then (check_log h cd entry) (\<lambda>_. Ok (bus_of_log entry))))"

end
