(* ===== verification/Command_Replay.thy ===== *)
theory Command_Replay
  imports Command_Log
begin

text \<open>
  Correctness of persistence and replay: applying a command at another instant changes the project only
  in its update instant, a recorded session replays to the same state, and a log is accepted only with a
  matching digest.
\<close>

section \<open>States up to the clock\<close>

text \<open>The update instant of the workspace is the one field that depends on when a command is applied.\<close>

definition erase_clock :: "project \<Rightarrow> project" where
  "erase_clock p = workspace_mut (\<lambda>w. w\<lparr>wk_updated_at := 0\<rparr>) p"

lemma erase_clock_simps [simp]:
  "wk_layers (pj_workspace (erase_clock p)) = wk_layers (pj_workspace p)"
  "wk_editable_layers (pj_workspace (erase_clock p)) = wk_editable_layers (pj_workspace p)"
  "wk_views (pj_workspace (erase_clock p)) = wk_views (pj_workspace p)"
  by (simp_all add: erase_clock_def)

lemma mutate_erase:
  "fst (mutate h now e d x (erase_clock p) c) = fst (mutate h now' e d x p c) \<and>
   erase_clock (snd (mutate h now e d x (erase_clock p) c)) = erase_clock (snd (mutate h now' e d x p c))"
  by (cases c) (auto simp: Let_def erase_clock_def record_command_provenance_def add_layer_def touch_def workspace_mut_def
      split: mutate_splits)

lemma mutate_sim:
  assumes "mutate h now e d x p c = (Ok u, p')" "erase_clock p = erase_clock q"
  obtains q' where "mutate h now' e d x q c = (Ok (), q')" "erase_clock p' = erase_clock q'"
proof -
  obtain r q' where q: "mutate h now' e d x q c = (r, q')" by (cases "mutate h now' e d x q c")
  have "r = Ok ()" "erase_clock p' = erase_clock q'"
    using mutate_erase [of h now e d x p c now] mutate_erase [of h now e d x q c now'] assms q by auto
  with q that show ?thesis by blast
qed

lemma erase_clock_digest: "erase_clock p = erase_clock q \<Longrightarrow> state_digest h p = state_digest h q"
proof -
  assume "erase_clock p = erase_clock q"
  then have "erase_project (erase_clock p) = erase_project (erase_clock q)" by simp
  then have "erase_project p = erase_project q"
    by (simp add: erase_clock_def erase_project_def workspace_mut_def)
  then show ?thesis
    using canonical_state_erase [of h p] canonical_state_erase [of h q] by (simp add: state_digest_def)
qed

text \<open>Two buses that went through the same commands at different instants.\<close>

definition bus_sim :: "command_bus \<Rightarrow> command_bus \<Rightarrow> bool" where
  "bus_sim b c \<longleftrightarrow> bus_history b = bus_history c \<and> bus_cursor b = bus_cursor c \<and> bus_audit_log b = bus_audit_log c \<and>
     bus_workflows b = bus_workflows c \<and> bus_executions b = bus_executions c \<and>
     map erase_clock (bus_before b) = map erase_clock (bus_before c) \<and>
     map erase_clock (bus_after b) = map erase_clock (bus_after c) \<and>
     (\<exists>s. bus_initial b = Some s \<and> bus_initial c = Some s)"

lemma list_get_sim:
  "map f xs = map f ys \<Longrightarrow> list_get xs i = Some x \<Longrightarrow> \<exists>y. list_get ys i = Some y \<and> f x = f y"
  by (metis list_get_def length_map nth_map option.distinct(1) option.sel)

lemma undo_sim:
  assumes "bus_sim b c" "undo p b = (Ok u, p', b')"
  obtains q' c' where "undo q c = (Ok (), q', c')" "erase_clock p' = erase_clock q'" "bus_sim b' c'"
proof -
  have b: "bus_cursor b \<noteq> 0" "list_get (bus_before b) (bus_cursor b - 1) = Some p'"
      "b' = b\<lparr>bus_cursor := bus_cursor b - 1, bus_current := Some p'\<rparr>"
    using assms(2) by (auto simp: undo_def split: if_splits option.splits)
  then obtain q' where "list_get (bus_before c) (bus_cursor b - 1) = Some q'" "erase_clock p' = erase_clock q'"
    using list_get_sim [of erase_clock "bus_before b" "bus_before c"] assms(1) by (auto simp: bus_sim_def)
  then show ?thesis using assms(1) b
    by (intro that [of q' "c\<lparr>bus_cursor := bus_cursor c - 1, bus_current := Some q'\<rparr>"])
      (simp_all add: undo_def bus_sim_def)
qed

lemma redo_sim:
  assumes "bus_sim b c" "redo p b = (Ok u, p', b')"
  obtains q' c' where "redo q c = (Ok (), q', c')" "erase_clock p' = erase_clock q'" "bus_sim b' c'"
proof -
  have b: "bus_cursor b < length (bus_history b)" "list_get (bus_after b) (bus_cursor b) = Some p'"
      "b' = b\<lparr>bus_cursor := bus_cursor b + 1, bus_current := Some p'\<rparr>"
    using assms(2) by (auto simp: redo_def split: if_splits option.splits)
  then obtain q' where "list_get (bus_after c) (bus_cursor b) = Some q'" "erase_clock p' = erase_clock q'"
    using list_get_sim [of erase_clock "bus_after b" "bus_after c"] assms(1) by (auto simp: bus_sim_def)
  then show ?thesis using assms(1) b
    by (intro that [of q' "c\<lparr>bus_cursor := bus_cursor c + 1, bus_current := Some q'\<rparr>"])
      (simp_all add: redo_def bus_sim_def)
qed

lemma authorisation_workflows:
  assumes "bus_workflows b = bus_workflows c"
  shows "validate_mutation_workflow h b e = validate_mutation_workflow h c e"
    "validate_workflow_command h b e = validate_workflow_command h c e"
    "run_executor ex b e d = run_executor ex c e d"
  unfolding validate_mutation_workflow_def validate_workflow_command_def run_executor_def assms by (rule refl)+

lemma commit_sim:
  assumes "bus_sim b c" "erase_clock p = erase_clock q" "erase_clock p' = erase_clock q'"
  shows "bus_sim (commit e d x p p' b) (commit e d x q q' c)"
proof -
  have "bus_executions (commit e d x p p' b) = bus_executions (commit e d x q q' c)"
    using assms by (simp add: commit_def Let_def bus_sim_def split: option.splits)
  then show ?thesis using assms by (auto simp: bus_sim_def take_map [symmetric] split: option.splits)
qed

text \<open>The executor of the replay agrees with the original one on this command.\<close>

definition agrees :: "host \<Rightarrow> executor option \<Rightarrow> executor option \<Rightarrow> command_bus \<Rightarrow> command_envelope \<Rightarrow> bool" where
  "agrees h ex ex' bus e \<longleftrightarrow> (\<forall>d x. validate_workflow_command h bus e = Ok d \<longrightarrow> run_executor ex bus e d = Ok x \<longrightarrow>
     run_executor ex' bus e d = Ok x)"

lemma dispatch_sim:
  assumes "bus_sim b c" "erase_clock p = erase_clock q" "agrees h ex ex' b e"
    and "dispatch h now ex e p b = (Ok r, p', b')"
  obtains r' q' c' where "dispatch h now' ex' e q c = (Ok r', q', c')" "erase_clock p' = erase_clock q'" "bus_sim b' c'"
  using assms(4)
proof (cases rule: dispatch_Ok_cases)
  case (mutation d x)
  have w: "bus_workflows b = bus_workflows c" using assms(1) by (simp add: bus_sim_def)
  obtain q' where q': "mutate h now' e d x q (ce_command e) = (Ok (), q')" "erase_clock p' = erase_clock q'"
    using mutation(2) mutate_sim [OF _ assms(2), of h now e d x "ce_command e" "()" p' now'] unfolding accepted_def by blast
  then have "accepted h now' ex' e q c d x q'"
    using mutation(2) assms(3) authorisation_workflows [OF w] by (auto simp: accepted_def agrees_def)
  from dispatch_mutation_accepted [OF this] mutation(1)
  have "dispatch h now' ex' e q c = (Ok (execution h (commit e d x q q' c) (ce_id e) d x q'), q', commit e d x q q' c)"
    by (simp add: dispatch_cases controls_def)
  from that [OF this q'(2)] commit_sim [OF assms(1,2) q'(2)] mutation(3) show ?thesis by blast
next
  case (undone b1)
  from undo_sim [OF assms(1) undone(2)] obtain q' c1 where c1: "undo q c = (Ok (), q', c1)"
    "erase_clock p' = erase_clock q'" "bus_sim b1 c1" by blast
  then show ?thesis using undone
    by (intro that [of _ q' "c1\<lparr>bus_audit_log := bus_audit_log c1 @ [e]\<rparr>"])
      (auto simp: dispatch_cases control_def Let_def bus_sim_def)
next
  case (redone b1)
  from redo_sim [OF assms(1) redone(2)] obtain q' c1 where c1: "redo q c = (Ok (), q', c1)"
    "erase_clock p' = erase_clock q'" "bus_sim b1 c1" by blast
  then show ?thesis using redone
    by (intro that [of _ q' "c1\<lparr>bus_audit_log := bus_audit_log c1 @ [e]\<rparr>"])
      (auto simp: dispatch_cases control_def Let_def bus_sim_def)
qed

section \<open>Replaying a recorded session\<close>

lemma bt_of_list_wf [simp]: "bt_wf m \<Longrightarrow> bt_of_list m = m"
proof (rule bt.entries_eqI)
  fix k assume "bt_wf m"
  then show "bt_get (bt_of_list m) k = bt_get m k"
    using bt_get_of_list_distinct [OF bt.distinct_keys] bt.get_entries by metis
qed simp_all

text \<open>The registered graphs are filed under their identities and validate; the records are filed under
  the commands they belong to.\<close>

definition registered_ok :: "host \<Rightarrow> command_bus \<Rightarrow> bool" where
  "registered_ok h bus \<longleftrightarrow> bt_wf (bus_workflows bus) \<and> bt_wf (bus_executions bus) \<and>
     (\<forall>(k, w) \<in> set (bus_workflows bus). wf_id w = k \<and> validate_workflow (ho_hash h) w = Ok ()) \<and>
     (\<forall>(k, r) \<in> set (bus_executions bus). xr_command_id r = k)"

lemma set_bt_insert: "set (bt_insert k v m) \<subseteq> insert (k, v) (set m)"
  by (induction k v m rule: bt_insert.induct) auto

lemma register_workflow_Ok:
  "register_workflow h w bus = (Ok d, bus') \<Longrightarrow> validate_workflow (ho_hash h) w = Ok () \<and>
     bus' = bus\<lparr>bus_workflows := bt_insert (wf_id w) w (bus_workflows bus)\<rparr>"
  by (auto simp: register_workflow_def split: sum.splits)

lemma register_workflow_Err: "register_workflow h w bus = (Err err, bus') \<Longrightarrow> bus' = bus"
  by (auto simp: register_workflow_def split: sum.splits)

lemma register_workflow_valid:
  "validate_workflow (ho_hash h) w = Ok () \<Longrightarrow> register_workflow h w bus =
     (Ok (workflow_digest_new (stable_digest_unchecked (ho_hash h) w)),
      bus\<lparr>bus_workflows := bt_insert (wf_id w) w (bus_workflows bus)\<rparr>)"
  by (simp add: register_workflow_def stable_digest_def)

lemma registered_register:
  assumes "registered_ok h bus" "register_workflow h w bus = (r, bus')"
  shows "registered_ok h bus'"
proof (cases r)
  case (Inr d)
  with register_workflow_Ok assms(2) have "validate_workflow (ho_hash h) w = Ok ()"
    "bus' = bus\<lparr>bus_workflows := bt_insert (wf_id w) w (bus_workflows bus)\<rparr>" by blast+
  then show ?thesis using assms(1) set_bt_insert [of "wf_id w" w "bus_workflows bus"] by (auto simp: registered_ok_def)
qed (use assms register_workflow_Err in blast)

lemma registered_commit: "registered_ok h bus \<Longrightarrow> registered_ok h (commit e d x p p' bus)"
  using set_bt_insert [of "ce_id e" _ "bus_executions bus"]
  by (fastforce simp: registered_ok_def commit_def Let_def record_of_def split: option.splits)

lemma registered_dispatch:
  assumes "registered_ok h bus" "dispatch h now ex e p bus = (r, p', bus')"
  shows "registered_ok h bus' \<and> bus_workflows bus' = bus_workflows bus"
proof (cases r)
  case (Inl err)
  then show ?thesis using assms dispatch_error_same by blast
next
  case (Inr a)
  with assms(2) have "dispatch h now ex e p bus = (Ok a, p', bus')" by simp
  then show ?thesis
  proof (cases rule: dispatch_Ok_cases)
    case (mutation d x)
    then show ?thesis using registered_commit [OF assms(1)] by simp
  next
    case (undone bus1)
    then show ?thesis using assms(1) undo_redo_frame(1) [OF undone(2)] by (simp add: registered_ok_def)
  next
    case (redone bus1)
    then show ?thesis using assms(1) undo_redo_frame(2) [OF redone(2)] by (simp add: registered_ok_def)
  qed
qed

lemma register_all_registered:
  "register_all h ws bus = Ok bus' \<Longrightarrow> registered_ok h bus \<Longrightarrow>
     registered_ok h bus' \<and> bus' = bus\<lparr>bus_workflows := bus_workflows bus'\<rparr>"
proof (induction ws arbitrary: bus)
  case (Cons w ws)
  then obtain d bus1 where w: "register_workflow h w bus = (Ok d, bus1)" "register_all h ws bus1 = Ok bus'"
    by (auto split: prod.splits sum.splits)
  from Cons.IH [OF w(2) registered_register [OF Cons.prems(2) w(1)]] register_workflow_Ok [OF w(1)]
  show ?case by (metis command_bus.surjective command_bus.update_convs(8))
qed simp

text \<open>Registering the graphs of a bus again rebuilds its registry.\<close>

lemma register_all_again:
  assumes "\<And>k w. (k, w) \<in> set m \<Longrightarrow> wf_id w = k \<and> validate_workflow (ho_hash h) w = Ok ()"
  shows "register_all h (map snd m) bus = Ok (bus\<lparr>bus_workflows := fold (\<lambda>(k, v). bt_insert k v) m (bus_workflows bus)\<rparr>)"
  using assms
proof (induction m arbitrary: bus)
  case (Cons kw m)
  obtain k w where kw: "kw = (k, w)" by (cases kw)
  then have w: "wf_id w = k" "validate_workflow (ho_hash h) w = Ok ()" using Cons.prems by auto
  note IH = Cons.IH [OF Cons.prems, OF list.set_intros(2)]
  show ?case unfolding kw using register_workflow_valid [OF w(2)] w(1) IH by simp
qed simp

lemma register_all_new:
  assumes "registered_ok h bus"
  shows "register_all h (map snd (bus_workflows bus)) (bus_new p0) = Ok ((bus_new p0)\<lparr>bus_workflows := bus_workflows bus\<rparr>)"
proof -
  have "fold (\<lambda>(k, v). bt_insert k v) (bus_workflows bus) [] = bus_workflows bus"
    using assms bt_of_list_wf [of "bus_workflows bus"] by (simp add: registered_ok_def bt_of_list_def)
  moreover have "bus_workflows (bus_new p0) = []" by (simp add: bus_new_def bus_default_def)
  moreover have "wf_id w = k \<and> validate_workflow (ho_hash h) w = Ok ()" if "(k, w) \<in> set (bus_workflows bus)" for k w
    using assms that by (auto simp: registered_ok_def)
  ultimately show ?thesis using register_all_again [of "bus_workflows bus" h "bus_new p0"] by simp
qed

text \<open>A recorded session registers its workflows first and runs each workflow under a fresh command
  identity; commands may fail, be undone and be redone.\<close>

inductive recording :: "host \<Rightarrow> project \<Rightarrow> geo_workflow list \<Rightarrow> project \<Rightarrow> command_bus \<Rightarrow> bool" for h p0 ws where
  recording_start: "register_all h ws (bus_new p0) = Ok bus \<Longrightarrow> recording h p0 ws p0 bus"
| recording_dispatch: "recording h p0 ws p bus \<Longrightarrow>
    (\<And>i. ce_command e = RunWorkflow i \<Longrightarrow> bt_get (bus_executions bus) (ce_id e) = None) \<Longrightarrow>
    dispatch h now ex e p bus = (r, p', bus') \<Longrightarrow> recording h p0 ws p' bus'"

lemma session_register_all: "register_all h ws bus = Ok bus' \<Longrightarrow> session h p0 p bus \<Longrightarrow> session h p0 p bus'"
  by (induction ws arbitrary: bus) (auto split: prod.splits sum.splits intro: session_register)

lemma recording_session: "recording h p0 ws p bus \<Longrightarrow> session h p0 p bus"
  by (induction rule: recording.induct) (auto intro: session_register_all session_new session_dispatch)

lemma registered_new: "registered_ok h (bus_new p0)"
  by (simp add: registered_ok_def bus_new_def bus_default_def)

lemma recording_registered: "recording h p0 ws p bus \<Longrightarrow> registered_ok h bus \<and> bus_expected_digest bus = None"
proof (induction rule: recording.induct)
  case (recording_start bus)
  note r = register_all_registered [OF recording_start registered_new]
  then have "bus_expected_digest bus = bus_expected_digest ((bus_new p0)\<lparr>bus_workflows := bus_workflows bus\<rparr>)" by simp
  then show ?case using r by (simp add: bus_new_def bus_default_def)
next
  case (recording_dispatch p bus e now ex r p' bus')
  then have "bus_expected_digest bus' = None"
  proof (cases r)
    case (Inr a)
    with recording_dispatch(3) have "dispatch h now ex e p bus = (Ok a, p', bus')" by simp
    then show ?thesis
      by (cases rule: dispatch_Ok_cases) (use recording_dispatch(4) in \<open>auto dest!: undo_redo_frame\<close>)
  qed (use dispatch_error_same in blast)
  then show ?case using recording_dispatch registered_dispatch by blast
qed

lemma apply_events_snoc:
  "apply_events h clock ex (es @ [e]) p bus =
     and_then (apply_events h (\<lambda>n. clock (Suc n)) ex es p bus) (\<lambda>(p, bus).
       case dispatch h (clock 0) ex e p bus of (Inl err, _, _) \<Rightarrow> Err err | (Inr _, p, bus) \<Rightarrow> Ok (p, bus))"
  by (induction es arbitrary: p bus) (auto split: prod.splits sum.splits)

lemma execution_of_record [simp]: "execution_of (record_of e d x) = x"
  by (simp add: execution_of_def record_of_def)

lemma digest_needs_run: "validate_workflow_command h bus e = Ok (Some d) \<Longrightarrow> \<exists>i. ce_command e = RunWorkflow i"
  by (auto simp: validate_workflow_command_def split: command.splits)

lemma bus_executions_commit:
  "bt_get (bus_executions (commit e d x p p' bus)) k =
     (case (d, x) of (Some d, Some x) \<Rightarrow> if k = ce_id e then Some (record_of e d x) else bt_get (bus_executions bus) k
      | _ \<Rightarrow> bt_get (bus_executions bus) k)"
  by (simp add: commit_def Let_def split: option.splits)

lemma recorded_agrees:
  assumes acc: "accepted h now ex e p bus d x p'"
    and R: "\<And>k r. bt_get (bus_executions (commit e d x p p' bus)) k = Some r \<Longrightarrow> bt_get R k = Some r"
    and ex': "ex' = (if R = [] then None else Some (recorded_executor h R))"
  shows "agrees h ex ex' bus e"
  unfolding agrees_def
proof (intro allI impI)
  fix d' x' assume v: "validate_workflow_command h bus e = Ok d'" and r: "run_executor ex bus e d' = Ok x'"
  then have same: "d' = d" "x' = x" using acc by (auto simp: accepted_def)
  show "run_executor ex' bus e d' = Ok x'"
  proof (cases d)
    case None
    then show ?thesis using r same by simp
  next
    case (Some dd)
    then obtain f w y i where y: "ce_command e = RunWorkflow i" "bt_get (bus_workflows bus) i = Some w"
        "\<not> blank (we_result_digest y)" "x = Some y"
      using r same run_executor_Some [of ex bus e dd x] by auto
    then have "bt_get R (ce_id e) = Some (record_of e dd y)"
      using R Some by (simp add: bus_executions_commit)
    moreover from this have "R \<noteq> []" by auto
    ultimately show ?thesis
      using y Some same by (simp add: ex' run_executor_def ok_or_def recorded_executor_def context_of_def)
        (simp add: record_of_def)
  qed
qed

lemma recording_replays:
  assumes "recording h p0 ws p bus"
    and "\<And>k r. bt_get (bus_executions bus) k = Some r \<Longrightarrow> bt_get R k = Some r"
    and ex': "ex' = (if R = [] then None else Some (recorded_executor h R))"
  shows "\<exists>q c. apply_events h clock ex' (bus_audit_log bus) p0 ((bus_new p0)\<lparr>bus_workflows := bus_workflows bus\<rparr>) = Ok (q, c) \<and>
    erase_clock p = erase_clock q \<and> bus_sim bus c"
  using assms(1,2)
proof (induction arbitrary: clock rule: recording.induct)
  case (recording_start bus)
  obtain reg where "bus = (bus_new p0)\<lparr>bus_workflows := reg\<rparr>"
    using register_all_registered [OF recording_start(1) registered_new] by blast
  then show ?case by (simp add: bus_sim_def bus_new_def bus_default_def)
next
  case (recording_dispatch p bus e now ex r p' bus')
  show ?case
  proof (cases r)
    case (Inl err)
    then have "p' = p" "bus' = bus" using recording_dispatch(3) dispatch_error_same by blast+
    then show ?thesis using recording_dispatch.IH recording_dispatch.prems by blast
  next
    case (Inr a)
    with recording_dispatch(3) have ok: "dispatch h now ex e p bus = (Ok a, p', bus')" by simp
    then have step: "bus_audit_log bus' = bus_audit_log bus @ [e] \<and> bus_workflows bus' = bus_workflows bus \<and>
        agrees h ex ex' bus e \<and> (\<forall>k r. bt_get (bus_executions bus) k = Some r \<longrightarrow> bt_get (bus_executions bus') k = Some r)"
    proof (cases rule: dispatch_Ok_cases)
      case (mutation d x)
      have fresh: "bt_get (bus_executions bus) (ce_id e) = None" if "d = Some dd" for dd
        using that mutation(2) digest_needs_run [of h bus e dd] recording_dispatch(2) unfolding accepted_def by blast
      have "bt_get (bus_executions bus') k = Some r" if "bt_get (bus_executions bus) k = Some r" for k r
        using that fresh mutation(3) by (auto simp: bus_executions_commit split: option.splits)
      moreover have "agrees h ex ex' bus e"
        using recorded_agrees [OF mutation(2) _ ex'] recording_dispatch.prems mutation(3) by blast
      ultimately show ?thesis using mutation(3) by simp
    next
      case (undone bus1)
      have "agrees h ex ex' bus e"
        using undone(1) by (auto simp: agrees_def validate_workflow_command_def)
      then show ?thesis using undone(3) undo_redo_frame(1) [OF undone(2)] by simp
    next
      case (redone bus1)
      have "agrees h ex ex' bus e"
        using redone(1) by (auto simp: agrees_def validate_workflow_command_def)
      then show ?thesis using redone(3) undo_redo_frame(2) [OF redone(2)] by simp
    qed
    then obtain q c where qc: "apply_events h (\<lambda>n. clock (Suc n)) ex' (bus_audit_log bus) p0
          ((bus_new p0)\<lparr>bus_workflows := bus_workflows bus\<rparr>) = Ok (q, c)"
        "erase_clock p = erase_clock q" "bus_sim bus c"
      using recording_dispatch.IH [of "\<lambda>n. clock (Suc n)"] recording_dispatch.prems by blast
    from dispatch_sim [OF qc(3,2) _ ok, of ex' "clock 0"] step obtain r' q' c'
      where "dispatch h (clock 0) ex' e q c = (Ok r', q', c')" "erase_clock p' = erase_clock q'" "bus_sim bus' c'" by blast
    then show ?thesis using qc(1) step by (simp add: apply_events_snoc)
  qed
qed

lemma replay_recorded:
  assumes "recording h p0 ws p bus"
    and "bus_history b = bus_history bus" "bus_cursor b = bus_cursor bus" "bus_audit_log b = bus_audit_log bus"
    and "bus_initial b = Some p0" "bus_workflows b = bus_workflows bus" "bus_executions b = bus_executions bus"
    and "bus_expected_digest b \<in> {None, Some (state_digest h p)}"
  shows "\<exists>q b'. replay h clock b = (Ok q, b') \<and> erase_clock q = erase_clock p \<and> bus_sim bus b' \<and> bus_current b' = Some q"
proof -
  let ?ex = "replay_executor h None b"
  have ex: "?ex = (if bus_executions bus = [] then None else Some (recorded_executor h (bus_executions bus)))"
    by (simp add: replay_executor_def assms(7))
  have reg: "registered_ok h bus" using recording_registered assms(1) by blast
  obtain q c where qc: "apply_events h clock ?ex (bus_audit_log bus) p0 ((bus_new p0)\<lparr>bus_workflows := bus_workflows bus\<rparr>) = Ok (q, c)"
      "erase_clock p = erase_clock q" "bus_sim bus c"
    using recording_replays [OF assms(1) _ ex, of clock] by blast
  have events: "(if bus_audit_log b = [] then bus_history b else bus_audit_log b) = bus_audit_log bus"
  proof (cases "bus_audit_log bus = []")
    case True
    then have "c = (bus_new p0)\<lparr>bus_workflows := bus_workflows bus\<rparr>" using qc(1) by auto
    then have "bus_history bus = []" using qc(3) by (simp add: bus_sim_def bus_new_def bus_default_def)
    then show ?thesis using True assms by simp
  qed (use assms in simp)
  have "check_replay_digest h (bus_expected_digest b) q = Ok ()"
    using assms(8) erase_clock_digest [OF qc(2), of h] by (auto simp: check_replay_digest_def)
  moreover have "bus_cursor c = bus_cursor b" using qc(3) assms(3) by (simp add: bus_sim_def)
  ultimately have "replay_states h clock None b = Ok (q, c)"
    using register_all_new [OF reg, of p0] qc(1) assms(5,6) by (simp add: replay_states_def events Let_def ok_or_def)
  then have "replay h clock b = (Ok q, b\<lparr>bus_history := bus_history c, bus_before := bus_before c,
      bus_after := bus_after c, bus_cursor := bus_cursor c, bus_initial := bus_initial c,
      bus_executions := bus_executions c, bus_current := Some q\<rparr>)"
    by (simp add: replay_def replay_inner_def)
  then show ?thesis using qc assms by (auto simp: bus_sim_def)
qed

section \<open>Properties\<close>

lemma recording_state:
  assumes "recording h p0 ws p bus"
  shows "bus_initial bus = Some p0" "bus_current bus = Some p" "bus_cursor bus \<le> length (bus_history bus)"
  using session_snapshots [OF recording_session [OF assms]] by (auto simp: snapshots_ok_def)

lemma rekeyed [simp]:
  "bt_wf m \<Longrightarrow> (\<And>k v. (k, v) \<in> set m \<Longrightarrow> key v = k) \<Longrightarrow> bt_of_list (map (\<lambda>v. (key v, v)) (map snd m)) = m"
proof -
  assume m: "bt_wf m" and k: "\<And>k v. (k, v) \<in> set m \<Longrightarrow> key v = k"
  have "map (\<lambda>v. (key v, v)) (map snd m) = m" using k by (auto intro: map_idI)
  then show ?thesis using m by simp
qed

text \<open>C1: A recorded session survives persistence: writing the log and loading it from the file system
  succeeds, and replaying the loaded bus, at whatever instants, returns the project of the session up to
  the workspace's update instant, with the same history and cursor and with snapshots for undo and redo
  that agree with the original ones; the replay passes its check of the stored state digest.\<close>

theorem persisted_session_replays:
  assumes "recording h p0 ws p bus"
    and "cd_from_str cd (cd_pretty cd (cd_to_value cd (seal h cd (log_of h bus p0 p)))) =
           Inr (seal h cd (log_of h bus p0 p))"
    and "persist h clock cd io path bus fs = (Ok (), fs')"
  shows "\<exists>loaded q bus'. load h cd path fs' = Ok loaded \<and> replay h clock' loaded = (Ok q, bus') \<and>
    erase_clock q = erase_clock p \<and> state_digest h q = state_digest h p \<and>
    bus_history bus' = bus_history bus \<and> bus_cursor bus' = bus_cursor bus \<and>
    map erase_clock (bus_before bus') = map erase_clock (bus_before bus) \<and>
    map erase_clock (bus_after bus') = map erase_clock (bus_after bus) \<and> bus_audit_log bus' = bus_audit_log bus"
proof -
  note st = recording_state [OF assms(1)] and reg = conjunct1 [OF recording_registered [OF assms(1)]]
  let ?l = "seal h cd (log_of h bus p0 p)"
  have fs: "fs' path = Some (cd_pretty cd (cd_to_value cd ?l))"
    using assms(3) st by (auto simp: persist_def current_project_for_persistence_def ok_or_def split: option.splits)
  have "(log_of h bus p0 p)\<lparr>cl_log_digest := None\<rparr> = log_of h bus p0 p" by (simp add: log_of_def)
  then have "check_log h cd ?l = Ok ()"
    using st(3) by (simp add: check_log_def seal_def ok_or_def reject_def Let_def) (simp add: log_of_def reject_def)
  then have load: "load h cd path fs' = Ok (bus_of_log ?l)"
    using fs assms(2) by (simp add: load_def ok_or_def)
  let ?b = "bus_of_log ?l"
  have "bus_workflows ?b = bus_workflows bus" "bus_executions ?b = bus_executions bus"
    using reg by (auto simp: bus_of_log_def seal_def log_of_def registered_ok_def simp del: map_map intro!: rekeyed)
  moreover have "bus_history ?b = bus_history bus" "bus_cursor ?b = bus_cursor bus" "bus_audit_log ?b = bus_audit_log bus"
    "bus_initial ?b = Some p0" "bus_expected_digest ?b = Some (state_digest h p)"
    by (simp_all add: bus_of_log_def seal_def log_of_def)
  ultimately obtain q b' where "replay h clock' ?b = (Ok q, b')" "erase_clock q = erase_clock p" "bus_sim bus b'"
    using replay_recorded [OF assms(1), of ?b clock'] by auto
  then show ?thesis using load erase_clock_digest [of q p h] by (auto simp: bus_sim_def)
qed

definition demo_log :: command_log where
  "demo_log = (log_of sample_host demo_bus demo_project demo_layers)
     \<lparr>cl_log_digest := Some (digest_json (h_to_string identity_hashing) (h_sha256 identity_hashing) JNull)\<rparr>"

definition demo_codec :: codec where
  "demo_codec = \<lparr>cd_to_value = (\<lambda>_. JNull), cd_pretty = (\<lambda>_. ''log''),
     cd_from_str = (\<lambda>s. if s = ''log'' then Inr demo_log else Inl ''syntax'')\<rparr>"

lemma demo_recording: "recording sample_host demo_project [] demo_layers demo_bus"
  by (rule recording_dispatch [OF recording_start _ demo_dispatch])
    (simp_all add: demo_add_def envelope_new_def)

theorem persisted_session_replays_witness:
  "\<exists>loaded q bus'. load sample_host demo_codec ''f'' [''f'' \<mapsto> ''log''] = Ok loaded \<and>
     replay sample_host (\<lambda>n. 99) loaded = (Ok q, bus') \<and> erase_clock q = erase_clock demo_layers"
proof -
  have seal: "seal sample_host demo_codec (log_of sample_host demo_bus demo_project demo_layers) = demo_log"
    by (simp add: seal_def demo_log_def log_value_digest_def demo_codec_def sample_host_def)
  have "persist sample_host (\<lambda>n. 0) demo_codec None ''f'' demo_bus Map.empty = (Ok (), [''f'' \<mapsto> ''log''])"
    using recording_state [OF demo_recording]
    by (simp add: persist_def current_project_for_persistence_def ok_or_def demo_codec_def)
  from persisted_session_replays [OF demo_recording _ this, where clock' = "\<lambda>n. 99"] show ?thesis
    unfolding seal by (auto simp: demo_codec_def)
qed

lemma check_log_Ok_iff:
  "check_log h cd l = Ok () \<longleftrightarrow> cl_schema_version l = log_schema_version \<and>
     cl_log_digest l = Some (log_value_digest h cd (l\<lparr>cl_log_digest := None\<rparr>)) \<and> cl_cursor l \<le> length (cl_commands l)"
  by (auto simp: check_log_def result_simps Let_def)

lemma load_Ok_iff:
  "load h cd path fs = Ok b \<longleftrightarrow> (\<exists>text l. fs path = Some text \<and> cd_from_str cd text = Inr l \<and>
     check_log h cd l = Ok () \<and> b = bus_of_log l)"
  by (auto simp: load_def result_simps)

text \<open>\<open>load\<close> accepts a log exactly when it has the supported schema version, carries as log digest the
  digest of its own contents without that field, and its cursor lies within its history; a log that was
  modified without recomputing the digest is rejected.\<close>

theorem load_accepts_iff:
  "is_ok (load h cd path fs) \<longleftrightarrow>
     (\<exists>text l. fs path = Some text \<and> cd_from_str cd text = Inr l \<and> cl_schema_version l = 1 \<and>
        cl_log_digest l = Some (log_value_digest h cd (l\<lparr>cl_log_digest := None\<rparr>)) \<and>
        cl_cursor l \<le> length (cl_commands l))"
proof -
  have "is_ok (load h cd path fs) \<longleftrightarrow> (\<exists>b. load h cd path fs = Ok b)"
    by (cases "load h cd path fs") simp_all
  then show ?thesis unfolding load_Ok_iff check_log_Ok_iff log_schema_version_def by blast
qed

lemma dispatch_workflows: "dispatch h now ex e p bus = (Ok r, p', bus') \<Longrightarrow> bus_workflows bus' = bus_workflows bus"
  by (erule dispatch_Ok_cases) (auto dest!: undo_redo_frame)

lemma register_all_fold:
  "register_all h ws bus = Ok bus' \<Longrightarrow>
     bus_workflows bus' = fold (\<lambda>w. bt_insert (wf_id w) w) ws (bus_workflows bus)"
  by (induction ws arbitrary: bus) (auto split: prod.splits sum.splits dest!: register_workflow_Ok)

lemma apply_events_authorised:
  "apply_events h clock ex es p bus = Ok r \<Longrightarrow> e \<in> set es \<Longrightarrow> mutation_of (ce_command e) = Some (b, op) \<Longrightarrow>
     \<exists>w. bt_get (bus_workflows bus) (mb_workflow_id b) = Some w \<and>
       ce_workflow_digest e = Some (stable_digest_unchecked (ho_hash h) w)"
proof (induction es arbitrary: p bus)
  case (Cons e' es)
  then obtain a p1 bus1 where d: "dispatch h (clock (length es)) ex e' p bus = (Ok a, p1, bus1)"
      "apply_events h clock ex es p1 bus1 = Ok r"
    by (auto split: prod.splits sum.splits)
  show ?case
  proof (cases "e = e'")
    case True
    from d(1) show ?thesis
    proof (cases rule: dispatch_Ok_cases)
      case (mutation d x)
      then show ?thesis
        using True Cons.prems(3) validate_mutation_workflow_cases [of h bus e "()" b op] unfolding accepted_def by blast
    qed (use True Cons.prems(3) in auto)
  next
    case False
    then show ?thesis using Cons.IH [OF d(2)] Cons.prems dispatch_workflows [OF d(1)] by simp
  qed
qed simp

text \<open>A replay returns a state only if every recorded mutation is still authorised by the graphs
  registered now: when the digest a mutation carries differs from that of the graph under its workflow
  identity, the replay fails and leaves the bus as it was.\<close>

theorem replay_needs_registered_graph:
  assumes "e \<in> set (bus_audit_log bus)" and "mutation_of (ce_command e) = Some (b, op)"
    and "bt_wf (bus_workflows bus)" and "\<And>k v. (k, v) \<in> set (bus_workflows bus) \<Longrightarrow> wf_id v = k"
    and "bt_get (bus_workflows bus) (mb_workflow_id b) = Some w"
    and "ce_workflow_digest e \<noteq> Some (stable_digest_unchecked (ho_hash h) w)"
  shows "\<exists>err. replay h clock bus = (Err err, bus)"
proof (cases "replay_states h clock None bus")
  case (Inl err)
  then show ?thesis by (simp add: replay_def replay_inner_def)
next
  case (Inr rc)
  then obtain initial replayed s where r: "register_all h (map snd (bus_workflows bus)) (bus_new initial) = Ok replayed"
      "apply_events h clock (replay_executor h None bus) (bus_audit_log bus) initial replayed = Ok s"
    using assms(1) by (auto simp: replay_states_def result_simps Let_def split: if_splits)
  have "map (\<lambda>v. (wf_id v, v)) (map snd (bus_workflows bus)) = bus_workflows bus"
    using assms(4) by (auto intro: map_idI)
  then have "bus_workflows replayed = bt_of_list (bus_workflows bus)"
    using register_all_fold [OF r(1)] fold_map [of "\<lambda>(k, v). bt_insert k v" "\<lambda>v. (wf_id v, v)" "map snd (bus_workflows bus)"]
    by (simp add: bt_of_list_def bus_new_def bus_default_def comp_def)
  then have "bus_workflows replayed = bus_workflows bus" using assms(3) by simp
  with apply_events_authorised [OF r(2) assms(1,2)] assms(5,6) show ?thesis by simp
qed

theorem replay_needs_registered_graph_witness:
  "\<exists>err. replay sample_host (\<lambda>n. 99)
     (demo_registered\<lparr>bus_audit_log := [demo_initialize\<lparr>ce_workflow_digest := Some ''stale''\<rparr>]\<rparr>) =
     (Err err, demo_registered\<lparr>bus_audit_log := [demo_initialize\<lparr>ce_workflow_digest := Some ''stale''\<rparr>]\<rparr>)"
proof (rule replay_needs_registered_graph)
  show "demo_initialize\<lparr>ce_workflow_digest := Some ''stale''\<rparr> \<in>
      set (bus_audit_log (demo_registered\<lparr>bus_audit_log := [demo_initialize\<lparr>ce_workflow_digest := Some ''stale''\<rparr>]\<rparr>))" by simp
  show "mutation_of (ce_command (demo_initialize\<lparr>ce_workflow_digest := Some ''stale''\<rparr>)) =
      Some (\<lparr>mb_workflow_id = 2, mb_node_id = ''s''\<rparr>, ''InitializeEditableLayer'')"
    by (simp add: demo_initialize_def envelope_new_def)
  show "ce_workflow_digest (demo_initialize\<lparr>ce_workflow_digest := Some ''stale''\<rparr>) \<noteq>
      Some (stable_digest_unchecked (ho_hash sample_host) demo_workflow)"
    by (simp add: stable_digest_unchecked_def)
qed (auto simp: demo_registered_def bt_wf_def bt_get_def demo_workflow_def workflow_new_def)

end
