(* ===== verification/Incremental.thy ===== *)
theory Incremental
  imports Digest
begin

text \<open>
  \<open>genegis-core/src/incremental.rs\<close>: partition-aware incremental recomputation of a workflow. The node
  executor (an \<open>FnMut\<close>) passes its own state along; the RFC 3339 parser of \<open>chrono\<close> and the compact JSON
  text that \<open>serde_json::to_vec\<close> gives a change and the output table are fields of \<open>inc_host\<close>.
  \<open>IncPanic\<close> stands for the panic of \<open>expect\<close>.
\<close>

section \<open>Data\<close>

type_synonym partition_key = string

record input_window =
  iw_partition :: partition_key
  iw_cursor_start :: u64
  iw_cursor_end :: u64
  iw_watermark_start :: string
  iw_watermark_end :: string

datatype change_kind = Append | Late u64 | Replacement string

record change =
  ch_input_name :: string
  ch_window :: input_window
  ch_snapshot_digest :: string
  ch_change :: change_kind

record decision =
  de_node_id :: string
  de_partition :: partition_key
  de_reason :: string

datatype event =
    WindowAdmitted input_window
  | LateDataAccepted partition_key u64
  | InputReplacement partition_key string string
  | Attempt string partition_key nat
  | Retry string partition_key nat string
  | OutputCommitted string partition_key string "string option"
  | RunFailed string partition_key nat string

record run_receipt =
  rr_schema_version :: string
  rr_workflow_digest :: string
  rr_change_digest :: string
  rr_decisions :: "decision list"
  rr_events :: "event list"
  rr_completed :: bool
  rr_state_digest :: string

datatype incremental_error = IncInvalid string | IncWorkflow workflow_error | IncDigest | IncPanic

type_synonym outputs = "(string, (partition_key, string) btmap) btmap"

record scheduler =
  sc_outputs :: outputs
  sc_history :: "run_receipt list"

record inc_host =
  in_hash :: hashing
  in_parse_rfc3339 :: "string \<Rightarrow> timestamp option"
  in_change_text :: "change \<Rightarrow> string"
  in_outputs_text :: "outputs \<Rightarrow> string"

type_synonym 's node_executor = "'s \<Rightarrow> workflow_step \<Rightarrow> partition_key \<Rightarrow> nat \<Rightarrow> (string + string) \<times> 's"

definition receipt_schema_version :: string where
  "receipt_schema_version = ''0.1.0''"

definition output_digest :: "scheduler \<Rightarrow> string \<Rightarrow> partition_key \<Rightarrow> string option" where
  "output_digest s node part = Option.bind (bt_get (sc_outputs s) node) (\<lambda>m. bt_get m part)"

definition require_digest :: "string \<Rightarrow> string \<Rightarrow> incremental_error + unit" where
  "require_digest v label =
     (if (case strip_prefix ''sha256:'' v of None \<Rightarrow> False
          | Some x \<Rightarrow> length x = 64 \<and> list_all is_ascii_hexdigit x)
      then Ok () else Err (IncInvalid (''invalid '' @ label)))"

definition inc_digest :: "inc_host \<Rightarrow> string \<Rightarrow> string" where
  "inc_digest h text = ''sha256:'' @ hex (h_sha256 (in_hash h) text)"

section \<open>Validation\<close>

definition validate_change :: "inc_host \<Rightarrow> geo_workflow \<Rightarrow> change \<Rightarrow> incremental_error + unit" where
  "validate_change h w c =
     (if blank (ch_input_name c) \<or> blank (iw_partition (ch_window c)) \<or>
         \<not> list_ex (\<lambda>i. ic_name i = ch_input_name c) (wf_input_contracts w) \<or>
         iw_cursor_end (ch_window c) < iw_cursor_start (ch_window c)
      then Err (IncInvalid ''input, partition, or cursor window is invalid'')
      else and_then (require_digest (ch_snapshot_digest c) ''snapshot digest'') (\<lambda>_.
        and_then (ok_or (in_parse_rfc3339 h (iw_watermark_start (ch_window c)))
          (IncInvalid ''invalid start watermark'')) (\<lambda>start.
        and_then (ok_or (in_parse_rfc3339 h (iw_watermark_end (ch_window c)))
          (IncInvalid ''invalid end watermark'')) (\<lambda>finish.
          if finish < start then Err (IncInvalid ''watermark regressed'')
          else case ch_change c of
              Replacement replaced \<Rightarrow>
                and_then (require_digest replaced ''replaced snapshot digest'') (\<lambda>_.
                  reject (replaced = ch_snapshot_digest c) (IncInvalid ''replacement snapshot must differ''))
            | _ \<Rightarrow> Ok ()))))"

section \<open>Planning\<close>

definition direct_consumers :: "geo_workflow \<Rightarrow> string \<Rightarrow> string list" where
  "direct_consumers w input = bs_of_list (map ws_stable_id
     (filter (\<lambda>s. list_ex (\<lambda>r. dr_node r = None \<and> dr_port r = input) (ws_inputs s)) (wf_steps w)))"

definition visit_step :: "string \<Rightarrow> workflow_step \<Rightarrow> string list \<times> string list \<Rightarrow> string list \<times> string list" where
  "visit_step source s = (\<lambda>(affected, queue).
     if source \<in> set (ws_depends_on s) \<and> ws_stable_id s \<notin> set affected
     then (bs_insert (ws_stable_id s) affected, queue @ [ws_stable_id s]) else (affected, queue))"

lemma visit_steps:
  "\<exists>new. fold (visit_step source) steps (affected, queue) = (fst (fold (visit_step source) steps (affected, queue)), queue @ new) \<and>
     set new = {ws_stable_id s | s. s \<in> set steps \<and> source \<in> set (ws_depends_on s)} - set affected \<and>
     set (fst (fold (visit_step source) steps (affected, queue))) = set affected \<union> set new"
proof (induction steps arbitrary: affected queue)
  case (Cons s steps)
  obtain a' q' where v: "visit_step source s (affected, queue) = (a', q')" by fastforce
  obtain new where new: "fold (visit_step source) steps (a', q') = (fst (fold (visit_step source) steps (a', q')), q' @ new)"
      "set new = {ws_stable_id s | s. s \<in> set steps \<and> source \<in> set (ws_depends_on s)} - set a'"
      "set (fst (fold (visit_step source) steps (a', q'))) = set a' \<union> set new"
    using Cons.IH by blast
  show ?case
  proof (cases "source \<in> set (ws_depends_on s) \<and> ws_stable_id s \<notin> set affected")
    case True
    then have "a' = bs_insert (ws_stable_id s) affected" "q' = queue @ [ws_stable_id s]"
      using v by (simp_all add: visit_step_def)
    then show ?thesis using v new True by (intro exI [of _ "ws_stable_id s # new"]) auto
  next
    case False
    then have "a' = affected" "q' = queue" using v by (auto simp: visit_step_def)
    then show ?thesis using v new False by (intro exI [of _ new]) auto
  qed
qed simp

text \<open>The breadth-first closure over declared dependencies; each round either queues new nodes or shortens the queue.\<close>

function closure :: "workflow_step list \<Rightarrow> string list \<Rightarrow> string list \<Rightarrow> string list" where
  "closure steps [] affected = affected"
| "closure steps (source # queue) affected =
     (let r = fold (visit_step source) steps (affected, queue) in closure steps (snd r) (fst r))"
  by pat_completeness auto

termination
proof (relation "measures [\<lambda>(steps, queue, affected). card (ws_stable_id ` set steps - set affected), \<lambda>(steps, queue, affected). length queue]")
  fix steps source queue affected r
  assume r: "r = fold (visit_step source) steps (affected, queue)"
  obtain new where "r = (fst r, queue @ new)"
      "set new = {ws_stable_id s | s. s \<in> set steps \<and> source \<in> set (ws_depends_on s)} - set affected"
      "set (fst r) = set affected \<union> set new"
    using visit_steps [of source steps affected queue] r by metis
  then have new: "snd r = queue @ new" "set new \<subseteq> ws_stable_id ` set steps - set affected"
      "set (fst r) = set affected \<union> set new"
    by (metis snd_conv, auto)
  show "((steps, snd r, fst r), steps, source # queue, affected) \<in>
      measures [\<lambda>(steps, queue, affected). card (ws_stable_id ` set steps - set affected), \<lambda>(steps, queue, affected). length queue]"
  proof (cases "new = []")
    case False
    then obtain x where "x \<in> set new" by (cases new) auto
    then have "card (ws_stable_id ` set steps - set (fst r)) < card (ws_stable_id ` set steps - set affected)"
      using new by (intro psubset_card_mono) auto
    then show ?thesis by simp
  qed (use new in simp)
qed simp

definition ready_step :: "workflow_step list \<Rightarrow> string list \<Rightarrow> string list \<Rightarrow> workflow_step option" where
  "ready_step steps remaining ordered =
     find (\<lambda>s. list_all (\<lambda>d. d \<notin> set remaining \<or> d \<in> set ordered) (ws_depends_on s))
       (filter (\<lambda>s. ws_stable_id s \<in> set remaining) steps)"

lemma ready_step_remaining: "ready_step steps remaining ordered = Some s \<Longrightarrow> ws_stable_id s \<in> set remaining"
  by (auto simp: ready_step_def dest!: find_Some_set)

function order_affected :: "workflow_step list \<Rightarrow> string list \<Rightarrow> string list \<Rightarrow> incremental_error + string list" where
  "order_affected steps remaining ordered =
     (if remaining = [] then Ok ordered
      else case ready_step steps remaining ordered of
          None \<Rightarrow> Err (IncInvalid ''affected graph is cyclic'')
        | Some s \<Rightarrow> order_affected steps (bs_remove (ws_stable_id s) remaining) (ordered @ [ws_stable_id s]))"
  by pat_completeness auto

termination
  by (relation "measure (\<lambda>(steps, remaining, ordered). length remaining)")
    (auto simp: bs_remove_def dest: ready_step_remaining intro!: length_filter_less)

declare order_affected.simps [simp del]

definition change_reason :: "change_kind \<Rightarrow> string" where
  "change_reason k = (case k of Append \<Rightarrow> ''input_append'' | Late _ \<Rightarrow> ''late_data_invalidation''
     | Replacement _ \<Rightarrow> ''replacement_invalidation'')"

definition affected_decisions :: "geo_workflow \<Rightarrow> change \<Rightarrow> incremental_error + decision list" where
  "affected_decisions w c =
     (let direct = direct_consumers w (ch_input_name c) in
      if direct = [] then Err (IncInvalid ''no workflow node consumes changed input'')
      else map_ok (map (\<lambda>n. \<lparr>de_node_id = n, de_partition = iw_partition (ch_window c), de_reason = change_reason (ch_change c)\<rparr>))
        (order_affected (wf_steps w) (closure (wf_steps w) direct direct) []))"

section \<open>Execution\<close>

fun attempt_loop :: "'s node_executor \<Rightarrow> workflow_step \<Rightarrow> decision \<Rightarrow> nat \<Rightarrow> nat \<Rightarrow> event list \<Rightarrow> 's \<Rightarrow>
    (incremental_error + string option) \<times> event list \<times> 's" where
  "attempt_loop ex node d maximum 0 events s = (Ok None, events, s)"
| "attempt_loop ex node d maximum (Suc left) events s =
     (let attempt = maximum - left;
          events = events @ [Attempt (de_node_id d) (de_partition d) attempt] in
      case ex s node (de_partition d) attempt of
        (Inr output, s) \<Rightarrow>
          (case require_digest output ''output digest'' of
             Inl err \<Rightarrow> (Err err, events, s)
           | Inr _ \<Rightarrow> (Ok (Some output), events, s))
      | (Inl message, s) \<Rightarrow>
          if attempt < maximum
          then attempt_loop ex node d maximum left
            (events @ [Retry (de_node_id d) (de_partition d) attempt message]) s
          else attempt_loop ex node d maximum left
            (events @ [RunFailed (de_node_id d) (de_partition d) attempt message]) s)"

definition maximum_attempts :: "u32 \<Rightarrow> nat" where
  "maximum_attempts max_retries = (if max_retries = - 1 then unat max_retries else unat (max_retries + 1))"

definition commit_output :: "decision \<Rightarrow> string \<Rightarrow> outputs \<Rightarrow> outputs \<times> event" where
  "commit_output d output outputs =
     (let parts = (case bt_get outputs (de_node_id d) of None \<Rightarrow> [] | Some m \<Rightarrow> m)
      in (bt_insert (de_node_id d) (bt_insert (de_partition d) output parts) outputs,
          OutputCommitted (de_node_id d) (de_partition d) output (bt_get parts (de_partition d))))"

fun run_decisions :: "'s node_executor \<Rightarrow> geo_workflow \<Rightarrow> u32 \<Rightarrow> decision list \<Rightarrow> outputs \<Rightarrow> event list \<Rightarrow> 's \<Rightarrow>
    (incremental_error + bool) \<times> outputs \<times> event list \<times> 's" where
  "run_decisions ex w retries [] outputs events s = (Ok True, outputs, events, s)"
| "run_decisions ex w retries (d # ds) outputs events s =
     (case find (\<lambda>n. ws_stable_id n = de_node_id d) (wf_steps w) of
        None \<Rightarrow> (Err IncPanic, outputs, events, s)
      | Some node \<Rightarrow>
          case attempt_loop ex node d (maximum_attempts retries) (maximum_attempts retries) events s of
            (Inl err, events, s) \<Rightarrow> (Err err, outputs, events, s)
          | (Inr None, events, s) \<Rightarrow> (Ok False, outputs, events, s)
          | (Inr (Some output), events, s) \<Rightarrow>
              let r = commit_output d output outputs
              in run_decisions ex w retries ds (fst r) (events @ [snd r]) s)"

definition admission_events :: "change \<Rightarrow> event list" where
  "admission_events c = WindowAdmitted (ch_window c) #
     (case ch_change c of
        Append \<Rightarrow> []
      | Late seconds \<Rightarrow> [LateDataAccepted (iw_partition (ch_window c)) seconds]
      | Replacement replaced \<Rightarrow> [InputReplacement (iw_partition (ch_window c)) replaced (ch_snapshot_digest c)])"

definition execute :: "inc_host \<Rightarrow> 's node_executor \<Rightarrow> geo_workflow \<Rightarrow> change \<Rightarrow> u32 \<Rightarrow> scheduler \<Rightarrow> 's \<Rightarrow>
    (incremental_error + run_receipt) \<times> scheduler \<times> 's" where
  "execute h ex w c retries sch s =
     (case and_then (map_err IncWorkflow (validate_workflow (in_hash h) w)) (\<lambda>_.
           and_then (validate_change h w c) (\<lambda>_.
           and_then (affected_decisions w c) (\<lambda>decisions.
             map_ok (Pair decisions) (map_err IncWorkflow (stable_digest (in_hash h) w))))) of
        Inl err \<Rightarrow> (Err err, sch, s)
      | Inr (decisions, workflow_digest) \<Rightarrow>
          case run_decisions ex w retries decisions (sc_outputs sch) (admission_events c) s of
            (Inl err, outputs, events, s) \<Rightarrow> (Err err, sch\<lparr>sc_outputs := outputs\<rparr>, s)
          | (Inr completed, outputs, events, s) \<Rightarrow>
              let receipt = \<lparr>rr_schema_version = receipt_schema_version, rr_workflow_digest = workflow_digest,
                    rr_change_digest = inc_digest h (in_change_text h c), rr_decisions = decisions, rr_events = events,
                    rr_completed = completed, rr_state_digest = inc_digest h (in_outputs_text h outputs)\<rparr>
              in (Ok receipt, sch\<lparr>sc_outputs := outputs, sc_history := sc_history sch @ [receipt]\<rparr>, s))"

section \<open>Planning is sound and complete\<close>

definition declared :: "workflow_step list \<Rightarrow> (string \<times> string) set" where
  "declared steps = {(d, ws_stable_id s) | d s. s \<in> set steps \<and> d \<in> set (ws_depends_on s)}"

lemma Image_rtrancl_closed: "(\<And>a b. a \<in> A \<Longrightarrow> (a, b) \<in> r \<Longrightarrow> b \<in> A) \<Longrightarrow> r\<^sup>* `` A = A"
proof
  assume closed: "\<And>a b. a \<in> A \<Longrightarrow> (a, b) \<in> r \<Longrightarrow> b \<in> A"
  have "b \<in> A" if "(a, b) \<in> r\<^sup>*" "a \<in> A" for a b
    using that by (induction rule: rtrancl_induct) (auto intro: closed)
  then show "r\<^sup>* `` A \<subseteq> A" by blast
qed auto

lemma closure_reach:
  assumes "set queue \<subseteq> set affected"
    and "\<And>a b. a \<in> set affected - set queue \<Longrightarrow> (a, b) \<in> declared steps \<Longrightarrow> b \<in> set affected"
  shows "set (closure steps queue affected) = (declared steps)\<^sup>* `` set affected"
  using assms
proof (induction steps queue affected rule: closure.induct)
  case (1 steps affected)
  then show ?case using Image_rtrancl_closed [of "set affected" "declared steps"] by auto
next
  case (2 steps source queue affected)
  let ?r = "fold (visit_step source) steps (affected, queue)"
  obtain new where new: "?r = (fst ?r, queue @ new)"
      "set new = {ws_stable_id s | s. s \<in> set steps \<and> source \<in> set (ws_depends_on s)} - set affected"
      "set (fst ?r) = set affected \<union> set new"
    using visit_steps by blast
  then have snd: "snd ?r = queue @ new" by (metis snd_conv)
  have succ: "set affected \<union> set new = set affected \<union> declared steps `` {source}"
    using new(2) by (auto simp: declared_def)
  have "set (closure steps (snd ?r) (fst ?r)) = (declared steps)\<^sup>* `` set (fst ?r)"
  proof (rule "2.IH" [OF refl])
    show "set (snd ?r) \<subseteq> set (fst ?r)" using snd new(3) "2.prems"(1) by auto
    fix a b assume "a \<in> set (fst ?r) - set (snd ?r)" "(a, b) \<in> declared steps"
    then show "b \<in> set (fst ?r)" using snd new(3) succ "2.prems"(2) [of a b] by (cases "a = source") auto
  qed
  also have "\<dots> = (declared steps)\<^sup>* `` set affected"
    unfolding new(3) succ using "2.prems"(1) by (auto intro: converse_rtrancl_into_rtrancl)
  finally show ?case by (simp add: Let_def)
qed

lemma order_affected_sound:
  "order_affected steps remaining ordered = Ok order \<Longrightarrow> distinct ordered \<Longrightarrow> set ordered \<inter> set remaining = {} \<Longrightarrow>
     \<exists>rest. order = ordered @ rest \<and> distinct order \<and> set rest = set remaining \<and>
       (\<forall>xs n ys. rest = xs @ n # ys \<longrightarrow> (\<exists>s \<in> set steps. ws_stable_id s = n \<and> set (ws_depends_on s) \<inter> set (n # ys) = {}))"
proof (induction steps remaining ordered rule: order_affected.induct)
  case (1 steps remaining ordered)
  show ?case
  proof (cases "remaining = []")
    case True
    then show ?thesis using "1.prems" by (simp add: order_affected.simps)
  next
    case False
    then obtain s where s: "ready_step steps remaining ordered = Some s"
        "order_affected steps (bs_remove (ws_stable_id s) remaining) (ordered @ [ws_stable_id s]) = Ok order"
      using "1.prems"(1) by (subst (asm) order_affected.simps) (auto split: option.splits)
    have mem: "ws_stable_id s \<in> set remaining" "s \<in> set steps"
        "\<And>d. d \<in> set (ws_depends_on s) \<Longrightarrow> d \<notin> set remaining \<or> d \<in> set ordered"
      using s(1) find_Some_set unfolding ready_step_def by (fastforce simp: list_all_iff)+
    have deps: "set (ws_depends_on s) \<inter> set remaining = {}" using mem(3) "1.prems"(3) by blast
    have "distinct (ordered @ [ws_stable_id s])" "set (ordered @ [ws_stable_id s]) \<inter> set (bs_remove (ws_stable_id s) remaining) = {}"
      using "1.prems" mem(1) by auto
    from "1.IH" [OF False s(1,2) this] obtain rest where rest: "order = (ordered @ [ws_stable_id s]) @ rest" "distinct order"
        "set rest = set remaining - {ws_stable_id s}"
        "\<And>xs n ys. rest = xs @ n # ys \<Longrightarrow> \<exists>s \<in> set steps. ws_stable_id s = n \<and> set (ws_depends_on s) \<inter> set (n # ys) = {}"
      by auto
    have "\<exists>s \<in> set steps. ws_stable_id s = n \<and> set (ws_depends_on s) \<inter> set (n # ys) = {}"
      if "ws_stable_id s # rest = xs @ n # ys" for xs n ys
    proof (cases xs)
      case Nil
      then show ?thesis using that mem(1,2) deps rest(3) by (intro bexI [of _ s]) auto
    next
      case (Cons x xs')
      then show ?thesis using that rest(4) by auto
    qed
    then show ?thesis using rest mem(1) by (intro exI [of _ "ws_stable_id s # rest"]) auto
  qed
qed

lemma order_affected_total:
  assumes "acyclic (declared steps)" and "distinct (map ws_stable_id steps)"
  shows "set remaining \<subseteq> ws_stable_id ` set steps \<Longrightarrow> \<exists>order. order_affected steps remaining ordered = Ok order"
proof (induction "length remaining" arbitrary: remaining ordered rule: less_induct)
  case less
  show ?case
  proof (cases "remaining = []")
    case False
    have "finite (declared steps)"
    proof (rule finite_subset)
      show "declared steps \<subseteq> (\<Union>s \<in> set steps. set (ws_depends_on s) \<times> {ws_stable_id s})" by (auto simp: declared_def)
    qed auto
    then have "wf (declared steps)" using assms(1) finite_acyclic_wf by blast
    then obtain n where n: "n \<in> set remaining" "\<And>d. (d, n) \<in> declared steps \<Longrightarrow> d \<notin> set remaining"
      using False wfE_min [of "declared steps" "hd remaining" "set remaining"] by (metis hd_in_set)
    then obtain s where s: "s \<in> set steps" "ws_stable_id s = n" using less.prems by auto
    have "ready_step steps remaining ordered \<noteq> None"
      unfolding ready_step_def find_None_iff using s n by (auto simp: list_all_iff declared_def)
    then obtain t where t: "ready_step steps remaining ordered = Some t" by blast
    have "length (bs_remove (ws_stable_id t) remaining) < length remaining"
      using ready_step_remaining [OF t] by (auto simp: bs_remove_def intro!: length_filter_less)
    from less.hyps [OF this, of "ordered @ [ws_stable_id t]"] less.prems t False show ?thesis
      by (subst order_affected.simps) auto
  qed (simp add: order_affected.simps)
qed

text \<open>In a validated workflow whose steps carry their identifiers, the declared dependencies are the
  edges of the validated graph.\<close>

lemma declared_acyclic:
  assumes "valid_workflow h w" and "list_all (\<lambda>s. \<not> blank (ws_stable_id s)) (wf_steps w)"
  shows "acyclic (declared (wf_steps w))" "distinct (map ws_stable_id (wf_steps w))"
proof -
  have legacy: "\<not> is_legacy_linear w"
    using assms by (cases "wf_steps w") (auto simp: is_legacy_linear_def valid_workflow_def)
  have ids: "wf_ids h w = map ws_stable_id (wf_steps w)"
    using assms(2) by (auto simp: wf_ids_def node_id_def list_all_iff)
  have "declared (wf_steps w) = wf_edges h w"
    by (auto simp: declared_def wf_edges_def wf_deps_def ids effective_dependencies_def legacy)
      (metis in_set_conv_nth nth_map)+
  then show "acyclic (declared (wf_steps w))" "distinct (map ws_stable_id (wf_steps w))"
    using assms(1) ids by (auto simp: valid_workflow_def)
qed

lemma direct_consumers_set:
  "set (direct_consumers w input) =
     {ws_stable_id s | s. s \<in> set (wf_steps w) \<and> (\<exists>r \<in> set (ws_inputs s). dr_node r = None \<and> dr_port r = input)}"
  by (auto simp: direct_consumers_def list_ex_iff)

lemma closure_direct:
  "set (closure (wf_steps w) (direct_consumers w i) (direct_consumers w i)) =
     (declared (wf_steps w))\<^sup>* `` set (direct_consumers w i)"
  by (rule closure_reach) auto

lemma plan_exact:
  assumes "validate_workflow h w = Ok ()" and "list_all (\<lambda>s. \<not> blank (ws_stable_id s)) (wf_steps w)"
    and "direct_consumers w (ch_input_name c) \<noteq> []"
  shows "\<exists>ds. affected_decisions w c = Ok ds \<and> distinct (map de_node_id ds) \<and>
    set (map de_node_id ds) = (declared (wf_steps w))\<^sup>* `` set (direct_consumers w (ch_input_name c)) \<and>
    (\<forall>xs d ys. ds = xs @ d # ys \<longrightarrow> (\<exists>s \<in> set (wf_steps w). ws_stable_id s = de_node_id d \<and>
       set (ws_depends_on s) \<inter> set (map de_node_id (d # ys)) = {}) \<and> de_partition d = iw_partition (ch_window c))"
proof -
  let ?direct = "direct_consumers w (ch_input_name c)" and ?E = "declared (wf_steps w)"
  let ?mk = "\<lambda>n. \<lparr>de_node_id = n, de_partition = iw_partition (ch_window c), de_reason = change_reason (ch_change c)\<rparr>"
  have valid: "valid_workflow h w"
    using topological_order_cases [of h w] assms(1) by (auto simp: validate_workflow_def result_simps split: sum.splits)
  note E = declared_acyclic [OF valid assms(2)]
  have sub: "?E\<^sup>* `` set ?direct \<subseteq> ws_stable_id ` set (wf_steps w)"
  proof
    fix n assume "n \<in> ?E\<^sup>* `` set ?direct"
    then obtain m where "(m, n) \<in> ?E\<^sup>*" "m \<in> set ?direct" by blast
    then show "n \<in> ws_stable_id ` set (wf_steps w)"
      by (cases rule: rtranclE) (auto simp: direct_consumers_set declared_def)
  qed
  then obtain order where o: "order_affected (wf_steps w) (closure (wf_steps w) ?direct ?direct) [] = Ok order"
    using order_affected_total [OF E] closure_direct by metis
  from order_affected_sound [OF o] have order: "distinct order" "set order = ?E\<^sup>* `` set ?direct"
      "\<And>xs n ys. order = xs @ n # ys \<Longrightarrow> \<exists>s \<in> set (wf_steps w). ws_stable_id s = n \<and> set (ws_depends_on s) \<inter> set (n # ys) = {}"
    by (auto simp: closure_direct)
  have ds: "affected_decisions w c = Ok (map ?mk order)" using o assms(3) by (simp add: affected_decisions_def Let_def)
  have ids: "map de_node_id (map ?mk order) = order" by (simp add: comp_def)
  have "(\<exists>s \<in> set (wf_steps w). ws_stable_id s = de_node_id d \<and> set (ws_depends_on s) \<inter> set (map de_node_id (d # ys)) = {}) \<and>
      de_partition d = iw_partition (ch_window c)" if "map ?mk order = xs @ d # ys" for xs d ys
  proof -
    have "order = map de_node_id xs @ de_node_id d # map de_node_id ys" using ids that by simp
    from order(3) [OF this] have "\<exists>s \<in> set (wf_steps w). ws_stable_id s = de_node_id d \<and>
        set (ws_depends_on s) \<inter> set (map de_node_id (d # ys)) = {}" by simp
    moreover have "d \<in> set (map ?mk order)" using that by simp
    then have "de_partition d = iw_partition (ch_window c)" by auto
    ultimately show ?thesis by blast
  qed
  moreover have "distinct (map de_node_id (map ?mk order))" unfolding ids by (rule order(1))
  moreover have "set (map de_node_id (map ?mk order)) = ?E\<^sup>* `` set ?direct" unfolding ids by (rule order(2))
  ultimately show ?thesis using ds by blast
qed


section \<open>Runs\<close>

abbreviation valid_output :: "string \<Rightarrow> bool" where
  "valid_output out \<equiv> require_digest out ''output digest'' = Ok ()"

lemma attempt_loop_output:
  "attempt_loop ex node d m left events s = (Ok (Some out), events', s') \<Longrightarrow> valid_output out"
  by (induction left arbitrary: events s) (auto simp: Let_def split: prod.splits sum.splits if_splits)

definition commits :: "(decision \<times> string) list \<Rightarrow> outputs \<Rightarrow> outputs" where
  "commits = fold (\<lambda>(d, out) outputs. fst (commit_output d out outputs))"

lemma run_decisions_commits:
  "run_decisions ex w retries ds outputs events s = (r, outputs', events', s') \<Longrightarrow>
     \<exists>don. map fst don = take (length don) ds \<and> length don \<le> length ds \<and> outputs' = commits don outputs \<and>
       (\<forall>(d, out) \<in> set don. valid_output out) \<and>
       (case r of Inl _ \<Rightarrow> length don < length ds | Inr completed \<Rightarrow> completed \<longleftrightarrow> length don = length ds)"
proof (induction ds arbitrary: outputs events s)
  case Nil
  then show ?case by (auto simp: commits_def)
next
  case (Cons d ds)
  show ?case
  proof (cases "find (\<lambda>n. ws_stable_id n = de_node_id d) (wf_steps w)")
    case None
    then show ?thesis using Cons.prems by (intro exI [of _ "[]"]) (auto simp: commits_def)
  next
    case (Some node)
    obtain a events1 s1 where a: "attempt_loop ex node d (maximum_attempts retries) (maximum_attempts retries) events s = (a, events1, s1)"
      by (cases "attempt_loop ex node d (maximum_attempts retries) (maximum_attempts retries) events s")
    consider (err) e where "a = Inl e" | (none) "a = Inr None" | (some) out where "a = Inr (Some out)"
      by (cases a; metis option.exhaust)
    then show ?thesis
    proof cases
      case some
      then have run: "run_decisions ex w retries ds (fst (commit_output d out outputs))
          (events1 @ [snd (commit_output d out outputs)]) s1 = (r, outputs', events', s')"
        using Cons.prems Some a by (simp add: Let_def)
      from Cons.IH [OF run] obtain don where "map fst don = take (length don) ds" "length don \<le> length ds"
          "outputs' = commits don (fst (commit_output d out outputs))" "\<forall>(d, out) \<in> set don. valid_output out"
          "case r of Inl _ \<Rightarrow> length don < length ds | Inr completed \<Rightarrow> completed \<longleftrightarrow> length don = length ds"
        by blast
      moreover have "valid_output out" by (rule attempt_loop_output [OF a [unfolded some]])
      ultimately show ?thesis by (intro exI [of _ "(d, out) # don"]) (auto simp: commits_def split: sum.splits)
    qed (use Cons.prems Some a in \<open>auto simp: commits_def intro!: exI [of _ "[]"]\<close>)
  qed
qed

lemma output_commit:
  "Option.bind (bt_get (fst (commit_output d out outputs)) n) (\<lambda>m. bt_get m p) =
     (if n = de_node_id d \<and> p = de_partition d then Some out else Option.bind (bt_get outputs n) (\<lambda>m. bt_get m p))"
  by (auto simp: commit_output_def Let_def split: option.splits)

lemma output_commits:
  "Option.bind (bt_get (commits don outputs) n) (\<lambda>m. bt_get m p) =
     (case find (\<lambda>(d, out). n = de_node_id d \<and> p = de_partition d) (rev don) of
        None \<Rightarrow> Option.bind (bt_get outputs n) (\<lambda>m. bt_get m p) | Some (d, out) \<Rightarrow> Some out)"
  by (induction don rule: rev_induct) (auto simp: commits_def output_commit split: option.splits if_splits)

lemma execute_Ok:
  assumes "execute h ex w c retries sch s = (Ok r, sch', s')"
  obtains outputs where "validate_workflow (in_hash h) w = Ok ()" "validate_change h w c = Ok ()"
    "affected_decisions w c = Ok (rr_decisions r)"
    "run_decisions ex w retries (rr_decisions r) (sc_outputs sch) (admission_events c) s =
       (Ok (rr_completed r), outputs, rr_events r, s')"
    "sch' = sch\<lparr>sc_outputs := outputs, sc_history := sc_history sch @ [r]\<rparr>"
    "rr_state_digest r = inc_digest h (in_outputs_text h outputs)"
    "rr_workflow_digest r = stable_digest_unchecked (in_hash h) w"
  using assms by (auto simp: execute_def stable_digest_def Let_def result_simps split: sum.splits prod.splits)

lemma execute_valid:
  assumes "validate_workflow (in_hash h) w = Ok ()" "validate_change h w c = Ok ()" "affected_decisions w c = Ok ds"
  shows "execute h ex w c retries sch s =
     (case run_decisions ex w retries ds (sc_outputs sch) (admission_events c) s of
        (Inl err, outputs, events, s) \<Rightarrow> (Err err, sch\<lparr>sc_outputs := outputs\<rparr>, s)
      | (Inr completed, outputs, events, s) \<Rightarrow>
          let r = \<lparr>rr_schema_version = receipt_schema_version,
                rr_workflow_digest = stable_digest_unchecked (in_hash h) w,
                rr_change_digest = inc_digest h (in_change_text h c), rr_decisions = ds, rr_events = events,
                rr_completed = completed, rr_state_digest = inc_digest h (in_outputs_text h outputs)\<rparr>
          in (Ok r, sch\<lparr>sc_outputs := outputs, sc_history := sc_history sch @ [r]\<rparr>, s))"
  using assms by (simp add: execute_def stable_digest_def)

text \<open>C22: A run that returns a receipt commits the outputs of exactly a prefix of its plan, all of it precisely
  when the receipt says completed; every committed output is a well-formed digest and every other node and
  partition keeps its output; the history grows by this receipt alone and the state digest is that of the
  outputs after the run.\<close>

theorem run_commits_prefix:
  assumes "execute h ex w c retries sch s = (Ok r, sch', s')"
  shows "\<exists>k \<le> length (rr_decisions r). (rr_completed r \<longleftrightarrow> k = length (rr_decisions r)) \<and>
    (\<forall>d \<in> set (take k (rr_decisions r)). \<exists>out. output_digest sch' (de_node_id d) (de_partition d) = Some out \<and> valid_output out) \<and>
    (\<forall>n p. (\<forall>d \<in> set (take k (rr_decisions r)). (de_node_id d, de_partition d) \<noteq> (n, p)) \<longrightarrow>
       output_digest sch' n p = output_digest sch n p) \<and>
    sc_history sch' = sc_history sch @ [r] \<and>
    rr_state_digest r = inc_digest h (in_outputs_text h (sc_outputs sch'))"
  using assms
proof (cases rule: execute_Ok)
  case (1 outputs)
  from run_decisions_commits [OF 1(4)] obtain don where don: "map fst don = take (length don) (rr_decisions r)"
      "length don \<le> length (rr_decisions r)" "outputs = commits don (sc_outputs sch)"
      "\<forall>(d, out) \<in> set don. valid_output out" "rr_completed r \<longleftrightarrow> length don = length (rr_decisions r)"
    by auto
  let ?hit = "\<lambda>n p. find (\<lambda>(d, out). n = de_node_id d \<and> p = de_partition d) (rev don)"
  have out: "output_digest sch' n p = (case ?hit n p of None \<Rightarrow> output_digest sch n p | Some (d, out) \<Rightarrow> Some out)" for n p
    using output_commits [of don "sc_outputs sch" n p] 1(5) don(3) by (auto simp: output_digest_def split: option.splits)
  have "\<exists>out. output_digest sch' (de_node_id d) (de_partition d) = Some out \<and> valid_output out"
    if "d \<in> set (take (length don) (rr_decisions r))" for d
  proof -
    have "d \<in> fst ` set don" using that don(1) by (metis list.set_map)
    then obtain hit where hit: "?hit (de_node_id d) (de_partition d) = Some hit"
      by (cases "?hit (de_node_id d) (de_partition d)") (auto simp: find_None_iff)
    then have "hit \<in> set don" using find_Some_set [OF hit] by simp
    then show ?thesis using hit out don(4) by (cases hit) auto
  qed
  moreover have "output_digest sch' n p = output_digest sch n p"
    if "\<forall>d \<in> set (take (length don) (rr_decisions r)). (de_node_id d, de_partition d) \<noteq> (n, p)" for n p
  proof -
    have "?hit n p = None" using that unfolding don(1) [symmetric] by (auto simp: find_None_iff)
    then show ?thesis using out by simp
  qed
  ultimately show ?thesis using don(2,5) 1(5,6) by (intro exI [of _ "length don"]) auto
qed

lemma maximum_attempts_bound: "k \<le> unat retries + 1 \<Longrightarrow> k < 2 ^ 32 \<Longrightarrow> k \<le> maximum_attempts retries"
proof -
  assume k: "k \<le> unat retries + 1" "k < 2 ^ 32"
  have "unat (- 1 :: u32) = 2 ^ 32 - 1" by (simp add: unsigned_minus_1_eq_mask mask_eq_exp_minus_1)
  moreover have "unat (retries + 1) = unat retries + 1" if "retries \<noteq> - 1"
    using that unatSuc [of retries] by (simp add: add.commute add_eq_0_iff)
  ultimately show "k \<le> maximum_attempts retries" using k by (auto simp: maximum_attempts_def)
qed

lemma attempt_loop_succeeds:
  assumes "\<And>s n p a out s'. ex s n p a = (Inr out, s') \<Longrightarrow> valid_output out"
    and "\<And>s. \<exists>out s'. ex s node (de_partition d) k = (Inr out, s')" "k \<le> m"
  shows "left \<le> m \<Longrightarrow> m < k + left \<Longrightarrow> \<exists>out events' s'. attempt_loop ex node d m left events s = (Ok (Some out), events', s')"
proof (induction left arbitrary: events s)
  case (Suc left)
  obtain a s1 where a: "ex s node (de_partition d) (m - left) = (a, s1)" by fastforce
  show ?case
  proof (cases a)
    case (Inr out)
    then show ?thesis using a assms(1) by (auto simp: Let_def)
  next
    case (Inl msg)
    then have "m - left \<noteq> k" using assms(2) [of s] a by auto
    then have "m < k + left" using Suc.prems by linarith
    from Suc.IH [OF _ this] Suc.prems show ?thesis using a Inl by (auto simp: Let_def)
  qed
qed (use assms in simp)

lemma run_decisions_completes:
  assumes "\<And>s n p a out s'. ex s n p a = (Inr out, s') \<Longrightarrow> valid_output out"
    and "\<And>n p. \<exists>k. 0 < k \<and> k \<le> unat retries + 1 \<and> k < 2 ^ 32 \<and> (\<forall>s. \<exists>out s'. ex s n p k = (Inr out, s'))"
  shows "set (map de_node_id ds) \<subseteq> ws_stable_id ` set (wf_steps w) \<Longrightarrow>
    \<exists>outputs' events' s'. run_decisions ex w retries ds outputs events s = (Ok True, outputs', events', s')"
proof (induction ds arbitrary: outputs events s)
  case (Cons d ds)
  then obtain node where node: "find (\<lambda>n. ws_stable_id n = de_node_id d) (wf_steps w) = Some node"
    by (cases "find (\<lambda>n. ws_stable_id n = de_node_id d) (wf_steps w)") (auto simp: find_None_iff)
  obtain k where k: "0 < k" "k \<le> maximum_attempts retries" "\<And>s. \<exists>out s'. ex s node (de_partition d) k = (Inr out, s')"
    using assms(2) [of node "de_partition d"] maximum_attempts_bound by blast
  obtain out events1 s1 where "attempt_loop ex node d (maximum_attempts retries) (maximum_attempts retries) events s =
      (Ok (Some out), events1, s1)"
    using attempt_loop_succeeds [of ex node d k "maximum_attempts retries" "maximum_attempts retries" events s] assms(1) k
    by fastforce
  then show ?case using Cons node by (auto simp: Let_def)
qed simp

text \<open>C24: Retrying works: when the executor never returns a malformed digest and succeeds for every node and
  partition on some attempt, not necessarily the same one, after at most the granted number of retries, a
  valid change to a valid workflow without blank stable ids that some node consumes runs to completion.
  Attempts are counted in 32 bits.\<close>

theorem retry_completes:
  assumes "validate_workflow (in_hash h) w = Ok ()" and "list_all (\<lambda>s. \<not> blank (ws_stable_id s)) (wf_steps w)"
    and "validate_change h w c = Ok ()" and "direct_consumers w (ch_input_name c) \<noteq> []"
    and "\<And>s n p a out s'. ex s n p a = (Inr out, s') \<Longrightarrow> valid_output out"
    and "\<And>n p. \<exists>k. 0 < k \<and> k \<le> unat retries + 1 \<and> k < 2 ^ 32 \<and> (\<forall>s. \<exists>out s'. ex s n p k = (Inr out, s'))"
  shows "\<exists>r sch' s'. execute h ex w c retries sch s = (Ok r, sch', s') \<and> rr_completed r"
proof -
  obtain ds where ds: "affected_decisions w c = Ok ds"
      "set (map de_node_id ds) = (declared (wf_steps w))\<^sup>* `` set (direct_consumers w (ch_input_name c))"
      "\<And>xs d ys. ds = xs @ d # ys \<Longrightarrow> \<exists>s \<in> set (wf_steps w). ws_stable_id s = de_node_id d"
    using plan_exact [OF assms(1,2,4)] by blast
  have sub: "set (map de_node_id ds) \<subseteq> ws_stable_id ` set (wf_steps w)"
  proof
    fix n assume "n \<in> set (map de_node_id ds)"
    then obtain d where "d \<in> set ds" "n = de_node_id d" by auto
    then show "n \<in> ws_stable_id ` set (wf_steps w)" using ds(3) by (metis image_eqI split_list)
  qed
  have "\<exists>outputs events s'. run_decisions ex w retries ds (sc_outputs sch) (admission_events c) s = (Ok True, outputs, events, s')"
    by (rule run_decisions_completes [where ex = ex, OF _ assms(6) sub], rule assms(5))
  then obtain outputs events s' where
      "run_decisions ex w retries ds (sc_outputs sch) (admission_events c) s = (Ok True, outputs, events, s')" by blast
  then show ?thesis using assms(1,3) ds(1) by (simp add: execute_def stable_digest_def Let_def)
qed

section \<open>A sample feed\<close>

definition feed_workflow :: geo_workflow where
  "feed_workflow = (workflow_new 3 ''goal'')
     \<lparr>wf_steps := [(sample_step ''a'' [])\<lparr>ws_inputs := [ref_input ''feed'']\<rparr>, sample_step ''b'' [''a'']],
      wf_input_contracts := [input_contract_new ''feed'']\<rparr>"

definition zero_digest :: string where
  "zero_digest = ''sha256:'' @ replicate 64 CHR ''0''"

definition feed_change :: change where
  "feed_change = \<lparr>ch_input_name = ''feed'', ch_window = \<lparr>iw_partition = ''p'', iw_cursor_start = 0, iw_cursor_end = 1,
     iw_watermark_start = ''t0'', iw_watermark_end = ''t1''\<rparr>, ch_snapshot_digest = zero_digest, ch_change = Append\<rparr>"

definition feed_host :: inc_host where
  "feed_host = \<lparr>in_hash = identity_hashing, in_parse_rfc3339 = (\<lambda>t. if t = ''t0'' then Some 0 else Some 1),
     in_change_text = ch_input_name, in_outputs_text = (\<lambda>m. concat (map fst m))\<rparr>"

text \<open>An executor that fails the first attempt, and one that returns a malformed digest for node \<open>b\<close>.\<close>

definition flaky_executor :: "unit node_executor" where
  "flaky_executor s n p a = (if a < 2 then Inl ''timeout'' else Inr zero_digest, s)"

definition bad_executor :: "unit node_executor" where
  "bad_executor s n p a = (if ws_stable_id n = ''b'' then Inr ''bad'' else Inr zero_digest, s)"

lemma feed_facts:
  "validate_workflow identity_hashing feed_workflow = Ok ()"
  "list_all (\<lambda>s. \<not> blank (ws_stable_id s)) (wf_steps feed_workflow)"
  "validate_change feed_host feed_workflow feed_change = Ok ()"
  "direct_consumers feed_workflow ''feed'' = [''a'']" "require_digest zero_digest ''output digest'' = Ok ()"
  "require_digest ''bad'' ''output digest'' = Err (IncInvalid ''invalid output digest'')"
  by code_simp+


theorem retry_completes_witness:
  "\<exists>r sch' s'. execute feed_host flaky_executor feed_workflow feed_change 1 \<lparr>sc_outputs = [], sc_history = []\<rparr> () = (Ok r, sch', s') \<and>
     rr_completed r"
proof (rule retry_completes)
  show "validate_workflow (in_hash feed_host) feed_workflow = Ok ()" using feed_facts(1) by (simp add: feed_host_def)
  show "direct_consumers feed_workflow (ch_input_name feed_change) \<noteq> []" using feed_facts(4) by (simp add: feed_change_def)
  show "\<exists>k. 0 < k \<and> k \<le> unat (1 :: u32) + 1 \<and> k < 2 ^ 32 \<and> (\<forall>s. \<exists>out s'. flaky_executor s n p k = (Inr out, s'))" for n p
    by (rule exI [of _ 2]) (simp add: flaky_executor_def)
qed (use feed_facts in \<open>auto simp: flaky_executor_def split: if_splits\<close>)

lemma feed_plan:
  "affected_decisions feed_workflow feed_change = Ok (map (\<lambda>n. \<lparr>de_node_id = n, de_partition = ''p'', de_reason = ''input_append''\<rparr>) [''a'', ''b''])"
  by code_simp

lemma feed_hash: "validate_workflow (in_hash feed_host) feed_workflow = Ok ()"
  using feed_facts(1) by (simp add: feed_host_def)

lemmas feed_execute = execute_valid [OF feed_hash feed_facts(3) feed_plan]

lemma feed_nodes:
  "find (\<lambda>n. ws_stable_id n = ''a'') (wf_steps feed_workflow) = Some ((sample_step ''a'' [])\<lparr>ws_inputs := [ref_input ''feed'']\<rparr>)"
  "find (\<lambda>n. ws_stable_id n = ''b'') (wf_steps feed_workflow) = Some (sample_step ''b'' [''a''])"
  "ws_stable_id ((sample_step ''a'' [])\<lparr>ws_inputs := [ref_input ''feed'']\<rparr>) = ''a''" "ws_stable_id (sample_step ''b'' [''a'']) = ''b''"
  by (simp_all add: feed_workflow_def sample_step_def with_outputs_def with_inputs_def with_dependencies_def step_named_def)

theorem run_commits_prefix_witness:
  "\<exists>r sch' s'. execute feed_host flaky_executor feed_workflow feed_change 1 \<lparr>sc_outputs = [], sc_history = []\<rparr> () = (Ok r, sch', s') \<and>
     sc_history sch' = [r] \<and> (\<exists>k \<le> length (rr_decisions r). rr_completed r \<longleftrightarrow> k = length (rr_decisions r))"
proof -
  have "maximum_attempts 1 = 2" by (simp add: maximum_attempts_def)
  then obtain r sch' s' where "execute feed_host flaky_executor feed_workflow feed_change 1 \<lparr>sc_outputs = [], sc_history = []\<rparr> () = (Ok r, sch', s')"
    using feed_facts(5) by (auto simp: feed_execute feed_nodes flaky_executor_def Let_def numeral_2_eq_2 commit_output_def)
  from this run_commits_prefix [OF this] show ?thesis by auto
qed

text \<open>A malformed output digest of a later node makes the run fail although the outputs of earlier nodes have
  been committed, and no receipt records them.\<close>

theorem malformed_digest_leaves_outputs:
  "case execute feed_host bad_executor feed_workflow feed_change 0 \<lparr>sc_outputs = [], sc_history = []\<rparr> () of (r, sch', _) \<Rightarrow>
     r = Err (IncInvalid ''invalid output digest'') \<and> output_digest sch' ''a'' ''p'' = Some zero_digest \<and> sc_history sch' = []"
proof -
  have "maximum_attempts 0 = 1" by (simp add: maximum_attempts_def)
  then show ?thesis
    using feed_facts(5,6) by (simp add: feed_execute feed_nodes bad_executor_def Let_def commit_output_def output_digest_def bt_get_def)
qed

end
