(* ===== verification/Templates.thy ===== *)
theory Templates
  imports Digest
begin

text \<open>
  The reviewed graph templates of \<open>genegis-workflow/src/graph.rs\<close>, one definition per function, in the
  order of the source. \<open>u\<close> supplies the fresh UUIDs in the order in which the source draws them: \<open>u 0\<close>
  for the workflow, then one per step. \<open>fs\<close> is the file system \<open>SourceSnapshot::from_uri\<close> reads.
  Non-ASCII literals are written by code points and encoded by \<open>utf8\<close>.
\<close>

section \<open>Building blocks\<close>

definition utf8_char :: "nat \<Rightarrow> string" where
  "utf8_char c =
     map char_of
       (if c < 0x80 then [c]
        else if c < 0x800 then [0xC0 + c div 64, 0x80 + c mod 64]
        else if c < 0x10000 then [0xE0 + c div 4096, 0x80 + c div 64 mod 64, 0x80 + c mod 64]
        else [0xF0 + c div 262144, 0x80 + c div 4096 mod 64, 0x80 + c div 64 mod 64, 0x80 + c mod 64])"

definition utf8 :: "nat list \<Rightarrow> string" where
  "utf8 cs = concat (map utf8_char cs)"

definition dag_step :: "hashing \<Rightarrow> uuid \<Rightarrow> string \<Rightarrow> string \<Rightarrow> json \<Rightarrow> string list \<Rightarrow> workflow_step" where
  "dag_step h uid stable_id operation parameters dependencies =
     with_outputs
       (with_inputs
         (with_dependencies (step_named h uid stable_id operation parameters) dependencies)
         (map (\<lambda>dependency. ref_output dependency ''result'') dependencies))
       [ref_output stable_id ''result'']"

definition finish_dag :: "geo_workflow \<Rightarrow> string \<Rightarrow> geo_workflow" where
  "finish_dag workflow stable_id = workflow\<lparr>wf_output_refs := [ref_output stable_id ''result'']\<rparr>"

definition nagoya_ward_coverage :: coverage_contract where
  "nagoya_ward_coverage =
     \<lparr>co_scope = ''JP-23/Nagoya wards'', co_expected_feature_count = Some 16,
      co_join_keys = [''ward_code''], co_key_uniqueness = KuUnique, co_null_policy = NpReject\<rparr>"

record desktop_layer =
  dl_layer_id :: string
  dl_format :: string
  dl_crs :: crs
  dl_source :: source_snapshot

section \<open>Templates\<close>

definition stac_endpoint_registry_template ::
  "hashing \<Rightarrow> (nat \<Rightarrow> uuid) \<Rightarrow> string \<Rightarrow> string \<Rightarrow> geo_workflow" where
  "stac_endpoint_registry_template h u action endpoint_id =
     (let workflow = workflow_new (u 0) (action @ '' STAC endpoint '' @ endpoint_id);
          workflow = add_input_contract workflow (ic_with_source_snapshot
            (ic_with_value_unit (ic_with_crs (input_contract_new ''search'') crs_wgs84) ''degrees'')
            (source_metadata_new (''catalog://stac/'' @ endpoint_id)));
          workflow = workflow\<lparr>wf_inputs := wf_inputs workflow @
            [(jobj [(''endpoint_id'', JStr endpoint_id), (''crs'', JStr ''EPSG:4326''),
            (''units'', JStr ''degrees'')])]\<rparr>;
          validate_stac_endpoint = dag_step h (u 1) ''validate-stac-endpoint'' ''ValidateStacEndpoint''
            (jobj [(''endpoint_id'', JStr endpoint_id)]) [];
          validate_stac_endpoint = validate_stac_endpoint\<lparr>ws_inputs := ws_inputs
            validate_stac_endpoint @ [ref_input ''search'']\<rparr>;
          workflow = workflow\<lparr>wf_steps := [
              validate_stac_endpoint,
              dag_step h (u 2) ''apply-catalog-command'' ''ApplyCatalogCommand''
                (jobj [(''action'', JStr action)]) [''validate-stac-endpoint''],
              dag_step h (u 3) ''record-provenance'' ''RecordProvenance'' (jobj [])
                [''apply-catalog-command'']]\<rparr>
      in finish_dag workflow ''record-provenance'')"

definition federated_stac_search_template ::
  "hashing \<Rightarrow> (nat \<Rightarrow> uuid) \<Rightarrow> string list \<Rightarrow> geo_workflow" where
  "federated_stac_search_template h u endpoint_ids =
     (let workflow = workflow_new (u 0) ''Search federated STAC endpoints'';
          workflow = add_input_contract workflow (ic_with_source_snapshot
            (ic_with_value_unit (ic_with_crs (input_contract_new ''search'') crs_wgs84) ''degrees'')
            (source_metadata_new ''catalog://stac/federated''));
          workflow = workflow\<lparr>wf_inputs := wf_inputs workflow @
            [(jobj [(''endpoint_ids'', JArr (map JStr endpoint_ids)), (''crs'', JStr ''EPSG:4326''),
            (''units'', JStr ''degrees'')])]\<rparr>;
          resolve_stac_endpoints = dag_step h (u 1) ''resolve-stac-endpoints'' ''ResolveStacEndpoints''
            (jobj []) [];
          resolve_stac_endpoints = resolve_stac_endpoints\<lparr>ws_inputs := ws_inputs
            resolve_stac_endpoints @ [ref_input ''search'']\<rparr>;
          workflow = workflow\<lparr>wf_steps := [
              resolve_stac_endpoints,
              dag_step h (u 2) ''search-stac-items'' ''SearchStacItems''
                (jobj [(''method'', JStr ''POST'')]) [''resolve-stac-endpoints''],
              dag_step h (u 3) ''deduplicate-stac-items'' ''DeduplicateStacItems'' (jobj [])
                [''search-stac-items''],
              dag_step h (u 4) ''record-provenance'' ''RecordProvenance'' (jobj [])
                [''deduplicate-stac-items'']]\<rparr>
      in finish_dag workflow ''record-provenance'')"

definition remote_geoparquet_range_template ::
  "hashing \<Rightarrow> (nat \<Rightarrow> uuid) \<Rightarrow> (string \<rightharpoonup> string) \<Rightarrow> string \<Rightarrow> nat list option \<Rightarrow> geo_workflow" where
  "remote_geoparquet_range_template h u fs uri row_groups =
     (let workflow = workflow_new (u 0) ''Read remote GeoParquet with HTTP ranges'';
          workflow = add_input_contract workflow (ic_with_source_snapshot
            (ic_with_value_unit (input_contract_new ''asset'') ''geoparquet'')
            (source_from_uri (h_sha256 h) fs uri None None));
          workflow = workflow\<lparr>wf_inputs := wf_inputs workflow @
            [(jobj [(''uri'', JStr uri), (''row_groups'',
            json_opt (\<lambda>groups. JArr (map (\<lambda>g. JInt (int g)) groups)) row_groups),
            (''crs'', JStr ''from GeoParquet metadata''),
            (''units'', JStr ''from declared CRS'')])]\<rparr>;
          probe_geoparquet_metadata = dag_step h (u 1) ''probe-geoparquet-metadata''
            ''ProbeGeoParquetMetadata'' (jobj [(''read_mode'', JStr ''http_range'')]) [];
          probe_geoparquet_metadata = probe_geoparquet_metadata\<lparr>ws_inputs := ws_inputs
            probe_geoparquet_metadata @ [ref_input ''asset'']\<rparr>;
          workflow = workflow\<lparr>wf_steps := [
              probe_geoparquet_metadata,
              dag_step h (u 2) ''select-row-groups'' ''SelectRowGroups''
                (jobj [(''row_groups'', json_opt (\<lambda>groups. JArr
                (map (\<lambda>g. JInt (int g)) groups)) row_groups)]) [''probe-geoparquet-metadata''],
              dag_step h (u 3) ''decode-geoparquet'' ''DecodeGeoParquet'' (jobj [])
                [''select-row-groups''],
              dag_step h (u 4) ''verify-geoparquet'' ''VerifyGeoParquet''
                (jobj [(''schema'', JBool True), (''crs'', JBool True),
                (''source_coverage'', JBool True)]) [''decode-geoparquet''],
              dag_step h (u 5) ''record-provenance'' ''RecordProvenance'' (jobj [])
                [''verify-geoparquet'']]\<rparr>
      in finish_dag workflow ''record-provenance'')"

definition federated_asset_execution_template ::
  "hashing \<Rightarrow> (nat \<Rightarrow> uuid) \<Rightarrow> (string \<rightharpoonup> string) \<Rightarrow> string list \<Rightarrow> string \<Rightarrow> string \<Rightarrow> string \<Rightarrow> geo_workflow" where
  "federated_asset_execution_template h u fs endpoint_ids stac_item_key asset_key uri =
     (let workflow = workflow_new (u 0) ''Search, compare, bind, execute, and verify a federated STAC asset'';
          workflow = workflow\<lparr>wf_input_contracts := [
              ic_with_source_snapshot (ic_with_value_unit
                (ic_with_crs (input_contract_new ''search'') crs_wgs84) ''degrees'')
                (source_metadata_new ''catalog://stac/federated''),
              ic_with_source_snapshot (ic_with_value_unit
                (input_contract_new ''asset'') ''geoparquet'')
                (source_from_uri (h_sha256 h) fs uri None None)]\<rparr>;
          workflow = workflow\<lparr>wf_inputs := wf_inputs workflow @
            [(jobj [(''endpoint_ids'', JArr (map JStr endpoint_ids)),
            (''stac_item_key'', JStr stac_item_key), (''asset_key'', JStr asset_key),
            (''uri'', JStr uri), (''search_crs'', JStr ''EPSG:4326''),
            (''search_units'', JStr ''degrees'')])]\<rparr>;
          enforce_remote_access_policy = dag_step h (u 1) ''enforce-remote-access-policy''
            ''EnforceRemoteAccessPolicy'' (jobj [(''allowed_hosts_env'',
            JStr ''GENEGIS_REMOTE_ALLOWED_HOSTS''), (''allow_loopback'', JBool True),
            (''max_response_bytes'', JInt 8388608), (''timeout_ms'', JInt 15000),
            (''max_redirects'', JInt 0), (''url_credentials'', JBool False)]) [];
          enforce_remote_access_policy = enforce_remote_access_policy\<lparr>ws_inputs := ws_inputs
            enforce_remote_access_policy @ [ref_input ''search'', ref_input ''asset'']\<rparr>;
          workflow = workflow\<lparr>wf_steps := [
              enforce_remote_access_policy,
              dag_step h (u 2) ''search-stac-items'' ''SearchStacItems''
                (jobj [(''method'', JStr ''POST'')]) [''enforce-remote-access-policy''],
              dag_step h (u 3) ''compare-asset-candidates'' ''CompareAssetCandidates''
                (jobj [(''policy'', JStr ''deterministic_verified_score'')]) [''search-stac-items''],
              dag_step h (u 4) ''verify-asset-metadata'' ''VerifyAssetMetadata''
                (jobj [(''schema'', JBool True), (''crs'', JBool True), (''units'', JBool True),
                (''license'', JBool True), (''source_coverage'', JBool True)])
                [''compare-asset-candidates''],
              dag_step h (u 5) ''bind-stac-asset'' ''BindStacAsset''
                (jobj [(''stac_item_key'', JStr stac_item_key), (''asset_key'', JStr asset_key)])
                [''verify-asset-metadata''],
              dag_step h (u 6) ''read-geoparquet-ranges'' ''ReadGeoParquetRanges''
                (jobj [(''read_mode'', JStr ''http_range'')]) [''bind-stac-asset''],
              dag_step h (u 7) ''verify-execution'' ''VerifyExecution''
                (jobj [(''provenance'', JBool True)]) [''read-geoparquet-ranges''],
              dag_step h (u 8) ''record-provenance'' ''RecordProvenance'' (jobj [])
                [''verify-execution'']]\<rparr>
      in finish_dag workflow ''record-provenance'')"

definition nagoya_population_density_template ::
  "hashing \<Rightarrow> (nat \<Rightarrow> uuid) \<Rightarrow> geo_workflow" where
  "nagoya_population_density_template h u =
     (let workflow = workflow_new (u 0) (utf8 [0x540D, 0x53E4, 0x5C4B, 0x5E02, 0x306E, 0x4EBA, 0x53E3,
            0x5BC6, 0x5EA6, 0x3092, 0x8868, 0x793A]);
          workflow = workflow\<lparr>wf_assumptions := wf_assumptions workflow @
            [(utf8 [0x884C, 0x653F, 0x533A, 0x57DF, 0x306F] @ '' ward '' @ utf8
            [0x307E, 0x305F, 0x306F] @ '' cho '' @ utf8 [0x7C92, 0x5EA6])]\<rparr>;
          boundary_source = source_metadata_new ''catalog://genegis/nagoya-boundaries'';
          population_source = source_metadata_new ''catalog://genegis/nagoya-population'';
          boundary_source_contract = source_contract_new boundary_source;
          boundary_source_contract = boundary_source_contract\<lparr>so_authority :=
            (Some ''MLIT National Land Numerical Information'')\<rparr>;
          population_source_contract = source_contract_new population_source;
          population_source_contract = population_source_contract\<lparr>so_authority :=
            (Some ''Nagoya City'')\<rparr>;
          boundary_geo_contract = with_source (with_coverage
            (with_temporal (with_measure (with_spatial (geo_contract_new ''nagoya.boundary.2020'')
            (spatial_known GkPolygon crs_wgs84 AoLongitudeLatitude))
            (measure_simple MkGeometry ''geometry'' AbNone))
            (\<lparr>te_reference_period = ''2020'', te_granularity = TgYear,
            te_observed_at = None\<rparr>)) nagoya_ward_coverage) boundary_source_contract;
          population_geo_contract = with_source (with_coverage
            (with_temporal (with_measure (geo_contract_new ''nagoya.population.2020'')
            (\<lparr>me_kind = MkCount, me_unit = ''persons'', me_numerator = None,
            me_denominator = None, me_aggregation = AbSum,
            me_population_universe = (Some ''2020 census population'')\<rparr>))
            (\<lparr>te_reference_period = ''2020'', te_granularity = TgYear,
            te_observed_at = None\<rparr>)) nagoya_ward_coverage) population_source_contract;
          workflow = workflow\<lparr>wf_input_contracts := [
              ic_with_geo_contract (ic_with_source_snapshot
                (ic_with_value_unit (ic_with_crs (input_contract_new ''boundary'') crs_wgs84)
                ''geometry'') boundary_source) boundary_geo_contract,
              ic_with_geo_contract (ic_with_source_snapshot
                (ic_with_value_unit (input_contract_new ''population'') ''persons'') population_source)
                population_geo_contract]\<rparr>;
          load_boundary = dag_step h (u 1) ''load-boundary'' ''LoadBoundary'' (jobj [])
            [''find-boundary''];
          load_boundary = load_boundary\<lparr>ws_inputs := ws_inputs load_boundary @
            [ref_input ''boundary'']\<rparr>;
          load_population = dag_step h (u 2) ''load-population'' ''LoadPopulation'' (jobj [])
            [''find-population''];
          load_population = load_population\<lparr>ws_inputs := ws_inputs load_population @
            [ref_input ''population'']\<rparr>;
          density_geo_contract = with_quality (with_coverage
            (with_temporal (with_measure (with_spatial
            (geo_contract_new ''nagoya.population-density.2020'')
            (spatial_known GkPolygon crs_wgs84 AoLongitudeLatitude))
            (\<lparr>me_kind = MkDensity, me_unit = ''persons/km2'',
            me_numerator = (Some (\<lparr>mt_kind = MkCount, mt_unit = ''persons''\<rparr>)),
            me_denominator = (Some (\<lparr>mt_kind = MkArea, mt_unit = ''km2''\<rparr>)),
            me_aggregation = AbRatioOfSums, me_population_universe =
            (Some ''2020 census population'')\<rparr>))
            (\<lparr>te_reference_period = ''2020'', te_granularity = TgYear,
            te_observed_at = None\<rparr>)) nagoya_ward_coverage)
            (\<lparr>qc_uncertainty = None, qc_tolerances =
            [\<lparr>qt_metric = ''density_relative_error'', qt_max_error_ppm = 5000\<rparr>]\<rparr>);
          calculate_density = with_output_contracts (dag_step h
            (u 3) ''calculate-density'' ''CalculateDensity''
            (jobj [(''formula'', JStr ''population / area_km2'')]) [''join-population-to-geometry''])
            [\<lparr>pc_port = ''result'', pc_contract = density_geo_contract\<rparr>];
          workflow = workflow\<lparr>wf_steps := [
              dag_step h (u 4) ''resolve-place'' ''ResolvePlace''
                (jobj [(''name'', JStr (utf8 [0x540D, 0x53E4, 0x5C4B, 0x5E02]))]) [],
              dag_step h (u 5) ''find-boundary'' ''FindDataset''
                (jobj [(''type'', JStr ''admin_boundary''), (''area'', JStr ''Nagoya'')])
                [''resolve-place''],
              dag_step h (u 6) ''find-population'' ''FindDataset''
                (jobj [(''type'', JStr ''population''), (''area'', JStr ''Nagoya'')])
                [''resolve-place''],
              load_boundary,
              load_population,
              dag_step h (u 7) ''normalize-schema'' ''NormalizeSchema'' (jobj [])
                [''load-boundary'', ''load-population''],
              dag_step h (u 8) ''reproject-for-area'' ''ReprojectForAreaCalculation''
                (jobj [(''method'', JStr ''ellipsoidal_wgs84''), (''crs'', JStr ''EPSG:4326''),
                (''area_unit'', JStr (''km'' @ utf8 [0xB2]))]) [''normalize-schema''],
              dag_step h (u 9) ''calculate-area-km2'' ''CalculateAreaKm2'' (jobj [])
                [''reproject-for-area''],
              dag_step h (u 10) ''join-population-to-geometry'' ''JoinPopulationToGeometry'' (jobj [])
                [''calculate-area-km2'', ''load-population''],
              calculate_density,
              dag_step h (u 11) ''generate-choropleth'' ''GenerateChoropleth'' (jobj [])
                [''calculate-density''],
              dag_step h (u 12) ''verify-units'' ''VerifyUnits'' (jobj []) [''generate-choropleth''],
              dag_step h (u 13) ''render-map'' ''RenderMap'' (jobj []) [''verify-units''],
              dag_step h (u 14) ''attach-sources'' ''AttachSources'' (jobj []) [''render-map'']]\<rparr>
      in finish_dag workflow ''attach-sources'')"

definition remote_cog_metadata_template ::
  "hashing \<Rightarrow> (nat \<Rightarrow> uuid) \<Rightarrow> geo_workflow" where
  "remote_cog_metadata_template h u =
     (let workflow = workflow_new (u 0) (utf8 [0x30EA, 0x30E2, 0x30FC, 0x30C8] @ ''COG'' @ utf8
            [0x30C7, 0x30E2, 0x306E, 0x30E1, 0x30BF, 0x30C7, 0x30FC, 0x30BF, 0x3092, 0x8868, 0x793A]);
          workflow = workflow\<lparr>wf_assumptions := wf_assumptions workflow @
            [''Asset is fetched over HTTP range-read when remote'']\<rparr>;
          workflow = workflow\<lparr>wf_steps := [
              dag_step h (u 1) ''find-dataset'' ''FindDataset''
                (jobj [(''tags'', JArr [JStr ''cog'', JStr ''remote'', JStr ''demo''])]) [],
              dag_step h (u 2) ''probe-raster-metadata'' ''ProbeRasterMetadata''
                (jobj [(''read_mode'', JStr ''http_range'')]) [''find-dataset''],
              dag_step h (u 3) ''summarize-cog-info'' ''SummarizeCogInfo'' (jobj [])
                [''probe-raster-metadata''],
              dag_step h (u 4) ''attach-sources'' ''AttachSources'' (jobj [])
                [''summarize-cog-info'']]\<rparr>
      in finish_dag workflow ''attach-sources'')"

definition local_cog_metadata_template ::
  "hashing \<Rightarrow> (nat \<Rightarrow> uuid) \<Rightarrow> geo_workflow" where
  "local_cog_metadata_template h u =
     (let workflow = workflow_new (u 0) (utf8 [0x30ED, 0x30FC, 0x30AB, 0x30EB] @ ''COG'' @ utf8
            [0x30C7, 0x30E2, 0x306E, 0x30E1, 0x30BF, 0x30C7, 0x30FC, 0x30BF, 0x3092, 0x8868, 0x793A]);
          workflow = workflow\<lparr>wf_assumptions := wf_assumptions workflow @
            [''Asset is read from bundled smoke GeoTIFF fixture'']\<rparr>;
          workflow = workflow\<lparr>wf_steps := [
              dag_step h (u 1) ''find-dataset'' ''FindDataset''
                (jobj [(''tags'', JArr [JStr ''cog'', JStr ''local'', JStr ''demo''])]) [],
              dag_step h (u 2) ''probe-raster-metadata'' ''ProbeRasterMetadata''
                (jobj [(''read_mode'', JStr ''local'')]) [''find-dataset''],
              dag_step h (u 3) ''summarize-cog-info'' ''SummarizeCogInfo'' (jobj [])
                [''probe-raster-metadata''],
              dag_step h (u 4) ''attach-sources'' ''AttachSources'' (jobj [])
                [''summarize-cog-info'']]\<rparr>
      in finish_dag workflow ''attach-sources'')"

definition nagoya_geoparquet_template ::
  "hashing \<Rightarrow> (nat \<Rightarrow> uuid) \<Rightarrow> geo_workflow" where
  "nagoya_geoparquet_template h u =
     (let workflow = workflow_new (u 0) (utf8 [0x540D, 0x53E4, 0x5C4B] @ '' wards GeoParquet '' @ utf8
            [0x3092, 0x691C, 0x8A3C]);
          workflow = add_input_contract workflow (ic_with_source_snapshot
            (ic_with_value_unit (ic_with_crs (input_contract_new ''wards'') crs_wgs84) ''persons'')
            (source_metadata_new ''catalog://genegis/nagoya-wards-geoparquet''));
          workflow = workflow\<lparr>wf_assumptions := wf_assumptions workflow @
            [''Bundled GeoParquet fixture with 16 Nagoya wards'']\<rparr>;
          load_geoparquet = dag_step h (u 1) ''load-geoparquet'' ''LoadGeoParquet''
            (jobj [(''format'', JStr ''geoparquet'')]) [''find-dataset''];
          load_geoparquet = load_geoparquet\<lparr>ws_inputs := ws_inputs load_geoparquet @
            [ref_input ''wards'']\<rparr>;
          workflow = workflow\<lparr>wf_steps := [
              dag_step h (u 2) ''find-dataset'' ''FindDataset''
                (jobj [(''tags'', JArr [JStr ''nagoya'', JStr ''geoparquet'', JStr ''demo''])]) [],
              load_geoparquet,
              dag_step h (u 3) ''verify-feature-count'' ''VerifyFeatureCount''
                (jobj [(''expected'', JInt 16), (''field'', JStr ''ward_name'')]) [''load-geoparquet''],
              dag_step h (u 4) ''attach-sources'' ''AttachSources'' (jobj [])
                [''verify-feature-count'']]\<rparr>
      in finish_dag workflow ''attach-sources'')"

definition scene3d_copc_lod1_template ::
  "hashing \<Rightarrow> (nat \<Rightarrow> uuid) \<Rightarrow> source_snapshot \<Rightarrow> source_snapshot \<Rightarrow> crs \<Rightarrow> geo_workflow" where
  "scene3d_copc_lod1_template h u copc_source building_source crs =
     (let workflow = workflow_new (u 0) (''COPC'' @ utf8
            [0x70B9, 0x7FA4, 0x3068, 0x5B9F, 0x9AD8, 0x3055] @ ''LOD1'' @ utf8 [0x5EFA, 0x7269, 0x3092]
            @ ''3D'' @ utf8 [0x8868, 0x793A]);
          workflow = workflow\<lparr>wf_input_contracts := [
              ic_with_source_snapshot (ic_with_value_unit
                (ic_with_crs (input_contract_new ''copc'') crs) ''metres'') copc_source,
              ic_with_source_snapshot (ic_with_value_unit
                (ic_with_crs (input_contract_new ''buildings'') crs) ''metres'')
                building_source]\<rparr>;
          load_copc = dag_step h (u 1) ''load-copc'' ''LoadCopcPoints''
            (jobj [(''coordinate_unit'', JStr ''metres''), (''vertical_unit'', JStr ''metres'')]) [];
          load_copc = load_copc\<lparr>ws_inputs := ws_inputs load_copc @ [ref_input ''copc'']\<rparr>;
          load_buildings = dag_step h (u 2) ''load-buildings'' ''LoadMeasuredLod1Buildings''
            (jobj [(''height_field'', JStr ''height_m''), (''height_unit'', JStr ''metres'')]) [];
          load_buildings = load_buildings\<lparr>ws_inputs := ws_inputs load_buildings @
            [ref_input ''buildings'']\<rparr>;
          workflow = workflow\<lparr>wf_steps := [
              load_copc,
              load_buildings,
              dag_step h (u 3) ''compose-scene'' ''ComposeScene3d''
                (jobj [(''crs'', JStr (crs_identifier crs)), (''camera'', JStr ''orbit'')])
                [''load-copc'', ''load-buildings''],
              dag_step h (u 4) ''render-webgpu'' ''RenderScene3dWebGpu''
                (jobj [(''depth_test'', JBool True), (''point_primitive'', JStr ''point_list'')])
                [''compose-scene''],
              dag_step h (u 5) ''record-performance'' ''RecordScene3dPerformance''
                (jobj [(''metrics'', JArr [JStr ''first_frame_ns'', JStr ''steady_state_fps'',
                JStr ''upload_bytes''])]) [''render-webgpu'']]\<rparr>
      in finish_dag workflow ''record-performance'')"

definition ogc_service_read_template ::
  "hashing \<Rightarrow> (nat \<Rightarrow> uuid) \<Rightarrow> string \<Rightarrow> string \<Rightarrow> source_snapshot \<Rightarrow> crs option \<Rightarrow> geo_workflow" where
  "ogc_service_read_template h u service operation source crs =
     (let workflow = workflow_new (u 0) (service @ '' '' @ operation @ '' '' @ utf8
            [0x3092, 0x691C, 0x8A3C, 0x3057, 0x3066, 0x53D6, 0x5F97]);
          input = ic_with_source_snapshot (ic_with_value_unit
            (input_contract_new ''service'') ''response_bytes'') source;
          input = (case crs of None \<Rightarrow> input | Some crs \<Rightarrow> ic_with_crs input crs);
          workflow = workflow\<lparr>wf_input_contracts := [
              input]\<rparr>;
          admit_adapter = dag_step h (u 1) ''admit-ogc-adapter'' ''AdmitOgcAdapter''
            (jobj [(''adapter_id'', JStr ''org.genegis.ogc-web-service''), (''service'', JStr service),
            (''operation'', JStr operation), (''capability'', JStr ''network_read'')]) [];
          admit_adapter = admit_adapter\<lparr>ws_inputs := ws_inputs admit_adapter @
            [ref_input ''service'']\<rparr>;
          workflow = workflow\<lparr>wf_steps := [
              admit_adapter,
              dag_step h (u 2) ''execute-ogc-request'' ''ExecuteOgcRequest''
                (jobj [(''service'', JStr service), (''operation'', JStr operation)])
                [''admit-ogc-adapter''],
              dag_step h (u 3) ''validate-ogc-response'' ''ValidateOgcResponse''
                (jobj [(''reject_exception_documents'', JBool True)]) [''execute-ogc-request''],
              dag_step h (u 4) ''attach-io-receipt'' ''AttachIoReceipt''
                (jobj [(''schema_version'', JStr ''0.1.0'')]) [''validate-ogc-response'']]\<rparr>
      in finish_dag workflow ''attach-io-receipt'')"

definition geocoding_template ::
  "hashing \<Rightarrow> (nat \<Rightarrow> uuid) \<Rightarrow> string \<Rightarrow> string \<Rightarrow> source_snapshot \<Rightarrow> u32 \<Rightarrow> u32 \<Rightarrow> string \<Rightarrow> u64 \<Rightarrow> geo_workflow" where
  "geocoding_template h u mode provider_id provider_source query_count max_candidates privacy_policy minimum_interval_ms =
     (let workflow = workflow_new (u 0) (show_nat (unat query_count) @ utf8 [0x4EF6, 0x3092]
            @ provider_id @ utf8 [0x3067, 0x30B8, 0x30AA, 0x30B3, 0x30FC, 0x30C7, 0x30A3, 0x30F3,
            0x30B0]);
          workflow = workflow\<lparr>wf_input_contracts := [
              ic_with_source_snapshot (ic_with_value_unit
                (input_contract_new ''queries'') ''address_queries'') provider_source]\<rparr>;
          admit = dag_step h (u 1) ''admit-geocoding-provider'' ''AdmitGeocodingProvider''
            (jobj [(''adapter_id'', JStr ''org.genegis.geocoding''),
            (''provider_id'', JStr provider_id), (''mode'', JStr mode),
            (''query_count'', JInt (uint query_count))]) [];
          admit = admit\<lparr>ws_inputs := ws_inputs admit @ [ref_input ''queries'']\<rparr>;
          workflow = workflow\<lparr>wf_steps := [
              admit,
              dag_step h (u 2) ''apply-geocoding-policy'' ''ApplyGeocodingPrivacyAndRatePolicy''
                (jobj [(''privacy_policy'', JStr privacy_policy),
                (''minimum_interval_ms'', JInt (uint minimum_interval_ms)),
                (''max_candidates'', JInt (uint max_candidates))]) [''admit-geocoding-provider''],
              dag_step h (u 3) ''execute-geocoding-queries'' ''ExecuteGeocodingQueries''
                (jobj [(''output_crs'', JStr ''EPSG:4326''), (''coordinate_unit'', JStr ''degrees'')])
                [''apply-geocoding-policy''],
              dag_step h (u 4) ''validate-geocoding-candidates'' ''ValidateGeocodingCandidates''
                (jobj [(''require'', JArr [JStr ''confidence'', JStr ''provider_id'',
                JStr ''source_receipt'']), (''confidence_range'',
                JArr [JFloat (Fin 0), JFloat (Fin 1)])]) [''execute-geocoding-queries''],
              dag_step h (u 5) ''attach-geocoding-receipts'' ''AttachGeocodingReceipts''
                (jobj [(''retain_raw_queries'', JBool False), (''schema_version'', JStr ''0.1.0'')])
                [''validate-geocoding-candidates'']]\<rparr>
      in finish_dag workflow ''attach-geocoding-receipts'')"

definition narrative_project_view_template ::
  "hashing \<Rightarrow> (nat \<Rightarrow> uuid) \<Rightarrow> source_snapshot \<Rightarrow> string \<Rightarrow> u32 \<Rightarrow> geo_workflow" where
  "narrative_project_view_template h u result_source result_digest frame_count =
     (let workflow = workflow_new (u 0) (show_nat (unat frame_count) @ utf8
            [0x5834, 0x9762, 0x306E, 0x691C, 0x8A3C, 0x53EF, 0x80FD, 0x306A, 0x7269, 0x8A9E, 0x5730,
            0x56F3, 0x3092, 0x69CB, 0x6210]);
          workflow = workflow\<lparr>wf_input_contracts := [
              ic_with_source_snapshot (ic_with_value_unit
                (input_contract_new ''verified-result'') ''digest_bound_project_view'')
                result_source]\<rparr>;
          validate = dag_step h (u 1) ''validate-narrative-result'' ''ValidateNarrativeResultIdentity''
            (jobj [(''result_digest'', JStr result_digest)]) [];
          validate = validate\<lparr>ws_inputs := ws_inputs validate @
            [ref_input ''verified-result'']\<rparr>;
          workflow = workflow\<lparr>wf_steps := [
              validate,
              dag_step h (u 2) ''compose-narrative-frames'' ''ComposeNarrativeFrames''
                (jobj [(''frame_count'', JInt (uint frame_count)), (''ordered'', JBool True)])
                [''validate-narrative-result''],
              dag_step h (u 3) ''validate-narrative-media'' ''ValidateNarrativeMediaReferences''
                (jobj [(''require_content_digest'', JBool True), (''reject_local_paths'', JBool True)])
                [''compose-narrative-frames''],
              dag_step h (u 4) ''bind-narrative-dashboards'' ''BindNarrativeDashboardDigests''
                (jobj [(''require_result_identity'', JBool True)]) [''validate-narrative-media''],
              dag_step h (u 5) ''seal-narrative-view'' ''SealNarrativeProjectView''
                (jobj [(''digest'', JStr ''sha256''), (''copy_screenshots'', JBool False)])
                [''bind-narrative-dashboards'']]\<rparr>
      in finish_dag workflow ''seal-narrative-view'')"

definition live_feed_ingest_template ::
  "hashing \<Rightarrow> (nat \<Rightarrow> uuid) \<Rightarrow> string \<Rightarrow> string \<Rightarrow> source_snapshot \<Rightarrow> u64 \<Rightarrow> string \<Rightarrow> u32 \<Rightarrow> geo_workflow" where
  "live_feed_ingest_template h u domain provider_id source after_cursor watermark limit =
     (let workflow = workflow_new (u 0) (provider_id @ utf8 [0x306E] @ domain @ utf8
            [0x66F4, 0x65B0, 0x3092, 0x53D6, 0x308A, 0x8FBC, 0x3080]);
          workflow = workflow\<lparr>wf_input_contracts := [
              ic_with_source_snapshot (ic_with_value_unit
                (input_contract_new ''live-feed'') ''immutable_observation_snapshots'') source]\<rparr>;
          admit = dag_step h (u 1) ''admit-live-feed'' ''AdmitLiveFeedAdapter''
            (jobj [(''adapter_id'', JStr ''org.genegis.live-feed''),
            (''provider_id'', JStr provider_id), (''domain'', JStr domain),
            (''capability'', JStr ''network_read'')]) [];
          admit = admit\<lparr>ws_inputs := ws_inputs admit @ [ref_input ''live-feed'']\<rparr>;
          workflow = workflow\<lparr>wf_steps := [
              admit,
              dag_step h (u 2) ''read-live-feed-window'' ''ReadLiveFeedCursorWindow''
                (jobj [(''after_cursor'', JInt (uint after_cursor)), (''watermark'', JStr watermark),
                (''limit'', JInt (uint limit))]) [''admit-live-feed''],
              dag_step h (u 3) ''validate-live-feed-window''
                ''ValidateLiveFeedCursorWatermarkFreshness''
                (jobj [(''reject_cursor_regression'', JBool True),
                (''reject_watermark_regression'', JBool True),
                (''require_crs_units_source'', JBool True)]) [''read-live-feed-window''],
              dag_step h (u 4) ''seal-observation-snapshots'' ''SealImmutableObservationSnapshots''
                (jobj [(''digest'', JStr ''sha256''), (''retain_raw_response_receipt'', JBool True)])
                [''validate-live-feed-window''],
              dag_step h (u 5) ''commit-live-feed-cursor'' ''CommitLiveFeedCursorWatermark''
                (jobj [(''commit_after_snapshot_seal'', JBool True)])
                [''seal-observation-snapshots'']]\<rparr>
      in finish_dag workflow ''commit-live-feed-cursor'')"

definition operational_dashboard_view_template ::
  "hashing \<Rightarrow> (nat \<Rightarrow> uuid) \<Rightarrow> source_snapshot \<Rightarrow> string \<Rightarrow> u64 \<Rightarrow> geo_workflow" where
  "operational_dashboard_view_template h u source result_digest view_version =
     (let workflow = workflow_new (u 0) (utf8 [0x904B, 0x7528, 0x30C0, 0x30C3, 0x30B7, 0x30E5, 0x30DC,
            0x30FC, 0x30C9] @ '' view v'' @ show_nat (unat view_version) @ '' '' @ utf8
            [0x3092, 0x66F4, 0x65B0]);
          workflow = workflow\<lparr>wf_input_contracts := [
              ic_with_source_snapshot (ic_with_value_unit
                (input_contract_new ''operational-result'') ''versioned_operational_view'')
                source]\<rparr>;
          validate = dag_step h (u 1) ''validate-operational-result''
            ''ValidateOperationalResultIdentity'' (jobj
            [(''result_digest'', JStr result_digest), (''view_version'', JInt (uint view_version))]) [];
          validate = validate\<lparr>ws_inputs := ws_inputs validate @
            [ref_input ''operational-result'']\<rparr>;
          workflow = workflow\<lparr>wf_steps := [
              validate,
              dag_step h (u 2) ''bind-operational-map'' ''BindOperationalMapLayers''
                (jobj [(''require_same_result'', JBool True)]) [''validate-operational-result''],
              dag_step h (u 3) ''bind-operational-widgets'' ''BindOperationalDashboardWidgets''
                (jobj [(''require_unique_widget_ids'', JBool True)]) [''bind-operational-map''],
              dag_step h (u 4) ''bind-operational-status'' ''BindOperationalCursorWatermarkStatus''
                (jobj [(''require_incremental_state_digest'', JBool True)])
                [''bind-operational-widgets''],
              dag_step h (u 5) ''bind-operational-alert-history'' ''BindOperationalAlertHistory''
                (jobj [(''append_only'', JBool True)]) [''bind-operational-status''],
              dag_step h (u 6) ''seal-operational-view'' ''SealOperationalViewVersion''
                (jobj [(''digest'', JStr ''sha256''), (''require_previous_version'',
                JBool (1 < view_version))]) [''bind-operational-alert-history'']]\<rparr>
      in finish_dag workflow ''seal-operational-view'')"

definition verified_alert_evaluation_template ::
  "hashing \<Rightarrow> (nat \<Rightarrow> uuid) \<Rightarrow> source_snapshot \<Rightarrow> string \<Rightarrow> string \<Rightarrow> geo_workflow" where
  "verified_alert_evaluation_template h u source policy_digest result_digest =
     (let workflow = workflow_new (u 0) (utf8 [0x6C7A, 0x5B9A, 0x8AD6, 0x7684, 0x306A, 0x7A7A, 0x9593,
            0x30A2, 0x30E9, 0x30FC, 0x30C8, 0x6761, 0x4EF6, 0x3092, 0x691C, 0x8A3C]);
          workflow = workflow\<lparr>wf_input_contracts := [
              ic_with_source_snapshot (ic_with_value_unit
                (input_contract_new ''alert-window'') ''observation_window'') source]\<rparr>;
          validate = dag_step h (u 1) ''validate-alert-window'' ''ValidateAlertTriggeringWindow''
            (jobj [(''result_digest'', JStr result_digest)]) [];
          validate = validate\<lparr>ws_inputs := ws_inputs validate @
            [ref_input ''alert-window'']\<rparr>;
          workflow = workflow\<lparr>wf_steps := [
              validate,
              dag_step h (u 2) ''admit-alert-policy'' ''AdmitDeterministicAlertPolicy''
                (jobj [(''policy_digest'', JStr policy_digest), (''llm_judgement'', JBool False)])
                [''validate-alert-window''],
              dag_step h (u 3) ''evaluate-alert-rule'' ''EvaluateThresholdOrAnomalyRule''
                (jobj [(''numeric_only'', JBool True)]) [''admit-alert-policy''],
              dag_step h (u 4) ''verify-alert-evaluation'' ''VerifyAlertEvaluation''
                (jobj [(''require_checks'', JBool True)]) [''evaluate-alert-rule''],
              dag_step h (u 5) ''seal-alert-record'' ''SealVerifiedAlertRecord''
                (jobj [(''digest'', JStr ''sha256''), (''acknowledgements'', JStr ''append_only'')])
                [''verify-alert-evaluation'']]\<rparr>
      in finish_dag workflow ''seal-alert-record'')"

definition alert_acknowledgement_template ::
  "hashing \<Rightarrow> (nat \<Rightarrow> uuid) \<Rightarrow> source_snapshot \<Rightarrow> string \<Rightarrow> u32 \<Rightarrow> geo_workflow" where
  "alert_acknowledgement_template h u source alert_digest acknowledgement_count =
     (let workflow = workflow_new (u 0) (utf8 [0x691C, 0x8A3C, 0x6E08, 0x307F, 0x30A2, 0x30E9, 0x30FC,
            0x30C8, 0x3092, 0x78BA, 0x8A8D, 0x6E08, 0x307F, 0x306B, 0x3059, 0x308B]);
          workflow = workflow\<lparr>wf_input_contracts := [
              ic_with_source_snapshot (ic_with_value_unit
                (input_contract_new ''verified-alert'') ''alert_record'') source]\<rparr>;
          validate = dag_step h (u 1) ''validate-alert-chain'' ''ValidateAlertAcknowledgementChain''
            (jobj [(''alert_digest'', JStr alert_digest)]) [];
          validate = validate\<lparr>ws_inputs := ws_inputs validate @
            [ref_input ''verified-alert'']\<rparr>;
          workflow = workflow\<lparr>wf_steps := [
              validate,
              dag_step h (u 2) ''append-alert-acknowledgement'' ''AppendAlertAcknowledgement''
                (jobj [(''acknowledgement_count'', JInt (uint acknowledgement_count))])
                [''validate-alert-chain''],
              dag_step h (u 3) ''seal-alert-acknowledgement'' ''SealAcknowledgedAlertRecord''
                (jobj [(''digest'', JStr ''sha256''), (''preserve_trigger'', JBool True)])
                [''append-alert-acknowledgement'']]\<rparr>
      in finish_dag workflow ''seal-alert-acknowledgement'')"

definition scenario_branch_template ::
  "hashing \<Rightarrow> (nat \<Rightarrow> uuid) \<Rightarrow> source_snapshot \<Rightarrow> string \<Rightarrow> geo_workflow" where
  "scenario_branch_template h u source branch_id =
     (let workflow = workflow_new (u 0) (''scenario '' @ branch_id @ '' '' @ utf8
            [0x3092, 0x5206, 0x5C90]);
          workflow = workflow\<lparr>wf_input_contracts := [
              ic_with_source_snapshot (ic_with_value_unit
                (input_contract_new ''scenario-base'') ''project_state'') source]\<rparr>;
          validate = dag_step h (u 1) ''validate-scenario-base'' ''ValidateScenarioBaseIdentity''
            (jobj [(''branch_id'', JStr branch_id)]) [];
          validate = validate\<lparr>ws_inputs := ws_inputs validate @
            [ref_input ''scenario-base'']\<rparr>;
          workflow = workflow\<lparr>wf_steps := [
              validate,
              dag_step h (u 2) ''bind-scenario-assumptions'' ''BindTypedScenarioAssumptions''
                (jobj [(''require_units'', JBool True)]) [''validate-scenario-base''],
              dag_step h (u 3) ''bind-scenario-outcomes'' ''BindSpatialScenarioOutcomes''
                (jobj [(''require_result_digest'', JBool True)]) [''bind-scenario-assumptions''],
              dag_step h (u 4) ''seal-scenario-branch'' ''SealScenarioBranch''
                (jobj [(''digest'', JStr ''sha256'')]) [''bind-scenario-outcomes'']]\<rparr>
      in finish_dag workflow ''seal-scenario-branch'')"

definition scenario_comparison_template ::
  "hashing \<Rightarrow> (nat \<Rightarrow> uuid) \<Rightarrow> source_snapshot \<Rightarrow> geo_workflow" where
  "scenario_comparison_template h u source =
     (let workflow = workflow_new (u 0) (''scenario '' @ utf8
            [0x306E, 0x4EEE, 0x5B9A, 0x3068, 0x7A7A, 0x9593, 0x7D50, 0x679C, 0x3092, 0x6BD4, 0x8F03]);
          workflow = workflow\<lparr>wf_input_contracts := [
              ic_with_source_snapshot (ic_with_value_unit
                (input_contract_new ''scenario-comparison'') ''semantic_diff'') source]\<rparr>;
          validate = dag_step h (u 1) ''validate-scenario-branches''
            ''ValidateScenarioBranchIdentities'' (jobj [(''same_base_required'', JBool True)]) [];
          validate = validate\<lparr>ws_inputs := ws_inputs validate @
            [ref_input ''scenario-comparison'']\<rparr>;
          workflow = workflow\<lparr>wf_steps := [
              validate,
              dag_step h (u 2) ''diff-scenario-assumptions'' ''DiffScenarioAssumptions''
                (jobj [(''semantic'', JBool True)]) [''validate-scenario-branches''],
              dag_step h (u 3) ''diff-scenario-outcomes'' ''DiffSpatialScenarioOutcomes''
                (jobj [(''preserve_units'', JBool True)]) [''diff-scenario-assumptions''],
              dag_step h (u 4) ''seal-scenario-diff'' ''SealScenarioSemanticDiff''
                (jobj [(''digest'', JStr ''sha256'')]) [''diff-scenario-outcomes'']]\<rparr>
      in finish_dag workflow ''seal-scenario-diff'')"

definition scenario_merge_template ::
  "hashing \<Rightarrow> (nat \<Rightarrow> uuid) \<Rightarrow> source_snapshot \<Rightarrow> string \<Rightarrow> geo_workflow" where
  "scenario_merge_template h u source diff_digest =
     (let workflow = workflow_new (u 0) (utf8 [0x627F, 0x8A8D, 0x6E08, 0x307F] @ '' scenario diff ''
            @ utf8 [0x3092] @ '' merge'');
          workflow = workflow\<lparr>wf_input_contracts := [
              ic_with_source_snapshot (ic_with_value_unit
                (input_contract_new ''scenario-merge'') ''reviewed_semantic_diff'') source]\<rparr>;
          validate = dag_step h (u 1) ''validate-scenario-approval'' ''ValidateScenarioDiffApproval''
            (jobj [(''diff_digest'', JStr diff_digest)]) [];
          validate = validate\<lparr>ws_inputs := ws_inputs validate @
            [ref_input ''scenario-merge'']\<rparr>;
          workflow = workflow\<lparr>wf_steps := [
              validate,
              dag_step h (u 2) ''apply-scenario-merge'' ''ApplyReviewedScenarioMerge''
                (jobj [(''reject_stale_approval'', JBool True)]) [''validate-scenario-approval''],
              dag_step h (u 3) ''seal-scenario-merge'' ''SealScenarioMergeCommit''
                (jobj [(''digest'', JStr ''sha256'')]) [''apply-scenario-merge'']]\<rparr>
      in finish_dag workflow ''seal-scenario-merge'')"

definition city_scene_stream_template ::
  "hashing \<Rightarrow> (nat \<Rightarrow> uuid) \<Rightarrow> source_snapshot \<Rightarrow> geo_workflow" where
  "city_scene_stream_template h u source =
     (let workflow = workflow_new (u 0) (utf8 [0x90FD, 0x5E02, 0x30B9, 0x30B1, 0x30FC, 0x30EB, 0x306E]
            @ ''2D/3D stream frame '' @ utf8 [0x3092, 0x8A08, 0x753B]);
          workflow = workflow\<lparr>wf_input_contracts := [
              ic_with_source_snapshot (ic_with_value_unit
                (input_contract_new ''city-scene'') ''open_city_stream_manifest'') source]\<rparr>;
          validate = dag_step h (u 1) ''validate-city-scene''
            ''ValidateCitySceneOpenFormatsAndSources''
            (jobj [(''formats'', JArr [JStr ''3dtiles-1.1'', JStr ''copc-1.0'', JStr ''cog'',
            JStr ''pmtiles''])]) [];
          validate = validate\<lparr>ws_inputs := ws_inputs validate @
            [ref_input ''city-scene'']\<rparr>;
          workflow = workflow\<lparr>wf_steps := [
              validate,
              dag_step h (u 2) ''bind-shared-spatial-view''
                ''BindShared2d3dCameraSelectionTemporalState''
                (jobj [(''require'', JArr [JStr ''crs'', JStr ''camera'', JStr ''selection'',
                JStr ''temporal_cursor''])]) [''validate-city-scene''],
              dag_step h (u 3) ''select-city-stream-frontier''
                ''SelectCityStreamScreenSpaceErrorFrontier''
                (jobj [(''hierarchical_refinement'', JBool True)]) [''bind-shared-spatial-view''],
              dag_step h (u 4) ''apply-city-stream-budget'' ''ApplyCityStreamTileByteBudget''
                (jobj [(''hard_limit'', JBool True)]) [''select-city-stream-frontier''],
              dag_step h (u 5) ''seal-city-frame-plan'' ''SealCitySceneFramePlan''
                (jobj [(''digest'', JStr ''sha256''), (''retain_provenance'', JBool True)])
                [''apply-city-stream-budget'']]\<rparr>
      in finish_dag workflow ''seal-city-frame-plan'')"

definition organization_governance_template ::
  "hashing \<Rightarrow> (nat \<Rightarrow> uuid) \<Rightarrow> source_snapshot \<Rightarrow> string \<Rightarrow> geo_workflow" where
  "organization_governance_template h u source operation =
     (let workflow = workflow_new (u 0) (utf8 [0x7D44, 0x7E54, 0x30DD, 0x30EA, 0x30B7, 0x30FC, 0x306B,
            0x5F93, 0x3063, 0x3066, 0x64CD, 0x4F5C, 0x3092, 0x5224, 0x5B9A, 0x3057, 0x76E3, 0x67FB,
            0x8A3C, 0x62E0, 0x3092, 0x5C01, 0x5370]);
          workflow = workflow\<lparr>wf_input_contracts := [
              ic_with_source_snapshot (ic_with_value_unit
                (input_contract_new ''organization-governance'') ''policy_governed_state'')
                source]\<rparr>;
          validate = dag_step h (u 1) ''validate-governance-policy''
            ''ValidateOrganizationPolicyAndRoleBinding''
            (jobj [(''operation'', JStr operation), (''fail_closed'', JBool True)]) [];
          validate = validate\<lparr>ws_inputs := ws_inputs validate @
            [ref_input ''organization-governance'']\<rparr>;
          workflow = workflow\<lparr>wf_steps := [
              validate,
              dag_step h (u 2) ''evaluate-governance-operation''
                ''EvaluateRoleApprovalRetentionPolicy'' (jobj [(''operation'', JStr operation)])
                [''validate-governance-policy''],
              dag_step h (u 3) ''append-governance-audit'' ''AppendHashChainedGovernanceAudit''
                (jobj [(''digest'', JStr ''sha256'')]) [''evaluate-governance-operation''],
              dag_step h (u 4) ''seal-governance-receipt'' ''SealGovernanceOperationReceipt''
                (jobj [(''portable'', JBool True)]) [''append-governance-audit'']]\<rparr>
      in finish_dag workflow ''seal-governance-receipt'')"

definition private_federated_catalog_template ::
  "hashing \<Rightarrow> (nat \<Rightarrow> uuid) \<Rightarrow> source_snapshot \<Rightarrow> geo_workflow" where
  "private_federated_catalog_template h u source =
     (let workflow = workflow_new (u 0) (''private catalog federation '' @ utf8
            [0x306E, 0x30A2, 0x30AF, 0x30BB, 0x30B9, 0x5883, 0x754C, 0x3092, 0x691C, 0x8A3C]);
          workflow = workflow\<lparr>wf_input_contracts := [
              ic_with_source_snapshot (ic_with_value_unit
                (input_contract_new ''catalog-policy'') ''federated_catalog_access_policy'')
                source]\<rparr>;
          validate = dag_step h (u 1) ''validate-private-catalog-policy''
            ''ValidatePrivateCatalogPolicyCoverage'' (jobj [(''fail_closed'', JBool True)]) [];
          validate = validate\<lparr>ws_inputs := ws_inputs validate @
            [ref_input ''catalog-policy'']\<rparr>;
          workflow = workflow\<lparr>wf_steps := [
              validate,
              dag_step h (u 2) ''filter-private-catalogs'' ''FilterCatalogEndpointsBySubjectBoundary''
                (jobj [(''do_not_disclose_denied_identity'', JBool True)])
                [''validate-private-catalog-policy''],
              dag_step h (u 3) ''seal-private-catalog-admission'' ''SealPrivateCatalogAdmission''
                (jobj [(''retain_endpoint_source_identity'', JBool True),
                (''digest'', JStr ''sha256'')]) [''filter-private-catalogs'']]\<rparr>
      in finish_dag workflow ''seal-private-catalog-admission'')"

definition plugin_registry_operation_template ::
  "hashing \<Rightarrow> (nat \<Rightarrow> uuid) \<Rightarrow> source_snapshot \<Rightarrow> string \<Rightarrow> geo_workflow" where
  "plugin_registry_operation_template h u source operation =
     (let workflow = workflow_new (u 0) (utf8 [0x7F72, 0x540D, 0x4ED8, 0x304D]
            @ '' SDK v1 plugin registry '' @ utf8 [0x3092, 0x66F4, 0x65B0]);
          workflow = workflow\<lparr>wf_input_contracts := [
              ic_with_source_snapshot (ic_with_value_unit
                (input_contract_new ''plugin-registry'') ''signed_plugin_registry_state'')
                source]\<rparr>;
          verify = dag_step h (u 1) ''verify-plugin-registry-operation''
            ''VerifyPluginSignatureCapabilityAndRevocation''
            (jobj [(''operation'', JStr operation), (''signature'', JStr ''ed25519''),
            (''fail_closed'', JBool True)]) [];
          verify = verify\<lparr>ws_inputs := ws_inputs verify @
            [ref_input ''plugin-registry'']\<rparr>;
          workflow = workflow\<lparr>wf_steps := [
              verify,
              dag_step h (u 2) ''apply-plugin-registry-operation''
                ''ApplyImmutablePluginRegistryOperation'' (jobj [(''operation'', JStr operation)])
                [''verify-plugin-registry-operation''],
              dag_step h (u 3) ''seal-plugin-registry'' ''SealPluginRegistryReceipt''
                (jobj [(''digest'', JStr ''sha256'')]) [''apply-plugin-registry-operation'']]\<rparr>
      in finish_dag workflow ''seal-plugin-registry'')"

definition solution_pack_admission_template ::
  "hashing \<Rightarrow> (nat \<Rightarrow> uuid) \<Rightarrow> source_snapshot \<Rightarrow> geo_workflow" where
  "solution_pack_admission_template h u source =
     (let workflow = workflow_new (u 0) (''domain solution pack '' @ utf8 [0x306E]
            @ '' template/plugin '' @ utf8 [0x69CB, 0x6210, 0x3092, 0x691C, 0x8A3C]);
          workflow = workflow\<lparr>wf_input_contracts := [
              ic_with_source_snapshot (ic_with_value_unit
                (input_contract_new ''solution-pack'') ''portable_solution_pack_manifest'')
                source]\<rparr>;
          validate = dag_step h (u 1) ''validate-solution-pack''
            ''ValidateSolutionPackOpenStateAndIdentity'' (jobj [(''core_forks'', JBool False)]) [];
          validate = validate\<lparr>ws_inputs := ws_inputs validate @
            [ref_input ''solution-pack'']\<rparr>;
          workflow = workflow\<lparr>wf_steps := [
              validate,
              dag_step h (u 2) ''resolve-solution-pack-templates'' ''ResolveReviewedWorkflowTemplates''
                (jobj [(''reviewed_only'', JBool True)]) [''validate-solution-pack''],
              dag_step h (u 3) ''resolve-solution-pack-plugins'' ''ResolveSignedActiveSdkV1Plugins''
                (jobj [(''reject_revoked'', JBool True)]) [''validate-solution-pack''],
              dag_step h (u 4) ''seal-solution-pack-admission'' ''SealSolutionPackAdmission''
                (jobj [(''digest'', JStr ''sha256'')]) [''resolve-solution-pack-templates'',
                ''resolve-solution-pack-plugins'']]\<rparr>
      in finish_dag workflow ''seal-solution-pack-admission'')"

definition performance_matrix_evaluation_template ::
  "hashing \<Rightarrow> (nat \<Rightarrow> uuid) \<Rightarrow> source_snapshot \<Rightarrow> geo_workflow" where
  "performance_matrix_evaluation_template h u source =
     (let workflow = workflow_new (u 0) (''deployment performance matrix '' @ utf8 [0x306E]
            @ '' regression gate '' @ utf8 [0x3092, 0x8A55, 0x4FA1]);
          workflow = workflow\<lparr>wf_input_contracts := [
              ic_with_source_snapshot (ic_with_value_unit
                (input_contract_new ''performance-matrix'') ''reproducible_performance_measurements'')
                source]\<rparr>;
          validate = dag_step h (u 1) ''validate-performance-matrix''
            ''ValidatePerformanceFixtureBuildAndEnvironment''
            (jobj [(''dimensions'', JArr [JStr ''cpu'', JStr ''gpu'', JStr ''dataset'',
            JStr ''network'', JStr ''concurrency''])]) [];
          validate = validate\<lparr>ws_inputs := ws_inputs validate @
            [ref_input ''performance-matrix'']\<rparr>;
          workflow = workflow\<lparr>wf_steps := [
              validate,
              dag_step h (u 2) ''evaluate-performance-budgets''
                ''EvaluatePerformanceRegressionBudgets''
                (jobj [(''missing_required'', JStr ''pending''), (''regression'', JStr ''fail'')])
                [''validate-performance-matrix''],
              dag_step h (u 3) ''seal-performance-matrix'' ''SealPerformanceMatrixReceipt''
                (jobj [(''digest'', JStr ''sha256'')]) [''evaluate-performance-budgets'']]\<rparr>
      in finish_dag workflow ''seal-performance-matrix'')"

definition desktop_layer_bridge_template ::
  "hashing \<Rightarrow> (nat \<Rightarrow> uuid) \<Rightarrow> desktop_layer list \<Rightarrow> geo_workflow" where
  "desktop_layer_bridge_template h u layers =
     (let workflow = workflow_new (u 0) (utf8 [0x9078, 0x629E, 0x3057, 0x305F, 0x30C7, 0x30B9, 0x30AF,
            0x30C8, 0x30C3, 0x30D7] @ ''GIS'' @ utf8 [0x30EC, 0x30A4, 0x30E4, 0x30FC, 0x3092, 0x30D7,
            0x30ED, 0x30B8, 0x30A7, 0x30AF, 0x30C8, 0x30AB, 0x30D7, 0x30BB, 0x30EB, 0x3078, 0x8EE2,
            0x9001]);
          workflow = workflow\<lparr>wf_input_contracts := map
            (\<lambda>layer. ic_with_source_snapshot (ic_with_value_unit
            (ic_with_crs (input_contract_new (dl_layer_id layer)) (dl_crs layer)) ''source_bytes'')
            (dl_source layer)) layers\<rparr>;
          validate = dag_step h (u 1) ''validate-layer-declarations''
            ''ValidateDesktopLayerDeclarations'' (jobj
            [(''formats'', JArr (map (\<lambda>layer. JStr (dl_format layer)) layers)),
            (''require'', JArr [JStr ''crs'', JStr ''coordinate_unit'', JStr ''license'',
            JStr ''source_checksum''])]) [];
          validate = validate\<lparr>ws_inputs := ws_inputs validate @ map
            (\<lambda>layer. ref_input (dl_layer_id layer)) layers\<rparr>;
          workflow = workflow\<lparr>wf_steps := [
              validate,
              dag_step h (u 2) ''copy-content-addressed-assets'' ''CopyContentAddressedLayerAssets''
                (jobj [(''reject_path_escape'', JBool True)]) [''validate-layer-declarations''],
              dag_step h (u 3) ''build-project-capsule'' ''BuildDesktopBridgeProjectCapsule''
                (jobj [(''schema_version'', JStr ''0.1.0'')]) [''copy-content-addressed-assets''],
              dag_step h (u 4) ''verify-bridge-inventory'' ''VerifyDesktopBridgeInventory''
                (jobj [(''require_byte_exact_assets'', JBool True)])
                [''build-project-capsule'']]\<rparr>
      in finish_dag workflow ''verify-bridge-inventory'')"

definition nagoya_geoparquet_density_template ::
  "hashing \<Rightarrow> (nat \<Rightarrow> uuid) \<Rightarrow> geo_workflow" where
  "nagoya_geoparquet_density_template h u =
     (let workflow = workflow_new (u 0) (utf8 [0x540D, 0x53E4, 0x5C4B] @ '' GeoParquet '' @ utf8
            [0x4EBA, 0x53E3, 0x5BC6, 0x5EA6, 0x3092, 0x8868, 0x793A]);
          workflow = workflow\<lparr>wf_input_contracts := [
              ic_with_source_snapshot (ic_with_value_unit
                (ic_with_crs (input_contract_new ''wards'') crs_wgs84) ''persons'')
                (source_metadata_new ''catalog://genegis/nagoya-wards-geoparquet'')]\<rparr>;
          workflow = workflow\<lparr>wf_assumptions := wf_assumptions workflow @
            [''Density computed from bundled GeoParquet wards fixture'']\<rparr>;
          load_geoparquet = dag_step h (u 1) ''load-geoparquet'' ''LoadGeoParquet''
            (jobj [(''format'', JStr ''geoparquet'')]) [''find-dataset''];
          load_geoparquet = load_geoparquet\<lparr>ws_inputs := ws_inputs load_geoparquet @
            [ref_input ''wards'']\<rparr>;
          workflow = workflow\<lparr>wf_steps := [
              dag_step h (u 2) ''find-dataset'' ''FindDataset''
                (jobj [(''tags'', JArr [JStr ''nagoya'', JStr ''geoparquet'', JStr ''density''])]) [],
              load_geoparquet,
              dag_step h (u 3) ''calculate-area-km2'' ''CalculateAreaKm2'' (jobj [])
                [''load-geoparquet''],
              dag_step h (u 4) ''calculate-density'' ''CalculateDensity''
                (jobj [(''formula'', JStr ''population / area_km2'')]) [''calculate-area-km2''],
              dag_step h (u 5) ''generate-choropleth'' ''GenerateChoropleth'' (jobj [])
                [''calculate-density''],
              dag_step h (u 6) ''verify-units'' ''VerifyUnits'' (jobj []) [''generate-choropleth''],
              dag_step h (u 7) ''render-map'' ''RenderMap'' (jobj []) [''verify-units''],
              dag_step h (u 8) ''attach-sources'' ''AttachSources'' (jobj []) [''render-map'']]\<rparr>
      in finish_dag workflow ''attach-sources'')"

definition external_stac_fetch_template ::
  "hashing \<Rightarrow> (nat \<Rightarrow> uuid) \<Rightarrow> geo_workflow" where
  "external_stac_fetch_template h u =
     (let workflow = workflow_new (u 0) (utf8 [0x5916, 0x90E8] @ '' STAC collection '' @ utf8 [0x3092]
            @ '' fetch'');
          workflow = workflow\<lparr>wf_assumptions := wf_assumptions workflow @
            [''Collection URL is extracted from the user prompt'']\<rparr>;
          workflow = workflow\<lparr>wf_steps := [
              dag_step h (u 1) ''find-dataset'' ''FindDataset''
                (jobj [(''tags'', JArr [JStr ''stac'', JStr ''external'', JStr ''demo''])]) [],
              dag_step h (u 2) ''fetch-stac-collection'' ''FetchStacCollection''
                (jobj [(''tool'', JStr ''stac_fetch'')]) [''find-dataset''],
              dag_step h (u 3) ''summarize-collection'' ''SummarizeCollection'' (jobj [])
                [''fetch-stac-collection''],
              dag_step h (u 4) ''attach-sources'' ''AttachSources'' (jobj [])
                [''summarize-collection'']]\<rparr>
      in finish_dag workflow ''attach-sources'')"

definition dashboard_export_template ::
  "hashing \<Rightarrow> (nat \<Rightarrow> uuid) \<Rightarrow> geo_workflow" where
  "dashboard_export_template h u =
     (let workflow = workflow_new (u 0) (utf8 [0x691C, 0x8A3C, 0x6E08, 0x307F, 0x4EBA, 0x53E3, 0x5BC6,
            0x5EA6, 0x3092] @ '' PMTiles '' @ utf8 [0x30C0, 0x30C3, 0x30B7, 0x30E5, 0x30DC, 0x30FC,
            0x30C9, 0x3068, 0x3057, 0x3066, 0x66F8, 0x304D, 0x51FA, 0x3057]);
          workflow = workflow\<lparr>wf_assumptions := wf_assumptions workflow @
            [''Input is the bundled Nagoya density result'']\<rparr>;
          workflow = workflow\<lparr>wf_assumptions := wf_assumptions workflow @
            [(''Tiles are encoded from WGS84 lon/lat into Web Mercator at zoom 7'' @ utf8 [0x2013]
            @ ''11'')]\<rparr>;
          workflow = workflow\<lparr>wf_steps := [
              dag_step h (u 1) ''find-dataset'' ''FindDataset''
                (jobj [(''tags'', JArr [JStr ''nagoya'', JStr ''density'', JStr ''population''])]) [],
              dag_step h (u 2) ''run-density-analysis'' ''RunDensityAnalysis''
                (jobj [(''tool'', JStr ''density'')]) [''find-dataset''],
              dag_step h (u 3) ''encode-vector-tiles'' ''EncodeVectorTiles''
                (jobj [(''extent'', JInt 4096), (''zoom_range'', JArr [JInt 7, JInt 11])])
                [''run-density-analysis''],
              dag_step h (u 4) ''write-pmtiles-archive'' ''WritePmTilesArchive''
                (jobj [(''format'', JStr ''pmtiles-v3''), (''clustered'', JBool True)])
                [''encode-vector-tiles''],
              dag_step h (u 5) ''verify-roundtrip'' ''VerifyRoundTrip''
                (jobj [(''sampled_tiles'', JInt 8)]) [''write-pmtiles-archive''],
              dag_step h (u 6) ''attach-sources'' ''AttachSources'' (jobj [])
                [''verify-roundtrip'']]\<rparr>
      in finish_dag workflow ''attach-sources'')"

definition nagoya_flood_exposure_template ::
  "hashing \<Rightarrow> (nat \<Rightarrow> uuid) \<Rightarrow> geo_workflow" where
  "nagoya_flood_exposure_template h u =
     (let workflow = workflow_new (u 0) (utf8 [0x540D, 0x53E4, 0x5C4B, 0x5E02, 0x306E, 0x6D2A, 0x6C34,
            0x6D78, 0x6C34, 0x30EA, 0x30B9, 0x30AF, 0x3068, 0x4EBA, 0x53E3, 0x66DD, 0x9732, 0x3092,
            0x8868, 0x793A]);
          workflow = workflow\<lparr>wf_assumptions := wf_assumptions workflow @
            [''Flood zones are the bundled synthetic depth-band fixture'']\<rparr>;
          workflow = workflow\<lparr>wf_assumptions := wf_assumptions workflow @
            [''Exposure is estimated by deterministic even-odd grid sampling'']\<rparr>;
          workflow = workflow\<lparr>wf_steps := [
              dag_step h (u 1) ''find-flood-dataset'' ''FindDataset''
                (jobj [(''tags'', JArr [JStr ''nagoya'', JStr ''flood'', JStr ''hazard''])]) [],
              dag_step h (u 2) ''load-ward-population'' ''LoadWardPopulation''
                (jobj [(''dataset'', JStr ''nagoya-wards-density'')]) [''find-flood-dataset''],
              dag_step h (u 3) ''grid-sample-exposure'' ''GridSampleExposure''
                (jobj [(''samples_per_axis'', JInt 96), (''predicate'',
                JStr ''even_odd_point_in_polygon'')]) [''load-ward-population''],
              dag_step h (u 4) ''classify-depth-bands'' ''ClassifyDepthBands''
                (jobj [(''bands_m'', JArr [JFloat (Fin (5 / 10)), JFloat (Fin 3), JFloat (Fin 5)])])
                [''grid-sample-exposure''],
              dag_step h (u 5) ''verify-exposure'' ''VerifyExposure''
                (jobj [(''tool'', JStr ''duckdb_verify'')]) [''classify-depth-bands''],
              dag_step h (u 6) ''attach-sources'' ''AttachSources'' (jobj [])
                [''verify-exposure'']]\<rparr>
      in finish_dag workflow ''attach-sources'')"

definition nagoya_xmin_city_template ::
  "hashing \<Rightarrow> (nat \<Rightarrow> uuid) \<Rightarrow> geo_workflow" where
  "nagoya_xmin_city_template h u =
     (let workflow = workflow_new (u 0) (utf8 [0x540D, 0x53E4, 0x5C4B, 0x5E02, 0x306E] @ ''15'' @ utf8
            [0x5206, 0x90FD, 0x5E02, 0x30A2, 0x30AF, 0x30BB, 0x30B7, 0x30D3, 0x30EA, 0x30C6, 0x30A3,
            0x3092, 0x8868, 0x793A]);
          workflow = workflow\<lparr>wf_assumptions := wf_assumptions workflow @
            [''Walk network is the bundled ~400m grid fixture'']\<rparr>;
          workflow = workflow\<lparr>wf_assumptions := wf_assumptions workflow @
            [''Scores are cumulative-opportunity counts within 15 walk minutes'']\<rparr>;
          workflow = workflow\<lparr>wf_steps := [
              dag_step h (u 1) ''find-network-dataset'' ''FindDataset''
                (jobj [(''tags'', JArr [JStr ''nagoya'', JStr ''walk'', JStr ''network''])]) [],
              dag_step h (u 2) ''load-ward-population'' ''LoadWardPopulation''
                (jobj [(''dataset'', JStr ''nagoya-wards-density'')]) [''find-network-dataset''],
              dag_step h (u 3) ''build-walk-graph'' ''BuildWalkGraph''
                (jobj [(''algorithm'', JStr ''dijkstra''),
                (''snap_tolerance'', JStr ''nearest_node'')]) [''find-network-dataset''],
              dag_step h (u 4) ''snap-pois-and-centroids'' ''SnapPoisAndCentroids'' (jobj [])
                [''build-walk-graph''],
              dag_step h (u 5) ''compute-accessibility-scores'' ''ComputeAccessibilityScores''
                (jobj [(''measure'', JStr ''cumulative_opportunity''), (''threshold_min'', JInt 15)])
                [''snap-pois-and-centroids''],
              dag_step h (u 6) ''verify-route-sanity'' ''VerifyRouteSanity''
                (jobj [(''checks'', JArr [JStr ''triangle_inequality'',
                JStr ''threshold_monotonicity''])]) [''compute-accessibility-scores''],
              dag_step h (u 7) ''attach-sources'' ''AttachSources'' (jobj [])
                [''verify-route-sanity'']]\<rparr>
      in finish_dag workflow ''attach-sources'')"

definition nagoya_evacuation_template ::
  "hashing \<Rightarrow> (nat \<Rightarrow> uuid) \<Rightarrow> geo_workflow" where
  "nagoya_evacuation_template h u =
     (let workflow = workflow_new (u 0) (utf8 [0x540D, 0x53E4, 0x5C4B, 0x5E02, 0x306E, 0x6D2A, 0x6C34,
            0x6D78, 0x6C34, 0x30EA, 0x30B9, 0x30AF, 0x3068, 0x907F, 0x96E3, 0x6240, 0x30A2, 0x30AF,
            0x30BB, 0x30B7, 0x30D3, 0x30EA, 0x30C6, 0x30A3, 0x3092, 0x8868, 0x793A]);
          workflow = workflow\<lparr>wf_assumptions := wf_assumptions workflow @
            [''Shelters are the bundled synthetic fixture (2 per ward, outside flood zones)'']\<rparr>;
          workflow = workflow\<lparr>wf_assumptions := wf_assumptions workflow @
            [(''Flooded segments are slowed by 1 + depth '' @ utf8 [0xD7]
            @ '' penalty per metre of inundation'')]\<rparr>;
          workflow = workflow\<lparr>wf_steps := [
              dag_step h (u 1) ''find-shelter-dataset'' ''FindDataset''
                (jobj [(''tags'', JArr [JStr ''nagoya'', JStr ''shelter'', JStr ''evacuation''])]) [],
              dag_step h (u 2) ''load-ward-population'' ''LoadWardPopulation''
                (jobj [(''dataset'', JStr ''nagoya-wards-density'')]) [''find-shelter-dataset''],
              dag_step h (u 3) ''build-walk-graph'' ''BuildWalkGraph''
                (jobj [(''algorithm'', JStr ''dijkstra''),
                (''snap_tolerance'', JStr ''nearest_node'')]) [''find-shelter-dataset''],
              dag_step h (u 4) ''classify-flooded-segments'' ''ClassifyFloodedSegments''
                (jobj [(''bands_m'', JArr [JFloat (Fin (5 / 10)), JFloat (Fin 3), JFloat (Fin 5)]),
                (''cost_model'', JStr ''speed_x_depth'')]) [''build-walk-graph''],
              dag_step h (u 5) ''route-centroids-to-shelters'' ''RouteCentroidsToShelters''
                (jobj [(''clean_baseline'', JBool True), (''penalized_route'', JBool True)])
                [''classify-flooded-segments''],
              dag_step h (u 6) ''verify-evacuation'' ''VerifyEvacuation''
                (jobj [(''checks'', JArr [JStr ''penalty_monotonicity'', JStr ''triangle_inequality'',
                JStr ''duckdb_cross_check''])]) [''route-centroids-to-shelters''],
              dag_step h (u 7) ''attach-sources'' ''AttachSources'' (jobj [])
                [''verify-evacuation'']]\<rparr>
      in finish_dag workflow ''attach-sources'')"

definition sentinel_ndvi_timeseries_template ::
  "hashing \<Rightarrow> (nat \<Rightarrow> uuid) \<Rightarrow> geo_workflow" where
  "sentinel_ndvi_timeseries_template h u =
     (let workflow = workflow_new (u 0) (utf8 [0x540D, 0x53E4, 0x5C4B, 0x5468, 0x8FBA, 0x306E]
            @ ''NDVI'' @ utf8 [0x6642, 0x7CFB, 0x5217, 0x3092] @ ''Sentinel-2'' @ utf8
            [0x304B, 0x3089, 0x4F5C, 0x6210, 0x3057, 0x3066, 0x691C, 0x8A3C]);
          workflow = workflow\<lparr>wf_assumptions := wf_assumptions workflow @
            [''Raster fixtures are synthetic Sentinel-2-like COGs (two epochs)'']\<rparr>;
          workflow = workflow\<lparr>wf_assumptions := wf_assumptions workflow @
            [''Zonal means use pixel-center sampling inside ward polygons'']\<rparr>;
          workflow = workflow\<lparr>wf_steps := [
              dag_step h (u 1) ''find-ndvi-collection'' ''FindDataset''
                (jobj [(''tags'', JArr [JStr ''ndvi'', JStr ''sentinel'', JStr ''timeseries''])]) [],
              dag_step h (u 2) ''fetch-stac-items'' ''FetchStacItems''
                (jobj [(''tool'', JStr ''stac_fetch''), (''min_items'', JInt 2)])
                [''find-ndvi-collection''],
              dag_step h (u 3) ''range-read-band-assets'' ''RangeReadBandAssets''
                (jobj [(''bands'', JArr [JStr ''red'', JStr ''nir'']),
                (''mode'', JStr ''window_decode'')]) [''fetch-stac-items''],
              dag_step h (u 4) ''compute-ndvi'' ''ComputeNdvi''
                (jobj [(''formula'', JStr ''(nir - red) / (nir + red)''),
                (''clamp'', JArr [JInt (- 1), JInt 1])]) [''range-read-band-assets''],
              dag_step h (u 5) ''zonal-mean-per-ward'' ''ZonalMeanPerWard''
                (jobj [(''method'', JStr ''pixel_center_point_in_polygon'')]) [''compute-ndvi''],
              dag_step h (u 6) ''verify-index-range'' ''VerifyIndexRange''
                (jobj [(''checks'', JArr [JStr ''index_range_all_pixels'',
                JStr ''pixel_reconciliation'', JStr ''determinism_recompute''])])
                [''zonal-mean-per-ward''],
              dag_step h (u 7) ''attach-sources'' ''AttachSources'' (jobj [])
                [''verify-index-range'']]\<rparr>
      in finish_dag workflow ''attach-sources'')"

definition copc_change_detect_template ::
  "hashing \<Rightarrow> (nat \<Rightarrow> uuid) \<Rightarrow> geo_workflow" where
  "copc_change_detect_template h u =
     (let workflow = workflow_new (u 0) (''2'' @ utf8
            [0x6642, 0x671F, 0x306E, 0x70B9, 0x7FA4, 0x304B, 0x3089, 0x5EFA, 0x7269, 0x30FB, 0x690D,
            0x751F, 0x306E, 0x5909, 0x5316, 0x3092, 0x62BD, 0x51FA, 0x3057, 0x3066, 0x691C, 0x8A3C]);
          workflow = workflow\<lparr>wf_assumptions := wf_assumptions workflow @
            [''Fixtures are synthetic uncompressed LAS epochs; COPC streams via the same reader'']\<rparr>;
          workflow = workflow\<lparr>wf_assumptions := wf_assumptions workflow @
            [''Classification uses per-cell p90 nDSM deltas with geometric thresholds'']\<rparr>;
          workflow = workflow\<lparr>wf_steps := [
              dag_step h (u 1) ''find-pointcloud-dataset'' ''FindDataset''
                (jobj [(''tags'', JArr [JStr ''pointcloud'', JStr ''change'', JStr ''demo''])]) [],
              dag_step h (u 2) ''load-epoch-clouds'' ''LoadEpochClouds''
                (jobj [(''epochs'', JArr [JStr ''a'', JStr ''b'']),
                (''reader'', JStr ''las_or_copc_streaming'')]) [''find-pointcloud-dataset''],
              dag_step h (u 3) ''grid-height-statistics'' ''GridHeightStatistics''
                (jobj [(''cell_size_m'', JInt 5), (''stat'', JStr ''p90_minus_min'')])
                [''load-epoch-clouds''],
              dag_step h (u 4) ''epoch-difference'' ''EpochDifference''
                (jobj [(''ground_ref'', JStr ''epoch_a_min'')]) [''grid-height-statistics''],
              dag_step h (u 5) ''classify-changes'' ''ClassifyChanges''
                (jobj [(''classes'', JArr [JStr ''building_added'', JStr ''building_removed'',
                JStr ''vegetation_growth'', JStr ''vegetation_removal'', JStr ''stable''])])
                [''epoch-difference''],
              dag_step h (u 6) ''verify-volume-delta'' ''VerifyVolumeDelta''
                (jobj [(''checks'', JArr [JStr ''volume_sign_consistency'',
                JStr ''control_area_stable'', JStr ''nn_control_exact_match''])])
                [''classify-changes''],
              dag_step h (u 7) ''attach-sources'' ''AttachSources'' (jobj [])
                [''verify-volume-delta'']]\<rparr>
      in finish_dag workflow ''attach-sources'')"

end
