(* ===== verification/Template_Valid.thy ===== *)
theory Template_Valid
  imports Templates
begin

text \<open>
  The reviewed templates are executable graphs. A template is well built when its steps are listed in
  dependency order, every input is a declared contract or the result of a dependency, and the graph
  is rooted or drained; a well-built graph validates exactly when its input contracts do. The
  templates are well built for every argument, so validation only depends on the sources and
  reference systems bound at run time.
\<close>

named_theorems template_simps \<open>evaluation of the parts of a template\<close>

section \<open>Wiring\<close>

type_synonym outline = "string \<times> string list \<times> data_ref list \<times> data_ref list \<times> string list"

definition outline :: "workflow_step \<Rightarrow> outline" where
  "outline s = (ws_stable_id s, ws_depends_on s, ws_inputs s, ws_outputs s, map pc_port (ws_output_contracts s))"

definition resolves :: "string list \<Rightarrow> string list \<Rightarrow> data_ref \<Rightarrow> bool" where
  "resolves names deps r = (case dr_node r of
     None \<Rightarrow> dr_port r \<in> set names
   | Some d \<Rightarrow> d \<in> set deps \<and> dr_port r = ''result'')"

fun wired :: "string list \<Rightarrow> string list \<Rightarrow> outline list \<Rightarrow> bool" where
  "wired names seen [] = True"
| "wired names seen ((n, deps, ins, outs, ports) # rest) =
     (\<not> blank n \<and> n \<notin> set seen \<and> set deps \<subseteq> set seen \<and> list_all (resolves names deps) ins \<and>
      outs = [ref_output n ''result''] \<and> ports \<in> {[], [''result'']} \<and> wired names (n # seen) rest)"

lemma wired_distinct: "wired names seen os \<Longrightarrow> distinct (map fst os) \<and> set (map fst os) \<inter> set seen = {}"
  by (induction names seen os rule: wired.induct) auto

lemma wired_nth:
  "wired names seen os \<Longrightarrow> i < length os \<Longrightarrow> os ! i = (n, deps, ins, outs, ports) \<Longrightarrow>
     \<not> blank n \<and> set deps \<subseteq> set seen \<union> set (map fst (take i os)) \<and> list_all (resolves names deps) ins \<and>
     outs = [ref_output n ''result''] \<and> ports \<in> {[], [''result'']}"
proof (induction names seen os arbitrary: i rule: wired.induct)
  case (2 names seen n' deps' ins' outs' ports' rest)
  then show ?case
  proof (cases i)
    case (Suc j)
    with 2 have "\<not> blank n \<and> set deps \<subseteq> set (n' # seen) \<union> set (map fst (take j rest)) \<and>
        list_all (resolves names deps) ins \<and> outs = [ref_output n ''result''] \<and> ports \<in> {[], [''result'']}"
      by auto
    with Suc show ?thesis by auto
  qed auto
qed simp

definition wired_workflow :: "geo_workflow \<Rightarrow> bool" where
  "wired_workflow w = (wf_steps w \<noteq> [] \<and> wired (map ic_name (wf_input_contracts w)) [] (map outline (wf_steps w)))"

lemma wired_step:
  assumes "wired_workflow w" "i < length (wf_steps w)"
  shows "\<not> blank (ws_stable_id (wf_steps w ! i))"
    "set (ws_depends_on (wf_steps w ! i)) \<subseteq> set (map ws_stable_id (take i (wf_steps w)))"
    "r \<in> set (ws_inputs (wf_steps w ! i)) \<Longrightarrow>
       resolves (map ic_name (wf_input_contracts w)) (ws_depends_on (wf_steps w ! i)) r"
    "ws_outputs (wf_steps w ! i) = [ref_output (ws_stable_id (wf_steps w ! i)) ''result'']"
    "map pc_port (ws_output_contracts (wf_steps w ! i)) \<in> {[], [''result'']}"
  using wired_nth [of "map ic_name (wf_input_contracts w)" "[]" "map outline (wf_steps w)" i] assms
  by (auto simp: wired_workflow_def outline_def take_map comp_def list_all_iff)

lemma wired_dep:
  assumes "wired_workflow w" "i < length (wf_steps w)" "d \<in> set (ws_depends_on (wf_steps w ! i))"
  shows "\<exists>j < i. d = ws_stable_id (wf_steps w ! j)"
proof -
  have "d \<in> set (map ws_stable_id (take i (wf_steps w)))" using wired_step(2) [OF assms(1,2)] assms(3) by blast
  with assms(2) obtain j where "j < i" "d = ws_stable_id (wf_steps w ! j)" by (auto simp: in_set_conv_nth)
  then show ?thesis by blast
qed

lemma wired_ids:
  assumes "wired_workflow w"
  shows "wf_ids h w = map ws_stable_id (wf_steps w)" "distinct (wf_ids h w)" "\<not> is_legacy_linear w"
proof -
  have nb: "\<not> blank (ws_stable_id s)" if "s \<in> set (wf_steps w)" for s
    using that wired_step(1) [OF assms] by (auto simp: in_set_conv_nth)
  then show ids: "wf_ids h w = map ws_stable_id (wf_steps w)" by (simp add: wf_ids_def node_id_def)
  show "distinct (wf_ids h w)"
    using assms wired_distinct [of _ "[]"] unfolding ids wired_workflow_def by (fastforce simp: outline_def comp_def)
  show "\<not> is_legacy_linear w"
    using assms nb by (cases "wf_steps w") (auto simp: wired_workflow_def is_legacy_linear_def)
qed

lemma wired_edges:
  assumes "wired_workflow w"
  shows "wf_edges h w = {(d, ws_stable_id (wf_steps w ! i)) | d i.
    i < length (wf_steps w) \<and> d \<in> set (ws_depends_on (wf_steps w ! i))}"
proof -
  have "wf_ids h w ! i = ws_stable_id (wf_steps w ! i)" if "i < length (wf_steps w)" for i
    using that wired_ids(1) [OF assms, of h] by simp
  then show ?thesis
    using wired_ids(3) [OF assms] unfolding wf_edges_def wf_deps_def effective_dependencies_def
    by (intro Collect_cong iff_exI) auto
qed

lemma wired_edge_positions:
  assumes "wired_workflow w" "(a, b) \<in> wf_edges h w"
  obtains j i where "j < i" "i < length (wf_steps w)" "a = ws_stable_id (wf_steps w ! j)"
    "b = ws_stable_id (wf_steps w ! i)"
proof -
  from assms(2) obtain i where i: "i < length (wf_steps w)" "a \<in> set (ws_depends_on (wf_steps w ! i))"
    "b = ws_stable_id (wf_steps w ! i)"
    unfolding wired_edges [OF assms(1)] by blast
  with that wired_dep [OF assms(1) i(1,2)] show ?thesis by blast
qed

lemma wired_acyclic:
  assumes "wired_workflow w" shows "acyclic (wf_edges h w)"
proof -
  define pos where "pos = (\<lambda>n. THE i. i < length (wf_steps w) \<and> ws_stable_id (wf_steps w ! i) = n)"
  have pos: "pos (ws_stable_id (wf_steps w ! i)) = i" if "i < length (wf_steps w)" for i
    using that wired_ids(1,2) [OF assms] unfolding pos_def
    by (intro the_equality) (auto simp: distinct_conv_nth)
  have "wf_edges h w \<subseteq> measure pos"
    using pos by (auto elim!: wired_edge_positions [OF assms])
  then show ?thesis using wf_measure wf_subset wf_acyclic by blast
qed


section \<open>Connectedness\<close>

definition links :: "hashing \<Rightarrow> geo_workflow \<Rightarrow> (node_id \<times> node_id) set" where
  "links h w = (wf_edges h w \<union> (wf_edges h w)\<inverse>)\<^sup>*"

lemma links_sym: "(a, b) \<in> links h w \<Longrightarrow> (b, a) \<in> links h w"
  unfolding links_def by (metis Un_commute converse_Un converse_converse rtrancl_converseD)

lemma links_trans: "(a, b) \<in> links h w \<Longrightarrow> (b, c) \<in> links h w \<Longrightarrow> (a, c) \<in> links h w"
  unfolding links_def by (rule rtrancl_trans)

lemma links_dependency:
  assumes "wired_workflow w" "i < length (wf_steps w)" "d \<in> set (ws_depends_on (wf_steps w ! i))"
  shows "(ws_stable_id (wf_steps w ! i), d) \<in> links h w"
  using assms wired_edges [of w h] unfolding links_def by blast

lemma connected_hub:
  assumes "wired_workflow w" and hub: "\<And>i. i < length (wf_steps w) \<Longrightarrow> (ws_stable_id (wf_steps w ! i), n) \<in> links h w"
  shows "connected h w"
proof -
  have "(a, n) \<in> links h w" if "a \<in> set (wf_ids h w)" for a
    using that hub wired_ids(1) [OF assms(1), of h] by (auto simp: in_set_conv_nth)
  then have "(a, b) \<in> links h w" if "a \<in> set (wf_ids h w)" "b \<in> set (wf_ids h w)" for a b
    using that links_trans links_sym by metis
  then show ?thesis unfolding connected_def links_def by blast
qed

text \<open>Every step but the first depends on another one, or every step but the last has a dependent.\<close>

definition rooted :: "workflow_step list \<Rightarrow> bool" where
  "rooted steps = list_all (\<lambda>s. ws_depends_on s \<noteq> []) (tl steps)"

fun drained :: "workflow_step list \<Rightarrow> bool" where
  "drained (s # t # ss) = (list_ex (\<lambda>r. ws_stable_id s \<in> set (ws_depends_on r)) (t # ss) \<and> drained (t # ss))"
| "drained _ = True"

lemma rooted_connected:
  assumes w: "wired_workflow w" and r: "rooted (wf_steps w)"
  shows "connected h w"
proof (rule connected_hub [OF w])
  fix i assume "i < length (wf_steps w)"
  then show "(ws_stable_id (wf_steps w ! i), ws_stable_id (wf_steps w ! 0)) \<in> links h w"
  proof (induction i rule: less_induct)
    case (less i)
    show ?case
    proof (cases i)
      case (Suc k)
      then have "wf_steps w ! i \<in> set (tl (wf_steps w))"
        using less.prems nth_mem [of k "tl (wf_steps w)"] by (simp add: nth_tl)
      then obtain d where d: "d \<in> set (ws_depends_on (wf_steps w ! i))"
        using r by (fastforce simp: rooted_def list_all_iff neq_Nil_conv)
      then obtain j where j: "j < i" "d = ws_stable_id (wf_steps w ! j)"
        using wired_dep [OF w less.prems] by blast
      show ?thesis
        using links_trans [OF links_dependency [OF w less.prems d]] less.IH [OF j(1)] j less.prems by simp
    qed (simp add: links_def)
  qed
qed

lemma drained_nth:
  "drained ss \<Longrightarrow> Suc i < length ss \<Longrightarrow>
     \<exists>j. i < j \<and> j < length ss \<and> ws_stable_id (ss ! i) \<in> set (ws_depends_on (ss ! j))"
proof (induction ss arbitrary: i rule: drained.induct)
  case (1 s t ss)
  show ?case
  proof (cases i)
    case 0
    from 1(2) obtain j where "j < length (t # ss)" "ws_stable_id s \<in> set (ws_depends_on ((t # ss) ! j))"
      unfolding drained.simps list_ex_iff by (metis in_set_conv_nth)
    with 0 show ?thesis by (intro exI [of _ "Suc j"]) auto
  next
    case (Suc k)
    with 1 obtain j where "k < j" "j < length (t # ss)"
      "ws_stable_id ((t # ss) ! k) \<in> set (ws_depends_on ((t # ss) ! j))" by fastforce
    with Suc show ?thesis by (intro exI [of _ "Suc j"]) auto
  qed
qed auto

lemma drained_connected:
  assumes w: "wired_workflow w" and r: "drained (wf_steps w)"
  shows "connected h w"
proof (rule connected_hub [OF w])
  let ?n = "length (wf_steps w)"
  fix i assume "i < ?n"
  then show "(ws_stable_id (wf_steps w ! i), ws_stable_id (wf_steps w ! (?n - 1))) \<in> links h w"
  proof (induction "?n - i" arbitrary: i rule: less_induct)
    case less
    show ?case
    proof (cases "Suc i < ?n")
      case True
      then obtain j where j: "i < j" "j < ?n" "ws_stable_id (wf_steps w ! i) \<in> set (ws_depends_on (wf_steps w ! j))"
        using drained_nth [OF r] by blast
      have "(ws_stable_id (wf_steps w ! j), ws_stable_id (wf_steps w ! (?n - 1))) \<in> links h w"
        using j less.prems by (intro less.hyps) auto
      with links_sym [OF links_dependency [OF w j(2,3)]] show ?thesis by (rule links_trans)
    next
      case False
      with less.prems have "i = ?n - 1" by simp
      then show ?thesis by (simp add: links_def)
    qed
  qed
qed

section \<open>Validity\<close>

definition contracts_ok :: "geo_workflow \<Rightarrow> bool" where
  "contracts_ok w \<longleftrightarrow> distinct (map ic_name (wf_input_contracts w)) \<and>
     list_all (\<lambda>c. validate_input_contract c = Ok ()) (wf_input_contracts w)"

lemma valid_name: "validate_input_contract c = Ok () \<Longrightarrow> \<not> blank (ic_name c)"
  by (auto simp: validate_input_contract_def Let_def reject_def split: if_splits)

lemma wired_valid_iff:
  assumes w: "wired_workflow w" and conn: "connected h w"
    and oc: "\<And>s c. s \<in> set (wf_steps w) \<Longrightarrow> c \<in> set (ws_output_contracts s) \<Longrightarrow> validate_contract (pc_contract c) = Ok ()"
    and out: "\<And>r. r \<in> set (wf_output_refs w) \<Longrightarrow> \<exists>s \<in> set (wf_steps w). r = ref_output (ws_stable_id s) ''result''"
  shows "valid_workflow h w \<longleftrightarrow> contracts_ok w"
proof
  assume "valid_workflow h w"
  then show "contracts_ok w" by (simp add: valid_workflow_def contracts_ok_def list_all_iff)
next
  assume c: "contracts_ok w"
  note ids = wired_ids [OF w]
  have res: "\<not> blank ''result''" by code_simp
  have deps: "wf_deps h w i = ws_depends_on (wf_steps w ! i)" for i
    using ids(3) by (simp add: wf_deps_def effective_dependencies_def)
  have exp: "exported h w (ws_stable_id s) ''result''" if "s \<in> set (wf_steps w)" for s
    using that wired_step(4) [OF w] ids(1) [of h]
    by (fastforce simp: in_set_conv_nth exported_def exports_def ref_output_def)
  have "dependencies_ok h w i \<and> inputs_ok h w i \<and> outputs_ok h w i" if i: "i < length (wf_steps w)" for i
  proof -
    note s = wired_step [OF w i]
    have dep: "\<exists>j < i. d = ws_stable_id (wf_steps w ! j)" if "d \<in> set (ws_depends_on (wf_steps w ! i))" for d
      using wired_dep [OF w i that] by blast
    have "dependencies_ok h w i"
    proof -
      have "d \<in> set (wf_ids h w) \<and> d \<noteq> wf_ids h w ! i" if "d \<in> set (ws_depends_on (wf_steps w ! i))" for d
      proof -
        from dep [OF that] obtain j where j: "j < i" "d = wf_ids h w ! j" using i ids(1) [of h] by auto
        then show ?thesis using i ids(2) [of h] by (auto simp: nth_eq_iff_index_eq)
      qed
      then show ?thesis by (simp add: dependencies_ok_def deps)
    qed
    moreover have "input_ok h w i r" if "r \<in> set (ws_inputs (wf_steps w ! i))" for r
    proof (cases "dr_node r")
      case None
      then show ?thesis using s(3) [OF that] c valid_name
        by (fastforce simp: input_ok_def resolves_def contracts_ok_def list_all_iff)
    next
      case (Some d)
      then have d: "d \<in> set (ws_depends_on (wf_steps w ! i))" "dr_port r = ''result''"
        using s(3) [OF that] by (auto simp: resolves_def)
      have "exported h w d ''result''" using dep [OF d(1)] i exp by force
      then show ?thesis using Some d res by (simp add: input_ok_def deps)
    qed
    then have "inputs_ok h w i" using ids(3) by (simp add: inputs_ok_def effective_inputs_def)
    moreover have "outputs_ok h w i"
    proof -
      have "pc_port c = ''result''" if "c \<in> set (ws_output_contracts (wf_steps w ! i))" for c
        using s(5) that by (auto simp: map_eq_Cons_conv)
      moreover have "distinct (map pc_port (ws_output_contracts (wf_steps w ! i)))" using s(5) by auto
      ultimately show ?thesis
        using s(4) oc [of "wf_steps w ! i"] i ids(1) [of h] res
        by (auto simp: outputs_ok_def Let_def exports_def ref_output_def)
    qed
    ultimately show ?thesis by blast
  qed
  moreover have "\<exists>n. dr_node r = Some n \<and> exported h w n (dr_port r)" if "r \<in> set (wf_output_refs w)" for r
    using out [OF that] exp by (auto simp: ref_output_def)
  ultimately show "valid_workflow h w"
    using c w ids(2) conn wired_acyclic [OF w]
    by (simp add: valid_workflow_def contracts_ok_def list_all_iff wired_workflow_def)
qed


section \<open>Well-built graphs\<close>

definition well_built :: "geo_workflow \<Rightarrow> bool" where
  "well_built w \<longleftrightarrow> wired_workflow w \<and> (rooted (wf_steps w) \<or> drained (wf_steps w)) \<and>
     list_all (\<lambda>s. list_all (\<lambda>c. validate_contract (pc_contract c) = Ok ()) (ws_output_contracts s)) (wf_steps w) \<and>
     list_all (\<lambda>r. list_ex (\<lambda>s. r = ref_output (ws_stable_id s) ''result'') (wf_steps w)) (wf_output_refs w)"

lemma well_built_validate: "well_built w \<Longrightarrow> validate_workflow h w = Ok () \<longleftrightarrow> contracts_ok w"
proof -
  assume w: "well_built w"
  then have "connected h w" using rooted_connected drained_connected by (auto simp: well_built_def)
  with w have "valid_workflow h w \<longleftrightarrow> contracts_ok w"
    by (intro wired_valid_iff) (auto simp: well_built_def list_all_iff list_ex_iff)
  then show ?thesis using valid_workflow_validate validate_valid_workflow by blast
qed

lemma dag_step_simps [template_simps]:
  "ws_stable_id (dag_step h uid n op ps deps) = n"
  "ws_depends_on (dag_step h uid n op ps deps) = deps"
  "ws_inputs (dag_step h uid n op ps deps) = map (\<lambda>d. ref_output d ''result'') deps"
  "ws_outputs (dag_step h uid n op ps deps) = [ref_output n ''result'']"
  "ws_output_contracts (dag_step h uid n op ps deps) = []"
  by (simp_all add: dag_step_def with_outputs_def with_inputs_def with_dependencies_def step_named_def step_new_def)

lemma workflow_simps [template_simps]:
  "wf_steps (workflow_new uid g) = []" "wf_input_contracts (workflow_new uid g) = []"
  "wf_input_contracts (add_input_contract w c) = wf_input_contracts w @ [c]"
  "wf_steps (finish_dag w n) = wf_steps w" "wf_input_contracts (finish_dag w n) = wf_input_contracts w"
  "wf_output_refs (finish_dag w n) = [ref_output n ''result'']"
  by (simp_all add: workflow_new_def add_input_contract_def finish_dag_def)

lemma contract_name_simps [template_simps]:
  "ic_name (input_contract_new n) = n" "ic_name (ic_with_crs c crs) = ic_name c"
  "ic_name (ic_with_value_unit c v) = ic_name c" "ic_name (ic_with_source_snapshot c s) = ic_name c"
  "ic_name (ic_with_geo_contract c g) = ic_name c"
  by (simp_all add: input_contract_new_def ic_with_crs_def ic_with_value_unit_def ic_with_source_snapshot_def
      ic_with_geo_contract_def)

lemma ref_simps [template_simps]:
  "resolves names deps (ref_output d ''result'') \<longleftrightarrow> d \<in> set deps"
  "resolves names deps (ref_input p) \<longleftrightarrow> p \<in> set names"
  "ref_output a p = ref_output b p \<longleftrightarrow> a = b"
  by (simp_all add: resolves_def ref_output_def ref_input_def)

lemma literal_not_blank [template_simps]: "visible c \<Longrightarrow> visible (last (c # s)) \<Longrightarrow> trim (c # s) \<noteq> []"
  using trim_visible [of "c # s"] by simp

lemmas build_simps = template_simps Let_def well_built_def wired_workflow_def outline_def rooted_def visible_def

lemma templates_built1:
  "well_built (stac_endpoint_registry_template h u action endpoint_id)"
  "well_built (federated_stac_search_template h u endpoint_ids)"
  "well_built (remote_geoparquet_range_template h u fs uri row_groups)"
  "well_built (federated_asset_execution_template h u fs endpoint_ids stac_item_key asset_key uri)"
  "well_built (remote_cog_metadata_template h u)"
  "well_built (local_cog_metadata_template h u)"
  "well_built (nagoya_geoparquet_template h u)"
  "well_built (scene3d_copc_lod1_template h u copc_source building_source crs)"
  by (simp_all add: build_simps
    stac_endpoint_registry_template_def
    federated_stac_search_template_def
    remote_geoparquet_range_template_def
    federated_asset_execution_template_def
    remote_cog_metadata_template_def
    local_cog_metadata_template_def
    nagoya_geoparquet_template_def
    scene3d_copc_lod1_template_def)

lemma templates_built2:
  "well_built (ogc_service_read_template h u service operation source crs)"
  "well_built (geocoding_template h u mode provider_id provider_source query_count max_candidates privacy_policy minimum_interval_ms)"
  "well_built (narrative_project_view_template h u result_source result_digest frame_count)"
  "well_built (live_feed_ingest_template h u domain provider_id source after_cursor watermark limit)"
  "well_built (operational_dashboard_view_template h u source result_digest view_version)"
  "well_built (verified_alert_evaluation_template h u source policy_digest result_digest)"
  "well_built (alert_acknowledgement_template h u source alert_digest acknowledgement_count)"
  "well_built (scenario_branch_template h u source branch_id)"
  by (simp_all add: build_simps
    ogc_service_read_template_def
    geocoding_template_def
    narrative_project_view_template_def
    live_feed_ingest_template_def
    operational_dashboard_view_template_def
    verified_alert_evaluation_template_def
    alert_acknowledgement_template_def
    scenario_branch_template_def
    split: option.split)

lemma templates_built3:
  "well_built (scenario_comparison_template h u source)"
  "well_built (scenario_merge_template h u source diff_digest)"
  "well_built (city_scene_stream_template h u source)"
  "well_built (organization_governance_template h u source operation)"
  "well_built (private_federated_catalog_template h u source)"
  "well_built (plugin_registry_operation_template h u source operation)"
  "well_built (solution_pack_admission_template h u source)"
  "well_built (performance_matrix_evaluation_template h u source)"
  by (simp_all add: build_simps
    scenario_comparison_template_def
    scenario_merge_template_def
    city_scene_stream_template_def
    organization_governance_template_def
    private_federated_catalog_template_def
    plugin_registry_operation_template_def
    solution_pack_admission_template_def
    performance_matrix_evaluation_template_def)

lemma templates_built4:
  "well_built (nagoya_geoparquet_density_template h u)"
  "well_built (external_stac_fetch_template h u)"
  "well_built (dashboard_export_template h u)"
  "well_built (nagoya_flood_exposure_template h u)"
  "well_built (nagoya_xmin_city_template h u)"
  "well_built (nagoya_evacuation_template h u)"
  "well_built (sentinel_ndvi_timeseries_template h u)"
  "well_built (copc_change_detect_template h u)"
  by (simp_all add: build_simps
    nagoya_geoparquet_density_template_def
    external_stac_fetch_template_def
    dashboard_export_template_def
    nagoya_flood_exposure_template_def
    nagoya_xmin_city_template_def
    nagoya_evacuation_template_def
    sentinel_ndvi_timeseries_template_def
    copc_change_detect_template_def)

lemma desktop_layer_built: "well_built (desktop_layer_bridge_template h u layers)"
proof -
  have "list_all (resolves (map dl_layer_id layers) []) (map (\<lambda>layer. ref_input (dl_layer_id layer)) layers)"
    by (simp add: list_all_iff template_simps)
  then show ?thesis
    by (simp add: build_simps desktop_layer_bridge_template_def comp_def)
qed

lemma population_density_built: "well_built (nagoya_population_density_template h u)"
  by (simp add: build_simps nagoya_population_density_template_def with_output_contracts_def) code_simp

lemmas templates_built = templates_built1 templates_built2 templates_built3 templates_built4
  desktop_layer_built population_density_built

section \<open>Input contracts\<close>

lemma src_uri_new [template_simps]: "src_uri (source_metadata_new uri) = uri"
  by (simp add: source_metadata_new_def)

lemma src_uri_from_uri [template_simps]: "src_uri (source_from_uri sha fs uri e v) = uri"
  by (simp add: source_from_uri_def Let_def source_metadata_new_def split: option.splits)

lemma unit_known: "crs_definition crs = Some d \<Longrightarrow> def_unit d \<noteq> UnknownUnit"
  by (auto simp: crs_definition_def Let_def projected_def split: if_splits)

lemma contract_no_crs:
  "validate_input_contract (ic_with_source_snapshot (ic_with_value_unit (input_contract_new n) v) s) = Ok () \<longleftrightarrow>
     \<not> blank n \<and> \<not> blank v \<and> \<not> blank (src_uri s)"
  by (simp add: validate_input_contract_def Let_def reject_def optional_section_def input_contract_new_def
      ic_with_value_unit_def ic_with_source_snapshot_def)

lemma contract_crs:
  "validate_input_contract (ic_with_source_snapshot (ic_with_value_unit (ic_with_crs (input_contract_new n) crs) v) s) =
     Ok () \<longleftrightarrow> \<not> blank n \<and> \<not> blank v \<and> \<not> blank (src_uri s) \<and> crs_definition crs \<noteq> None"
  using unit_known
  by (auto simp: validate_input_contract_def Let_def reject_def optional_section_def input_contract_new_def
      ic_with_value_unit_def ic_with_source_snapshot_def ic_with_crs_def validate_crs_unit_def crs_require_known_def
      ok_or_def crs_coordinate_unit_def split: option.splits)

lemma with_crs_last:
  "ic_with_crs (ic_with_source_snapshot (ic_with_value_unit c v) s) crs =
   ic_with_source_snapshot (ic_with_value_unit (ic_with_crs c crs) v) s"
  by (simp add: ic_with_crs_def ic_with_source_snapshot_def ic_with_value_unit_def)

lemma contract_geo:
  assumes "ic_geo_contract c = None"
  shows "validate_input_contract (ic_with_geo_contract c g) = Ok () \<longleftrightarrow>
    validate_input_contract c = Ok () \<and> validate_geo_agreement c g = Ok ()"
proof -
  have "validate_crs_unit (ic_with_geo_contract c g) = validate_crs_unit c"
    "validate_geo_agreement (ic_with_geo_contract c g) g = validate_geo_agreement c g"
    by (auto simp: validate_crs_unit_def validate_geo_agreement_def ic_with_geo_contract_def fun_eq_iff)
  then show ?thesis
    using assms by (auto simp: validate_input_contract_def optional_section_def result_simps
      ic_with_geo_contract_def Let_def)
qed

lemma contract_field_simps [template_simps]:
  "ic_geo_contract (input_contract_new n) = None" "ic_geo_contract (ic_with_crs c crs) = ic_geo_contract c"
  "ic_geo_contract (ic_with_value_unit c v) = ic_geo_contract c"
  "ic_geo_contract (ic_with_source_snapshot c s) = ic_geo_contract c"
  by (simp_all add: input_contract_new_def ic_with_crs_def ic_with_value_unit_def ic_with_source_snapshot_def)


lemmas agreement_simps = validate_geo_agreement_def result_simps both_def Let_def
  with_source_def with_coverage_def with_temporal_def with_measure_def with_spatial_def geo_contract_new_def
  spatial_known_def measure_simple_def source_contract_new_def same_source_contract_identity_def
  input_contract_new_def ic_with_crs_def ic_with_value_unit_def ic_with_source_snapshot_def

lemmas contract_simps = contract_no_crs contract_crs contracts_ok_def template_simps Let_def visible_def

lemma fixed_contracts:
  "contracts_ok (stac_endpoint_registry_template h u action endpoint_id)"
  "contracts_ok (federated_stac_search_template h u endpoint_ids)"
  "contracts_ok (remote_cog_metadata_template h u)"
  "contracts_ok (local_cog_metadata_template h u)"
  "contracts_ok (nagoya_geoparquet_template h u)"
  "contracts_ok (nagoya_geoparquet_density_template h u)"
  "contracts_ok (external_stac_fetch_template h u)"
  "contracts_ok (dashboard_export_template h u)"
  "contracts_ok (nagoya_flood_exposure_template h u)"
  "contracts_ok (nagoya_xmin_city_template h u)"
  "contracts_ok (nagoya_evacuation_template h u)"
  "contracts_ok (sentinel_ndvi_timeseries_template h u)"
  "contracts_ok (copc_change_detect_template h u)"
  using visible_not_blank [of "CHR ''c''"] by (simp_all add: contract_simps
    stac_endpoint_registry_template_def
    federated_stac_search_template_def
    remote_cog_metadata_template_def
    local_cog_metadata_template_def
    nagoya_geoparquet_template_def
    nagoya_geoparquet_density_template_def
    external_stac_fetch_template_def
    dashboard_export_template_def
    nagoya_flood_exposure_template_def
    nagoya_xmin_city_template_def
    nagoya_evacuation_template_def
    sentinel_ndvi_timeseries_template_def
    copc_change_detect_template_def)

lemma population_density_contracts: "contracts_ok (nagoya_population_density_template h u)"
  by (simp add: contract_simps nagoya_population_density_template_def contract_geo, intro conjI;
    simp add: agreement_simps, code_simp)

lemma uri_contracts:
  "contracts_ok (remote_geoparquet_range_template h u fs uri row_groups) \<longleftrightarrow> \<not> blank uri"
  "contracts_ok (federated_asset_execution_template h u fs endpoint_ids stac_item_key asset_key uri) \<longleftrightarrow> \<not> blank uri"
  by (simp_all add: contract_simps
    remote_geoparquet_range_template_def
    federated_asset_execution_template_def)

lemma source_contracts:
  "contracts_ok (geocoding_template h u mode provider_id source query_count max_candidates privacy_policy minimum_interval_ms) \<longleftrightarrow>
     \<not> blank (src_uri source)"
  "contracts_ok (narrative_project_view_template h u source result_digest frame_count) \<longleftrightarrow>
     \<not> blank (src_uri source)"
  "contracts_ok (live_feed_ingest_template h u domain provider_id source after_cursor watermark limit) \<longleftrightarrow>
     \<not> blank (src_uri source)"
  "contracts_ok (operational_dashboard_view_template h u source result_digest view_version) \<longleftrightarrow>
     \<not> blank (src_uri source)"
  "contracts_ok (verified_alert_evaluation_template h u source policy_digest result_digest) \<longleftrightarrow>
     \<not> blank (src_uri source)"
  "contracts_ok (alert_acknowledgement_template h u source alert_digest acknowledgement_count) \<longleftrightarrow>
     \<not> blank (src_uri source)"
  "contracts_ok (scenario_branch_template h u source branch_id) \<longleftrightarrow>
     \<not> blank (src_uri source)"
  "contracts_ok (scenario_comparison_template h u source) \<longleftrightarrow>
     \<not> blank (src_uri source)"
  "contracts_ok (scenario_merge_template h u source diff_digest) \<longleftrightarrow>
     \<not> blank (src_uri source)"
  "contracts_ok (city_scene_stream_template h u source) \<longleftrightarrow>
     \<not> blank (src_uri source)"
  "contracts_ok (organization_governance_template h u source operation) \<longleftrightarrow>
     \<not> blank (src_uri source)"
  "contracts_ok (private_federated_catalog_template h u source) \<longleftrightarrow>
     \<not> blank (src_uri source)"
  "contracts_ok (plugin_registry_operation_template h u source operation) \<longleftrightarrow>
     \<not> blank (src_uri source)"
  "contracts_ok (solution_pack_admission_template h u source) \<longleftrightarrow>
     \<not> blank (src_uri source)"
  "contracts_ok (performance_matrix_evaluation_template h u source) \<longleftrightarrow>
     \<not> blank (src_uri source)"
  by (simp_all add: contract_simps
    geocoding_template_def
    narrative_project_view_template_def
    live_feed_ingest_template_def
    operational_dashboard_view_template_def
    verified_alert_evaluation_template_def
    alert_acknowledgement_template_def
    scenario_branch_template_def
    scenario_comparison_template_def
    scenario_merge_template_def
    city_scene_stream_template_def
    organization_governance_template_def
    private_federated_catalog_template_def
    plugin_registry_operation_template_def
    solution_pack_admission_template_def
    performance_matrix_evaluation_template_def)

lemma scene3d_contracts:
  "contracts_ok (scene3d_copc_lod1_template h u copc_source building_source crs) \<longleftrightarrow>
     \<not> blank (src_uri copc_source) \<and> \<not> blank (src_uri building_source) \<and> crs_definition crs \<noteq> None"
  by (auto simp: contract_simps scene3d_copc_lod1_template_def)

lemma ogc_contracts:
  "contracts_ok (ogc_service_read_template h u service operation source crs) \<longleftrightarrow>
     \<not> blank (src_uri source) \<and> (case crs of None \<Rightarrow> True | Some crs \<Rightarrow> crs_definition crs \<noteq> None)"
  by (simp add: contract_simps ogc_service_read_template_def with_crs_last split: option.split)

lemma desktop_contracts:
  "contracts_ok (desktop_layer_bridge_template h u layers) \<longleftrightarrow> distinct (map dl_layer_id layers) \<and>
     list_all (\<lambda>layer. \<not> blank (dl_layer_id layer) \<and> \<not> blank (src_uri (dl_source layer)) \<and>
       crs_definition (dl_crs layer) \<noteq> None) layers"
  by (simp add: contract_simps desktop_layer_bridge_template_def comp_def list_all_iff)

section \<open>Properties\<close>

text \<open>C28: the templates that carry their own sources validate for every argument, every supply of
  identifiers and every hash function.\<close>

theorem fixed_templates_valid:
  "list_all (\<lambda>w. validate_workflow h w = Ok ())
     [stac_endpoint_registry_template h u action endpoint_id,
      federated_stac_search_template h u endpoint_ids,
      nagoya_population_density_template h u,
      remote_cog_metadata_template h u,
      local_cog_metadata_template h u,
      nagoya_geoparquet_template h u,
      nagoya_geoparquet_density_template h u,
      external_stac_fetch_template h u,
      dashboard_export_template h u,
      nagoya_flood_exposure_template h u,
      nagoya_xmin_city_template h u,
      nagoya_evacuation_template h u,
      sentinel_ndvi_timeseries_template h u,
      copc_change_detect_template h u]"
  by (simp add: well_built_validate templates_built fixed_contracts population_density_contracts)

text \<open>C32: a template bound to a source at run time validates exactly when the source names a
  non-blank URI (and, where the template carries a reference system, when that system is registered;
  for a desktop bridge, when also the layers have unique, non-blank identifiers).\<close>

theorem bound_templates_valid_iff:
  "list_all (\<lambda>w. validate_workflow h w = Ok () \<longleftrightarrow> \<not> blank uri)
     [remote_geoparquet_range_template h u fs uri row_groups,
      federated_asset_execution_template h u fs endpoint_ids stac_item_key asset_key uri] \<and>
   list_all (\<lambda>w. validate_workflow h w = Ok () \<longleftrightarrow> \<not> blank (src_uri source))
     [geocoding_template h u mode provider_id source query_count max_candidates privacy_policy minimum_interval_ms,
      narrative_project_view_template h u source result_digest frame_count,
      live_feed_ingest_template h u domain provider_id source after_cursor watermark limit,
      operational_dashboard_view_template h u source result_digest view_version,
      verified_alert_evaluation_template h u source policy_digest result_digest,
      alert_acknowledgement_template h u source alert_digest acknowledgement_count,
      scenario_branch_template h u source branch_id,
      scenario_comparison_template h u source,
      scenario_merge_template h u source diff_digest,
      city_scene_stream_template h u source,
      organization_governance_template h u source operation,
      private_federated_catalog_template h u source,
      plugin_registry_operation_template h u source operation,
      solution_pack_admission_template h u source,
      performance_matrix_evaluation_template h u source] \<and>
   (validate_workflow h (scene3d_copc_lod1_template h u source building_source crs) = Ok () \<longleftrightarrow>
      \<not> blank (src_uri source) \<and> \<not> blank (src_uri building_source) \<and> crs_definition crs \<noteq> None) \<and>
   (validate_workflow h (ogc_service_read_template h u service operation source opt_crs) = Ok () \<longleftrightarrow>
      \<not> blank (src_uri source) \<and> (case opt_crs of None \<Rightarrow> True | Some crs \<Rightarrow> crs_definition crs \<noteq> None)) \<and>
   (validate_workflow h (desktop_layer_bridge_template h u layers) = Ok () \<longleftrightarrow>
      distinct (map dl_layer_id layers) \<and>
      list_all (\<lambda>layer. \<not> blank (dl_layer_id layer) \<and> \<not> blank (src_uri (dl_source layer)) \<and>
        crs_definition (dl_crs layer) \<noteq> None) layers)"
  by (simp add: well_built_validate templates_built uri_contracts source_contracts scene3d_contracts
      ogc_contracts desktop_contracts)

end
