(* ===== verification/Composer.thy ===== *)
theory Composer
  imports Template_Valid History
begin

text \<open>
  The no-code workflow composer (\<open>genegis-workflow/src/composer.rs\<close>): typed edits of a workflow draft
  with undo and redo stacks and an event history. A mutation through \<open>&mut\<close> is a pair of the result and
  the state it leaves, so that an edit that fails half way would show. Fresh UUIDs are the fields of
  \<open>fresh\<close>; \<open>fs\<close> is the file system that \<open>SourceSnapshot::from_uri\<close> reads. The \<open>Digest\<close> error carries the
  error whose text the source stores.
\<close>

section \<open>Data\<close>

datatype template_category =
    TcDensity | TcExposure | TcAccessibility | TcChange | TcSuitability | TcProximity | TcAggregation
  | TcGeocoding | TcUtility

record reviewed_template =
  rt_id :: string
  rt_title :: string
  rt_node_count :: nat
  rt_workflow_digest :: string
  rt_categories :: "template_category list"
  rt_verification_profile :: string

datatype composer_command =
    SetGoal string
  | AddReviewedNode string string string
  | RemoveNode string
  | Connect string string string
  | Disconnect string string
  | SetParameters string json
  | ComposerUndo
  | ComposerRedo

record composer_event =
  ev_id :: uuid
  ev_command :: composer_command
  ev_executable_digest :: "string option"

record workflow_composer =
  wc_workflow :: geo_workflow
  wc_events :: "composer_event list"
  wc_undo :: "geo_workflow list"
  wc_redo :: "geo_workflow list"

datatype composer_error =
    UnknownTemplate string
  | NotFound string
  | InvalidNodeId string
  | EmptyHistory string
  | InvalidWorkflow workflow_error
  | DigestFailed workflow_error

record fresh =
  fr_template :: "nat \<Rightarrow> uuid"
  fr_node :: uuid
  fr_event :: uuid

type_synonym file_system = "string \<rightharpoonup> string"

section \<open>The template palette\<close>

definition template_ids :: "string list" where
  "template_ids =
     [''nagoya-density'', ''nagoya-geoparquet'', ''nagoya-geoparquet-density'', ''local-cog-metadata'',
      ''external-stac'', ''dashboard-export'', ''flood-exposure'', ''xmin-city'', ''evacuation'',
      ''ndvi-timeseries'', ''pointcloud-change'', ''geocoding'']"

definition template_workflow ::
  "hashing \<Rightarrow> file_system \<Rightarrow> (nat \<Rightarrow> uuid) \<Rightarrow> string \<Rightarrow> composer_error + geo_workflow" where
  "template_workflow h fs u ident =
     (if ident = ''nagoya-density'' then Ok (nagoya_population_density_template h u)
      else if ident = ''nagoya-geoparquet'' then Ok (nagoya_geoparquet_template h u)
      else if ident = ''nagoya-geoparquet-density'' then Ok (nagoya_geoparquet_density_template h u)
      else if ident = ''local-cog-metadata'' then Ok (local_cog_metadata_template h u)
      else if ident = ''external-stac'' then Ok (external_stac_fetch_template h u)
      else if ident = ''dashboard-export'' then Ok (dashboard_export_template h u)
      else if ident = ''flood-exposure'' then Ok (nagoya_flood_exposure_template h u)
      else if ident = ''xmin-city'' then Ok (nagoya_xmin_city_template h u)
      else if ident = ''evacuation'' then Ok (nagoya_evacuation_template h u)
      else if ident = ''ndvi-timeseries'' then Ok (sentinel_ndvi_timeseries_template h u)
      else if ident = ''pointcloud-change'' then Ok (copc_change_detect_template h u)
      else if ident = ''geocoding'' then
        Ok (geocoding_template h u ''interactive'' ''provider-slot''
          (source_from_uri (h_sha256 h) fs ''provider://geocoding/runtime-bound''
            (Some ''sha256:2a8c9e31f42ba3eb211df915f0989d459a199636682c7387e143b328759a88a5'')
            (Some ''contract-1''))
          1 3 ''local_only'' 100)
      else Err (UnknownTemplate ident))"

definition template_categories :: "string \<Rightarrow> template_category list" where
  "template_categories ident =
     (if ident \<in> {''nagoya-density'', ''nagoya-geoparquet-density''} then [TcDensity, TcAggregation]
      else if ident = ''flood-exposure'' then [TcExposure, TcAggregation]
      else if ident = ''xmin-city'' then [TcAccessibility, TcProximity]
      else if ident = ''evacuation'' then [TcAccessibility, TcSuitability, TcProximity]
      else if ident = ''ndvi-timeseries'' then [TcChange, TcAggregation]
      else if ident = ''pointcloud-change'' then [TcChange]
      else if ident = ''geocoding'' then [TcGeocoding]
      else [TcUtility])"

definition template_verification_profile :: "string \<Rightarrow> string" where
  "template_verification_profile ident =
     (if ident = ''geocoding'' then ''adapter_admission+privacy+rate+confidence+source_receipt''
      else if ident = ''flood-exposure'' then ''source_snapshot+crs+units+independent_aggregation''
      else if ident \<in> {''xmin-city'', ''evacuation''} then ''source_snapshot+projected_crs+route_cost_receipt''
      else if ident \<in> {''ndvi-timeseries'', ''pointcloud-change''} then ''epoch_sources+crs+units+change_receipt''
      else if ident \<in> {''nagoya-density'', ''nagoya-geoparquet-density''}
      then ''source_snapshot+crs+units+independent_density_verifier''
      else ''source_snapshot+workflow_digest+execution_receipt'')"

text \<open>An entry of the palette; \<open>None\<close> is the panic of \<open>expect("reviewed template digest")\<close>.\<close>

definition palette_entry :: "hashing \<Rightarrow> string \<times> geo_workflow \<Rightarrow> reviewed_template option" where
  "palette_entry h = (\<lambda>(ident, workflow).
     case stable_digest h workflow of
       Inl _ \<Rightarrow> None
     | Inr digest \<Rightarrow> Some
         \<lparr>rt_id = ident, rt_title = wf_goal workflow, rt_node_count = length (wf_steps workflow),
          rt_workflow_digest = digest, rt_categories = template_categories ident,
          rt_verification_profile = template_verification_profile ident\<rparr>)"

definition reviewed_workflow_templates ::
  "hashing \<Rightarrow> file_system \<Rightarrow> (string \<Rightarrow> nat \<Rightarrow> uuid) \<Rightarrow> reviewed_template list option" where
  "reviewed_workflow_templates h fs u =
     those (map (palette_entry h)
       (List.map_filter (\<lambda>ident. case template_workflow h fs (u ident) ident of
           Inl _ \<Rightarrow> None
         | Inr workflow \<Rightarrow> Some (ident, workflow)) template_ids))"

section \<open>Edits\<close>

definition validate_node_id :: "string \<Rightarrow> composer_error + unit" where
  "validate_node_id value =
     reject (value = [] \<or>
         \<not> list_all (\<lambda>c. is_ascii_lowercase c \<or> is_ascii_digit c \<or> c = CHR ''-'') value)
       (InvalidNodeId value)"

definition is_graph_input :: "data_ref \<Rightarrow> bool" where
  "is_graph_input r = (dr_node r = None)"

text \<open>\<open>is_none_or(|node| node != id)\<close>\<close>

definition not_from :: "string \<Rightarrow> data_ref \<Rightarrow> bool" where
  "not_from ident r = (case dr_node r of None \<Rightarrow> True | Some node \<Rightarrow> node \<noteq> ident)"

definition step_named_at :: "string \<Rightarrow> geo_workflow \<Rightarrow> workflow_step option" where
  "step_named_at ident w = find (\<lambda>step. ws_stable_id step = ident) (wf_steps w)"

definition update_step :: "string \<Rightarrow> (workflow_step \<Rightarrow> workflow_step) \<Rightarrow> geo_workflow \<Rightarrow> geo_workflow" where
  "update_step ident f w = w\<lparr>wf_steps := update_first (\<lambda>step. ws_stable_id step = ident) f (wf_steps w)\<rparr>"

definition drop_references :: "string \<Rightarrow> workflow_step \<Rightarrow> workflow_step" where
  "drop_references ident step = step
     \<lparr>ws_depends_on := filter (\<lambda>dependency. dependency \<noteq> ident) (ws_depends_on step),
      ws_inputs := filter (not_from ident) (ws_inputs step)\<rparr>"

definition add_reference :: "string \<Rightarrow> string \<Rightarrow> workflow_step \<Rightarrow> workflow_step" where
  "add_reference source port target =
     (let target = (if list_ex (\<lambda>node. node = source) (ws_depends_on target) then target
                    else target\<lparr>ws_depends_on := ws_depends_on target @ [source]\<rparr>)
      in if list_ex (\<lambda>input. dr_node input = Some source \<and> dr_port input = port) (ws_inputs target) then target
         else target\<lparr>ws_inputs := ws_inputs target @ [ref_output source port]\<rparr>)"

definition set_goal :: "string \<Rightarrow> geo_workflow \<Rightarrow> (composer_error + unit) \<times> geo_workflow" where
  "set_goal goal w =
     (if blank goal then (Err (InvalidNodeId ''blank goal''), w) else (Ok (), w\<lparr>wf_goal := trim goal\<rparr>))"

definition add_reviewed_node ::
  "hashing \<Rightarrow> file_system \<Rightarrow> fresh \<Rightarrow> string \<Rightarrow> string \<Rightarrow> string \<Rightarrow> geo_workflow \<Rightarrow>
   (composer_error + unit) \<times> geo_workflow" where
  "add_reviewed_node h fs fr template_id source_node_id new_node_id w =
     (case validate_node_id new_node_id of Inl e \<Rightarrow> (Err e, w) | Inr _ \<Rightarrow>
      if list_ex (\<lambda>step. ws_stable_id step = new_node_id) (wf_steps w) then (Err (InvalidNodeId new_node_id), w)
      else case template_workflow h fs (fr_template fr) template_id of Inl e \<Rightarrow> (Err e, w) | Inr template \<Rightarrow>
      (case step_named_at source_node_id template of None \<Rightarrow> (Err (NotFound source_node_id), w) | Some node \<Rightarrow>
        (Ok (), push_step w (node\<lparr>ws_id := fr_node fr, ws_stable_id := new_node_id, ws_depends_on := [],
           ws_inputs := filter is_graph_input (ws_inputs node)\<rparr>))))"

definition remove_node :: "string \<Rightarrow> geo_workflow \<Rightarrow> (composer_error + unit) \<times> geo_workflow" where
  "remove_node node w =
     (let before = length (wf_steps w);
          w = w\<lparr>wf_steps := filter (\<lambda>step. ws_stable_id step \<noteq> node) (wf_steps w)\<rparr>
      in if length (wf_steps w) = before then (Err (NotFound node), w)
         else (Ok (), w\<lparr>wf_steps := map (drop_references node) (wf_steps w),
                        wf_output_refs := filter (not_from node) (wf_output_refs w)\<rparr>))"

definition connect ::
  "string \<Rightarrow> string \<Rightarrow> string \<Rightarrow> geo_workflow \<Rightarrow> (composer_error + unit) \<times> geo_workflow" where
  "connect source_node_id source_port target_node_id w =
     (if source_node_id = target_node_id then (Err (InvalidNodeId source_node_id), w)
      else case step_named_at source_node_id w of None \<Rightarrow> (Err (NotFound source_node_id), w) | Some source \<Rightarrow>
      if \<not> exports source source_node_id source_port
      then (Err (NotFound (source_node_id @ ''.'' @ source_port)), w)
      else case step_named_at target_node_id w of None \<Rightarrow> (Err (NotFound target_node_id), w) | Some _ \<Rightarrow>
      (Ok (), update_step target_node_id (add_reference source_node_id source_port) w))"

definition disconnect :: "string \<Rightarrow> string \<Rightarrow> geo_workflow \<Rightarrow> (composer_error + unit) \<times> geo_workflow" where
  "disconnect source_node_id target_node_id w =
     (case step_named_at target_node_id w of None \<Rightarrow> (Err (NotFound target_node_id), w) | Some _ \<Rightarrow>
      (Ok (), update_step target_node_id (drop_references source_node_id) w))"

definition is_object :: "json \<Rightarrow> bool" where
  "is_object v = (case v of JObj _ \<Rightarrow> True | _ \<Rightarrow> False)"

definition set_parameters :: "string \<Rightarrow> json \<Rightarrow> geo_workflow \<Rightarrow> (composer_error + unit) \<times> geo_workflow" where
  "set_parameters ident parameters w =
     (if \<not> is_object parameters then (Err (InvalidNodeId ''parameters must be an object''), w)
      else case step_named_at ident w of None \<Rightarrow> (Err (NotFound ident), w) | Some _ \<Rightarrow>
      (Ok (), update_step ident (\<lambda>node. node\<lparr>ws_parameters := parameters\<rparr>) w))"

text \<open>The source's \<open>apply_edit\<close>; the two history commands are unreachable there and get no result here.\<close>

fun composer_edit ::
  "hashing \<Rightarrow> file_system \<Rightarrow> fresh \<Rightarrow> composer_command \<Rightarrow> geo_workflow \<Rightarrow>
   ((composer_error + unit) \<times> geo_workflow) option" where
  "composer_edit h fs fr (SetGoal goal) w = Some (set_goal goal w)"
| "composer_edit h fs fr (AddReviewedNode template source new) w = Some (add_reviewed_node h fs fr template source new w)"
| "composer_edit h fs fr (RemoveNode node) w = Some (remove_node node w)"
| "composer_edit h fs fr (Connect source port target) w = Some (connect source port target w)"
| "composer_edit h fs fr (Disconnect source target) w = Some (disconnect source target w)"
| "composer_edit h fs fr (SetParameters node parameters) w = Some (set_parameters node parameters w)"
| "composer_edit h fs fr ComposerUndo w = None"
| "composer_edit h fs fr ComposerRedo w = None"

section \<open>The composer\<close>

definition from_reviewed_workflow :: "hashing \<Rightarrow> geo_workflow \<Rightarrow> composer_error + workflow_composer" where
  "from_reviewed_workflow h w =
     and_then (map_err InvalidWorkflow (validate_workflow h w)) (\<lambda>_.
     and_then (map_err DigestFailed (stable_digest h w)) (\<lambda>_.
       Ok \<lparr>wc_workflow = w\<lparr>wf_review_status := RsDraft\<rparr>, wc_events = [], wc_undo = [], wc_redo = []\<rparr>))"

definition from_template ::
  "hashing \<Rightarrow> file_system \<Rightarrow> (nat \<Rightarrow> uuid) \<Rightarrow> string \<Rightarrow> composer_error + workflow_composer" where
  "from_template h fs u template_id =
     and_then (template_workflow h fs u template_id) (from_reviewed_workflow h)"

definition executable_digest :: "hashing \<Rightarrow> geo_workflow \<Rightarrow> string option" where
  "executable_digest h w =
     (case validate_workflow h w of
        Inl _ \<Rightarrow> None
      | Inr _ \<Rightarrow> (case stable_digest h w of Inl _ \<Rightarrow> None | Inr d \<Rightarrow> Some d))"

definition record_event ::
  "hashing \<Rightarrow> fresh \<Rightarrow> composer_command \<Rightarrow> workflow_composer \<Rightarrow>
   (composer_error + composer_event) \<times> workflow_composer" where
  "record_event h fr command c =
     (let event = \<lparr>ev_id = fr_event fr, ev_command = command,
                   ev_executable_digest = executable_digest h (wc_workflow c)\<rparr>
      in (Ok event, c\<lparr>wc_events := wc_events c @ [event]\<rparr>))"

definition composer_apply ::
  "hashing \<Rightarrow> file_system \<Rightarrow> fresh \<Rightarrow> composer_command \<Rightarrow> workflow_composer \<Rightarrow>
   (composer_error + composer_event) \<times> workflow_composer" where
  "composer_apply h fs fr command c =
     (case composer_edit h fs fr command (wc_workflow c) of
        Some (Inl e, w) \<Rightarrow> (Err e, c\<lparr>wc_workflow := w\<rparr>)
      | Some (Inr _, w) \<Rightarrow>
          record_event h fr command
            (c\<lparr>wc_workflow := w, wc_undo := wc_undo c @ [wc_workflow c], wc_redo := []\<rparr>)
      | None \<Rightarrow>
          if command = ComposerUndo then
            (if wc_undo c = [] then (Err (EmptyHistory ''undo''), c)
             else record_event h fr command
               (c\<lparr>wc_undo := butlast (wc_undo c), wc_redo := wc_redo c @ [wc_workflow c],
                  wc_workflow := last (wc_undo c)\<rparr>))
          else
            (if wc_redo c = [] then (Err (EmptyHistory ''redo''), c)
             else record_event h fr command
               (c\<lparr>wc_redo := butlast (wc_redo c), wc_undo := wc_undo c @ [wc_workflow c],
                  wc_workflow := last (wc_redo c)\<rparr>)))"

definition workflow_for_execution :: "hashing \<Rightarrow> workflow_composer \<Rightarrow> composer_error + geo_workflow" where
  "workflow_for_execution h c =
     and_then (map_err InvalidWorkflow (validate_workflow h (wc_workflow c))) (\<lambda>_.
     and_then (map_err DigestFailed (stable_digest h (wc_workflow c))) (\<lambda>_.
       Ok (wc_workflow c)))"


section \<open>Failed commands\<close>

lemmas edit_defs = set_goal_def add_reviewed_node_def remove_node_def connect_def disconnect_def set_parameters_def

lemma composer_edit_error: "composer_edit h fs fr cmd w = Some (Err e, w') \<Longrightarrow> w' = w"
proof (cases cmd)
  case (RemoveNode n)
  moreover have "filter P xs = xs" if "length (filter P xs) = length xs" for P and xs :: "workflow_step list"
    using that length_filter_less [of _ xs P] by (auto simp: filter_id_conv)
  moreover assume "composer_edit h fs fr cmd w = Some (Err e, w')"
  ultimately show ?thesis by (auto simp: remove_node_def Let_def split: if_splits)
qed (auto simp: edit_defs split: if_splits sum.splits option.splits)

lemma composer_edit_None: "composer_edit h fs fr cmd w = None \<longleftrightarrow> cmd = ComposerUndo \<or> cmd = ComposerRedo"
  by (cases cmd) auto

lemma record_event_eq:
  "record_event h fr cmd c = (r, c') \<longleftrightarrow>
     r = Ok \<lparr>ev_id = fr_event fr, ev_command = cmd, ev_executable_digest = executable_digest h (wc_workflow c)\<rparr> \<and>
     c' = c\<lparr>wc_events := wc_events c @
       [\<lparr>ev_id = fr_event fr, ev_command = cmd, ev_executable_digest = executable_digest h (wc_workflow c)\<rparr>]\<rparr>"
  by (auto simp: record_event_def Let_def)

lemma apply_error_unchanged: "composer_apply h fs fr cmd c = (Err e, c') \<Longrightarrow> c' = c"
  by (auto simp: composer_apply_def record_event_eq split: option.splits sum.splits prod.splits if_splits
      dest: composer_edit_error)

lemma apply_edit_Ok:
  "cmd \<noteq> ComposerUndo \<Longrightarrow> cmd \<noteq> ComposerRedo \<Longrightarrow> composer_apply h fs fr cmd c = (Ok ev, c') \<longleftrightarrow>
     (\<exists>w. composer_edit h fs fr cmd (wc_workflow c) = Some (Ok (), w) \<and>
       record_event h fr cmd (c\<lparr>wc_workflow := w, wc_undo := wc_undo c @ [wc_workflow c], wc_redo := []\<rparr>) = (Ok ev, c'))"
  using composer_edit_None [of h fs fr cmd "wc_workflow c"]
  by (auto simp: composer_apply_def split: option.splits sum.splits prod.splits)

lemma apply_undo:
  "composer_apply h fs fr ComposerUndo c =
     (if wc_undo c = [] then (Err (EmptyHistory ''undo''), c)
      else record_event h fr ComposerUndo
        (c\<lparr>wc_undo := butlast (wc_undo c), wc_redo := wc_redo c @ [wc_workflow c], wc_workflow := last (wc_undo c)\<rparr>))"
  by (simp add: composer_apply_def)

lemma apply_redo:
  "composer_apply h fs fr ComposerRedo c =
     (if wc_redo c = [] then (Err (EmptyHistory ''redo''), c)
      else record_event h fr ComposerRedo
        (c\<lparr>wc_redo := butlast (wc_redo c), wc_undo := wc_undo c @ [wc_workflow c], wc_workflow := last (wc_redo c)\<rparr>))"
  by (simp add: composer_apply_def)

section \<open>The composer as an undo history\<close>

definition composer_zipper :: "workflow_composer \<Rightarrow> geo_workflow zipper" where
  "composer_zipper c = \<lparr>zp_past = wc_undo c, zp_present = wc_workflow c, zp_future = rev (wc_redo c)\<rparr>"

definition composer_exec ::
  "hashing \<Rightarrow> file_system \<Rightarrow> fresh \<times> composer_command \<Rightarrow> workflow_composer \<Rightarrow> workflow_composer option" where
  "composer_exec h fs = (\<lambda>(fr, cmd) c.
     if cmd = ComposerUndo \<or> cmd = ComposerRedo then None else settle (composer_apply h fs fr cmd c))"

definition composer_undo :: "hashing \<Rightarrow> file_system \<Rightarrow> fresh \<Rightarrow> workflow_composer \<Rightarrow> workflow_composer option" where
  "composer_undo h fs fr c = settle (composer_apply h fs fr ComposerUndo c)"

definition composer_redo :: "hashing \<Rightarrow> file_system \<Rightarrow> fresh \<Rightarrow> workflow_composer \<Rightarrow> workflow_composer option" where
  "composer_redo h fs fr c = settle (composer_apply h fs fr ComposerRedo c)"

lemma composer_zipper_undo: "map_option composer_zipper (composer_undo h fs fr c) = z_undo (composer_zipper c)"
  by (simp add: composer_undo_def apply_undo settle_def is_ok_def record_event_def Let_def z_undo_def composer_zipper_def)

lemma composer_zipper_redo: "map_option composer_zipper (composer_redo h fs fr c) = z_redo (composer_zipper c)"
proof (cases "wc_redo c" rule: rev_cases)
  case Nil
  then show ?thesis by (simp add: composer_redo_def apply_redo settle_def is_ok_def z_redo_def composer_zipper_def)
next
  case (snoc ws w)
  then show ?thesis
    by (simp add: composer_redo_def apply_redo settle_def is_ok_def record_event_def Let_def z_redo_def composer_zipper_def)
qed

interpretation wc: undo_history composer_zipper "\<lambda>_. True" "composer_exec h fs" "composer_undo h fs fr" "composer_redo h fs fr"
  for h fs fr
proof unfold_locales
  fix c t and s :: workflow_composer
  assume "composer_exec h fs c s = Some t"
  then show "composer_zipper t = z_do (zp_present (composer_zipper t)) (composer_zipper s)"
    by (cases c) (auto simp: composer_exec_def settle_Some_iff apply_edit_Ok record_event_eq composer_zipper_def z_do_def
        split: if_splits)
qed (simp_all add: composer_zipper_undo composer_zipper_redo)

end
