(* ===== verification/Composer_Valid.thy ===== *)
theory Composer_Valid
  imports Composer
begin

text \<open>
  What a draft of the composer can be run: when an added edge keeps a draft executable, why a node
  copied from the palette under a new name blocks execution, and that every palette template starts
  an executable draft.
\<close>

section \<open>Connecting two nodes\<close>

lemma step_named_at_Some:
  assumes "step_named_at n w = Some s"
  obtains i where "i < length (wf_steps w)" "wf_steps w ! i = s" "ws_stable_id s = n"
    "\<And>f. wf_steps (update_step n f w) = (wf_steps w)[i := f s]"
proof -
  obtain i where i: "i < length (wf_steps w)" "ws_stable_id (wf_steps w ! i) = n" "s = wf_steps w ! i"
    "\<And>j. j < i \<Longrightarrow> ws_stable_id (wf_steps w ! j) \<noteq> n"
    using assms by (auto simp: step_named_at_def find_Some_iff)
  then have "wf_steps (update_step n f w) = (wf_steps w)[i := f s]" for f
    by (simp add: update_step_def update_first_nth)
  with i that show ?thesis by blast
qed

lemma add_reference_fields:
  "ws_stable_id (add_reference a p s) = ws_stable_id s" "ws_operation (add_reference a p s) = ws_operation s"
  "ws_parameters (add_reference a p s) = ws_parameters s" "ws_outputs (add_reference a p s) = ws_outputs s"
  "ws_output_contracts (add_reference a p s) = ws_output_contracts s"
  "set (ws_depends_on (add_reference a p s)) = insert a (set (ws_depends_on s))"
  "set (ws_inputs (add_reference a p s)) \<subseteq> insert (ref_output a p) (set (ws_inputs s))"
  by (auto simp: add_reference_def Let_def list_ex_iff)

text \<open>\<open>w'\<close> is the valid graph \<open>w\<close> with the references of one step, the \<open>i\<close>-th, extended by one exported
  port of another step.\<close>

definition edge_added :: "hashing \<Rightarrow> geo_workflow \<Rightarrow> geo_workflow \<Rightarrow> nat \<Rightarrow> string \<Rightarrow> string \<Rightarrow> bool" where
  "edge_added h w w' i source port \<longleftrightarrow> valid_workflow h w \<and> \<not> is_legacy_linear w \<and> i < length (wf_steps w) \<and>
     w' = w\<lparr>wf_steps := (wf_steps w)[i := add_reference source port (wf_steps w ! i)]\<rparr> \<and>
     exported h w source port \<and> \<not> blank port \<and> source \<noteq> wf_ids h w ! i"

lemma edge_added_step:
  assumes "edge_added h w w' i source port"
  shows "length (wf_steps w') = length (wf_steps w)"
    "j < length (wf_steps w) \<Longrightarrow>
      wf_steps w' ! j = (if j = i then add_reference source port (wf_steps w ! i) else wf_steps w ! j)"
  using assms by (auto simp: edge_added_def)

lemma edge_added_ids: "edge_added h w w' i source port \<Longrightarrow> wf_ids h w' = wf_ids h w"
  by (intro nth_equalityI) (auto simp: wf_ids_def edge_added_step node_id_def add_reference_fields)

lemma edge_added_legacy:
  assumes E: "edge_added h w w' i source port" shows "\<not> is_legacy_linear w" "\<not> is_legacy_linear w'"
proof -
  show n: "\<not> is_legacy_linear w" using E by (simp add: edge_added_def)
  then obtain j where j: "j < length (wf_steps w)"
    "\<not> (blank (ws_stable_id (wf_steps w ! j)) \<and> ws_depends_on (wf_steps w ! j) = [] \<and>
        ws_inputs (wf_steps w ! j) = [] \<and> ws_outputs (wf_steps w ! j) = [])"
    by (auto simp: is_legacy_linear_def list_all_iff in_set_conv_nth)
  have "add_reference source port (wf_steps w ! i) \<noteq> wf_steps w ! j \<Longrightarrow>
      ws_depends_on (add_reference source port (wf_steps w ! i)) \<noteq> []"
    using add_reference_fields(6) [of source port "wf_steps w ! i"] by fastforce
  with j edge_added_step [OF E] show "\<not> is_legacy_linear w'"
    unfolding is_legacy_linear_def list_all_iff by (metis nth_mem)
qed

lemma edge_added_deps:
  assumes E: "edge_added h w w' i source port" and j: "j < length (wf_steps w)"
  shows "set (wf_deps h w' j) = (if j = i then insert source (set (wf_deps h w j)) else set (wf_deps h w j))"
  using edge_added_legacy [OF E] edge_added_step(2) [OF E j]
  by (simp add: wf_deps_def effective_dependencies_def add_reference_fields)

lemma edge_added_edges:
  assumes E: "edge_added h w w' i source port"
  shows "wf_edges h w' = insert (source, wf_ids h w ! i) (wf_edges h w)"
proof -
  have i: "i < length (wf_steps w)" using E by (simp add: edge_added_def)
  have deps: "d \<in> set (wf_deps h w' j) \<longleftrightarrow> j = i \<and> d = source \<or> d \<in> set (wf_deps h w j)"
    if "j < length (wf_steps w)" for j d
    using edge_added_deps [OF E that] by simp
  have "(d, n) \<in> wf_edges h w' \<longleftrightarrow> d = source \<and> n = wf_ids h w ! i \<or> (d, n) \<in> wf_edges h w" for d n
    unfolding wf_edges_def edge_added_step(1) [OF E] edge_added_ids [OF E] using i
    by (simp add: deps cong: conj_cong) blast
  then show ?thesis by auto
qed

lemma edge_added_exported:
  assumes E: "edge_added h w w' i source port"
  shows "exported h w' n p \<longleftrightarrow> exported h w n p"
proof -
  have "exports (wf_steps w' ! j) m p \<longleftrightarrow> exports (wf_steps w ! j) m p" if "j < length (wf_steps w)" for j m
    using edge_added_step(2) [OF E that] by (simp add: exports_def add_reference_fields)
  then show ?thesis
    using edge_added_legacy [OF E] by (auto simp: exported_def edge_added_step(1) [OF E] edge_added_ids [OF E])
qed

lemma edge_added_local:
  assumes E: "edge_added h w w' i source port" and j: "j < length (wf_steps w)"
  shows "dependencies_ok h w' j \<and> inputs_ok h w' j \<and> outputs_ok h w' j"
proof -
  note step = edge_added_step(2) [OF E j] and deps = edge_added_deps [OF E j] and ids = edge_added_ids [OF E]
    and exp = edge_added_exported [OF E] and leg = edge_added_legacy [OF E]
  have s: "exported h w source port" "\<not> blank port" "source \<noteq> wf_ids h w ! i" "valid_workflow h w"
    "wf_input_contracts w' = wf_input_contracts w"
    using E by (auto simp: edge_added_def)
  from s(4) j have ok: "dependencies_ok h w j" "inputs_ok h w j" "outputs_ok h w j" by (auto simp: valid_workflow_def)
  have "source \<in> set (wf_ids h w)" using s(1) by (auto simp: exported_def in_set_conv_nth)
  with ok(1) deps s(3) have "dependencies_ok h w' j" by (auto simp: dependencies_ok_def ids)
  moreover have "input_ok h w' j r" if "r \<in> set (ws_inputs (wf_steps w' ! j))" for r
  proof (cases "r \<in> set (ws_inputs (wf_steps w ! j))")
    case True
    with ok(2) leg have "input_ok h w j r" by (auto simp: inputs_ok_def effective_inputs_def)
    then show ?thesis using deps s(5) by (auto simp: input_ok_def exp split: option.splits)
  next
    case False
    with that step have "j = i" "r = ref_output source port"
      using add_reference_fields(7) [of source port "wf_steps w ! i"] by (auto split: if_splits)
    then show ?thesis using s(1,2) deps by (auto simp: input_ok_def ref_output_def exp)
  qed
  then have "inputs_ok h w' j" using leg by (simp add: inputs_ok_def effective_inputs_def)
  moreover have "outputs_ok h w' j"
    using ok(3) leg step by (auto simp: outputs_ok_def Let_def ids exports_def add_reference_fields)
  ultimately show ?thesis by blast
qed

lemma edge_added_valid_iff:
  assumes E: "edge_added h w w' i source port"
  shows "valid_workflow h w' \<longleftrightarrow> (wf_ids h w ! i, source) \<notin> (wf_edges h w)\<^sup>*"
proof -
  have v: "valid_workflow h w" "wf_input_contracts w' = wf_input_contracts w" "wf_output_refs w' = wf_output_refs w"
    "wf_steps w' \<noteq> []"
    using E by (auto simp: edge_added_def)
  have conn: "connected h w'"
  proof -
    have "wf_edges h w \<union> (wf_edges h w)\<inverse> \<subseteq> wf_edges h w' \<union> (wf_edges h w')\<inverse>"
      unfolding edge_added_edges [OF E] by blast
    from rtrancl_mono [OF this] show ?thesis
      using v(1) unfolding valid_workflow_def connected_def edge_added_ids [OF E] by blast
  qed
  have "valid_workflow h w' \<longleftrightarrow> acyclic (wf_edges h w')"
    using v conn edge_added_local [OF E]
    by (auto simp: valid_workflow_def edge_added_ids [OF E] edge_added_step(1) [OF E] edge_added_exported [OF E])
  also have "\<dots> \<longleftrightarrow> (wf_ids h w ! i, source) \<notin> (wf_edges h w)\<^sup>*"
    using v(1) by (simp add: edge_added_edges [OF E] acyclic_insert valid_workflow_def)
  finally show ?thesis .
qed

lemma connect_edge_added:
  assumes "valid_workflow h w" and "connect source port target w = (Ok (), w')" and "step_named_at target w = Some t"
  obtains i where "edge_added h w w' i source port" "wf_ids h w ! i = node_id h t"
proof -
  from assms(2,3) obtain s where s: "step_named_at source w = Some s" "exports s source port" "source \<noteq> target"
    and w': "w' = update_step target (add_reference source port) w"
    by (auto simp: connect_def split: if_splits option.splits)
  obtain i where i: "i < length (wf_steps w)" "wf_steps w ! i = t" "ws_stable_id t = target"
    "wf_steps (update_step target (add_reference source port) w) = (wf_steps w)[i := add_reference source port t]"
    using step_named_at_Some [OF assms(3)] by metis
  obtain k where k: "k < length (wf_steps w)" "wf_steps w ! k = s" "ws_stable_id s = source"
    using step_named_at_Some [OF s(1)] by metis
  obtain out where out: "out \<in> set (ws_outputs s)" "dr_node out = Some source" "dr_port out = port"
    using s(2) by (auto simp: exports_def list_ex_iff)
  have leg: "\<not> is_legacy_linear w"
    using k out(1) nth_mem [OF k(1)] by (force simp: is_legacy_linear_def list_all_iff)
  have "outputs_ok h w k" using assms(1) k(1) by (auto simp: valid_workflow_def)
  then have o: "wf_ids h w ! k = source" "\<not> blank port" using leg k(2) out by (auto simp: outputs_ok_def Let_def)
  have "k \<noteq> i" using i k s(3) by auto
  then have "source \<noteq> wf_ids h w ! i"
    using o(1) i(1) k(1) assms(1) by (auto simp: valid_workflow_def nth_eq_iff_index_eq)
  moreover have "exported h w source port" using o(1) k s(2) by (auto simp: exported_def)
  moreover have "w' = w\<lparr>wf_steps := (wf_steps w)[i := add_reference source port (wf_steps w ! i)]\<rparr>"
    using i(2,4) by (simp add: w' update_step_def)
  ultimately have "edge_added h w w' i source port" using assms(1) leg i(1) o(2) by (simp add: edge_added_def)
  moreover have "wf_ids h w ! i = node_id h t" using i by (simp add: wf_ids_def)
  ultimately show ?thesis using that by blast
qed


section \<open>Renamed nodes\<close>

text \<open>A step whose outputs all name another node.\<close>

definition misnamed :: "string \<Rightarrow> geo_workflow \<Rightarrow> bool" where
  "misnamed n w \<longleftrightarrow> (\<exists>s \<in> set (wf_steps w). ws_stable_id s = n \<and> ws_outputs s \<noteq> [] \<and>
     (\<forall>out \<in> set (ws_outputs s). dr_node out \<noteq> Some n))"

lemma misnamed_invalid:
  assumes "misnamed n w" "\<not> blank n" shows "\<not> valid_workflow h w"
proof
  assume v: "valid_workflow h w"
  from assms(1) obtain i where i: "i < length (wf_steps w)" "ws_stable_id (wf_steps w ! i) = n"
    "ws_outputs (wf_steps w ! i) \<noteq> []" "\<forall>out \<in> set (ws_outputs (wf_steps w ! i)). dr_node out \<noteq> Some n"
    by (auto simp: misnamed_def in_set_conv_nth)
  have "\<not> is_legacy_linear w" using i assms(2) nth_mem [OF i(1)] by (force simp: is_legacy_linear_def list_all_iff)
  then have "dr_node out = Some (wf_ids h w ! i)" if "out \<in> set (ws_outputs (wf_steps w ! i))" for out
    using v i(1) that by (auto simp: valid_workflow_def outputs_ok_def Let_def)
  moreover have "wf_ids h w ! i = n" using i(1,2) assms(2) by (simp add: wf_ids_def node_id_def)
  ultimately show False using i(3,4) by (metis hd_in_set)
qed

lemma misnamed_update:
  assumes "misnamed n w" "\<And>s. ws_stable_id (f s) = ws_stable_id s \<and> ws_outputs (f s) = ws_outputs s"
  shows "misnamed n (update_step m f w)"
proof -
  have "\<exists>t \<in> set (update_first p f xs). ws_stable_id t = ws_stable_id s \<and> ws_outputs t = ws_outputs s"
    if "s \<in> set xs" for p s and xs :: "workflow_step list"
    using that assms(2) by (induction xs) auto
  with assms(1) show ?thesis unfolding misnamed_def update_step_def by simp metis
qed

lemma misnamed_edit:
  assumes "misnamed n w" "composer_edit h fs fr cmd w = Some (Ok (), w')" "cmd \<noteq> RemoveNode n"
  shows "misnamed n w'"
proof (cases cmd)
  case (RemoveNode m)
  with assms(2,3) have "m \<noteq> n" "wf_steps w' = map (drop_references m) (filter (\<lambda>s. ws_stable_id s \<noteq> m) (wf_steps w))"
    by (auto simp: remove_node_def Let_def split: if_splits)
  with assms(1) show ?thesis by (fastforce simp: misnamed_def drop_references_def)
next
  case (AddReviewedNode t s m)
  with assms(2) obtain node where "w' = push_step w node"
    by (auto simp: add_reviewed_node_def split: sum.splits if_splits option.splits)
  with assms(1) show ?thesis by (auto simp: misnamed_def push_step_def)
qed (use assms in \<open>auto simp: edit_defs drop_references_def add_reference_fields misnamed_def [of _ "_\<lparr>wf_goal := _\<rparr>"]
  split: if_splits option.splits intro!: misnamed_update\<close>, auto simp: misnamed_def)

lemma template_well_built: "template_workflow h fs u ident = Ok w \<Longrightarrow> well_built w"
  by (auto simp: template_workflow_def templates_built split: if_splits)

lemma added_node_misnamed:
  assumes "add_reviewed_node h fs fr template source new w = (Ok (), w')" "new \<noteq> source"
  shows "misnamed new w' \<and> \<not> blank new"
proof -
  from assms(1) obtain t node where t: "validate_node_id new = Ok ()" "template_workflow h fs (fr_template fr) template = Ok t"
    "step_named_at source t = Some node"
    and w': "w' = push_step w (node\<lparr>ws_id := fr_node fr, ws_stable_id := new, ws_depends_on := [],
        ws_inputs := filter is_graph_input (ws_inputs node)\<rparr>)"
    by (auto simp: add_reviewed_node_def split: sum.splits if_splits option.splits)
  obtain i where i: "i < length (wf_steps t)" "wf_steps t ! i = node" "ws_stable_id node = source"
    using step_named_at_Some [OF t(3)] by metis
  then have "ws_outputs node = [ref_output source ''result'']"
    using wired_step(4) [of t i] template_well_built [OF t(2)] by (simp add: well_built_def)
  then have "misnamed new w'" using assms(2) by (simp add: misnamed_def w' push_step_def ref_output_def)
  moreover have "visible c" if "is_ascii_lowercase c \<or> is_ascii_digit c \<or> c = CHR ''-''" for c
    using that by (auto simp: visible_def is_ascii_lowercase_def is_ascii_digit_def)
  with t(1) have "hd new \<in> set new" "visible (hd new)" by (auto simp: validate_node_id_def list_all_iff)
  then have "\<not> blank new" by (rule visible_not_blank)
  ultimately show ?thesis by blast
qed

fun run_commands ::
  "hashing \<Rightarrow> file_system \<Rightarrow> (fresh \<times> composer_command) list \<Rightarrow> workflow_composer \<Rightarrow> workflow_composer" where
  "run_commands h fs [] c = c"
| "run_commands h fs ((fr, cmd) # cmds) c = run_commands h fs cmds (snd (composer_apply h fs fr cmd c))"

lemma run_commands_misnamed:
  "misnamed n (wc_workflow c) \<Longrightarrow>
   list_all (\<lambda>(fr, cmd). cmd \<noteq> RemoveNode n \<and> cmd \<noteq> ComposerUndo \<and> cmd \<noteq> ComposerRedo) cmds \<Longrightarrow>
   misnamed n (wc_workflow (run_commands h fs cmds c))"
proof (induction h fs cmds c rule: run_commands.induct)
  case (2 h fs fr cmd cmds c)
  have "misnamed n (wc_workflow (snd (composer_apply h fs fr cmd c)))"
  proof (cases "composer_apply h fs fr cmd c")
    case (Pair r c')
    show ?thesis
    proof (cases r)
      case (Inl e)
      with Pair 2(2) show ?thesis using apply_error_unchanged by fastforce
    next
      case (Inr ev)
      with Pair have ok: "composer_apply h fs fr cmd c = (Ok ev, c')" by simp
      moreover have cmd: "cmd \<noteq> RemoveNode n" "cmd \<noteq> ComposerUndo" "cmd \<noteq> ComposerRedo" using 2(3) by auto
      ultimately obtain w where "composer_edit h fs fr cmd (wc_workflow c) = Some (Ok (), w)" "wc_workflow c' = w"
        by (auto simp: apply_edit_Ok record_event_eq)
      with misnamed_edit [OF 2(2) _ cmd(1)] ok show ?thesis by simp
    qed
  qed
  with 2 show ?case by simp
qed simp

section \<open>Executability\<close>

lemma workflow_for_execution_Ok: "workflow_for_execution h c = Ok w \<longleftrightarrow> valid_workflow h (wc_workflow c) \<and> w = wc_workflow c"
  using valid_workflow_validate [of h "wc_workflow c"] validate_valid_workflow [of h "wc_workflow c"]
  by (auto simp: workflow_for_execution_def result_simps stable_digest_def)

lemma is_ok_execution: "is_ok (workflow_for_execution h c) \<longleftrightarrow> valid_workflow h (wc_workflow c)"
  using workflow_for_execution_Ok [of h c] by (cases "workflow_for_execution h c") (auto simp: is_ok_def)

lemma executable_digest_eq:
  "executable_digest h w = (if valid_workflow h w then Some (stable_digest_unchecked h w) else None)"
  using valid_workflow_validate [of h w] validate_valid_workflow [of h w]
  by (auto simp: executable_digest_def stable_digest_def split: sum.splits)

lemma valid_review_status: "valid_workflow h (w\<lparr>wf_review_status := r\<rparr>) \<longleftrightarrow> valid_workflow h w"
proof -
  let ?w = "w\<lparr>wf_review_status := r\<rparr>"
  have ids: "wf_ids h ?w = wf_ids h w" and leg: "is_legacy_linear ?w = is_legacy_linear w"
    by (simp_all add: wf_ids_def is_legacy_linear_def)
  then have deps: "wf_deps h ?w = wf_deps h w" and exp: "exported h ?w = exported h w"
    by (auto simp: wf_deps_def exported_def fun_eq_iff)
  then have "wf_edges h ?w = wf_edges h w" "dependencies_ok h ?w = dependencies_ok h w" "input_ok h ?w = input_ok h w"
    "outputs_ok h ?w = outputs_ok h w"
    by (auto simp: wf_edges_def dependencies_ok_def input_ok_def outputs_ok_def ids leg fun_eq_iff split: option.splits)
  then show ?thesis by (simp add: valid_workflow_def inputs_ok_def connected_def ids leg exp)
qed

lemma template_valid:
  assumes "template_workflow h fs u ident = Ok w" shows "valid_workflow h w"
proof -
  have "validate_workflow h w = Ok ()"
    using assms visible_not_blank [of "CHR ''p''" "''provider://geocoding/runtime-bound''"]
    by (auto simp: template_workflow_def well_built_validate templates_built fixed_contracts population_density_contracts
        source_contracts template_simps visible_def split: if_splits)
  then show ?thesis by (rule validate_valid_workflow)
qed

lemma template_workflow_defined: "is_ok (template_workflow h fs u ident) \<longleftrightarrow> ident \<in> set template_ids"
  by (simp add: template_workflow_def template_ids_def is_ok_def)


section \<open>Properties\<close>

definition sample_fresh :: fresh where
  "sample_fresh = \<lparr>fr_template = of_nat, fr_node = 100, fr_event = 200\<rparr>"

definition sample_draft :: workflow_composer where
  "sample_draft = \<lparr>wc_workflow = sample_graph, wc_events = [], wc_undo = [], wc_redo = []\<rparr>"

lemma sample_graph_valid: "validate_workflow sample_hashing sample_graph = Ok ()"
  by (simp add: validate_workflow_def sample_graph_order)

text \<open>C29: a failed composer command changes nothing, and undo after a successful edit restores the
  draft and the earlier history; redo then gives the edited draft back.\<close>

theorem composer_undo_redo:
  "(fst (composer_apply h fs fr cmd c) = Err e \<longrightarrow> snd (composer_apply h fs fr cmd c) = c) \<and>
   (cmd \<noteq> ComposerUndo \<and> cmd \<noteq> ComposerRedo \<and> composer_apply h fs fr cmd c = (Ok ev, c1) \<longrightarrow>
     (\<exists>ev2 c2. composer_apply h fs fr2 ComposerUndo c1 = (Ok ev2, c2) \<and> wc_workflow c2 = wc_workflow c \<and>
        wc_undo c2 = wc_undo c \<and>
        (\<exists>ev3 c3. composer_apply h fs fr2 ComposerRedo c2 = (Ok ev3, c3) \<and> wc_workflow c3 = wc_workflow c1 \<and>
           wc_undo c3 = wc_undo c1 \<and> wc_redo c3 = [])))"
proof (intro conjI impI, goal_cases)
  case 1
  then show ?case using apply_error_unchanged by (metis prod.collapse)
next
  case 2
  then have ex: "composer_exec h fs (fr, cmd) c = Some c1" by (simp add: composer_exec_def settle_Some_iff)
  then have "wc_redo c1 = []" using 2 by (auto simp: apply_edit_Ok record_event_eq)
  then show ?case
    using wc.undo_exec [OF TrueI ex, where fr = fr2]
    by (auto simp: composer_zipper_def composer_undo_def composer_redo_def settle_Some_iff)
qed

theorem composer_undo_redo_witness:
  "\<exists>ev1 c1 ev2 c2. composer_apply sample_hashing Map.empty sample_fresh (SetGoal ''density'') sample_draft = (Ok ev1, c1) \<and>
     wf_goal (wc_workflow c1) = ''density'' \<and>
     composer_apply sample_hashing Map.empty sample_fresh ComposerUndo c1 = (Ok ev2, c2) \<and>
     wc_workflow c2 = sample_graph"
proof -
  let ?c = "snd (composer_apply sample_hashing Map.empty sample_fresh (SetGoal ''density'') sample_draft)"
  have "trim ''density'' = ''density''" by code_simp
  then have ok: "composer_apply sample_hashing Map.empty sample_fresh (SetGoal ''density'') sample_draft =
      (fst (record_event sample_hashing sample_fresh (SetGoal ''density'') ?c), ?c)"
    and goal: "wf_goal (wc_workflow ?c) = ''density''"
    by (simp_all add: composer_apply_def set_goal_def sample_draft_def record_event_def Let_def)
  then obtain ev where ev: "composer_apply sample_hashing Map.empty sample_fresh (SetGoal ''density'') sample_draft = (Ok ev, ?c)"
    by (simp add: record_event_def Let_def)
  from composer_undo_redo [of sample_hashing Map.empty sample_fresh "SetGoal ''density''" sample_draft "NotFound []" ev ?c sample_fresh]
  obtain ev2 c2 where "composer_apply sample_hashing Map.empty sample_fresh ComposerUndo ?c = (Ok ev2, c2)"
    "wc_workflow c2 = wc_workflow sample_draft"
    using ev by auto
  with ev goal show ?thesis by (auto simp: sample_draft_def)
qed

text \<open>C30: connecting two nodes of an executable draft leaves it executable exactly when the new edge
  closes no cycle, that is, when the target does not already lead to the source.\<close>

theorem connect_executable_iff:
  assumes "validate_workflow h (wc_workflow c) = Ok ()"
    and "composer_apply h fs fr (Connect source port target) c = (Ok ev, c')"
    and "step_named_at target (wc_workflow c) = Some t"
  shows "is_ok (workflow_for_execution h c') \<longleftrightarrow> (node_id h t, source) \<notin> (wf_edges h (wc_workflow c))\<^sup>*"
proof -
  from assms(2) have "connect source port target (wc_workflow c) = (Ok (), wc_workflow c')"
    by (auto simp: apply_edit_Ok record_event_eq)
  from connect_edge_added [OF validate_valid_workflow [OF assms(1)] this assms(3)]
  obtain i where "edge_added h (wc_workflow c) (wc_workflow c') i source port"
    "wf_ids h (wc_workflow c) ! i = node_id h t" .
  with edge_added_valid_iff show ?thesis by (metis is_ok_execution)
qed

theorem connect_executable_iff_witness:
  "\<exists>ev c'. composer_apply sample_hashing Map.empty sample_fresh (Connect ''c'' ''result'' ''a'') sample_draft = (Ok ev, c') \<and>
     \<not> is_ok (workflow_for_execution sample_hashing c')"
proof -
  let ?c = "snd (composer_apply sample_hashing Map.empty sample_fresh (Connect ''c'' ''result'' ''a'') sample_draft)"
  have con: "fst (connect ''c'' ''result'' ''a'' sample_graph) = Ok ()" by code_simp
  then obtain ev where ev: "composer_apply sample_hashing Map.empty sample_fresh (Connect ''c'' ''result'' ''a'') sample_draft = (Ok ev, ?c)"
    by (cases "connect ''c'' ''result'' ''a'' sample_graph")
      (simp add: composer_apply_def sample_draft_def record_event_def Let_def)
  have t: "step_named_at ''a'' (wc_workflow sample_draft) = Some (wf_steps sample_graph ! 1)"
    by (simp add: sample_draft_def) code_simp
  have n: "node_id sample_hashing (wf_steps sample_graph ! 1) = ''a''" by code_simp
  have "''a'' \<in> set (wf_deps sample_hashing sample_graph 0)" "wf_ids sample_hashing sample_graph ! 0 = ''c''"
    "0 < length (wf_steps sample_graph)" by code_simp+
  then have "(''a'', ''c'') \<in> wf_edges sample_hashing (wc_workflow sample_draft)"
    unfolding wf_edges_def sample_draft_def by force
  then have "(node_id sample_hashing (wf_steps sample_graph ! 1), ''c'') \<in> (wf_edges sample_hashing (wc_workflow sample_draft))\<^sup>*"
    unfolding n by (rule r_into_rtrancl)
  moreover have "validate_workflow sample_hashing (wc_workflow sample_draft) = Ok ()"
    by (simp add: sample_draft_def sample_graph_valid)
  ultimately have "\<not> is_ok (workflow_for_execution sample_hashing ?c)"
    using connect_executable_iff [OF _ ev t] by simp
  with ev show ?thesis by blast
qed

text \<open>A palette node added under a new name keeps outputs that name the template's node, so no
  sequence of further edits makes the draft executable before the node is removed or the edit undone.\<close>

theorem renamed_node_blocks_execution:
  assumes "composer_apply h fs fr (AddReviewedNode template source new) c = (Ok ev, c1)" and "new \<noteq> source"
    and "list_all (\<lambda>(fr, cmd). cmd \<noteq> RemoveNode new \<and> cmd \<noteq> ComposerUndo \<and> cmd \<noteq> ComposerRedo) cmds"
  shows "\<not> is_ok (workflow_for_execution h (run_commands h fs cmds c1))"
proof -
  from assms(1) have "add_reviewed_node h fs fr template source new (wc_workflow c) = (Ok (), wc_workflow c1)"
    by (auto simp: apply_edit_Ok record_event_eq)
  from added_node_misnamed [OF this assms(2)] show ?thesis
    using misnamed_invalid [OF run_commands_misnamed [OF _ assms(3)]] by (auto simp: is_ok_execution)
qed

theorem renamed_node_blocks_execution_witness:
  "\<exists>ev c1. composer_apply sample_hashing Map.empty sample_fresh
      (AddReviewedNode ''flood-exposure'' ''verify-exposure'' ''verify-again'') sample_draft = (Ok ev, c1) \<and>
     \<not> is_ok (workflow_for_execution sample_hashing
       (run_commands sample_hashing Map.empty [(sample_fresh, Connect ''c'' ''result'' ''verify-again'')] c1))"
proof -
  let ?cmd = "AddReviewedNode ''flood-exposure'' ''verify-exposure'' ''verify-again''"
  let ?c = "snd (composer_apply sample_hashing Map.empty sample_fresh ?cmd sample_draft)"
  have "validate_node_id ''verify-again'' = Ok ()"
    "list_ex (\<lambda>step. ws_stable_id step = ''verify-again'') (wf_steps sample_graph) = False" by code_simp+
  then have "fst (add_reviewed_node sample_hashing Map.empty sample_fresh ''flood-exposure'' ''verify-exposure'' ''verify-again'' sample_graph) = Ok ()"
    by (simp add: add_reviewed_node_def template_workflow_def step_named_at_def nagoya_flood_exposure_template_def
        template_simps Let_def)
  then obtain ev where ev: "composer_apply sample_hashing Map.empty sample_fresh ?cmd sample_draft = (Ok ev, ?c)"
    by (cases "add_reviewed_node sample_hashing Map.empty sample_fresh ''flood-exposure'' ''verify-exposure'' ''verify-again'' sample_graph")
      (simp add: composer_apply_def sample_draft_def record_event_def Let_def)
  from renamed_node_blocks_execution [OF ev, of "[(sample_fresh, Connect ''c'' ''result'' ''verify-again'')]"] ev
  show ?thesis by auto
qed

text \<open>The event of a successful command carries a digest exactly when the draft can be executed,
  and then it is the stable digest of the graph that \<open>workflow_for_execution\<close> returns.\<close>

theorem event_digest_executable:
  assumes "composer_apply h fs fr cmd c = (Ok ev, c')"
  shows "ev_executable_digest ev = (case workflow_for_execution h c' of
      Inl _ \<Rightarrow> None
    | Inr w \<Rightarrow> Some (stable_digest_unchecked h w)) \<and> last (wc_events c') = ev"
proof -
  have "ev_executable_digest ev = executable_digest h (wc_workflow c') \<and> last (wc_events c') = ev"
    using assms by (auto simp: composer_apply_def record_event_eq split: option.splits sum.splits prod.splits if_splits)
  then show ?thesis
    using workflow_for_execution_Ok [of h c' "wc_workflow c'"] is_ok_execution [of h c']
    by (cases "workflow_for_execution h c'") (auto simp: executable_digest_eq is_ok_def)
qed

theorem event_digest_executable_witness:
  "\<exists>ev c1. composer_apply sample_hashing Map.empty sample_fresh (Connect ''a'' ''result'' ''c'') sample_draft = (Ok ev, c1) \<and>
     last (wc_events c1) = ev"
proof -
  let ?c = "snd (composer_apply sample_hashing Map.empty sample_fresh (Connect ''a'' ''result'' ''c'') sample_draft)"
  have con: "fst (connect ''a'' ''result'' ''c'' sample_graph) = Ok ()" by code_simp
  then obtain ev where ev: "composer_apply sample_hashing Map.empty sample_fresh (Connect ''a'' ''result'' ''c'') sample_draft = (Ok ev, ?c)"
    by (cases "connect ''a'' ''result'' ''c'' sample_graph")
      (simp add: composer_apply_def sample_draft_def record_event_def Let_def)
  from event_digest_executable [OF ev] ev show ?thesis by blast
qed

text \<open>Exactly the listed identifiers start a draft, every such draft is executable as it is, and the
  palette lists them all (the digest \<open>expect\<close> never panics).\<close>

theorem palette_executable:
  "(is_ok (from_template h fs u ident) \<longleftrightarrow> ident \<in> set template_ids) \<and>
   map_ok (workflow_for_execution h) (from_template h fs u ident) =
     map_ok (\<lambda>c. Ok (wc_workflow c)) (from_template h fs u ident) \<and>
   map_option (map rt_id) (reviewed_workflow_templates h fs v) = Some template_ids"
proof -
  have valid: "is_ok (template_workflow h fs u i) \<Longrightarrow> \<exists>w. template_workflow h fs u i = Ok w \<and> validate_workflow h w = Ok () \<and>
      valid_workflow h w" for u i
    using template_valid valid_workflow_validate by (cases "template_workflow h fs u i") (auto simp: is_ok_def)
  have draft: "from_template h fs u ident = map_ok (\<lambda>w. \<lparr>wc_workflow = w\<lparr>wf_review_status := RsDraft\<rparr>,
      wc_events = [], wc_undo = [], wc_redo = []\<rparr>) (template_workflow h fs u ident)"
    using valid [of u ident]
    by (cases "template_workflow h fs u ident")
      (auto simp: from_template_def from_reviewed_workflow_def stable_digest_def is_ok_def)
  have "is_ok (from_template h fs u ident) \<longleftrightarrow> ident \<in> set template_ids"
    unfolding draft template_workflow_defined [of h fs u ident, symmetric]
    by (cases "template_workflow h fs u ident") (auto simp: is_ok_def)
  moreover have "map_ok (workflow_for_execution h) (from_template h fs u ident) =
      map_ok (\<lambda>c. Ok (wc_workflow c)) (from_template h fs u ident)"
    using valid [of u ident] unfolding draft
    by (cases "template_workflow h fs u ident") (auto simp: workflow_for_execution_Ok valid_review_status is_ok_def)
  moreover have "\<exists>e. (case template_workflow h fs (v i) i of Inl _ \<Rightarrow> None | Inr w \<Rightarrow> Some (i, w)) = Some e \<and>
      map_option rt_id (palette_entry h e) = Some i" if "i \<in> set template_ids" for i
    using valid [of "v i" i] that
    by (auto simp: template_workflow_defined palette_entry_def stable_digest_def)
  then have "map_option (map rt_id) (those (map (palette_entry h) (List.map_filter (\<lambda>i.
      case template_workflow h fs (v i) i of Inl _ \<Rightarrow> None | Inr w \<Rightarrow> Some (i, w)) ids))) = Some ids"
    if "set ids \<subseteq> set template_ids" for ids
    using that by (induction ids) (fastforce simp: map_filter_simps)+
  then have "map_option (map rt_id) (reviewed_workflow_templates h fs v) = Some template_ids"
    unfolding reviewed_workflow_templates_def by blast
  ultimately show ?thesis by blast
qed

end
