(* ===== verification/Bytes.thy ===== *)
theory Bytes
  imports Prelude
begin

unbundle bit_operations_syntax

text \<open>
  Byte-level encodings shared by the binary formats: little-endian integers
  (\<open>u64::to_le_bytes\<close>, \<open>u64::from_le_bytes\<close>), the base-128 integers that \<open>genegis-tile/src/pmtiles.rs\<close>
  writes and reads at a cursor, and the contract of such an encoding as a locale.
\<close>

lemma unat_of_nat_u64: "n < 2 ^ 64 \<Longrightarrow> unat (of_nat n :: u64) = n"
  by (simp add: unat_of_nat take_bit_nat_eq_self)

section \<open>Little-endian integers\<close>

definition to_le_bytes :: "u64 \<Rightarrow> u8 list" where
  "to_le_bytes v = map (\<lambda>i. ucast (drop_bit (8 * i) v)) [0..<8]"

fun from_le_bytes :: "u8 list \<Rightarrow> u64" where
  "from_le_bytes [] = 0"
| "from_le_bytes (b # bs) = ucast b OR push_bit 8 (from_le_bytes bs)"

lemma length_to_le_bytes [simp]: "length (to_le_bytes v) = 8"
  by (simp add: to_le_bytes_def)

lemma bit_from_le_bytes:
  "bit (from_le_bytes bs) n \<longleftrightarrow> n < 64 \<and> n div 8 < length bs \<and> bit (bs ! (n div 8)) (n mod 8)"
proof (induction bs arbitrary: n)
  case (Cons b bs)
  show ?case
  proof (cases "n < 8")
    case True
    then show ?thesis by (auto simp: bit_simps)
  next
    case False
    then have "n div 8 = Suc ((n - 8) div 8)" "n mod 8 = (n - 8) mod 8" by (auto simp: le_div_geq le_mod_geq)
    with False show ?thesis by (auto simp: bit_simps Cons dest: bit_imp_le_length)
  qed
qed simp

lemma from_to_le_bytes [simp]: "from_le_bytes (to_le_bytes v) = v"
proof (rule bit_word_eqI)
  fix n assume "n < LENGTH(64)"
  then have n: "n < 64" "n div 8 < 8" by simp_all
  then show "bit (from_le_bytes (to_le_bytes v)) n = bit v n"
    by (simp add: bit_from_le_bytes to_le_bytes_def bit_simps)
qed

section \<open>Base-128 integers\<close>

datatype varint_error = TruncatedVarint | VarintOverflow

lemma drop_bit_less: "drop_bit 7 (v :: u64) \<noteq> 0 \<Longrightarrow> unat (drop_bit 7 v) < unat v"
proof -
  have d: "unat (drop_bit 7 v) = unat v div 128" by (simp add: drop_bit_eq_div unat_div)
  assume "drop_bit 7 v \<noteq> 0"
  then have "v \<noteq> 0" by auto
  then have "0 < unat v" by (simp add: unat_gt_0)
  then show ?thesis unfolding d by simp
qed

function push_varint :: "u8 list \<Rightarrow> u64 \<Rightarrow> u8 list" where
  "push_varint buffer value =
     (let byte = ucast (value AND 0x7f); value = drop_bit 7 value in
      if value = 0 then buffer @ [byte] else push_varint (buffer @ [byte OR 0x80]) value)"
  by pat_completeness auto
termination
  by (relation "measure (\<lambda>(_, v). unat v)") (auto intro: drop_bit_less)

declare push_varint.simps [simp del]

fun read_varint_loop :: "nat list \<Rightarrow> u8 list \<Rightarrow> nat \<Rightarrow> u64 \<Rightarrow> varint_error + u64 \<times> nat" where
  "read_varint_loop [] bytes cursor value = Err VarintOverflow"
| "read_varint_loop (shift # shifts) bytes cursor value =
     (if length bytes \<le> cursor then Err TruncatedVarint
      else let byte = bytes ! cursor; value = value OR push_bit shift (ucast (byte AND 0x7f)) in
        if byte AND 0x80 = 0 then Ok (value, Suc cursor)
        else read_varint_loop shifts bytes (Suc cursor) value)"

definition read_varint :: "u8 list \<Rightarrow> nat \<Rightarrow> varint_error + u64 \<times> nat" where
  "read_varint bytes cursor = read_varint_loop [0, 7, 14, 21, 28, 35, 42, 49, 56, 63] bytes cursor 0"

section \<open>The contract of a cursor encoding\<close>

locale cursor_codec =
  fixes enc :: "'a \<Rightarrow> 'b list" and dec :: "'b list \<Rightarrow> nat \<Rightarrow> 'e + 'a \<times> nat"
  assumes dec_enc: "dec (pre @ enc v @ post) (length pre) = Ok (v, length pre + length (enc v))"
begin

text \<open>Reading a sequence of values with a loop that keeps a state.\<close>

lemma dec_loop:
  assumes "\<And>i s. i < length vs \<Longrightarrow> P i s \<Longrightarrow> \<exists>s'. f s (k + i) (vs ! i) = Ok s' \<and> P (Suc i) s'" "P 0 s"
  shows "\<exists>s'. try_fold (\<lambda>(s, cursor) i. and_then (dec (pre @ concat (map enc vs) @ post) cursor)
        (\<lambda>(v, cursor). map_ok (\<lambda>s. (s, cursor)) (f s i v))) (s, length pre) [k..<k + length vs] =
      Ok (s', length pre + length (concat (map enc vs))) \<and> P (length vs) s'"
  using assms
proof (induction vs arbitrary: s k pre P)
  case (Cons v vs)
  from Cons.prems(1) [of 0 s] Cons.prems(2) obtain s1 where s1: "f s k v = Ok s1" "P 1 s1" by auto
  have "\<exists>s'. f s (Suc k + i) (vs ! i) = Ok s' \<and> P (Suc (Suc i)) s'" if "i < length vs" "P (Suc i) s" for i s
    using Cons.prems(1) [of "Suc i" s] that by simp
  from Cons.IH [where P = "\<lambda>i. P (Suc i)", OF this, of s1 "pre @ enc v"] s1
  show ?case
    using dec_enc [of pre v "concat (map enc vs) @ post"]
    by (auto simp: upt_conv_Cons ac_simps simp del: upt_Suc)
qed simp

end

section \<open>Base-128 integers round trip\<close>

lemma push_varint_step:
  "push_varint buffer v = (if drop_bit 7 v = 0 then buffer @ [ucast (v AND 0x7f)]
     else push_varint (buffer @ [ucast (v AND 0x7f) OR 0x80]) (drop_bit 7 v))"
  by (subst push_varint.simps) (simp add: Let_def del: drop_bit_numeral_bit0 drop_bit_numeral_bit1)

lemma push_varint_append: "push_varint buffer v = buffer @ push_varint [] v"
proof (induction "unat v" arbitrary: buffer v rule: less_induct)
  case less
  show ?case
  proof (cases "drop_bit 7 v = 0")
    case True
    then show ?thesis unfolding push_varint_step [of _ v] by simp
  next
    case False
    let ?b = "ucast (v AND 0x7f) OR 0x80 :: u8"
    have "push_varint (b @ [?b]) (drop_bit 7 v) = (b @ [?b]) @ push_varint [] (drop_bit 7 v)" for b
      using drop_bit_less [OF False] by (rule less)
    from this [of buffer] this [of "[]"] show ?thesis
      unfolding push_varint_step [of _ v] if_not_P [OF False] by (simp only: append_assoc append_Nil)
  qed
qed

lemma mask7: "(0x7f :: 'a :: len word) = mask 7"
  by (simp add: mask_eq_exp_minus_1)

lemma x80: "bit (0x80 :: int) n \<longleftrightarrow> n = 7"
proof -
  have "(0x80 :: int) = 2 ^ 7" by simp
  then show ?thesis by (simp only: bit_exp_iff) auto
qed

lemma varint_byte:
  fixes v :: u64
  shows "ucast (((ucast (v AND 0x7f) OR 0x80) :: u8) AND 0x7f) = take_bit 7 v"
    "((ucast (v AND 0x7f) OR 0x80) :: u8) AND 0x80 \<noteq> 0"
    "ucast ((ucast (v AND 0x7f) :: u8) AND 0x7f) = take_bit 7 v"
    "(ucast (v AND 0x7f) :: u8) AND 0x80 = 0"
proof -
  have "(b OR 0x80) AND 0x7f = b AND 0x7f" for b :: u8
    unfolding mask7 by (rule bit_word_eqI) (auto simp: bit_or_iff bit_and_iff bit_mask_iff x80)
  moreover show "ucast ((ucast (v AND 0x7f) :: u8) AND 0x7f) = take_bit 7 v"
    unfolding mask7 by (rule bit_word_eqI) (auto simp: bit_simps)
  ultimately show "ucast (((ucast (v AND 0x7f) OR 0x80) :: u8) AND 0x7f) = take_bit 7 v" by simp
  show "(ucast (v AND 0x7f) :: u8) AND 0x80 = 0"
    unfolding mask7 by (rule bit_word_eqI) (auto simp: bit_simps x80)
  have "bit (((ucast (v AND 0x7f) OR 0x80) :: u8) AND 0x80) 7" unfolding mask7 by (simp add: bit_simps x80)
  then show "((ucast (v AND 0x7f) OR 0x80) :: u8) AND 0x80 \<noteq> 0" by force
qed

lemma or_take_drop: "(a OR push_bit s (take_bit 7 v)) OR push_bit (s + 7) (drop_bit 7 v) = a OR push_bit s (v :: u64)"
proof (rule bit_word_eqI)
  fix n assume "n < LENGTH(64)"
  then show "bit ((a OR push_bit s (take_bit 7 v)) OR push_bit (s + 7) (drop_bit 7 v)) n = bit (a OR push_bit s v) n"
    by (cases "n < s + 7") (auto simp: bit_simps)
qed

definition shifts_from :: "nat \<Rightarrow> nat list" where
  "shifts_from k = map (\<lambda>i. 7 * i) [k..<10]"

lemma shifts_from_Cons: "k < 10 \<Longrightarrow> shifts_from k = 7 * k # shifts_from (Suc k)"
  by (simp add: shifts_from_def upt_conv_Cons del: upt_Suc)

lemma read_push_varint_from:
  "k < 10 \<Longrightarrow> unat v < 2 ^ (64 - 7 * k) \<Longrightarrow>
   read_varint_loop (shifts_from k) (pre @ push_varint [] v @ post) (length pre) a =
     Ok (a OR push_bit (7 * k) v, length pre + length (push_varint [] v))"
proof (induction "unat v" arbitrary: v k pre a rule: less_induct)
  case less
  show ?case
  proof (cases "drop_bit 7 v = 0")
    case True
    then have "push_varint [] v = [ucast (v AND 0x7f)]" unfolding push_varint_step [of "[]" v] by simp
    moreover have "take_bit 7 v = v" using True by (metis bits_ident push_bit_of_0 add.left_neutral)
    ultimately show ?thesis
      by (simp add: shifts_from_Cons [OF less.prems(1)] nth_append varint_byte)
  next
    case False
    let ?b = "ucast (v AND 0x7f) OR 0x80 :: u8" and ?v = "drop_bit 7 v"
    have eq: "push_varint [] v = ?b # push_varint [] ?v"
      using push_varint_append [of "[?b]" ?v] unfolding push_varint_step [of "[]" v] if_not_P [OF False] by simp
    have uv: "unat ?v = unat v div 128" by (simp add: drop_bit_eq_div unat_div)
    then have "128 \<le> unat v" using False by (metis div_less linorder_not_less unat_eq_0)
    then have "2 ^ 7 < (2 :: nat) ^ (64 - 7 * k)" using less.prems(2) by simp
    then have k: "7 < 64 - 7 * k" by (rule power_less_imp_less_exp [rotated]) simp
    then have "64 - 7 * k = (64 - 7 * Suc k) + 7" by simp
    then have "2 ^ (64 - 7 * k) = (2 :: nat) ^ (64 - 7 * Suc k) * 2 ^ 7" by (metis power_add)
    then have b: "unat ?v < 2 ^ (64 - 7 * Suc k)" using less.prems(2) by (simp add: uv less_mult_imp_div_less)
    have "Suc k < 10" using k by simp
    from less.hyps [OF drop_bit_less [OF False] this b]
    have "read_varint_loop (shifts_from (Suc k)) ((pre @ [?b]) @ push_varint [] ?v @ post) (length (pre @ [?b]))
        (a OR push_bit (7 * k) (take_bit 7 v)) =
      Ok ((a OR push_bit (7 * k) (take_bit 7 v)) OR push_bit (7 * Suc k) ?v,
          length (pre @ [?b]) + length (push_varint [] ?v))"
      .
    then show ?thesis
      using or_take_drop [of a "7 * k" v] less.prems(1)
      by (simp add: shifts_from_Cons eq nth_append varint_byte Let_def add.commute [of 7])
  qed
qed

lemma read_push_varint:
  "read_varint (pre @ push_varint [] v @ post) (length pre) = Ok (v, length pre + length (push_varint [] v))"
proof -
  have "[0, 7, 14, 21, 28, 35, 42, 49, 56, 63] = shifts_from 0" by (simp add: shifts_from_def upt_rec)
  then show ?thesis
    using read_push_varint_from [of 0 v pre post 0] unsigned_less [of v] by (simp add: read_varint_def)
qed

interpretation vi: cursor_codec "push_varint []" read_varint
  by unfold_locales (rule read_push_varint)

end
