(* ===== verification/Ip_Addr.thy ===== *)
theory Ip_Addr
  imports Prelude
begin

text \<open>
  The texts of IP addresses as \<open>core::net\<close> reads them (\<open>IpAddr::from_str\<close>), which decides what counts as
  a loopback host in \<open>genegis-storage/src/policy.rs\<close>. A reader takes a text and returns a value with the
  rest of the text. What is shown: the IPv4 texts of \<open>127.0.0.0/8\<close> are exactly the decimal ones without
  leading zeros, and every IPv6 text has a colon and does not start with a bracket.
\<close>

section \<open>Readers\<close>

datatype ip_addr = V4 "nat list" | V6 "nat list"

fun hex_value :: "char \<Rightarrow> nat" where
  "hex_value c =
     (let n = of_char c :: nat in if n \<le> 57 then n - 48 else if n \<le> 70 then n - 55 else n - 87)"

text \<open>At most three digits, no leading zero, at most 255.\<close>

definition read_octet :: "string \<Rightarrow> (nat \<times> string) option" where
  "read_octet s =
     (let ds = takeWhile is_ascii_digit s in
      if ds = [] \<or> 3 < length ds \<or> (1 < length ds \<and> hd ds = CHR ''0'') \<or> 255 < digits_value ds then None
      else Some (digits_value ds, dropWhile is_ascii_digit s))"

fun read_char :: "char \<Rightarrow> string \<Rightarrow> string option" where
  "read_char c (d # s) = (if c = d then Some s else None)"
| "read_char c [] = None"

text \<open>The remaining \<open>n\<close> octets, each after a full stop.\<close>

fun read_octets :: "nat \<Rightarrow> string \<Rightarrow> (nat list \<times> string) option" where
  "read_octets 0 s = Some ([], s)"
| "read_octets (Suc n) s =
     Option.bind (read_char (CHR ''.'') s) (\<lambda>s.
     Option.bind (read_octet s) (\<lambda>(a, s). map_option (\<lambda>(as, s). (a # as, s)) (read_octets n s)))"

definition read_ipv4 :: "string \<Rightarrow> (nat list \<times> string) option" where
  "read_ipv4 s = Option.bind (read_octet s) (\<lambda>(a, s). map_option (\<lambda>(as, s). (a # as, s)) (read_octets 3 s))"

definition read_group :: "string \<Rightarrow> (nat \<times> string) option" where
  "read_group s =
     (let ds = takeWhile is_ascii_hexdigit s in
      if ds = [] \<or> 4 < length ds then None
      else Some (foldl (\<lambda>v c. 16 * v + hex_value c) 0 ds, dropWhile is_ascii_hexdigit s))"

text \<open>From slot \<open>i\<close> on a colon comes first.\<close>

definition read_separated :: "nat \<Rightarrow> (string \<Rightarrow> 'a option) \<Rightarrow> string \<Rightarrow> 'a option" where
  "read_separated i inner s = (if i = 0 then inner s else Option.bind (read_char (CHR '':'') s) inner)"

text \<open>Up to \<open>n\<close> groups from slot \<open>i\<close> on. An IPv4 text may stand for the last two groups; the flag tells whether
  one did.\<close>

fun read_groups :: "nat \<Rightarrow> nat \<Rightarrow> string \<Rightarrow> nat list \<times> bool \<times> string" where
  "read_groups i 0 s = ([], False, s)"
| "read_groups i (Suc n) s =
     (case (if 0 < n then read_separated i read_ipv4 s else None) of
        Some (octets, rest) \<Rightarrow> ([octets ! 0 * 256 + octets ! 1, octets ! 2 * 256 + octets ! 3], True, rest)
      | None \<Rightarrow>
          (case read_separated i read_group s of
             None \<Rightarrow> ([], False, s)
           | Some (g, rest) \<Rightarrow> (case read_groups (Suc i) n rest of (gs, v4, rest) \<Rightarrow> (g # gs, v4, rest))))"

definition read_ipv6 :: "string \<Rightarrow> (nat list \<times> string) option" where
  "read_ipv6 s =
     (case read_groups 0 8 s of (front, v4, rest) \<Rightarrow>
        if length front = 8 then Some (front, rest)
        else if v4 then None
        else
          Option.bind (Option.bind (read_char (CHR '':'') rest) (read_char (CHR '':''))) (\<lambda>rest.
          case read_groups 0 (8 - (length front + 1)) rest of (back, _, rest) \<Rightarrow>
            Some (front @ replicate (8 - length front - length back) 0 @ back, rest)))"

definition parse_ip_addr :: "string \<Rightarrow> ip_addr option" where
  "parse_ip_addr s =
     (case (case read_ipv4 s of
              Some (octets, rest) \<Rightarrow> Some (V4 octets, rest)
            | None \<Rightarrow> map_option (\<lambda>(groups, rest). (V6 groups, rest)) (read_ipv6 s)) of
        Some (address, []) \<Rightarrow> Some address
      | _ \<Rightarrow> None)"

fun is_loopback :: "ip_addr \<Rightarrow> bool" where
  "is_loopback (V4 octets) = (hd octets = 127)"
| "is_loopback (V6 groups) = (groups = [0, 0, 0, 0, 0, 0, 0, 1])"

section \<open>Decimal texts\<close>

lemma is_digit_value: "is_ascii_digit c \<Longrightarrow> digit_value c < 10 \<and> char_of (48 + digit_value c) = c"
  by (auto simp: is_ascii_digit_def digit_value_def)

lemma zero_char: "char_of (48 :: nat) = CHR ''0''"
  by code_simp

lemma digits_value_snoc: "digits_value (ds @ [c]) = 10 * digits_value ds + digit_value c"
  by (simp add: digits_value_def)

lemma digits_value_pos:
  assumes "list_all is_ascii_digit ds" "ds \<noteq> []" "hd ds \<noteq> CHR ''0''" shows "0 < digits_value ds"
  using assms(2,1,3)
proof (induction ds rule: rev_nonempty_induct)
  case (single c)
  then have "0 < digit_value c" using is_digit_value [of c] by (cases "digit_value c = 0") (auto simp: zero_char)
  then show ?case by (simp add: digits_value_def)
next
  case (snoc c ds)
  then show ?case by (simp add: digits_value_snoc hd_append)
qed

lemma show_digits_value:
  assumes "list_all is_ascii_digit ds" "ds \<noteq> []" "1 < length ds \<longrightarrow> hd ds \<noteq> CHR ''0''"
  shows "show_nat (digits_value ds) = ds"
  using assms(2,1,3)
proof (induction ds rule: rev_nonempty_induct)
  case (single c)
  then show ?case using is_digit_value [of c] by (simp add: digits_value_def show_nat.simps [of "digit_value c"])
next
  case (snoc c ds)
  have d: "list_all is_ascii_digit ds" "is_ascii_digit c" "hd ds \<noteq> CHR ''0''"
    using snoc by (auto simp: hd_append neq_Nil_conv)
  then have "0 < digits_value ds" using digits_value_pos snoc.hyps by blast
  then show ?case
    using snoc.IH d is_digit_value [OF d(2)]
    by (subst show_nat.simps) (simp add: digits_value_snoc)
qed

lemma length_show_nat: "n \<le> 255 \<Longrightarrow> length (show_nat n) \<le> 3"
  using show_nat.simps [of n] show_nat.simps [of "n div 10"] show_nat.simps [of "n div 10 div 10"]
  by (auto split: if_splits)

lemma hd_show_nat: "1 < length (show_nat n) \<Longrightarrow> hd (show_nat n) \<noteq> CHR ''0''"
proof (induction n rule: show_nat.induct)
  case (1 n)
  show ?case
  proof (cases "n < 10")
    case False
    then have s: "show_nat n = show_nat (n div 10) @ [char_of (48 + n mod 10)]" by (simp add: show_nat.simps [of n])
    have "hd (show_nat (n div 10)) \<noteq> CHR ''0''"
    proof (cases "n div 10 < 10")
      case True
      moreover from this have "char_of (48 + n div 10) \<noteq> CHR ''0''"
        using digit_char(2) [of "n div 10"] False by (cases "char_of (48 + n div 10) = CHR ''0''") (simp_all add: digit_value_def)
      ultimately show ?thesis by (simp add: show_nat.simps [of "n div 10"])
    next
      case False
      then have "1 < length (show_nat (n div 10))" by (simp add: show_nat.simps [of "n div 10"] length_greater_0_conv Suc_le_eq)
      then show ?thesis using 1(1) \<open>\<not> n < 10\<close> by blast
    qed
    then show ?thesis using s by (simp add: hd_append)
  qed (use 1 in \<open>simp add: show_nat.simps [of n]\<close>)
qed

text \<open>An octet is the decimal text of a number up to 255 that no further digit follows.\<close>

lemma read_octet_iff:
  "read_octet s = Some (n, rest) \<longleftrightarrow> s = show_nat n @ rest \<and> n \<le> 255 \<and> (rest \<noteq> [] \<longrightarrow> \<not> is_ascii_digit (hd rest))"
proof
  assume r: "read_octet s = Some (n, rest)"
  let ?ds = "takeWhile is_ascii_digit s"
  have ds: "list_all is_ascii_digit ?ds" by (auto simp: list_all_iff dest: set_takeWhileD)
  have "n = digits_value ?ds" "rest = dropWhile is_ascii_digit s" "n \<le> 255" "show_nat (digits_value ?ds) = ?ds"
    using r show_digits_value [OF ds] by (auto simp: read_octet_def Let_def split: if_splits)
  then show "s = show_nat n @ rest \<and> n \<le> 255 \<and> (rest \<noteq> [] \<longrightarrow> \<not> is_ascii_digit (hd rest))"
    using hd_dropWhile [of is_ascii_digit s] by simp
next
  assume s: "s = show_nat n @ rest \<and> n \<le> 255 \<and> (rest \<noteq> [] \<longrightarrow> \<not> is_ascii_digit (hd rest))"
  have all: "\<forall>c \<in> set (show_nat n). is_ascii_digit c" "digits_value (show_nat n) = n"
    using show_nat_digits [of n] by (auto simp: list_all_iff)
  have "takeWhile is_ascii_digit s = show_nat n" "dropWhile is_ascii_digit s = rest"
    using s all(1) by (cases rest; simp add: takeWhile_append2 dropWhile_append2)+
  then show "read_octet s = Some (n, rest)"
    using s all(2) length_show_nat [of n] hd_show_nat [of n] by (auto simp: read_octet_def Let_def)
qed

section \<open>Loopback texts\<close>

text \<open>An address of \<open>127.0.0.0/8\<close> in decimal notation.\<close>

definition loopback_text :: "string \<Rightarrow> bool" where
  "loopback_text s \<longleftrightarrow> (\<exists>b c d. b \<le> 255 \<and> c \<le> 255 \<and> d \<le> 255 \<and>
     s = ''127.'' @ show_nat b @ ''.'' @ show_nat c @ ''.'' @ show_nat d)"

lemma not_digit_stop: "\<not> is_ascii_digit (CHR ''.'')"
  by (simp add: is_ascii_digit_def)

lemma read_char_Some: "read_char c s = Some t \<longleftrightarrow> s = c # t"
  by (cases s) auto

lemma read_octets_Suc: "read_octets (Suc n) s = Some (xs, rest) \<longleftrightarrow>
    (\<exists>a as t. xs = a # as \<and> s = CHR ''.'' # show_nat a @ t \<and> a \<le> 255 \<and> (t \<noteq> [] \<longrightarrow> \<not> is_ascii_digit (hd t)) \<and>
       read_octets n t = Some (as, rest))"
  by (auto simp: bind_eq_Some_conv read_char_Some read_octet_iff)

lemma read_ipv4_loopback:
  "(\<exists>octets. read_ipv4 s = Some (octets, []) \<and> hd octets = 127) \<longleftrightarrow> loopback_text s"
proof
  have show127: "show_nat 127 = ''127''" by code_simp
  show "loopback_text s" if r: "\<exists>octets. read_ipv4 s = Some (octets, []) \<and> hd octets = 127"
  proof -
    obtain as t where "read_octet s = Some (127, t)" "read_octets 3 t = Some (as, [])"
      using r by (auto simp: read_ipv4_def bind_eq_Some_conv)
    then have "s = show_nat 127 @ t" "read_octets 3 t = Some (as, [])" by (simp_all add: read_octet_iff)
    then show ?thesis
      unfolding loopback_text_def by (auto simp: numeral_3_eq_3 read_octets_Suc show127 simp del: read_octets.simps(2))
  qed
  show "\<exists>octets. read_ipv4 s = Some (octets, []) \<and> hd octets = 127" if "loopback_text s"
  proof -
    obtain b c d where "b \<le> 255" "c \<le> 255" "d \<le> 255" and s: "s = ''127.'' @ show_nat b @ ''.'' @ show_nat c @ ''.'' @ show_nat d"
      using \<open>loopback_text s\<close> by (auto simp: loopback_text_def)
    then have "read_octets 3 (''.'' @ show_nat b @ ''.'' @ show_nat c @ ''.'' @ show_nat d) = Some ([b, c, d], [])"
      by (simp add: numeral_3_eq_3 read_octets_Suc not_digit_stop del: read_octets.simps(2))
    moreover have "read_octet s = Some (127, ''.'' @ show_nat b @ ''.'' @ show_nat c @ ''.'' @ show_nat d)"
      by (simp add: read_octet_iff s show127 not_digit_stop)
    ultimately show ?thesis by (simp add: read_ipv4_def)
  qed
qed

text \<open>A text without a colon is no IPv6 address, and neither is one in brackets.\<close>

lemma read_octets_suffix: "read_octets n s = Some (xs, rest) \<Longrightarrow> set rest \<subseteq> set s"
  by (induction n arbitrary: s xs)
    (fastforce simp: bind_eq_Some_conv read_char_Some read_octet_iff)+

lemma read_ipv4_suffix: "read_ipv4 s = Some (xs, rest) \<Longrightarrow> set rest \<subseteq> set s"
  using read_octets_suffix by (fastforce simp: read_ipv4_def bind_eq_Some_conv read_octet_iff)

lemma read_group_suffix: "read_group s = Some (g, rest) \<Longrightarrow> set rest \<subseteq> set s"
  by (auto simp: read_group_def Let_def split: if_splits dest: set_dropWhileD)

lemma read_separated_colon: "CHR '':'' \<notin> set t \<Longrightarrow> read_separated (Suc j) inner t = None"
  by (cases t) (auto simp: read_separated_def)

lemma read_groups_no_colon:
  assumes "CHR '':'' \<notin> set s" "read_groups i n s = (gs, v4, rest)"
  shows "set rest \<subseteq> set s \<and> length gs \<le> (if i = 0 then 2 else 0)"
proof -
  have later: "read_groups (Suc j) m t = ([], False, t)" if "CHR '':'' \<notin> set t" for j m t
    using that by (cases m) (auto simp: read_separated_colon)
  show ?thesis
  proof (cases i)
    case (Suc j)
    then show ?thesis using later [OF assms(1)] assms(2) by simp
  next
    case 0
    show ?thesis
    proof (cases n)
      case (Suc m)
      let ?v4 = "if 0 < m then read_ipv4 s else None"
      have unfold: "read_groups 0 (Suc m) s = (case ?v4 of
          Some (octets, rest) \<Rightarrow> ([octets ! 0 * 256 + octets ! 1, octets ! 2 * 256 + octets ! 3], True, rest)
        | None \<Rightarrow> (case read_group s of
             None \<Rightarrow> ([], False, s)
           | Some (g, rest) \<Rightarrow> (case read_groups (Suc 0) m rest of (gs, v4, rest) \<Rightarrow> (g # gs, v4, rest))))"
        unfolding read_groups.simps read_separated_def by simp
      consider (v4) octets t where "?v4 = Some (octets, t)" | (group) g t where "?v4 = None" "read_group s = Some (g, t)"
        | (none) "?v4 = None" "read_group s = None"
        by (metis not_None_eq surj_pair)
      then show ?thesis
      proof cases
        case v4
        then have "read_groups i n s = ([octets ! 0 * 256 + octets ! 1, octets ! 2 * 256 + octets ! 3], True, t)"
          using unfold 0 Suc by simp
        then show ?thesis using assms(2) 0 v4 read_ipv4_suffix [of s octets t] by (auto split: if_splits)
      next
        case group
        have t: "set t \<subseteq> set s" using read_group_suffix [OF group(2)] .
        then have "CHR '':'' \<notin> set t" using assms(1) by blast
        then have "read_groups (Suc 0) m t = ([], False, t)" by (rule later)
        with unfold have "read_groups i n s = ([g], False, t)" by (simp only: 0 Suc group option.case prod.case)
        then show ?thesis using assms(2) 0 t by auto
      next
        case none
        then have "read_groups i n s = ([], False, s)" using unfold 0 Suc by simp
        then show ?thesis using assms(2) by auto
      qed
    qed (use assms 0 in auto)
  qed
qed

lemma ipv6_has_colon: "parse_ip_addr s = Some (V6 groups) \<Longrightarrow> CHR '':'' \<in> set s"
proof (rule ccontr)
  assume p: "parse_ip_addr s = Some (V6 groups)" and colon: "CHR '':'' \<notin> set s"
  obtain gs v4 rest where r: "read_groups 0 8 s = (gs, v4, rest)" by (cases "read_groups 0 8 s") auto
  from read_groups_no_colon [OF colon r] have "length gs \<noteq> 8" "CHR '':'' \<notin> set rest" using colon by auto
  then have "read_ipv6 s = None"
    using r by (cases rest) (auto simp: read_ipv6_def)
  then show False using p by (auto simp: parse_ip_addr_def split: option.splits prod.splits list.splits)
qed

lemma bracketed_no_address: "parse_ip_addr (CHR ''['' # s) = None"
  by (simp add: parse_ip_addr_def read_ipv4_def read_octet_def read_ipv6_def read_group_def read_separated_def
      is_ascii_digit_def is_ascii_hexdigit_def numeral_eq_Suc)

lemma loopback_address_iff:
  assumes "CHR '':'' \<in> set s \<longrightarrow> hd s = CHR ''[''"
  shows "(\<exists>a. parse_ip_addr s = Some a \<and> is_loopback a) \<longleftrightarrow> loopback_text s"
proof (cases "CHR '':'' \<in> set s")
  case True
  then obtain t where "s = CHR ''['' # t" using assms by (cases s) auto
  then show ?thesis using bracketed_no_address by (auto simp: loopback_text_def)
next
  case False
  have "(\<exists>a. parse_ip_addr s = Some a \<and> is_loopback a) \<longleftrightarrow> (\<exists>octets. parse_ip_addr s = Some (V4 octets) \<and> hd octets = 127)"
    using ipv6_has_colon [of s] False by (auto elim!: is_loopback.elims)
  also have "\<dots> \<longleftrightarrow> (\<exists>octets. read_ipv4 s = Some (octets, []) \<and> hd octets = 127)"
    by (auto simp: parse_ip_addr_def split: option.splits prod.splits list.splits)
  finally show ?thesis by (simp add: read_ipv4_loopback)
qed

end
