(* ===== verification/Storage.thy ===== *)
theory Storage
  imports Bytes Ip_Addr
begin

text \<open>
  Asset access of \<open>genegis-storage\<close>: byte ranges (\<open>range.rs\<close>), the remote access policy (\<open>policy.rs\<close>), the
  HTTP operations (\<open>http.rs\<close>) and local or remote assets (\<open>asset.rs\<close>). The file system is a map from paths
  to contents. The URL parser (the \<open>url\<close> crate), the HTTP client (\<open>ureq\<close>) and the environment variable are
  the fields of \<open>network\<close>. An HTTP operation is a program of requests (\<open>exchange\<close>), so that what is sent to a
  network and in which order is part of the model beside the result; what an agent does with a request,
  redirects up to the limit of the policy included, is the network's. Error texts that quote values are
  structured values here; the body that the text of a refused response quotes is left out.
\<close>

section \<open>Errors\<close>

datatype io_failure = OpenFailed | UnexpectedEof | WriteFailed

datatype range_failure = InvertedRange u64 u64 | MissingDash string | BadOffset string

datatype http_failure =
    HasCredentials
  | NoHost
  | HostNotAllowed string
  | Transport string
  | RequestTooLarge u64
  | RangeTooLarge u64
  | BodyTooLarge
  | BadStatus "16 word"
  | RangeLengthMismatch u64 nat
  | NoRangeProbe string "16 word"
  | MissingContentRange string
  | BadContentRange string
  | BadProbeStatus string "16 word"
  | MissingContentLength string

text \<open>\<open>BadUrl\<close> is \<open>StorageError::UnsupportedScheme\<close> with the text of a parse error.\<close>

datatype storage_error =
    UnsupportedScheme string
  | BadUrl string string
  | LocalError io_failure
  | HttpError http_failure
  | InvalidRange range_failure

section \<open>Byte ranges\<close>

record byte_range =
  br_start :: u64
  br_end :: u64

definition byte_range_new :: "u64 \<Rightarrow> u64 \<Rightarrow> storage_error + byte_range" where
  "byte_range_new s e =
     (if e < s then Err (InvalidRange (InvertedRange s e)) else Ok \<lparr>br_start = s, br_end = e\<rparr>)"

definition byte_range_prefix :: "u64 \<Rightarrow> storage_error + byte_range" where
  "byte_range_prefix e = byte_range_new 0 e"

definition byte_range_len :: "byte_range \<Rightarrow> u64" where
  "byte_range_len r = br_end r - br_start r + 1"

definition header_value :: "byte_range \<Rightarrow> string" where
  "header_value r = ''bytes='' @ show_nat (unat (br_start r)) @ ''-'' @ show_nat (unat (br_end r))"

fun split_once :: "char \<Rightarrow> string \<Rightarrow> (string \<times> string) option" where
  "split_once c [] = None"
| "split_once c (d # s) =
     (if c = d then Some ([], s) else map_option (\<lambda>(a, b). (d # a, b)) (split_once c s))"

definition parse_u64 :: "string \<Rightarrow> storage_error + u64" where
  "parse_u64 value =
     (case parse_unsigned (2 ^ 64) (trim value) of
        None \<Rightarrow> Err (InvalidRange (BadOffset value))
      | Some n \<Rightarrow> Ok (of_nat n))"

definition byte_range_parse :: "string \<Rightarrow> storage_error + byte_range" where
  "byte_range_parse input =
     (let trimmed = trim input;
          spec = (case strip_prefix ''bytes='' trimmed of None \<Rightarrow> trimmed | Some s \<Rightarrow> s)
      in case split_once (CHR ''-'') spec of
           None \<Rightarrow> Err (InvalidRange (MissingDash input))
         | Some (s, e) \<Rightarrow>
             and_then (parse_u64 s) (\<lambda>s. and_then (parse_u64 e) (\<lambda>e. byte_range_new s e)))"

section \<open>Local files\<close>

type_synonym byte_files = "string \<rightharpoonup> u8 list"

definition is_remote_uri :: "string \<Rightarrow> bool" where
  "is_remote_uri uri = (prefix ''http://'' uri \<or> prefix ''https://'' uri)"

definition read_local_range :: "byte_files \<Rightarrow> string \<Rightarrow> byte_range \<Rightarrow> storage_error + u8 list" where
  "read_local_range fs path rng =
     (case fs path of
        None \<Rightarrow> Err (LocalError OpenFailed)
      | Some bytes \<Rightarrow>
          (let n = unat (byte_range_len rng); buffer = take n (drop (unat (br_start rng)) bytes) in
           if length buffer < n then Err (LocalError UnexpectedEof) else Ok buffer))"

definition read_local_bytes :: "byte_files \<Rightarrow> string \<Rightarrow> storage_error + u8 list" where
  "read_local_bytes fs path = ok_or (fs path) (LocalError OpenFailed)"

section \<open>Remote access policy\<close>

record remote_access_policy =
  rp_allowed_hosts :: "string list"
  rp_allow_loopback :: bool
  rp_max_response_bytes :: u64
  rp_timeout_ms :: u64
  rp_max_redirects :: u32

record parsed_url =
  pu_scheme :: string
  pu_username :: string
  pu_password :: "string option"
  pu_host :: "string option"

fun split_char :: "char \<Rightarrow> string \<Rightarrow> string list" where
  "split_char c [] = [[]]"
| "split_char c (d # s) =
     (if c = d then [] # split_char c s
      else case split_char c s of [] \<Rightarrow> [[d]] | part # parts \<Rightarrow> (d # part) # parts)"

abbreviation lowercase :: "string \<Rightarrow> string" where
  "lowercase \<equiv> map to_ascii_lowercase"

definition policy_from_env :: "string option \<Rightarrow> remote_access_policy" where
  "policy_from_env var =
     \<lparr>rp_allowed_hosts = map lowercase (filter (\<lambda>host. host \<noteq> [])
        (map trim (split_char (CHR '','') (case var of None \<Rightarrow> [] | Some v \<Rightarrow> v)))),
      rp_allow_loopback = True, rp_max_response_bytes = 8 * 1024 * 1024, rp_timeout_ms = 15000, rp_max_redirects = 0\<rparr>"

definition remote_url_host :: "(string \<Rightarrow> string + parsed_url) \<Rightarrow> string \<Rightarrow> storage_error + string" where
  "remote_url_host parse_url value =
     and_then (map_err (BadUrl value) (parse_url value)) (\<lambda>url.
     if pu_scheme url \<notin> {''http'', ''https''} then Err (UnsupportedScheme (pu_scheme url))
     else if pu_username url \<noteq> [] \<or> pu_password url \<noteq> None then Err (HttpError HasCredentials)
     else ok_or (map_option lowercase (pu_host url)) (HttpError NoHost))"

definition is_loopback_host :: "string \<Rightarrow> bool" where
  "is_loopback_host host =
     (host = ''localhost'' \<or> (case parse_ip_addr host of None \<Rightarrow> False | Some address \<Rightarrow> is_loopback address))"

definition host_matches :: "string \<Rightarrow> string \<Rightarrow> bool" where
  "host_matches host allowed =
     (let allowed = lowercase (trim allowed) in
      case strip_prefix ''*.'' allowed of
        Some sfx \<Rightarrow> host \<noteq> sfx \<and> suffix (''.'' @ sfx) host
      | None \<Rightarrow> host = allowed)"

definition validate_url ::
  "(string \<Rightarrow> string + parsed_url) \<Rightarrow> remote_access_policy \<Rightarrow> string \<Rightarrow> storage_error + unit" where
  "validate_url parse_url policy value =
     and_then (remote_url_host parse_url value) (\<lambda>host.
     if rp_allow_loopback policy \<and> is_loopback_host host then Ok ()
     else if list_ex (host_matches host) (rp_allowed_hosts policy) then Ok ()
     else Err (HttpError (HostNotAllowed host)))"

section \<open>HTTP\<close>

datatype http_method = Head | Get | Post

record http_request =
  rq_method :: http_method
  rq_url :: string
  rq_headers :: "(string \<times> string) list"
  rq_body :: "u8 list"

record http_response =
  hr_status :: "16 word"
  hr_header :: "string \<Rightarrow> string option"
  hr_body :: "u8 list"

record agent_config =
  ag_timeout_ms :: u64
  ag_max_redirects :: u32
  ag_max_redirects_will_error :: bool

record network =
  net_parse_url :: "string \<Rightarrow> string + parsed_url"
  net_allowed_hosts :: "string option"
  net_send :: "agent_config \<Rightarrow> http_request \<Rightarrow> string + http_response"

record http_fetch_result =
  hf_status :: "16 word"
  hf_bytes :: "u8 list"
  hf_content_range :: "string option"
  hf_content_type :: "string option"

record http_object_metadata =
  hm_content_length :: u64
  hm_etag :: "string option"
  hm_last_modified :: "string option"
  hm_accepts_byte_ranges :: bool

definition policy_default :: "network \<Rightarrow> remote_access_policy" where
  "policy_default net = policy_from_env (net_allowed_hosts net)"

definition policy_agent :: "remote_access_policy \<Rightarrow> agent_config" where
  "policy_agent policy = \<lparr>ag_timeout_ms = rp_timeout_ms policy, ag_max_redirects = rp_max_redirects policy,
     ag_max_redirects_will_error = True\<rparr>"

text \<open>A program of requests: it ends with a result, or sends a request through an agent and goes on with the
  outcome.\<close>

datatype 'a exchange =
    Finish 'a
  | Send agent_config http_request "string + http_response \<Rightarrow> 'a exchange"

primrec run_exchange :: "network \<Rightarrow> 'a exchange \<Rightarrow> 'a" where
  "run_exchange net (Finish x) = x"
| "run_exchange net (Send agent request next_step) = run_exchange net (next_step (net_send net agent request))"

text \<open>What a network is sent, in order.\<close>

primrec sent :: "network \<Rightarrow> 'a exchange \<Rightarrow> (agent_config \<times> http_request) list" where
  "sent net (Finish x) = []"
| "sent net (Send agent request next_step) = (agent, request) # sent net (next_step (net_send net agent request))"

text \<open>\<open>validate_url(url)?\<close> and \<open>call().map_err(map_transport_error)?\<close>.\<close>

definition checked ::
  "(string \<Rightarrow> string + parsed_url) \<Rightarrow> remote_access_policy \<Rightarrow> string \<Rightarrow> (storage_error + 'a) exchange \<Rightarrow>
   (storage_error + 'a) exchange" where
  "checked parse_url policy url next_step =
     (case validate_url parse_url policy url of Inl e \<Rightarrow> Finish (Err e) | Inr _ \<Rightarrow> next_step)"

definition send_request ::
  "remote_access_policy \<Rightarrow> http_request \<Rightarrow> (http_response \<Rightarrow> (storage_error + 'a) exchange) \<Rightarrow>
   (storage_error + 'a) exchange" where
  "send_request policy request next_step =
     Send (policy_agent policy) request (\<lambda>outcome.
       case map_err (\<lambda>e. HttpError (Transport e)) outcome of Inl e \<Rightarrow> Finish (Err e) | Inr response \<Rightarrow> next_step response)"

definition read_to_vec :: "u64 \<Rightarrow> u8 list \<Rightarrow> storage_error + u8 list" where
  "read_to_vec limit body =
     (if unat limit < length body then Err (HttpError BodyTooLarge) else Ok body)"

definition fetch_http_bytes_exchange ::
  "(string \<Rightarrow> string + parsed_url) \<Rightarrow> string \<Rightarrow> remote_access_policy \<Rightarrow> (storage_error + http_fetch_result) exchange" where
  "fetch_http_bytes_exchange parse_url url policy =
     checked parse_url policy url (
     send_request policy \<lparr>rq_method = Get, rq_url = url, rq_headers = [], rq_body = []\<rparr> (\<lambda>response. Finish (
     if hr_status response \<noteq> 200 then Err (HttpError (BadStatus (hr_status response)))
     else and_then (read_to_vec (rp_max_response_bytes policy) (hr_body response)) (\<lambda>bytes.
       Ok \<lparr>hf_status = hr_status response, hf_bytes = bytes, hf_content_range = None,
           hf_content_type = hr_header response ''Content-Type''\<rparr>))))"

definition fetch_http_bytes_with_policy ::
  "network \<Rightarrow> string \<Rightarrow> remote_access_policy \<Rightarrow> storage_error + http_fetch_result" where
  "fetch_http_bytes_with_policy net url policy =
     run_exchange net (fetch_http_bytes_exchange (net_parse_url net) url policy)"

definition fetch_http_bytes :: "network \<Rightarrow> string \<Rightarrow> storage_error + http_fetch_result" where
  "fetch_http_bytes net url = fetch_http_bytes_with_policy net url (policy_default net)"

definition post_http_json_bytes_exchange ::
  "(string \<Rightarrow> string + parsed_url) \<Rightarrow> string \<Rightarrow> u8 list \<Rightarrow> (string \<times> string) list \<Rightarrow> remote_access_policy \<Rightarrow>
   (storage_error + http_fetch_result) exchange" where
  "post_http_json_bytes_exchange parse_url url body headers policy =
     checked parse_url policy url (
     if rp_max_response_bytes policy < of_nat (length body)
     then Finish (Err (HttpError (RequestTooLarge (rp_max_response_bytes policy))))
     else send_request policy \<lparr>rq_method = Post, rq_url = url,
       rq_headers = [(''Content-Type'', ''application/json''), (''Content-Length'', show_nat (length body))] @ headers,
       rq_body = body\<rparr> (\<lambda>response. Finish (
     if \<not> (200 \<le> hr_status response \<and> hr_status response < 300) then Err (HttpError (BadStatus (hr_status response)))
     else and_then (read_to_vec (rp_max_response_bytes policy) (hr_body response)) (\<lambda>bytes.
       Ok \<lparr>hf_status = hr_status response, hf_bytes = bytes, hf_content_range = None,
           hf_content_type = hr_header response ''Content-Type''\<rparr>))))"

definition post_http_json_bytes_with_policy ::
  "network \<Rightarrow> string \<Rightarrow> u8 list \<Rightarrow> (string \<times> string) list \<Rightarrow> remote_access_policy \<Rightarrow>
   storage_error + http_fetch_result" where
  "post_http_json_bytes_with_policy net url body headers policy =
     run_exchange net (post_http_json_bytes_exchange (net_parse_url net) url body headers policy)"

definition post_http_json_bytes_with_headers ::
  "network \<Rightarrow> string \<Rightarrow> u8 list \<Rightarrow> (string \<times> string) list \<Rightarrow> storage_error + http_fetch_result" where
  "post_http_json_bytes_with_headers net url body headers =
     post_http_json_bytes_with_policy net url body headers (policy_default net)"

definition post_http_json_bytes :: "network \<Rightarrow> string \<Rightarrow> u8 list \<Rightarrow> storage_error + http_fetch_result" where
  "post_http_json_bytes net url body = post_http_json_bytes_with_headers net url body []"

definition fetch_http_range_exchange ::
  "(string \<Rightarrow> string + parsed_url) \<Rightarrow> string \<Rightarrow> byte_range \<Rightarrow> remote_access_policy \<Rightarrow>
   (storage_error + http_fetch_result) exchange" where
  "fetch_http_range_exchange parse_url url rng policy =
     checked parse_url policy url (
     if rp_max_response_bytes policy < byte_range_len rng
     then Finish (Err (HttpError (RangeTooLarge (rp_max_response_bytes policy))))
     else send_request policy \<lparr>rq_method = Get, rq_url = url,
       rq_headers = [(''Range'', header_value rng)], rq_body = []\<rparr> (\<lambda>response. Finish (
     let status = hr_status response in
     if status \<noteq> 206 \<and> status \<noteq> 200 then Err (HttpError (BadStatus status))
     else and_then (read_to_vec (rp_max_response_bytes policy) (hr_body response)) (\<lambda>bytes.
     if status = 206 \<and> of_nat (length bytes) \<noteq> byte_range_len rng
     then Err (HttpError (RangeLengthMismatch (byte_range_len rng) (length bytes)))
     else Ok \<lparr>hf_status = status, hf_bytes = bytes, hf_content_range = hr_header response ''Content-Range'',
              hf_content_type = hr_header response ''Content-Type''\<rparr>))))"

definition fetch_http_range_with_policy ::
  "network \<Rightarrow> string \<Rightarrow> byte_range \<Rightarrow> remote_access_policy \<Rightarrow> storage_error + http_fetch_result" where
  "fetch_http_range_with_policy net url rng policy =
     run_exchange net (fetch_http_range_exchange (net_parse_url net) url rng policy)"

definition fetch_http_range :: "network \<Rightarrow> string \<Rightarrow> byte_range \<Rightarrow> storage_error + http_fetch_result" where
  "fetch_http_range net url rng = fetch_http_range_with_policy net url rng (policy_default net)"

definition parse_content_range_total :: "string \<Rightarrow> u64 option" where
  "parse_content_range_total content_range =
     (case split_once (CHR ''/'') content_range of
        None \<Rightarrow> None
      | Some (_, rest) \<Rightarrow> map_option of_nat (parse_unsigned (2 ^ 64) (trim rest)))"

definition header_length :: "http_response \<Rightarrow> u64 option" where
  "header_length response =
     Option.bind (hr_header response ''Content-Length'') (\<lambda>value. map_option of_nat (parse_unsigned (2 ^ 64) value))"

definition head_length :: "string + http_response \<Rightarrow> u64 option" where
  "head_length head =
     (case head of
        Inl _ \<Rightarrow> None
      | Inr response \<Rightarrow> if hr_status response = 200 then header_length response else None)"

definition probe_http_content_length_exchange ::
  "(string \<Rightarrow> string + parsed_url) \<Rightarrow> string \<Rightarrow> remote_access_policy \<Rightarrow> (storage_error + u64) exchange" where
  "probe_http_content_length_exchange parse_url url policy =
     checked parse_url policy url (
     Send (policy_agent policy) \<lparr>rq_method = Head, rq_url = url, rq_headers = [], rq_body = []\<rparr> (\<lambda>head.
     case head_length head of
       Some len \<Rightarrow> Finish (Ok len)
     | None \<Rightarrow>
         send_request policy \<lparr>rq_method = Get, rq_url = url,
           rq_headers = [(''Range'', ''bytes=0-0'')], rq_body = []\<rparr> (\<lambda>response. Finish (
         if hr_status response \<noteq> 206 then Err (HttpError (NoRangeProbe url (hr_status response)))
         else and_then (ok_or (hr_header response ''Content-Range'') (HttpError (MissingContentRange url))) (\<lambda>content_range.
           ok_or (parse_content_range_total content_range) (HttpError (BadContentRange content_range)))))))"

definition probe_http_content_length_with_policy ::
  "network \<Rightarrow> string \<Rightarrow> remote_access_policy \<Rightarrow> storage_error + u64" where
  "probe_http_content_length_with_policy net url policy =
     run_exchange net (probe_http_content_length_exchange (net_parse_url net) url policy)"

definition probe_http_content_length :: "network \<Rightarrow> string \<Rightarrow> storage_error + u64" where
  "probe_http_content_length net url = probe_http_content_length_with_policy net url (policy_default net)"

definition probe_http_object_metadata_exchange ::
  "(string \<Rightarrow> string + parsed_url) \<Rightarrow> string \<Rightarrow> remote_access_policy \<Rightarrow> (storage_error + http_object_metadata) exchange" where
  "probe_http_object_metadata_exchange parse_url url policy =
     checked parse_url policy url (
     send_request policy \<lparr>rq_method = Head, rq_url = url, rq_headers = [], rq_body = []\<rparr> (\<lambda>response. Finish (
     if hr_status response \<noteq> 200 then Err (HttpError (BadProbeStatus url (hr_status response)))
     else and_then (ok_or (header_length response) (HttpError (MissingContentLength url))) (\<lambda>content_length.
       Ok \<lparr>hm_content_length = content_length, hm_etag = hr_header response ''ETag'',
           hm_last_modified = hr_header response ''Last-Modified'',
           hm_accepts_byte_ranges = (case hr_header response ''Accept-Ranges'' of
             None \<Rightarrow> False | Some value \<Rightarrow> eq_ignore_ascii_case value ''bytes'')\<rparr>))))"

definition probe_http_object_metadata_with_policy ::
  "network \<Rightarrow> string \<Rightarrow> remote_access_policy \<Rightarrow> storage_error + http_object_metadata" where
  "probe_http_object_metadata_with_policy net url policy =
     run_exchange net (probe_http_object_metadata_exchange (net_parse_url net) url policy)"

definition probe_http_object_metadata :: "network \<Rightarrow> string \<Rightarrow> storage_error + http_object_metadata" where
  "probe_http_object_metadata net url = probe_http_object_metadata_with_policy net url (policy_default net)"

section \<open>Assets\<close>

record asset_fetch_result =
  af_uri :: string
  af_range :: "byte_range option"
  af_byte_len :: nat
  af_status :: "16 word option"
  af_content_range :: "string option"
  af_bytes :: "u8 list"

definition read_asset_bytes :: "byte_files \<Rightarrow> network \<Rightarrow> string \<Rightarrow> storage_error + u8 list" where
  "read_asset_bytes fs net uri =
     (if is_remote_uri uri then map_ok hf_bytes (fetch_http_bytes net uri) else read_local_bytes fs uri)"

definition read_asset_range_with_policy ::
  "byte_files \<Rightarrow> network \<Rightarrow> string \<Rightarrow> byte_range \<Rightarrow> remote_access_policy \<Rightarrow> storage_error + u8 list" where
  "read_asset_range_with_policy fs net uri rng policy =
     (if is_remote_uri uri then map_ok hf_bytes (fetch_http_range_with_policy net uri rng policy)
      else read_local_range fs uri rng)"

definition read_asset_range :: "byte_files \<Rightarrow> network \<Rightarrow> string \<Rightarrow> byte_range \<Rightarrow> storage_error + u8 list" where
  "read_asset_range fs net uri rng = read_asset_range_with_policy fs net uri rng (policy_default net)"

definition fetch_asset ::
  "byte_files \<Rightarrow> network \<Rightarrow> string \<Rightarrow> byte_range option \<Rightarrow> storage_error + asset_fetch_result" where
  "fetch_asset fs net uri rng =
     (if is_remote_uri uri then
        and_then (case rng of Some rng \<Rightarrow> fetch_http_range net uri rng | None \<Rightarrow> fetch_http_bytes net uri) (\<lambda>http.
          Ok \<lparr>af_uri = uri, af_range = rng, af_byte_len = length (hf_bytes http), af_status = Some (hf_status http),
              af_content_range = hf_content_range http, af_bytes = hf_bytes http\<rparr>)
      else
        and_then (case rng of Some rng \<Rightarrow> read_local_range fs uri rng | None \<Rightarrow> read_local_bytes fs uri) (\<lambda>bytes.
          Ok \<lparr>af_uri = uri, af_range = rng, af_byte_len = length bytes, af_status = None,
              af_content_range = None, af_bytes = bytes\<rparr>))"

section \<open>Range headers\<close>

lemma split_once_append: "c \<notin> set a \<Longrightarrow> split_once c (a @ c # b) = Some (a, b)"
  by (induction a) auto

lemma show_nat_trim: "trim (show_nat n) = show_nat n"
proof (rule trim_visible)
  have "hd (show_nat n) \<in> set (show_nat n)" by (rule hd_in_set) simp
  then show "visible (hd (show_nat n))" using show_nat_digits [of n] by (auto simp: list_all_iff intro: visible_digit)
qed (simp_all add: visible_last_show_nat)

lemma parse_show_u64: "parse_u64 (show_nat (unat (v :: u64))) = Ok v"
proof -
  have "unat v < 2 ^ 64" using unsigned_less [of v, where 'a = nat] by simp
  then show ?thesis by (simp add: parse_u64_def show_nat_trim parse_show_nat)
qed

text \<open>The value of a \<open>Range\<close> header parses back to the range it was printed from, unless the range is inverted.\<close>

theorem range_header_round_trip:
  "byte_range_parse (header_value r) =
     (if br_end r < br_start r then Err (InvalidRange (InvertedRange (br_start r) (br_end r))) else Ok r)"
proof -
  let ?a = "show_nat (unat (br_start r))" and ?b = "show_nat (unat (br_end r))"
  have "CHR ''-'' \<notin> set ?a" using show_nat_digits [of "unat (br_start r)"] by (auto simp: list_all_iff is_ascii_digit_def)
  moreover have "trim (header_value r) = ''bytes='' @ ?a @ ''-'' @ ?b"
    unfolding header_value_def by (rule trim_visible) (simp_all add: visible_last_show_nat, simp add: visible_def)
  ultimately show ?thesis
    by (simp add: byte_range_parse_def strip_prefix_def split_once_append parse_show_u64 byte_range_new_def)
qed

section \<open>Remote reads are confined\<close>

text \<open>What a policy admits, with the names of hosts in lower case. A pattern \<open>*.\<close> followed by a domain names
  the hosts that end in a full stop and that domain; every other entry names itself. The loopback hosts
  are \<open>localhost\<close> and the addresses of \<open>127.0.0.0/8\<close>.\<close>

definition names_host :: "string \<Rightarrow> string \<Rightarrow> bool" where
  "names_host entry host \<longleftrightarrow>
     (\<exists>domain sub. entry = ''*.'' @ domain \<and> host = sub @ ''.'' @ domain) \<or>
     (\<nexists>domain. entry = ''*.'' @ domain) \<and> host = entry"

definition admitted :: "(string \<Rightarrow> string + parsed_url) \<Rightarrow> remote_access_policy \<Rightarrow> string \<Rightarrow> bool" where
  "admitted parse_url policy value \<longleftrightarrow> (\<exists>url host. parse_url value = Ok url \<and> pu_scheme url \<in> {''http'', ''https''} \<and>
     pu_username url = [] \<and> pu_password url = None \<and> pu_host url = Some host \<and>
     ((rp_allow_loopback policy \<and> (lowercase host = ''localhost'' \<or> loopback_text (lowercase host))) \<or>
      (\<exists>entry \<in> set (rp_allowed_hosts policy). names_host (lowercase (trim entry)) (lowercase host))))"

text \<open>The \<open>url\<close> crate returns an IPv6 host in brackets, and no other host has a colon.\<close>

definition bracketed_hosts :: "(string \<Rightarrow> string + parsed_url) \<Rightarrow> bool" where
  "bracketed_hosts parse_url \<longleftrightarrow> (\<forall>value url host. parse_url value = Ok url \<and> pu_host url = Some host \<and>
     CHR '':'' \<in> set host \<longrightarrow> hd host = CHR ''['')"

lemma strip_prefix_Some: "strip_prefix p e = Some d \<longleftrightarrow> e = p @ d"
  by (auto simp: strip_prefix_def prefix_def)

lemma host_matches_iff: "host_matches host entry \<longleftrightarrow> names_host (lowercase (trim entry)) host"
proof (cases "strip_prefix ''*.'' (lowercase (trim entry))")
  case None
  then have "\<nexists>d. lowercase (trim entry) = ''*.'' @ d" using strip_prefix_Some by (metis option.distinct(1))
  then show ?thesis using None unfolding host_matches_def names_host_def Let_def by (simp only: option.case) blast
next
  case (Some d)
  have "suffix (''.'' @ d) host \<Longrightarrow> host \<noteq> d" by (auto simp: suffix_def)
  moreover have "lowercase (trim entry) = ''*.'' @ d" using Some by (simp only: strip_prefix_Some)
  ultimately show ?thesis using Some unfolding host_matches_def names_host_def Let_def suffix_def
    by (simp only: option.case) auto
qed

lemma to_ascii_lowercase_colon: "to_ascii_lowercase c = CHR '':'' \<Longrightarrow> c = CHR '':''"
proof (rule ccontr)
  assume c: "to_ascii_lowercase c = CHR '':''" "c \<noteq> CHR '':''"
  then have upper: "is_ascii_uppercase c" by (auto simp: to_ascii_lowercase_def split: if_splits)
  have "(of_char (to_ascii_lowercase c) :: nat) = 58" using c(1) by simp
  then show False using upper by (simp add: to_ascii_lowercase_def is_ascii_uppercase_def)
qed

lemma lowercase_colon: "CHR '':'' \<in> set (lowercase host) \<Longrightarrow> CHR '':'' \<in> set host"
  using to_ascii_lowercase_colon by fastforce

lemma lowercase_bracket: "host \<noteq> [] \<Longrightarrow> hd host = CHR ''['' \<Longrightarrow> hd (lowercase host) = CHR ''[''"
  by (simp add: hd_map to_ascii_lowercase_def is_ascii_uppercase_def)

lemma validate_url_admitted:
  assumes "bracketed_hosts parse_url"
  shows "validate_url parse_url policy value = Ok () \<longleftrightarrow> admitted parse_url policy value"
proof (cases "parse_url value")
  case (Inr url)
  have "is_loopback_host (lowercase host) \<longleftrightarrow> lowercase host = ''localhost'' \<or> loopback_text (lowercase host)"
    if "pu_host url = Some host" for host
  proof -
    have "CHR '':'' \<in> set (lowercase host) \<longrightarrow> hd (lowercase host) = CHR ''[''"
      using assms Inr that lowercase_colon [of host] lowercase_bracket [of host] unfolding bracketed_hosts_def by fastforce
    from loopback_address_iff [OF this] show ?thesis by (auto simp: is_loopback_host_def split: option.splits)
  qed
  then show ?thesis
    using Inr by (cases "pu_host url")
      (auto simp: validate_url_def remote_url_host_def admitted_def ok_or_def list_ex_iff host_matches_iff)
qed (simp add: validate_url_def remote_url_host_def admitted_def)

text \<open>Whatever the network answers, the program sends requests for its own URL only, with the limits of the
  policy, and for a URL that the policy does not admit it sends nothing and fails.\<close>

definition confined :: "network \<Rightarrow> remote_access_policy \<Rightarrow> string \<Rightarrow> (storage_error + 'a) exchange \<Rightarrow> bool" where
  "confined net policy url program \<longleftrightarrow>
     (\<forall>(agent, request) \<in> set (sent net program). rq_url request = url \<and> agent = policy_agent policy) \<and>
     (\<not> admitted (net_parse_url net) policy url \<longrightarrow>
        sent net program = [] \<and> (\<exists>e. run_exchange net program = Err e))"

lemma confined_checked:
  assumes "bracketed_hosts (net_parse_url net)"
    and "\<forall>(agent, request) \<in> set (sent net program). rq_url request = url \<and> agent = policy_agent policy"
  shows "confined net policy url (checked (net_parse_url net) policy url program)"
proof (cases "validate_url (net_parse_url net) policy url")
  case (Inl e)
  then show ?thesis by (simp add: confined_def checked_def)
next
  case (Inr u)
  then have "admitted (net_parse_url net) policy url" using validate_url_admitted [OF assms(1)] by simp
  then show ?thesis using Inr assms(2) by (simp add: confined_def checked_def)
qed

lemma sent_request: "sent net (send_request policy request (\<lambda>r. Finish (f r))) = [(policy_agent policy, request)]"
  by (auto simp: send_request_def split: sum.splits)

lemma sent_cases:
  "sent net (case x of None \<Rightarrow> p | Some y \<Rightarrow> Finish (f y)) = (case x of None \<Rightarrow> sent net p | Some y \<Rightarrow> [])"
  by (simp split: option.splits)


definition sample_network :: network where
  "sample_network = \<lparr>net_parse_url = \<lambda>_. Ok \<lparr>pu_scheme = ''https'', pu_username = [], pu_password = None, pu_host = Some ''Tiles.Example.org''\<rparr>,
     net_allowed_hosts = Some ''data.example.org, *.example.org'', net_send = \<lambda>_ _. Err ''offline''\<rparr>"


text \<open>The policy is documented to permit loopback addresses, but the IPv6 one is refused: in brackets it is no
  \<open>IpAddr\<close>.\<close>

lemma ipv6_loopback_refused:
  "parse_url value = Ok \<lparr>pu_scheme = ''http'', pu_username = [], pu_password = None, pu_host = Some ''[::1]''\<rparr> \<Longrightarrow>
     validate_url parse_url (policy_from_env None) value = Err (HttpError (HostNotAllowed ''[::1]''))"
  "parse_ip_addr ''::1'' = Some (V6 [0, 0, 0, 0, 0, 0, 0, 1])"
proof -
  have "lowercase ''[::1]'' = ''[::1]''" "is_loopback_host ''[::1]'' = False" by code_simp+
  moreover have "rp_allowed_hosts (policy_from_env None) = []" by (simp add: policy_from_env_def trim_code)
  ultimately show "validate_url parse_url (policy_from_env None) value = Err (HttpError (HostNotAllowed ''[::1]''))"
    if "parse_url value = Ok \<lparr>pu_scheme = ''http'', pu_username = [], pu_password = None, pu_host = Some ''[::1]''\<rparr>"
    using that by (simp add: validate_url_def remote_url_host_def ok_or_def)
  show "parse_ip_addr ''::1'' = Some (V6 [0, 0, 0, 0, 0, 0, 0, 1])" by code_simp
qed

end
