(* ===== verification/Tile_Id.thy ===== *)
theory Tile_Id
  imports Storage
begin

text \<open>
  Hilbert identifiers of map tiles (\<open>zxy_to_tile_id\<close> of \<open>genegis-tile/src/pmtiles.rs\<close>) over 32- and
  64-bit words, and the error type of the archive code. The loop computes the index of the recursive
  Hilbert curve \<open>hilbert\<close> over natural numbers; identifiers of different tiles differ and the
  identifiers of one zoom level fill an interval.
\<close>

section \<open>Errors\<close>

datatype pmtiles_error =
    StorageFailed storage_error
  | IoFailed io_failure
  | GzipFailed string
  | Invalid string
  | UnsupportedCompression u8
  | WholeObjectFallback "16 word"
  | TileNotFound u8 u32 u32

section \<open>The loop of the source\<close>

definition quadrant :: "u32 \<Rightarrow> u32 \<Rightarrow> u32" where
  "quadrant v scale = (if v AND scale \<noteq> 0 then 1 else 0)"

definition turn_quadrant :: "u8 \<Rightarrow> u32 \<Rightarrow> u32 \<Rightarrow> u32 \<times> u32 \<Rightarrow> u32 \<times> u32" where
  "turn_quadrant z rx ry = (\<lambda>(x, y).
     if ry = 0 then
       (let (x, y) = (if rx = 1 then (push_bit (unat z) 1 - 1 - x, push_bit (unat z) 1 - 1 - y) else (x, y))
        in (y, x))
     else (x, y))"

function hilbert_loop :: "u8 \<Rightarrow> u32 \<Rightarrow> u32 \<Rightarrow> u32 \<Rightarrow> u64 \<Rightarrow> u64" where
  "hilbert_loop z scale x y distance =
     (if scale = 0 then distance
      else let rx = quadrant x scale; ry = quadrant y scale;
               distance = distance + ucast scale * ucast scale * ucast ((3 * rx) XOR ry);
               (x, y) = turn_quadrant z rx ry (x, y)
           in hilbert_loop z (scale div 2) x y distance)"
  by pat_completeness auto
termination
  by (relation "measure (\<lambda>(_, scale, _). unat scale)") (auto simp: unat_div word_neq_0_conv word_less_nat_alt)

declare hilbert_loop.simps [simp del]

definition zxy_to_tile_id :: "u8 \<Rightarrow> u32 \<Rightarrow> u32 \<Rightarrow> pmtiles_error + u64" where
  "zxy_to_tile_id z x y =
     (if 31 < z \<or> push_bit (unat z) 1 \<le> x \<or> push_bit (unat z) 1 \<le> y
      then Err (Invalid ''tile coordinate outside Hilbert domain'')
      else let base = (push_bit (unat z * 2) 1 - 1) div 3;
               scale = push_bit (unat (if z = 0 then 0 else z - 1)) 1
           in Ok (base + hilbert_loop z scale x y 0))"

section \<open>The Hilbert curve\<close>

fun turn :: "nat \<Rightarrow> nat \<Rightarrow> nat \<Rightarrow> nat \<times> nat \<Rightarrow> nat \<times> nat" where
  "turn s rx ry (x, y) =
     (if ry = 0 then (if rx = 1 then (s - 1 - y, s - 1 - x) else (y, x)) else (x, y))"

definition digit :: "nat \<Rightarrow> nat \<Rightarrow> nat" where
  "digit rx ry = (if rx = 0 then (if ry = 0 then 0 else 1) else (if ry = 0 then 3 else 2))"

fun hilbert :: "nat \<Rightarrow> nat \<times> nat \<Rightarrow> nat" where
  "hilbert 0 p = 0"
| "hilbert (Suc k) (x, y) =
     4 ^ k * digit (x div 2 ^ k) (y div 2 ^ k) +
     hilbert k (turn (2 ^ k) (x div 2 ^ k) (y div 2 ^ k) (x mod 2 ^ k, y mod 2 ^ k))"

abbreviation square :: "nat \<Rightarrow> (nat \<times> nat) set" where "square k \<equiv> {0..<2 ^ k} \<times> {0..<2 ^ k}"

lemma halves: "(v :: nat) < 2 ^ Suc k \<Longrightarrow> v div 2 ^ k = 0 \<or> v div 2 ^ k = 1"
  using less_mult_imp_div_less [of v 2 "2 ^ k"] by auto

lemma turn_square: "x < s \<Longrightarrow> y < s \<Longrightarrow> turn s rx ry (x, y) \<in> {0..<s} \<times> {0..<s}"
  by auto

lemma turn_inj:
  "rx \<le> 1 \<Longrightarrow> p \<in> {0..<s} \<times> {0..<s} \<Longrightarrow> q \<in> {0..<s} \<times> {0..<s} \<Longrightarrow> turn s rx ry p = turn s rx ry q \<Longrightarrow> p = q"
  by (cases p; cases q) (auto split: if_splits)

declare turn.simps [simp del]

lemma hilbert_less: "p \<in> square k \<Longrightarrow> hilbert k p < 4 ^ k"
proof (induction k p rule: hilbert.induct)
  case (2 k x y)
  have "turn (2 ^ k) (x div 2 ^ k) (y div 2 ^ k) (x mod 2 ^ k, y mod 2 ^ k) \<in> square k"
    by (rule turn_square) simp_all
  with 2 have "hilbert k (turn (2 ^ k) (x div 2 ^ k) (y div 2 ^ k) (x mod 2 ^ k, y mod 2 ^ k)) < 4 ^ k" by simp
  moreover have "digit rx ry \<le> 3" for rx ry by (simp add: digit_def)
  then have "4 ^ k * digit (x div 2 ^ k) (y div 2 ^ k) \<le> 4 ^ k * 3" by (rule mult_le_mono2)
  ultimately show ?case unfolding hilbert.simps power_Suc by linarith
qed simp

lemma digit_inj:
  "a = 0 \<or> a = 1 \<Longrightarrow> b = 0 \<or> b = 1 \<Longrightarrow> c = 0 \<or> c = 1 \<Longrightarrow> d = 0 \<or> d = 1 \<Longrightarrow>
   digit a b = digit c d \<Longrightarrow> a = c \<and> b = d"
  by (auto simp: digit_def)

lemma hilbert_inj: "inj_on (hilbert k) (square k)"
proof (induction k)
  case (Suc k)
  show ?case
  proof (rule inj_onI)
    fix p q assume p: "p \<in> square (Suc k)" and q: "q \<in> square (Suc k)" and eq: "hilbert (Suc k) p = hilbert (Suc k) q"
    obtain x y x' y' where pq: "p = (x, y)" "q = (x', y')" by (cases p; cases q)
    let ?h = "\<lambda>v. v div 2 ^ k" and ?l = "\<lambda>v. v mod 2 ^ k"
    let ?t = "turn (2 ^ k) (?h x) (?h y) (?l x, ?l y)" and ?t' = "turn (2 ^ k) (?h x') (?h y') (?l x', ?l y')"
    have t: "?t \<in> square k" "?t' \<in> square k" by (rule turn_square; simp)+
    have b: "?h x = 0 \<or> ?h x = 1" "?h y = 0 \<or> ?h y = 1" "?h x' = 0 \<or> ?h x' = 1" "?h y' = 0 \<or> ?h y' = 1"
      using p q pq halves by auto
    have e: "4 ^ k * digit (?h x) (?h y) + hilbert k ?t = 4 ^ k * digit (?h x') (?h y') + hilbert k ?t'"
      using eq pq by simp
    have lt: "hilbert k ?t < 4 ^ k" "hilbert k ?t' < 4 ^ k" by (rule hilbert_less [OF t(1)], rule hilbert_less [OF t(2)])
    have d: "digit (?h x) (?h y) = digit (?h x') (?h y')"
      using arg_cong [OF e, of "\<lambda>v. v div 4 ^ k"] lt by simp
    have h: "?h x = ?h x'" "?h y = ?h y'" using digit_inj [OF b d] by simp_all
    from e d have "hilbert k ?t = hilbert k ?t'" by simp
    then have "?t = ?t'" using t by (rule inj_onD [OF Suc.IH])
    then have "turn (2 ^ k) (?h x') (?h y') (?l x, ?l y) = ?t'" by (simp only: h)
    moreover have "?h x' \<le> 1" using b(3) by linarith
    ultimately have "(?l x, ?l y) = (?l x', ?l y')"
      using turn_inj [of "?h x'" "(?l x, ?l y)" "2 ^ k" "(?l x', ?l y')" "?h y'"] by simp
    then have l: "?l x = ?l x'" "?l y = ?l y'" by simp_all
    have "x = x'" "y = y'"
      using arg_cong2 [OF h(1) l(1), of "\<lambda>a b. a * 2 ^ k + b"] arg_cong2 [OF h(2) l(2), of "\<lambda>a b. a * 2 ^ k + b"]
      by (simp_all only: div_mult_mod_eq)
    then show "p = q" by (simp add: pq)
  qed
qed simp

lemma hilbert_image: "hilbert k ` square k = {0..<4 ^ k}"
proof (rule card_subset_eq)
  show "hilbert k ` square k \<subseteq> {0..<4 ^ k}" using hilbert_less by force
  have "card (square k) = 4 ^ k" by (simp add: card_cartesian_product power_mult_distrib [symmetric])
  then show "card (hilbert k ` square k) = card {0..<(4 :: nat) ^ k}" using hilbert_inj by (simp add: card_image)
qed simp


section \<open>The loop computes the curve\<close>

lemma quadrant_bit: "k < 32 \<Longrightarrow> unat (quadrant v (push_bit k 1)) = unat v div 2 ^ k mod 2"
proof -
  assume "k < 32"
  have "v AND push_bit k 1 = 0 \<longleftrightarrow> \<not> bit v k" by (simp add: push_bit_eq_mult and_exp_eq_0_iff_not_bit)
  moreover have "bit v k \<longleftrightarrow> odd (unat v div 2 ^ k)"
    using bit_iff_odd [of "unat v" k] by (simp add: bit_unsigned_iff)
  ultimately show ?thesis by (auto simp: quadrant_def odd_iff_mod_2_eq_one even_iff_mod_2_eq_zero)
qed

lemma complement_mod:
  assumes "k \<le> z" "v < (2 :: nat) ^ z" shows "(2 ^ z - 1 - v) mod 2 ^ k = 2 ^ k - 1 - v mod 2 ^ k"
proof -
  obtain c where c: "(2 :: nat) ^ z = 2 ^ k * c" using assms(1) by (metis dvd_def le_imp_power_dvd)
  let ?q = "v div 2 ^ k" and ?r = "v mod 2 ^ k"
  have r: "?r < 2 ^ k" by simp
  have v: "v = 2 ^ k * ?q + ?r" by simp
  have q: "?q < c" using assms(2) c by (metis less_mult_imp_div_less mult.commute)
  then have "2 ^ k * (?q + 1) \<le> 2 ^ k * c" by (intro mult_le_mono2) simp
  moreover have "2 ^ k * (c - ?q - 1) = 2 ^ k * c - 2 ^ k * (?q + 1)" by (simp add: diff_mult_distrib2)
  moreover have "2 ^ k * (?q + 1) = 2 ^ k * ?q + 2 ^ k" by simp
  ultimately have "2 ^ k * c - 1 - v = 2 ^ k * (c - ?q - 1) + (2 ^ k - 1 - ?r)" using r v by linarith
  then show ?thesis by (simp add: c)
qed


lemma unat_pow2: "k < 32 \<Longrightarrow> unat (push_bit k 1 :: u32) = 2 ^ k"
proof -
  assume "k < 32"
  then have "(2 :: nat) ^ k < 2 ^ 32" by (intro power_strict_increasing) simp_all
  moreover have "push_bit k 1 = (of_nat (2 ^ k) :: u32)" by (simp add: push_bit_eq_mult)
  ultimately show ?thesis by (simp add: unat_of_nat take_bit_nat_eq_self del: push_bit_of_1 of_nat_power)
qed

lemma quadrant_xor:
  "ucast ((3 * quadrant x s) XOR quadrant y s) = (of_nat (digit (unat (quadrant x s)) (unat (quadrant y s))) :: u64)"
  by (simp add: quadrant_def digit_def)

lemma unat_flip:
  assumes "z < 32" "unat v < 2 ^ z" shows "unat (push_bit z 1 - 1 - v :: u32) = 2 ^ z - 1 - unat v"
proof -
  have one: "unat (push_bit z 1 - 1 :: u32) = 2 ^ z - 1"
    using assms(1) unat_pow2 [OF assms(1)] by (subst unat_sub) (auto simp: word_le_nat_alt)
  then show ?thesis using assms by (subst unat_sub) (auto simp: word_le_nat_alt)
qed

lemma turn_quadrant_turn:
  assumes z: "unat z < 32" and k: "k < unat z" and xy: "unat x < 2 ^ unat z" "unat y < 2 ^ unat z"
    and rx: "unat rx = unat x div 2 ^ k mod 2" and ry: "unat ry = unat y div 2 ^ k mod 2"
    and t: "turn_quadrant z rx ry (x, y) = (x', y')"
  shows "unat x' < 2 ^ unat z \<and> unat y' < 2 ^ unat z \<and>
    (unat x' mod 2 ^ k, unat y' mod 2 ^ k) =
      turn (2 ^ k) (unat x div 2 ^ k mod 2) (unat y div 2 ^ k mod 2) (unat x mod 2 ^ k, unat y mod 2 ^ k)"
proof -
  have b: "rx = 1 \<longleftrightarrow> unat x div 2 ^ k mod 2 = 1" "ry = 0 \<longleftrightarrow> unat y div 2 ^ k mod 2 = 0"
    using rx ry by (simp_all add: word_unat_eq_iff)
  have f: "unat (push_bit (unat z) 1 - 1 - v :: u32) = 2 ^ unat z - 1 - unat v"
    "(2 ^ unat z - 1 - unat v) mod 2 ^ k = 2 ^ k - 1 - unat v mod 2 ^ k" if "unat v < 2 ^ unat z" for v :: u32
    using unat_flip [OF z that] complement_mod [OF less_imp_le [OF k] that] .
  show ?thesis
    using t xy f [OF xy(1)] f [OF xy(2)] unfolding turn_quadrant_def
    by (auto simp: b turn.simps split: if_splits)
qed

lemma hilbert_loop_Suc:
  assumes "k < 32" "turn_quadrant z (quadrant x (push_bit k 1)) (quadrant y (push_bit k 1)) (x, y) = (x', y')"
  shows "hilbert_loop z (push_bit k 1) x y d =
    hilbert_loop z (if k = 0 then 0 else push_bit (k - 1) 1) x' y'
      (d + of_nat (4 ^ k * digit (unat x div 2 ^ k mod 2) (unat y div 2 ^ k mod 2)))"
proof -
  have s: "push_bit k 1 \<noteq> (0 :: u32)" using unat_pow2 [OF assms(1)] by (metis power_not_zero unat_0 zero_neq_numeral)
  have half: "push_bit k 1 div 2 = (if k = 0 then 0 else push_bit (k - 1) 1 :: u32)"
    using assms(1) unat_pow2 [of k] unat_pow2 [of "k - 1"]
    by (cases k) (simp_all add: word_unat_eq_iff unat_div del: push_bit_of_1)
  have u: "ucast (push_bit k 1 :: u32) = (of_nat (2 ^ k) :: u64)"
    using unat_pow2 [OF assms(1)] by (metis of_nat_unat)
  have "ucast (push_bit k 1 :: u32) * ucast (push_bit k 1 :: u32) = (of_nat (4 ^ k) :: u64)"
    unfolding u by (simp flip: power_mult_distrib of_nat_mult)
  then show ?thesis
    using s assms(2) quadrant_bit [OF assms(1)]
    by (subst hilbert_loop.simps) (simp add: Let_def half quadrant_xor del: push_bit_of_1)
qed

lemma hilbert_loop_hilbert:
  assumes "unat z < 32" "k \<le> unat z" "unat x < 2 ^ unat z" "unat y < 2 ^ unat z"
  shows "hilbert_loop z (if k = 0 then 0 else push_bit (k - 1) 1) x y d =
    d + of_nat (hilbert k (unat x mod 2 ^ k, unat y mod 2 ^ k))"
  using assms(2-)
proof (induction k arbitrary: x y d)
  case 0
  then show ?case by (simp add: hilbert_loop.simps)
next
  case (Suc k)
  obtain x' y' where t: "turn_quadrant z (quadrant x (push_bit k 1)) (quadrant y (push_bit k 1)) (x, y) = (x', y')"
    by (cases "turn_quadrant z (quadrant x (push_bit k 1)) (quadrant y (push_bit k 1)) (x, y)")
  have k: "k < unat z" "k < 32" using Suc.prems(1) assms(1) by auto
  note q = quadrant_bit [OF k(2)]
  note tt = turn_quadrant_turn [OF assms(1) k(1) Suc.prems(2,3) q q t]
  have high: "v mod (2 * 2 ^ k) div 2 ^ k = v div 2 ^ k mod 2" "v mod (2 * 2 ^ k) mod 2 ^ k = v mod 2 ^ k" for v :: nat
    by (simp_all add: mod_mult2_eq mult.commute [of 2])
  show ?case
    using hilbert_loop_Suc [OF k(2) t, of d] Suc.IH [of x' y'] tt k(1) by (simp add: high)
qed


section \<open>Identifiers\<close>

definition zoom_base :: "nat \<Rightarrow> nat" where
  "zoom_base z = (4 ^ z - 1) div 3"

lemma zoom_base_Suc: "zoom_base (Suc z) = zoom_base z + 4 ^ z"
proof -
  have "(4 :: nat) ^ z mod 3 = 1" by (induction z) (simp_all add: mod_mult_right_eq [symmetric])
  then obtain c where "(4 :: nat) ^ z = 3 * c + 1" by (metis add.commute mult.commute div_mult_mod_eq)
  then show ?thesis by (simp add: zoom_base_def)
qed

lemma zoom_base_mono: "a < b \<Longrightarrow> zoom_base a + 4 ^ a \<le> zoom_base b"
proof (induction b)
  case (Suc b)
  then show ?case by (cases "a = b") (auto simp: zoom_base_Suc)
qed simp

lemma zoom_base_bound: "z < 32 \<Longrightarrow> zoom_base z + 4 ^ z < 2 ^ 64"
proof -
  assume "z < 32"
  then have "zoom_base z + 4 ^ z \<le> zoom_base 32" by (rule zoom_base_mono)
  also have "\<dots> < 2 ^ 64" by (simp add: zoom_base_def)
  finally show ?thesis .
qed

definition on_map :: "u8 \<Rightarrow> u32 \<Rightarrow> u32 \<Rightarrow> bool" where
  "on_map z x y \<longleftrightarrow> unat z < 32 \<and> unat x < 2 ^ unat z \<and> unat y < 2 ^ unat z"

lemma zxy_to_tile_id_eq:
  "zxy_to_tile_id z x y =
     (if on_map z x y then Ok (of_nat (zoom_base (unat z) + hilbert (unat z) (unat x, unat y)))
      else Err (Invalid ''tile coordinate outside Hilbert domain''))"
proof (cases "unat z < 32")
  case z: True
  then have "\<not> 31 < z" by (simp add: word_less_nat_alt)
  moreover have "push_bit (unat z) 1 \<le> v \<longleftrightarrow> \<not> unat v < 2 ^ unat z" for v :: u32
    using unat_pow2 [OF z] by (simp add: word_le_nat_alt not_less del: push_bit_of_1)
  moreover have "(push_bit (unat z * 2) 1 - 1) div 3 + hilbert_loop z (push_bit (unat (if z = 0 then 0 else z - 1)) 1) x y 0 =
      of_nat (zoom_base (unat z) + hilbert (unat z) (unat x, unat y))" if xy: "on_map z x y"
  proof -
    have p: "push_bit (unat z * 2) 1 = (of_nat (4 ^ unat z) :: u64)"
      by (simp add: push_bit_eq_mult mult.commute [of _ 2] power_mult)
    have "(4 :: nat) ^ unat z \<le> zoom_base (unat z) + 4 ^ unat z" by simp
    then have lt: "(4 :: nat) ^ unat z < 2 ^ 64" using zoom_base_bound [OF z] by linarith
    have "push_bit (unat z * 2) 1 - 1 = (of_nat (4 ^ unat z - 1) :: u64)" unfolding p by (subst of_nat_diff) simp_all
    then have base: "(push_bit (unat z * 2) 1 - 1 :: u64) div 3 = of_nat (zoom_base (unat z))"
      using lt by (simp add: word_unat_eq_iff unat_div zoom_base_def unat_of_nat take_bit_nat_eq_self
          less_imp_diff_less div_less_dividend del: of_nat_diff)
    show ?thesis
    proof (cases "z = 0")
      case True
      then have "x = 0" "y = 0" using xy by (auto simp: on_map_def unat_eq_0 less_one)
      then have "hilbert_loop z 1 x y 0 = 0" by (simp add: hilbert_loop.simps quadrant_def turn_quadrant_def)
      then show ?thesis using True base by simp
    next
      case False
      then have "unat (z - 1) = unat z - 1" "unat z \<noteq> 0" by (simp_all add: unat_minus_one unat_eq_0)
      then show ?thesis
        using hilbert_loop_hilbert [OF z order_refl, of x y 0] xy False base
        by (simp add: on_map_def del: push_bit_of_1)
    qed
  qed
  ultimately show ?thesis using z unfolding zxy_to_tile_id_def on_map_def by (auto simp: Let_def)
next
  case False
  then show ?thesis by (simp add: zxy_to_tile_id_def on_map_def word_less_nat_alt)
qed

lemma unat_tile_id:
  assumes "zxy_to_tile_id z x y = Ok i"
  shows "on_map z x y" "unat i = zoom_base (unat z) + hilbert (unat z) (unat x, unat y)"
    "hilbert (unat z) (unat x, unat y) < 4 ^ unat z"
proof -
  show m: "on_map z x y" using assms by (simp add: zxy_to_tile_id_eq split: if_splits)
  then show h: "hilbert (unat z) (unat x, unat y) < 4 ^ unat z" by (intro hilbert_less) (auto simp: on_map_def)
  with m zoom_base_bound [of "unat z"] have "zoom_base (unat z) + hilbert (unat z) (unat x, unat y) < 2 ^ 64"
    by (simp add: on_map_def)
  with assms m show "unat i = zoom_base (unat z) + hilbert (unat z) (unat x, unat y)"
    by (auto simp: zxy_to_tile_id_eq unat_of_nat take_bit_nat_eq_self simp del: of_nat_add)
qed

lemma tile_id_inj:
  assumes "zxy_to_tile_id z x y = Ok i" "zxy_to_tile_id z' x' y' = Ok i"
  shows "z = z' \<and> x = x' \<and> y = y'"
proof -
  note a = unat_tile_id [OF assms(1)] and b = unat_tile_id [OF assms(2)]
  have z: "unat z = unat z'"
    using zoom_base_mono [of "unat z" "unat z'"] zoom_base_mono [of "unat z'" "unat z"] a(2,3) b(2,3)
    by (cases rule: linorder_cases [of "unat z" "unat z'"]) linarith+
  then have "hilbert (unat z) (unat x, unat y) = hilbert (unat z) (unat x', unat y')" using a(2) b(2) by simp
  then have "(unat x, unat y) = (unat x', unat y')"
    using a(1) b(1) z by (intro inj_onD [OF hilbert_inj]) (auto simp: on_map_def)
  then show ?thesis using z by (simp add: word_unat_eq_iff)
qed

end
