(* ===== verification/Io_Receipt.thy ===== *)
theory Io_Receipt
  imports Storage Contract_Json
begin

text \<open>
  Evidence of reads (\<open>genegis-storage/src/io_receipt.rs\<close>): what was requested and received, the totals, and
  the checks of a receipt against a budget. The sum of the response sizes wraps, as in a release build.
\<close>

section \<open>Data\<close>

datatype cloud_format = Cog | GeoParquet | Copc | PmTiles | Wms | Wfs | Geocoding | LiveFeed

datatype io_selection =
    CogWindow u32 u32 u32 u32 u32
  | GeoParquetRowGroups "nat list" "(string \<times> string \<times> string \<times> string) option"
  | CopcHierarchyNodes "string list"
  | PmTilesTile u8 u32 u32
  | OgcCapabilities string string
  | WmsMap "string list" string "string \<times> string \<times> string \<times> string" u32 u32 string
  | WfsFeatures "string list" string "(string \<times> string \<times> string \<times> string) option" "u32 option"
  | GeocodingQueries u32 u32 string
  | LiveFeedWindow string u64 u32 string

record io_request =
  io_start :: u64
  io_end :: u64
  io_response_bytes :: u64
  io_http_status :: "16 word option"

record gpu_frame_metrics =
  gm_adapter :: string
  gm_backend :: string
  gm_upload_bytes :: u64
  gm_upload_ns :: u64
  gm_first_frame_ns :: u64
  gm_steady_state_fps :: f64

record io_receipt =
  ir_schema_version :: string
  ir_format :: cloud_format
  ir_object_digest :: string
  ir_object_bytes :: u64
  ir_logical_dataset_bytes :: u64
  ir_selection :: io_selection
  ir_requests :: "io_request list"
  ir_transferred_bytes :: u64
  ir_maximum_response_bytes :: u64
  ir_whole_object_fallback :: bool
  ir_decoded_items :: u64
  ir_elapsed_ns :: u64
  ir_peak_rss_bytes :: u64
  ir_gpu :: "gpu_frame_metrics option"

record io_budget =
  ib_minimum_object_bytes :: u64
  ib_minimum_logical_dataset_bytes :: u64
  ib_maximum_transfer_ratio :: f64
  ib_maximum_response_bytes :: u64
  ib_maximum_peak_rss_bytes :: u64
  ib_maximum_first_frame_ns :: u64
  ib_minimum_steady_state_fps :: f64
  ib_require_gpu :: bool

datatype io_budget_failure =
    ObjectTooSmall
  | LogicalDatasetTooSmall
  | BudgetWholeObjectFallback
  | TransferRatioExceeded
  | ResponseExceeded
  | PeakRssExceeded
  | FirstFrameExceeded
  | GpuMetricsMissing
  | InvalidGpuMetrics
  | SteadyStateFpsBelowMinimum
  | MalformedRequestEvidence

text \<open>The derived order: the order of declaration.\<close>

fun failure_rank :: "io_budget_failure \<Rightarrow> nat" where
  "failure_rank ObjectTooSmall = 0"
| "failure_rank LogicalDatasetTooSmall = 1"
| "failure_rank BudgetWholeObjectFallback = 2"
| "failure_rank TransferRatioExceeded = 3"
| "failure_rank ResponseExceeded = 4"
| "failure_rank PeakRssExceeded = 5"
| "failure_rank FirstFrameExceeded = 6"
| "failure_rank GpuMetricsMissing = 7"
| "failure_rank InvalidGpuMetrics = 8"
| "failure_rank SteadyStateFpsBelowMinimum = 9"
| "failure_rank MalformedRequestEvidence = 10"

lemma failure_rank_inj: "failure_rank a = failure_rank b \<Longrightarrow> a = b"
  by (cases a; cases b) simp_all

instantiation io_budget_failure :: linorder
begin

definition less_eq_io_budget_failure :: "io_budget_failure \<Rightarrow> io_budget_failure \<Rightarrow> bool" where
  "a \<le> b \<longleftrightarrow> failure_rank a \<le> failure_rank b"

definition less_io_budget_failure :: "io_budget_failure \<Rightarrow> io_budget_failure \<Rightarrow> bool" where
  "a < b \<longleftrightarrow> failure_rank a < failure_rank b"

instance
  by intro_classes (auto simp: less_eq_io_budget_failure_def less_io_budget_failure_def intro: failure_rank_inj)

end

section \<open>Receipts\<close>

definition io_receipt_new ::
  "cloud_format \<Rightarrow> string \<Rightarrow> u64 \<Rightarrow> u64 \<Rightarrow> io_selection \<Rightarrow> io_request list \<Rightarrow> bool \<Rightarrow> u64 \<Rightarrow> u64 \<Rightarrow> u64 \<Rightarrow>
   gpu_frame_metrics option \<Rightarrow> io_receipt" where
  "io_receipt_new format object_digest object_bytes logical_dataset_bytes selection requests
     whole_object_fallback decoded_items elapsed_ns peak_rss_bytes gpu =
   \<lparr>ir_schema_version = ''0.1.0'', ir_format = format, ir_object_digest = object_digest, ir_object_bytes = object_bytes,
    ir_logical_dataset_bytes = logical_dataset_bytes, ir_selection = selection, ir_requests = requests,
    ir_transferred_bytes = sum_list (map io_response_bytes requests),
    ir_maximum_response_bytes = fold max (map io_response_bytes requests) 0,
    ir_whole_object_fallback = whole_object_fallback, ir_decoded_items = decoded_items, ir_elapsed_ns = elapsed_ns,
    ir_peak_rss_bytes = peak_rss_bytes, ir_gpu = gpu\<rparr>"

definition f64_of_u64 :: "u64 \<Rightarrow> f64" where
  "f64_of_u64 v = f64_round False (of_nat (unat v))"

definition transfer_ratio :: "io_receipt \<Rightarrow> f64" where
  "transfer_ratio r = f64_div (f64_of_u64 (ir_transferred_bytes r)) (f64_of_u64 (max (ir_object_bytes r) 1))"

text \<open>The consistency demanded of every request.\<close>

definition malformed_request :: "u64 \<Rightarrow> io_request \<Rightarrow> bool" where
  "malformed_request maximum_response_bytes r \<longleftrightarrow>
     io_end r < io_start r \<or> io_response_bytes r \<noteq> io_end r - io_start r + 1 \<or>
     maximum_response_bytes < io_response_bytes r"

definition gpu_failures :: "gpu_frame_metrics option \<Rightarrow> io_budget \<Rightarrow> io_budget_failure list" where
  "gpu_failures gpu budget =
     (case gpu of
        Some gpu \<Rightarrow>
          (if ib_maximum_first_frame_ns budget < gm_first_frame_ns gpu then [FirstFrameExceeded] else []) @
          (if \<not> f64_is_finite (gm_steady_state_fps gpu) \<or> f64_le (gm_steady_state_fps gpu) (Fin 0) then [InvalidGpuMetrics]
           else if f64_lt (gm_steady_state_fps gpu) (ib_minimum_steady_state_fps budget) then [SteadyStateFpsBelowMinimum]
           else [])
      | None \<Rightarrow> if ib_require_gpu budget then [GpuMetricsMissing] else [])"

definition io_validate :: "io_receipt \<Rightarrow> io_budget \<Rightarrow> io_budget_failure list" where
  "io_validate r budget =
     (let failures =
        (if ir_object_bytes r < ib_minimum_object_bytes budget then [ObjectTooSmall] else []) @
        (if ir_logical_dataset_bytes r < ib_minimum_logical_dataset_bytes budget then [LogicalDatasetTooSmall] else []) @
        (if ir_whole_object_fallback r then [BudgetWholeObjectFallback] else []) @
        (if f64_lt (ib_maximum_transfer_ratio budget) (transfer_ratio r) then [TransferRatioExceeded] else []) @
        (if ib_maximum_response_bytes budget < ir_maximum_response_bytes r then [ResponseExceeded] else []) @
        (if ib_maximum_peak_rss_bytes budget < ir_peak_rss_bytes r then [PeakRssExceeded] else []) @
        gpu_failures (ir_gpu r) budget @
        (if list_ex (malformed_request (ib_maximum_response_bytes budget)) (ir_requests r)
         then [MalformedRequestEvidence] else [])
      in remdups_adj (sort failures))"

text \<open>The serialised receipt and its digest.\<close>

fun json_cloud_format :: "cloud_format \<Rightarrow> json" where
  "json_cloud_format Cog = JStr ''cog''"
| "json_cloud_format GeoParquet = JStr ''geo_parquet''"
| "json_cloud_format Copc = JStr ''copc''"
| "json_cloud_format PmTiles = JStr ''pm_tiles''"
| "json_cloud_format Wms = JStr ''wms''"
| "json_cloud_format Wfs = JStr ''wfs''"
| "json_cloud_format Geocoding = JStr ''geocoding''"
| "json_cloud_format LiveFeed = JStr ''live_feed''"

definition json_bbox_text :: "string \<times> string \<times> string \<times> string \<Rightarrow> json" where
  "json_bbox_text = (\<lambda>(a, b, c, d). JArr [JStr a, JStr b, JStr c, JStr d])"

fun json_selection :: "io_selection \<Rightarrow> json" where
  "json_selection (CogWindow level row_offset column_offset rows columns) = jobj
     [(''kind'', JStr ''cog_window''), (''level'', json_u32 level), (''row_offset'', json_u32 row_offset),
      (''column_offset'', json_u32 column_offset), (''rows'', json_u32 rows), (''columns'', json_u32 columns)]"
| "json_selection (GeoParquetRowGroups row_groups bbox) = jobj
     [(''kind'', JStr ''geo_parquet_row_groups''), (''row_groups'', JArr (map (\<lambda>n. JInt (int n)) row_groups)),
      (''bbox'', json_opt json_bbox_text bbox)]"
| "json_selection (CopcHierarchyNodes node_keys) = jobj
     [(''kind'', JStr ''copc_hierarchy_nodes''), (''node_keys'', JArr (map JStr node_keys))]"
| "json_selection (PmTilesTile z x y) = jobj
     [(''kind'', JStr ''pm_tiles_tile''), (''z'', JInt (uint z)), (''x'', json_u32 x), (''y'', json_u32 y)]"
| "json_selection (OgcCapabilities service version) = jobj
     [(''kind'', JStr ''ogc_capabilities''), (''service'', JStr service), (''version'', JStr version)]"
| "json_selection (WmsMap layers crs bbox width height format) = jobj
     [(''kind'', JStr ''wms_map''), (''layers'', JArr (map JStr layers)), (''crs'', JStr crs), (''bbox'', json_bbox_text bbox),
      (''width'', json_u32 width), (''height'', json_u32 height), (''format'', JStr format)]"
| "json_selection (WfsFeatures type_names crs bbox count) = jobj
     [(''kind'', JStr ''wfs_features''), (''type_names'', JArr (map JStr type_names)), (''crs'', JStr crs),
      (''bbox'', json_opt json_bbox_text bbox), (''count'', json_opt json_u32 count)]"
| "json_selection (GeocodingQueries query_count max_candidates language) = jobj
     [(''kind'', JStr ''geocoding_queries''), (''query_count'', json_u32 query_count),
      (''max_candidates'', json_u32 max_candidates), (''language'', JStr language)]"
| "json_selection (LiveFeedWindow domain after_cursor limit watermark) = jobj
     [(''kind'', JStr ''live_feed_window''), (''domain'', JStr domain), (''after_cursor'', json_u64 after_cursor),
      (''limit'', json_u32 limit), (''watermark'', JStr watermark)]"

definition json_request :: "io_request \<Rightarrow> json" where
  "json_request r = jobj
     ([(''start'', json_u64 (io_start r)), (''end'', json_u64 (io_end r)),
       (''response_bytes'', json_u64 (io_response_bytes r))] @
      skip_none ''http_status'' (\<lambda>s. JInt (uint s)) (io_http_status r))"

definition json_gpu :: "gpu_frame_metrics \<Rightarrow> json" where
  "json_gpu g = jobj
     [(''adapter'', JStr (gm_adapter g)), (''backend'', JStr (gm_backend g)), (''upload_bytes'', json_u64 (gm_upload_bytes g)),
      (''upload_ns'', json_u64 (gm_upload_ns g)), (''first_frame_ns'', json_u64 (gm_first_frame_ns g)),
      (''steady_state_fps'', json_f64 (gm_steady_state_fps g))]"

definition json_io_receipt :: "io_receipt \<Rightarrow> json" where
  "json_io_receipt r = jobj
     ([(''schema_version'', JStr (ir_schema_version r)), (''format'', json_cloud_format (ir_format r)),
       (''object_digest'', JStr (ir_object_digest r)), (''object_bytes'', json_u64 (ir_object_bytes r)),
       (''logical_dataset_bytes'', json_u64 (ir_logical_dataset_bytes r)), (''selection'', json_selection (ir_selection r)),
       (''requests'', JArr (map json_request (ir_requests r))), (''transferred_bytes'', json_u64 (ir_transferred_bytes r)),
       (''maximum_response_bytes'', json_u64 (ir_maximum_response_bytes r)),
       (''whole_object_fallback'', JBool (ir_whole_object_fallback r)), (''decoded_items'', json_u64 (ir_decoded_items r)),
       (''elapsed_ns'', json_u64 (ir_elapsed_ns r)), (''peak_rss_bytes'', json_u64 (ir_peak_rss_bytes r))] @
      skip_none ''gpu'' json_gpu (ir_gpu r))"

definition io_receipt_digest :: "to_string \<Rightarrow> sha256 \<Rightarrow> io_receipt \<Rightarrow> string" where
  "io_receipt_digest ts sha r = digest_json ts sha (json_io_receipt r)"

definition summary_json :: "asset_fetch_result \<Rightarrow> json" where
  "summary_json a = jobj
     [(''uri'', JStr (af_uri a)), (''range'', json_opt (\<lambda>r. JStr (header_value r)) (af_range a)),
      (''byte_len'', JInt (int (af_byte_len a))), (''status'', json_opt (\<lambda>s. JInt (uint s)) (af_status a)),
      (''content_range'', json_opt JStr (af_content_range a))]"

definition phase_12_full :: "bool \<Rightarrow> io_budget" where
  "phase_12_full require_gpu =
     \<lparr>ib_minimum_object_bytes = 256 * 1024 * 1024, ib_minimum_logical_dataset_bytes = 1024 * 1024 * 1024,
      ib_maximum_transfer_ratio = f64_lit (2 / 10), ib_maximum_response_bytes = 8 * 1024 * 1024,
      ib_maximum_peak_rss_bytes = 1024 * 1024 * 1024, ib_maximum_first_frame_ns = 2000000000,
      ib_minimum_steady_state_fps = Fin 30, ib_require_gpu = require_gpu\<rparr>"

definition io_budget_ci :: "bool \<Rightarrow> io_budget" where
  "io_budget_ci require_gpu = (phase_12_full require_gpu)\<lparr>ib_minimum_object_bytes := 1, ib_minimum_logical_dataset_bytes := 1\<rparr>"

section \<open>What a budget demands\<close>

definition failure_holds :: "io_receipt \<Rightarrow> io_budget \<Rightarrow> io_budget_failure \<Rightarrow> bool" where
  "failure_holds r b f = (case f of
      ObjectTooSmall \<Rightarrow> ir_object_bytes r < ib_minimum_object_bytes b
    | LogicalDatasetTooSmall \<Rightarrow> ir_logical_dataset_bytes r < ib_minimum_logical_dataset_bytes b
    | BudgetWholeObjectFallback \<Rightarrow> ir_whole_object_fallback r
    | TransferRatioExceeded \<Rightarrow> f64_lt (ib_maximum_transfer_ratio b) (transfer_ratio r)
    | ResponseExceeded \<Rightarrow> ib_maximum_response_bytes b < ir_maximum_response_bytes r
    | PeakRssExceeded \<Rightarrow> ib_maximum_peak_rss_bytes b < ir_peak_rss_bytes r
    | FirstFrameExceeded \<Rightarrow> (\<exists>g. ir_gpu r = Some g \<and> ib_maximum_first_frame_ns b < gm_first_frame_ns g)
    | GpuMetricsMissing \<Rightarrow> ir_gpu r = None \<and> ib_require_gpu b
    | InvalidGpuMetrics \<Rightarrow> (\<exists>g. ir_gpu r = Some g \<and>
        \<not> (f64_is_finite (gm_steady_state_fps g) \<and> f64_lt (Fin 0) (gm_steady_state_fps g)))
    | SteadyStateFpsBelowMinimum \<Rightarrow> (\<exists>g. ir_gpu r = Some g \<and> f64_is_finite (gm_steady_state_fps g) \<and>
        f64_lt (Fin 0) (gm_steady_state_fps g) \<and> f64_lt (gm_steady_state_fps g) (ib_minimum_steady_state_fps b))
    | MalformedRequestEvidence \<Rightarrow> (\<exists>q \<in> set (ir_requests r). malformed_request (ib_maximum_response_bytes b) q))"

lemma finite_pos: "f64_is_finite x \<Longrightarrow> f64_lt (Fin 0) x \<longleftrightarrow> \<not> f64_le x (Fin 0)"
  by (cases x) (auto simp: f64_le_def f64_lt_def)

lemma gpu_failures_holds:
  "set (gpu_failures (ir_gpu r) b) =
     {f \<in> {FirstFrameExceeded, GpuMetricsMissing, InvalidGpuMetrics, SteadyStateFpsBelowMinimum}. failure_holds r b f}"
  by (cases "ir_gpu r") (auto simp: gpu_failures_def failure_holds_def finite_pos)

lemma distinct_sorted_remdups_adj: "sorted xs \<Longrightarrow> distinct (remdups_adj xs)"
  by (induction xs rule: remdups_adj.induct) (auto simp: less_le)

lemma io_validate_set: "set (io_validate r b) = {f. failure_holds r b f}"
proof (rule set_eqI)
  fix f
  show "f \<in> set (io_validate r b) \<longleftrightarrow> f \<in> {f. failure_holds r b f}"
    by (cases f) (simp_all add: io_validate_def gpu_failures_holds, simp_all add: failure_holds_def list_ex_iff)
qed

text \<open>The budget check reports exactly the limits that a receipt breaks, each once and in the order of their
  declaration; so the list is empty exactly when every limit is kept.\<close>

theorem io_validate_exact:
  "set (io_validate r b) = {f. failure_holds r b f} \<and> sorted (io_validate r b) \<and> distinct (io_validate r b)"
  by (simp add: io_validate_set) (simp add: io_validate_def Let_def distinct_sorted_remdups_adj)

end
