(* ===== verification/Pmtiles.thy ===== *)
theory Pmtiles
  imports Tile_Id Io_Receipt "HOL-Library.Sublist"
begin

text \<open>
  PMTiles v3 archives (\<open>genegis-tile/src/pmtiles.rs\<close>): the header, the directory, single tile reads by
  byte ranges and the archive writer. Bytes are lists of 8-bit words, offsets and lengths 64-bit words.
  The gzip coder and decoder (the \<open>flate2\<close> crate) are the fields of \<open>gzip_codec\<close>. The unchecked sum of a
  tile identifier and a run length wraps, as in a release build.
\<close>

definition HEADER_BYTES :: u64 where "HEADER_BYTES = 127"
definition ROOT_DIRECTORY_LIMIT :: u64 where "ROOT_DIRECTORY_LIMIT = 16384"
definition MAX_DIRECTORY_BYTES :: u64 where "MAX_DIRECTORY_BYTES = 16 * 1024 * 1024"

section \<open>Data\<close>

record pmtiles_header =
  ph_version :: u8
  ph_root_directory_offset :: u64
  ph_root_directory_length :: u64
  ph_leaf_directory_offset :: u64
  ph_leaf_directory_length :: u64
  ph_tile_data_offset :: u64
  ph_tile_data_length :: u64
  ph_addressed_tiles :: u64
  ph_internal_compression :: u8
  ph_tile_compression :: u8
  ph_tile_type :: u8
  ph_minimum_zoom :: u8
  ph_maximum_zoom :: u8

record tile_read =
  tr_header :: pmtiles_header
  tr_z :: u8
  tr_x :: u32
  tr_y :: u32
  tr_tile_id :: u64
  tr_bytes :: "u8 list"
  tr_object_bytes :: u64
  tr_requests :: "io_request list"

record directory_entry =
  de_tile_id :: u64
  de_offset :: u64
  de_length :: u64
  de_run_length :: u64

record gzip_codec =
  gz_encode :: "u8 list \<Rightarrow> string + u8 list"
  gz_decode :: "nat \<Rightarrow> u8 list \<Rightarrow> string + u8 list"

definition checked_add :: "u64 \<Rightarrow> u64 \<Rightarrow> u64 option" where
  "checked_add a b = (if unat a + unat b < 2 ^ 64 then Some (a + b) else None)"

section \<open>Ranges\<close>

definition fetch_range ::
  "byte_files \<Rightarrow> network \<Rightarrow> string \<Rightarrow> byte_range \<Rightarrow> pmtiles_error + u8 list \<times> 16 word option" where
  "fetch_range fs net uri rng =
     (if is_remote_uri uri then
        and_then (map_err StorageFailed (fetch_http_range net uri rng)) (\<lambda>response.
        if hf_status response \<noteq> 206 then Err (WholeObjectFallback (hf_status response))
        else Ok (hf_bytes response, Some (hf_status response)))
      else map_ok (\<lambda>bytes. (bytes, None)) (map_err StorageFailed (read_local_range fs uri rng)))"

definition read_exact_range ::
  "byte_files \<Rightarrow> network \<Rightarrow> string \<Rightarrow> u64 \<Rightarrow> u64 \<Rightarrow> io_request list \<Rightarrow> pmtiles_error + u8 list \<times> io_request list" where
  "read_exact_range fs net uri start len requests =
     (if len = 0 \<or> MAX_DIRECTORY_BYTES < len
      then Err (Invalid (''range length '' @ show_nat (unat len) @ '' is zero or exceeds '' @
        show_nat (unat MAX_DIRECTORY_BYTES)))
      else and_then (ok_or (checked_add start (len - 1)) (Invalid ''range overflow'')) (\<lambda>stop.
      and_then (map_err StorageFailed (byte_range_new start stop)) (\<lambda>rng.
      and_then (fetch_range fs net uri rng) (\<lambda>(bytes, status).
      if of_nat (length bytes) \<noteq> len
      then Err (Invalid (''range length mismatch: requested '' @ show_nat (unat len) @ '', got '' @
        show_nat (length bytes)))
      else Ok (bytes, requests @ [\<lparr>io_start = start, io_end = stop,
        io_response_bytes = of_nat (length bytes), io_http_status = status\<rparr>])))))"

section \<open>Header\<close>

definition u64_at :: "u8 list \<Rightarrow> nat \<Rightarrow> u64" where
  "u64_at bytes offset = from_le_bytes (take 8 (drop offset bytes))"

definition invalid_section :: "u64 \<Rightarrow> u64 \<Rightarrow> u64 \<Rightarrow> bool" where
  "invalid_section offset len limit =
     (case checked_add offset len of Some stop \<Rightarrow> limit < stop | None \<Rightarrow> True)"

definition magic :: "u8 list" where
  "magic = map (\<lambda>c. of_nat (of_char c)) ''PMTiles''"

definition parse_header :: "u8 list \<Rightarrow> u64 \<Rightarrow> pmtiles_error + pmtiles_header" where
  "parse_header bytes object_bytes =
     (if length bytes \<noteq> unat HEADER_BYTES \<or> take 7 bytes \<noteq> magic \<or> bytes ! 7 \<noteq> 3
      then Err (Invalid ''magic, length, or version mismatch'')
      else
        let header = \<lparr>ph_version = bytes ! 7,
              ph_root_directory_offset = u64_at bytes 8, ph_root_directory_length = u64_at bytes 16,
              ph_leaf_directory_offset = u64_at bytes 40, ph_leaf_directory_length = u64_at bytes 48,
              ph_tile_data_offset = u64_at bytes 56, ph_tile_data_length = u64_at bytes 64,
              ph_addressed_tiles = u64_at bytes 72, ph_internal_compression = bytes ! 97,
              ph_tile_compression = bytes ! 98, ph_tile_type = bytes ! 99,
              ph_minimum_zoom = bytes ! 100, ph_maximum_zoom = bytes ! 101\<rparr>
        in if ph_root_directory_offset header < HEADER_BYTES \<or>
              invalid_section (ph_root_directory_offset header) (ph_root_directory_length header) ROOT_DIRECTORY_LIMIT \<or>
              ph_maximum_zoom header < ph_minimum_zoom header \<or>
              invalid_section (ph_tile_data_offset header) (ph_tile_data_length header) object_bytes \<or>
              invalid_section (ph_leaf_directory_offset header) (ph_leaf_directory_length header) object_bytes \<or>
              invalid_section (ph_root_directory_offset header) (ph_root_directory_length header) object_bytes
           then Err (Invalid ''section bounds, root latency limit, or zoom range are invalid'')
           else Ok header)"

section \<open>Payloads\<close>

definition decode_payload :: "gzip_codec \<Rightarrow> u8 list \<Rightarrow> u8 \<Rightarrow> string \<Rightarrow> pmtiles_error + u8 list" where
  "decode_payload gz bytes compression section_name =
     (if compression = 1 then Ok bytes
      else if compression = 2 then
        and_then (map_err (\<lambda>e. Invalid (''gzip '' @ section_name @ '': '' @ e))
          (gz_decode gz (unat (MAX_DIRECTORY_BYTES + 1)) bytes)) (\<lambda>out.
        if unat MAX_DIRECTORY_BYTES < length out
        then Err (Invalid (section_name @ '' decompression budget exceeded''))
        else Ok out)
      else Err (UnsupportedCompression compression))"

definition decode_tile_payload :: "gzip_codec \<Rightarrow> u8 list \<Rightarrow> u8 \<Rightarrow> pmtiles_error + u8 list" where
  "decode_tile_payload gz bytes tile_compression = decode_payload gz bytes tile_compression ''tile''"

definition gzip :: "gzip_codec \<Rightarrow> u8 list \<Rightarrow> pmtiles_error + u8 list" where
  "gzip gz bytes = map_err GzipFailed (gz_encode gz bytes)"

definition encode_payload :: "gzip_codec \<Rightarrow> u8 list \<Rightarrow> u8 \<Rightarrow> pmtiles_error + u8 list" where
  "encode_payload gz bytes compression =
     (if compression = 1 then Ok bytes else if compression = 2 then gzip gz bytes
      else Err (UnsupportedCompression compression))"

section \<open>Directories\<close>

fun varint_failure :: "varint_error \<Rightarrow> pmtiles_error" where
  "varint_failure TruncatedVarint = Invalid ''truncated varint''"
| "varint_failure VarintOverflow = Invalid ''varint overflow''"

text \<open>A loop over the entries that reads one integer per entry.\<close>

definition read_each ::
  "u8 list \<Rightarrow> ('s \<Rightarrow> nat \<Rightarrow> u64 \<Rightarrow> pmtiles_error + 's) \<Rightarrow> nat \<Rightarrow> 's \<Rightarrow> nat \<Rightarrow> pmtiles_error + 's \<times> nat" where
  "read_each bytes f count s cursor =
     try_fold (\<lambda>(s, cursor) i. and_then (map_err varint_failure (read_varint bytes cursor))
       (\<lambda>(v, cursor). map_ok (\<lambda>s. (s, cursor)) (f s i v))) (s, cursor) [0..<count]"

definition set_tile_id ::
  "directory_entry list \<times> u64 \<Rightarrow> nat \<Rightarrow> u64 \<Rightarrow> pmtiles_error + directory_entry list \<times> u64" where
  "set_tile_id = (\<lambda>(entries, last_id) i v.
     map_ok (\<lambda>last_id. (entries[i := (entries ! i)\<lparr>de_tile_id := last_id\<rparr>], last_id))
       (ok_or (checked_add last_id v) (Invalid ''tile ID overflow'')))"

definition set_run_length :: "directory_entry list \<Rightarrow> nat \<Rightarrow> u64 \<Rightarrow> pmtiles_error + directory_entry list" where
  "set_run_length entries i v = Ok (entries[i := (entries ! i)\<lparr>de_run_length := v\<rparr>])"

definition set_length :: "directory_entry list \<Rightarrow> nat \<Rightarrow> u64 \<Rightarrow> pmtiles_error + directory_entry list" where
  "set_length entries i v =
     (if v = 0 then Err (Invalid ''zero directory length'')
      else Ok (entries[i := (entries ! i)\<lparr>de_length := v\<rparr>]))"

definition set_offset :: "directory_entry list \<Rightarrow> nat \<Rightarrow> u64 \<Rightarrow> pmtiles_error + directory_entry list" where
  "set_offset entries i encoded =
     map_ok (\<lambda>offset. entries[i := (entries ! i)\<lparr>de_offset := offset\<rparr>])
       (if encoded = 0 \<and> 0 < i then
          ok_or (checked_add (de_offset (entries ! (i - 1))) (de_length (entries ! (i - 1))))
            (Invalid ''directory offset overflow'')
        else if 0 < encoded then Ok (encoded - 1)
        else Err (Invalid ''first directory offset cannot use zero sentinel''))"

definition decode_directory :: "gzip_codec \<Rightarrow> u8 list \<Rightarrow> u8 \<Rightarrow> pmtiles_error + directory_entry list" where
  "decode_directory gz bytes compression =
     and_then (decode_payload gz bytes compression ''directory'') (\<lambda>decoded.
     and_then (map_err varint_failure (read_varint decoded 0)) (\<lambda>(count, cursor).
     let count = unat count in
     if count = 0 \<or> 1000000 < count then Err (Invalid ''directory entry count is invalid'')
     else
     let entries = replicate count \<lparr>de_tile_id = 0, de_offset = 0, de_length = 0, de_run_length = 0\<rparr> in
     and_then (read_each decoded set_tile_id count (entries, 0) cursor) (\<lambda>((entries, _), cursor).
     and_then (read_each decoded set_run_length count entries cursor) (\<lambda>(entries, cursor).
     and_then (read_each decoded set_length count entries cursor) (\<lambda>(entries, cursor).
     and_then (read_each decoded set_offset count entries cursor) (\<lambda>(entries, cursor).
     if cursor \<noteq> length decoded then Err (Invalid ''trailing directory bytes'') else Ok entries))))))"

definition find_entry :: "directory_entry list \<Rightarrow> u64 \<Rightarrow> directory_entry option" where
  "find_entry entries tile_id =
     (case takeWhile (\<lambda>entry. de_tile_id entry \<le> tile_id) entries of
        [] \<Rightarrow> None
      | es \<Rightarrow> Some (last es))"

section \<open>Reading one tile\<close>

definition object_length :: "byte_files \<Rightarrow> network \<Rightarrow> string \<Rightarrow> pmtiles_error + u64" where
  "object_length fs net uri =
     (if is_remote_uri uri then map_err StorageFailed (probe_http_content_length net uri)
      else case fs uri of None \<Rightarrow> Err (IoFailed OpenFailed) | Some bytes \<Rightarrow> Ok (of_nat (length bytes)))"

definition find_tile ::
  "gzip_codec \<Rightarrow> byte_files \<Rightarrow> network \<Rightarrow> string \<Rightarrow> pmtiles_header \<Rightarrow> pmtiles_error \<Rightarrow> u64 \<Rightarrow> directory_entry \<Rightarrow>
   io_request list \<Rightarrow> pmtiles_error + directory_entry \<times> io_request list" where
  "find_tile gz fs net uri header missing tile_id selected requests =
     (if de_run_length selected = 0 then
        and_then (ok_or (checked_add (ph_leaf_directory_offset header) (de_offset selected))
          (Invalid ''leaf offset overflow'')) (\<lambda>start.
        and_then (read_exact_range fs net uri start (de_length selected) requests) (\<lambda>(leaf_bytes, requests).
        and_then (decode_directory gz leaf_bytes (ph_internal_compression header)) (\<lambda>leaf.
        and_then (ok_or (case find_entry leaf tile_id of
            None \<Rightarrow> None
          | Some entry \<Rightarrow> if 0 < de_run_length entry then Some entry else None) missing) (\<lambda>entry.
          Ok (entry, requests)))))
      else Ok (selected, requests))"

definition read_pmtiles_tile ::
  "gzip_codec \<Rightarrow> byte_files \<Rightarrow> network \<Rightarrow> string \<Rightarrow> u8 \<Rightarrow> u32 \<Rightarrow> u32 \<Rightarrow> pmtiles_error + tile_read" where
  "read_pmtiles_tile gz fs net uri z x y =
     and_then (object_length fs net uri) (\<lambda>object_bytes.
     and_then (read_exact_range fs net uri 0 HEADER_BYTES []) (\<lambda>(header_bytes, requests).
     and_then (parse_header header_bytes object_bytes) (\<lambda>header.
     let dimension = (if z < 32 then push_bit (unat z) 1 else 0); missing = TileNotFound z x y in
     if z < ph_minimum_zoom header \<or> ph_maximum_zoom header < z \<or> dimension \<le> x \<or> dimension \<le> y then Err missing
     else
     and_then (zxy_to_tile_id z x y) (\<lambda>tile_id.
     and_then (read_exact_range fs net uri (ph_root_directory_offset header) (ph_root_directory_length header) requests)
       (\<lambda>(root_bytes, requests).
     and_then (decode_directory gz root_bytes (ph_internal_compression header)) (\<lambda>root.
     and_then (ok_or (find_entry root tile_id) missing) (\<lambda>selected.
     and_then (find_tile gz fs net uri header missing tile_id selected requests) (\<lambda>(entry, requests).
     if tile_id < de_tile_id entry \<or> de_tile_id entry + de_run_length entry \<le> tile_id then Err missing
     else
     and_then (ok_or (checked_add (ph_tile_data_offset header) (de_offset entry)) (Invalid ''tile offset overflow'')) (\<lambda>start.
     and_then (read_exact_range fs net uri start (de_length entry) requests) (\<lambda>(bytes, requests).
       Ok \<lparr>tr_header = header, tr_z = z, tr_x = x, tr_y = y, tr_tile_id = tile_id, tr_bytes = bytes,
           tr_object_bytes = object_bytes, tr_requests = requests\<rparr>))))))))))"

section \<open>Writing an archive\<close>

record tile_entry =
  te_z :: u8
  te_x :: u32
  te_y :: u32
  te_bytes :: "u8 list"

record write_options =
  wo_metadata_json :: string
  wo_compress_tiles :: bool

record write_receipt =
  wr_object_bytes :: u64
  wr_addressed_tiles :: u64
  wr_entry_count :: u64
  wr_internal_compression :: u8
  wr_tile_compression :: u8
  wr_minimum_zoom :: u8
  wr_maximum_zoom :: u8

record archive_layout =
  al_root_length :: u64
  al_metadata_length :: u64
  al_tile_data_offset :: u64
  al_tile_data_length :: u64
  al_addressed_tiles :: u64
  al_minimum_zoom :: u8
  al_maximum_zoom :: u8

definition write_options_compressed :: "string \<Rightarrow> write_options" where
  "write_options_compressed metadata_json = \<lparr>wo_metadata_json = metadata_json, wo_compress_tiles = True\<rparr>"

definition identify_tile :: "tile_entry \<Rightarrow> pmtiles_error + u64 \<times> u8 list" where
  "identify_tile entry =
     (if te_bytes entry = []
      then Err (Invalid (''tile '' @ show_nat (unat (te_z entry)) @ ''/'' @ show_nat (unat (te_x entry)) @ ''/'' @
        show_nat (unat (te_y entry)) @ '' has empty payload''))
      else map_ok (\<lambda>tile_id. (tile_id, te_bytes entry)) (zxy_to_tile_id (te_z entry) (te_x entry) (te_y entry)))"

fun has_duplicate :: "(u64 \<times> u8 list) list \<Rightarrow> bool" where
  "has_duplicate ((i, _) # (j, b) # rest) = (i = j \<or> has_duplicate ((j, b) # rest))"
| "has_duplicate _ = False"

definition place_tile ::
  "gzip_codec \<Rightarrow> u8 \<Rightarrow> (u64 \<times> u8 list) list \<times> directory_entry list \<times> u64 \<Rightarrow> u64 \<times> u8 list \<Rightarrow>
   pmtiles_error + (u64 \<times> u8 list) list \<times> directory_entry list \<times> u64" where
  "place_tile gz tile_compression = (\<lambda>(payloads, directory, offset) (tile_id, bytes).
     map_ok (\<lambda>encoded.
       let len = of_nat (length encoded) in
       (payloads @ [(tile_id, encoded)],
        directory @ [\<lparr>de_tile_id = tile_id, de_offset = offset, de_length = len, de_run_length = 1\<rparr>],
        offset + len))
       (encode_payload gz bytes tile_compression))"

definition offset_code :: "directory_entry list \<Rightarrow> nat \<Rightarrow> u64" where
  "offset_code entries i =
     (if i = 0 then de_offset (entries ! i) + 1
      else if de_offset (entries ! (i - 1)) + de_length (entries ! (i - 1)) = de_offset (entries ! i) then 0
      else de_offset (entries ! i) + 1)"

fun push_tile_ids :: "u8 list \<Rightarrow> u64 \<Rightarrow> directory_entry list \<Rightarrow> u8 list" where
  "push_tile_ids buffer last_id [] = buffer"
| "push_tile_ids buffer last_id (entry # entries) =
     push_tile_ids (push_varint buffer (de_tile_id entry - last_id)) (de_tile_id entry) entries"

definition encode_directory :: "directory_entry list \<Rightarrow> u8 list" where
  "encode_directory entries =
     (let buffer = push_varint [] (of_nat (length entries));
          buffer = push_tile_ids buffer 0 entries;
          buffer = foldl (\<lambda>buffer entry. push_varint buffer (de_run_length entry)) buffer entries;
          buffer = foldl (\<lambda>buffer entry. push_varint buffer (de_length entry)) buffer entries
      in foldl (\<lambda>buffer i. push_varint buffer (offset_code entries i)) buffer [0..<length entries])"

definition put_at :: "nat \<Rightarrow> u8 list \<Rightarrow> u8 list \<Rightarrow> u8 list" where
  "put_at offset bs header = take offset header @ bs @ drop (offset + length bs) header"

definition build_header :: "archive_layout \<Rightarrow> u8 \<Rightarrow> u8 list" where
  "build_header layout tile_compression =
     (let header = replicate 127 0;
          header = put_at 0 magic header;
          header = header[7 := 3];
          header = put_at 8 (to_le_bytes HEADER_BYTES) header;
          header = put_at 16 (to_le_bytes (al_root_length layout)) header;
          header = put_at 24 (to_le_bytes (HEADER_BYTES + al_root_length layout)) header;
          header = put_at 32 (to_le_bytes (al_metadata_length layout)) header;
          header = put_at 40 (to_le_bytes 0) header;
          header = put_at 48 (to_le_bytes 0) header;
          header = put_at 56 (to_le_bytes (al_tile_data_offset layout)) header;
          header = put_at 64 (to_le_bytes (al_tile_data_length layout)) header;
          header = put_at 72 (to_le_bytes (al_addressed_tiles layout)) header;
          header = put_at 80 (to_le_bytes (al_addressed_tiles layout)) header;
          header = put_at 88 (to_le_bytes (al_addressed_tiles layout)) header;
          header = header[96 := 1];
          header = header[97 := 2];
          header = header[98 := tile_compression];
          header = header[99 := 1];
          header = header[100 := al_minimum_zoom layout];
          header = header[101 := al_maximum_zoom layout]
      in header)"

definition bytes_of_string :: "string \<Rightarrow> u8 list" where
  "bytes_of_string s = map (\<lambda>c. of_nat (of_char c)) s"

definition assemble ::
  "gzip_codec \<Rightarrow> tile_entry list \<Rightarrow> write_options \<Rightarrow> pmtiles_error + u8 list \<times> write_receipt" where
  "assemble gz entries options =
     (if entries = [] then Err (Invalid ''archive requires at least one tile entry'')
      else
      and_then (try_fold (\<lambda>acc entry. map_ok (\<lambda>t. acc @ [t]) (identify_tile entry)) [] entries) (\<lambda>tiles.
      let sorted = sort_key fst tiles in
      if has_duplicate sorted then Err (Invalid ''duplicate tile identity in write request'')
      else
      let tile_compression = (if wo_compress_tiles options then 2 else 1) in
      and_then (try_fold (place_tile gz tile_compression) ([], [], 0) sorted) (\<lambda>(payloads, directory, offset).
      and_then (gzip gz (encode_directory directory)) (\<lambda>root_directory.
      and_then (gzip gz (bytes_of_string (wo_metadata_json options))) (\<lambda>metadata_bytes.
      let encoded_tiles = concat (map snd payloads);
          root_directory_offset = HEADER_BYTES;
          json_metadata_offset = root_directory_offset + of_nat (length root_directory);
          tile_data_offset = json_metadata_offset + of_nat (length metadata_bytes);
          addressed_tiles = of_nat (length directory);
          minimum_zoom = fold min (map te_z (tl entries)) (te_z (hd entries));
          maximum_zoom = fold max (map te_z (tl entries)) (te_z (hd entries));
          layout = \<lparr>al_root_length = of_nat (length root_directory),
            al_metadata_length = of_nat (length metadata_bytes), al_tile_data_offset = tile_data_offset,
            al_tile_data_length = of_nat (length encoded_tiles), al_addressed_tiles = addressed_tiles,
            al_minimum_zoom = minimum_zoom, al_maximum_zoom = maximum_zoom\<rparr>;
          archive = build_header layout tile_compression @ root_directory @ metadata_bytes @ encoded_tiles
      in Ok (archive, \<lparr>wr_object_bytes = of_nat (length archive), wr_addressed_tiles = addressed_tiles,
        wr_entry_count = of_nat (length directory), wr_internal_compression = 2,
        wr_tile_compression = tile_compression, wr_minimum_zoom = minimum_zoom,
        wr_maximum_zoom = maximum_zoom\<rparr>))))))"

text \<open>\<open>std::fs::write\<close>: a path that cannot be opened is left alone, a write that fails later leaves the bytes
  written so far.\<close>

datatype write_outcome = Written | NotOpened | Interrupted nat

fun fs_write :: "write_outcome \<Rightarrow> string \<Rightarrow> u8 list \<Rightarrow> byte_files \<Rightarrow> (pmtiles_error + unit) \<times> byte_files" where
  "fs_write Written path bytes fs = (Ok (), fs(path \<mapsto> bytes))"
| "fs_write NotOpened path bytes fs = (Err (IoFailed WriteFailed), fs)"
| "fs_write (Interrupted n) path bytes fs = (Err (IoFailed WriteFailed), fs(path \<mapsto> take n bytes))"

definition write_pmtiles_archive ::
  "gzip_codec \<Rightarrow> write_outcome \<Rightarrow> string \<Rightarrow> tile_entry list \<Rightarrow> write_options \<Rightarrow> byte_files \<Rightarrow>
   (pmtiles_error + write_receipt) \<times> byte_files" where
  "write_pmtiles_archive gz outcome path entries options fs =
     (case assemble gz entries options of
        Inl e \<Rightarrow> (Err e, fs)
      | Inr (archive, receipt) \<Rightarrow>
          let (written, fs) = fs_write outcome path archive fs in (map_ok (\<lambda>_. receipt) written, fs))"

end
