(* ===== verification/Pmtiles_Directory.thy ===== *)
theory Pmtiles_Directory
  imports Pmtiles
begin

text \<open>
  Directories of PMTiles archives: decoding the encoded directory gives its entries back, and looking up
  the identifier of an entry finds that entry.
\<close>

section \<open>The encoded directory as a sequence of integers\<close>

abbreviation varints :: "u64 list \<Rightarrow> u8 list" where
  "varints vs \<equiv> concat (map (push_varint []) vs)"

fun deltas :: "u64 \<Rightarrow> directory_entry list \<Rightarrow> u64 list" where
  "deltas last_id [] = []"
| "deltas last_id (e # es) = (de_tile_id e - last_id) # deltas (de_tile_id e) es"

definition offset_codes :: "directory_entry list \<Rightarrow> u64 list" where
  "offset_codes es = map (offset_code es) [0..<length es]"

lemma length_deltas [simp]: "length (deltas l es) = length es"
  by (induction l es rule: deltas.induct) auto

lemma push_tile_ids_varints: "push_tile_ids buffer l es = buffer @ varints (deltas l es)"
proof (induction buffer l es rule: push_tile_ids.induct)
  case (2 buffer l e es)
  then show ?case using push_varint_append [of buffer "de_tile_id e - l"] by simp
qed simp

lemma foldl_push_varint: "foldl (\<lambda>buffer x. push_varint buffer (f x)) buffer xs = buffer @ varints (map f xs)"
proof (induction xs arbitrary: buffer)
  case (Cons x xs)
  then show ?case using push_varint_append [of buffer "f x"] by simp
qed simp

lemma encode_directory_varints:
  "encode_directory es = varints ([of_nat (length es)] @ deltas 0 es @ map de_run_length es @ map de_length es @ offset_codes es)"
  by (simp add: encode_directory_def Let_def push_tile_ids_varints foldl_push_varint offset_codes_def)

section \<open>The loops\<close>

interpretation vp: cursor_codec "push_varint []" "\<lambda>bytes cursor. map_err varint_failure (read_varint bytes cursor)"
  by unfold_locales (simp add: read_push_varint)

lemma read_each_varints:
  assumes "bytes = pre @ varints vs @ post" "n = length vs" "cursor = length pre"
    and "\<And>i s. i < n \<Longrightarrow> P i s \<Longrightarrow> \<exists>s'. f s i (vs ! i) = Ok s' \<and> P (Suc i) s'" "P 0 s"
  shows "\<exists>s'. read_each bytes f n s cursor = Ok (s', length (pre @ varints vs)) \<and> P n s'"
  using vp.dec_loop [of vs P f 0 s pre post] assms by (simp add: read_each_def)

text \<open>How far the decoder has filled in each field.\<close>

definition filled ::
  "directory_entry list \<Rightarrow> nat \<Rightarrow> nat \<Rightarrow> nat \<Rightarrow> nat \<Rightarrow> directory_entry list \<Rightarrow> bool" where
  "filled d a b c f es \<longleftrightarrow> length es = length d \<and>
     (\<forall>j < a. de_tile_id (es ! j) = de_tile_id (d ! j)) \<and> (\<forall>j < b. de_run_length (es ! j) = de_run_length (d ! j)) \<and>
     (\<forall>j < c. de_length (es ! j) = de_length (d ! j)) \<and> (\<forall>j < f. de_offset (es ! j) = de_offset (d ! j))"

lemma filled_update:
  assumes "i < length d"
  shows "filled d i b c f es \<Longrightarrow> filled d (Suc i) b c f (es[i := (es ! i)\<lparr>de_tile_id := de_tile_id (d ! i)\<rparr>])"
    "filled d a i c f es \<Longrightarrow> filled d a (Suc i) c f (es[i := (es ! i)\<lparr>de_run_length := de_run_length (d ! i)\<rparr>])"
    "filled d a b i f es \<Longrightarrow> filled d a b (Suc i) f (es[i := (es ! i)\<lparr>de_length := de_length (d ! i)\<rparr>])"
    "filled d a b c i es \<Longrightarrow> filled d a b c (Suc i) (es[i := (es ! i)\<lparr>de_offset := de_offset (d ! i)\<rparr>])"
  using assms unfolding filled_def by (auto simp: nth_list_update less_Suc_eq)

lemma filled_all: "filled d (length d) (length d) (length d) (length d) es \<Longrightarrow> es = d"
  by (rule nth_equalityI) (auto simp: filled_def)

definition id_before :: "directory_entry list \<Rightarrow> nat \<Rightarrow> u64" where
  "id_before d i = (if i = 0 then 0 else de_tile_id (d ! (i - 1)))"

lemma deltas_nth: "i < length d \<Longrightarrow> deltas l d ! i = de_tile_id (d ! i) - (if i = 0 then l else de_tile_id (d ! (i - 1)))"
proof (induction l d arbitrary: i rule: deltas.induct)
  case (2 l e es)
  then show ?case by (cases i) (auto simp: nth_Cons split: nat.split)
qed simp

definition directory_ok :: "directory_entry list \<Rightarrow> bool" where
  "directory_ok d \<longleftrightarrow> d \<noteq> [] \<and> length d \<le> 1000000 \<and> sorted (map de_tile_id d) \<and>
     (\<forall>e \<in> set d. de_length e \<noteq> 0 \<and> unat (de_offset e) + unat (de_length e) < 2 ^ 64)"

lemma set_tile_id_step:
  assumes "directory_ok d" "i < length d" "filled d i 0 0 0 es"
  shows "set_tile_id (es, id_before d i) i (deltas 0 d ! i) =
    Ok (es[i := (es ! i)\<lparr>de_tile_id := de_tile_id (d ! i)\<rparr>], id_before d (Suc i))"
proof -
  have "id_before d i \<le> de_tile_id (d ! i)"
    using assms(1,2) by (auto simp: id_before_def directory_ok_def sorted_iff_nth_mono)
  then have "unat (id_before d i) + unat (de_tile_id (d ! i) - id_before d i) = unat (de_tile_id (d ! i))"
    by (simp add: unat_sub word_le_nat_alt)
  then have "checked_add (id_before d i) (de_tile_id (d ! i) - id_before d i) = Some (de_tile_id (d ! i))"
    using unsigned_less [of "de_tile_id (d ! i)"] by (simp add: checked_add_def)
  moreover have "deltas 0 d ! i = de_tile_id (d ! i) - id_before d i"
    using assms(2) by (simp add: deltas_nth id_before_def)
  ultimately show ?thesis by (simp add: set_tile_id_def id_before_def ok_or_def)
qed

lemma set_length_step:
  assumes "directory_ok d" "i < length d"
  shows "set_length es i (map de_length d ! i) = Ok (es[i := (es ! i)\<lparr>de_length := de_length (d ! i)\<rparr>])"
proof -
  have "d ! i \<in> set d" using assms(2) by simp
  with assms have "de_length (d ! i) \<noteq> 0" unfolding directory_ok_def by blast
  with assms(2) show ?thesis by (simp add: set_length_def)
qed

lemma set_offset_step:
  assumes "directory_ok d" "i < length d" "filled d (length d) (length d) (length d) i es"
  shows "set_offset es i (offset_codes d ! i) = Ok (es[i := (es ! i)\<lparr>de_offset := de_offset (d ! i)\<rparr>])"
proof -
  have sum: "unat (de_offset (d ! j)) + unat (de_length (d ! j)) < 2 ^ 64" "de_length (d ! j) \<noteq> 0" if "j < length d" for j
    using assms(1) nth_mem [OF that] unfolding directory_ok_def by blast+
  have ne: "de_offset (d ! i) + 1 \<noteq> 0"
  proof
    assume "de_offset (d ! i) + 1 = 0"
    then have "de_offset (d ! i) = - 1" by (simp add: add_eq_0_iff2)
    with sum [OF assms(2)] show False by (simp add: unsigned_minus_1_eq_mask mask_eq_exp_minus_1 unat_eq_0)
  qed
  then have "0 < de_offset (d ! i) + 1" by (simp add: word_gt_0)
  with ne have fresh: "set_offset es i (de_offset (d ! i) + 1) = Ok (es[i := (es ! i)\<lparr>de_offset := de_offset (d ! i)\<rparr>])"
    by (simp add: set_offset_def del: word_gt_0)
  have "set_offset es i 0 = Ok (es[i := (es ! i)\<lparr>de_offset := de_offset (d ! i)\<rparr>])"
    if "0 < i" "de_offset (d ! (i - 1)) + de_length (d ! (i - 1)) = de_offset (d ! i)"
    using that sum [of "i - 1"] assms(2,3) by (simp add: set_offset_def filled_def checked_add_def ok_or_def)
  with fresh show ?thesis using assms(2) by (auto simp: offset_codes_def offset_code_def)
qed

section \<open>The round trip\<close>

lemma read_entries:
  assumes "directory_ok d" "decoded = encode_directory d"
  defines "n \<equiv> length d"
  shows "\<exists>es0 es1 es2 c0 c1 c2 c3.
    map_err varint_failure (read_varint decoded 0) = Ok (of_nat n, c0) \<and>
    read_each decoded set_tile_id n
      (replicate n \<lparr>de_tile_id = 0, de_offset = 0, de_length = 0, de_run_length = 0\<rparr>, 0) c0 = Ok ((es0, id_before d n), c1) \<and>
    read_each decoded set_run_length n es0 c1 = Ok (es1, c2) \<and>
    read_each decoded set_length n es1 c2 = Ok (es2, c3) \<and>
    read_each decoded set_offset n es2 c3 = Ok (d, length decoded)"
proof -
  let ?a = "varints [of_nat n]" and ?b = "varints (deltas 0 d)" and ?c = "varints (map de_run_length d)"
    and ?d = "varints (map de_length d)" and ?e = "varints (offset_codes d)"
  have bytes: "decoded = ?a @ ?b @ ?c @ ?d @ ?e"
    by (simp add: assms(2) encode_directory_varints n_def)
  have len: "length (offset_codes d) = n" by (simp add: offset_codes_def n_def)
  have r0: "map_err varint_failure (read_varint decoded 0) = Ok (of_nat n, length ?a)"
    using vp.dec_enc [of "[]" "of_nat n" "?b @ ?c @ ?d @ ?e"] by (simp add: bytes)
  let ?s0 = "(replicate n \<lparr>de_tile_id = 0, de_offset = 0, de_length = 0, de_run_length = 0\<rparr>, 0 :: u64)"
  have "\<exists>s'. read_each decoded set_tile_id n ?s0 (length ?a) = Ok (s', length (?a @ ?b)) \<and>
      (filled d n 0 0 0 (fst s') \<and> snd s' = id_before d n)"
    by (rule read_each_varints [where post = "?c @ ?d @ ?e" and P = "\<lambda>i s. filled d i 0 0 0 (fst s) \<and> snd s = id_before d i"])
      (use set_tile_id_step [OF assms(1)] filled_update(1) in
        \<open>auto simp: bytes n_def filled_def [where a = 0] id_before_def [of _ 0]\<close>)
  then obtain es0 where r1: "read_each decoded set_tile_id n ?s0 (length ?a) = Ok ((es0, id_before d n), length (?a @ ?b))"
    and f0: "filled d n 0 0 0 es0" by (metis prod.collapse)
  have "\<exists>s'. read_each decoded set_run_length n es0 (length (?a @ ?b)) = Ok (s', length ((?a @ ?b) @ ?c)) \<and> filled d n n 0 0 s'"
    by (rule read_each_varints [where post = "?d @ ?e" and P = "\<lambda>i. filled d n i 0 0"])
      (use f0 filled_update(2) in \<open>auto simp: bytes n_def set_run_length_def\<close>)
  then obtain es1 where r2: "read_each decoded set_run_length n es0 (length (?a @ ?b)) = Ok (es1, length ((?a @ ?b) @ ?c))"
    and f1: "filled d n n 0 0 es1" by blast
  have "\<exists>s'. read_each decoded set_length n es1 (length ((?a @ ?b) @ ?c)) = Ok (s', length (((?a @ ?b) @ ?c) @ ?d)) \<and> filled d n n n 0 s'"
    by (rule read_each_varints [where post = "?e" and P = "\<lambda>i. filled d n n i 0"])
      (use f1 filled_update(3) set_length_step [OF assms(1)] in \<open>auto simp: bytes n_def\<close>)
  then obtain es2 where r3: "read_each decoded set_length n es1 (length ((?a @ ?b) @ ?c)) = Ok (es2, length (((?a @ ?b) @ ?c) @ ?d))"
    and f2: "filled d n n n 0 es2" by blast
  have "\<exists>s'. read_each decoded set_offset n es2 (length (((?a @ ?b) @ ?c) @ ?d)) = Ok (s', length ((((?a @ ?b) @ ?c) @ ?d) @ ?e)) \<and> filled d n n n n s'"
    by (rule read_each_varints [where post = "[]" and P = "filled d n n n"])
      (use f2 filled_update(4) set_offset_step [OF assms(1)] len in \<open>auto simp: bytes n_def\<close>)
  then have r4: "read_each decoded set_offset n es2 (length (((?a @ ?b) @ ?c) @ ?d)) = Ok (d, length decoded)"
    using filled_all unfolding n_def bytes by (metis append_assoc)
  show ?thesis using r0 r1 r2 r3 r4 by blast
qed

text \<open>What the archive code relies on of the gzip coder: its output is not empty, and the decoder, stopped after
  \<open>n\<close> bytes, gives the first \<open>n\<close> bytes of what was encoded.\<close>

definition gzip_law :: "gzip_codec \<Rightarrow> bool" where
  "gzip_law gz \<longleftrightarrow> (\<forall>b e. gz_encode gz b = Ok e \<longrightarrow> e \<noteq> [] \<and> (\<forall>n. gz_decode gz n e = Ok (take n b)))"

lemma decode_gzip:
  assumes "gzip_law gz" "gzip gz b = Ok e" "length b \<le> 16777216"
  shows "decode_payload gz e 2 s = Ok b"
  using assms by (simp add: gzip_law_def gzip_def decode_payload_def MAX_DIRECTORY_BYTES_def)

lemma decode_encode_directory:
  assumes "gzip_law gz" "directory_ok d" "gzip gz (encode_directory d) = Ok dir" "length (encode_directory d) \<le> 16777216"
  shows "decode_directory gz dir 2 = Ok d"
proof -
  from assms(2) have n: "0 < length d" "length d \<le> 1000000" by (auto simp: directory_ok_def)
  then have u: "unat (of_nat (length d) :: u64) = length d"
    by (intro unat_of_nat_u64) simp
  note dec = decode_gzip [OF assms(1,3,4), of "''directory''"]
  from read_entries [OF assms(2) refl] show ?thesis
    using n by (auto simp: decode_directory_def dec u)
qed

text \<open>An integer takes at most ten bytes, an entry of a directory at most forty.\<close>

lemma push_varint_digits:
  "length (push_varint [] v) = (if drop_bit 7 v = 0 then 1 else Suc (length (push_varint [] (drop_bit 7 v))))"
  unfolding push_varint_step [of "[]" v]
  by (simp add: push_varint_append [of "[_]"] del: drop_bit_numeral_bit0 drop_bit_numeral_bit1)

lemma length_push_varint_le: "length (push_varint [] v) \<le> Suc k \<longleftrightarrow> unat v < 128 ^ Suc k"
proof (induction k arbitrary: v)
  case 0
  have "drop_bit 7 v = 0 \<longleftrightarrow> unat v < 128"
    by (simp add: drop_bit_eq_div unat_eq_0 [symmetric] unat_div div_eq_0_iff)
  moreover have "length (push_varint [] w) \<noteq> 0" for w using push_varint_digits [of w] by (simp split: if_splits)
  ultimately show ?case using push_varint_digits [of v] by (simp split: if_splits)
next
  case (Suc k)
  have d: "unat (drop_bit 7 v) = unat v div 128" by (simp add: drop_bit_eq_div unat_div)
  have "unat v div 128 < 128 ^ Suc k \<longleftrightarrow> unat v < 128 ^ Suc (Suc k)" by (simp add: div_less_iff_less_mult mult.commute)
  then show ?case using Suc.IH [of "drop_bit 7 v"] push_varint_digits [of v] d
    by (cases "drop_bit 7 v = 0") (auto simp del: power_Suc drop_bit_numeral_bit0 drop_bit_numeral_bit1)
qed

lemma length_varints_le: "length (varints vs) \<le> 10 * length vs"
proof (induction vs)
  case (Cons v vs)
  have "unat v < 2 ^ LENGTH(64)" by (rule unsigned_less)
  then have "unat v < 128 ^ Suc 9" by simp
  then have "length (push_varint [] v) \<le> 10" using length_push_varint_le [of v 9] by simp
  with Cons show ?case by simp
qed simp

lemma length_encode_directory_le: "length (encode_directory d) \<le> 10 + 40 * length d"
proof -
  have "length (encode_directory d) \<le> 10 * length ([of_nat (length d)] @ deltas 0 d @ map de_run_length d @ map de_length d @ offset_codes d)"
    unfolding encode_directory_varints by (rule length_varints_le)
  then show ?thesis by (simp add: offset_codes_def)
qed

section \<open>Looking up identifiers\<close>

lemma find_entry_last:
  "find_entry d t = (let es = takeWhile (\<lambda>e. de_tile_id e \<le> t) d in if es = [] then None else Some (last es))"
  by (simp add: find_entry_def Let_def split: list.split)

lemma find_entry_hit:
  assumes "sorted (map de_tile_id d)" "distinct (map de_tile_id d)" "i < length d"
  shows "find_entry d (de_tile_id (d ! i)) = Some (d ! i)"
proof -
  have less: "de_tile_id (d ! i) < de_tile_id (d ! j)" if "i < j" "j < length d" for j
    using assms that 
      sorted_wrt_nth_less [of "(<)" "map de_tile_id d" i j] by (simp add: strict_sorted_iff)
  have "takeWhile (\<lambda>e. de_tile_id e \<le> de_tile_id (d ! i)) d = take (Suc i) d"
  proof (rule takeWhile_eq_take_P_nth)
    fix j assume "j < Suc i" "j < length d"
    then show "de_tile_id (d ! j) \<le> de_tile_id (d ! i)"
      using assms(1,3) by (simp add: sorted_iff_nth_mono)
  next
    assume "Suc i < length d"
    then show "\<not> de_tile_id (d ! Suc i) \<le> de_tile_id (d ! i)" using less [of "Suc i"] by simp
  qed
  then show ?thesis using assms(3) by (simp add: find_entry_last take_Suc_conv_app_nth)
qed

lemma find_entry_Some: "find_entry d t = Some e \<Longrightarrow> e \<in> set d \<and> de_tile_id e \<le> t"
  unfolding find_entry_last Let_def
  by (metis last_in_set option.distinct(1) option.inject set_takeWhileD)

end
