(* ===== verification/Pmtiles_Archive.thy ===== *)
theory Pmtiles_Archive
  imports Pmtiles_Directory
begin

text \<open>
  Reading what the archive writer wrote: the header parses back, byte ranges of a local archive give its
  sections, and every tile of a written archive is read back, while other coordinates are reported missing.
\<close>

section \<open>The header\<close>

lemma length_put_at [simp]: "offset + length bs \<le> length h \<Longrightarrow> length (put_at offset bs h) = length h"
  by (simp add: put_at_def)

lemma nth_put_at:
  "offset + length bs \<le> length h \<Longrightarrow> i < offset \<or> offset + length bs \<le> i \<Longrightarrow> i < length h \<Longrightarrow> put_at offset bs h ! i = h ! i"
  by (auto simp: put_at_def nth_append)

lemma take_drop_put_at_same:
  "offset + length bs \<le> length h \<Longrightarrow> take (length bs) (drop offset (put_at offset bs h)) = bs"
  by (simp add: put_at_def)

lemma take_drop_other:
  "length h = length h' \<Longrightarrow> (\<And>i. o1 \<le> i \<Longrightarrow> i < o1 + n \<Longrightarrow> i < length h \<Longrightarrow> h ! i = h' ! i) \<Longrightarrow>
   take n (drop o1 h) = take n (drop o1 h')"
  by (rule nth_equalityI) auto

lemma u64_at_put_at_same [simp]: "offset + 8 \<le> length h \<Longrightarrow> u64_at (put_at offset (to_le_bytes v) h) offset = v"
  using take_drop_put_at_same [of offset "to_le_bytes v" h] by (simp add: u64_at_def)

lemma u64_at_put_at [simp]:
  "offset + length bs \<le> length h \<Longrightarrow> o1 + 8 \<le> offset \<or> offset + length bs \<le> o1 \<Longrightarrow>
   u64_at (put_at offset bs h) o1 = u64_at h o1"
  unfolding u64_at_def by (rule arg_cong [OF take_drop_other]) (auto intro: nth_put_at)

lemma u64_at_list_update [simp]: "i < o1 \<or> o1 + 8 \<le> i \<Longrightarrow> u64_at (h[i := b]) o1 = u64_at h o1"
  unfolding u64_at_def by (rule arg_cong [OF take_drop_other]) (auto simp: nth_list_update)

lemma take_7_put_at [simp]: "7 \<le> offset \<Longrightarrow> offset + length bs \<le> length h \<Longrightarrow> take 7 (put_at offset bs h) = take 7 h"
  using take_drop_other [of "put_at offset bs h" h 0 7] by (simp add: nth_put_at)

lemma length_magic [simp]: "length magic = 7"
  by (simp add: magic_def)

lemma take_7_magic [simp]: "7 \<le> length h \<Longrightarrow> take 7 (put_at 0 magic h) = magic"
  by (simp add: put_at_def)

lemma length_build_header [simp]: "length (build_header l c) = 127"
  by (simp add: build_header_def Let_def)

lemma build_header_fields:
  "take 7 (build_header l c) = magic" "build_header l c ! 7 = 3"
  "u64_at (build_header l c) 8 = HEADER_BYTES" "u64_at (build_header l c) 16 = al_root_length l"
  "u64_at (build_header l c) 40 = 0" "u64_at (build_header l c) 48 = 0"
  "u64_at (build_header l c) 56 = al_tile_data_offset l" "u64_at (build_header l c) 64 = al_tile_data_length l"
  "u64_at (build_header l c) 72 = al_addressed_tiles l"
  "build_header l c ! 97 = 2" "build_header l c ! 98 = c" "build_header l c ! 99 = 1"
  "build_header l c ! 100 = al_minimum_zoom l" "build_header l c ! 101 = al_maximum_zoom l"
  by (simp_all add: build_header_def Let_def nth_put_at)

text \<open>The header that the reader reconstructs from a written one.\<close>

definition read_back :: "archive_layout \<Rightarrow> u8 \<Rightarrow> pmtiles_header" where
  "read_back l c = \<lparr>ph_version = 3, ph_root_directory_offset = HEADER_BYTES, ph_root_directory_length = al_root_length l,
     ph_leaf_directory_offset = 0, ph_leaf_directory_length = 0, ph_tile_data_offset = al_tile_data_offset l,
     ph_tile_data_length = al_tile_data_length l, ph_addressed_tiles = al_addressed_tiles l,
     ph_internal_compression = 2, ph_tile_compression = c, ph_tile_type = 1,
     ph_minimum_zoom = al_minimum_zoom l, ph_maximum_zoom = al_maximum_zoom l\<rparr>"

lemma parse_build_header:
  "parse_header (build_header l c) object_bytes =
     (if invalid_section HEADER_BYTES (al_root_length l) ROOT_DIRECTORY_LIMIT \<or> al_maximum_zoom l < al_minimum_zoom l \<or>
         invalid_section (al_tile_data_offset l) (al_tile_data_length l) object_bytes \<or>
         invalid_section HEADER_BYTES (al_root_length l) object_bytes
      then Err (Invalid ''section bounds, root latency limit, or zoom range are invalid'') else Ok (read_back l c))"
proof -
  have "unat HEADER_BYTES = 127" by (simp add: HEADER_BYTES_def)
  moreover have "\<not> invalid_section 0 0 object_bytes" by (simp add: invalid_section_def checked_add_def)
  ultimately show ?thesis
    by (simp add: parse_header_def Let_def build_header_fields read_back_def)
qed

section \<open>Sections of a local archive\<close>

lemma read_exact_local:
  assumes "\<not> is_remote_uri uri" "fs uri = Some (a @ b @ c)" "length (a @ b @ c) < 2 ^ 64" "b \<noteq> []" "length b \<le> 16777216"
    and start: "start = of_nat (length a)" and len: "len = of_nat (length b)"
  shows "read_exact_range fs net uri start len requests =
    Ok (b, requests @ [\<lparr>io_start = start, io_end = start + (len - 1), io_response_bytes = len, io_http_status = None\<rparr>])"
proof -
  have ua: "unat start = length a" and ub: "unat len = length b"
    using assms(3) by (simp_all add: start len unat_of_nat_u64)
  have "0 < unat len" using assms(4) by (simp add: ub)
  then have pos: "len \<noteq> 0" by auto
  then have um: "unat (len - 1) = length b - 1" by (simp add: ub unat_minus_one)
  have "unat start + unat (len - 1) < 2 ^ 64" using assms(3) by (simp add: ua um)
  then have stop: "checked_add start (len - 1) = Some (start + (len - 1))"
    and us: "unat (start + (len - 1)) = length a + (length b - 1)"
    by (simp_all add: checked_add_def ua um unat_add_lem [THEN iffD1])
  have "start \<le> start + (len - 1)" by (simp add: word_le_nat_alt us ua)
  then have rng: "byte_range_new start (start + (len - 1)) = Ok \<lparr>br_start = start, br_end = start + (len - 1)\<rparr>"
    by (simp add: byte_range_new_def)
  have "\<not> MAX_DIRECTORY_BYTES < len" using assms(5) by (simp add: word_less_nat_alt ub MAX_DIRECTORY_BYTES_def)
  moreover have "fetch_range fs net uri \<lparr>br_start = start, br_end = start + (len - 1)\<rparr> = Ok (b, None)"
    using assms(1,2) by (simp add: fetch_range_def read_local_range_def byte_range_len_def ua ub)
  ultimately show ?thesis using pos by (simp add: read_exact_range_def stop rng len [symmetric] ok_or_def)
qed

section \<open>What the writer assembles\<close>

lemma identify_tiles:
  "try_fold (\<lambda>acc entry. map_ok (\<lambda>t. acc @ [t]) (identify_tile entry)) acc entries = Ok tiles \<Longrightarrow>
   \<exists>ts. tiles = acc @ ts \<and> list_all2 (\<lambda>e t. identify_tile e = Ok t) entries ts"
  by (induction entries arbitrary: acc)
    (fastforce simp: result_simps intro: list_all2_Cons [THEN iffD2])+

lemma identify_tile_Ok:
  "identify_tile e = Ok t \<longleftrightarrow> te_bytes e \<noteq> [] \<and> snd t = te_bytes e \<and> zxy_to_tile_id (te_z e) (te_x e) (te_y e) = Ok (fst t)"
  by (cases t) (auto simp: identify_tile_def result_simps)

lemma not_has_duplicate: "sorted (map fst ts) \<Longrightarrow> \<not> has_duplicate ts \<Longrightarrow> distinct (map fst ts)"
proof (induction ts rule: has_duplicate.induct)
  case (1 i b0 j b rest)
  then have "i < j" "\<forall>k \<in> set (map fst rest). j \<le> k" by (auto simp: less_le)
  then have "i \<notin> set (map fst rest)" by force
  with 1 \<open>i < j\<close> show ?case by auto
qed auto

text \<open>The directory of consecutive payloads.\<close>

definition placed :: "u64 list \<Rightarrow> u8 list list \<Rightarrow> u64 \<Rightarrow> directory_entry list" where
  "placed ids encs offset = map (\<lambda>i. \<lparr>de_tile_id = ids ! i, de_offset = offset + of_nat (length (concat (take i encs))),
     de_length = of_nat (length (encs ! i)), de_run_length = 1\<rparr>) [0..<length ids]"

lemma placed_Cons: "length ids = length encs \<Longrightarrow> placed (i # ids) (e # encs) offset =
    \<lparr>de_tile_id = i, de_offset = offset, de_length = of_nat (length e), de_run_length = 1\<rparr> #
    placed ids encs (offset + of_nat (length e))"
  by (simp add: placed_def upt_conv_Cons map_Suc_upt [symmetric] comp_def add.assoc del: upt_Suc)

lemma place_tiles:
  "try_fold (place_tile gz c) (ps, d, offset) ts = Ok (ps', d', offset') \<Longrightarrow>
   \<exists>encs. list_all2 (\<lambda>t e. encode_payload gz (snd t) c = Ok e) ts encs \<and> concat (map snd ps') = concat (map snd ps) @ concat encs \<and>
     d' = d @ placed (map fst ts) encs offset"
proof (induction ts arbitrary: ps d offset)
  case Nil
  then show ?case by (auto simp: placed_def intro: exI [of _ "[]"])
next
  case (Cons t ts)
  obtain i b where t: "t = (i, b)" by fastforce
  from Cons.prems obtain e where e: "encode_payload gz b c = Ok e"
    and r: "try_fold (place_tile gz c) (ps @ [(i, e)],
      d @ [\<lparr>de_tile_id = i, de_offset = offset, de_length = of_nat (length e), de_run_length = 1\<rparr>],
      offset + of_nat (length e)) ts = Ok (ps', d', offset')"
    by (auto simp: t place_tile_def result_simps Let_def)
  from Cons.IH [OF r] obtain encs where IH: "list_all2 (\<lambda>t e. encode_payload gz (snd t) c = Ok e) ts encs"
    "concat (map snd ps') = concat (map snd ps) @ e @ concat encs"
    "d' = d @ \<lparr>de_tile_id = i, de_offset = offset, de_length = of_nat (length e), de_run_length = 1\<rparr> #
      placed (map fst ts) encs (offset + of_nat (length e))"
    by auto
  have "placed (map fst (t # ts)) (e # encs) offset =
    \<lparr>de_tile_id = i, de_offset = offset, de_length = of_nat (length e), de_run_length = 1\<rparr> #
      placed (map fst ts) encs (offset + of_nat (length e))"
    using placed_Cons [of "map fst ts" encs i e offset] list_all2_lengthD [OF IH(1)] by (simp add: t)
  with IH e show ?case by (intro exI [of _ "e # encs"]) (simp add: t)
qed

text \<open>A written archive in terms of the payloads.\<close>

definition tile_code :: "write_options \<Rightarrow> u8" where
  "tile_code options = (if wo_compress_tiles options then 2 else 1)"

definition zoom_min :: "tile_entry list \<Rightarrow> u8" where
  "zoom_min entries = Min (te_z ` set entries)"

definition zoom_max :: "tile_entry list \<Rightarrow> u8" where
  "zoom_max entries = Max (te_z ` set entries)"

definition layout_of :: "tile_entry list \<Rightarrow> u64 list \<Rightarrow> u8 list \<Rightarrow> u8 list \<Rightarrow> u8 list list \<Rightarrow> archive_layout" where
  "layout_of entries ids dir meta encs = \<lparr>al_root_length = of_nat (length dir), al_metadata_length = of_nat (length meta),
     al_tile_data_offset = HEADER_BYTES + of_nat (length dir) + of_nat (length meta),
     al_tile_data_length = of_nat (length (concat encs)), al_addressed_tiles = of_nat (length ids),
     al_minimum_zoom = zoom_min entries, al_maximum_zoom = zoom_max entries\<rparr>"

lemma fold_zoom:
  "entries \<noteq> [] \<Longrightarrow> fold min (map te_z (tl entries)) (te_z (hd entries)) = zoom_min entries"
  "entries \<noteq> [] \<Longrightarrow> fold max (map te_z (tl entries)) (te_z (hd entries)) = zoom_max entries"
  by (cases entries; simp add: zoom_min_def zoom_max_def Min.set_eq_fold [symmetric] Max.set_eq_fold [symmetric])+

lemma assemble_Ok:
  assumes "assemble gz entries options = Ok (archive, receipt)"
  shows "\<exists>ts encs dir meta. set ts = {t. \<exists>e \<in> set entries. identify_tile e = Ok t} \<and> (\<forall>e \<in> set entries. \<exists>t. identify_tile e = Ok t) \<and>
    length ts = length entries \<and> sorted (map fst ts) \<and> distinct (map fst ts) \<and>
    list_all2 (\<lambda>t e. encode_payload gz (snd t) (tile_code options) = Ok e) ts encs \<and>
    gzip gz (encode_directory (placed (map fst ts) encs 0)) = Ok dir \<and>
    archive = build_header (layout_of entries (map fst ts) dir meta encs) (tile_code options) @ dir @ meta @ concat encs"
proof -
  from assms obtain tiles payloads directory offset dir meta where ne: "entries \<noteq> []"
    and t: "try_fold (\<lambda>acc entry. map_ok (\<lambda>t. acc @ [t]) (identify_tile entry)) [] entries = Ok tiles"
    and d: "\<not> has_duplicate (sort_key fst tiles)"
    and p: "try_fold (place_tile gz (tile_code options)) ([], [], 0) (sort_key fst tiles) = Ok (payloads, directory, offset)"
    and g: "gzip gz (encode_directory directory) = Ok dir"
    and a: "archive = build_header \<lparr>al_root_length = of_nat (length dir), al_metadata_length = of_nat (length meta),
       al_tile_data_offset = HEADER_BYTES + of_nat (length dir) + of_nat (length meta),
       al_tile_data_length = of_nat (length (concat (map snd payloads))), al_addressed_tiles = of_nat (length directory),
       al_minimum_zoom = zoom_min entries, al_maximum_zoom = zoom_max entries\<rparr> (tile_code options) @ dir @ meta @ concat (map snd payloads)"
    using that unfolding assemble_def Let_def tile_code_def [symmetric]
    by (auto simp: result_simps fold_zoom split: if_splits)
  from identify_tiles [OF t] have l: "list_all2 (\<lambda>e t. identify_tile e = Ok t) entries tiles" by simp
  from place_tiles [OF p] obtain encs
    where e: "list_all2 (\<lambda>t e. encode_payload gz (snd t) (tile_code options) = Ok e) (sort_key fst tiles) encs"
      "concat (map snd payloads) = concat encs" "directory = placed (map fst (sort_key fst tiles)) encs 0"
    by auto
  have "set tiles = {t. \<exists>e \<in> set entries. identify_tile e = Ok t}" "\<forall>e \<in> set entries. \<exists>t. identify_tile e = Ok t"
    using l by (fastforce simp: list_all2_conv_all_nth in_set_conv_nth)+
  moreover have "length tiles = length entries" using list_all2_lengthD [OF l] by simp
  moreover have "distinct (map fst (sort_key fst tiles))" using d by (intro not_has_duplicate) simp_all
  moreover have "length directory = length tiles" by (simp add: e placed_def)
  ultimately show ?thesis using e g a
    by (intro exI [of _ "sort_key fst tiles"] exI [of _ encs] exI [of _ dir] exI [of _ meta])
      (simp add: layout_of_def)
qed

lemma concat_nth: "i < length xs \<Longrightarrow> concat xs = concat (take i xs) @ xs ! i @ concat (drop (Suc i) xs)"
  by (subst id_take_nth_drop) simp_all

lemma length_concat_take: "i < length xs \<Longrightarrow> length (concat (take i xs)) + length (xs ! i) \<le> length (concat xs)"
  by (subst concat_nth [of i xs]) simp_all

lemma placed_nth: "i < length ids \<Longrightarrow> placed ids encs offset ! i =
    \<lparr>de_tile_id = ids ! i, de_offset = offset + of_nat (length (concat (take i encs))),
     de_length = of_nat (length (encs ! i)), de_run_length = 1\<rparr>"
  by (simp add: placed_def)

lemma placed_ids [simp]: "map de_tile_id (placed ids encs offset) = ids" "length (placed ids encs offset) = length ids"
  by (auto simp: placed_def comp_def intro: nth_equalityI)

lemma placed_directory_ok:
  assumes "sorted ids" "length ids = length encs" "[] \<notin> set encs" "length (concat encs) < 2 ^ 64" "ids \<noteq> []" "length ids \<le> 1000000"
  shows "directory_ok (placed ids encs 0)"
  unfolding directory_ok_def
proof (intro conjI ballI)
  fix e assume "e \<in> set (placed ids encs 0)"
  then obtain i where i: "i < length encs" and e: "e = placed ids encs 0 ! i"
    by (metis assms(2) in_set_conv_nth placed_ids(2))
  have "encs ! i \<noteq> []" using assms(3) i by (metis nth_mem)
  moreover have u: "unat (de_offset e) = length (concat (take i encs))" "unat (de_length e) = length (encs ! i)"
    using length_concat_take [OF i] assms(2,4) i
    by (simp_all add: e placed_nth unat_of_nat_u64)
  ultimately have "unat (de_length e) \<noteq> 0" by simp
  then show "de_length e \<noteq> 0" by auto
  show "unat (de_offset e) + unat (de_length e) < 2 ^ 64"
    using length_concat_take [OF i] assms(4) by (simp add: u)
qed (use assms in \<open>simp_all, auto simp: placed_def\<close>)

section \<open>Reading a written archive\<close>

text \<open>The reader on a local archive with a well-formed header, up to the lookup in its directory.\<close>

lemma invalid_section_iff: "invalid_section offset len limit \<longleftrightarrow> unat limit < unat offset + unat len"
proof (cases "unat offset + unat len < 2 ^ 64")
  case True
  then show ?thesis
    by (simp add: invalid_section_def checked_add_def word_less_nat_alt unat_add_lem [THEN iffD1])
next
  case False
  have "unat limit < 2 ^ LENGTH(64)" by (rule unsigned_less)
  with False show ?thesis by (simp add: invalid_section_def checked_add_def)
qed

lemma zoom_bounds: "e \<in> set entries \<Longrightarrow> zoom_min entries \<le> te_z e \<and> te_z e \<le> zoom_max entries"
  by (simp add: zoom_min_def zoom_max_def)

definition written_archive ::
  "gzip_codec \<Rightarrow> tile_entry list \<Rightarrow> u8 \<Rightarrow> u64 list \<Rightarrow> u8 list \<Rightarrow> u8 list \<Rightarrow> u8 list list \<Rightarrow> u8 list \<Rightarrow> bool" where
  "written_archive gz entries c ids dir meta encs archive \<longleftrightarrow> entries \<noteq> [] \<and> length archive < 2 ^ 64 \<and>
     dir \<noteq> [] \<and> length dir \<le> 16257 \<and> decode_directory gz dir 2 = Ok (placed ids encs 0) \<and>
     archive = build_header (layout_of entries ids dir meta encs) c @ dir @ meta @ concat encs"

lemma parse_written:
  assumes "written_archive gz entries c ids dir meta encs archive"
  shows "parse_header (build_header (layout_of entries ids dir meta encs) c) (of_nat (length archive)) =
    Ok (read_back (layout_of entries ids dir meta encs) c)"
proof -
  let ?l = "layout_of entries ids dir meta encs" and ?n = "length archive"
  have n: "?n < 2 ^ 64" "?n = 127 + length dir + length meta + length (concat encs)" and dir: "length dir \<le> 16257"
    and ne: "entries \<noteq> []" using assms by (auto simp: written_archive_def)
  have "unat (of_nat (127 + length dir + length meta) :: u64) = 127 + length dir + length meta"
    using n by (intro unat_of_nat_u64) simp
  moreover have "unat (of_nat (length dir) :: u64) = length dir"
    "unat (of_nat (length (concat encs)) :: u64) = length (concat encs)"
    using n by (simp_all add: unat_of_nat_u64)
  moreover note unat_of_nat_u64 [OF n(1)]
  moreover have "zoom_min entries \<le> zoom_max entries"
    using ne zoom_bounds [of "hd entries" entries] by (auto intro: order_trans)
  ultimately show ?thesis
    using n dir by (simp add: parse_build_header layout_of_def HEADER_BYTES_def ROOT_DIRECTORY_LIMIT_def invalid_section_iff)
qed

lemma read_sections:
  assumes w: "written_archive gz entries c ids dir meta encs archive" and local: "\<not> is_remote_uri uri" "fs uri = Some archive"
  shows "\<exists>r. read_exact_range fs net uri 0 HEADER_BYTES requests =
      Ok (build_header (layout_of entries ids dir meta encs) c, r)"
    "\<exists>r. read_exact_range fs net uri HEADER_BYTES (of_nat (length dir)) requests = Ok (dir, r)"
    "i < length encs \<Longrightarrow> encs ! i \<noteq> [] \<Longrightarrow> length (encs ! i) \<le> 16777216 \<Longrightarrow>
      \<exists>r. read_exact_range fs net uri (HEADER_BYTES + of_nat (length dir) + of_nat (length meta) + of_nat (length (concat (take i encs))))
        (of_nat (length (encs ! i))) requests = Ok (encs ! i, r)"
proof -
  let ?h = "build_header (layout_of entries ids dir meta encs) c"
  have a: "archive = ?h @ dir @ meta @ concat encs" "length archive < 2 ^ 64" "dir \<noteq> []" "length dir \<le> 16257"
    using w unfolding written_archive_def by blast+
  have "?h \<noteq> []" by (metis length_build_header length_0_conv zero_neq_numeral)
  then show "\<exists>r. read_exact_range fs net uri 0 HEADER_BYTES requests = Ok (?h, r)"
    using read_exact_local [OF local(1), where a = "[]" and b = ?h and c = "dir @ meta @ concat encs"] local(2) a
    by (simp add: HEADER_BYTES_def)
  show "\<exists>r. read_exact_range fs net uri HEADER_BYTES (of_nat (length dir)) requests = Ok (dir, r)"
    using read_exact_local [OF local(1), where a = ?h and b = dir and c = "meta @ concat encs"] local(2) a
    by (simp add: HEADER_BYTES_def)
  assume i: "i < length encs" "encs ! i \<noteq> []" "length (encs ! i) \<le> 16777216"
  have "archive = (?h @ dir @ meta @ concat (take i encs)) @ encs ! i @ concat (drop (Suc i) encs)"
    using a(1) concat_nth [OF i(1)] by simp
  with read_exact_local [OF local(1), where a = "?h @ dir @ meta @ concat (take i encs)" and b = "encs ! i"
      and c = "concat (drop (Suc i) encs)"] local(2) a(2) i
  show "\<exists>r. read_exact_range fs net uri (HEADER_BYTES + of_nat (length dir) + of_nat (length meta) + of_nat (length (concat (take i encs))))
        (of_nat (length (encs ! i))) requests = Ok (encs ! i, r)"
    by (simp add: HEADER_BYTES_def add.assoc)
qed

lemma tile_id_on_grid:
  assumes "zxy_to_tile_id z x y = Ok i"
  shows "z < 32" "\<not> push_bit (unat z) 1 \<le> x" "\<not> push_bit (unat z) 1 \<le> y" "i < i + 1"
proof -
  have "\<not> 31 < z" and "\<not> push_bit (unat z) 1 \<le> x" "\<not> push_bit (unat z) 1 \<le> y"
    using assms by (auto simp: zxy_to_tile_id_def split: if_splits)
  then show z: "z < 32" "\<not> push_bit (unat z) 1 \<le> x" "\<not> push_bit (unat z) 1 \<le> y"
    by (simp_all add: word_less_nat_alt)
  have "unat i + 1 < 2 ^ 64"
    using unat_tile_id [OF assms] zoom_base_bound [of "unat z"] z(1) by (simp add: word_less_nat_alt)
  then show "i < i + 1" by (simp add: word_less_nat_alt unat_add_lem [THEN iffD1])
qed

lemma read_written:
  assumes w: "written_archive gz entries c ids dir meta encs archive" and len: "length ids = length encs"
    and local: "\<not> is_remote_uri uri" "fs uri = Some archive"
    and inside: "zoom_min entries \<le> z" "z \<le> zoom_max entries" and id: "zxy_to_tile_id z x y = Ok (ids ! i)"
    and ids: "sorted ids" "distinct ids" "i < length ids"
    and enc: "encs ! i \<noteq> []" "length (encs ! i) \<le> 16777216"
  shows "\<exists>r. read_pmtiles_tile gz fs net uri z x y = Ok r \<and> tr_bytes r = encs ! i \<and> ph_tile_compression (tr_header r) = c"
proof -
  let ?l = "layout_of entries ids dir meta encs" and ?d = "placed ids encs 0"
  have d: "decode_directory gz dir 2 = Ok ?d" using w by (simp add: written_archive_def)
  have f: "find_entry ?d (ids ! i) = Some (?d ! i)" using find_entry_hit [of ?d i] ids by (simp add: placed_nth)
  obtain q1 where q1: "read_exact_range fs net uri 0 HEADER_BYTES [] = Ok (build_header ?l c, q1)"
    using read_sections(1) [where fs = fs, OF w local] by blast
  obtain q2 where q2: "read_exact_range fs net uri HEADER_BYTES (of_nat (length dir)) q1 = Ok (dir, q2)"
    using read_sections(2) [where fs = fs, OF w local] by blast
  let ?o = "HEADER_BYTES + of_nat (length dir) + of_nat (length meta)"
  obtain q3 where q3: "read_exact_range fs net uri (?o + of_nat (length (concat (take i encs)))) (of_nat (length (encs ! i))) q2 = Ok (encs ! i, q3)"
    using read_sections(3) [where fs = fs, OF w local] ids(3) len enc by metis
  have "length archive < 2 ^ 64" "length archive = 127 + length dir + length meta + length (concat encs)"
    using w by (auto simp: written_archive_def)
  moreover from this have "unat (of_nat (length (concat (take i encs))) :: u64) = length (concat (take i encs))"
    using length_concat_take [of i encs] ids(3) len by (intro unat_of_nat_u64) simp
  moreover have "?o = of_nat (127 + length dir + length meta)" by (simp add: HEADER_BYTES_def)
  ultimately have "unat ?o + unat (of_nat (length (concat (take i encs))) :: u64) < 2 ^ 64"
    using length_concat_take [of i encs] ids(3) len unat_of_nat_u64 [of "127 + length dir + length meta"] by simp
  then have s: "checked_add ?o (of_nat (length (concat (take i encs)))) = Some (?o + of_nat (length (concat (take i encs))))"
    by (simp add: checked_add_def)
  note g = tile_id_on_grid [OF id]
  have "object_length fs net uri = Ok (of_nat (length archive))" using local by (simp add: object_length_def)
  with q1 q2 q3 d f s g id inside parse_written [OF w] ids(3) show ?thesis
    by (simp add: read_pmtiles_tile_def read_back_def layout_of_def find_tile_def ok_or_def placed_nth Let_def not_le not_less
      del: push_bit_of_1)
qed

lemma read_missing:
  assumes w: "written_archive gz entries c ids dir meta encs archive" and len: "length ids = length encs"
    and local: "\<not> is_remote_uri uri" "fs uri = Some archive"
    and absent: "\<And>tile_id. zxy_to_tile_id z x y = Ok tile_id \<Longrightarrow> tile_id \<notin> set ids"
  shows "read_pmtiles_tile gz fs net uri z x y = Err (TileNotFound z x y)"
proof -
  let ?l = "layout_of entries ids dir meta encs" and ?d = "placed ids encs 0"
  have d: "decode_directory gz dir 2 = Ok ?d" using w by (simp add: written_archive_def)
  obtain q1 where q1: "read_exact_range fs net uri 0 HEADER_BYTES [] = Ok (build_header ?l c, q1)"
    using read_sections(1) [where fs = fs, OF w local] by blast
  obtain q2 where q2: "read_exact_range fs net uri HEADER_BYTES (of_nat (length dir)) q1 = Ok (dir, q2)"
    using read_sections(2) [where fs = fs, OF w local] by blast
  have o: "object_length fs net uri = Ok (of_nat (length archive))" using local by (simp add: object_length_def)
  let ?dim = "if z < 32 then push_bit (unat z) 1 else 0 :: u32"
  show ?thesis
  proof (cases "z < zoom_min entries \<or> zoom_max entries < z \<or> ?dim \<le> x \<or> ?dim \<le> y")
    case True
    with o q1 parse_written [OF w] show ?thesis
      by (simp add: read_pmtiles_tile_def read_back_def layout_of_def Let_def del: push_bit_of_1)
  next
    case False
    then have "z < 32" "\<not> push_bit (unat z) 1 \<le> x" "\<not> push_bit (unat z) 1 \<le> y" by (auto split: if_splits)
    then obtain t where t: "zxy_to_tile_id z x y = Ok t"
      by (auto simp: zxy_to_tile_id_def word_less_nat_alt Let_def simp del: push_bit_of_1)
    have found: "t \<ge> de_tile_id e \<and> de_tile_id e + 1 \<le> t \<and> de_run_length e = 1" if "find_entry ?d t = Some e" for e
    proof -
      from find_entry_Some [OF that] have e: "e \<in> set ?d" "de_tile_id e \<le> t" by simp_all
      then have "de_tile_id e \<in> set ids" by (metis image_eqI list.set_map placed_ids(1))
      with absent [OF t] e have "de_tile_id e < t" by (metis order_le_imp_less_or_eq)
      moreover have "de_run_length e = 1" using e by (auto simp: placed_def)
      ultimately show ?thesis by (simp add: inc_le)
    qed
    from False o q1 q2 d t parse_written [OF w] show ?thesis
      by (cases "find_entry ?d t")
        (auto simp: read_pmtiles_tile_def read_back_def layout_of_def Let_def find_tile_def ok_or_def dest: found
          simp del: push_bit_of_1)
  qed
qed

lemma write_Ok:
  assumes "write_pmtiles_archive gz outcome path entries options fs = (Ok receipt, fs')"
  obtains archive where "assemble gz entries options = Ok (archive, receipt)" "fs' path = Some archive"
  using assms
  by (cases outcome) (auto simp: write_pmtiles_archive_def split: sum.splits)

lemma encode_payload_Ok:
  assumes "gzip_law gz" "encode_payload gz b c = Ok e" "b \<noteq> []" "length b \<le> 16777216"
  shows "e \<noteq> [] \<and> decode_tile_payload gz e c = Ok b"
proof (cases "c = 2")
  case True
  then have g: "gzip gz b = Ok e" using assms(2) by (simp add: encode_payload_def)
  then have "e \<noteq> []" using assms(1) by (auto simp: gzip_def gzip_law_def)
  with decode_gzip [OF assms(1) g assms(4)] show ?thesis by (simp add: decode_tile_payload_def True)
next
  case False
  then show ?thesis using assms by (auto simp: encode_payload_def decode_tile_payload_def decode_payload_def split: if_splits)
qed

end
