(* ===== verification/Pmtiles_Valid.thy ===== *)
theory Pmtiles_Valid
  imports Pmtiles_Archive
begin

text \<open>
  The properties of the PMTiles component: the byte encodings, tile identifiers, what a written archive
  gives back, and the byte ranges that a read requests.
\<close>

section \<open>Encodings and identifiers\<close>

text \<open>The loop that writes an integer ends: it writes one byte per round, at most ten, and exactly as many as the
  value has base-128 digits. Reading at the position where it was written ends with that value and with the cursor at its
  end, whatever surrounds it; the ten rounds of the reading loop are always enough.\<close>

theorem varint_loops_end:
  "length (push_varint [] v) \<in> {1..10} \<and> (\<forall>k. length (push_varint [] v) \<le> Suc k \<longleftrightarrow> unat v < 128 ^ Suc k) \<and>
   push_varint buffer v = buffer @ push_varint [] v \<and>
   read_varint (push_varint buffer v @ rest) (length buffer) = Ok (v, length (push_varint buffer v))"
proof (intro conjI allI)
  have "unat v < 2 ^ LENGTH(64)" by (rule unsigned_less)
  then have "length (push_varint [] v) \<le> Suc 9" unfolding length_push_varint_le by simp
  moreover have "length (push_varint [] v) \<noteq> 0" using push_varint_digits [of v] by (simp split: if_splits)
  ultimately show "length (push_varint [] v) \<in> {1..10}" by (simp add: Suc_le_eq)
  show "length (push_varint [] v) \<le> Suc k \<longleftrightarrow> unat v < 128 ^ Suc k" for k by (rule length_push_varint_le)
  show a: "push_varint buffer v = buffer @ push_varint [] v" by (rule push_varint_append)
  show "read_varint (push_varint buffer v @ rest) (length buffer) = Ok (v, length (push_varint buffer v))"
    using read_push_varint [of buffer v rest] a by simp
qed

text \<open>The bits that do not fit into 64 bits are dropped rather than reported: the tenth byte may be anything below 128.\<close>

lemma varint_overflow_dropped: "read_varint (replicate 9 0x80 @ [2]) 0 = Ok (0, 10)"
  by code_simp

lemma tile_id_of:
  assumes "unat z < 32" "zoom_base (unat z) \<le> n" "n < zoom_base (unat z) + 4 ^ unat z"
  shows "\<exists>i x y. n = unat i \<and> zxy_to_tile_id z x y = Ok i"
proof -
  have "n - zoom_base (unat z) \<in> hilbert (unat z) ` square (unat z)" using assms(2,3) by (simp add: hilbert_image)
  then obtain a b where "n - zoom_base (unat z) = hilbert (unat z) (a, b)" "a < 2 ^ unat z" "b < 2 ^ unat z" by auto
  then have ab: "n = zoom_base (unat z) + hilbert (unat z) (a, b)" "a < 2 ^ unat z" "b < 2 ^ unat z"
    using assms(2) by simp_all
  have "(2 :: nat) ^ unat z < 2 ^ 32" using assms(1) by (intro power_strict_increasing) simp_all
  then have u: "unat (of_nat a :: u32) = a" "unat (of_nat b :: u32) = b"
    using ab by (simp_all add: unat_of_nat take_bit_nat_eq_self)
  have "zxy_to_tile_id z (of_nat a) (of_nat b) = Ok (of_nat n)"
    using assms(1) ab u by (simp add: zxy_to_tile_id_eq on_map_def del: of_nat_add)
  moreover have "unat (of_nat n :: u64) = n"
    using assms(3) zoom_base_bound [OF assms(1)] by (intro unat_of_nat_u64) simp
  ultimately show ?thesis by metis
qed

text \<open>C20: Tile identifiers. A coordinate has an identifier exactly when its zoom is at most 31 and it lies on the grid
  of its zoom; the identifiers of one zoom level are exactly the interval of length 4 ^ z that starts at
  (4 ^ z - 1) / 3, so no 64-bit operation overflows; and no two coordinates share an identifier.\<close>

theorem tile_ids_fill_zoom_levels:
  "(is_ok (zxy_to_tile_id z x y) \<longleftrightarrow> unat z \<le> 31 \<and> unat x < 2 ^ unat z \<and> unat y < 2 ^ unat z) \<and>
   (unat z \<le> 31 \<longrightarrow> {unat i | i. \<exists>x y. zxy_to_tile_id z x y = Ok i} =
      {(4 ^ unat z - 1) div 3 ..< (4 ^ unat z - 1) div 3 + 4 ^ unat z}) \<and>
   (zxy_to_tile_id z x y = Ok i \<and> zxy_to_tile_id z' x' y' = Ok i \<longrightarrow> (z, x, y) = (z', x', y'))"
proof (intro conjI impI)
  show "is_ok (zxy_to_tile_id z x y) \<longleftrightarrow> unat z \<le> 31 \<and> unat x < 2 ^ unat z \<and> unat y < 2 ^ unat z"
    by (auto simp: zxy_to_tile_id_eq on_map_def)
  assume z: "unat z \<le> 31"
  show "{unat i | i. \<exists>x y. zxy_to_tile_id z x y = Ok i} =
      {(4 ^ unat z - 1) div 3 ..< (4 ^ unat z - 1) div 3 + 4 ^ unat z}"
    using unat_tile_id tile_id_of [of z] z unfolding zoom_base_def [symmetric] by fastforce
next
  assume "zxy_to_tile_id z x y = Ok i \<and> zxy_to_tile_id z' x' y' = Ok i"
  then show "(z, x, y) = (z', x', y')" using tile_id_inj by blast
qed

theorem tile_ids_fill_zoom_levels_witness:
  "zxy_to_tile_id 1 1 0 = Ok 4 \<and> {unat i | i. \<exists>x y. zxy_to_tile_id 1 x y = Ok i} = {1..<5}"
proof -
  have "zxy_to_tile_id 1 1 0 = Ok 4" by code_simp
  then show ?thesis using tile_ids_fill_zoom_levels [of 1 1 0 4 1 1 0] by simp
qed

section \<open>Written archives\<close>

text \<open>What the entries of a write request promise: the payload of every coordinate.\<close>

definition stored :: "tile_entry list \<Rightarrow> u8 \<Rightarrow> u32 \<Rightarrow> u32 \<Rightarrow> u8 list option" where
  "stored entries z x y = map_of (map (\<lambda>e. ((te_z e, te_x e, te_y e), te_bytes e)) entries) (z, x, y)"

definition read_payload :: "gzip_codec \<Rightarrow> byte_files \<Rightarrow> network \<Rightarrow> string \<Rightarrow> u8 \<Rightarrow> u32 \<Rightarrow> u32 \<Rightarrow> pmtiles_error + u8 list" where
  "read_payload gz fs net uri z x y =
     and_then (read_pmtiles_tile gz fs net uri z x y) (\<lambda>r. decode_tile_payload gz (tr_bytes r) (ph_tile_compression (tr_header r)))"

definition within_budget :: "gzip_codec \<Rightarrow> write_options \<Rightarrow> tile_entry list \<Rightarrow> bool" where
  "within_budget gz options entries \<longleftrightarrow> length entries \<le> 419430 \<and>
     (\<forall>e \<in> set entries. length (te_bytes e) \<le> 16777216 \<and>
       (case encode_payload gz (te_bytes e) (tile_code options) of Inl _ \<Rightarrow> True | Inr b \<Rightarrow> length b \<le> 16777216))"

lemma root_length_field: "u64_at (build_header l c @ rest) 16 = al_root_length l"
  using build_header_fields(4) [of l c] by (simp add: u64_at_def)

lemma written_archiveI:
  assumes gz: "gzip_law gz" and a: "assemble gz entries options = Ok (archive, receipt)"
    and small: "length archive < 2 ^ 64" "u64_at archive 16 \<le> 16257" "within_budget gz options entries"
  shows "\<exists>ts encs dir meta. set ts = {t. \<exists>e \<in> set entries. identify_tile e = Ok t} \<and> (\<forall>e \<in> set entries. \<exists>t. identify_tile e = Ok t) \<and>
    sorted (map fst ts) \<and> distinct (map fst ts) \<and> length ts = length encs \<and>
    (\<forall>i < length ts. encode_payload gz (snd (ts ! i)) (tile_code options) = Ok (encs ! i)) \<and>
    written_archive gz entries (tile_code options) (map fst ts) dir meta encs archive"
proof -
  from assemble_Ok [OF a] obtain ts encs dir meta
    where ts: "set ts = {t. \<exists>e \<in> set entries. identify_tile e = Ok t}" "\<forall>e \<in> set entries. \<exists>t. identify_tile e = Ok t"
      "length ts = length entries" "sorted (map fst ts)" "distinct (map fst ts)"
    and encs: "list_all2 (\<lambda>t e. encode_payload gz (snd t) (tile_code options) = Ok e) ts encs"
    and dir: "gzip gz (encode_directory (placed (map fst ts) encs 0)) = Ok dir"
    and archive: "archive = build_header (layout_of entries (map fst ts) dir meta encs) (tile_code options) @ dir @ meta @ concat encs"
    by blast
  have ne: "entries \<noteq> []" using a by (auto simp: assemble_def)
  have len: "length ts = length encs" and enc: "\<forall>i < length ts. encode_payload gz (snd (ts ! i)) (tile_code options) = Ok (encs ! i)"
    using encs by (auto simp: list_all2_conv_all_nth)
  have n: "length ts \<le> 419430" using small(3) ts(3) by (simp add: within_budget_def)
  have "encs ! i \<noteq> []" if i: "i < length encs" for i
  proof -
    from i len have "ts ! i \<in> set ts" by simp
    then obtain e where e: "e \<in> set entries" "identify_tile e = Ok (ts ! i)" using ts(1) by auto
    then have "te_bytes e \<noteq> []" "snd (ts ! i) = te_bytes e" by (auto simp: identify_tile_Ok)
    moreover have "length (te_bytes e) \<le> 16777216" using small(3) e(1) by (simp add: within_budget_def)
    ultimately show ?thesis using encode_payload_Ok [OF gz] enc i len by metis
  qed
  then have "[] \<notin> set encs" by (metis in_set_conv_nth)
  then have ok: "directory_ok (placed (map fst ts) encs 0)"
    using ts ne n len small(1) by (intro placed_directory_ok) (auto simp: archive)
  have "length (encode_directory (placed (map fst ts) encs 0)) \<le> 16777216"
    using length_encode_directory_le [of "placed (map fst ts) encs 0"] n by simp
  with decode_encode_directory [OF gz ok dir] have d: "decode_directory gz dir 2 = Ok (placed (map fst ts) encs 0)" by simp
  have "u64_at archive 16 = of_nat (length dir)" unfolding archive root_length_field by (simp add: layout_of_def)
  moreover have "length dir < 2 ^ 64" using small(1) by (simp add: archive)
  ultimately have "length dir \<le> 16257" using small(2) by (simp add: word_le_nat_alt unat_of_nat_u64)
  moreover have "dir \<noteq> []" using gz dir by (auto simp: gzip_law_def gzip_def)
  ultimately have "written_archive gz entries (tile_code options) (map fst ts) dir meta encs archive"
    using ne small(1) d archive by (simp add: written_archive_def)
  with ts len enc show ?thesis by blast
qed

lemma read_stored:
  assumes gz: "gzip_law gz" and a: "assemble gz entries options = Ok (archive, receipt)"
    and local: "\<not> is_remote_uri path" and archive: "fs' path = Some archive" "length archive < 2 ^ 64" "u64_at archive 16 \<le> 16257"
    and budget: "within_budget gz options entries" and s: "stored entries z x y = Some b"
  shows "\<exists>r. read_pmtiles_tile gz fs' net path z x y = Ok r \<and>
    decode_tile_payload gz (tr_bytes r) (ph_tile_compression (tr_header r)) = Ok b"
proof -
  from written_archiveI [OF gz a archive(2,3) budget] obtain ts encs dir meta
    where ts: "set ts = {t. \<exists>e \<in> set entries. identify_tile e = Ok t}" "\<forall>e \<in> set entries. \<exists>t. identify_tile e = Ok t"
      "sorted (map fst ts)" "distinct (map fst ts)" "length ts = length encs"
    and enc: "\<forall>i < length ts. encode_payload gz (snd (ts ! i)) (tile_code options) = Ok (encs ! i)"
    and w: "written_archive gz entries (tile_code options) (map fst ts) dir meta encs archive"
    by blast
  from s obtain e where e: "e \<in> set entries" "te_z e = z" "te_x e = x" "te_y e = y" "te_bytes e = b"
    by (auto simp: stored_def dest!: map_of_SomeD)
  with ts(2) obtain t where t: "identify_tile e = Ok t" by blast
  then have "t \<in> set ts" using ts(1) e(1) by blast
  then obtain i where i: "i < length ts" "t = ts ! i" by (auto simp: in_set_conv_nth)
  have b: "b \<noteq> []" "snd (ts ! i) = b" "zxy_to_tile_id z x y = Ok (map fst ts ! i)" "length b \<le> 16777216"
    using t i e budget by (auto simp: identify_tile_Ok within_budget_def)
  have enc_i: "encode_payload gz b (tile_code options) = Ok (encs ! i)" using enc i b(2) by auto
  note p = encode_payload_Ok [OF gz enc_i b(1,4)]
  have "length (encs ! i) \<le> 16777216" using budget e(1,5) enc_i by (force simp: within_budget_def)
  moreover have "zoom_min entries \<le> z" "z \<le> zoom_max entries" using zoom_bounds [OF e(1)] e(2) by simp_all
  ultimately show ?thesis
    using read_written [where fs = fs', OF w _ local archive(1), of z x y i net] ts b(3) i p by auto
qed

lemma read_not_stored:
  assumes gz: "gzip_law gz" and a: "assemble gz entries options = Ok (archive, receipt)"
    and local: "\<not> is_remote_uri path" and archive: "fs' path = Some archive" "length archive < 2 ^ 64" "u64_at archive 16 \<le> 16257"
    and budget: "within_budget gz options entries" and s: "stored entries z x y = None"
  shows "read_pmtiles_tile gz fs' net path z x y = Err (TileNotFound z x y)"
proof -
  from written_archiveI [OF gz a archive(2,3) budget] obtain ts encs dir meta
    where ts: "set ts = {t. \<exists>e \<in> set entries. identify_tile e = Ok t}" "length ts = length encs"
    and w: "written_archive gz entries (tile_code options) (map fst ts) dir meta encs archive"
    by blast
  from s have none: "\<forall>e \<in> set entries. (te_z e, te_x e, te_y e) \<noteq> (z, x, y)" by (force simp: stored_def map_of_eq_None_iff)
  show ?thesis
  proof (rule read_missing [where fs = fs', OF w _ local archive(1)])
    show "tile_id \<notin> set (map fst ts)" if "zxy_to_tile_id z x y = Ok tile_id" for tile_id
      using that none ts(1) tile_id_inj by (force simp: identify_tile_Ok)
  qed (use ts in simp)
qed

text \<open>C17: Archives give back exactly what was written. When a write of an archive to a local path succeeds, the root
  directory fits the limit of the reader (its length is at offset 16 of the archive) and the payloads are within the
  16 MiB budget of the reader, then reading any coordinate and decoding the payload gives the bytes that were written for
  it, and a coordinate that was not written is reported as missing. The gzip coder is assumed to be invertible.\<close>

theorem archive_round_trip:
  assumes gz: "gzip_law gz" and w: "write_pmtiles_archive gz outcome path entries options fs = (Ok receipt, fs')"
    and local: "\<not> is_remote_uri path" and archive: "fs' path = Some archive" "length archive < 2 ^ 64" "u64_at archive 16 \<le> 16257"
    and budget: "within_budget gz options entries"
  shows "read_payload gz fs' net path z x y = ok_or (stored entries z x y) (TileNotFound z x y)"
proof -
  from write_Ok [OF w] archive(1) have a: "assemble gz entries options = Ok (archive, receipt)" by force
  note found = read_stored [where fs' = fs', OF gz a local archive budget] and missing = read_not_stored [where fs' = fs', OF gz a local archive budget]
  show ?thesis
  proof (cases "stored entries z x y")
    case None
    then show ?thesis using missing [OF None, of net] by (simp add: read_payload_def ok_or_def)
  next
    case (Some b)
    then show ?thesis using found [OF Some, of net] by (auto simp: read_payload_def ok_or_def)
  qed
qed

text \<open>A stored-block coder: one marker byte before the content.\<close>

definition plain_codec :: gzip_codec where
  "plain_codec = \<lparr>gz_encode = \<lambda>b. Ok (0 # b), gz_decode = \<lambda>n e. Ok (take n (tl e))\<rparr>"

definition sample_entries :: "tile_entry list" where
  "sample_entries = [\<lparr>te_z = 1, te_x = 1, te_y = 0, te_bytes = [7, 8]\<rparr>, \<lparr>te_z = 0, te_x = 0, te_y = 0, te_bytes = [9]\<rparr>]"

definition no_network :: network where
  "no_network = \<lparr>net_parse_url = \<lambda>_. Err ''offline'', net_allowed_hosts = None, net_send = \<lambda>_ _. Err ''offline''\<rparr>"

lemma plain_codec_law: "gzip_law plain_codec"
  by (auto simp: gzip_law_def plain_codec_def)

abbreviation sample_options :: write_options where
  "sample_options \<equiv> write_options_compressed ''{}''"

definition sample_archive :: "u8 list" where
  "sample_archive = (case assemble plain_codec sample_entries sample_options of Inl _ \<Rightarrow> [] | Inr (a, _) \<Rightarrow> a)"

lemma sample_facts:
  "\<exists>receipt. assemble plain_codec sample_entries sample_options = Ok (sample_archive, receipt)"
  "length sample_archive < 2 ^ 64" "u64_at sample_archive 16 \<le> 16257" "within_budget plain_codec sample_options sample_entries"
  "\<not> is_remote_uri ''a.pmtiles''"
proof -
  have "case assemble plain_codec sample_entries sample_options of Inl _ \<Rightarrow> False
    | Inr (a, _) \<Rightarrow> length a \<le> 200 \<and> u64_at a 16 \<le> 16257" by code_simp
  then show "\<exists>receipt. assemble plain_codec sample_entries sample_options = Ok (sample_archive, receipt)"
    "length sample_archive < 2 ^ 64" "u64_at sample_archive 16 \<le> 16257"
    by (auto simp: sample_archive_def split: sum.splits)
  show "within_budget plain_codec sample_options sample_entries"
    by (simp add: within_budget_def sample_entries_def encode_payload_def gzip_def plain_codec_def)
  show "\<not> is_remote_uri ''a.pmtiles''" by code_simp
qed

theorem archive_round_trip_witness:
  "read_payload plain_codec [''a.pmtiles'' \<mapsto> sample_archive] no_network ''a.pmtiles'' 1 1 0 = Ok [7, 8] \<and>
   read_payload plain_codec [''a.pmtiles'' \<mapsto> sample_archive] no_network ''a.pmtiles'' 1 0 0 = Err (TileNotFound 1 0 0)"
proof -
  obtain receipt where "assemble plain_codec sample_entries sample_options = Ok (sample_archive, receipt)"
    using sample_facts(1) by blast
  then have "write_pmtiles_archive plain_codec Written ''a.pmtiles'' sample_entries sample_options Map.empty =
      (Ok receipt, [''a.pmtiles'' \<mapsto> sample_archive])" by (simp add: write_pmtiles_archive_def)
  note r = archive_round_trip [OF plain_codec_law this sample_facts(5) _ sample_facts(2-4), of no_network]
  have "stored sample_entries 1 1 0 = Some [7, 8]" "stored sample_entries 1 0 0 = None" by code_simp+
  with r [of 1 1 0] r [of 1 0 0] show ?thesis by (simp add: ok_or_def)
qed

text \<open>An archive whose compressed root directory is longer than 16257 bytes is written successfully, and afterwards no
  tile of it can be read, whatever the coordinate: every read is refused because of the limit on the root directory.\<close>

theorem oversized_root_unreadable:
  assumes w: "write_pmtiles_archive gz outcome path entries options fs = (Ok receipt, fs')"
    and local: "\<not> is_remote_uri path" and archive: "fs' path = Some archive" "length archive < 2 ^ 64" "16257 < u64_at archive 16"
  shows "read_pmtiles_tile gz fs' net path z x y = Err (Invalid ''section bounds, root latency limit, or zoom range are invalid'')"
proof -
  from write_Ok [OF w] archive(1) have "assemble gz entries options = Ok (archive, receipt)" by force
  from assemble_Ok [OF this] obtain l c rest where a: "archive = build_header l c @ rest" by blast
  have "build_header l c \<noteq> []" by (metis length_build_header length_0_conv zero_neq_numeral)
  then obtain q where q: "read_exact_range fs' net path 0 HEADER_BYTES [] = Ok (build_header l c, q)"
    using read_exact_local [OF local, where fs = fs' and a = "[]" and b = "build_header l c" and c = rest] archive(1,2) a
    by (simp add: HEADER_BYTES_def)
  have "16257 < unat (al_root_length l)" using archive(3) by (simp add: a root_length_field word_less_nat_alt)
  then have "invalid_section HEADER_BYTES (al_root_length l) ROOT_DIRECTORY_LIMIT"
    by (simp add: invalid_section_iff HEADER_BYTES_def ROOT_DIRECTORY_LIMIT_def)
  moreover have "object_length fs' net path = Ok (of_nat (length archive))" using local archive(1) by (simp add: object_length_def)
  ultimately show ?thesis using q by (simp add: read_pmtiles_tile_def parse_build_header)
qed

text \<open>A coder that pads: the root directory of any archive is longer than the limit.\<close>

definition padding_codec :: gzip_codec where
  "padding_codec = \<lparr>gz_encode = \<lambda>b. Ok (replicate 16384 0 @ b), gz_decode = \<lambda>n e. Ok (take n (drop 16384 e))\<rparr>"

abbreviation one_tile :: tile_entry where
  "one_tile \<equiv> \<lparr>te_z = 0, te_x = 0, te_y = 0, te_bytes = [9]\<rparr>"

abbreviation raw_options :: write_options where
  "raw_options \<equiv> \<lparr>wo_metadata_json = [], wo_compress_tiles = False\<rparr>"

lemma padded_write:
  "\<exists>receipt archive. assemble padding_codec [one_tile] raw_options = Ok (archive, receipt) \<and>
    length archive < 2 ^ 64 \<and> 16257 < u64_at archive 16"
proof -
  have i: "identify_tile one_tile = Ok (0, [9])" by code_simp
  let ?d = "encode_directory [\<lparr>de_tile_id = 0, de_offset = 0, de_length = 1, de_run_length = 1\<rparr>]"
  have d: "length ?d = 5" by code_simp
  have "\<exists>l receipt. assemble padding_codec [one_tile] raw_options =
      Ok (build_header l 1 @ replicate 16384 0 @ ?d @ replicate 16384 0 @ [9], receipt) \<and> al_root_length l = 16389"
    by (simp add: assemble_def i Let_def place_tile_def encode_payload_def gzip_def padding_codec_def bytes_of_string_def d)
      (intro exI conjI, rule refl, simp)
  then obtain l receipt where "assemble padding_codec [one_tile] raw_options =
      Ok (build_header l 1 @ replicate 16384 0 @ ?d @ replicate 16384 0 @ [9], receipt)" "al_root_length l = 16389" by blast
  then show ?thesis using d by (simp add: root_length_field)
qed

theorem oversized_root_unreadable_witness:
  "\<exists>archive receipt. write_pmtiles_archive padding_codec Written ''a.pmtiles'' [one_tile] raw_options Map.empty =
      (Ok receipt, [''a.pmtiles'' \<mapsto> archive]) \<and>
    read_pmtiles_tile padding_codec [''a.pmtiles'' \<mapsto> archive] no_network ''a.pmtiles'' 0 0 0 =
      Err (Invalid ''section bounds, root latency limit, or zoom range are invalid'')"
proof -
  obtain receipt archive where a: "assemble padding_codec [one_tile] raw_options = Ok (archive, receipt)"
    "length archive < 2 ^ 64" "16257 < u64_at archive 16" using padded_write by blast
  then have w: "write_pmtiles_archive padding_codec Written ''a.pmtiles'' [one_tile] raw_options Map.empty =
      (Ok receipt, [''a.pmtiles'' \<mapsto> archive])" by (simp add: write_pmtiles_archive_def)
  show ?thesis using w oversized_root_unreadable [OF w sample_facts(5) _ a(2,3)] by auto
qed

section \<open>Requests\<close>

lemma read_exact_range_Ok:
  assumes "read_exact_range fs net uri start len requests = Ok (bytes, requests')"
  shows "\<exists>r. requests' = requests @ [r] \<and> io_start r = start \<and> \<not> malformed_request 16777216 r \<and>
    io_response_bytes r = of_nat (length bytes) \<and> of_nat (length bytes) = len \<and> (is_remote_uri uri \<longrightarrow> io_http_status r = Some 206)"
proof -
  from assms obtain stop status where len: "len \<noteq> 0" "\<not> MAX_DIRECTORY_BYTES < len"
    and stop: "checked_add start (len - 1) = Some stop" "\<not> stop < start"
    and f: "fetch_range fs net uri \<lparr>br_start = start, br_end = stop\<rparr> = Ok (bytes, status)"
    and b: "of_nat (length bytes) = len"
    and q: "requests' = requests @ [\<lparr>io_start = start, io_end = stop, io_response_bytes = of_nat (length bytes), io_http_status = status\<rparr>]"
    by (auto simp: read_exact_range_def result_simps byte_range_new_def split: if_splits)
  have "stop - start + 1 = len" using stop(1) by (auto simp: checked_add_def split: if_splits)
  moreover have "is_remote_uri uri \<longrightarrow> status = Some 206" using f by (auto simp: fetch_range_def result_simps split: if_splits)
  ultimately show ?thesis using q b stop(2) len(2) by (simp add: malformed_request_def MAX_DIRECTORY_BYTES_def)
qed

lemma receipt_accepts_requests:
  assumes "\<forall>q \<in> set requests. \<not> malformed_request 16777216 q" "16777216 \<le> ib_maximum_response_bytes budget"
  shows "set (io_validate (io_receipt_new format digest object_bytes logical_bytes selection requests
      False items elapsed rss gpu) budget) \<inter> {BudgetWholeObjectFallback, ResponseExceeded, MalformedRequestEvidence} = {}"
proof -
  have le: "io_response_bytes q \<le> ib_maximum_response_bytes budget \<and> \<not> malformed_request (ib_maximum_response_bytes budget) q"
    if "q \<in> set requests" for q
    using assms(1) that assms(2) by (auto simp: malformed_request_def not_less intro: order_trans)
  have "fold max (map io_response_bytes requests) m \<le> ib_maximum_response_bytes budget"
    if "m \<le> ib_maximum_response_bytes budget" for m
    using le that by (induction requests arbitrary: m) auto
  from this [of 0] le show ?thesis
    by (auto simp: io_validate_set failure_holds_def io_receipt_new_def not_less)
qed

text \<open>The evidence of a successful read, local or remote, is consistent: every request covers as many bytes as were
  received, at most 16 MiB; three or four requests are made, the first for the 127 bytes of the header, and the last one
  delivered the tile. A server that answers with the whole object instead of a range fails the read. So the receipt of a
  read is never reported for its requests by a budget that allows responses of 16 MiB.\<close>

theorem read_requests_well_formed:
  assumes "read_pmtiles_tile gz fs net uri z x y = Ok r"
  shows "length (tr_requests r) \<in> {3, 4} \<and> io_start (hd (tr_requests r)) = 0 \<and> io_response_bytes (hd (tr_requests r)) = 127 \<and>
    io_response_bytes (last (tr_requests r)) = of_nat (length (tr_bytes r)) \<and>
    (\<forall>q \<in> set (tr_requests r). is_remote_uri uri \<longrightarrow> io_http_status q = Some 206) \<and>
    (16777216 \<le> ib_maximum_response_bytes budget \<longrightarrow>
      set (io_validate (io_receipt_new PmTiles digest (tr_object_bytes r) logical_bytes (PmTilesTile z x y) (tr_requests r)
        False items elapsed rss gpu) budget) \<inter> {BudgetWholeObjectFallback, ResponseExceeded, MalformedRequestEvidence} = {})"
proof -
  from assms obtain h qs1 qs2 root_bytes header selected entry qs3 bytes start qs4
    where q1: "read_exact_range fs net uri 0 HEADER_BYTES [] = Ok (h, qs1)"
      and q2: "read_exact_range fs net uri (ph_root_directory_offset header) (ph_root_directory_length header) qs1 = Ok (root_bytes, qs2)"
      and q3: "find_tile gz fs net uri header (TileNotFound z x y) (tr_tile_id r) selected qs2 = Ok (entry, qs3)"
      and q4: "read_exact_range fs net uri start (de_length entry) qs3 = Ok (bytes, qs4)"
      and r: "tr_bytes r = bytes" "tr_requests r = qs4"
    by (auto simp: read_pmtiles_tile_def result_simps Let_def split: if_splits)
  from read_exact_range_Ok [OF q1] read_exact_range_Ok [OF q2] read_exact_range_Ok [OF q4] obtain a b d
    where qs: "qs1 = [a]" "qs2 = [a, b]" "qs4 = qs3 @ [d]" "io_start a = 0" "io_response_bytes a = 127"
      "io_response_bytes d = of_nat (length bytes)"
      and wf: "\<forall>q \<in> {a, b, d}. \<not> malformed_request 16777216 q \<and> (is_remote_uri uri \<longrightarrow> io_http_status q = Some 206)"
    by (auto simp: HEADER_BYTES_def)
  from q3 consider "qs3 = qs2" | leaf start' where "read_exact_range fs net uri start' (de_length selected) qs2 = Ok (leaf, qs3)"
    by (auto simp: find_tile_def result_simps split: if_splits)
  then have "length (tr_requests r) \<in> {3, 4} \<and> hd (tr_requests r) = a \<and> last (tr_requests r) = d \<and>
    (\<forall>q \<in> set (tr_requests r). \<not> malformed_request 16777216 q \<and> (is_remote_uri uri \<longrightarrow> io_http_status q = Some 206))"
  proof cases
    case 1
    with qs wf r show ?thesis by simp
  next
    case 2
    from read_exact_range_Ok [OF 2] obtain c where "qs3 = [a, b, c]"
      "\<not> malformed_request 16777216 c \<and> (is_remote_uri uri \<longrightarrow> io_http_status c = Some 206)" using qs by auto
    with qs wf r show ?thesis by simp
  qed
  with qs r receipt_accepts_requests [of "tr_requests r" budget] show ?thesis by simp
qed

theorem read_requests_well_formed_witness:
  "\<exists>r. read_pmtiles_tile plain_codec [''a.pmtiles'' \<mapsto> sample_archive] no_network ''a.pmtiles'' 1 1 0 = Ok r \<and>
    length (tr_requests r) \<in> {3, 4}"
proof -
  obtain receipt where a: "assemble plain_codec sample_entries sample_options = Ok (sample_archive, receipt)"
    using sample_facts(1) by blast
  have "stored sample_entries 1 1 0 = Some [7, 8]" by code_simp
  from read_stored [OF plain_codec_law a sample_facts(5) _ sample_facts(2-4) this, of "[''a.pmtiles'' \<mapsto> sample_archive]" no_network]
  obtain r where r: "read_pmtiles_tile plain_codec [''a.pmtiles'' \<mapsto> sample_archive] no_network ''a.pmtiles'' 1 1 0 = Ok r" by auto
  with read_requests_well_formed [OF r, of "io_budget_ci False"] show ?thesis by blast
qed

end
