(* ===== verification/Source_Assurance.thy ===== *)
theory Source_Assurance
  imports Json
begin

text \<open>
  Evidence dossiers for source snapshots and the policy that assesses them
  (\<open>genegis-contract/src/source_assurance.rs\<close>). Serialising a dossier to JSON text belongs to
  \<open>serde_json\<close> and is the parameter \<open>to_vec\<close>, whose error is \<^const>\<open>None\<close>; the hash function is the
  parameter \<open>sha\<close>. A \<open>BTreeSet\<close> is its element list in increasing order.
\<close>

section \<open>Dossiers\<close>

definition SOURCE_ASSURANCE_SCHEMA_VERSION :: string where
  "SOURCE_ASSURANCE_SCHEMA_VERSION = ''0.1.0''"

datatype authority_class =
    PrimaryOfficial | DelegatedOfficial | PeerReviewed | CommunityMaintained | Commercial
  | UnknownAuthority

datatype assurance_check_kind =
    SchemaCheck | Completeness | SpatialCoverage | TemporalConsistency | AnomalyDetection
  | CrossSourceAgreement

text \<open>The derived \<open>Debug\<close> text of a check kind.\<close>

fun debug_check_kind :: "assurance_check_kind \<Rightarrow> string" where
  "debug_check_kind SchemaCheck = ''Schema''"
| "debug_check_kind Completeness = ''Completeness''"
| "debug_check_kind SpatialCoverage = ''SpatialCoverage''"
| "debug_check_kind TemporalConsistency = ''TemporalConsistency''"
| "debug_check_kind AnomalyDetection = ''AnomalyDetection''"
| "debug_check_kind CrossSourceAgreement = ''CrossSourceAgreement''"

record assurance_check =
  ac_check_id :: string
  ac_kind :: assurance_check_kind
  ac_passed :: bool
  ac_evidence_digest :: string
  ac_verifier_identity :: string

datatype corroboration_independence =
    SamePublication | SameOrganization | IndependentPublisher | IndependentMeasurement

fun is_independent :: "corroboration_independence \<Rightarrow> bool" where
  "is_independent IndependentPublisher = True"
| "is_independent IndependentMeasurement = True"
| "is_independent _ = False"

record corroboration_evidence =
  ce_source_id :: string
  ce_snapshot_digest :: string
  ce_independence :: corroboration_independence
  ce_agrees :: bool
  ce_evidence_digest :: string

datatype dispute_status = DisputeOpen | DisputeAcknowledged | DisputeResolved

record dispute_record =
  dp_dispute_id :: string
  dp_status :: dispute_status
  dp_summary :: string
  dp_evidence_digest :: "string option"

record source_uncertainty =
  su_method :: string
  su_relative_ppm :: "u64 option"
  su_scope :: string

record source_assurance =
  sa_schema_version :: string
  sa_source_id :: string
  sa_snapshot_digest :: string
  sa_publisher :: string
  sa_authority_class :: authority_class
  sa_published_at :: "string option"
  sa_assessed_at :: string
  sa_observed_age_days :: "u32 option"
  sa_checks :: "assurance_check list"
  sa_corroborations :: "corroboration_evidence list"
  sa_uncertainty :: "source_uncertainty option"
  sa_disputes :: "dispute_record list"
  sa_limitations :: "string list"

definition source_assurance_new :: "string \<Rightarrow> string \<Rightarrow> string \<Rightarrow> authority_class \<Rightarrow> source_assurance" where
  "source_assurance_new source_id snapshot_digest publisher authority =
     \<lparr>sa_schema_version = SOURCE_ASSURANCE_SCHEMA_VERSION, sa_source_id = source_id,
      sa_snapshot_digest = snapshot_digest, sa_publisher = publisher, sa_authority_class = authority,
      sa_published_at = None, sa_assessed_at = [], sa_observed_age_days = None, sa_checks = [],
      sa_corroborations = [], sa_uncertainty = None, sa_disputes = [], sa_limitations = []\<rparr>"

type_synonym to_vec = "source_assurance \<Rightarrow> string option"

definition source_assurance_digest :: "to_vec \<Rightarrow> sha256 \<Rightarrow> source_assurance \<Rightarrow> string option" where
  "source_assurance_digest to_vec sha a = map_option (\<lambda>bytes. ''sha256:'' @ hex (sha bytes)) (to_vec a)"

section \<open>Policies and reports\<close>

record assurance_policy =
  ap_accepted_authority_classes :: "authority_class list"
  ap_max_age_days :: "u32 option"
  ap_required_checks :: "assurance_check_kind list"
  ap_minimum_independent_corroborations :: u32
  ap_require_uncertainty :: bool
  ap_require_limitations :: bool
  ap_allow_unresolved_disputes :: bool

datatype assurance_level = Unassessed | Identified | Checked | Corroborated

record assurance_failure =
  af_code :: string
  af_subject :: string
  af_detail :: string

record assurance_report =
  ar_level :: assurance_level
  ar_passed :: bool
  ar_assurance_digest :: "string option"
  ar_failures :: "assurance_failure list"
  ar_scope_statement :: string

definition mk_assurance_failure :: "string \<Rightarrow> string \<Rightarrow> string \<Rightarrow> assurance_failure" where
  "mk_assurance_failure code subject detail = \<lparr>af_code = code, af_subject = subject, af_detail = detail\<rparr>"

text \<open>\<open>if bad { push_failure(..) }\<close>.\<close>

definition fail_if :: "bool \<Rightarrow> 'f \<Rightarrow> 'f list" where
  "fail_if bad f = (if bad then [f] else [])"

lemma fail_if_Nil [simp]: "fail_if bad f = [] \<longleftrightarrow> \<not> bad" "[] = fail_if bad f \<longleftrightarrow> \<not> bad"
  by (simp_all add: fail_if_def)

definition assurance_valid_digest :: "string \<Rightarrow> bool" where
  "assurance_valid_digest value =
     (case strip_prefix ''sha256:'' value of
        None \<Rightarrow> False
      | Some h \<Rightarrow> length h = 64 \<and> list_all is_ascii_hexdigit h)"

definition mk_assurance_report ::
  "assurance_level \<Rightarrow> bool \<Rightarrow> string option \<Rightarrow> assurance_failure list \<Rightarrow> assurance_report" where
  "mk_assurance_report level passed digest failures =
     \<lparr>ar_level = level, ar_passed = passed, ar_assurance_digest = digest, ar_failures = failures,
      ar_scope_statement = ''This assessment verifies declared evidence against a use-case policy; it does not prove universal truth.''\<rparr>"

section \<open>Assessment\<close>

definition identity_failures :: "source_assurance \<Rightarrow> assurance_failure list" where
  "identity_failures a =
     fail_if (sa_schema_version a \<noteq> SOURCE_ASSURANCE_SCHEMA_VERSION)
       (mk_assurance_failure ''unsupported_assurance_schema'' (sa_schema_version a)
         ''source assurance schema version is not supported'') @
     concat (map (\<lambda>(code, subject, value).
         fail_if (\<not> (if code = ''invalid_snapshot_digest'' then assurance_valid_digest value else \<not> blank value))
           (mk_assurance_failure code subject
             ''required source identity evidence is missing or malformed''))
       [(''missing_source_id'', ''source'', sa_source_id a),
        (''invalid_snapshot_digest'', sa_source_id a, sa_snapshot_digest a),
        (''missing_publisher'', sa_source_id a, sa_publisher a),
        (''missing_assessed_at'', sa_source_id a, sa_assessed_at a)]) @
     fail_if (case sa_published_at a of None \<Rightarrow> False | Some value \<Rightarrow> blank value)
       (mk_assurance_failure ''invalid_published_at'' (sa_source_id a) ''published_at is present but empty'')"

definition authority_failures :: "assurance_policy \<Rightarrow> source_assurance \<Rightarrow> assurance_failure list" where
  "authority_failures p a =
     fail_if (ap_accepted_authority_classes p \<noteq> [] \<and>
         sa_authority_class a \<notin> set (ap_accepted_authority_classes p))
       (mk_assurance_failure ''authority_not_accepted'' (sa_publisher a)
         ''publisher authority class is not accepted for this use case'')"

definition freshness_failures :: "assurance_policy \<Rightarrow> source_assurance \<Rightarrow> assurance_failure list" where
  "freshness_failures p a =
     (case ap_max_age_days p of
        None \<Rightarrow> []
      | Some maximum \<Rightarrow>
          (case (sa_published_at a, sa_observed_age_days a) of
             (Some _, Some age) \<Rightarrow>
               fail_if (age > maximum)
                 (mk_assurance_failure ''source_stale'' (sa_source_id a)
                   (''observed age '' @ show_nat (unat age) @ '' days exceeds policy maximum '' @
                    show_nat (unat maximum) @ '' days''))
           | _ \<Rightarrow>
               [mk_assurance_failure ''source_freshness_unknown'' (sa_source_id a)
                 ''policy requires freshness but publication date or observed age is unknown'']))"

text \<open>The loop over the checks with its set of identifiers seen so far.\<close>

fun check_failures :: "string list \<Rightarrow> assurance_check list \<Rightarrow> assurance_failure list" where
  "check_failures seen [] = []"
| "check_failures seen (c # cs) =
     fail_if (blank (ac_check_id c) \<or> ac_check_id c \<in> set seen)
       (mk_assurance_failure ''invalid_assurance_check'' (ac_check_id c)
         ''check identifier is empty or duplicated'') @
     fail_if (blank (ac_verifier_identity c) \<or> \<not> assurance_valid_digest (ac_evidence_digest c))
       (mk_assurance_failure ''check_evidence_not_replayable'' (ac_check_id c)
         ''check lacks verifier identity or a valid evidence digest'') @
     check_failures (if blank (ac_check_id c) then seen else bs_insert (ac_check_id c) seen) cs"

definition required_check_failures :: "assurance_policy \<Rightarrow> source_assurance \<Rightarrow> assurance_failure list" where
  "required_check_failures p a =
     concat (map (\<lambda>required.
        case find (\<lambda>c. ac_kind c = required) (sa_checks a) of
          None \<Rightarrow> [mk_assurance_failure ''required_assurance_check_missing'' (debug_check_kind required)
                    ''required source-assurance check is missing'']
        | Some c \<Rightarrow> fail_if (\<not> ac_passed c)
            (mk_assurance_failure ''required_assurance_check_failed'' (ac_check_id c)
              ''required source-assurance check failed'')) (ap_required_checks p))"

definition uncertainty_failures :: "assurance_policy \<Rightarrow> source_assurance \<Rightarrow> assurance_failure list" where
  "uncertainty_failures p a =
     (if ap_require_uncertainty p then
        fail_if (case sa_uncertainty a of
                   None \<Rightarrow> True
                 | Some u \<Rightarrow> \<not> (\<not> blank (su_method u) \<and> \<not> blank (su_scope u)))
          (mk_assurance_failure ''uncertainty_not_documented'' (sa_source_id a)
            ''policy requires uncertainty method and scope'')
      else [])"

definition limitation_failures :: "assurance_policy \<Rightarrow> source_assurance \<Rightarrow> assurance_failure list" where
  "limitation_failures p a =
     fail_if (ap_require_limitations p \<and> \<not> list_ex (\<lambda>l. \<not> blank l) (sa_limitations a))
       (mk_assurance_failure ''limitations_not_documented'' (sa_source_id a)
         ''policy requires an explicit limitation or non-claim'')"

definition dispute_failures :: "assurance_policy \<Rightarrow> source_assurance \<Rightarrow> assurance_failure list" where
  "dispute_failures p a =
     (if ap_allow_unresolved_disputes p then []
      else map (\<lambda>d. mk_assurance_failure ''unresolved_source_dispute'' (dp_dispute_id d)
             ''an unresolved source challenge prevents assurance policy from passing'')
           (filter (\<lambda>d. dp_status d \<noteq> DisputeResolved) (sa_disputes a)))"

definition counts_as_independent :: "source_assurance \<Rightarrow> corroboration_evidence \<Rightarrow> bool" where
  "counts_as_independent a item =
     (is_independent (ce_independence item) \<and> ce_agrees item \<and>
      assurance_valid_digest (ce_snapshot_digest item) \<and> assurance_valid_digest (ce_evidence_digest item) \<and>
      ce_source_id item \<noteq> sa_source_id a)"

text \<open>\<open>count() as u32\<close>.\<close>

definition independent_count :: "source_assurance \<Rightarrow> u32" where
  "independent_count a = of_nat (length (filter (counts_as_independent a) (sa_corroborations a)))"

definition policy_failures :: "assurance_policy \<Rightarrow> source_assurance \<Rightarrow> assurance_failure list" where
  "policy_failures p a =
     authority_failures p a @ freshness_failures p a @ check_failures [] (sa_checks a) @
     required_check_failures p a @ uncertainty_failures p a @ limitation_failures p a @ dispute_failures p a"

definition assess_assurance ::
  "to_vec \<Rightarrow> sha256 \<Rightarrow> assurance_policy \<Rightarrow> source_assurance \<Rightarrow> assurance_report" where
  "assess_assurance to_vec sha p a =
     (let identity = identity_failures a;
          digest = source_assurance_digest to_vec sha a in
      if identity \<noteq> [] \<or> digest = None then mk_assurance_report Unassessed False digest identity
      else
        let failures = policy_failures p a in
        if failures \<noteq> [] then mk_assurance_report Identified False digest failures
        else
          let independent = independent_count a; minimum = ap_minimum_independent_corroborations p in
          if independent < minimum then
            mk_assurance_report Checked False digest
              [mk_assurance_failure ''insufficient_independent_corroboration'' (sa_source_id a)
                (show_nat (unat independent) @ '' independent agreeing sources; policy requires '' @
                 show_nat (unat minimum))]
          else
            mk_assurance_report (if minimum > 0 then Corroborated else Checked) True digest [])"

section \<open>What an assessment establishes\<close>

definition sha256_identity :: "string \<Rightarrow> bool" where
  "sha256_identity d \<longleftrightarrow> (\<exists>h. d = ''sha256:'' @ h \<and> length h = 64 \<and> (\<forall>c \<in> set h. is_ascii_hexdigit c))"

lemma assurance_valid_digest_iff: "assurance_valid_digest d \<longleftrightarrow> sha256_identity d"
  by (auto simp: assurance_valid_digest_def sha256_identity_def strip_prefix_def prefix_def list_all_iff
      split: option.splits)

text \<open>The declarative reading of a passing assessment.\<close>

definition dossier_identified :: "source_assurance \<Rightarrow> bool" where
  "dossier_identified a \<longleftrightarrow>
     sa_schema_version a = SOURCE_ASSURANCE_SCHEMA_VERSION \<and> \<not> blank (sa_source_id a) \<and>
     sha256_identity (sa_snapshot_digest a) \<and> \<not> blank (sa_publisher a) \<and> \<not> blank (sa_assessed_at a) \<and>
     (\<forall>t. sa_published_at a = Some t \<longrightarrow> \<not> blank t)"

definition fresh_enough :: "u32 option \<Rightarrow> source_assurance \<Rightarrow> bool" where
  "fresh_enough limit a \<longleftrightarrow>
     (\<forall>maximum. limit = Some maximum \<longrightarrow>
        sa_published_at a \<noteq> None \<and> (\<exists>age. sa_observed_age_days a = Some age \<and> unat age \<le> unat maximum))"

definition checks_replayable :: "assurance_check list \<Rightarrow> bool" where
  "checks_replayable cs \<longleftrightarrow> distinct (map ac_check_id cs) \<and>
     (\<forall>c \<in> set cs. \<not> blank (ac_check_id c) \<and> \<not> blank (ac_verifier_identity c) \<and>
        sha256_identity (ac_evidence_digest c))"

text \<open>What \<open>find\<close> selects: the first element with a given key is the one that counts.\<close>

definition first_with :: "('a \<Rightarrow> 'k) \<Rightarrow> 'k \<Rightarrow> 'a list \<Rightarrow> 'a \<Rightarrow> bool" where
  "first_with f k xs x \<longleftrightarrow> (\<exists>ys zs. xs = ys @ x # zs \<and> f x = k \<and> (\<forall>y \<in> set ys. f y \<noteq> k))"

definition dossier_checked :: "assurance_policy \<Rightarrow> source_assurance \<Rightarrow> bool" where
  "dossier_checked p a \<longleftrightarrow>
     (ap_accepted_authority_classes p = [] \<or> sa_authority_class a \<in> set (ap_accepted_authority_classes p)) \<and>
     fresh_enough (ap_max_age_days p) a \<and> checks_replayable (sa_checks a) \<and>
     (\<forall>k \<in> set (ap_required_checks p). \<exists>c. first_with ac_kind k (sa_checks a) c \<and> ac_passed c) \<and>
     (ap_require_uncertainty p \<longrightarrow>
        (\<exists>u. sa_uncertainty a = Some u \<and> \<not> blank (su_method u) \<and> \<not> blank (su_scope u))) \<and>
     (ap_require_limitations p \<longrightarrow> (\<exists>l \<in> set (sa_limitations a). \<not> blank l)) \<and>
     (ap_allow_unresolved_disputes p \<or> (\<forall>d \<in> set (sa_disputes a). dp_status d = DisputeResolved))"

lemma identity_failures_Nil: "identity_failures a = [] \<longleftrightarrow> dossier_identified a"
  by (auto simp: identity_failures_def dossier_identified_def assurance_valid_digest_iff split: option.splits)

lemma check_failures_Nil:
  "check_failures seen cs = [] \<longleftrightarrow>
     checks_replayable cs \<and> set (map ac_check_id cs) \<inter> set seen = {}"
  by (induction seen cs rule: check_failures.induct)
    (auto simp: checks_replayable_def assurance_valid_digest_iff)

lemma find_first_with: "find (\<lambda>x. f x = k) xs = Some x \<longleftrightarrow> first_with f k xs x"
proof (induction xs)
  case (Cons y xs)
  have "first_with f k (y # xs) x \<longleftrightarrow> (if f y = k then y = x else first_with f k xs x)"
    unfolding first_with_def by (auto simp: Cons_eq_append_conv) (metis set_ConsD)+
  with Cons show ?case by simp
qed (simp add: first_with_def)

lemma required_check_failures_Nil:
  "required_check_failures p a = [] \<longleftrightarrow>
     (\<forall>k \<in> set (ap_required_checks p). \<exists>c. first_with ac_kind k (sa_checks a) c \<and> ac_passed c)"
  by (auto simp: required_check_failures_def find_first_with [symmetric] split: option.splits)

lemma freshness_failures_Nil: "freshness_failures p a = [] \<longleftrightarrow> fresh_enough (ap_max_age_days p) a"
  by (auto simp: freshness_failures_def fresh_enough_def word_le_nat_alt [symmetric] not_less split: option.splits)

lemma policy_failures_Nil: "policy_failures p a = [] \<longleftrightarrow> dossier_checked p a"
  unfolding policy_failures_def append_is_Nil_conv freshness_failures_Nil check_failures_Nil
    required_check_failures_Nil dossier_checked_def
  by (auto simp: authority_failures_def uncertainty_failures_def limitation_failures_def dispute_failures_def
      list_ex_iff filter_empty_conv split: option.splits)

lemmas assurance_failure_lemmas = identity_failures_Nil policy_failures_Nil

lemma assurance_report_simps [simp]:
  "ar_level (mk_assurance_report l ok d fs) = l" "ar_passed (mk_assurance_report l ok d fs) = ok"
  "ar_assurance_digest (mk_assurance_report l ok d fs) = d" "ar_failures (mk_assurance_report l ok d fs) = fs"
  by (simp_all add: mk_assurance_report_def)

lemma assess_assurance_level:
  "ar_level (assess_assurance to_vec sha p a) =
     (if \<not> dossier_identified a \<or> to_vec a = None then Unassessed
      else if \<not> dossier_checked p a then Identified
      else if 0 < ap_minimum_independent_corroborations p \<and>
              ap_minimum_independent_corroborations p \<le> independent_count a then Corroborated
      else Checked)"
  using word_gt_0_no
  by (auto simp: assess_assurance_def Let_def assurance_failure_lemmas source_assurance_digest_def not_less
      word_neq_0_conv)

text \<open>An entry that corroborates: another source, published or measured independently, agrees, and both
  its snapshot and the evidence of the comparison are named by digests.\<close>

definition corroborates :: "source_assurance \<Rightarrow> corroboration_evidence \<Rightarrow> bool" where
  "corroborates a c \<longleftrightarrow>
     ce_independence c \<in> {IndependentPublisher, IndependentMeasurement} \<and> ce_agrees c \<and>
     sha256_identity (ce_snapshot_digest c) \<and> sha256_identity (ce_evidence_digest c) \<and>
     ce_source_id c \<noteq> sa_source_id a"

lemma counts_as_independent_iff: "counts_as_independent a c \<longleftrightarrow> corroborates a c"
  by (cases "ce_independence c") (auto simp: counts_as_independent_def corroborates_def assurance_valid_digest_iff)

text \<open>C13: an assessment of a dossier with fewer than \<open>2 ^ 32\<close> corroborations, the width of the counter,
  passes exactly when the dossier can be serialised, identifies its snapshot, meets every condition of
  the use-case policy, and lists at least the required number of agreeing comparisons from independent
  sources. A passing report carries the digest of the serialised dossier and no failure.\<close>

theorem assurance_passed_exact:
  assumes "length (sa_corroborations a) < 2 ^ 32" and "r = assess_assurance to_vec sha p a"
  shows "(ar_passed r \<longleftrightarrow>
      to_vec a \<noteq> None \<and> dossier_identified a \<and> dossier_checked p a \<and>
      unat (ap_minimum_independent_corroborations p) \<le> length (filter (corroborates a) (sa_corroborations a))) \<and>
    (ar_passed r \<longrightarrow> ar_failures r = [] \<and>
      (\<exists>doc. to_vec a = Some doc \<and> ar_assurance_digest r = Some (''sha256:'' @ hex (sha doc))))"
proof -
  let ?n = "length (filter (corroborates a) (sa_corroborations a))"
  have "?n < 2 ^ 32" using assms length_filter_le le_less_trans by blast
  moreover have "counts_as_independent a = corroborates a" using counts_as_independent_iff by blast
  ultimately have "unat (independent_count a) = ?n"
    by (simp add: independent_count_def unsigned_of_nat take_bit_nat_eq_self)
  then have "independent_count a < ap_minimum_independent_corroborations p \<longleftrightarrow>
      \<not> unat (ap_minimum_independent_corroborations p) \<le> ?n"
    by (simp add: word_less_nat_alt not_le)
  then show ?thesis
    unfolding assms(2) by (auto simp: assess_assurance_def Let_def assurance_failure_lemmas source_assurance_digest_def)
qed

text \<open>A dossier that lists the same corroborating source twice.\<close>

definition sample_digest :: "char \<Rightarrow> string" where
  "sample_digest c = ''sha256:'' @ replicate 64 c"

definition sample_corroboration :: corroboration_evidence where
  "sample_corroboration =
     \<lparr>ce_source_id = ''survey'', ce_snapshot_digest = sample_digest (CHR ''a''),
      ce_independence = IndependentMeasurement, ce_agrees = True,
      ce_evidence_digest = sample_digest (CHR ''b'')\<rparr>"

definition sample_dossier :: source_assurance where
  "sample_dossier =
     (source_assurance_new ''wards'' (sample_digest (CHR ''c'')) ''city'' PrimaryOfficial)
       \<lparr>sa_assessed_at := ''2026-01-01'', sa_published_at := Some ''2025-12-01'',
        sa_observed_age_days := Some 31,
        sa_corroborations := [sample_corroboration, sample_corroboration]\<rparr>"

definition sample_assurance_policy :: assurance_policy where
  "sample_assurance_policy =
     \<lparr>ap_accepted_authority_classes = [PrimaryOfficial], ap_max_age_days = Some 365,
      ap_required_checks = [], ap_minimum_independent_corroborations = 2,
      ap_require_uncertainty = False, ap_require_limitations = False,
      ap_allow_unresolved_disputes = False\<rparr>"

lemma valid_replicate: "is_ascii_hexdigit c \<Longrightarrow> assurance_valid_digest (sample_digest c)"
  by (simp add: sample_digest_def assurance_valid_digest_def strip_prefix_def list_all_iff)

lemma sample_dossier_passes:
  "ar_passed (assess_assurance (\<lambda>_. Some []) (\<lambda>_. []) sample_assurance_policy sample_dossier)"
proof -
  have "identity_failures sample_dossier = []"
    by (simp add: identity_failures_Nil dossier_identified_def assurance_valid_digest_iff [symmetric]
        sample_dossier_def source_assurance_new_def valid_replicate visible_not_blank
        trim_code visible_def is_ascii_hexdigit_def)
  moreover have "policy_failures sample_assurance_policy sample_dossier = []"
    by (simp add: policy_failures_Nil dossier_checked_def fresh_enough_def checks_replayable_def
        sample_dossier_def sample_assurance_policy_def source_assurance_new_def)
  moreover have "counts_as_independent sample_dossier sample_corroboration"
    by (simp add: counts_as_independent_def sample_corroboration_def sample_dossier_def
        source_assurance_new_def valid_replicate is_ascii_hexdigit_def)
  ultimately show ?thesis
    by (simp add: assess_assurance_def Let_def source_assurance_digest_def independent_count_def)
      (simp add: sample_dossier_def sample_assurance_policy_def)
qed

theorem assurance_passed_exact_witness:
  "length (sa_corroborations sample_dossier) < 2 ^ 32 \<and>
   dossier_identified sample_dossier \<and> dossier_checked sample_assurance_policy sample_dossier \<and>
   ar_failures (assess_assurance (\<lambda>_. Some []) (\<lambda>_. []) sample_assurance_policy sample_dossier) = []"
proof -
  have len: "length (sa_corroborations sample_dossier) < 2 ^ 32" by (simp add: sample_dossier_def)
  with assurance_passed_exact [OF len refl, of "\<lambda>_. Some []" "\<lambda>_. []" sample_assurance_policy]
    sample_dossier_passes show ?thesis by blast
qed

text \<open>One corroborating source listed twice satisfies a policy that asks for two.\<close>

lemma repeated_source_counts_twice:
  "ar_passed (assess_assurance (\<lambda>_. Some []) (\<lambda>_. []) sample_assurance_policy sample_dossier) \<and>
   card (set (map ce_source_id (sa_corroborations sample_dossier))) = 1 \<and>
   ap_minimum_independent_corroborations sample_assurance_policy = 2"
  using sample_dossier_passes by (simp add: sample_dossier_def sample_assurance_policy_def)

lemma assurance_passed_iff_no_failures:
  "to_vec a \<noteq> None \<Longrightarrow> ar_passed (assess_assurance to_vec sha p a) \<longleftrightarrow> ar_failures (assess_assurance to_vec sha p a) = []"
  by (auto simp: assess_assurance_def Let_def source_assurance_digest_def)

text \<open>Equal digests mean equal serialised dossiers, unless they exhibit a collision of the hash.\<close>

lemma source_assurance_digest_binds:
  assumes "source_assurance_digest to_vec sha a = Some d" "source_assurance_digest to_vec sha b = Some d"
  shows "to_vec a = to_vec b \<or> (\<exists>s t. s \<noteq> t \<and> sha s = sha t)"
  using assms hex_inj by (auto simp: source_assurance_digest_def) (metis hex_inj)

end
