(* ===== verification/Trust.thy ===== *)
theory Trust
  imports Source_Assurance Contract
begin

text \<open>
  The versioned verification policy and the derivation of a trust level from evidence
  (\<open>genegis-contract/src/policy.rs\<close>). The derivation passes three gates in order and stops at the
  first one that reports failures.
\<close>

section \<open>Policies and evidence\<close>

definition VERIFICATION_POLICY_SCHEMA_VERSION :: string where
  "VERIFICATION_POLICY_SCHEMA_VERSION = ''0.1.0''"

datatype trust_level = TrustExploratory | TrustReplayable | TrustVerified | TrustAttested

datatype independence_class =
    SameImplementation | DifferentAlgorithmSameEngine | DifferentEngine
  | AuthoritativeExternalOracle | DomainInvariant

record check_requirement =
  rq_check_id :: string
  rq_accepted_independence :: "independence_class list"
  rq_max_error_ppm :: "u64 option"

record verification_policy =
  vp_schema_version :: string
  vp_policy_id :: string
  vp_geo_contract_schema_version :: string
  vp_required_contracts :: "string list"
  vp_required_checks :: "check_requirement list"
  vp_require_verified_sources :: bool
  vp_require_source_version :: bool
  vp_require_license :: bool
  vp_source_assurance :: "assurance_policy option"
  vp_minimum_artifact_count :: u32
  vp_accepted_attesters :: "string list"

definition verification_policy_new :: "string \<Rightarrow> verification_policy" where
  "verification_policy_new policy_id =
     \<lparr>vp_schema_version = VERIFICATION_POLICY_SCHEMA_VERSION, vp_policy_id = policy_id,
      vp_geo_contract_schema_version = GEO_CONTRACT_SCHEMA_VERSION, vp_required_contracts = [],
      vp_required_checks = [], vp_require_verified_sources = True, vp_require_source_version = True,
      vp_require_license = True, vp_source_assurance = None, vp_minimum_artifact_count = 1,
      vp_accepted_attesters = []\<rparr>"

record replay_evidence =
  re_workflow_digest :: "string option"
  re_result_digest :: "string option"
  re_backend_identity :: "string option"
  re_artifact_digests :: "string list"

record contract_evidence =
  ct_contract_id :: string
  ct_schema_version :: string
  ct_valid :: bool
  ct_compatibility :: compatibility_status

record source_evidence =
  se_source_id :: string
  se_checksum_status :: checksum_verification
  se_source_version_present :: bool
  se_license_present :: bool
  se_snapshot_digest :: "string option"
  se_assurance :: "source_assurance option"
  se_assurance_digest :: "string option"

record verification_evidence =
  ve_check_id :: string
  ve_passed :: bool
  ve_independence :: independence_class
  ve_observed_error_ppm :: "u64 option"
  ve_evidence_digest :: "string option"

record attestation_evidence =
  at_signer :: string
  at_signature_verified :: bool

record trust_evidence =
  te_replay :: replay_evidence
  te_contracts :: "contract_evidence list"
  te_sources :: "source_evidence list"
  te_checks :: "verification_evidence list"
  te_attestation :: "attestation_evidence option"

datatype trust_gate = GateReplay | GateVerification | GateAttestation

record trust_failure =
  tf_gate :: trust_gate
  tf_code :: string
  tf_subject :: string
  tf_detail :: string

record trust_assessment =
  ta_level :: trust_level
  ta_policy_id :: string
  ta_failures :: "trust_failure list"

definition mk_trust_failure :: "trust_gate \<Rightarrow> string \<Rightarrow> string \<Rightarrow> string \<Rightarrow> trust_failure" where
  "mk_trust_failure gate code subject detail =
     \<lparr>tf_gate = gate, tf_code = code, tf_subject = subject, tf_detail = detail\<rparr>"

section \<open>The gates\<close>

definition policy_valid_digest :: "string \<Rightarrow> bool" where
  "policy_valid_digest value =
     (case strip_prefix ''sha256:'' value of
        None \<Rightarrow> False
      | Some h \<Rightarrow> length h = 64 \<and> list_all is_ascii_hexdigit h)"

definition valid_identity :: "string \<Rightarrow> bool" where
  "valid_identity value = (\<not> blank value \<and> (policy_valid_digest value \<or> CHR '':'' \<in> set value))"

text \<open>\<open>Option::is_some_and\<close>.\<close>

definition some_and :: "'a option \<Rightarrow> ('a \<Rightarrow> bool) \<Rightarrow> bool" where
  "some_and opt p = (case opt of None \<Rightarrow> False | Some a \<Rightarrow> p a)"

fun requirement_failures :: "string list \<Rightarrow> check_requirement list \<Rightarrow> trust_failure list" where
  "requirement_failures seen [] = []"
| "requirement_failures seen (r # rs) =
     fail_if (blank (rq_check_id r) \<or> rq_check_id r \<in> set seen)
       (mk_trust_failure GateVerification ''invalid_check_requirement'' (rq_check_id r)
         ''required check identifier is empty or duplicated'') @
     fail_if (rq_accepted_independence r = [])
       (mk_trust_failure GateVerification ''missing_independence_policy'' (rq_check_id r)
         ''required check has no accepted independence class'') @
     requirement_failures (if blank (rq_check_id r) then seen else bs_insert (rq_check_id r) seen) rs"

definition validate_policy :: "verification_policy \<Rightarrow> trust_failure list" where
  "validate_policy p =
     fail_if (vp_schema_version p \<noteq> VERIFICATION_POLICY_SCHEMA_VERSION)
       (mk_trust_failure GateReplay ''unsupported_policy_schema'' (vp_schema_version p)
         ''verification policy schema version is not supported'') @
     fail_if (blank (vp_policy_id p))
       (mk_trust_failure GateReplay ''missing_policy_id'' ''policy'' ''policy identifier is empty'') @
     fail_if (vp_geo_contract_schema_version p \<noteq> GEO_CONTRACT_SCHEMA_VERSION)
       (mk_trust_failure GateVerification ''unsupported_contract_schema'' (vp_geo_contract_schema_version p)
         ''policy requires an unsupported GeoContract schema'') @
     requirement_failures [] (vp_required_checks p)"

definition replay_failures :: "verification_policy \<Rightarrow> replay_evidence \<Rightarrow> trust_failure list" where
  "replay_failures p r =
     concat (map (\<lambda>(code, subject, value).
         fail_if (\<not> some_and value valid_identity)
           (mk_trust_failure GateReplay code subject ''required stable replay identity is missing or malformed''))
       [(''missing_workflow_digest'', ''workflow'', re_workflow_digest r),
        (''missing_result_digest'', ''result'', re_result_digest r),
        (''missing_backend_identity'', ''backend'', re_backend_identity r)]) @
     (let valid_artifacts = length (filter policy_valid_digest (re_artifact_digests r)) in
      fail_if (valid_artifacts < unat (vp_minimum_artifact_count p))
        (mk_trust_failure GateReplay ''insufficient_artifact_digests'' ''artifacts''
          (show_nat valid_artifacts @ '' valid artifact digests; policy requires '' @
           show_nat (unat (vp_minimum_artifact_count p)))))"

definition contract_failures :: "verification_policy \<Rightarrow> contract_evidence list \<Rightarrow> string \<Rightarrow> trust_failure list" where
  "contract_failures p contracts required =
     (case find (\<lambda>c. ct_contract_id c = required) contracts of
        None \<Rightarrow> [mk_trust_failure GateVerification ''missing_contract_evidence'' required
                  ''required GeoContract evidence is missing'']
      | Some c \<Rightarrow>
          fail_if (\<not> ct_valid c \<or> ct_schema_version c \<noteq> vp_geo_contract_schema_version p \<or>
              ct_compatibility c \<noteq> Compatible)
            (mk_trust_failure GateVerification ''contract_not_compatible'' required
              ''required GeoContract is invalid, unsupported, or not fully compatible''))"

definition dossier_binding_failures ::
  "to_vec \<Rightarrow> sha256 \<Rightarrow> source_evidence \<Rightarrow> trust_failure list" where
  "dossier_binding_failures to_vec sha s =
     (case se_assurance s of
        None \<Rightarrow> []
      | Some a \<Rightarrow>
          fail_if (se_snapshot_digest s \<noteq> Some (sa_snapshot_digest a))
            (mk_trust_failure GateVerification ''source_assurance_snapshot_mismatch'' (se_source_id s)
              ''source assurance snapshot digest differs from source admission evidence'') @
          fail_if (\<not> (case source_assurance_digest to_vec sha a of
                     None \<Rightarrow> False
                   | Some digest \<Rightarrow> se_assurance_digest s = Some digest))
            (mk_trust_failure GateVerification ''source_assurance_digest_mismatch'' (se_source_id s)
              ''source assurance dossier is not bound by its computed digest''))"

definition dossier_policy_failures ::
  "to_vec \<Rightarrow> sha256 \<Rightarrow> verification_policy \<Rightarrow> source_evidence \<Rightarrow> trust_failure list" where
  "dossier_policy_failures to_vec sha p s =
     (case vp_source_assurance p of
        None \<Rightarrow> []
      | Some assurance_policy \<Rightarrow>
          (case se_assurance s of
             None \<Rightarrow> [mk_trust_failure GateVerification ''missing_source_assurance'' (se_source_id s)
                       ''policy requires a source assurance dossier'']
           | Some a \<Rightarrow>
               if sa_source_id a \<noteq> se_source_id s then
                 [mk_trust_failure GateVerification ''source_assurance_identity_mismatch'' (se_source_id s)
                   ''source assurance dossier identifies a different source'']
               else
                 let report = assess_assurance to_vec sha assurance_policy a in
                 if \<not> ar_passed report then
                   map (\<lambda>f. mk_trust_failure GateVerification (''source_assurance_'' @ af_code f)
                          (af_subject f) (af_detail f)) (ar_failures report)
                 else []))"

definition source_failures ::
  "to_vec \<Rightarrow> sha256 \<Rightarrow> verification_policy \<Rightarrow> source_evidence \<Rightarrow> trust_failure list" where
  "source_failures to_vec sha p s =
     fail_if (vp_require_verified_sources p \<and> se_checksum_status s \<noteq> Verified)
       (mk_trust_failure GateVerification ''source_not_verified'' (se_source_id s)
         ''source bytes were not verified against their snapshot identity'') @
     fail_if (vp_require_source_version p \<and> \<not> se_source_version_present s)
       (mk_trust_failure GateVerification ''missing_source_version'' (se_source_id s)
         ''stable source version is missing'') @
     fail_if (vp_require_license p \<and> \<not> se_license_present s)
       (mk_trust_failure GateVerification ''missing_source_license'' (se_source_id s)
         ''source license is missing'') @
     dossier_binding_failures to_vec sha s @ dossier_policy_failures to_vec sha p s"

definition requirement_check_failures ::
  "verification_evidence list \<Rightarrow> check_requirement \<Rightarrow> trust_failure list" where
  "requirement_check_failures checks r =
     (case find (\<lambda>c. ve_check_id c = rq_check_id r) checks of
        None \<Rightarrow> [mk_trust_failure GateVerification ''missing_check_evidence'' (rq_check_id r)
                  ''required verification check is missing'']
      | Some c \<Rightarrow>
          if \<not> ve_passed c then
            [mk_trust_failure GateVerification ''check_failed'' (rq_check_id r)
              ''required verification check failed'']
          else if ve_independence c \<notin> set (rq_accepted_independence r) then
            [mk_trust_failure GateVerification ''insufficient_verifier_independence'' (rq_check_id r)
              ''verifier independence class is not accepted by policy'']
          else if \<not> some_and (ve_evidence_digest c) policy_valid_digest then
            [mk_trust_failure GateVerification ''missing_check_digest'' (rq_check_id r)
              ''check evidence is not content-addressed'']
          else
            (case rq_max_error_ppm r of
               None \<Rightarrow> []
             | Some maximum \<Rightarrow>
                 (case ve_observed_error_ppm c of
                    Some observed \<Rightarrow>
                      fail_if (\<not> observed \<le> maximum)
                        (mk_trust_failure GateVerification ''check_tolerance_exceeded'' (rq_check_id r)
                          (''observed '' @ show_nat (unat observed) @ '' ppm exceeds '' @
                           show_nat (unat maximum) @ '' ppm''))
                  | None \<Rightarrow>
                      [mk_trust_failure GateVerification ''missing_check_error'' (rq_check_id r)
                        ''policy requires a numeric error observation''])))"

definition verification_failures ::
  "to_vec \<Rightarrow> sha256 \<Rightarrow> verification_policy \<Rightarrow> trust_evidence \<Rightarrow> trust_failure list" where
  "verification_failures to_vec sha p e =
     concat (map (contract_failures p (te_contracts e)) (vp_required_contracts p)) @
     concat (map (source_failures to_vec sha p) (te_sources e)) @
     fail_if ((vp_require_verified_sources p \<or> vp_require_source_version p \<or> vp_require_license p) \<and>
         te_sources e = [])
       (mk_trust_failure GateVerification ''missing_source_evidence'' ''sources''
         ''policy requires source evidence but none was supplied'') @
     concat (map (requirement_check_failures (te_checks e)) (vp_required_checks p))"

definition attestation_failures :: "verification_policy \<Rightarrow> attestation_evidence option \<Rightarrow> trust_failure list" where
  "attestation_failures p att =
     (if vp_accepted_attesters p = [] then
        [mk_trust_failure GateAttestation ''attestation_not_required'' ''attestation''
          ''policy does not identify an accepted attester'']
      else case att of
        None \<Rightarrow> [mk_trust_failure GateAttestation ''missing_attestation'' ''attestation''
                  ''no signed attestation was supplied'']
      | Some a \<Rightarrow>
          if \<not> at_signature_verified a then
            [mk_trust_failure GateAttestation ''invalid_attestation_signature'' (at_signer a)
              ''attestation signature or subject integrity did not verify'']
          else fail_if (at_signer a \<notin> set (vp_accepted_attesters p))
            (mk_trust_failure GateAttestation ''unaccepted_attester'' (at_signer a)
              ''attestation signer is not accepted by policy''))"

definition assess_trust ::
  "to_vec \<Rightarrow> sha256 \<Rightarrow> verification_policy \<Rightarrow> trust_evidence \<Rightarrow> trust_assessment" where
  "assess_trust to_vec sha p e =
     (let failures = validate_policy p @ replay_failures p (te_replay e) in
      if failures \<noteq> [] then
        \<lparr>ta_level = TrustExploratory, ta_policy_id = vp_policy_id p, ta_failures = failures\<rparr>
      else
        let failures = failures @ verification_failures to_vec sha p e in
        if failures \<noteq> [] then
          \<lparr>ta_level = TrustReplayable, ta_policy_id = vp_policy_id p, ta_failures = failures\<rparr>
        else
          let attestation = attestation_failures p (te_attestation e) in
          if attestation \<noteq> [] then
            \<lparr>ta_level = TrustVerified, ta_policy_id = vp_policy_id p, ta_failures = attestation\<rparr>
          else \<lparr>ta_level = TrustAttested, ta_policy_id = vp_policy_id p, ta_failures = []\<rparr>)"

section \<open>What each level establishes\<close>

definition policy_well_formed :: "verification_policy \<Rightarrow> bool" where
  "policy_well_formed p \<longleftrightarrow>
     vp_schema_version p = VERIFICATION_POLICY_SCHEMA_VERSION \<and> \<not> blank (vp_policy_id p) \<and>
     vp_geo_contract_schema_version p = GEO_CONTRACT_SCHEMA_VERSION \<and>
     distinct (map rq_check_id (vp_required_checks p)) \<and>
     (\<forall>r \<in> set (vp_required_checks p). \<not> blank (rq_check_id r) \<and> rq_accepted_independence r \<noteq> [])"

definition stable_identity :: "string option \<Rightarrow> bool" where
  "stable_identity opt \<longleftrightarrow> (\<exists>s. opt = Some s \<and> \<not> blank s \<and> CHR '':'' \<in> set s)"

definition replayable :: "verification_policy \<Rightarrow> replay_evidence \<Rightarrow> bool" where
  "replayable p r \<longleftrightarrow>
     stable_identity (re_workflow_digest r) \<and> stable_identity (re_result_digest r) \<and>
     stable_identity (re_backend_identity r) \<and>
     unat (vp_minimum_artifact_count p) \<le> length (filter sha256_identity (re_artifact_digests r))"

definition contract_ok :: "verification_policy \<Rightarrow> contract_evidence list \<Rightarrow> string \<Rightarrow> bool" where
  "contract_ok p contracts k \<longleftrightarrow>
     (\<exists>c. first_with ct_contract_id k contracts c \<and> ct_valid c \<and>
        ct_schema_version c = vp_geo_contract_schema_version p \<and> ct_compatibility c = Compatible)"

definition source_ok :: "to_vec \<Rightarrow> sha256 \<Rightarrow> verification_policy \<Rightarrow> source_evidence \<Rightarrow> bool" where
  "source_ok to_vec sha p s \<longleftrightarrow>
     (vp_require_verified_sources p \<longrightarrow> se_checksum_status s = Verified) \<and>
     (vp_require_source_version p \<longrightarrow> se_source_version_present s) \<and>
     (vp_require_license p \<longrightarrow> se_license_present s) \<and>
     (\<forall>a. se_assurance s = Some a \<longrightarrow>
        se_snapshot_digest s = Some (sa_snapshot_digest a) \<and> se_assurance_digest s \<noteq> None \<and>
        se_assurance_digest s = source_assurance_digest to_vec sha a) \<and>
     (\<forall>ap. vp_source_assurance p = Some ap \<longrightarrow>
        (\<exists>a. se_assurance s = Some a \<and> sa_source_id a = se_source_id s \<and>
           ar_passed (assess_assurance to_vec sha ap a)))"

definition requirement_ok :: "verification_evidence list \<Rightarrow> check_requirement \<Rightarrow> bool" where
  "requirement_ok checks r \<longleftrightarrow>
     (\<exists>c. first_with ve_check_id (rq_check_id r) checks c \<and> ve_passed c \<and>
        ve_independence c \<in> set (rq_accepted_independence r) \<and>
        (\<exists>d. ve_evidence_digest c = Some d \<and> sha256_identity d) \<and>
        (\<forall>m. rq_max_error_ppm r = Some m \<longrightarrow>
           (\<exists>observed. ve_observed_error_ppm c = Some observed \<and> unat observed \<le> unat m)))"

definition evidence_verified :: "to_vec \<Rightarrow> sha256 \<Rightarrow> verification_policy \<Rightarrow> trust_evidence \<Rightarrow> bool" where
  "evidence_verified to_vec sha p e \<longleftrightarrow>
     (\<forall>k \<in> set (vp_required_contracts p). contract_ok p (te_contracts e) k) \<and>
     (\<forall>s \<in> set (te_sources e). source_ok to_vec sha p s) \<and>
     (vp_require_verified_sources p \<or> vp_require_source_version p \<or> vp_require_license p \<longrightarrow>
        te_sources e \<noteq> []) \<and>
     (\<forall>r \<in> set (vp_required_checks p). requirement_ok (te_checks e) r)"

definition attested :: "verification_policy \<Rightarrow> attestation_evidence option \<Rightarrow> bool" where
  "attested p att \<longleftrightarrow>
     (\<exists>a. att = Some a \<and> at_signature_verified a \<and> at_signer a \<in> set (vp_accepted_attesters p))"

lemma some_and_iff [simp]: "some_and opt q \<longleftrightarrow> (\<exists>a. opt = Some a \<and> q a)"
  by (auto simp: some_and_def split: option.splits)

lemma policy_valid_digest_iff: "policy_valid_digest d \<longleftrightarrow> sha256_identity d"
  unfolding assurance_valid_digest_iff [symmetric]
  by (simp only: policy_valid_digest_def assurance_valid_digest_def)

text \<open>A digest always contains the colon an identity needs.\<close>

lemma valid_identity_iff: "valid_identity s \<longleftrightarrow> \<not> blank s \<and> CHR '':'' \<in> set s"
  by (auto simp: valid_identity_def policy_valid_digest_iff sha256_identity_def)

lemma requirement_failures_Nil:
  "requirement_failures seen rs = [] \<longleftrightarrow>
     distinct (map rq_check_id rs) \<and> set (map rq_check_id rs) \<inter> set seen = {} \<and>
     (\<forall>r \<in> set rs. \<not> blank (rq_check_id r) \<and> rq_accepted_independence r \<noteq> [])"
  by (induction seen rs rule: requirement_failures.induct) auto

lemma validate_policy_Nil: "validate_policy p = [] \<longleftrightarrow> policy_well_formed p"
  by (auto simp: validate_policy_def policy_well_formed_def requirement_failures_Nil)

lemma replay_failures_Nil: "replay_failures p r = [] \<longleftrightarrow> replayable p r"
proof -
  have "filter policy_valid_digest ds = filter sha256_identity ds" for ds
    by (simp add: policy_valid_digest_iff cong: filter_cong)
  then show ?thesis
    by (auto simp: replay_failures_def replayable_def stable_identity_def valid_identity_iff Let_def)
qed

lemma contract_failures_Nil: "contract_failures p cs k = [] \<longleftrightarrow> contract_ok p cs k"
  unfolding contract_ok_def find_first_with [symmetric]
  by (auto simp: contract_failures_def split: option.splits)

text \<open>A report that does not pass without saying why (the dossier could not be serialised) is caught
  by the check of the dossier digest.\<close>

lemma source_failures_Nil: "source_failures to_vec sha p s = [] \<longleftrightarrow> source_ok to_vec sha p s"
proof (cases "se_assurance s")
  case None
  then show ?thesis
    by (auto simp: source_failures_def source_ok_def dossier_binding_failures_def dossier_policy_failures_def
        split: option.splits)
next
  case (Some a)
  have bound: "dossier_binding_failures to_vec sha s = [] \<longleftrightarrow>
      se_snapshot_digest s = Some (sa_snapshot_digest a) \<and> se_assurance_digest s \<noteq> None \<and>
      se_assurance_digest s = source_assurance_digest to_vec sha a"
    using Some by (auto simp: dossier_binding_failures_def split: option.splits)
  have "dossier_policy_failures to_vec sha p s = [] \<longleftrightarrow>
      (\<forall>ap. vp_source_assurance p = Some ap \<longrightarrow>
        sa_source_id a = se_source_id s \<and> ar_passed (assess_assurance to_vec sha ap a))"
    if "to_vec a \<noteq> None"
    using that Some assurance_passed_iff_no_failures [of to_vec a sha]
    by (auto simp: dossier_policy_failures_def Let_def split: option.splits)
  moreover have "to_vec a \<noteq> None" if "dossier_binding_failures to_vec sha s = []"
    using that bound by (auto simp: source_assurance_digest_def)
  ultimately show ?thesis
    using Some bound by (auto simp: source_failures_def source_ok_def)
qed

lemma requirement_check_failures_Nil: "requirement_check_failures cs r = [] \<longleftrightarrow> requirement_ok cs r"
  unfolding requirement_ok_def find_first_with [symmetric] requirement_check_failures_def
  by (auto simp: policy_valid_digest_iff word_le_nat_alt split: option.splits)

lemma verification_failures_Nil:
  "verification_failures to_vec sha p e = [] \<longleftrightarrow> evidence_verified to_vec sha p e"
  by (auto simp: verification_failures_def evidence_verified_def contract_failures_Nil source_failures_Nil
      requirement_check_failures_Nil)

lemma attestation_failures_Nil: "attestation_failures p att = [] \<longleftrightarrow> attested p att"
  by (auto simp: attestation_failures_def attested_def split: option.splits)

lemmas gate_lemmas =
  validate_policy_Nil replay_failures_Nil verification_failures_Nil attestation_failures_Nil

text \<open>C7: the trust level is exactly the highest one whose conditions, and those of every level
  below it, are met by the evidence: a well-formed policy and replay identities for Replayable,
  every required contract, source and independent check for Verified, and a verified signature of
  an accepted signer for Attested.\<close>

theorem trust_level_exact:
  "ta_level (assess_trust to_vec sha p e) =
     (if \<not> (policy_well_formed p \<and> replayable p (te_replay e)) then TrustExploratory
      else if \<not> evidence_verified to_vec sha p e then TrustReplayable
      else if \<not> attested p (te_attestation e) then TrustVerified
      else TrustAttested)"
  by (auto simp: assess_trust_def Let_def gate_lemmas)

text \<open>Failures are reported exactly below the top level, and only by the gates that were reached.\<close>

lemma trust_failures_gates:
  "ta_failures (assess_trust to_vec sha p e) = [] \<longleftrightarrow> ta_level (assess_trust to_vec sha p e) = TrustAttested"
  by (auto simp: assess_trust_def Let_def)

text \<open>A dossier policy is not enforced when no source evidence is supplied and the three source
  flags are off.\<close>

lemma dossier_policy_without_sources:
  assumes "te_sources e = []" "vp_required_contracts p = []" "vp_required_checks p = []"
    "\<not> vp_require_verified_sources p" "\<not> vp_require_source_version p" "\<not> vp_require_license p"
  shows "verification_failures to_vec sha (p\<lparr>vp_source_assurance := Some ap\<rparr>) e = []"
  using assms by (simp add: verification_failures_def)

end
