(* ===== verification/Verification_Graph.thy ===== *)
theory Verification_Graph
  imports Trust Contract_Json Kahn "HOL-Library.Multiset"
begin

text \<open>
  The directed acyclic graph of verification claims (\<open>genegis-contract/src/verification.rs\<close>): its
  validation, its binding to a verification policy, its topological order by Kahn's algorithm and
  its order-independent digest. The locale \<open>dependency_graph\<close> supplies what the loop computes.
\<close>

section \<open>Graphs\<close>

definition VERIFICATION_GRAPH_SCHEMA_VERSION :: string where
  "VERIFICATION_GRAPH_SCHEMA_VERSION = ''0.1.0''"

record verifier_identity =
  vi_verifier_id :: string
  vi_engine :: string
  vi_implementation :: string
  vi_independence :: independence_class

record verification_node =
  vn_check_id :: string
  vn_claim :: string
  vn_subject_contracts :: "string list"
  vn_evidence_inputs :: "string list"
  vn_verifier :: verifier_identity
  vn_tolerance :: "quality_tolerance option"
  vn_depends_on :: "string list"

record verification_graph =
  vg_schema_version :: string
  vg_graph_id :: string
  vg_nodes :: "verification_node list"

definition verification_graph_new :: "string \<Rightarrow> verification_graph" where
  "verification_graph_new graph_id =
     \<lparr>vg_schema_version = VERIFICATION_GRAPH_SCHEMA_VERSION, vg_graph_id = graph_id, vg_nodes = []\<rparr>"

text \<open>The last value stands for a panic: a failed \<open>expect\<close> or an arithmetic underflow.\<close>

datatype verification_graph_error =
    VgUnsupportedSchema string
  | VgEmptyField string
  | VgDuplicateCheck string
  | VgUnknownDependency string string
  | VgSelfDependency string
  | VgCycle "string list"
  | VgDuplicateReference string string string
  | VgPolicyMismatch string
  | VgPanic

type_synonym edge_maps = "(string, string list) btmap \<times> (string, nat) btmap"

definition link_dependency ::
  "string list \<Rightarrow> string \<Rightarrow> edge_maps \<Rightarrow> string \<Rightarrow> verification_graph_error + edge_maps" where
  "link_dependency ids check = (\<lambda>(adj, indegree) dep.
     if dep = check then Err (VgSelfDependency check)
     else if dep \<notin> set ids then Err (VgUnknownDependency check dep)
     else
       let cs = children adj dep; adj' = bt_insert dep (bs_insert check cs) adj in
       if check \<in> set cs then Ok (adj', indegree)
       else case bt_get indegree check of
         None \<Rightarrow> Err VgPanic
       | Some d \<Rightarrow> Ok (adj', bt_insert check (Suc d) indegree))"

definition link_node ::
  "string list \<Rightarrow> edge_maps \<Rightarrow> verification_node \<Rightarrow> verification_graph_error + edge_maps" where
  "link_node ids m n = try_fold (link_dependency ids (vn_check_id n)) m (vn_depends_on n)"

definition verification_order :: "verification_graph \<Rightarrow> verification_graph_error + string list" where
  "verification_order g =
     (let ids = bs_of_list (map vn_check_id (vg_nodes g)) in
      and_then (try_fold (link_node ids) ([], bt_of_list (map (\<lambda>i. (i, 0)) ids)) (vg_nodes g))
        (\<lambda>(adj, indegree).
          case kahn adj indegree (initial_ready indegree) [] of
            None \<Rightarrow> Err VgPanic
          | Some (order, degrees) \<Rightarrow>
              if length order \<noteq> length ids
              then Err (VgCycle (map fst (filter (\<lambda>(i, d). 0 < d) degrees)))
              else Ok order))"

section \<open>Validation\<close>

definition unique_references ::
  "verification_node \<Rightarrow> string \<Rightarrow> string list \<Rightarrow> verification_graph_error + unit" where
  "unique_references n field values =
     map_ok (\<lambda>_. ()) (try_fold (\<lambda>unique value.
       if blank value then Err (VgEmptyField ''nodes.reference'')
       else if value \<in> set unique then Err (VgDuplicateReference (vn_check_id n) field value)
       else Ok (bs_insert value unique)) [] values)"

definition validate_node ::
  "string list \<Rightarrow> verification_node \<Rightarrow> verification_graph_error + string list" where
  "validate_node ids n =
     and_then (reject (blank (vn_check_id n)) (VgEmptyField ''nodes.check_id'')) (\<lambda>_.
     and_then (reject (vn_check_id n \<in> set ids) (VgDuplicateCheck (vn_check_id n))) (\<lambda>_.
     and_then (try_for (\<lambda>(field, value). reject (blank value) (VgEmptyField field))
       [(''nodes.claim'', vn_claim n),
        (''nodes.verifier.verifier_id'', vi_verifier_id (vn_verifier n)),
        (''nodes.verifier.engine'', vi_engine (vn_verifier n)),
        (''nodes.verifier.implementation'', vi_implementation (vn_verifier n))]) (\<lambda>_.
     and_then (unique_references n ''subject_contracts'' (vn_subject_contracts n)) (\<lambda>_.
     and_then (unique_references n ''evidence_inputs'' (vn_evidence_inputs n)) (\<lambda>_.
     and_then (unique_references n ''depends_on'' (vn_depends_on n)) (\<lambda>_.
     and_then (case vn_tolerance n of
         None \<Rightarrow> Ok ()
       | Some t \<Rightarrow> reject (blank (qt_metric t)) (VgEmptyField ''nodes.tolerance.metric'')) (\<lambda>_.
     Ok (bs_insert (vn_check_id n) ids))))))))"

definition validate_graph :: "verification_graph \<Rightarrow> verification_graph_error + unit" where
  "validate_graph g =
     and_then (reject (vg_schema_version g \<noteq> VERIFICATION_GRAPH_SCHEMA_VERSION)
       (VgUnsupportedSchema (vg_schema_version g))) (\<lambda>_.
     and_then (reject (blank (vg_graph_id g)) (VgEmptyField ''graph_id'')) (\<lambda>_.
     and_then (reject (vg_nodes g = []) (VgEmptyField ''nodes'')) (\<lambda>_.
     and_then (try_fold validate_node [] (vg_nodes g)) (\<lambda>_.
     map_ok (\<lambda>_. ()) (verification_order g)))))"

section \<open>Binding to a policy\<close>

definition bind_requirement ::
  "verification_graph \<Rightarrow> check_requirement \<Rightarrow> verification_graph_error + unit" where
  "bind_requirement g r =
     and_then (ok_or (find (\<lambda>n. vn_check_id n = rq_check_id r) (vg_nodes g))
       (VgPolicyMismatch (''required check '' @ rq_check_id r @ '' is missing from graph''))) (\<lambda>n.
     and_then (reject (vi_independence (vn_verifier n) \<notin> set (rq_accepted_independence r))
       (VgPolicyMismatch (''check '' @ rq_check_id r @ '' independence is not accepted''))) (\<lambda>_.
     case rq_max_error_ppm r of
       None \<Rightarrow> Ok ()
     | Some maximum \<Rightarrow>
         and_then (ok_or (map_option qt_max_error_ppm (vn_tolerance n))
           (VgPolicyMismatch (''check '' @ rq_check_id r @ '' has no graph tolerance''))) (\<lambda>graph_maximum.
         reject (graph_maximum > maximum)
           (VgPolicyMismatch (''check '' @ rq_check_id r @ '' graph tolerance is weaker than policy'')))))"

definition validate_against_policy ::
  "verification_graph \<Rightarrow> verification_policy \<Rightarrow> verification_graph_error + unit" where
  "validate_against_policy g p =
     and_then (validate_graph g) (\<lambda>_.
     and_then (reject (vp_schema_version p \<noteq> VERIFICATION_POLICY_SCHEMA_VERSION)
       (VgPolicyMismatch ''unsupported policy schema'')) (\<lambda>_.
     try_for (bind_requirement g) (vp_required_checks p)))"

section \<open>Digest\<close>

fun json_independence :: "independence_class \<Rightarrow> json" where
  "json_independence SameImplementation = JStr ''same_implementation''"
| "json_independence DifferentAlgorithmSameEngine = JStr ''different_algorithm_same_engine''"
| "json_independence DifferentEngine = JStr ''different_engine''"
| "json_independence AuthoritativeExternalOracle = JStr ''authoritative_external_oracle''"
| "json_independence DomainInvariant = JStr ''domain_invariant''"

definition json_verifier :: "verifier_identity \<Rightarrow> json" where
  "json_verifier v = jobj
     [(''verifier_id'', JStr (vi_verifier_id v)), (''engine'', JStr (vi_engine v)),
      (''implementation'', JStr (vi_implementation v)),
      (''independence'', json_independence (vi_independence v))]"

definition json_verification_node :: "verification_node \<Rightarrow> json" where
  "json_verification_node n = jobj
     ([(''check_id'', JStr (vn_check_id n)), (''claim'', JStr (vn_claim n)),
       (''subject_contracts'', JArr (map JStr (vn_subject_contracts n))),
       (''evidence_inputs'', JArr (map JStr (vn_evidence_inputs n))),
       (''verifier'', json_verifier (vn_verifier n))] @
      skip_none ''tolerance'' json_tolerance (vn_tolerance n) @
      [(''depends_on'', JArr (map JStr (vn_depends_on n)))])"

definition sort_references :: "verification_node \<Rightarrow> verification_node" where
  "sort_references n =
     n\<lparr>vn_subject_contracts := sort (vn_subject_contracts n),
       vn_evidence_inputs := sort (vn_evidence_inputs n), vn_depends_on := sort (vn_depends_on n)\<rparr>"

definition graph_digest ::
  "to_string \<Rightarrow> sha256 \<Rightarrow> verification_graph \<Rightarrow> verification_graph_error + string" where
  "graph_digest ts sha g =
     and_then (validate_graph g) (\<lambda>_.
       Ok (digest_json ts sha (jobj
         [(''schema_version'', JStr (vg_schema_version g)), (''graph_id'', JStr (vg_graph_id g)),
          (''nodes'', JArr (map json_verification_node
             (map sort_references (sort_key vn_check_id (vg_nodes g)))))])))"

section \<open>Specification\<close>

definition vg_ids :: "verification_graph \<Rightarrow> string list" where
  "vg_ids g = map vn_check_id (vg_nodes g)"

definition claim_edges :: "verification_node list \<Rightarrow> (string \<times> string) set" where
  "claim_edges ns = {(d, vn_check_id n) | d n. n \<in> set ns \<and> d \<in> set (vn_depends_on n)}"

lemma claim_edges_eq: "claim_edges ns = (\<Union>n \<in> set ns. set (vn_depends_on n) \<times> {vn_check_id n})"
  by (auto simp: claim_edges_def)

definition references_ok :: "string list \<Rightarrow> bool" where
  "references_ok vs \<longleftrightarrow> distinct vs \<and> (\<forall>v \<in> set vs. \<not> blank v)"

definition claim_ok :: "verification_node \<Rightarrow> bool" where
  "claim_ok n \<longleftrightarrow>
     \<not> blank (vn_check_id n) \<and> \<not> blank (vn_claim n) \<and> \<not> blank (vi_verifier_id (vn_verifier n)) \<and>
     \<not> blank (vi_engine (vn_verifier n)) \<and> \<not> blank (vi_implementation (vn_verifier n)) \<and>
     references_ok (vn_subject_contracts n) \<and> references_ok (vn_evidence_inputs n) \<and>
     references_ok (vn_depends_on n) \<and> (\<forall>t. vn_tolerance n = Some t \<longrightarrow> \<not> blank (qt_metric t))"

definition valid_graph :: "verification_graph \<Rightarrow> bool" where
  "valid_graph g \<longleftrightarrow>
     vg_schema_version g = VERIFICATION_GRAPH_SCHEMA_VERSION \<and> \<not> blank (vg_graph_id g) \<and>
     vg_nodes g \<noteq> [] \<and> distinct (vg_ids g) \<and> (\<forall>n \<in> set (vg_nodes g). claim_ok n) \<and>
     claim_edges (vg_nodes g) \<subseteq> set (vg_ids g) \<times> set (vg_ids g) \<and> acyclic (claim_edges (vg_nodes g))"

section \<open>Building the maps\<close>

text \<open>The maps describe exactly the edges linked so far.\<close>

definition maps_inv :: "string list \<Rightarrow> (string \<times> string) set \<Rightarrow> edge_maps \<Rightarrow> bool" where
  "maps_inv ids E = (\<lambda>(adj, indegree).
     E \<subseteq> set ids \<times> set ids \<and>
     (\<forall>u. bs_wf (children adj u) \<and> set (children adj u) = {v. (u, v) \<in> E}) \<and>
     bt_wf indegree \<and> set (bt_keys indegree) = set ids \<and>
     (\<forall>v \<in> set ids. bt_get indegree v = Some (card {u. (u, v) \<in> E})))"

definition dependency_ok :: "string list \<Rightarrow> string \<Rightarrow> string \<Rightarrow> bool" where
  "dependency_ok ids check dep \<longleftrightarrow> dep \<noteq> check \<and> dep \<in> set ids"

lemma finite_sources: "E \<subseteq> set ids \<times> set ids \<Longrightarrow> finite {u. (u, v) \<in> E}"
  by (rule finite_subset [of _ "set ids"]) auto

lemma link_dependency_step:
  assumes inv: "maps_inv ids E m" and c: "check \<in> set ids" and ok: "dependency_ok ids check dep"
  shows "\<exists>m'. link_dependency ids check m dep = Ok m' \<and> maps_inv ids (insert (dep, check) E) m'"
proof -
  obtain adj indegree where m: "m = (adj, indegree)" by (cases m)
  from inv m have E: "E \<subseteq> set ids \<times> set ids"
    and ch: "\<And>u. bs_wf (children adj u)" "\<And>u. set (children adj u) = {v. (u, v) \<in> E}"
    and wf: "bt_wf indegree" and keys: "set (bt_keys indegree) = set ids"
    and deg: "\<And>v. v \<in> set ids \<Longrightarrow> bt_get indegree v = Some (card {u. (u, v) \<in> E})"
    by (auto simp: maps_inv_def)
  let ?adj = "bt_insert dep (bs_insert check (children adj dep)) adj"
  have insert: "children (bt_insert k cs a) u = (if u = k then cs else children a u)" for k cs a u
    by (simp add: children_def)
  have adj': "bs_wf (children ?adj u)" "set (children ?adj u) = {v. (u, v) \<in> insert (dep, check) E}" for u
    using ch [of u] ch [of dep] insert [of dep _ adj u] by auto
  show ?thesis
  proof (cases "(dep, check) \<in> E")
    case True
    then have "link_dependency ids check m dep = Ok (?adj, indegree)"
      using ok ch(2) [of dep] by (simp add: m link_dependency_def dependency_ok_def)
    moreover have "maps_inv ids (insert (dep, check) E) (?adj, indegree)"
      using True E adj' wf keys deg by (simp add: maps_inv_def insert_absorb)
    ultimately show ?thesis by blast
  next
    case False
    let ?deg = "bt_insert check (Suc (card {u. (u, check) \<in> E})) indegree"
    have "link_dependency ids check m dep = Ok (?adj, ?deg)"
      using False ok c ch(2) [of dep] deg [of check] by (simp add: m link_dependency_def dependency_ok_def)
    moreover have "{u. (u, v) \<in> insert (dep, check) E} =
        (if v = check then insert dep {u. (u, v) \<in> E} else {u. (u, v) \<in> E})" for v by auto
    then have "bt_get ?deg v = Some (card {u. (u, v) \<in> insert (dep, check) E})" if "v \<in> set ids" for v
      using deg [OF that] False finite_sources [OF E] by simp
    then have "maps_inv ids (insert (dep, check) E) (?adj, ?deg)"
      using E adj' wf keys c ok by (auto simp: maps_inv_def dependency_ok_def)
    ultimately show ?thesis by blast
  qed
qed

lemma link_dependency_reject:
  "\<not> dependency_ok ids check dep \<Longrightarrow>
     \<exists>e. link_dependency ids check m dep = Err e \<and> e \<noteq> VgPanic \<and> (\<forall>c. e \<noteq> VgCycle c)"
  by (cases m) (auto simp: link_dependency_def dependency_ok_def)

text \<open>A loop whose steps succeed exactly on the good elements, keeping an invariant that collects them.\<close>

lemma try_fold_collect:
  assumes step: "\<And>s E x. x \<in> set xs \<Longrightarrow> I E s \<Longrightarrow> good x \<Longrightarrow> \<exists>s'. f s x = Ok s' \<and> I (E \<union> F x) s'"
    and stop: "\<And>s E x. x \<in> set xs \<Longrightarrow> I E s \<Longrightarrow> \<not> good x \<Longrightarrow> \<exists>e. f s x = Err e \<and> bad e"
    and init: "I E s"
  shows "case try_fold f s xs of
      Inl e \<Rightarrow> bad e \<and> \<not> (\<forall>x \<in> set xs. good x)
    | Inr s' \<Rightarrow> (\<forall>x \<in> set xs. good x) \<and> I (E \<union> \<Union> (F ` set xs)) s'"
  using assms
proof (induction xs arbitrary: s E)
  case (Cons x xs)
  show ?case
  proof (cases "good x")
    case True
    then obtain s' where s': "f s x = Ok s'" "I (E \<union> F x) s'"
      using Cons.prems(1) [of x E s] Cons.prems(3) by auto
    have "case try_fold f s' xs of
        Inl e \<Rightarrow> bad e \<and> \<not> (\<forall>x \<in> set xs. good x)
      | Inr t \<Rightarrow> (\<forall>x \<in> set xs. good x) \<and> I ((E \<union> F x) \<union> \<Union> (F ` set xs)) t"
      using Cons.prems s'(2) by (intro Cons.IH) auto
    then show ?thesis using s'(1) True by (auto simp: Un_assoc split: sum.splits)
  next
    case False
    then show ?thesis using Cons.prems(2) [of x E s] Cons.prems(3) by auto
  qed
qed simp

definition claim_shape_error :: "verification_graph_error \<Rightarrow> bool" where
  "claim_shape_error e \<longleftrightarrow> e \<noteq> VgPanic \<and> (\<forall>c. e \<noteq> VgCycle c)"

definition links_ok :: "string list \<Rightarrow> verification_node \<Rightarrow> bool" where
  "links_ok ids n \<longleftrightarrow> (\<forall>d \<in> set (vn_depends_on n). dependency_ok ids (vn_check_id n) d)"

lemma link_node_cases:
  assumes "maps_inv ids E m" and "vn_check_id n \<in> set ids"
  shows "case link_node ids m n of
      Inl e \<Rightarrow> claim_shape_error e \<and> \<not> links_ok ids n
    | Inr m' \<Rightarrow> links_ok ids n \<and> maps_inv ids (E \<union> claim_edges [n]) m'"
proof -
  have eq: "claim_edges [n] = \<Union> ((\<lambda>d. {(d, vn_check_id n)}) ` set (vn_depends_on n))"
    by (auto simp: claim_edges_def)
  show ?thesis
    unfolding link_node_def links_ok_def eq
    by (rule try_fold_collect [where I = "maps_inv ids"])
      (use link_dependency_step assms link_dependency_reject in \<open>auto simp: claim_shape_error_def\<close>)
qed

lemma link_nodes_cases:
  assumes "maps_inv ids {} m" and "\<And>n. n \<in> set ns \<Longrightarrow> vn_check_id n \<in> set ids"
  shows "case try_fold (link_node ids) m ns of
      Inl e \<Rightarrow> claim_shape_error e \<and> \<not> (\<forall>n \<in> set ns. links_ok ids n)
    | Inr m' \<Rightarrow> (\<forall>n \<in> set ns. links_ok ids n) \<and> maps_inv ids (claim_edges ns) m'"
proof -
  have "claim_edges ns = {} \<union> \<Union> ((\<lambda>n. claim_edges [n]) ` set ns)" by (auto simp: claim_edges_def)
  then show ?thesis
  proof (simp only:, intro try_fold_collect [where I = "maps_inv ids"] assms(1))
    fix m E n assume n: "n \<in> set ns" "maps_inv ids E m"
    note cases = link_node_cases [OF n(2) assms(2) [OF n(1)]]
    show "\<exists>m'. link_node ids m n = Ok m' \<and> maps_inv ids (E \<union> claim_edges [n]) m'" if "links_ok ids n"
      using cases that by (auto split: sum.splits)
    show "\<exists>e. link_node ids m n = Err e \<and> claim_shape_error e" if "\<not> links_ok ids n"
      using cases that by (auto split: sum.splits)
  qed
qed

section \<open>The order\<close>

definition linked :: "string list \<times> edge_maps \<Rightarrow> bool" where
  "linked = (\<lambda>(ids, m). distinct ids \<and> (\<exists>E. maps_inv ids E m))"

lemma maps_inv_edges: "maps_inv ids E (adj, indegree) \<Longrightarrow> edges adj = E"
  by (auto simp: maps_inv_def edges_def)

lemma maps_inv_preds: "maps_inv ids E (adj, indegree) \<Longrightarrow> preds adj v = {u. (u, v) \<in> E}"
  by (auto simp: maps_inv_def preds_def)

interpretation vg: dependency_graph linked fst "fst \<circ> snd" "snd \<circ> snd"
proof
  fix g :: "string list \<times> edge_maps" and u v assume "linked g"
  then obtain ids adj indegree E where g: "g = (ids, adj, indegree)" "distinct ids"
    and inv: "maps_inv ids E (adj, indegree)"
    by (cases g) (auto simp: linked_def)
  show "distinct (fst g)" using g by simp
  show "distinct (children ((fst \<circ> snd) g) u)" using g inv by (auto simp: maps_inv_def bs_wf_distinct)
  show "edges ((fst \<circ> snd) g) \<subseteq> set (fst g) \<times> set (fst g)"
    using g inv maps_inv_edges [OF inv] by (simp add: maps_inv_def)
  show "bt_wf ((snd \<circ> snd) g)" "set (bt_keys ((snd \<circ> snd) g)) = set (fst g)"
    using g inv by (simp_all add: maps_inv_def)
  show "bt_get ((snd \<circ> snd) g) v = Some (card (preds ((fst \<circ> snd) g) v))" if "v \<in> set (fst g)"
    using that g inv maps_inv_preds [OF inv, of v] by (simp add: maps_inv_def)
qed

lemma maps_inv_initial: "maps_inv ids {} ([], bt_of_list (map (\<lambda>i. (i, 0)) ids))"
proof -
  have "map_of (rev (map (\<lambda>i. (i, 0 :: nat)) ids)) v = (if v \<in> set ids then Some 0 else None)" for v
    by (induction ids) (auto simp: map_add_def)
  then have get: "bt_get (bt_of_list (map (\<lambda>i. (i, 0 :: nat)) ids)) v = (if v \<in> set ids then Some 0 else None)" for v
    by (simp add: bt_get_of_list)
  then have "set (bt_keys (bt_of_list (map (\<lambda>i. (i, 0 :: nat)) ids))) = set ids"
    using bt_get_None_keys by (metis (mono_tags, lifting) option.distinct(1) subsetI subset_antisym)
  with get show ?thesis by (simp add: maps_inv_def children_def)
qed

lemma links_ok_iff:
  "(\<forall>n \<in> set (vg_nodes g). links_ok (bs_of_list (map vn_check_id (vg_nodes g))) n) \<longleftrightarrow>
     claim_edges (vg_nodes g) \<subseteq> set (vg_ids g) \<times> set (vg_ids g) \<and>
     (\<forall>n \<in> set (vg_nodes g). vn_check_id n \<notin> set (vn_depends_on n))"
  by (auto simp: links_ok_def dependency_ok_def claim_edges_def vg_ids_def)

text \<open>Without validation: the order of any graph, its identifiers taken as a set.\<close>

definition orderable :: "verification_graph \<Rightarrow> bool" where
  "orderable g \<longleftrightarrow>
     claim_edges (vg_nodes g) \<subseteq> set (vg_ids g) \<times> set (vg_ids g) \<and> acyclic (claim_edges (vg_nodes g))"

lemma self_dependency_cycle:
  "acyclic (claim_edges ns) \<Longrightarrow> n \<in> set ns \<Longrightarrow> vn_check_id n \<notin> set (vn_depends_on n)"
proof
  assume "acyclic (claim_edges ns)" "n \<in> set ns" "vn_check_id n \<in> set (vn_depends_on n)"
  then have "(vn_check_id n, vn_check_id n) \<in> claim_edges ns" by (auto simp: claim_edges_def)
  with \<open>acyclic (claim_edges ns)\<close> show False by (auto simp: acyclic_def)
qed

lemma verification_order_cases:
  "case verification_order g of
      Inl e \<Rightarrow> e \<noteq> VgPanic \<and> \<not> orderable g
    | Inr order \<Rightarrow> orderable g \<and> distinct order \<and> set order = set (vg_ids g) \<and>
        (\<forall>i < length order. {u. (u, order ! i) \<in> claim_edges (vg_nodes g)} \<subseteq> set (take i order))"
proof -
  let ?ids = "bs_of_list (map vn_check_id (vg_nodes g))" and ?E = "claim_edges (vg_nodes g)"
  let ?link = "try_fold (link_node ?ids) ([], bt_of_list (map (\<lambda>i. (i, 0)) ?ids)) (vg_nodes g)"
  have ids: "set ?ids = set (vg_ids g)" "distinct ?ids" by (simp_all add: vg_ids_def bs_wf_distinct)
  note link = link_nodes_cases [OF maps_inv_initial, of "vg_nodes g" ?ids]
  show ?thesis
  proof (cases ?link)
    case (Inl e)
    then have "claim_shape_error e" "\<not> (\<forall>n \<in> set (vg_nodes g). links_ok ?ids n)" using link by auto
    moreover from this(2) have "\<not> orderable g"
      unfolding links_ok_iff orderable_def using self_dependency_cycle by blast
    ultimately show ?thesis using Inl by (auto simp: verification_order_def Let_def claim_shape_error_def)
  next
    case (Inr m)
    obtain adj indegree where m: "m = (adj, indegree)" by (cases m)
    have inv: "maps_inv ?ids ?E (adj, indegree)" and links: "\<forall>n \<in> set (vg_nodes g). links_ok ?ids n"
      using link Inr m by auto
    then have l: "linked (?ids, adj, indegree)" using ids(2) by (auto simp: linked_def)
    have E: "edges adj = ?E" "\<And>v. preds adj v = {u. (u, v) \<in> ?E}"
      using maps_inv_edges [OF inv] maps_inv_preds [OF inv] by auto
    obtain order deg where k: "kahn adj indegree (initial_ready indegree) [] = Some (order, deg)"
      and loop: "vg.loop_inv (?ids, adj, indegree) order deg []"
      using vg.kahn_total [OF l] by auto
    show ?thesis
    proof (cases "length order = length ?ids")
      case True
      then have "set order = set (vg_ids g)" "topological adj order" "distinct order" "acyclic ?E"
        using vg.kahn_complete [OF l loop] ids E(1) by auto
      moreover have "?E \<subseteq> set (vg_ids g) \<times> set (vg_ids g)" using links links_ok_iff by blast
      ultimately show ?thesis
        using Inr m k True E(2) by (simp add: verification_order_def Let_def orderable_def topological_def)
    next
      case False
      then have "\<not> acyclic ?E" using vg.kahn_cycle(1) [OF l loop] E(1) by (auto simp: acyclic_def)
      then show ?thesis
        using Inr m k False by (simp add: verification_order_def Let_def orderable_def)
    qed
  qed
qed

section \<open>Properties\<close>

lemma unique_references_Ok: "unique_references n field vs = Ok u \<longleftrightarrow> references_ok vs"
proof -
  have "(\<exists>t. try_fold (\<lambda>unique value. if blank value then Err (VgEmptyField ''nodes.reference'')
       else if value \<in> set unique then Err (VgDuplicateReference (vn_check_id n) field value)
       else Ok (bs_insert value unique)) s vs = Ok t) \<longleftrightarrow> references_ok vs \<and> set vs \<inter> set s = {}" for s
    by (induction vs arbitrary: s) (auto simp: references_ok_def)
  from this [of "[]"] show ?thesis by (auto simp: unique_references_def map_ok_eq_Ok_iff)
qed

lemma validate_node_Ok:
  "validate_node ids n = Ok ids' \<longleftrightarrow>
     claim_ok n \<and> vn_check_id n \<notin> set ids \<and> ids' = bs_insert (vn_check_id n) ids"
  by (auto simp: validate_node_def and_then_eq_Ok_iff unique_references_Ok claim_ok_def split: option.splits)

lemma validate_nodes_Ok:
  "(\<exists>t. try_fold validate_node s ns = Ok t) \<longleftrightarrow>
     (\<forall>n \<in> set ns. claim_ok n) \<and> distinct (map vn_check_id ns) \<and> set (map vn_check_id ns) \<inter> set s = {}"
  by (induction ns arbitrary: s) (auto simp: and_then_eq_Ok_iff validate_node_Ok)

lemma validate_graph_iff: "validate_graph g = Ok () \<longleftrightarrow> valid_graph g"
proof -
  have "(\<exists>order. verification_order g = Ok order) \<longleftrightarrow> orderable g"
    using verification_order_cases [of g] by (auto split: sum.splits)
  moreover have "(\<exists>t. try_fold validate_node [] (vg_nodes g) = Ok t) \<longleftrightarrow>
      (\<forall>n \<in> set (vg_nodes g). claim_ok n) \<and> distinct (vg_ids g)"
    using validate_nodes_Ok [of "[]" "vg_nodes g"] by (simp add: vg_ids_def)
  ultimately show ?thesis
    by (auto simp: validate_graph_def valid_graph_def orderable_def and_then_eq_Ok_iff map_ok_eq_Ok_iff)
qed

lemma unique_references_no_panic: "unique_references n field vs \<noteq> Err VgPanic"
proof -
  have "try_fold (\<lambda>unique value. if blank value then Err (VgEmptyField ''nodes.reference'')
       else if value \<in> set unique then Err (VgDuplicateReference (vn_check_id n) field value)
       else Ok (bs_insert value unique)) s vs \<noteq> Err VgPanic" for s
    by (induction vs arbitrary: s) auto
  then show ?thesis by (simp add: unique_references_def)
qed

lemma validate_node_no_panic: "validate_node ids n \<noteq> Err VgPanic"
  using unique_references_no_panic
  by (auto simp: validate_node_def and_then_eq_Err_iff split: option.splits)

lemma validate_graph_no_panic: "validate_graph g \<noteq> Err VgPanic"
proof -
  have "try_fold validate_node [] (vg_nodes g) \<noteq> Err VgPanic"
    using try_fold_eq_ErrD validate_node_no_panic by metis
  moreover have "verification_order g \<noteq> Err VgPanic"
    using verification_order_cases [of g] by auto
  ultimately show ?thesis by (auto simp: validate_graph_def and_then_eq_Err_iff)
qed

text \<open>C15: validation accepts exactly the graphs of the specification: supported schema, named graph
  and claims, unique identifiers and references, known dependencies, no cycle. It
  never panics.\<close>

theorem graph_validation_exact:
  "(validate_graph g = Ok () \<longleftrightarrow> valid_graph g) \<and> validate_graph g \<noteq> Err VgPanic"
  using validate_graph_iff validate_graph_no_panic by blast

text \<open>On a valid graph the order exists, lists every check once, and puts every check after all
  the checks it depends on.\<close>

theorem verification_order_respects_dependencies:
  assumes "validate_graph g = Ok ()"
  shows "\<exists>order. verification_order g = Ok order \<and> distinct order \<and> set order = set (vg_ids g) \<and>
    (\<forall>i < length order. \<forall>n \<in> set (vg_nodes g).
       vn_check_id n = order ! i \<longrightarrow> set (vn_depends_on n) \<subseteq> set (take i order))"
proof -
  have "orderable g" using assms by (simp add: validate_graph_iff valid_graph_def orderable_def)
  then obtain order where "verification_order g = Ok order" "distinct order" "set order = set (vg_ids g)"
    and pred: "\<forall>i < length order. {u. (u, order ! i) \<in> claim_edges (vg_nodes g)} \<subseteq> set (take i order)"
    using verification_order_cases [of g] by (auto split: sum.splits)
  moreover have "set (vn_depends_on n) \<subseteq> set (take i order)"
    if "i < length order" "n \<in> set (vg_nodes g)" "vn_check_id n = order ! i" for i n
  proof
    fix d assume "d \<in> set (vn_depends_on n)"
    then have "(d, vn_check_id n) \<in> claim_edges (vg_nodes g)" using that(2) by (auto simp: claim_edges_eq)
    then show "d \<in> set (take i order)" using pred that(1,3) by auto
  qed
  ultimately show ?thesis by blast
qed

definition covers_requirement :: "verification_graph \<Rightarrow> check_requirement \<Rightarrow> bool" where
  "covers_requirement g r \<longleftrightarrow>
     (\<exists>n \<in> set (vg_nodes g). vn_check_id n = rq_check_id r \<and>
        vi_independence (vn_verifier n) \<in> set (rq_accepted_independence r) \<and>
        (\<forall>m. rq_max_error_ppm r = Some m \<longrightarrow>
           (\<exists>t. vn_tolerance n = Some t \<and> unat (qt_max_error_ppm t) \<le> unat m)))"

lemma find_unique:
  assumes "distinct (map f xs)" "x \<in> set xs" "f x = k"
  shows "find (\<lambda>y. f y = k) xs = Some x"
  using assms by (induction xs) (auto simp: image_iff)

lemma bind_requirement_Ok:
  assumes "distinct (vg_ids g)"
  shows "bind_requirement g r = Ok () \<longleftrightarrow> covers_requirement g r"
proof (cases "find (\<lambda>n. vn_check_id n = rq_check_id r) (vg_nodes g)")
  case None
  then have "\<not> covers_requirement g r" by (auto simp: covers_requirement_def find_None_iff)
  with None show ?thesis by (simp add: bind_requirement_def ok_or_def)
next
  case (Some n)
  then have n: "n \<in> set (vg_nodes g)" "vn_check_id n = rq_check_id r" by (auto dest: find_Some_set)
  have "m = n" if "m \<in> set (vg_nodes g)" "vn_check_id m = rq_check_id r" for m
    using find_unique [of vn_check_id "vg_nodes g" m] assms that Some by (simp add: vg_ids_def)
  with n have "covers_requirement g r \<longleftrightarrow>
      vi_independence (vn_verifier n) \<in> set (rq_accepted_independence r) \<and>
      (\<forall>m. rq_max_error_ppm r = Some m \<longrightarrow>
        (\<exists>t. vn_tolerance n = Some t \<and> unat (qt_max_error_ppm t) \<le> unat m))"
    unfolding covers_requirement_def by blast
  moreover have "bind_requirement g r = Ok () \<longleftrightarrow>
      vi_independence (vn_verifier n) \<in> set (rq_accepted_independence r) \<and>
      (\<forall>m. rq_max_error_ppm r = Some m \<longrightarrow>
        (\<exists>t. vn_tolerance n = Some t \<and> unat (qt_max_error_ppm t) \<le> unat m))"
    using Some by (cases "rq_max_error_ppm r"; cases "vn_tolerance n")
      (simp_all add: bind_requirement_def and_then_eq_Ok_iff not_less word_le_nat_alt)
  ultimately show ?thesis by blast
qed

text \<open>A graph is bound to a policy exactly when it is valid, the policy schema is supported, and
  every required check is a claim of the graph whose verifier is independent enough and whose
  tolerance is at least as strict as the policy's.\<close>

theorem policy_binding_exact:
  "validate_against_policy g p = Ok () \<longleftrightarrow>
     valid_graph g \<and> vp_schema_version p = VERIFICATION_POLICY_SCHEMA_VERSION \<and>
     (\<forall>r \<in> set (vp_required_checks p). covers_requirement g r)"
proof (cases "valid_graph g")
  case True
  then have "distinct (vg_ids g)" by (simp add: valid_graph_def)
  with True show ?thesis
    by (simp add: validate_against_policy_def validate_graph_iff try_for_eq_Ok_iff bind_requirement_Ok
        and_then_eq_Ok_iff)
qed (auto simp: validate_against_policy_def validate_graph_iff and_then_eq_Ok_iff)

text \<open>Two claims, the second about the result of the first.\<close>

definition sample_claim :: "string \<Rightarrow> string list \<Rightarrow> verification_node" where
  "sample_claim check deps =
     \<lparr>vn_check_id = check, vn_claim = ''total'', vn_subject_contracts = [], vn_evidence_inputs = [],
      vn_verifier = \<lparr>vi_verifier_id = ''sum'', vi_engine = ''numpy'', vi_implementation = ''v1'',
        vi_independence = DifferentEngine\<rparr>,
      vn_tolerance = None, vn_depends_on = deps\<rparr>"

definition sample_claims :: "verification_node list \<Rightarrow> verification_graph" where
  "sample_claims ns = (verification_graph_new ''wards'')\<lparr>vg_nodes := ns\<rparr>"

lemma sample_claims_valid:
  "validate_graph (sample_claims [sample_claim ''b'' [''a''], sample_claim ''a'' []]) = Ok ()"
  by code_simp

theorem verification_order_witness:
  "\<exists>order. verification_order (sample_claims [sample_claim ''b'' [''a''], sample_claim ''a'' []]) = Ok order \<and>
     set order = {''a'', ''b''}"
proof -
  have "set (vg_ids (sample_claims [sample_claim ''b'' [''a''], sample_claim ''a'' []])) = {''a'', ''b''}"
    by (auto simp: vg_ids_def sample_claims_def sample_claim_def)
  with verification_order_respects_dependencies [OF sample_claims_valid] show ?thesis by metis
qed

subsection \<open>The digest forgets the order of nodes and references\<close>

lemma sort_references_simps [simp]:
  "vn_check_id (sort_references n) = vn_check_id n" "vn_claim (sort_references n) = vn_claim n"
  "vn_verifier (sort_references n) = vn_verifier n" "vn_tolerance (sort_references n) = vn_tolerance n"
  "set (vn_depends_on (sort_references n)) = set (vn_depends_on n)"
  by (simp_all add: sort_references_def)

lemma claim_ok_sort [simp]: "claim_ok (sort_references n) \<longleftrightarrow> claim_ok n"
  by (simp add: claim_ok_def references_ok_def sort_references_def)

text \<open>Validity depends on the nodes only up to the order of nodes and of their references.\<close>

lemma valid_graph_cong:
  assumes m: "mset (map sort_references (vg_nodes g)) = mset (map sort_references (vg_nodes g'))"
    and "vg_schema_version g = vg_schema_version g'" "vg_graph_id g = vg_graph_id g'"
  shows "valid_graph g \<longleftrightarrow> valid_graph g'"
proof -
  have claims: "(\<forall>n \<in> set ns. claim_ok n) \<longleftrightarrow> (\<forall>n \<in> set (map sort_references ns). claim_ok n)" for ns
    by simp
  have edges: "claim_edges ns = claim_edges (map sort_references ns)" for ns
    by (simp add: claim_edges_eq)
  have ids: "map vn_check_id ns = map vn_check_id (map sort_references ns)" for ns by simp
  have "mset (vg_ids g) = mset (vg_ids g')"
    unfolding vg_ids_def ids [of "vg_nodes g"] ids [of "vg_nodes g'"] mset_map m [unfolded mset_map] ..
  then have "set (vg_ids g) = set (vg_ids g')" "distinct (vg_ids g) \<longleftrightarrow> distinct (vg_ids g')"
    by (metis mset_eq_setD, metis mset_eq_imp_distinct_iff)
  moreover have set: "set (map sort_references (vg_nodes g)) = set (map sort_references (vg_nodes g'))"
    using m by (rule mset_eq_setD)
  moreover have "claim_edges (vg_nodes g) = claim_edges (vg_nodes g')"
    unfolding edges [of "vg_nodes g"] edges [of "vg_nodes g'"] using set by (simp only: claim_edges_eq)
  moreover have "(vg_nodes g = []) = (vg_nodes g' = [])" using set by auto
  ultimately show ?thesis
    using assms(2,3) unfolding valid_graph_def claims [of "vg_nodes g"] claims [of "vg_nodes g'"] by simp
qed

text \<open>Reordering the nodes of a valid graph, or the references inside a node, does not change
  its digest.\<close>

theorem graph_digest_ignores_order:
  assumes "validate_graph g = Ok ()"
    and m: "mset (map sort_references (vg_nodes g)) = mset (map sort_references (vg_nodes g'))"
    and same: "vg_schema_version g = vg_schema_version g'" "vg_graph_id g = vg_graph_id g'"
  shows "graph_digest ts sha g' = graph_digest ts sha g"
proof -
  have valid: "valid_graph g" "valid_graph g'"
    using assms(1) valid_graph_cong [OF m same] by (auto simp: validate_graph_iff)
  let ?c = "\<lambda>ns. map sort_references (sort_key vn_check_id ns)"
  have sorted: "sorted (map vn_check_id (?c ns))" for ns by (simp add: comp_def)
  have "mset (?c (vg_nodes g)) = mset (?c (vg_nodes g'))" using m by simp
  moreover have "inj_on vn_check_id (set (?c (vg_nodes g)))"
  proof -
    have "distinct (map vn_check_id (vg_nodes g))" using valid(1) by (simp add: valid_graph_def vg_ids_def)
    then have "inj_on vn_check_id (set (vg_nodes g))" by (simp add: distinct_map)
    then show ?thesis by (auto simp: inj_on_def)
  qed
  ultimately have "sort_key vn_check_id (?c (vg_nodes g)) = ?c (vg_nodes g')"
    using sorted by (intro sort_key_inj_key_eq)
  moreover have "sort_key vn_check_id (?c (vg_nodes g)) = ?c (vg_nodes g)"
    using sorted by (simp add: sorted_sort_id sort_key_id_if_sorted)
  ultimately have "?c (vg_nodes g') = ?c (vg_nodes g)" by simp
  then show ?thesis using valid same by (simp add: graph_digest_def validate_graph_iff [THEN iffD2])
qed

theorem graph_digest_ignores_order_witness:
  "graph_digest (\<lambda>_. ''x'') (\<lambda>s. [of_nat (length s)]) (sample_claims [sample_claim ''a'' [], sample_claim ''b'' [''a'']]) =
   graph_digest (\<lambda>_. ''x'') (\<lambda>s. [of_nat (length s)]) (sample_claims [sample_claim ''b'' [''a''], sample_claim ''a'' []])"
  by (rule graph_digest_ignores_order [OF sample_claims_valid])
    (simp_all add: sample_claims_def verification_graph_new_def)

end
