(* ===== verification/Governance.thy ===== *)
theory Governance
  imports Json
begin

text \<open>
  Organisation governance (\<open>genegis-collab/src/governance.rs\<close>): roles and members, digest-bound
  approval requests, a hash-chained audit log, retention decisions and the audit export. An
  operation returns the state it leaves behind together with its result, because an error after a
  mutation keeps the mutation. The parser for RFC 3339 timestamps belongs to \<open>chrono\<close>, the JSON
  text of a value to \<open>serde_json\<close> and the hash to \<open>sha2\<close>: they are the fields of an environment.
\<close>

section \<open>State\<close>

datatype governance_capability =
    CapView | CapExecute | CapPublish | CapManageProjects | CapManageMembership | CapApprove
  | CapExportAudit | CapManageRetention

datatype governed_action =
    ViewProject | ExecuteWorkflow | PublishResult | ChangeProjectPolicy | ChangeMembership
  | ExportAudit | ApplyRetention

fun action_capability :: "governed_action \<Rightarrow> governance_capability" where
  "action_capability ViewProject = CapView"
| "action_capability ExecuteWorkflow = CapExecute"
| "action_capability PublishResult = CapPublish"
| "action_capability ChangeProjectPolicy = CapManageProjects"
| "action_capability ChangeMembership = CapManageMembership"
| "action_capability ExportAudit = CapExportAudit"
| "action_capability ApplyRetention = CapManageRetention"

record organization_role =
  or_id :: string
  or_capabilities :: "governance_capability list"

record organization_member =
  om_subject_id :: string
  om_role_id :: string
  om_active :: bool

record organization_project =
  og_project_id :: string
  og_organization_id :: string
  og_classification :: string

record retention_policy =
  rp_minimum_days :: u32
  rp_maximum_days :: u32
  rp_protected_classes :: "string list"

record organization_policy =
  op_schema_version :: string
  op_organization_id :: string
  op_policy_version :: string
  op_roles :: "(string, organization_role) btmap"
  op_approval_thresholds :: "(governed_action, 16 word) btmap"
  op_retention :: retention_policy

record pending_approval =
  pa_id :: string
  pa_project_id :: string
  pa_action :: governed_action
  pa_resource_digest :: string
  pa_requested_by :: string
  pa_requested_at :: string
  pa_required_approvals :: "16 word"
  pa_approvers :: "string list"
  pa_completed_at :: "string option"
  pa_approval_digest :: string

record audit_event =
  ae_sequence :: u64
  ae_occurred_at :: string
  ae_actor_id :: string
  ae_project_id :: "string option"
  ae_event_type :: string
  ae_subject_digest :: string
  ae_previous_event_digest :: "string option"
  ae_event_digest :: string

datatype governance_decision =
    Authorized string
  | ApprovalRequired pending_approval
  | Approved pending_approval

record retention_record =
  rr_record_id :: string
  rr_class :: string
  rr_created_at :: string
  rr_legal_hold :: bool
  rr_digest :: string

datatype retention_disposition =
    Keep string string
  | EligibleForDeletion string string

record audit_export =
  ax_schema_version :: string
  ax_organization_id :: string
  ax_policy_digest :: string
  ax_exported_at :: string
  ax_events :: "audit_event list"
  ax_export_digest :: string

record governance_state =
  gs_policy :: organization_policy
  gs_policy_digest :: string
  gs_members :: "(string, organization_member) btmap"
  gs_projects :: "(string, organization_project) btmap"
  gs_approvals :: "(string, pending_approval) btmap"
  gs_audit_events :: "audit_event list"

datatype governance_error =
    GovInvalid string
  | GovDenied string
  | GovDigest
  | GovSerialization string

text \<open>An approval request is hashed as the tuple of project, action, resource, actor and time; an
  instant is its number of nanoseconds. The serialisers may fail with a message.\<close>

type_synonym request_key = "string \<times> governed_action \<times> string \<times> string \<times> string"

record governance_env =
  ge_parse_rfc3339 :: "string \<Rightarrow> int option"
  ge_sha256 :: sha256
  ge_policy_to_vec :: "organization_policy \<Rightarrow> string + string"
  ge_request_to_vec :: "request_key \<Rightarrow> string + string"
  ge_approval_to_vec :: "pending_approval \<Rightarrow> string + string"
  ge_event_to_vec :: "audit_event \<Rightarrow> string + string"
  ge_export_to_vec :: "audit_export \<Rightarrow> string + string"

section \<open>Digests and checks\<close>

definition semantic_digest :: "governance_env \<Rightarrow> string + string \<Rightarrow> governance_error + string" where
  "semantic_digest env text =
     and_then (map_err GovSerialization text) (\<lambda>bytes. Ok (''sha256:'' @ hex (ge_sha256 env bytes)))"

definition approval_digest :: "governance_env \<Rightarrow> pending_approval \<Rightarrow> governance_error + string" where
  "approval_digest env a = semantic_digest env (ge_approval_to_vec env (a\<lparr>pa_approval_digest := []\<rparr>))"

definition audit_event_digest :: "governance_env \<Rightarrow> audit_event \<Rightarrow> governance_error + string" where
  "audit_event_digest env e = semantic_digest env (ge_event_to_vec env (e\<lparr>ae_event_digest := []\<rparr>))"

definition parse_time :: "governance_env \<Rightarrow> string \<Rightarrow> governance_error + int" where
  "parse_time env value = ok_or (ge_parse_rfc3339 env value) (GovInvalid ''timestamp must be RFC 3339'')"

definition governance_require_digest :: "string \<Rightarrow> governance_error + unit" where
  "governance_require_digest value =
     (if (case strip_prefix ''sha256:'' value of
            None \<Rightarrow> False
          | Some h \<Rightarrow> length h = 64 \<and> list_all is_ascii_hexdigit h)
      then Ok () else Err (GovInvalid ''digest must be SHA-256''))"

definition validate_organization_policy :: "organization_policy \<Rightarrow> governance_error + unit" where
  "validate_organization_policy p =
     reject (op_schema_version p \<noteq> ''0.1.0'' \<or> blank (op_organization_id p) \<or> blank (op_policy_version p) \<or>
         op_roles p = [] \<or> rp_minimum_days (op_retention p) > rp_maximum_days (op_retention p) \<or>
         rp_maximum_days (op_retention p) = 0 \<or>
         list_ex (\<lambda>(k, role). k \<noteq> or_id role \<or> blank k) (op_roles p))
       (GovInvalid ''organization policy is invalid'')"

definition require_project :: "governance_state \<Rightarrow> string \<Rightarrow> governance_error + unit" where
  "require_project s project_id =
     (case bt_get (gs_projects s) project_id of
        None \<Rightarrow> Err (GovDenied ''project is outside the organization boundary'')
      | Some p \<Rightarrow>
          reject (og_organization_id p \<noteq> op_organization_id (gs_policy s))
            (GovDenied ''project is outside the organization boundary''))"

definition require_capability ::
  "governance_state \<Rightarrow> string \<Rightarrow> governance_capability \<Rightarrow> governance_error + unit" where
  "require_capability s subject_id capability =
     and_then (ok_or (case bt_get (gs_members s) subject_id of
           None \<Rightarrow> None
         | Some m \<Rightarrow> if om_active m then Some m else None)
       (GovDenied ''subject is not an active member'')) (\<lambda>member.
     and_then (ok_or (bt_get (op_roles (gs_policy s)) (om_role_id member))
       (GovDenied ''member role is absent from policy'')) (\<lambda>role.
     reject (capability \<notin> set (or_capabilities role))
       (GovDenied ''role does not grant the required capability'')))"

section \<open>Operations\<close>

definition governance_new :: "governance_env \<Rightarrow> organization_policy \<Rightarrow> governance_error + governance_state" where
  "governance_new env policy =
     and_then (validate_organization_policy policy) (\<lambda>_.
     and_then (semantic_digest env (ge_policy_to_vec env policy)) (\<lambda>digest.
     Ok \<lparr>gs_policy = policy, gs_policy_digest = digest, gs_members = [], gs_projects = [],
         gs_approvals = [], gs_audit_events = []\<rparr>))"

definition add_member ::
  "governance_state \<Rightarrow> organization_member \<Rightarrow> governance_state \<times> (governance_error + unit)" where
  "add_member s m =
     (if blank (om_subject_id m) \<or> \<not> bt_contains (op_roles (gs_policy s)) (om_role_id m)
      then (s, Err (GovInvalid ''member identity or role is invalid''))
      else (s\<lparr>gs_members := bt_insert (om_subject_id m) m (gs_members s)\<rparr>, Ok ()))"

definition add_project ::
  "governance_state \<Rightarrow> organization_project \<Rightarrow> governance_state \<times> (governance_error + unit)" where
  "add_project s p =
     (if blank (og_project_id p) \<or> og_organization_id p \<noteq> op_organization_id (gs_policy s) \<or>
         blank (og_classification p)
      then (s, Err (GovInvalid ''project ownership is invalid''))
      else (s\<lparr>gs_projects := bt_insert (og_project_id p) p (gs_projects s)\<rparr>, Ok ()))"

definition append_event ::
  "governance_env \<Rightarrow> governance_state \<Rightarrow> string \<Rightarrow> string option \<Rightarrow> string \<Rightarrow> string \<Rightarrow> string \<Rightarrow>
   governance_state \<times> (governance_error + audit_event)" where
  "append_event env s actor project event_type subject_digest occurred_at =
     (let event =
        \<lparr>ae_sequence = of_nat (length (gs_audit_events s)) + 1, ae_occurred_at = occurred_at,
         ae_actor_id = actor, ae_project_id = project, ae_event_type = event_type,
         ae_subject_digest = subject_digest,
         ae_previous_event_digest =
           (if gs_audit_events s = [] then None else Some (ae_event_digest (last (gs_audit_events s)))),
         ae_event_digest = []\<rparr> in
      case audit_event_digest env event of
        Inl e \<Rightarrow> (s, Err e)
      | Inr digest \<Rightarrow>
          let event = event\<lparr>ae_event_digest := digest\<rparr> in
          (s\<lparr>gs_audit_events := gs_audit_events s @ [event]\<rparr>, Ok event))"

text \<open>The guards of \<open>authorize\<close> and of \<open>approve\<close>, in order.\<close>

definition authorize_guards ::
  "governance_env \<Rightarrow> governance_state \<Rightarrow> string \<Rightarrow> string \<Rightarrow> governed_action \<Rightarrow> string \<Rightarrow> string \<Rightarrow>
   governance_error + unit" where
  "authorize_guards env s actor_id project_id action resource_digest occurred_at =
     and_then (parse_time env occurred_at) (\<lambda>_.
     and_then (governance_require_digest resource_digest) (\<lambda>_.
     and_then (require_project s project_id) (\<lambda>_.
     require_capability s actor_id (action_capability action))))"

definition approval_threshold :: "governance_state \<Rightarrow> governed_action \<Rightarrow> 16 word" where
  "approval_threshold s action =
     (case bt_get (op_approval_thresholds (gs_policy s)) action of None \<Rightarrow> 0 | Some n \<Rightarrow> n)"

definition new_approval ::
  "string \<Rightarrow> string \<Rightarrow> string \<Rightarrow> governed_action \<Rightarrow> string \<Rightarrow> string \<Rightarrow> 16 word \<Rightarrow> pending_approval" where
  "new_approval ident actor_id project_id action resource_digest occurred_at threshold =
     \<lparr>pa_id = ident, pa_project_id = project_id, pa_action = action, pa_resource_digest = resource_digest,
      pa_requested_by = actor_id, pa_requested_at = occurred_at, pa_required_approvals = threshold,
      pa_approvers = [], pa_completed_at = None, pa_approval_digest = []\<rparr>"

definition authorize ::
  "governance_env \<Rightarrow> governance_state \<Rightarrow> string \<Rightarrow> string \<Rightarrow> governed_action \<Rightarrow> string \<Rightarrow> string \<Rightarrow>
   governance_state \<times> (governance_error + governance_decision)" where
  "authorize env s actor_id project_id action resource_digest occurred_at =
     (case authorize_guards env s actor_id project_id action resource_digest occurred_at of
        Inl e \<Rightarrow> (s, Err e)
      | Inr _ \<Rightarrow>
          let threshold = approval_threshold s action in
          if threshold = 0 then
            (case append_event env s actor_id (Some project_id) ''authorized'' resource_digest occurred_at of
               (s', Inl e) \<Rightarrow> (s', Err e)
             | (s', Inr event) \<Rightarrow> (s', Ok (Authorized (ae_event_digest event))))
          else
            (case semantic_digest env
                (ge_request_to_vec env (project_id, action, resource_digest, actor_id, occurred_at)) of
               Inl e \<Rightarrow> (s, Err e)
             | Inr ident \<Rightarrow>
                 let approval = new_approval ident actor_id project_id action resource_digest occurred_at threshold in
                 (case approval_digest env approval of
                    Inl e \<Rightarrow> (s, Err e)
                  | Inr digest \<Rightarrow>
                      let approval = approval\<lparr>pa_approval_digest := digest\<rparr>;
                          s1 = s\<lparr>gs_approvals := bt_insert ident approval (gs_approvals s)\<rparr> in
                      (case append_event env s1 actor_id (Some project_id) ''approval_requested''
                          (pa_approval_digest approval) occurred_at of
                         (s', Inl e) \<Rightarrow> (s', Err e)
                       | (s', Inr _) \<Rightarrow> (s', Ok (ApprovalRequired approval))))))"

text \<open>The update of the stored request: a new approver, and completion at the threshold. The
  digest is recomputed last; when that fails the rest of the update is already in the map.\<close>

definition record_approver :: "pending_approval \<Rightarrow> string \<Rightarrow> string \<Rightarrow> pending_approval" where
  "record_approver a approver_id occurred_at =
     (let approvers = bs_insert approver_id (pa_approvers a) in
      a\<lparr>pa_approvers := approvers,
        pa_completed_at :=
          (if length approvers \<ge> unat (pa_required_approvals a) then Some occurred_at
           else pa_completed_at a)\<rparr>)"

definition approve ::
  "governance_env \<Rightarrow> governance_state \<Rightarrow> string \<Rightarrow> string \<Rightarrow> string \<Rightarrow>
   governance_state \<times> (governance_error + governance_decision)" where
  "approve env s approval_id approver_id occurred_at =
     (case and_then (parse_time env occurred_at) (\<lambda>_.
           and_then (require_capability s approver_id CapApprove) (\<lambda>_.
           ok_or (bt_get (gs_approvals s) approval_id) (GovInvalid ''unknown approval''))) of
        Inl e \<Rightarrow> (s, Err e)
      | Inr approval \<Rightarrow>
          if pa_completed_at approval \<noteq> None \<or> pa_requested_by approval = approver_id \<or>
             approver_id \<in> set (pa_approvers approval)
          then (s, Err (GovDenied ''approval must be pending, distinct, and independent''))
          else
            let approval = record_approver approval approver_id occurred_at in
            (case approval_digest env approval of
               Inl e \<Rightarrow> (s\<lparr>gs_approvals := bt_insert approval_id approval (gs_approvals s)\<rparr>, Err e)
             | Inr digest \<Rightarrow>
                 let result = approval\<lparr>pa_approval_digest := digest\<rparr>;
                     s1 = s\<lparr>gs_approvals := bt_insert approval_id result (gs_approvals s)\<rparr>;
                     event_type = (if pa_completed_at result \<noteq> None then ''approval_completed''
                       else ''approval_recorded'') in
                 (case append_event env s1 approver_id (Some (pa_project_id result)) event_type
                     (pa_approval_digest result) occurred_at of
                    (s', Inl e) \<Rightarrow> (s', Err e)
                  | (s', Inr _) \<Rightarrow>
                      (s', Ok (if pa_completed_at result \<noteq> None then Approved result
                               else ApprovalRequired result)))))"

text \<open>\<open>num_days\<close> of a duration that is not negative.\<close>

definition num_days :: "int \<Rightarrow> int" where
  "num_days age = age div 86400000000000"

definition dispose_record ::
  "governance_env \<Rightarrow> retention_policy \<Rightarrow> int \<Rightarrow> retention_record \<Rightarrow> governance_error + retention_disposition" where
  "dispose_record env rp as_of r =
     and_then (governance_require_digest (rr_digest r)) (\<lambda>_.
     and_then (parse_time env (rr_created_at r)) (\<lambda>created.
     let age = as_of - created in
     and_then (reject (age < 0) (GovInvalid ''record timestamp is in the future'')) (\<lambda>_.
     let protected = rr_legal_hold r \<or> rr_class r \<in> set (rp_protected_classes rp) in
     Ok (if protected \<or> num_days age < uint (rp_maximum_days rp)
         then Keep (rr_record_id r)
           (if protected then ''protected_or_legal_hold'' else ''within_retention_window'')
         else EligibleForDeletion (rr_record_id r) (rr_digest r)))))"

text \<open>\<open>collect\<close> into a \<open>Result\<close> stops at the first error.\<close>

fun try_collect :: "('a \<Rightarrow> 'e + 'b) \<Rightarrow> 'a list \<Rightarrow> 'e + 'b list" where
  "try_collect f [] = Ok []"
| "try_collect f (x # xs) = and_then (f x) (\<lambda>y. and_then (try_collect f xs) (\<lambda>ys. Ok (y # ys)))"

definition retention_plan ::
  "governance_env \<Rightarrow> governance_state \<Rightarrow> retention_record list \<Rightarrow> string \<Rightarrow>
   governance_error + retention_disposition list" where
  "retention_plan env s records as_of =
     and_then (parse_time env as_of) (\<lambda>instant.
       try_collect (dispose_record env (op_retention (gs_policy s)) instant) records)"

definition verify_event ::
  "governance_env \<Rightarrow> string option \<Rightarrow> nat \<times> audit_event \<Rightarrow> governance_error + string option" where
  "verify_event env previous = (\<lambda>(index, event).
     if ae_sequence event \<noteq> of_nat index + 1 \<or> ae_previous_event_digest event \<noteq> previous
     then Err GovDigest
     else and_then (audit_event_digest env event) (\<lambda>digest.
       if digest \<noteq> ae_event_digest event then Err GovDigest
       else Ok (Some (ae_event_digest event))))"

definition verify_audit_chain :: "governance_env \<Rightarrow> audit_event list \<Rightarrow> governance_error + unit" where
  "verify_audit_chain env events = map_ok (\<lambda>_. ()) (try_fold (verify_event env) None (enumerate0 events))"

definition export_audit ::
  "governance_env \<Rightarrow> governance_state \<Rightarrow> string \<Rightarrow> string \<Rightarrow>
   governance_state \<times> (governance_error + audit_export)" where
  "export_audit env s actor_id exported_at =
     (case and_then (parse_time env exported_at) (\<lambda>_. require_capability s actor_id CapExportAudit) of
        Inl e \<Rightarrow> (s, Err e)
      | Inr _ \<Rightarrow>
          (case append_event env s actor_id None ''audit_exported'' (gs_policy_digest s) exported_at of
             (s', Inl e) \<Rightarrow> (s', Err e)
           | (s', Inr _) \<Rightarrow>
               (s', and_then (verify_audit_chain env (gs_audit_events s')) (\<lambda>_.
                  let export =
                    \<lparr>ax_schema_version = ''0.1.0'', ax_organization_id = op_organization_id (gs_policy s'),
                     ax_policy_digest = gs_policy_digest s, ax_exported_at = exported_at,
                     ax_events = gs_audit_events s', ax_export_digest = []\<rparr> in
                  and_then (semantic_digest env (ge_export_to_vec env export)) (\<lambda>digest.
                    Ok (export\<lparr>ax_export_digest := digest\<rparr>))))))"

end
