(* ===== verification/Governance_Valid.thy ===== *)
theory Governance_Valid
  imports Governance
begin

text \<open>
  What the governance operations guarantee: over every sequence of operations, failed ones
  included, the audit log only grows and its hash chain verifies; a completed approval was signed
  by enough distinct members other than the requester; an authorisation needs an active member
  whose role grants the capability; and the last digest of a log commits to the whole of it.
\<close>

section \<open>The audit chain\<close>

definition last_digest :: "audit_event list \<Rightarrow> string option" where
  "last_digest es = (if es = [] then None else Some (ae_event_digest (last es)))"

definition links_to :: "governance_env \<Rightarrow> audit_event list \<Rightarrow> audit_event \<Rightarrow> bool" where
  "links_to env es e \<longleftrightarrow>
     ae_sequence e = of_nat (length es) + 1 \<and> ae_previous_event_digest e = last_digest es \<and>
     audit_event_digest env e = Ok (ae_event_digest e)"

definition chained :: "governance_env \<Rightarrow> audit_event list \<Rightarrow> bool" where
  "chained env es \<longleftrightarrow> (\<forall>i < length es. links_to env (take i es) (es ! i))"

lemma chained_Nil [simp]: "chained env []"
  by (simp add: chained_def)

lemma chained_snoc: "chained env (es @ [e]) \<longleftrightarrow> chained env es \<and> links_to env es e"
  by (auto simp: chained_def nth_append less_Suc_eq)

lemma enumerate0_snoc: "enumerate0 (xs @ [x]) = enumerate0 xs @ [(length xs, x)]"
  by (simp add: enumerate0_def enumerate_append_eq)

lemma verify_fold:
  "try_fold (verify_event env) None (enumerate0 es) = Ok p \<longleftrightarrow> chained env es \<and> p = last_digest es"
proof (induction es arbitrary: p rule: rev_induct)
  case Nil
  then show ?case by (auto simp: enumerate0_def last_digest_def)
next
  case (snoc e es)
  have "verify_event env (last_digest es) (length es, e) = Ok p \<longleftrightarrow>
      links_to env es e \<and> p = last_digest (es @ [e])"
    by (auto simp: verify_event_def links_to_def last_digest_def and_then_eq_Ok_iff)
  then show ?case
    using snoc by (auto simp: enumerate0_snoc try_fold_append and_then_eq_Ok_iff chained_snoc)
qed

lemma verify_audit_chain_iff: "verify_audit_chain env es = Ok () \<longleftrightarrow> chained env es"
  by (auto simp: verify_audit_chain_def map_ok_eq_Ok_iff verify_fold)

section \<open>One event per operation\<close>

lemma append_event_cases:
  assumes "append_event env s actor project ty subject time = (s', r)"
  obtains (error) x where "s' = s" "r = Err x"
  | (ok) e where "s' = s\<lparr>gs_audit_events := gs_audit_events s @ [e]\<rparr>" "r = Ok e"
      "links_to env (gs_audit_events s) e" "ae_actor_id e = actor" "ae_project_id e = project"
      "ae_event_type e = ty" "ae_subject_digest e = subject" "ae_occurred_at e = time"
proof -
  define event where "event =
    \<lparr>ae_sequence = of_nat (length (gs_audit_events s)) + 1, ae_occurred_at = time,
     ae_actor_id = actor, ae_project_id = project, ae_event_type = ty, ae_subject_digest = subject,
     ae_previous_event_digest = last_digest (gs_audit_events s), ae_event_digest = []\<rparr>"
  have app: "append_event env s actor project ty subject time =
      (case audit_event_digest env event of
        Inl e \<Rightarrow> (s, Err e)
      | Inr digest \<Rightarrow> (s\<lparr>gs_audit_events := gs_audit_events s @ [event\<lparr>ae_event_digest := digest\<rparr>]\<rparr>,
          Ok (event\<lparr>ae_event_digest := digest\<rparr>)))"
    unfolding append_event_def Let_def last_digest_def [symmetric] event_def [symmetric] by (rule refl)
  show thesis
  proof (cases "audit_event_digest env event")
    case (Inl x)
    then show thesis using error app assms by simp
  next
    case (Inr digest)
    have "audit_event_digest env (event\<lparr>ae_event_digest := digest\<rparr>) = audit_event_digest env event"
      by (simp add: audit_event_digest_def)
    then have "links_to env (gs_audit_events s) (event\<lparr>ae_event_digest := digest\<rparr>)"
      using Inr by (simp add: links_to_def event_def)
    then show thesis using ok [of "event\<lparr>ae_event_digest := digest\<rparr>"] app assms Inr
      by (simp add: event_def)
  qed
qed

section \<open>Invariants\<close>

definition approval_ok :: "pending_approval \<Rightarrow> bool" where
  "approval_ok a \<longleftrightarrow>
     bs_wf (pa_approvers a) \<and> pa_requested_by a \<notin> set (pa_approvers a) \<and> 0 < unat (pa_required_approvals a) \<and>
     (pa_completed_at a \<noteq> None \<longleftrightarrow> unat (pa_required_approvals a) \<le> length (pa_approvers a))"

definition gov_inv :: "governance_env \<Rightarrow> governance_state \<Rightarrow> bool" where
  "gov_inv env s \<longleftrightarrow>
     chained env (gs_audit_events s) \<and>
     (\<forall>k a. bt_get (gs_approvals s) k = Some a \<longrightarrow> pa_id a = k \<and> approval_ok a) \<and>
     (\<forall>k m. bt_get (gs_members s) k = Some m \<longrightarrow>
        om_subject_id m = k \<and> bt_contains (op_roles (gs_policy s)) (om_role_id m)) \<and>
     (\<forall>k p. bt_get (gs_projects s) k = Some p \<longrightarrow>
        og_project_id p = k \<and> og_organization_id p = op_organization_id (gs_policy s))"

text \<open>The operations, each with the state it leaves whether it succeeds or fails.\<close>

datatype governance_op =
    OpAddMember organization_member
  | OpAddProject organization_project
  | OpAuthorize string string governed_action string string
  | OpApprove string string string
  | OpExportAudit string string

inductive gov_step :: "governance_env \<Rightarrow> governance_state \<Rightarrow> governance_op \<Rightarrow> governance_state \<Rightarrow> bool"
  for env where
  member: "add_member s m = (s', r) \<Longrightarrow> gov_step env s (OpAddMember m) s'"
| project: "add_project s p = (s', r) \<Longrightarrow> gov_step env s (OpAddProject p) s'"
| authorize: "authorize env s actor project action resource time = (s', r) \<Longrightarrow>
    gov_step env s (OpAuthorize actor project action resource time) s'"
| approve: "approve env s ident approver time = (s', r) \<Longrightarrow> gov_step env s (OpApprove ident approver time) s'"
| export: "export_audit env s actor time = (s', r) \<Longrightarrow> gov_step env s (OpExportAudit actor time) s'"

inductive gov_reachable :: "governance_env \<Rightarrow> governance_state \<Rightarrow> bool" for env where
  init: "governance_new env p = Ok s \<Longrightarrow> gov_reachable env s"
| step: "gov_reachable env s \<Longrightarrow> gov_step env s op s' \<Longrightarrow> gov_reachable env s'"

inductive_cases gov_stepE: "gov_step env s op s'"

text \<open>What an operation may do to the log and to the rest of the state.\<close>

definition log_extends :: "governance_env \<Rightarrow> governance_state \<Rightarrow> governance_state \<Rightarrow> bool" where
  "log_extends env s s' \<longleftrightarrow>
     gs_audit_events s' = gs_audit_events s \<or>
     (\<exists>e. gs_audit_events s' = gs_audit_events s @ [e] \<and> links_to env (gs_audit_events s) e)"

lemma log_extends_refl [simp]: "gs_audit_events s' = gs_audit_events s \<Longrightarrow> log_extends env s s'"
  by (simp add: log_extends_def)

lemma log_extends_chained: "log_extends env s s' \<Longrightarrow> chained env (gs_audit_events s) \<Longrightarrow> chained env (gs_audit_events s')"
  by (auto simp: log_extends_def chained_snoc)

lemma append_event_frame:
  assumes "append_event env s actor project ty subject time = (s', r)"
  shows "log_extends env s s' \<and> gs_policy s' = gs_policy s \<and> gs_members s' = gs_members s \<and>
    gs_projects s' = gs_projects s \<and> gs_approvals s' = gs_approvals s \<and>
    gs_policy_digest s' = gs_policy_digest s"
  using assms by (cases rule: append_event_cases) (auto simp: log_extends_def)

lemma approval_ok_new:
  "threshold \<noteq> 0 \<Longrightarrow>
     approval_ok ((new_approval k actor project action resource time threshold)\<lparr>pa_approval_digest := d\<rparr>) \<and>
     pa_id ((new_approval k actor project action resource time threshold)\<lparr>pa_approval_digest := d\<rparr>) = k"
  by (auto simp: approval_ok_def new_approval_def unat_gt_0)

lemma approval_ok_record:
  assumes "approval_ok a" "pa_completed_at a = None" "pa_requested_by a \<noteq> who" "who \<notin> set (pa_approvers a)"
  shows "approval_ok ((record_approver a who time)\<lparr>pa_approval_digest := d\<rparr>)"
    and "approval_ok (record_approver a who time)"
    and "pa_id (record_approver a who time) = pa_id a"
  using assms by (auto simp: approval_ok_def record_approver_def Let_def)

text \<open>The shape of every outcome of \<open>authorize\<close>.\<close>

lemma authorize_cases:
  assumes "authorize env s actor project action resource time = (s', r)"
  obtains (refused) x where "s' = s" "r = Err x"
  | (direct) r' where "approval_threshold s action = 0"
      "authorize_guards env s actor project action resource time = Ok ()"
      "append_event env s actor (Some project) ''authorized'' resource time = (s', r')"
      "r = map_ok (\<lambda>e. Authorized (ae_event_digest e)) r'"
  | (request) k d a r' where "approval_threshold s action \<noteq> 0"
      "authorize_guards env s actor project action resource time = Ok ()"
      "a = (new_approval k actor project action resource time (approval_threshold s action))
         \<lparr>pa_approval_digest := d\<rparr>"
      "append_event env (s\<lparr>gs_approvals := bt_insert k a (gs_approvals s)\<rparr>) actor (Some project)
         ''approval_requested'' d time = (s', r')"
      "r = map_ok (\<lambda>_. ApprovalRequired a) r'"
proof (cases "authorize_guards env s actor project action resource time")
  case (Inl x)
  then show thesis using refused assms by (auto simp: authorize_def)
next
  case (Inr u)
  then have guards: "authorize_guards env s actor project action resource time = Ok ()" by simp
  show thesis
  proof (cases "approval_threshold s action = 0")
    case True
    then show thesis
      using direct [OF True guards] guards assms
      by (cases "append_event env s actor (Some project) ''authorized'' resource time")
        (auto simp: authorize_def Let_def split: sum.splits)
  next
    case False
    then show thesis
      using guards assms refused request [OF False guards refl]
      by (fastforce simp: authorize_def Let_def new_approval_def split: sum.splits prod.splits)
  qed
qed

lemma approve_cases:
  assumes "approve env s ident approver time = (s', r)"
  obtains (refused) x where "s' = s" "r = Err x"
  | (unhashed) a x where "bt_get (gs_approvals s) ident = Some a" "pa_completed_at a = None"
      "pa_requested_by a \<noteq> approver" "approver \<notin> set (pa_approvers a)"
      "s' = s\<lparr>gs_approvals := bt_insert ident (record_approver a approver time) (gs_approvals s)\<rparr>" "r = Err x"
  | (recorded) a a' d ty r' where "bt_get (gs_approvals s) ident = Some a" "pa_completed_at a = None"
      "pa_requested_by a \<noteq> approver" "approver \<notin> set (pa_approvers a)"
      "require_capability s approver CapApprove = Ok ()"
      "a' = (record_approver a approver time)\<lparr>pa_approval_digest := d\<rparr>"
      "append_event env (s\<lparr>gs_approvals := bt_insert ident a' (gs_approvals s)\<rparr>) approver
         (Some (pa_project_id a')) ty d time = (s', r')"
      "r = map_ok (\<lambda>_. if pa_completed_at a' \<noteq> None then Approved a' else ApprovalRequired a') r'"
proof (cases "and_then (parse_time env time) (\<lambda>_. and_then (require_capability s approver CapApprove) (\<lambda>_.
    ok_or (bt_get (gs_approvals s) ident) (GovInvalid ''unknown approval'')))")
  case (Inl x)
  then show thesis using refused assms by (auto simp: approve_def)
next
  case (Inr a)
  then have a: "bt_get (gs_approvals s) ident = Some a" and cap: "require_capability s approver CapApprove = Ok ()"
    by (auto simp: and_then_eq_Ok_iff)
  show thesis
  proof (cases "pa_completed_at a \<noteq> None \<or> pa_requested_by a = approver \<or> approver \<in> set (pa_approvers a)")
    case True
    then show thesis using refused assms Inr by (auto simp: approve_def)
  next
    case False
    show thesis
    proof (cases "approval_digest env (record_approver a approver time)")
      case (Inl x)
      then show thesis using unhashed [OF a] False assms Inr by (auto simp: approve_def Let_def)
    next
      case d: (Inr d)
      define a' where "a' = (record_approver a approver time)\<lparr>pa_approval_digest := d\<rparr>"
      have pd: "pa_approval_digest a' = d" by (simp add: a'_def)
      define ty where "ty = (if pa_completed_at a' \<noteq> None then ''approval_completed'' else ''approval_recorded'')"
      obtain s1 r' where app: "append_event env (s\<lparr>gs_approvals := bt_insert ident a' (gs_approvals s)\<rparr>) approver
          (Some (pa_project_id a')) ty d time = (s1, r')" by fastforce
      have "approve env s ident approver time = (s1,
          map_ok (\<lambda>_. if pa_completed_at a' \<noteq> None then Approved a' else ApprovalRequired a') r')"
        using Inr d False app [unfolded ty_def] pd
        by (cases r'; cases "pa_completed_at a'") (simp_all add: approve_def Let_def a'_def [symmetric])
      then show thesis using recorded [OF a _ _ _ cap a'_def] False assms app by auto
    qed
  qed
qed

lemma export_audit_cases:
  assumes "export_audit env s actor time = (s', r)"
  obtains (refused) x where "s' = s" "r = Err x"
  | (logged) r' where "append_event env s actor None ''audit_exported'' (gs_policy_digest s) time = (s', r')"
      "require_capability s actor CapExportAudit = Ok ()"
proof (cases "and_then (parse_time env time) (\<lambda>_. require_capability s actor CapExportAudit)")
  case (Inl x)
  then show thesis using refused assms by (auto simp: export_audit_def)
next
  case (Inr u)
  then have "require_capability s actor CapExportAudit = Ok ()" by (simp add: and_then_eq_Ok_iff)
  moreover obtain s1 r' where
    app: "append_event env s actor None ''audit_exported'' (gs_policy_digest s) time = (s1, r')" by fastforce
  moreover have "s1 = s'" using assms Inr app by (cases r') (auto simp: export_audit_def)
  ultimately show thesis using logged by blast
qed

section \<open>Every step keeps the invariant\<close>

lemma gov_step_log:
  assumes "gov_step env s op s'" shows "log_extends env s s' \<and> gs_policy s' = gs_policy s"
  using assms
proof cases
  case (authorize actor project action resource time r)
  then show ?thesis
    by (cases rule: authorize_cases [OF authorize(2)])
      (auto dest!: append_event_frame simp: log_extends_def)
next
  case (approve ident approver time r)
  then show ?thesis
    by (cases rule: approve_cases [OF approve(2)]) (auto dest!: append_event_frame simp: log_extends_def)
next
  case (export actor time r)
  then show ?thesis
    by (cases rule: export_audit_cases [OF export(2)]) (auto dest!: append_event_frame simp: log_extends_def)
qed (auto simp: add_member_def add_project_def log_extends_def split: if_splits)

lemma gov_inv_frame:
  assumes "gov_inv env s" and "log_extends env s s'" and "gs_policy s' = gs_policy s"
    and "gs_members s' = gs_members s" "gs_projects s' = gs_projects s"
    and "\<And>k a. bt_get (gs_approvals s') k = Some a \<Longrightarrow>
      bt_get (gs_approvals s) k = Some a \<or> pa_id a = k \<and> approval_ok a"
  shows "gov_inv env s'"
proof -
  have "chained env (gs_audit_events s')"
    using assms(1,2) log_extends_chained by (simp add: gov_inv_def)
  moreover have "pa_id a = k \<and> approval_ok a" if "bt_get (gs_approvals s') k = Some a" for k a
    using assms(6) [OF that] assms(1) by (auto simp: gov_inv_def)
  ultimately show ?thesis using assms(1,3-5) by (simp add: gov_inv_def)
qed

lemma gov_inv_logged:
  assumes "gov_inv env s" and "append_event env s actor project ty subject time = (s', r)"
  shows "gov_inv env s'"
  using append_event_frame [OF assms(2)] by (intro gov_inv_frame [OF assms(1)]) auto

lemma gov_inv_approval:
  assumes "gov_inv env s" and "pa_id a = k" "approval_ok a"
  shows "gov_inv env (s\<lparr>gs_approvals := bt_insert k a (gs_approvals s)\<rparr>)"
  using assms by (intro gov_inv_frame [OF assms(1)]) (auto split: if_splits)

lemma gov_step_inv:
  assumes "gov_step env s op s'" and inv: "gov_inv env s"
  shows "gov_inv env s'"
  using assms(1)
proof cases
  case (member m r)
  then show ?thesis using inv by (auto simp: add_member_def gov_inv_def split: if_splits)
next
  case (project p r)
  then show ?thesis using inv by (auto simp: add_project_def gov_inv_def split: if_splits)
next
  case (authorize actor project action resource time r)
  then show ?thesis
  proof (cases rule: authorize_cases [OF authorize(2)])
    case (2 r')
    then show ?thesis using gov_inv_logged [OF inv] by blast
  next
    case (3 k d a r')
    have "pa_id a = k \<and> approval_ok a" using approval_ok_new [OF 3(1)] 3(3) by auto
    then show ?thesis using gov_inv_logged [OF gov_inv_approval [OF inv]] 3(4) by blast
  qed (use inv in simp)
next
  case (approve ident approver time r)
  then show ?thesis
  proof (cases rule: approve_cases [OF approve(2)])
    case (2 a x)
    have "pa_id a = ident" "approval_ok a" using inv 2(1) by (auto simp: gov_inv_def)
    then have "pa_id (record_approver a approver time) = ident" "approval_ok (record_approver a approver time)"
      using approval_ok_record [of a approver] 2 by auto
    then show ?thesis using gov_inv_approval [OF inv] 2(5) by blast
  next
    case (3 a a' d ty r')
    have "pa_id a = ident" "approval_ok a" using inv 3(1) by (auto simp: gov_inv_def)
    then have "pa_id a' = ident" "approval_ok a'" using approval_ok_record(1,3) [of a approver] 3 by auto
    then show ?thesis using gov_inv_logged [OF gov_inv_approval [OF inv]] 3(7) by blast
  qed (use inv in simp)
next
  case (export actor time r)
  then show ?thesis
    using inv gov_inv_logged [OF inv] by (cases rule: export_audit_cases [OF export(2)]) auto
qed

lemma gov_inv_new: "governance_new env p = Ok s \<Longrightarrow> gov_inv env s"
  by (auto simp: governance_new_def and_then_eq_Ok_iff gov_inv_def)

lemma gov_reachable_inv: "gov_reachable env s \<Longrightarrow> gov_inv env s"
  by (induction rule: gov_reachable.induct) (auto intro: gov_inv_new gov_step_inv)

section \<open>Properties\<close>

text \<open>C12: after any sequence of governance operations, failed ones included, the hash chain of the
  audit log verifies.\<close>

theorem audit_chain_verifies:
  assumes "gov_reachable env s"
  shows "verify_audit_chain env (gs_audit_events s) = Ok ()"
  using gov_reachable_inv [OF assms] by (simp add: verify_audit_chain_iff gov_inv_def)

text \<open>An operation never rewrites the audit log: it leaves it alone or appends one event.\<close>

theorem audit_log_append_only:
  assumes "gov_step env s op s'"
  shows "\<exists>es. gs_audit_events s' = gs_audit_events s @ es \<and> length es \<le> 1"
  using gov_step_log [OF assms] by (auto simp: log_extends_def)

text \<open>C10: in every reachable state an approval request is complete exactly when the required positive
  number of distinct approvers is reached, and the requester is never among them.\<close>

theorem four_eyes:
  assumes "gov_reachable env s" and "bt_get (gs_approvals s) k = Some a"
  shows "(pa_completed_at a \<noteq> None \<longleftrightarrow> unat (pa_required_approvals a) \<le> card (set (pa_approvers a))) \<and>
    0 < unat (pa_required_approvals a) \<and> pa_requested_by a \<notin> set (pa_approvers a)"
  using gov_reachable_inv [OF assms(1)] assms(2) by (auto simp: gov_inv_def approval_ok_def length_bs)

definition holds_capability :: "governance_state \<Rightarrow> string \<Rightarrow> governance_capability \<Rightarrow> bool" where
  "holds_capability s who cap \<longleftrightarrow>
     (\<exists>m role. bt_get (gs_members s) who = Some m \<and> om_active m \<and>
        bt_get (op_roles (gs_policy s)) (om_role_id m) = Some role \<and> cap \<in> set (or_capabilities role))"

lemma require_capability_iff: "require_capability s who cap = Ok () \<longleftrightarrow> holds_capability s who cap"
  by (auto simp: require_capability_def holds_capability_def and_then_eq_Ok_iff split: option.splits if_splits)

definition owns_project :: "governance_state \<Rightarrow> string \<Rightarrow> bool" where
  "owns_project s project \<longleftrightarrow>
     (\<exists>p. bt_get (gs_projects s) project = Some p \<and> og_organization_id p = op_organization_id (gs_policy s))"

lemma authorize_guards_Ok:
  "authorize_guards env s actor project action resource time = Ok () \<Longrightarrow>
     holds_capability s actor (action_capability action) \<and> owns_project s project"
  by (auto simp: authorize_guards_def and_then_eq_Ok_iff require_capability_iff require_project_def
      owns_project_def split: option.splits)

text \<open>What the decision of an authorisation claims and what the log then shows; only an approval can
  answer that a request is approved.\<close>

fun authorisation_recorded ::
  "governance_state \<Rightarrow> governance_state \<Rightarrow> governed_action \<Rightarrow> string \<Rightarrow> audit_event \<Rightarrow> governance_decision \<Rightarrow> bool" where
  "authorisation_recorded s s' action resource e (Authorized digest) \<longleftrightarrow>
     approval_threshold s action = 0 \<and> ae_subject_digest e = resource \<and> digest = ae_event_digest e"
| "authorisation_recorded s s' action resource e (ApprovalRequired a) \<longleftrightarrow>
     approval_threshold s action \<noteq> 0 \<and> pa_required_approvals a = approval_threshold s action \<and>
     pa_resource_digest a = resource \<and> pa_action a = action \<and> pa_approvers a = [] \<and>
     bt_get (gs_approvals s') (pa_id a) = Some a \<and> ae_subject_digest e = pa_approval_digest a"
| "authorisation_recorded s s' action resource e (Approved a) \<longleftrightarrow> False"

text \<open>What the decision of an approval claims: request \<open>a\<close> was pending and becomes \<open>a'\<close>, the same request with
  one more approver, and it is approved exactly when the required number is reached.\<close>

definition approval_recorded ::
  "pending_approval \<Rightarrow> pending_approval \<Rightarrow> string \<Rightarrow> audit_event \<Rightarrow> governance_decision \<Rightarrow> bool" where
  "approval_recorded a a' approver e d \<longleftrightarrow>
     pa_completed_at a = None \<and> approver \<noteq> pa_requested_by a \<and> approver \<notin> set (pa_approvers a) \<and>
     set (pa_approvers a') = insert approver (set (pa_approvers a)) \<and>
     (pa_id a', pa_project_id a', pa_action a', pa_resource_digest a', pa_requested_by a', pa_required_approvals a') =
       (pa_id a, pa_project_id a, pa_action a, pa_resource_digest a, pa_requested_by a, pa_required_approvals a) \<and>
     ae_subject_digest e = pa_approval_digest a' \<and>
     d = (if unat (pa_required_approvals a) \<le> length (pa_approvers a') then Approved a' else ApprovalRequired a')"

lemma authorize_justified:
  assumes "authorize env s actor project action resource time = (s', Ok d)"
  shows "holds_capability s actor (action_capability action) \<and> owns_project s project \<and>
    (\<exists>e. gs_audit_events s' = gs_audit_events s @ [e] \<and> ae_actor_id e = actor \<and>
       ae_project_id e = Some project \<and> ae_occurred_at e = time \<and> authorisation_recorded s s' action resource e d)"
proof (cases rule: authorize_cases [OF assms])
  case (2 r')
  then obtain e where "r' = Ok e" "d = Authorized (ae_event_digest e)" by (cases r') auto
  with 2(1) authorize_guards_Ok [OF 2(2)] 2(3) show ?thesis by (cases rule: append_event_cases [OF 2(3)]) auto
next
  case (3 k dg a r')
  then obtain e where e: "r' = Ok e" "d = ApprovalRequired a" by (cases r') auto
  have a: "pa_required_approvals a = approval_threshold s action" "pa_resource_digest a = resource"
    "pa_action a = action" "pa_approvers a = []" "pa_id a = k" "pa_approval_digest a = dg"
    using 3(3) by (simp_all add: new_approval_def)
  from 3(4) show ?thesis
    using e a 3(1) authorize_guards_Ok [OF 3(2)] by (cases rule: append_event_cases) auto
qed auto

lemma approve_justified:
  assumes "approve env s ident approver time = (s', Ok d)"
  shows "holds_capability s approver CapApprove \<and>
    (\<exists>a a' e. bt_get (gs_approvals s) ident = Some a \<and> bt_get (gs_approvals s') ident = Some a' \<and>
       gs_audit_events s' = gs_audit_events s @ [e] \<and> ae_actor_id e = approver \<and>
       ae_project_id e = Some (pa_project_id a) \<and> ae_occurred_at e = time \<and> approval_recorded a a' approver e d)"
proof (cases rule: approve_cases [OF assms])
  case (3 a a' dg ty r')
  then obtain e where e: "r' = Ok e" "d = (if pa_completed_at a' \<noteq> None then Approved a' else ApprovalRequired a')"
    by (cases r') auto
  have a': "pa_approval_digest a' = dg" "set (pa_approvers a') = insert approver (set (pa_approvers a))"
    "pa_completed_at a' \<noteq> None \<longleftrightarrow> unat (pa_required_approvals a) \<le> length (pa_approvers a')"
    "(pa_id a', pa_project_id a', pa_action a', pa_resource_digest a', pa_requested_by a', pa_required_approvals a') =
       (pa_id a, pa_project_id a, pa_action a, pa_resource_digest a, pa_requested_by a, pa_required_approvals a)"
    using 3(2,6) by (simp_all add: record_approver_def Let_def)
  from 3(7) obtain e' where log: "s' = s\<lparr>gs_approvals := bt_insert ident a' (gs_approvals s), gs_audit_events := gs_audit_events s @ [e']\<rparr>"
    "ae_actor_id e' = approver" "ae_project_id e' = Some (pa_project_id a')" "ae_subject_digest e' = dg" "ae_occurred_at e' = time"
    using e(1) by (cases rule: append_event_cases) auto
  have "approval_recorded a a' approver e' d"
    unfolding approval_recorded_def using 3(2-4) a' e(2) log(4) by simp
  then show ?thesis using 3(1,5) a'(4) log by (auto simp: require_capability_iff)
qed auto

text \<open>C18: every positive decision is justified. A successful authorisation was asked for by an active member
  whose role grants the capability of the action, on a project of the organisation; it is final only when
  the policy sets no approval threshold for the action. A successful approval was given by an active member
  with the capability to approve, on a pending request of somebody else that the member had not approved
  yet, and it completes the request exactly when the required number of approvers is reached. Either leaves
  exactly one audit event, of that actor and bound to the resource or to the request.\<close>

theorem decision_justified:
  "(authorize env s actor project action resource time = (s', Ok d) \<longrightarrow>
      holds_capability s actor (action_capability action) \<and> owns_project s project \<and>
      (\<exists>e. gs_audit_events s' = gs_audit_events s @ [e] \<and> ae_actor_id e = actor \<and>
         ae_project_id e = Some project \<and> ae_occurred_at e = time \<and>
         authorisation_recorded s s' action resource e d)) \<and>
   (approve env s ident actor time = (s', Ok d) \<longrightarrow>
      holds_capability s actor CapApprove \<and>
      (\<exists>a a' e. bt_get (gs_approvals s) ident = Some a \<and> bt_get (gs_approvals s') ident = Some a' \<and>
         gs_audit_events s' = gs_audit_events s @ [e] \<and> ae_actor_id e = actor \<and>
         ae_project_id e = Some (pa_project_id a) \<and> ae_occurred_at e = time \<and>
         approval_recorded a a' actor e d))"
  using authorize_justified approve_justified by blast

text \<open>Asking again with the same arguments replaces the stored request, approvers included.\<close>

lemma repeated_request_resets:
  assumes "authorize env s actor project action resource time = (s', Ok (ApprovalRequired a))"
  shows "bt_get (gs_approvals s') (pa_id a) = Some a \<and> pa_approvers a = [] \<and> pa_completed_at a = None"
proof (cases rule: authorize_cases [OF assms])
  case (3 k dg b r')
  then have "b = a" by (cases r') auto
  with 3(3) append_event_frame [OF 3(4)] show ?thesis by (auto simp: new_approval_def)
next
  case (2 r')
  then show ?thesis by (cases r') auto
qed auto

subsection \<open>The last digest commits to the log\<close>

abbreviation unhashed :: "audit_event \<Rightarrow> audit_event" where
  "unhashed e \<equiv> e\<lparr>ae_event_digest := []\<rparr>"

lemma event_eqI: "unhashed e = unhashed f \<Longrightarrow> ae_event_digest e = ae_event_digest f \<Longrightarrow> e = f"
  by (metis audit_event.surjective audit_event.update_convs(8))

lemma semantic_digest_Ok:
  "semantic_digest env text = Ok d \<longleftrightarrow> (\<exists>b. text = Ok b \<and> d = ''sha256:'' @ hex (ge_sha256 env b))"
  by (auto simp: semantic_digest_def and_then_eq_Ok_iff)

text \<open>The texts that are hashed for the events of a log.\<close>

definition serialised :: "governance_env \<Rightarrow> audit_event list \<Rightarrow> string set" where
  "serialised env es = {b. \<exists>e \<in> set es. ge_event_to_vec env (unhashed e) = Ok b}"

lemma linked_events_eq:
  assumes "links_to env es e" "links_to env fs f" "ae_event_digest e = ae_event_digest f"
    and inj: "ge_event_to_vec env (unhashed e) = ge_event_to_vec env (unhashed f) \<Longrightarrow> unhashed e = unhashed f"
    and sha: "inj_on (ge_sha256 env) (serialised env [e, f])"
  shows "e = f \<and> last_digest es = last_digest fs"
proof -
  obtain b c where "ge_event_to_vec env (unhashed e) = Ok b" "ge_event_to_vec env (unhashed f) = Ok c"
    "hex (ge_sha256 env b) = hex (ge_sha256 env c)"
    using assms(1-3) by (auto simp: links_to_def audit_event_digest_def semantic_digest_Ok)
  moreover from this have "b \<in> serialised env [e, f]" "c \<in> serialised env [e, f]" by (auto simp: serialised_def)
  ultimately have "unhashed e = unhashed f" using hex_inj inj_onD [OF sha] inj by metis
  then have "e = f" using assms(3) by (rule event_eqI)
  with assms(1,2) show ?thesis by (simp add: links_to_def)
qed

lemma chained_commits:
  assumes "chained env es" "chained env fs" "last_digest es = last_digest fs"
    and "inj_on (ge_event_to_vec env) (unhashed ` (set es \<union> set fs))"
    and "inj_on (ge_sha256 env) (serialised env (es @ fs))"
  shows "es = fs"
  using assms
proof (induction es arbitrary: fs rule: rev_induct)
  case Nil
  then show ?case by (simp add: last_digest_def split: if_splits)
next
  case (snoc e es)
  then obtain gs f where fs: "fs = gs @ [f]" by (cases fs rule: rev_cases) (auto simp: last_digest_def)
  have "unhashed e = unhashed f" if "ge_event_to_vec env (unhashed e) = ge_event_to_vec env (unhashed f)"
    using inj_onD [OF snoc.prems(4) that] fs by simp
  then have "e = f \<and> last_digest es = last_digest gs"
    using snoc.prems(1-3) fs inj_on_subset [OF snoc.prems(5), of "serialised env [e, f]"]
    by (intro linked_events_eq) (auto simp: chained_snoc last_digest_def serialised_def)
  moreover have "inj_on (ge_event_to_vec env) (unhashed ` (set es \<union> set gs))"
    using snoc.prems(4) by (rule inj_on_subset) (auto simp: fs)
  moreover have "inj_on (ge_sha256 env) (serialised env (es @ gs))"
    using snoc.prems(5) by (rule inj_on_subset) (auto simp: fs serialised_def)
  ultimately show ?case using snoc.IH [of gs] snoc.prems(1,2) fs by (simp add: chained_snoc)
qed

text \<open>C21: the last digest commits to the whole audit log: two logs that verify end in the same digest exactly
  when they are the same log, provided the serialiser tells the events of the two logs apart and no two
  of the texts hashed for these events collide.\<close>

theorem audit_log_tamper_evident:
  assumes "verify_audit_chain env es = Ok ()" "verify_audit_chain env fs = Ok ()" and "es \<noteq> []" "fs \<noteq> []"
    and "inj_on (ge_event_to_vec env) (unhashed ` (set es \<union> set fs))"
    and "inj_on (ge_sha256 env) (serialised env (es @ fs))"
  shows "ae_event_digest (last es) = ae_event_digest (last fs) \<longleftrightarrow> es = fs"
  using chained_commits [of env es fs] assms by (auto simp: verify_audit_chain_iff last_digest_def)

section \<open>Retention\<close>

lemma try_collect_Ok:
  "try_collect f xs = Ok ys \<longleftrightarrow> list_all2 (\<lambda>x y. f x = Ok y) xs ys"
  by (induction xs arbitrary: ys) (auto simp: and_then_eq_Ok_iff list_all2_Cons1)

text \<open>A record is offered for deletion exactly when it is neither on legal hold nor of a
  protected class and at least the maximum number of whole days old; a plan has one disposition
  per record, in order.\<close>

theorem retention_plan_exact:
  assumes "retention_plan env s records as_of = Ok plan" and "ge_parse_rfc3339 env as_of = Some now"
  shows "length plan = length records \<and>
    (\<forall>i < length records. let r = records ! i; rp = op_retention (gs_policy s) in
       (\<exists>created. ge_parse_rfc3339 env (rr_created_at r) = Some created \<and> created \<le> now \<and>
          (plan ! i = EligibleForDeletion (rr_record_id r) (rr_digest r) \<longleftrightarrow>
             \<not> rr_legal_hold r \<and> rr_class r \<notin> set (rp_protected_classes rp) \<and>
             uint (rp_maximum_days rp) * 86400000000000 \<le> now - created)))"
proof -
  let ?rp = "op_retention (gs_policy s)"
  have all: "list_all2 (\<lambda>r d. dispose_record env ?rp now r = Ok d) records plan"
    using assms by (auto simp: retention_plan_def parse_time_def and_then_eq_Ok_iff try_collect_Ok)
  have one: "\<exists>created. ge_parse_rfc3339 env (rr_created_at r) = Some created \<and> created \<le> now \<and>
      (d = EligibleForDeletion (rr_record_id r) (rr_digest r) \<longleftrightarrow>
         \<not> rr_legal_hold r \<and> rr_class r \<notin> set (rp_protected_classes ?rp) \<and>
         uint (rp_maximum_days ?rp) * 86400000000000 \<le> now - created)"
    if "dispose_record env ?rp now r = Ok d" for r d
  proof -
    have days: "num_days age < m \<longleftrightarrow> \<not> m * 86400000000000 \<le> age" for age m :: int
      unfolding num_days_def by linarith
    show ?thesis
      using that by (auto simp: dispose_record_def parse_time_def and_then_eq_Ok_iff Let_def days)
  qed
  show ?thesis
    using all one by (auto simp: list_all2_conv_all_nth Let_def)
qed

section \<open>A worked example\<close>

definition gov_digest :: string where
  "gov_digest = ''sha256:'' @ replicate 64 (CHR ''a'')"

definition demo_env :: governance_env where
  "demo_env =
     \<lparr>ge_parse_rfc3339 = (\<lambda>t. if t = ''day 0'' then Some 0 else if t = ''day 9'' then Some 777600000000000 else None),
      ge_sha256 = (\<lambda>s. [of_nat (length s)]), ge_policy_to_vec = (\<lambda>_. Ok ''policy''),
      ge_request_to_vec = (\<lambda>_. Ok ''request''), ge_approval_to_vec = (\<lambda>_. Ok ''approval''),
      ge_event_to_vec = (\<lambda>e. Ok (ae_actor_id e)), ge_export_to_vec = (\<lambda>_. Ok ''export'')\<rparr>"

definition demo_policy :: organization_policy where
  "demo_policy =
     \<lparr>op_schema_version = ''0.1.0'', op_organization_id = ''org'', op_policy_version = ''1'',
      op_roles = [(''lead'', \<lparr>or_id = ''lead'', or_capabilities = [CapPublish, CapApprove]\<rparr>)],
      op_approval_thresholds = [(PublishResult, 1)],
      op_retention = \<lparr>rp_minimum_days = 1, rp_maximum_days = 7, rp_protected_classes = [''legal'']\<rparr>\<rparr>"

definition demo_start :: governance_state where
  "demo_start =
     \<lparr>gs_policy = demo_policy, gs_policy_digest = ''sha256:'' @ hex [6], gs_members = [], gs_projects = [],
      gs_approvals = [], gs_audit_events = []\<rparr>"

definition demo_member :: "string \<Rightarrow> organization_member" where
  "demo_member who = \<lparr>om_subject_id = who, om_role_id = ''lead'', om_active = True\<rparr>"

definition gov_project :: organization_project where
  "gov_project = \<lparr>og_project_id = ''wards'', og_organization_id = ''org'', og_classification = ''open''\<rparr>"

definition demo_staffed :: governance_state where
  "demo_staffed = demo_start\<lparr>
     gs_members := [(''ann'', demo_member ''ann''), (''bob'', demo_member ''bob'')],
     gs_projects := [(''wards'', gov_project)]\<rparr>"

lemma demo_visible: "blank ''ann'' = False" "blank ''bob'' = False" "blank ''wards'' = False"
  "blank ''org'' = False" "blank ''open'' = False" "blank ''1'' = False" "blank ''lead'' = False"
  by (simp_all add: trim_code visible_def)

lemma demo_start_new: "governance_new demo_env demo_policy = Ok demo_start"
  by (simp add: governance_new_def validate_organization_policy_def demo_policy_def demo_env_def demo_start_def
      demo_visible semantic_digest_def reject_def)

lemma demo_staffed_reachable: "gov_reachable demo_env demo_staffed"
proof -
  let ?s1 = "demo_start\<lparr>gs_members := [(''ann'', demo_member ''ann'')]\<rparr>"
  let ?s2 = "demo_start\<lparr>gs_members := [(''ann'', demo_member ''ann''), (''bob'', demo_member ''bob'')]\<rparr>"
  note demo = add_member_def add_project_def demo_start_def demo_policy_def demo_member_def
    gov_project_def demo_staffed_def demo_visible bt_keys_def
  have 1: "add_member demo_start (demo_member ''ann'') = (?s1, Ok ())" by (simp add: demo)
  have 2: "add_member ?s1 (demo_member ''bob'') = (?s2, Ok ())" by (simp add: demo)
  have 3: "add_project ?s2 gov_project = (demo_staffed, Ok ())" by (simp add: demo)
  have "gov_reachable demo_env demo_start" using demo_start_new by (rule gov_reachable.init)
  then have "gov_reachable demo_env ?s1" using gov_step.member [OF 1] by (rule gov_reachable.step)
  then have "gov_reachable demo_env ?s2" using gov_step.member [OF 2] by (rule gov_reachable.step)
  then show ?thesis using gov_step.project [OF 3] by (rule gov_reachable.step)
qed

definition demo_request :: "string \<Rightarrow> pending_approval" where
  "demo_request who = (new_approval (''sha256:'' @ hex [7]) who ''wards'' PublishResult gov_digest ''day 0'' 1)
     \<lparr>pa_approval_digest := ''sha256:'' @ hex [8]\<rparr>"

lemma demo_digest_ok: "governance_require_digest gov_digest = Ok ()"
  by (simp add: governance_require_digest_def gov_digest_def strip_prefix_def list_all_iff is_ascii_hexdigit_def)

definition demo_requested :: "string \<Rightarrow> governance_state" where
  "demo_requested who =
     fst (authorize demo_env demo_staffed who ''wards'' PublishResult gov_digest ''day 0'')"

lemma demo_authorize:
  assumes "who = ''ann'' \<or> who = ''bob''"
  shows "authorize demo_env demo_staffed who ''wards'' PublishResult gov_digest ''day 0'' =
     (demo_requested who, Ok (ApprovalRequired (demo_request who)))"
proof -
  have "snd (authorize demo_env demo_staffed who ''wards'' PublishResult gov_digest ''day 0'') =
      Ok (ApprovalRequired (demo_request who))"
    using assms
    by (auto simp: authorize_def authorize_guards_def parse_time_def demo_digest_ok require_project_def
        require_capability_def approval_threshold_def demo_staffed_def demo_start_def demo_policy_def
        demo_member_def gov_project_def demo_request_def new_approval_def approval_digest_def
        append_event_def audit_event_digest_def semantic_digest_def demo_env_def bt_get_def Let_def
        ok_or_def reject_def)
  then show ?thesis by (simp add: demo_requested_def prod_eq_iff)
qed

lemmas demo_ann = demo_authorize [of "''ann''", OF disjI1 [OF refl]]
lemmas demo_bob = demo_authorize [of "''bob''", OF disjI2 [OF refl]]

lemma demo_frame:
  assumes "who = ''ann'' \<or> who = ''bob''"
  shows "gs_members (demo_requested who) = gs_members demo_staffed" "gs_policy (demo_requested who) = gs_policy demo_staffed"
  using assms
  by (auto simp: demo_requested_def authorize_def authorize_guards_def parse_time_def demo_digest_ok require_project_def
      require_capability_def approval_threshold_def demo_staffed_def demo_start_def demo_policy_def
      demo_member_def gov_project_def new_approval_def approval_digest_def
      append_event_def audit_event_digest_def semantic_digest_def demo_env_def bt_get_def Let_def
      ok_or_def reject_def)

lemma demo_requested_reachable:
  "who = ''ann'' \<or> who = ''bob'' \<Longrightarrow> gov_reachable demo_env (demo_requested who)"
  using demo_staffed_reachable gov_step.authorize [OF demo_authorize] by (rule gov_reachable.step)

lemma demo_requested_log:
  assumes "who = ''ann'' \<or> who = ''bob''"
  shows "\<exists>e. gs_audit_events (demo_requested who) = [e] \<and> ae_actor_id e = who"
proof -
  have "\<exists>e. gs_audit_events (demo_requested who) = gs_audit_events demo_staffed @ [e] \<and> ae_actor_id e = who"
  proof (cases rule: authorize_cases [OF demo_authorize [OF assms]])
    case (3 k d a r')
    from 3(4) show ?thesis
      using 3(5) by (cases rule: append_event_cases) auto
  next
    case (2 r')
    then show ?thesis by (cases r') auto
  qed auto
  then show ?thesis by (simp add: demo_staffed_def demo_start_def)
qed

theorem audit_chain_verifies_witness:
  "gs_audit_events (demo_requested ''ann'') \<noteq> [] \<and>
   verify_audit_chain demo_env (gs_audit_events (demo_requested ''ann'')) = Ok ()"
  using audit_chain_verifies [OF demo_requested_reachable [of "''ann''"]] demo_requested_log [of "''ann''"] by auto

theorem audit_log_append_only_witness:
  "\<exists>es. gs_audit_events (demo_requested ''ann'') = gs_audit_events demo_staffed @ es \<and> length es \<le> 1"
  by (rule audit_log_append_only [OF gov_step.authorize [OF demo_ann]])

theorem four_eyes_witness:
  "pa_requested_by (demo_request ''ann'') \<notin> set (pa_approvers (demo_request ''ann'')) \<and>
   0 < unat (pa_required_approvals (demo_request ''ann''))"
  using four_eyes [OF demo_requested_reachable, of "''ann''" "pa_id (demo_request ''ann'')" "demo_request ''ann''"]
    repeated_request_resets [OF demo_ann] by blast

text \<open>Bob approves what Ann asked for.\<close>

lemma demo_approve:
  "\<exists>s' d. approve demo_env (demo_requested ''ann'') (''sha256:'' @ hex [7]) ''bob'' ''day 0'' = (s', Ok d)"
proof -
  have "bt_get (gs_approvals (demo_requested ''ann'')) (''sha256:'' @ hex [7]) = Some (demo_request ''ann'')"
    using repeated_request_resets [OF demo_ann] by (simp add: demo_request_def new_approval_def)
  moreover have "require_capability (demo_requested ''ann'') ''bob'' CapApprove = Ok ()"
    using demo_frame [of "''ann''"]
    by (simp add: require_capability_def demo_staffed_def demo_start_def demo_policy_def demo_member_def bt_get_def ok_or_def reject_def)
  ultimately show ?thesis
    by (simp add: approve_def parse_time_def demo_request_def new_approval_def record_approver_def approval_digest_def
        append_event_def audit_event_digest_def semantic_digest_def demo_env_def Let_def ok_or_def split: prod.splits)
qed

theorem decision_justified_witness:
  "holds_capability demo_staffed ''ann'' CapPublish \<and> owns_project demo_staffed ''wards'' \<and>
   holds_capability (demo_requested ''ann'') ''bob'' CapApprove"
proof -
  obtain s' d where "approve demo_env (demo_requested ''ann'') (''sha256:'' @ hex [7]) ''bob'' ''day 0'' = (s', Ok d)"
    using demo_approve by blast
  then show ?thesis
    using decision_justified [of demo_env demo_staffed "''ann''" "''wards''" PublishResult gov_digest "''day 0''"
        "demo_requested ''ann''" "ApprovalRequired (demo_request ''ann'')"] demo_ann
      decision_justified [of demo_env "demo_requested ''ann''" "''bob''" _ _ _ "''day 0''" s' d "''sha256:'' @ hex [7]"]
    by simp
qed

text \<open>Two logs of one event each, under a hash that keeps the last character.\<close>

definition tail_env :: governance_env where
  "tail_env = demo_env\<lparr>ge_sha256 := \<lambda>s. [of_nat (of_char (last s))]\<rparr>"

definition tail_event :: "string \<Rightarrow> audit_event" where
  "tail_event who = \<lparr>ae_sequence = 1, ae_occurred_at = ''day 0'', ae_actor_id = who, ae_project_id = None,
     ae_event_type = ''authorized'', ae_subject_digest = gov_digest, ae_previous_event_digest = None,
     ae_event_digest = ''sha256:'' @ hex [of_nat (of_char (last who))]\<rparr>"

lemma tail_event_verifies: "verify_audit_chain tail_env [tail_event who] = Ok ()"
  by (simp add: verify_audit_chain_def verify_event_def tail_event_def audit_event_digest_def semantic_digest_def
      tail_env_def demo_env_def enumerate0_def reject_def last_digest_def)

theorem audit_log_tamper_evident_witness:
  "verify_audit_chain tail_env [tail_event ''ann''] = Ok () \<and> verify_audit_chain tail_env [tail_event ''bob''] = Ok () \<and>
   ae_event_digest (tail_event ''ann'') \<noteq> ae_event_digest (tail_event ''bob'')"
proof -
  have "inj_on (ge_event_to_vec tail_env) (unhashed ` (set [tail_event ''ann''] \<union> set [tail_event ''bob'']))"
    "inj_on (ge_sha256 tail_env) (serialised tail_env ([tail_event ''ann''] @ [tail_event ''bob'']))"
    by (auto simp: inj_on_def serialised_def tail_env_def demo_env_def tail_event_def)
  from audit_log_tamper_evident [OF tail_event_verifies tail_event_verifies _ _ this]
  have "ae_event_digest (tail_event ''ann'') = ae_event_digest (tail_event ''bob'') \<longleftrightarrow> tail_event ''ann'' = tail_event ''bob''"
    by simp
  moreover have "tail_event ''ann'' \<noteq> tail_event ''bob''" by (simp add: tail_event_def)
  ultimately show ?thesis using tail_event_verifies by blast
qed

definition demo_record :: retention_record where
  "demo_record = \<lparr>rr_record_id = ''r1'', rr_class = ''log'', rr_created_at = ''day 0'', rr_legal_hold = False,
     rr_digest = gov_digest\<rparr>"

theorem retention_plan_exact_witness:
  "uint (rp_maximum_days (op_retention (gs_policy demo_staffed))) * 86400000000000 \<le> 777600000000000"
proof -
  have plan: "retention_plan demo_env demo_staffed [demo_record] ''day 9'' =
      Ok [EligibleForDeletion ''r1'' gov_digest]"
    by (simp add: retention_plan_def parse_time_def dispose_record_def demo_record_def demo_digest_ok
        demo_env_def demo_staffed_def demo_start_def demo_policy_def num_days_def ok_or_def reject_def Let_def)
  have now: "ge_parse_rfc3339 demo_env ''day 9'' = Some 777600000000000" by (simp add: demo_env_def)
  have "ge_parse_rfc3339 demo_env ''day 0'' = Some 0" by (simp add: demo_env_def)
  with retention_plan_exact [OF plan now] show ?thesis by (simp add: Let_def demo_record_def)
qed

end
