(* ===== verification/Deployment.thy ===== *)
theory Deployment
  imports Source_Assurance F64
begin

text \<open>
  Deployment profiles (\<open>genegis-core/src/deployment.rs\<close>) and performance matrices with their
  regression gate (\<open>genegis-core/src/performance.rs\<close>). JSON text is the parameter \<open>to_vec\<close> of each
  digest, whose error is a message. Measured values are IEEE doubles.
\<close>

section \<open>Deployment profiles\<close>

datatype deployment_class = LocalFirst | ManagedCloud | AirGapped

datatype deployment_network = NetworkDisabled | NetworkAllowList "string list"

datatype deployment_persistence = LocalFilesystem | ObjectStorage | OfflineBundle

datatype deployment_identity = LocalIdentity | OidcIdentity | OfflineDirectory

record deployment_profile =
  df_schema_version :: string
  df_id :: string
  df_class :: deployment_class
  df_network :: deployment_network
  df_persistence :: deployment_persistence
  df_identity :: deployment_identity
  df_maximum_concurrent_workflows :: u32
  df_command_workflow_required :: bool
  df_offline_capsule_verification :: bool
  df_allowed_open_formats :: "string list"
  df_build_digest :: string
  df_registry_snapshot_digest :: "string option"

datatype deployment_profile_error =
    ProfileInvalid string
  | ProfileSerialization string

definition deployment_valid_digest :: "string \<Rightarrow> bool" where
  "deployment_valid_digest value =
     (case strip_prefix ''sha256:'' value of
        None \<Rightarrow> False
      | Some h \<Rightarrow> length h = 64 \<and> list_all is_ascii_hexdigit h)"

definition required_formats :: "string list" where
  "required_formats = [''cog'', ''copc'', ''geoparquet'', ''pmtiles'', ''stac'']"

definition class_requirements :: "deployment_profile \<Rightarrow> deployment_profile_error + unit" where
  "class_requirements p =
     (case df_class p of
        LocalFirst \<Rightarrow>
          reject (df_persistence p \<noteq> LocalFilesystem \<or> df_identity p \<noteq> LocalIdentity)
            (ProfileInvalid ''local-first requires local filesystem and local identity'')
      | ManagedCloud \<Rightarrow>
          reject (df_persistence p \<noteq> ObjectStorage \<or> df_identity p \<noteq> OidcIdentity \<or>
              \<not> (case df_network p of NetworkAllowList origins \<Rightarrow> origins \<noteq> [] | NetworkDisabled \<Rightarrow> False))
            (ProfileInvalid ''managed cloud requires OIDC, object storage, and a network allowlist'')
      | AirGapped \<Rightarrow>
          reject (df_network p \<noteq> NetworkDisabled \<or> df_persistence p \<noteq> OfflineBundle \<or>
              df_identity p \<noteq> OfflineDirectory \<or> df_registry_snapshot_digest p = None)
            (ProfileInvalid ''air-gapped requires disabled network and pinned offline bundles''))"

definition validate_deployment :: "deployment_profile \<Rightarrow> deployment_profile_error + unit" where
  "validate_deployment p =
     and_then (reject (df_schema_version p \<noteq> ''1.0.0'' \<or> blank (df_id p) \<or>
         df_maximum_concurrent_workflows p = 0 \<or> \<not> df_command_workflow_required p \<or>
         \<not> df_offline_capsule_verification p \<or>
         \<not> list_all (\<lambda>f. f \<in> set (df_allowed_open_formats p)) required_formats \<or>
         \<not> deployment_valid_digest (df_build_digest p) \<or>
         (case df_registry_snapshot_digest p of None \<Rightarrow> False | Some d \<Rightarrow> \<not> deployment_valid_digest d))
       (ProfileInvalid ''required identity, verification, format, concurrency, or digest is absent''))
     (\<lambda>_. class_requirements p)"

definition deployment_digest ::
  "(deployment_profile \<Rightarrow> string + string) \<Rightarrow> sha256 \<Rightarrow> deployment_profile \<Rightarrow>
   deployment_profile_error + string" where
  "deployment_digest to_vec sha p =
     and_then (validate_deployment p) (\<lambda>_.
     and_then (map_err ProfileSerialization (to_vec p)) (\<lambda>bytes. Ok (''sha256:'' @ hex (sha bytes))))"

lemma deployment_valid_digest_iff: "deployment_valid_digest d \<longleftrightarrow> sha256_identity d"
  unfolding assurance_valid_digest_iff [symmetric]
  by (simp only: deployment_valid_digest_def assurance_valid_digest_def)

text \<open>A valid air-gapped profile has no network and pins its registry.\<close>

lemma air_gapped_offline:
  assumes "validate_deployment p = Ok ()" "df_class p = AirGapped"
  shows "df_network p = NetworkDisabled \<and> df_persistence p = OfflineBundle \<and>
    df_identity p = OfflineDirectory \<and>
    (\<exists>d. df_registry_snapshot_digest p = Some d \<and> sha256_identity d)"
  using assms
  by (auto simp: validate_deployment_def class_requirements_def and_then_eq_Ok_iff deployment_valid_digest_iff
      split: option.splits)

lemma managed_cloud_listed:
  assumes "validate_deployment p = Ok ()" "df_class p = ManagedCloud"
  shows "df_identity p = OidcIdentity \<and> (\<exists>origins. df_network p = NetworkAllowList origins \<and> origins \<noteq> [])"
  using assms
  by (auto simp: validate_deployment_def class_requirements_def and_then_eq_Ok_iff split: deployment_network.splits)

section \<open>Performance matrices\<close>

datatype performance_dimension =
  DimCpu | DimGpu | DimDataset | DimNetwork | DimConcurrency

datatype metric_comparator = AtMost | AtLeast

record performance_metric_budget =
  pb_id :: string
  pb_dimension :: performance_dimension
  pb_unit :: string
  pb_comparator :: metric_comparator
  pb_threshold :: f64
  pb_required :: bool
  pb_fixture_digest :: "string option"

record performance_matrix_profile =
  pp_schema_version :: string
  pp_id :: string
  pp_deployment_class :: deployment_class
  pp_dataset_id :: string
  pp_dataset_digest :: string
  pp_build_digest :: string
  pp_metrics :: "performance_metric_budget list"

record performance_environment =
  pe_os :: string
  pe_cpu :: string
  pe_gpu :: "string option"
  pe_network_profile :: string
  pe_logical_concurrency :: u32
  pe_build_digest :: string

datatype performance_measurement_status =
    Measured f64 u32
  | NotMeasured string

record performance_measurement =
  pm_metric_id :: string
  pm_fixture_digest :: string
  pm_evidence_digest :: "string option"
  pm_observed_at :: string
  pm_environment :: performance_environment
  pm_status :: performance_measurement_status

datatype performance_matrix_verdict = MatrixPass | MatrixFail | MatrixPending

record performance_matrix_receipt =
  mx_schema_version :: string
  mx_profile_id :: string
  mx_profile_digest :: string
  mx_verdict :: performance_matrix_verdict
  mx_regressions :: "string list"
  mx_pending :: "string list"
  mx_measurements :: "performance_measurement list"
  mx_receipt_digest :: string

datatype performance_matrix_error =
    MatrixInvalid string
  | MatrixSerialization string

definition required_dimensions :: "performance_dimension list" where
  "required_dimensions = [DimCpu, DimGpu, DimDataset, DimNetwork, DimConcurrency]"

definition budget_fixture_digest :: "performance_matrix_profile \<Rightarrow> performance_metric_budget \<Rightarrow> string" where
  "budget_fixture_digest p b =
     (case pb_fixture_digest b of None \<Rightarrow> pp_dataset_digest p | Some d \<Rightarrow> d)"

definition performance_valid_digest :: "string \<Rightarrow> bool" where
  "performance_valid_digest value =
     (case strip_prefix ''sha256:'' value of
        None \<Rightarrow> False
      | Some h \<Rightarrow> length h = 64 \<and> list_all is_ascii_hexdigit h)"

definition bad_budget :: "performance_metric_budget \<Rightarrow> bool" where
  "bad_budget b =
     (blank (pb_id b) \<or> blank (pb_unit b) \<or> \<not> f64_is_finite (pb_threshold b) \<or>
      f64_lt (pb_threshold b) (Fin 0) \<or>
      (case pb_fixture_digest b of None \<Rightarrow> False | Some d \<Rightarrow> \<not> performance_valid_digest d))"

definition validate_matrix_profile :: "performance_matrix_profile \<Rightarrow> performance_matrix_error + unit" where
  "validate_matrix_profile p =
     reject (pp_schema_version p \<noteq> ''1.0.0'' \<or> blank (pp_id p) \<or> blank (pp_dataset_id p) \<or>
         \<not> performance_valid_digest (pp_dataset_digest p) \<or> \<not> performance_valid_digest (pp_build_digest p) \<or>
         pp_metrics p = [] \<or>
         length (bs_of_list (map pb_id (pp_metrics p))) \<noteq> length (pp_metrics p) \<or>
         \<not> list_all (\<lambda>d. d \<in> set (map pb_dimension (pp_metrics p))) required_dimensions \<or>
         list_ex bad_budget (pp_metrics p))
       (MatrixInvalid ''profile identity, dimension coverage, or budget is invalid'')"

definition matrix_digest :: "sha256 \<Rightarrow> string + string \<Rightarrow> performance_matrix_error + string" where
  "matrix_digest sha text =
     and_then (map_err MatrixSerialization text) (\<lambda>bytes. Ok (''sha256:'' @ hex (sha bytes)))"

text \<open>\<open>budgets[id]\<close> after \<open>contains_key\<close>: the index cannot panic there.\<close>

definition bad_measurement ::
  "performance_matrix_profile \<Rightarrow> (string, performance_metric_budget) btmap \<Rightarrow> performance_measurement \<Rightarrow> bool" where
  "bad_measurement p budgets m =
     (case bt_get budgets (pm_metric_id m) of
        None \<Rightarrow> True
      | Some b \<Rightarrow>
          pm_fixture_digest m \<noteq> budget_fixture_digest p b \<or>
          (case pm_evidence_digest m of None \<Rightarrow> False | Some d \<Rightarrow> \<not> performance_valid_digest d) \<or>
          pe_build_digest (pm_environment m) \<noteq> pp_build_digest p \<or> blank (pm_observed_at m) \<or>
          blank (pe_os (pm_environment m)) \<or> blank (pe_cpu (pm_environment m)) \<or>
          blank (pe_network_profile (pm_environment m)) \<or> pe_logical_concurrency (pm_environment m) = 0)"

fun meets_threshold :: "metric_comparator \<Rightarrow> f64 \<Rightarrow> f64 \<Rightarrow> bool" where
  "meets_threshold AtMost threshold value = f64_le value threshold"
| "meets_threshold AtLeast threshold value = f64_le threshold value"

text \<open>One iteration of the loop over the measurements, with its two result vectors. \<^const>\<open>None\<close> of the
  lookup is the panic of \<open>budgets[id]\<close>.\<close>

definition judge_measurement ::
  "(string, performance_metric_budget) btmap \<Rightarrow> string list \<times> string list \<Rightarrow> performance_measurement \<Rightarrow>
   performance_matrix_error option + (string list \<times> string list)" where
  "judge_measurement budgets = (\<lambda>(regressions, pending) m.
     case bt_get budgets (pm_metric_id m) of
       None \<Rightarrow> Err None
     | Some b \<Rightarrow>
         (case pm_status m of
            Measured value iterations \<Rightarrow>
              if \<not> f64_is_finite value \<or> f64_lt value (Fin 0) \<or> iterations = 0 then
                Err (Some (MatrixInvalid ''measured value or iteration count is invalid''))
              else if \<not> meets_threshold (pb_comparator b) (pb_threshold b) value
              then Ok (regressions @ [pm_metric_id m], pending)
              else Ok (regressions, pending)
          | NotMeasured reason \<Rightarrow>
              if blank reason then Err (Some (MatrixInvalid ''not-measured reason is required''))
              else if pb_required b then Ok (regressions, pending @ [pm_metric_id m])
              else Ok (regressions, pending)))"

record matrix_env =
  me_sha256 :: sha256
  me_profile_to_vec :: "performance_matrix_profile \<Rightarrow> string + string"
  me_receipt_to_vec :: "performance_matrix_receipt \<Rightarrow> string + string"

definition evaluate_performance_matrix ::
  "matrix_env \<Rightarrow> performance_matrix_profile \<Rightarrow> performance_measurement list \<Rightarrow>
   performance_matrix_error option + performance_matrix_receipt" where
  "evaluate_performance_matrix env p ms =
     and_then (map_err Some (validate_matrix_profile p)) (\<lambda>_.
     and_then (map_err Some (matrix_digest (me_sha256 env) (me_profile_to_vec env p))) (\<lambda>profile_digest.
     let budgets = bt_of_list (map (\<lambda>b. (pb_id b, b)) (pp_metrics p));
         measurement_ids = bs_of_list (map pm_metric_id ms) in
     and_then (reject (length measurement_ids \<noteq> length ms \<or> length measurement_ids \<noteq> length budgets \<or>
         list_ex (bad_measurement p budgets) ms)
       (Some (MatrixInvalid ''measurement coverage, fixture, build, or environment identity is invalid''))) (\<lambda>_.
     and_then (try_fold (judge_measurement budgets) ([], []) ms) (\<lambda>(regressions, pending).
     let receipt =
       \<lparr>mx_schema_version = ''1.0.0'', mx_profile_id = pp_id p, mx_profile_digest = profile_digest,
        mx_verdict = (if sort regressions \<noteq> [] then MatrixFail
          else if sort pending \<noteq> [] then MatrixPending else MatrixPass),
        mx_regressions = sort regressions, mx_pending = sort pending, mx_measurements = ms,
        mx_receipt_digest = []\<rparr> in
     and_then (map_err Some (matrix_digest (me_sha256 env) (me_receipt_to_vec env receipt))) (\<lambda>digest.
     Ok (receipt\<lparr>mx_receipt_digest := digest\<rparr>))))))"

section \<open>The gate\<close>

definition over_budget :: "performance_metric_budget \<Rightarrow> performance_measurement \<Rightarrow> bool" where
  "over_budget b m \<longleftrightarrow>
     (\<exists>v n. pm_status m = Measured v n \<and> \<not> meets_threshold (pb_comparator b) (pb_threshold b) v)"

definition owed :: "performance_metric_budget \<Rightarrow> performance_measurement \<Rightarrow> bool" where
  "owed b m \<longleftrightarrow> pb_required b \<and> (\<exists>reason. pm_status m = NotMeasured reason)"

lemma judge_measurement_Ok:
  assumes "judge_measurement budgets (rs, ps) m = Ok (rs', ps')"
  shows "\<exists>b. bt_get budgets (pm_metric_id m) = Some b \<and>
    rs' = rs @ (if over_budget b m then [pm_metric_id m] else []) \<and>
    ps' = ps @ (if owed b m then [pm_metric_id m] else [])"
  using assms
  by (auto simp: judge_measurement_def over_budget_def owed_def
      split: option.splits performance_measurement_status.splits if_splits)

lemma judge_measurements_Ok:
  assumes "try_fold (judge_measurement budgets) (rs, ps) ms = Ok (rs', ps')"
  shows "rs' = rs @ map pm_metric_id (filter (\<lambda>m. over_budget (the (bt_get budgets (pm_metric_id m))) m) ms) \<and>
    ps' = ps @ map pm_metric_id (filter (\<lambda>m. owed (the (bt_get budgets (pm_metric_id m))) m) ms)"
  using assms
proof (induction ms arbitrary: rs ps)
  case (Cons m ms)
  from Cons.prems obtain rs1 ps1 where j: "judge_measurement budgets (rs, ps) m = Ok (rs1, ps1)"
    and rest: "try_fold (judge_measurement budgets) (rs1, ps1) ms = Ok (rs', ps')"
    by (auto simp: and_then_eq_Ok_iff)
  show ?case using Cons.IH [OF rest] judge_measurement_Ok [OF j] by auto
qed simp

text \<open>Coverage: the measurements and the budgets name the same metrics, each once.\<close>

lemma same_metrics:
  assumes "length (bs_of_list xs) = length ys" "distinct ys" "set xs \<subseteq> set ys"
  shows "set xs = set ys"
  using assms by (metis List.finite_set card_subset_eq distinct_card length_bs_of_list)

lemma validate_matrix_distinct: "validate_matrix_profile p = Ok () \<Longrightarrow> distinct (map pb_id (pp_metrics p))"
  by (simp add: validate_matrix_profile_def) (metis length_bs_of_list_eq_iff length_map)

definition budget_map :: "performance_matrix_profile \<Rightarrow> (string, performance_metric_budget) btmap" where
  "budget_map p = bt_of_list (map (\<lambda>b. (pb_id b, b)) (pp_metrics p))"

lemma budget_map_get:
  assumes "distinct (map pb_id (pp_metrics p))"
  shows "bt_get (budget_map p) k = Some b \<longleftrightarrow> b \<in> set (pp_metrics p) \<and> pb_id b = k"
proof -
  have "distinct (map fst (map (\<lambda>b. (pb_id b, b)) (pp_metrics p)))" using assms by (simp add: comp_def)
  then show ?thesis unfolding budget_map_def by (auto simp: bt_get_of_list_distinct)
qed

lemma budget_map_keys:
  assumes "distinct (map pb_id (pp_metrics p))"
  shows "set (bt_keys (budget_map p)) = set (map pb_id (pp_metrics p))"
    and "length (budget_map p) = length (pp_metrics p)"
proof -
  have "k \<in> set (bt_keys (budget_map p)) \<longleftrightarrow> (\<exists>b. bt_get (budget_map p) k = Some b)" for k
    using bt_get_None_keys [of "budget_map p" k] by auto
  then show keys: "set (bt_keys (budget_map p)) = set (map pb_id (pp_metrics p))"
    using budget_map_get [OF assms] by auto
  have "bt_wf (budget_map p)" by (simp add: budget_map_def)
  then have "distinct (bt_keys (budget_map p))" unfolding bt_keys_def by (rule bt.distinct_keys)
  then show "length (budget_map p) = length (pp_metrics p)"
    using keys assms by (metis bt_keys_def distinct_card length_map)
qed

lemma bad_measurement_known: "\<not> bad_measurement p budgets m \<Longrightarrow> \<exists>b. bt_get budgets (pm_metric_id m) = Some b"
  by (cases "bt_get budgets (pm_metric_id m)") (auto simp: bad_measurement_def)

text \<open>A performance matrix is evaluated only when the measurements cover the budgets one to one.
  It then passes exactly when every measured metric, required or not, is within its budget and every
  required metric was measured; it fails exactly when some measured metric is outside its budget,
  and is pending otherwise, so that missing data is never success.\<close>

theorem performance_verdict_exact:
  assumes "evaluate_performance_matrix env p ms = Ok r"
  shows "distinct (map pm_metric_id ms) \<and> set (map pm_metric_id ms) = set (map pb_id (pp_metrics p)) \<and>
    (mx_verdict r = MatrixFail \<longleftrightarrow>
       (\<exists>m \<in> set ms. \<exists>b \<in> set (pp_metrics p). pb_id b = pm_metric_id m \<and> over_budget b m)) \<and>
    (mx_verdict r = MatrixPass \<longleftrightarrow>
       (\<forall>m \<in> set ms. \<forall>b \<in> set (pp_metrics p). pb_id b = pm_metric_id m \<longrightarrow> \<not> over_budget b m \<and> \<not> owed b m))"
proof -
  obtain u pd rs ps where valid: "validate_matrix_profile p = Ok u"
    and cov: "\<not> (length (bs_of_list (map pm_metric_id ms)) \<noteq> length ms \<or>
      length (bs_of_list (map pm_metric_id ms)) \<noteq> length (budget_map p) \<or>
      list_ex (bad_measurement p (budget_map p)) ms)"
    and fold: "try_fold (judge_measurement (budget_map p)) ([], []) ms = Ok (rs, ps)"
    and verdict: "mx_verdict r = (if rs \<noteq> [] then MatrixFail else if ps \<noteq> [] then MatrixPending else MatrixPass)"
    using assms
    by (auto simp: evaluate_performance_matrix_def and_then_eq_Ok_iff Let_def budget_map_def [symmetric]
        simp flip: set_empty)
  have dist: "distinct (map pb_id (pp_metrics p))" using validate_matrix_distinct valid by simp
  have ids: "distinct (map pm_metric_id ms)" using cov by (metis length_bs_of_list_eq_iff length_map)
  have get: "\<exists>b \<in> set (pp_metrics p). pb_id b = pm_metric_id m \<and> bt_get (budget_map p) (pm_metric_id m) = Some b"
    if "m \<in> set ms" for m
    using cov that budget_map_get [OF dist] bad_measurement_known [of p "budget_map p" m]
    by (auto simp: list_ex_iff)
  have the: "the (bt_get (budget_map p) (pm_metric_id m)) = b"
    if "b \<in> set (pp_metrics p)" "pb_id b = pm_metric_id m" for b m
    using budget_map_get [OF dist, of "pm_metric_id m" b] that by simp
  have all: "(\<forall>m \<in> set ms. \<not> Q (the (bt_get (budget_map p) (pm_metric_id m))) m) \<longleftrightarrow>
      (\<forall>m \<in> set ms. \<forall>b \<in> set (pp_metrics p). pb_id b = pm_metric_id m \<longrightarrow> \<not> Q b m)" for Q
    using get the by metis
  have "pm_metric_id m \<in> pb_id ` set (pp_metrics p)" if "m \<in> set ms" for m
    using get [OF that] by (metis imageI)
  then have "set (map pm_metric_id ms) \<subseteq> set (map pb_id (pp_metrics p))" by auto
  then have "set (map pm_metric_id ms) = set (map pb_id (pp_metrics p))"
    using cov budget_map_keys(2) [OF dist] dist by (intro same_metrics) auto
  moreover have "rs = [] \<longleftrightarrow> (\<forall>m \<in> set ms. \<forall>b \<in> set (pp_metrics p). pb_id b = pm_metric_id m \<longrightarrow> \<not> over_budget b m)"
    using judge_measurements_Ok [OF fold] by (simp add: filter_empty_conv all)
  moreover have "ps = [] \<longleftrightarrow> (\<forall>m \<in> set ms. \<forall>b \<in> set (pp_metrics p). pb_id b = pm_metric_id m \<longrightarrow> \<not> owed b m)"
    using judge_measurements_Ok [OF fold] by (simp add: filter_empty_conv all)
  ultimately show ?thesis using ids verdict by auto
qed

text \<open>A matrix with one metric per dimension, of which one was not measured.\<close>

definition sample_budget :: "string \<Rightarrow> performance_dimension \<Rightarrow> performance_metric_budget" where
  "sample_budget k d =
     \<lparr>pb_id = k, pb_dimension = d, pb_unit = ''ms'', pb_comparator = AtMost, pb_threshold = Fin 10,
      pb_required = True, pb_fixture_digest = None\<rparr>"

definition sample_matrix :: performance_matrix_profile where
  "sample_matrix =
     \<lparr>pp_schema_version = ''1.0.0'', pp_id = ''nagoya'', pp_deployment_class = LocalFirst,
      pp_dataset_id = ''wards'', pp_dataset_digest = sample_digest (CHR ''a''),
      pp_build_digest = sample_digest (CHR ''b''),
      pp_metrics = [sample_budget ''a'' DimCpu, sample_budget ''b'' DimGpu, sample_budget ''c'' DimDataset,
        sample_budget ''d'' DimNetwork, sample_budget ''e'' DimConcurrency]\<rparr>"

definition sample_measurement :: "string \<Rightarrow> performance_measurement_status \<Rightarrow> performance_measurement" where
  "sample_measurement k st =
     \<lparr>pm_metric_id = k, pm_fixture_digest = sample_digest (CHR ''a''), pm_evidence_digest = None,
      pm_observed_at = ''today'',
      pm_environment = \<lparr>pe_os = ''linux'', pe_cpu = ''x86'', pe_gpu = None, pe_network_profile = ''lan'',
        pe_logical_concurrency = 4, pe_build_digest = sample_digest (CHR ''b'')\<rparr>,
      pm_status = st\<rparr>"

definition sample_measurements :: "performance_measurement list" where
  "sample_measurements =
     sample_measurement ''b'' (NotMeasured ''no gpu'') #
     map (\<lambda>k. sample_measurement k (Measured (Fin 3) 5)) [''a'', ''c'', ''d'', ''e'']"

definition sample_matrix_env :: matrix_env where
  "sample_matrix_env = \<lparr>me_sha256 = (\<lambda>s. []), me_profile_to_vec = (\<lambda>_. Ok []), me_receipt_to_vec = (\<lambda>_. Ok [])\<rparr>"

lemma sample_visible: "blank ''ms'' = False" "blank ''nagoya'' = False" "blank ''wards'' = False"
  "blank ''a'' = False" "blank ''b'' = False" "blank ''c'' = False" "blank ''d'' = False" "blank ''e'' = False"
  "blank ''today'' = False" "blank ''linux'' = False" "blank ''x86'' = False" "blank ''lan'' = False"
  "blank ''no gpu'' = False"
  by (simp_all add: trim_code visible_def)

lemma sample_digest_valid: "is_ascii_hexdigit c \<Longrightarrow> performance_valid_digest (sample_digest c)"
  by (simp add: sample_digest_def performance_valid_digest_def strip_prefix_def list_all_iff)

lemma sample_matrix_evaluates:
  "\<exists>r. evaluate_performance_matrix sample_matrix_env sample_matrix sample_measurements = Ok r \<and>
     mx_verdict r = MatrixPending"
proof -
  note defs = sample_matrix_def sample_budget_def sample_measurements_def sample_measurement_def
  have ids: "distinct (map pb_id (pp_metrics sample_matrix))" "distinct (map pm_metric_id sample_measurements)"
    by (simp_all add: defs)
  have n: "length (pp_metrics sample_matrix) = 5" "length sample_measurements = 5" by (simp_all add: defs)
  have lens: "length (bs_of_list (map pb_id (pp_metrics sample_matrix))) = 5"
    "length (bs_of_list (map pm_metric_id sample_measurements)) = 5" "length (budget_map sample_matrix) = 5"
    using ids n budget_map_keys(2) [OF ids(1)] by (metis length_bs_of_list_eq_iff length_map)+
  have get: "bt_get (budget_map sample_matrix) (pb_id b) = Some b" if "b \<in> set (pp_metrics sample_matrix)" for b
    using budget_map_get [OF ids(1)] that by blast
  have gets: "bt_get (budget_map sample_matrix) ''a'' = Some (sample_budget ''a'' DimCpu)"
    "bt_get (budget_map sample_matrix) ''b'' = Some (sample_budget ''b'' DimGpu)"
    "bt_get (budget_map sample_matrix) ''c'' = Some (sample_budget ''c'' DimDataset)"
    "bt_get (budget_map sample_matrix) ''d'' = Some (sample_budget ''d'' DimNetwork)"
    "bt_get (budget_map sample_matrix) ''e'' = Some (sample_budget ''e'' DimConcurrency)"
    using budget_map_get [OF ids(1)] by (auto simp: defs)
  have valid: "validate_matrix_profile sample_matrix = Ok ()"
  proof -
    have "list_ex bad_budget (pp_metrics sample_matrix) = False"
      by (simp add: bad_budget_def defs sample_visible f64_lt_def)
    moreover have "list_all (\<lambda>d. d \<in> set (map pb_dimension (pp_metrics sample_matrix))) required_dimensions"
      by (simp add: required_dimensions_def defs)
    moreover have "pp_schema_version sample_matrix = ''1.0.0''" "\<not> blank (pp_id sample_matrix)"
      "\<not> blank (pp_dataset_id sample_matrix)" "performance_valid_digest (pp_dataset_digest sample_matrix)"
      "performance_valid_digest (pp_build_digest sample_matrix)" "pp_metrics sample_matrix \<noteq> []"
      by (simp_all add: defs sample_visible sample_digest_valid is_ascii_hexdigit_def)
    ultimately show ?thesis using lens(1) n by (simp add: validate_matrix_profile_def)
  qed
  have good: "\<not> list_ex (bad_measurement sample_matrix (budget_map sample_matrix)) sample_measurements"
    by (simp add: bad_measurement_def gets sample_measurements_def sample_measurement_def sample_visible
        budget_fixture_digest_def) (simp add: defs)
  have fold: "try_fold (judge_measurement (budget_map sample_matrix)) ([], []) sample_measurements = Ok ([], [''b''])"
    by (simp add: judge_measurement_def gets sample_measurements_def sample_measurement_def sample_visible
        sample_budget_def f64_lt_def f64_le_def is_ascii_digit_def)
  from valid good fold lens n show ?thesis
    by (simp add: evaluate_performance_matrix_def matrix_digest_def sample_matrix_env_def Let_def
        budget_map_def [symmetric] reject_def)
qed

theorem performance_verdict_witness:
  "\<exists>r. evaluate_performance_matrix sample_matrix_env sample_matrix sample_measurements = Ok r \<and>
     mx_verdict r = MatrixPending \<and>
     set (map pm_metric_id sample_measurements) = set (map pb_id (pp_metrics sample_matrix))"
proof -
  obtain r where r: "evaluate_performance_matrix sample_matrix_env sample_matrix sample_measurements = Ok r"
    "mx_verdict r = MatrixPending"
    using sample_matrix_evaluates by blast
  from performance_verdict_exact [OF r(1)] r show ?thesis by blast
qed

end
