(* ===== verification/Expr.thy ===== *)
theory Expr
  imports F64
begin

text \<open>
  The attribute expression language (\<open>genegis-toolkit/src/expr.rs\<close>): its values, its tokenizer over
  code points and its recursive-descent parser. A Rust \<open>char\<close> is its code point and a text its
  list of code points. The cursor into the token vector is the list of tokens from the cursor on.
  The error texts are constructors that carry what the message mentions.
\<close>

type_synonym utext = "int list"

definition ascii :: "string \<Rightarrow> utext" where
  "ascii s = map of_char s"

section \<open>Values and expressions\<close>

text \<open>\<open>serde_json::Value\<close> with texts as code points.\<close>

datatype val =
    VNull
  | VBool bool
  | VInt int
  | VFloat f64
  | VStr utext
  | VArr "val list"
  | VObj "(utext \<times> val) list"

datatype unary_op = OpNot | OpNeg

datatype binary_op =
    OpOr | OpAnd | OpEq | OpNe | OpLt | OpLe | OpGt | OpGe | OpAdd | OpSub | OpMul | OpDiv | OpRem

datatype expr =
    Literal val
  | Field utext
  | Unary unary_op expr
  | Binary expr binary_op expr
  | In expr "expr list" bool
  | IsNull expr bool
  | Like expr expr bool
  | Call utext "expr list"

datatype tok =
    TNum f64
  | TStr utext
  | TIdent utext
  | TQuoted utext
  | TOp string
  | TOpen
  | TClose
  | TComma

datatype expr_error =
    UnterminatedString
  | UnterminatedName
  | InvalidNumber utext
  | EmptyExpression
  | UnexpectedToken tok
  | UnexpectedEnd
  | ExpectedNull
  | ExpectedInList
  | UnclosedInList
  | ExpectedInOrLike
  | MissingParenthesis
  | UnclosedArguments utext
  | UnknownField utext
  | UnknownFunction utext
  | LikeNeedsString
  | OutOfFuel

section \<open>Characters and numbers\<close>

text \<open>\<open>char::is_whitespace\<close>: the code points with the property White\_Space.\<close>

definition is_whitespace :: "int \<Rightarrow> bool" where
  "is_whitespace c =
     (9 \<le> c \<and> c \<le> 13 \<or> c = 32 \<or> c = 0x85 \<or> c = 0xA0 \<or> c = 0x1680 \<or> 0x2000 \<le> c \<and> c \<le> 0x200A \<or>
      c = 0x2028 \<or> c = 0x2029 \<or> c = 0x202F \<or> c = 0x205F \<or> c = 0x3000)"

definition cp_is_digit :: "int \<Rightarrow> bool" where
  "cp_is_digit c = (48 \<le> c \<and> c \<le> 57)"

definition cp_lower :: "int \<Rightarrow> int" where
  "cp_lower c = (if 65 \<le> c \<and> c \<le> 90 then c + 32 else c)"

definition cp_upper :: "int \<Rightarrow> int" where
  "cp_upper c = (if 97 \<le> c \<and> c \<le> 122 then c - 32 else c)"

definition text_eq_ignore_ascii_case :: "utext \<Rightarrow> utext \<Rightarrow> bool" where
  "text_eq_ignore_ascii_case s t = (map cp_lower s = map cp_lower t)"

text \<open>\<open>str::parse::<f64>\<close>: an optional sign, then \<open>inf\<close>, \<open>infinity\<close>, \<open>nan\<close> in any case or a
  decimal number with an optional exponent, rounded once.\<close>

definition digits_int :: "utext \<Rightarrow> int" where
  "digits_int ds = foldl (\<lambda>v c. 10 * v + (c - 48)) 0 ds"

definition pow10 :: "int \<Rightarrow> rat" where
  "pow10 e = (if 0 \<le> e then 10 ^ nat e else 1 / 10 ^ nat (- e))"

fun split_sign :: "utext \<Rightarrow> bool \<times> utext" where
  "split_sign [] = (False, [])"
| "split_sign (c # cs) = (if c = 45 then (True, cs) else if c = 43 then (False, cs) else (False, c # cs))"

definition parse_exponent :: "utext \<Rightarrow> int option" where
  "parse_exponent s =
     (case s of
        [] \<Rightarrow> Some 0
      | c # cs \<Rightarrow>
          if c = 101 \<or> c = 69 then
            (case split_sign cs of (neg, ds) \<Rightarrow>
               if ds \<noteq> [] \<and> list_all cp_is_digit ds
               then Some (if neg then - digits_int ds else digits_int ds) else None)
          else None)"

definition parse_decimal :: "bool \<Rightarrow> utext \<Rightarrow> f64 option" where
  "parse_decimal neg s =
     (let whole = takeWhile cp_is_digit s; rest = dropWhile cp_is_digit s;
          (fraction, rest) =
            (case rest of
               c # cs \<Rightarrow> if c = 46 then (takeWhile cp_is_digit cs, dropWhile cp_is_digit cs) else ([], rest)
             | [] \<Rightarrow> ([], [])) in
      if whole = [] \<and> fraction = [] then None
      else map_option (\<lambda>e.
          let v = of_int (digits_int (whole @ fraction)) * pow10 (e - int (length fraction)) in
          f64_round neg (if neg then - v else v)) (parse_exponent rest))"

definition parse_f64 :: "utext \<Rightarrow> f64 option" where
  "parse_f64 s =
     (case split_sign s of (neg, body) \<Rightarrow>
        if map cp_lower body = ascii ''inf'' \<or> map cp_lower body = ascii ''infinity'' then Some (Inf neg)
        else if map cp_lower body = ascii ''nan'' then Some NaN
        else parse_decimal neg body)"

section \<open>The tokenizer\<close>

text \<open>The two-character operators, with the spelling the parser sees.\<close>

definition two_char_ops :: "(utext \<times> string) list" where
  "two_char_ops =
     [(ascii ''<='', ''<=''), (ascii ''>='', ''>=''), (ascii ''!='', ''!=''), (ascii ''<>'', ''!=''),
      (ascii ''=='', ''=''), (ascii ''&&'', ''AND''), (ascii ''||'', ''OR'')]"

definition one_char_ops :: "(int \<times> string) list" where
  "one_char_ops =
     [(61, ''=''), (60, ''<''), (62, ''>''), (43, ''+''), (45, ''-''), (42, ''*''), (47, ''/''),
      (37, ''%''), (33, ''NOT'')]"

text \<open>Parentheses and commas also in their full-width forms.\<close>

definition open_chars :: utext where "open_chars = [40, 0xFF08]"
definition close_chars :: utext where "close_chars = [41, 0xFF09]"
definition comma_chars :: utext where "comma_chars = [44, 0x3001]"

definition ident_stops :: utext where
  "ident_stops = open_chars @ close_chars @ comma_chars @ map fst one_char_ops @ [39, 34, 91, 96]"

text \<open>The body of a string literal after its opening quote: two quotes stand for one.\<close>

fun lex_string :: "utext \<Rightarrow> (utext \<times> utext) option" where
  "lex_string [] = None"
| "lex_string (c # cs) =
     (if c = 39 then
        (case cs of
           [] \<Rightarrow> Some ([], [])
         | d # ds \<Rightarrow>
             if d = 39 then map_option (\<lambda>(s, r). (39 # s, r)) (lex_string ds) else Some ([], cs))
      else map_option (\<lambda>(s, r). (c # s, r)) (lex_string cs))"

text \<open>The characters of a number literal; a sign continues it only after an exponent letter.\<close>

fun span_number :: "int \<Rightarrow> utext \<Rightarrow> utext \<times> utext" where
  "span_number prev [] = ([], [])"
| "span_number prev (c # cs) =
     (if cp_is_digit c \<or> c = 46 \<or> c = 101 \<or> c = 69 \<or> (c = 43 \<or> c = 45) \<and> (prev = 101 \<or> prev = 69)
      then (case span_number c cs of (s, r) \<Rightarrow> (c # s, r))
      else ([], c # cs))"

definition ident_char :: "int \<Rightarrow> bool" where
  "ident_char c = (\<not> is_whitespace c \<and> c \<notin> set ident_stops)"

definition closing_quote :: "int \<Rightarrow> int" where
  "closing_quote c = (if c = 34 then 34 else if c = 91 then 93 else 96)"

text \<open>One token from a text that starts with a character other than white space, and the text
  after it.\<close>

definition next_token :: "int \<Rightarrow> utext \<Rightarrow> expr_error + tok \<times> utext" where
  "next_token c cs =
     (case map_of two_char_ops (take 2 (c # cs)) of
        Some op \<Rightarrow> Ok (TOp op, drop 1 cs)
      | None \<Rightarrow>
          if c \<in> set open_chars then Ok (TOpen, cs)
          else if c \<in> set close_chars then Ok (TClose, cs)
          else if c \<in> set comma_chars then Ok (TComma, cs)
          else case map_of one_char_ops c of
            Some op \<Rightarrow> Ok (TOp op, cs)
          | None \<Rightarrow>
              if c = 39 then
                (case lex_string cs of
                   None \<Rightarrow> Err UnterminatedString
                 | Some (s, rest) \<Rightarrow> Ok (TStr s, rest))
              else if c = 34 \<or> c = 91 \<or> c = 96 then
                (if closing_quote c \<in> set cs
                 then Ok (TQuoted (takeWhile (\<lambda>d. d \<noteq> closing_quote c) cs),
                          tl (dropWhile (\<lambda>d. d \<noteq> closing_quote c) cs))
                 else Err UnterminatedName)
              else if cp_is_digit c \<or> c = 46 \<and> (case cs of [] \<Rightarrow> False | d # _ \<Rightarrow> cp_is_digit d) then
                (case span_number c cs of
                   (s, rest) \<Rightarrow>
                     (case parse_f64 (c # s) of
                        None \<Rightarrow> Err (InvalidNumber (c # s))
                      | Some n \<Rightarrow> Ok (TNum n, rest)))
              else Ok (TIdent (c # takeWhile ident_char cs), dropWhile ident_char cs))"

lemma length_lex_string: "lex_string cs = Some (s, r) \<Longrightarrow> length r < length cs"
  by (induction cs arbitrary: s r rule: lex_string.induct)
    (auto split: if_splits list.splits option.splits, fastforce+)

lemma length_span_number: "span_number p cs = (s, r) \<Longrightarrow> length r \<le> length cs"
proof (induction p cs arbitrary: s r rule: span_number.induct)
  case (2 p c cs)
  then show ?case by (cases "span_number c cs") (auto split: if_splits dest: le_SucI)
qed simp

lemma length_tl_dropWhile: "length (dropWhile p xs) - Suc 0 \<le> length xs"
  using length_dropWhile_le [of p xs] by simp

lemma next_token_shrinks: "next_token c cs = Ok (t, rest) \<Longrightarrow> length rest < Suc (length cs)"
  by (auto simp: next_token_def less_Suc_eq_le length_dropWhile_le length_tl_dropWhile
      split: option.splits if_splits prod.splits
      dest!: length_lex_string length_span_number)

function tokenize :: "utext \<Rightarrow> expr_error + tok list" where
  "tokenize [] = Ok []"
| "tokenize (c # cs) =
     (if is_whitespace c then tokenize cs
      else case next_token c cs of
        Inl e \<Rightarrow> Err e
      | Inr (t, rest) \<Rightarrow> map_ok ((#) t) (tokenize rest))"
  by pat_completeness auto
termination
  by (relation "measure length") (auto dest: next_token_shrinks)

section \<open>The parser\<close>

type_synonym parsed = "expr_error + expr \<times> tok list"

definition keyword :: "utext \<Rightarrow> tok list \<Rightarrow> bool" where
  "keyword word ts =
     (case ts of
        TIdent w # _ \<Rightarrow> text_eq_ignore_ascii_case w word
      | TOp op # _ \<Rightarrow> ascii op = word
      | _ \<Rightarrow> False)"

definition keyword_at :: "nat \<Rightarrow> utext \<Rightarrow> tok list \<Rightarrow> bool" where
  "keyword_at offset word ts = keyword word (drop offset ts)"

text \<open>A literal number is an integer when it is one and below \<open>9.0e15\<close>.\<close>

definition number :: "f64 \<Rightarrow> val" where
  "number n =
     (if f64_is_finite n \<and> f64_val n = of_int \<lfloor>f64_val n\<rfloor> \<and> f64_lt (f64_abs n) (Fin 9000000000000000)
      then VInt \<lfloor>f64_val n\<rfloor>
      else if f64_is_finite n then VFloat n else VNull)"

text \<open>The loops \<open>while op { left = Binary(left, op, sub()) }\<close> and \<open>while comma { push(sub()) }\<close>. The
  counter is the number of tokens left, which bounds the iterations.\<close>

fun chain ::
  "(tok list \<Rightarrow> parsed) \<Rightarrow> (tok list \<Rightarrow> binary_op option) \<Rightarrow> nat \<Rightarrow> expr \<Rightarrow> tok list \<Rightarrow> parsed" where
  "chain sub op_of 0 left ts = Ok (left, ts)"
| "chain sub op_of (Suc k) left ts =
     (case op_of ts of
        None \<Rightarrow> Ok (left, ts)
      | Some op \<Rightarrow> and_then (sub (tl ts)) (\<lambda>(right, rest). chain sub op_of k (Binary left op right) rest))"

fun more_items ::
  "(tok list \<Rightarrow> parsed) \<Rightarrow> nat \<Rightarrow> expr list \<Rightarrow> tok list \<Rightarrow> expr_error + expr list \<times> tok list" where
  "more_items sub 0 items ts = Ok (items, ts)"
| "more_items sub (Suc k) items ts =
     (case ts of
        TComma # ts' \<Rightarrow> and_then (sub ts') (\<lambda>(item, rest). more_items sub k (items @ [item]) rest)
      | _ \<Rightarrow> Ok (items, ts))"

definition items_of ::
  "(tok list \<Rightarrow> parsed) \<Rightarrow> tok list \<Rightarrow> expr_error + expr list \<times> tok list" where
  "items_of sub ts = and_then (sub ts) (\<lambda>(item, rest). more_items sub (length rest) [item] rest)"

definition mul_op :: "tok list \<Rightarrow> binary_op option" where
  "mul_op ts = (case ts of TOp op # _ \<Rightarrow>
     map_of [(''*'', OpMul), (''/'', OpDiv), (''%'', OpRem)] op | _ \<Rightarrow> None)"

definition add_op :: "tok list \<Rightarrow> binary_op option" where
  "add_op ts = (case ts of TOp op # _ \<Rightarrow> map_of [(''+'', OpAdd), (''-'', OpSub)] op | _ \<Rightarrow> None)"

definition comparison_op :: "tok list \<Rightarrow> binary_op option" where
  "comparison_op ts = (case ts of TOp op # _ \<Rightarrow>
     map_of [(''='', OpEq), (''!='', OpNe), (''<'', OpLt), (''<='', OpLe), (''>'', OpGt), (''>='', OpGe)] op
   | _ \<Rightarrow> None)"

definition and_op :: "tok list \<Rightarrow> binary_op option" where
  "and_op ts = (if keyword (ascii ''AND'') ts \<or> keyword [0x304B, 0x3064] ts then Some OpAnd else None)"

definition or_op :: "tok list \<Rightarrow> binary_op option" where
  "or_op ts = (if keyword (ascii ''OR'') ts \<or> keyword [0x307E, 0x305F, 0x306F] ts then Some OpOr else None)"

text \<open>The levels of the grammar over a parser for primary expressions.\<close>

fun unary_expr :: "(tok list \<Rightarrow> parsed) \<Rightarrow> tok list \<Rightarrow> parsed" where
  "unary_expr prim [] = prim []"
| "unary_expr prim (t # ts) =
     (if t = TOp ''-'' then and_then (unary_expr prim ts) (\<lambda>(e, rest). Ok (Unary OpNeg e, rest))
      else prim (t # ts))"

definition multiplicative_expr :: "(tok list \<Rightarrow> parsed) \<Rightarrow> tok list \<Rightarrow> parsed" where
  "multiplicative_expr prim ts =
     and_then (unary_expr prim ts) (\<lambda>(left, rest). chain (unary_expr prim) mul_op (length rest) left rest)"

definition additive_expr :: "(tok list \<Rightarrow> parsed) \<Rightarrow> tok list \<Rightarrow> parsed" where
  "additive_expr prim ts =
     and_then (multiplicative_expr prim ts) (\<lambda>(left, rest). chain (multiplicative_expr prim) add_op (length rest) left rest)"

text \<open>What may follow the left operand of a comparison.\<close>

definition comparison_rest :: "(tok list \<Rightarrow> parsed) \<Rightarrow> expr \<Rightarrow> tok list \<Rightarrow> parsed" where
  "comparison_rest prim left ts =
     (if keyword (ascii ''IS'') ts then
        let ts1 = tl ts; negated = keyword (ascii ''NOT'') ts1; ts2 = (if negated then tl ts1 else ts1) in
        if \<not> keyword (ascii ''NULL'') ts2 then Err ExpectedNull
        else Ok (IsNull left negated, tl ts2)
      else
        let negated = (keyword (ascii ''NOT'') ts \<and>
              (keyword_at 1 (ascii ''IN'') ts \<or> keyword_at 1 (ascii ''LIKE'') ts));
            ts1 = (if negated then tl ts else ts) in
        if keyword (ascii ''IN'') ts1 then
          (case tl ts1 of
             TOpen # ts2 \<Rightarrow>
               and_then (items_of (additive_expr prim) ts2) (\<lambda>(items, rest).
                 case rest of
                   TClose # rest' \<Rightarrow> Ok (In left items negated, rest')
                 | _ \<Rightarrow> Err UnclosedInList)
           | _ \<Rightarrow> Err ExpectedInList)
        else if keyword (ascii ''LIKE'') ts1 then
          and_then (additive_expr prim (tl ts1)) (\<lambda>(pattern, rest). Ok (Like left pattern negated, rest))
        else if negated then Err ExpectedInOrLike
        else case comparison_op ts1 of
          None \<Rightarrow> Ok (left, ts1)
        | Some op \<Rightarrow> and_then (additive_expr prim (tl ts1)) (\<lambda>(right, rest). Ok (Binary left op right, rest)))"

definition comparison :: "(tok list \<Rightarrow> parsed) \<Rightarrow> tok list \<Rightarrow> parsed" where
  "comparison prim ts = and_then (additive_expr prim ts) (\<lambda>(left, rest). comparison_rest prim left rest)"

fun not_expr :: "(tok list \<Rightarrow> parsed) \<Rightarrow> tok list \<Rightarrow> parsed" where
  "not_expr prim [] = comparison prim []"
| "not_expr prim (t # ts) =
     (if keyword (ascii ''NOT'') (t # ts)
      then and_then (not_expr prim ts) (\<lambda>(e, rest). Ok (Unary OpNot e, rest))
      else comparison prim (t # ts))"

definition and_expr :: "(tok list \<Rightarrow> parsed) \<Rightarrow> tok list \<Rightarrow> parsed" where
  "and_expr prim ts =
     and_then (not_expr prim ts) (\<lambda>(left, rest). chain (not_expr prim) and_op (length rest) left rest)"

definition or_expr :: "(tok list \<Rightarrow> parsed) \<Rightarrow> tok list \<Rightarrow> parsed" where
  "or_expr prim ts =
     and_then (and_expr prim ts) (\<lambda>(left, rest). chain (and_expr prim) or_op (length rest) left rest)"

text \<open>Primary expressions, down to a nesting depth given as fuel.\<close>

fun primary :: "nat \<Rightarrow> tok list \<Rightarrow> parsed" where
  "primary 0 ts = Err OutOfFuel"
| "primary (Suc n) ts =
     (case ts of
        [] \<Rightarrow> Err UnexpectedEnd
      | t # ts1 \<Rightarrow>
          (case t of
             TNum x \<Rightarrow> Ok (Literal (number x), ts1)
           | TStr s \<Rightarrow> Ok (Literal (VStr s), ts1)
           | TQuoted name \<Rightarrow> Ok (Field name, ts1)
           | TOpen \<Rightarrow>
               and_then (or_expr (primary n) ts1) (\<lambda>(inner, rest).
                 case rest of
                   TClose # rest' \<Rightarrow> Ok (inner, rest')
                 | _ \<Rightarrow> Err MissingParenthesis)
           | TIdent word \<Rightarrow>
               if map cp_upper word = ascii ''TRUE'' then Ok (Literal (VBool True), ts1)
               else if map cp_upper word = ascii ''FALSE'' then Ok (Literal (VBool False), ts1)
               else if map cp_upper word = ascii ''NULL'' then Ok (Literal VNull, ts1)
               else (case ts1 of
                  TOpen # ts2 \<Rightarrow>
                    and_then (if ts2 \<noteq> [] \<and> hd ts2 = TClose then Ok ([], ts2) else items_of (or_expr (primary n)) ts2)
                      (\<lambda>(args, rest).
                        case rest of
                          TClose # rest' \<Rightarrow> Ok (Call (map cp_lower word) args, rest')
                        | _ \<Rightarrow> Err (UnclosedArguments word))
                | _ \<Rightarrow> Ok (Field word, ts1))
           | _ \<Rightarrow> Err (UnexpectedToken t)))"

definition parse_tokens :: "tok list \<Rightarrow> expr_error + expr" where
  "parse_tokens ts =
     (if ts = [] then Err EmptyExpression
      else and_then (or_expr (primary (Suc (length ts))) ts) (\<lambda>(e, rest).
        case rest of [] \<Rightarrow> Ok e | t # _ \<Rightarrow> Err (UnexpectedToken t)))"

definition parse :: "utext \<Rightarrow> expr_error + expr" where
  "parse source = and_then (tokenize source) parse_tokens"

end
