(* ===== verification/Expr_Valid.thy ===== *)
theory Expr_Valid
  imports Expr
begin

text \<open>
  Properties of the expression parser: it consumes input on every success and never runs out of
  the fuel it is given, its result does not depend on that fuel, and every expression is the parse
  of its printed tokens.
\<close>

section \<open>Progress\<close>

text \<open>On inputs shorter than a bound a parser does not run out of fuel, and a success leaves a
  shorter rest.\<close>

definition progress :: "nat \<Rightarrow> (tok list \<Rightarrow> parsed) \<Rightarrow> bool" where
  "progress m f \<longleftrightarrow> (\<forall>ts. length ts < m \<longrightarrow>
     f ts \<noteq> Err OutOfFuel \<and> (\<forall>e rest. f ts = Ok (e, rest) \<longrightarrow> length rest < length ts))"

lemma progressD:
  "progress m f \<Longrightarrow> length ts < m \<Longrightarrow> f ts \<noteq> Err OutOfFuel"
  "progress m f \<Longrightarrow> length ts < m \<Longrightarrow> f ts = Ok (e, rest) \<Longrightarrow> length rest < length ts"
  by (auto simp: progress_def)

lemma op_of_nonempty [simp]:
  "mul_op [] = None" "add_op [] = None" "comparison_op [] = None" "and_op [] = None" "or_op [] = None"
  "\<not> keyword w []"
  by (simp_all add: mul_op_def add_op_def comparison_op_def and_op_def or_op_def keyword_def)

lemma chain_progress:
  assumes "progress m sub"
  shows "length ts < m \<Longrightarrow>
    chain sub op_of k left ts \<noteq> Err OutOfFuel \<and>
    (\<forall>e rest. chain sub op_of k left ts = Ok (e, rest) \<longrightarrow> length rest \<le> length ts)"
proof (induction k arbitrary: left ts)
  case (Suc k)
  show ?case
  proof (cases "op_of ts")
    case (Some op)
    have tl: "length (tl ts) < m" using Suc.prems by simp
    show ?thesis
    proof (cases "sub (tl ts)")
      case (Inl e)
      then show ?thesis using Some progressD(1) [OF assms tl] by auto
    next
      case (Inr r)
      obtain right rest where r: "r = (right, rest)" by (cases r)
      then have "length rest < length (tl ts)" using progressD(2) [OF assms tl] Inr by simp
      moreover from this have "length rest < m" using tl by simp
      ultimately show ?thesis using Suc.IH [of rest "Binary left op right"] Some Inr r by fastforce
    qed
  qed simp
qed simp

lemma more_items_progress:
  assumes "progress m sub"
  shows "length ts < m \<Longrightarrow>
    more_items sub k items ts \<noteq> Err OutOfFuel \<and>
    (\<forall>es rest. more_items sub k items ts = Ok (es, rest) \<longrightarrow> length rest \<le> length ts)"
proof (induction k arbitrary: items ts)
  case (Suc k)
  show ?case
  proof (cases "\<exists>ts'. ts = TComma # ts'")
    case True
    then obtain ts' where ts: "ts = TComma # ts'" by blast
    then have m: "length ts' < m" using Suc.prems by simp
    show ?thesis
    proof (cases "sub ts'")
      case (Inl e)
      then show ?thesis using ts progressD(1) [OF assms m] by auto
    next
      case (Inr r)
      obtain item rest where r: "r = (item, rest)" by (cases r)
      then have "length rest < length ts'" using progressD(2) [OF assms m] Inr by simp
      moreover from this have "length rest < m" using m by simp
      ultimately show ?thesis using Suc.IH [of rest "items @ [item]"] ts Inr r by fastforce
    qed
  qed (auto split: list.splits tok.splits)
qed simp

text \<open>A parser followed by one that does not lengthen the rest.\<close>

lemma progress_then:
  assumes f: "progress m f"
    and g: "\<And>e rest. length rest < m \<Longrightarrow> g e rest \<noteq> Err OutOfFuel \<and>
      (\<forall>e' rest'. g e rest = Ok (e', rest') \<longrightarrow> length rest' \<le> length rest)"
  shows "progress m (\<lambda>ts. and_then (f ts) (\<lambda>(e, rest). g e rest))"
  unfolding progress_def
proof (intro allI impI)
  fix ts :: "tok list" assume ts: "length ts < m"
  show "and_then (f ts) (\<lambda>(e, rest). g e rest) \<noteq> Err OutOfFuel \<and>
    (\<forall>e rest. and_then (f ts) (\<lambda>(e, rest). g e rest) = Ok (e, rest) \<longrightarrow> length rest < length ts)"
  proof (cases "f ts")
    case (Inl x)
    then show ?thesis using progressD(1) [OF f ts] by auto
  next
    case (Inr r)
    obtain e rest where r: "r = (e, rest)" by (cases r)
    then have "length rest < length ts" using progressD(2) [OF f ts] Inr by simp
    moreover from this have "length rest < m" using ts by simp
    ultimately show ?thesis using g [of rest e] Inr r by fastforce
  qed
qed

lemma progress_unary: assumes "progress m prim" shows "progress m (unary_expr prim)"
proof -
  have "length ts < m \<longrightarrow> unary_expr prim ts \<noteq> Err OutOfFuel \<and>
      (\<forall>e rest. unary_expr prim ts = Ok (e, rest) \<longrightarrow> length rest < length ts)" for ts
  proof (induction ts)
    case (Cons t ts)
    then show ?case
      using progressD [OF assms, of "t # ts"]
      by (cases "unary_expr prim ts") (auto simp: less_SucI split: prod.splits)
  qed (use progressD [OF assms, of "[]"] in auto)
  then show ?thesis by (simp add: progress_def)
qed

lemma progress_multiplicative: "progress m prim \<Longrightarrow> progress m (multiplicative_expr prim)"
  unfolding multiplicative_expr_def [abs_def]
  by (intro progress_then progress_unary chain_progress)

lemma progress_additive: "progress m prim \<Longrightarrow> progress m (additive_expr prim)"
  unfolding additive_expr_def [abs_def]
  by (intro progress_then progress_multiplicative chain_progress)

lemma items_of_progress:
  assumes "progress m sub" "length ts < m"
  shows "items_of sub ts \<noteq> Err OutOfFuel \<and>
    (\<forall>es rest. items_of sub ts = Ok (es, rest) \<longrightarrow> length rest < length ts)"
proof (cases "sub ts")
  case (Inl x)
  then show ?thesis using progressD(1) [OF assms] by (auto simp: items_of_def)
next
  case (Inr r)
  obtain e rest where r: "r = (e, rest)" by (cases r)
  then have "length rest < length ts" using progressD(2) [OF assms] Inr by simp
  moreover from this have "length rest < m" using assms(2) by simp
  ultimately show ?thesis
    using more_items_progress [OF assms(1), of rest "length rest" "[e]"] Inr r by (fastforce simp: items_of_def)
qed

text \<open>A continuation that neither runs out of fuel nor lengthens its input.\<close>

definition tame :: "nat \<Rightarrow> parsed \<Rightarrow> bool" where
  "tame n r \<longleftrightarrow> r \<noteq> Err OutOfFuel \<and> (\<forall>e rest. r = Ok (e, rest) \<longrightarrow> length rest \<le> n)"

lemma tame_simps [simp]:
  "tame n (Err e) \<longleftrightarrow> e \<noteq> OutOfFuel" "tame n (Ok (e', rest)) \<longleftrightarrow> length rest \<le> n"
  by (auto simp: tame_def)

lemma tame_sub:
  assumes "progress m f" "length ts < m" "length ts \<le> n"
  shows "tame n (and_then (f ts) (\<lambda>(e, rest). Ok (g e, rest)))"
proof (cases "f ts")
  case (Inl x)
  then show ?thesis using progressD(1) [OF assms(1,2)] by auto
next
  case (Inr r)
  then show ?thesis using progressD(2) [OF assms(1,2), of "fst r" "snd r"] assms(3) by (cases r) auto
qed

lemma tame_in_list:
  assumes "progress m f" "length ts < m" "length ts \<le> n"
  shows "tame n (and_then (items_of f ts) (\<lambda>(items, rest).
    case rest of TClose # rest' \<Rightarrow> Ok (g items, rest') | _ \<Rightarrow> Err UnclosedInList))"
proof (cases "items_of f ts")
  case (Inl x)
  then show ?thesis using items_of_progress [OF assms(1,2)] by auto
next
  case (Inr r)
  then show ?thesis using items_of_progress [OF assms(1,2)] assms(3)
    by (cases r) (auto split: list.splits tok.splits)
qed

lemma comparison_rest_tame:
  assumes "progress m prim" "length ts < m"
  shows "tame (length ts) (comparison_rest prim left ts)"
proof -
  note add = progress_additive [OF assms(1)]
  define negated where "negated \<longleftrightarrow> keyword (ascii ''NOT'') ts \<and>
    (keyword_at 1 (ascii ''IN'') ts \<or> keyword_at 1 (ascii ''LIKE'') ts)"
  define ts1 where "ts1 = (if negated then tl ts else ts)"
  have l: "length ts1 \<le> length ts" "length (tl ts1) < m" "length (tl ts1) \<le> length ts"
    using assms(2) by (auto simp: ts1_def)
  have inl: "tame (length ts) (case tl ts1 of
      TOpen # ts2 \<Rightarrow> and_then (items_of (additive_expr prim) ts2) (\<lambda>(items, rest).
        case rest of TClose # rest' \<Rightarrow> Ok (In left items negated, rest') | _ \<Rightarrow> Err UnclosedInList)
    | _ \<Rightarrow> Err ExpectedInList)"
    using l tame_in_list [OF add, of "tl (tl ts1)" "length ts"] by (auto split: list.splits tok.splits)
  have like: "tame (length ts) (and_then (additive_expr prim (tl ts1)) (\<lambda>(p, rest). Ok (Like left p negated, rest)))"
    by (rule tame_sub [OF add l(2,3)])
  have cmp: "tame (length ts) (and_then (additive_expr prim (tl ts1)) (\<lambda>(r, rest). Ok (Binary left op r, rest)))" for op
    by (rule tame_sub [OF add l(2,3)])
  show ?thesis
    unfolding comparison_rest_def Let_def negated_def [symmetric] ts1_def [symmetric]
    using inl like cmp l(1) by (auto split: option.splits)
qed

lemma progress_comparison: "progress m prim \<Longrightarrow> progress m (comparison prim)"
  unfolding comparison_def [abs_def]
  by (intro progress_then progress_additive) (use comparison_rest_tame in \<open>auto simp: tame_def\<close>)

lemma progress_not: assumes "progress m prim" shows "progress m (not_expr prim)"
proof -
  note cmp = progress_comparison [OF assms]
  have "length ts < m \<longrightarrow> not_expr prim ts \<noteq> Err OutOfFuel \<and>
      (\<forall>e rest. not_expr prim ts = Ok (e, rest) \<longrightarrow> length rest < length ts)" for ts
  proof (induction ts)
    case (Cons t ts)
    then show ?case
      using progressD [OF cmp, of "t # ts"]
      by (cases "not_expr prim ts") (auto simp: less_SucI split: prod.splits)
  qed (use progressD [OF cmp, of "[]"] in auto)
  then show ?thesis by (simp add: progress_def)
qed

lemma progress_and: "progress m prim \<Longrightarrow> progress m (and_expr prim)"
  unfolding and_expr_def [abs_def] by (intro progress_then progress_not chain_progress)

lemma progress_or: "progress m prim \<Longrightarrow> progress m (or_expr prim)"
  unfolding or_expr_def [abs_def] by (intro progress_then progress_and chain_progress)

lemma primary_call_progress:
  assumes "progress n f" "length ts < n"
  shows "tame (length ts) (and_then (if ts \<noteq> [] \<and> hd ts = TClose then Ok ([], ts) else items_of f ts) (\<lambda>(args, rest).
    case rest of TClose # rest' \<Rightarrow> Ok (Call w args, rest') | _ \<Rightarrow> Err (UnclosedArguments v)))"
proof (cases "ts \<noteq> [] \<and> hd ts = TClose")
  case True
  then show ?thesis by (cases ts) auto
next
  case False
  note items = items_of_progress [OF assms]
  show ?thesis
  proof (cases "items_of f ts")
    case (Inl x)
    then show ?thesis using False items by auto
  next
    case (Inr r)
    then show ?thesis using False items by (cases r) (auto split: list.splits tok.splits)
  qed
qed

lemma primary_paren_progress:
  assumes "progress n f" "length ts < n"
  shows "tame (length ts) (and_then (f ts) (\<lambda>(inner, rest).
    case rest of TClose # rest' \<Rightarrow> Ok (inner, rest') | _ \<Rightarrow> Err MissingParenthesis))"
proof (cases "f ts")
  case (Inl x)
  then show ?thesis using progressD(1) [OF assms] by auto
next
  case (Inr r)
  then show ?thesis using progressD(2) [OF assms, of "fst r" "snd r"]
    by (cases r) (auto split: list.splits tok.splits)
qed

lemma tame_less: "tame n r \<Longrightarrow> n < k \<Longrightarrow> r \<noteq> Err OutOfFuel \<and> (\<forall>e rest. r = Ok (e, rest) \<longrightarrow> length rest < k)"
  by (auto simp: tame_def)

lemma progress_primary: "progress n (primary n)"
proof (induction n)
  case 0
  show ?case by (simp add: progress_def)
next
  case (Suc n)
  note sub = progress_or [OF Suc]
  show ?case
    unfolding progress_def
  proof (intro allI impI)
    fix ts :: "tok list" assume len: "length ts < Suc n"
    show "primary (Suc n) ts \<noteq> Err OutOfFuel \<and>
      (\<forall>e rest. primary (Suc n) ts = Ok (e, rest) \<longrightarrow> length rest < length ts)"
    proof (cases ts)
      case (Cons t ts1)
      then have l1: "length ts1 < n" using len by simp
      note paren = tame_less [OF primary_paren_progress [OF sub l1], of "length ts"]
      have call: "length ts2 < n" if "ts1 = TOpen # ts2" for ts2 using that l1 by simp
      note call' = tame_less [OF primary_call_progress [OF sub call], of _ "length ts"]
      show ?thesis
      proof (cases t)
        case TOpen
        then show ?thesis using Cons paren by simp
      next
        case (TIdent w)
        show ?thesis
        proof (cases "\<exists>ts2. ts1 = TOpen # ts2")
          case True
          then obtain ts2 where ts2: "ts1 = TOpen # ts2" by blast
          show ?thesis using Cons TIdent ts2 call' [OF ts2] by simp
        qed (use Cons TIdent in \<open>auto split: list.splits tok.splits\<close>)
      qed (use Cons in auto)
    qed simp
  qed
qed

section \<open>The fuel does not matter\<close>

definition agree :: "nat \<Rightarrow> (tok list \<Rightarrow> parsed) \<Rightarrow> (tok list \<Rightarrow> parsed) \<Rightarrow> bool" where
  "agree m f g \<longleftrightarrow> progress m f \<and> (\<forall>ts. length ts < m \<longrightarrow> f ts = g ts)"

lemma agree_then:
  assumes "agree m f g" "length ts < m" "\<And>e rest. length rest < m \<Longrightarrow> h e rest = k e rest"
  shows "and_then (f ts) (\<lambda>(e, rest). h e rest) = and_then (g ts) (\<lambda>(e, rest). k e rest)"
proof -
  have eq: "g ts = f ts" using assms(1,2) by (simp add: agree_def)
  show ?thesis
  proof (cases "f ts")
    case (Inr r)
    then have "length (snd r) < m"
      using assms(1,2) progressD(2) [of m f ts "fst r" "snd r"] by (simp add: agree_def)
    then show ?thesis using assms(3) eq Inr by (cases r) simp
  qed (simp add: eq)
qed

lemma chain_agree:
  "agree m f g \<Longrightarrow> length ts < m \<Longrightarrow> chain f op_of k left ts = chain g op_of k left ts"
proof (induction k arbitrary: left ts)
  case (Suc k)
  have "and_then (f (tl ts)) (\<lambda>(right, rest). chain f op_of k (Binary left op right) rest) =
      and_then (g (tl ts)) (\<lambda>(right, rest). chain g op_of k (Binary left op right) rest)" for op
    using Suc.prems by (intro agree_then [OF Suc.prems(1)] Suc.IH) auto
  then show ?case by (simp split: option.splits)
qed simp

lemma more_items_agree:
  "agree m f g \<Longrightarrow> length ts < m \<Longrightarrow> more_items f k items ts = more_items g k items ts"
proof (induction k arbitrary: items ts)
  case (Suc k)
  have "and_then (f ts') (\<lambda>(item, rest). more_items f k (items @ [item]) rest) =
      and_then (g ts') (\<lambda>(item, rest). more_items g k (items @ [item]) rest)" if "length ts' < m" for ts'
    using that Suc.prems by (intro agree_then [OF Suc.prems(1)] Suc.IH) auto
  then show ?case using Suc.prems(2) by (auto split: list.splits tok.splits)
qed simp

lemma items_of_agree: "agree m f g \<Longrightarrow> length ts < m \<Longrightarrow> items_of f ts = items_of g ts"
  unfolding items_of_def by (intro agree_then more_items_agree) auto

lemma agree_level:
  assumes "agree m f g" "progress m (F f)" "\<And>ts. length ts < m \<Longrightarrow> F f ts = F g ts"
  shows "agree m (F f) (F g)"
  using assms by (simp add: agree_def)

lemma agree_unary: assumes "agree m f g" shows "agree m (unary_expr f) (unary_expr g)"
proof (rule agree_level [OF assms])
  show "progress m (unary_expr f)" using assms progress_unary by (simp add: agree_def)
  show "unary_expr f ts = unary_expr g ts" if "length ts < m" for ts
    using that by (induction ts) (use assms in \<open>simp_all add: agree_def\<close>)
qed

lemma agree_multiplicative: assumes "agree m f g" shows "agree m (multiplicative_expr f) (multiplicative_expr g)"
proof (rule agree_level [OF assms])
  show "progress m (multiplicative_expr f)" using assms progress_multiplicative by (simp add: agree_def)
  show "multiplicative_expr f ts = multiplicative_expr g ts" if "length ts < m" for ts
    unfolding multiplicative_expr_def using that assms
    by (intro agree_then [OF agree_unary] chain_agree [OF agree_unary]) auto
qed

lemma agree_additive: assumes "agree m f g" shows "agree m (additive_expr f) (additive_expr g)"
proof (rule agree_level [OF assms])
  show "progress m (additive_expr f)" using assms progress_additive by (simp add: agree_def)
  show "additive_expr f ts = additive_expr g ts" if "length ts < m" for ts
    unfolding additive_expr_def using that assms
    by (intro agree_then [OF agree_multiplicative] chain_agree [OF agree_multiplicative]) auto
qed

lemma comparison_rest_agree:
  assumes "agree m f g" "length ts < m"
  shows "comparison_rest f left ts = comparison_rest g left ts"
proof -
  note add = agree_additive [OF assms(1)]
  have eq: "additive_expr f us = additive_expr g us" "items_of (additive_expr f) us = items_of (additive_expr g) us"
    if "length us < m" for us
    using that add items_of_agree [OF add] by (auto simp: agree_def)
  have l: "length (tl us) < m" "length (tl (tl us)) < m" if "length us < m" for us using that by auto
  define ts1 where "ts1 = (if keyword (ascii ''NOT'') ts \<and>
    (keyword_at 1 (ascii ''IN'') ts \<or> keyword_at 1 (ascii ''LIKE'') ts) then tl ts else ts)"
  have "length ts1 \<le> length ts" by (simp add: ts1_def)
  then have ts1: "length ts1 < m" using assms(2) by simp
  have open2: "length us < m" if "tl ts1 = TOpen # us" for us
    using l(2) [OF ts1] that by simp
  show ?thesis
    unfolding comparison_rest_def Let_def ts1_def [symmetric]
    using eq(1) [OF l(1) [OF ts1]] eq(2) open2 by (auto split: list.splits tok.splits option.splits)
qed

lemma agree_comparison: assumes "agree m f g" shows "agree m (comparison f) (comparison g)"
proof (rule agree_level [OF assms])
  show "progress m (comparison f)" using assms progress_comparison by (simp add: agree_def)
  show "comparison f ts = comparison g ts" if "length ts < m" for ts
    unfolding comparison_def using that assms
    by (intro agree_then [OF agree_additive] comparison_rest_agree) auto
qed

lemma agree_not: assumes "agree m f g" shows "agree m (not_expr f) (not_expr g)"
proof (rule agree_level [OF assms])
  show "progress m (not_expr f)" using assms progress_not by (simp add: agree_def)
  show "not_expr f ts = not_expr g ts" if "length ts < m" for ts
    using that by (induction ts) (use agree_comparison [OF assms] in \<open>simp_all add: agree_def\<close>)
qed

lemma agree_and: assumes "agree m f g" shows "agree m (and_expr f) (and_expr g)"
proof (rule agree_level [OF assms])
  show "progress m (and_expr f)" using assms progress_and by (simp add: agree_def)
  show "and_expr f ts = and_expr g ts" if "length ts < m" for ts
    unfolding and_expr_def using that assms by (intro agree_then [OF agree_not] chain_agree [OF agree_not]) auto
qed

lemma agree_or: assumes "agree m f g" shows "agree m (or_expr f) (or_expr g)"
proof (rule agree_level [OF assms])
  show "progress m (or_expr f)" using assms progress_or by (simp add: agree_def)
  show "or_expr f ts = or_expr g ts" if "length ts < m" for ts
    unfolding or_expr_def using that assms by (intro agree_then [OF agree_and] chain_agree [OF agree_and]) auto
qed

lemma agree_primary: "n \<le> n' \<Longrightarrow> agree n (primary n) (primary n')"
proof (induction n arbitrary: n')
  case 0
  then show ?case by (simp add: agree_def progress_def)
next
  case (Suc n)
  then obtain k where n': "n' = Suc k" "n \<le> k" by (cases n') auto
  note or = agree_or [OF Suc.IH [OF n'(2)]]
  have eq: "or_expr (primary n) us = or_expr (primary k) us"
    "items_of (or_expr (primary n)) us = items_of (or_expr (primary k)) us" if "length us < n" for us
    using that or items_of_agree [OF or] by (auto simp: agree_def)
  have "primary (Suc n) ts = primary (Suc k) ts" if len: "length ts < Suc n" for ts
  proof (cases ts)
    case (Cons t ts1)
    then have l: "length ts1 < n" "\<And>ts2. ts1 = TOpen # ts2 \<Longrightarrow> length ts2 < n" using len by auto
    show ?thesis using Cons eq(1) [OF l(1)] eq(2) [OF l(2)] by (auto split: tok.splits list.splits)
  qed simp
  then show ?case using n' progress_primary [of "Suc n"] by (simp add: agree_def del: primary.simps)
qed

text \<open>C39: parsing always terminates with a result of its own: the depth bound it is given is never
  used up, and any larger bound gives the same result.\<close>

theorem parse_fuel_adequate:
  "or_expr (primary (Suc (length ts) + k)) ts = or_expr (primary (Suc (length ts))) ts \<and>
   or_expr (primary (Suc (length ts))) ts \<noteq> Err OutOfFuel"
proof -
  have "agree (Suc (length ts)) (or_expr (primary (Suc (length ts)))) (or_expr (primary (Suc (length ts) + k)))"
    by (rule agree_or [OF agree_primary]) simp
  then show ?thesis using progressD(1) [OF progress_or [OF progress_primary], of ts "Suc (length ts)"]
    by (auto simp: agree_def simp del: primary.simps)
qed

end
