(* ===== verification/Expr_Print.thy ===== *)
theory Expr_Print
  imports Expr_Valid
begin

text \<open>
  Every expression can be written down: its fully parenthesised token list parses back to it. The
  printer is a specification device; the round trip shows that the parser loses nothing and that
  its grammar reaches every constructor.
\<close>

section \<open>Printing\<close>

fun separated :: "tok list list \<Rightarrow> tok list" where
  "separated [] = []"
| "separated [x] = x"
| "separated (x # y # ys) = x @ TComma # separated (y # ys)"

fun op_token :: "binary_op \<Rightarrow> tok" where
  "op_token OpOr = TOp ''OR''"
| "op_token OpAnd = TOp ''AND''"
| "op_token OpEq = TOp ''=''"
| "op_token OpNe = TOp ''!=''"
| "op_token OpLt = TOp ''<''"
| "op_token OpLe = TOp ''<=''"
| "op_token OpGt = TOp ''>''"
| "op_token OpGe = TOp ''>=''"
| "op_token OpAdd = TOp ''+''"
| "op_token OpSub = TOp ''-''"
| "op_token OpMul = TOp ''*''"
| "op_token OpDiv = TOp ''/''"
| "op_token OpRem = TOp ''%''"

fun literal_token :: "val \<Rightarrow> tok" where
  "literal_token (VBool b) = TIdent (ascii (if b then ''TRUE'' else ''FALSE''))"
| "literal_token (VInt i) = TNum (f64_round False (of_int i))"
| "literal_token (VFloat x) = TNum x"
| "literal_token (VStr s) = TStr s"
| "literal_token _ = TIdent (ascii ''NULL'')"

definition negation :: "bool \<Rightarrow> tok list" where
  "negation negated = (if negated then [TIdent (ascii ''NOT'')] else [])"

fun print_toks :: "expr \<Rightarrow> tok list" where
  "print_toks (Literal v) = [literal_token v]"
| "print_toks (Field name) = [TQuoted name]"
| "print_toks (Unary op e) =
     TOpen # (case op of OpNot \<Rightarrow> TOp ''NOT'' | OpNeg \<Rightarrow> TOp ''-'') # print_toks e @ [TClose]"
| "print_toks (Binary a op b) = TOpen # print_toks a @ op_token op # print_toks b @ [TClose]"
| "print_toks (In e items negated) =
     TOpen # print_toks e @ negation negated @ TIdent (ascii ''IN'') # TOpen #
       separated (map print_toks items) @ [TClose, TClose]"
| "print_toks (IsNull e negated) =
     TOpen # print_toks e @ TIdent (ascii ''IS'') # negation negated @ [TIdent (ascii ''NULL''), TClose]"
| "print_toks (Like e p negated) =
     TOpen # print_toks e @ negation negated @ TIdent (ascii ''LIKE'') # print_toks p @ [TClose]"
| "print_toks (Call f args) = TIdent f # TOpen # separated (map print_toks args) @ [TClose]"

text \<open>The expressions a source text can denote: numbers in the form the parser gives them, lists of
  alternatives that are not empty, function names that are lower case and not reserved.\<close>

definition reserved :: "utext \<Rightarrow> bool" where
  "reserved w \<longleftrightarrow> map cp_upper w \<in> {ascii ''TRUE'', ascii ''FALSE'', ascii ''NULL''} \<or>
     text_eq_ignore_ascii_case w (ascii ''NOT'')"

fun printable_literal :: "val \<Rightarrow> bool" where
  "printable_literal (VInt i) = (number (f64_round False (of_int i)) = VInt i)"
| "printable_literal (VFloat x) = (number x = VFloat x)"
| "printable_literal (VArr vs) = False"
| "printable_literal (VObj fs) = False"
| "printable_literal _ = True"

fun printable :: "expr \<Rightarrow> bool" where
  "printable (Literal v) = printable_literal v"
| "printable (Field name) = True"
| "printable (Unary op e) = printable e"
| "printable (Binary a op b) = (printable a \<and> printable b)"
| "printable (In e items negated) = (printable e \<and> items \<noteq> [] \<and> list_all printable items)"
| "printable (IsNull e negated) = printable e"
| "printable (Like e p negated) = (printable e \<and> printable p)"
| "printable (Call f args) = (map cp_lower f = f \<and> \<not> reserved f \<and> list_all printable args)"

section \<open>Parsing one level at a time\<close>

definition closed :: "tok list \<Rightarrow> bool" where
  "closed ts \<longleftrightarrow> (case ts of [] \<Rightarrow> True | t # _ \<Rightarrow> t = TClose \<or> t = TComma)"

definition starts :: "tok list \<Rightarrow> bool" where
  "starts ts \<longleftrightarrow> (case ts of [] \<Rightarrow> False | t # _ \<Rightarrow> (\<forall>op. t \<noteq> TOp op) \<and> \<not> keyword (ascii ''NOT'') [t])"

lemma keyword_Cons: "keyword w (t # ts) = keyword w [t]"
  by (simp add: keyword_def split: tok.splits)

lemma keyword_simps [simp]:
  "keyword w (TIdent v # ts) = text_eq_ignore_ascii_case v w" "keyword w (TOp op # ts) = (ascii op = w)"
  "\<not> keyword w (TOpen # ts)" "\<not> keyword w (TClose # ts)" "\<not> keyword w (TComma # ts)"
  "\<not> keyword w (TNum x # ts)" "\<not> keyword w (TStr s # ts)" "\<not> keyword w (TQuoted q # ts)"
  by (simp_all add: keyword_def)

lemma starts_append: "starts ts \<Longrightarrow> starts (ts @ us)"
  by (cases ts) (auto simp: starts_def)

lemma starts_unary: "starts ts \<Longrightarrow> unary_expr prim ts = prim ts"
  by (cases ts) (auto simp: starts_def)

lemma starts_not: "starts ts \<Longrightarrow> not_expr prim ts = comparison prim ts"
  by (cases ts) (auto simp: starts_def keyword_Cons [of _ _ "_ # _"], metis keyword_Cons)

lemma chain_stop: "op_of ts = None \<Longrightarrow> chain sub op_of k left ts = Ok (left, ts)"
  by (cases k) auto

lemma chain_once:
  "op_of (t # ts) = Some op \<Longrightarrow> sub ts = Ok (right, rest) \<Longrightarrow> op_of rest = None \<Longrightarrow>
     chain sub op_of (length (t # ts)) left (t # ts) = Ok (Binary left op right, rest)"
  by (simp add: chain_stop)

lemma closed_ops:
  assumes "closed ts"
  shows "mul_op ts = None" "add_op ts = None" "comparison_op ts = None" "and_op ts = None" "or_op ts = None"
    and "\<not> keyword w ts" "comparison_rest prim left ts = Ok (left, ts)"
proof -
  show ops: "mul_op ts = None" "add_op ts = None" "comparison_op ts = None" "and_op ts = None" "or_op ts = None"
    and kw: "\<not> keyword w ts" for w
    using assms by (auto simp: closed_def mul_op_def add_op_def comparison_op_def and_op_def or_op_def split: list.splits)
  show "comparison_rest prim left ts = Ok (left, ts)"
    by (simp add: comparison_rest_def kw ops)
qed

lemma additive_atom:
  assumes "prim ts = Ok (a, rest)" "starts ts" "mul_op rest = None" "add_op rest = None"
  shows "additive_expr prim ts = Ok (a, rest)"
  using assms by (simp add: additive_expr_def multiplicative_expr_def starts_unary chain_stop)

lemma comparison_atom:
  assumes "prim ts = Ok (a, rest)" "starts ts" "mul_op rest = None" "add_op rest = None"
  shows "comparison prim ts = comparison_rest prim a rest"
  using additive_atom [of prim ts a rest] assms by (simp add: comparison_def)

lemma or_of_comparison:
  assumes "comparison prim ts = Ok (a, rest)" "starts ts" "closed rest"
  shows "or_expr prim ts = Ok (a, rest)"
  using assms by (simp add: or_expr_def and_expr_def starts_not chain_stop closed_ops)

lemma or_atom:
  assumes "prim ts = Ok (a, rest)" "starts ts" "closed rest"
  shows "or_expr prim ts = Ok (a, rest)"
  using assms comparison_atom [of prim ts a rest] closed_ops [OF assms(3)] or_of_comparison [of prim ts a rest]
  by simp

lemma op_token_levels:
  "mul_op (op_token op # ts) = (if op \<in> {OpMul, OpDiv, OpRem} then Some op else None)"
  "add_op (op_token op # ts) = (if op \<in> {OpAdd, OpSub} then Some op else None)"
  "comparison_op (op_token op # ts) = (if op \<in> {OpEq, OpNe, OpLt, OpLe, OpGt, OpGe} then Some op else None)"
  "and_op (op_token op # ts) = (if op = OpAnd then Some OpAnd else None)"
  "or_op (op_token op # ts) = (if op = OpOr then Some OpOr else None)"
  by (cases op; simp add: mul_op_def add_op_def comparison_op_def and_op_def or_op_def ascii_def)+

lemma op_token_not_keyword:
  "w \<in> {ascii ''IS'', ascii ''NOT'', ascii ''IN'', ascii ''LIKE'', ascii ''NULL''} \<Longrightarrow> \<not> keyword w (op_token op # ts)"
  by (cases op) (auto simp: ascii_def)

declare op_token.simps [simp del]

lemma comparison_rest_op:
  "comparison_rest prim left (op_token op # ts) =
     (if op \<in> {OpEq, OpNe, OpLt, OpLe, OpGt, OpGe}
      then and_then (additive_expr prim ts) (\<lambda>(right, rest). Ok (Binary left op right, rest))
      else Ok (left, op_token op # ts))"
  by (simp add: comparison_rest_def op_token_not_keyword op_token_levels)

lemma binary_levels:
  assumes A: "prim A = Ok (a, op_token op # B)" "starts A"
    and B: "prim B = Ok (b, rest)" "starts B" and rest: "closed rest"
  shows "or_expr prim A = Ok (Binary a op b, rest)"
proof -
  note stop = closed_ops [OF rest] chain_stop starts_unary [OF A(2)] starts_unary [OF B(2)]
    starts_not [OF A(2)] starts_not [OF B(2)]
  have mulB: "multiplicative_expr prim B = Ok (b, rest)" "additive_expr prim B = Ok (b, rest)"
    "comparison prim B = Ok (b, rest)" "and_expr prim B = Ok (b, rest)"
    using B by (simp_all add: multiplicative_expr_def additive_expr_def comparison_def and_expr_def stop)
  have once: "chain sub op_of (length (op_token op # B)) a (op_token op # B) = Ok (Binary a op b, rest)"
    if "op_of (op_token op # B) = Some op" "sub B = Ok (b, rest)" "op_of rest = None" for sub op_of
    using that by (rule chain_once)
  consider (mul) "op \<in> {OpMul, OpDiv, OpRem}" | (add) "op \<in> {OpAdd, OpSub}"
    | (cmp) "op \<in> {OpEq, OpNe, OpLt, OpLe, OpGt, OpGe}" | (conj) "op = OpAnd" | (disj) "op = OpOr"
    by (cases op) auto
  then show ?thesis
  proof cases
    case mul
    then have "multiplicative_expr prim A = Ok (Binary a op b, rest)"
      using A B once [of mul_op "unary_expr prim"] by (simp add: multiplicative_expr_def stop op_token_levels)
    then have "comparison prim A = Ok (Binary a op b, rest)"
      by (simp add: comparison_def additive_expr_def stop)
    then show ?thesis using A(2) rest by (rule or_of_comparison)
  next
    case add
    then have "multiplicative_expr prim A = Ok (a, op_token op # B)"
      using A by (auto simp: multiplicative_expr_def stop op_token_levels)
    then have "additive_expr prim A = Ok (Binary a op b, rest)"
      using add once [of add_op "multiplicative_expr prim"] mulB by (simp add: additive_expr_def stop op_token_levels)
    then have "comparison prim A = Ok (Binary a op b, rest)" by (simp add: comparison_def stop)
    then show ?thesis using A(2) rest by (rule or_of_comparison)
  next
    case cmp
    then have "comparison prim A = Ok (Binary a op b, rest)"
      using A mulB by (auto simp: comparison_def additive_expr_def multiplicative_expr_def stop op_token_levels
          comparison_rest_op)
    then show ?thesis using A(2) rest by (rule or_of_comparison)
  next
    case conj
    then have "comparison prim A = Ok (a, op_token op # B)"
      using A by (auto simp: comparison_def additive_expr_def multiplicative_expr_def stop op_token_levels
          comparison_rest_op)
    then have "and_expr prim A = Ok (Binary a op b, rest)"
      using conj once [of and_op "not_expr prim"] mulB by (simp add: and_expr_def stop op_token_levels)
    then show ?thesis by (simp add: or_expr_def stop)
  next
    case disj
    then have "comparison prim A = Ok (a, op_token op # B)"
      using A by (auto simp: comparison_def additive_expr_def multiplicative_expr_def stop op_token_levels
          comparison_rest_op)
    then have "and_expr prim A = Ok (a, op_token op # B)"
      using disj by (simp add: and_expr_def stop op_token_levels)
    then show ?thesis
      using disj once [of or_op "and_expr prim"] mulB by (simp add: or_expr_def stop op_token_levels)
  qed
qed

lemma keyword_table [simp]:
  "text_eq_ignore_ascii_case w w"
  "\<not> text_eq_ignore_ascii_case (ascii ''IN'') (ascii ''IS'')" "\<not> text_eq_ignore_ascii_case (ascii ''LIKE'') (ascii ''IS'')"
  "\<not> text_eq_ignore_ascii_case (ascii ''NOT'') (ascii ''IS'')" "\<not> text_eq_ignore_ascii_case (ascii ''IN'') (ascii ''NOT'')"
  "\<not> text_eq_ignore_ascii_case (ascii ''LIKE'') (ascii ''NOT'')" "\<not> text_eq_ignore_ascii_case (ascii ''LIKE'') (ascii ''IN'')"
  "\<not> text_eq_ignore_ascii_case (ascii ''NULL'') (ascii ''NOT'')" "\<not> text_eq_ignore_ascii_case (ascii ''TRUE'') (ascii ''NOT'')"
  "\<not> text_eq_ignore_ascii_case (ascii ''FALSE'') (ascii ''NOT'')" "\<not> text_eq_ignore_ascii_case (ascii ''NOT'') (ascii ''IN'')"
  "\<not> text_eq_ignore_ascii_case (ascii ''NOT'') (ascii ''LIKE'')"
  by (simp_all add: text_eq_ignore_ascii_case_def ascii_def cp_lower_def)

lemma ident_levels [simp]: "mul_op (TIdent w # ts) = None" "add_op (TIdent w # ts) = None"
  by (simp_all add: mul_op_def add_op_def)

lemma neg_level:
  assumes "prim A = Ok (a, rest)" "starts A" "closed rest"
  shows "or_expr prim (TOp ''-'' # A) = Ok (Unary OpNeg a, rest)"
proof -
  note stop = closed_ops [OF assms(3)] chain_stop starts_unary [OF assms(2)]
  have "comparison prim (TOp ''-'' # A) = Ok (Unary OpNeg a, rest)"
    using assms(1) by (simp add: comparison_def additive_expr_def multiplicative_expr_def stop)
  moreover have "\<not> keyword (ascii ''NOT'') (TOp ''-'' # A)" by (simp add: ascii_def)
  ultimately show ?thesis by (simp add: or_expr_def and_expr_def stop)
qed

lemma not_level:
  assumes "prim A = Ok (a, rest)" "starts A" "closed rest"
  shows "or_expr prim (TOp ''NOT'' # A) = Ok (Unary OpNot a, rest)"
proof -
  note stop = closed_ops [OF assms(3)] chain_stop starts_not [OF assms(2)]
  have "comparison prim A = Ok (a, rest)"
    using comparison_atom [of prim A a rest] assms stop by simp
  then show ?thesis by (simp add: or_expr_def and_expr_def stop)
qed

lemma is_null_level:
  assumes "prim A = Ok (a, TIdent (ascii ''IS'') # negation negated @ TIdent (ascii ''NULL'') # rest)"
    and "starts A" "closed rest"
  shows "or_expr prim A = Ok (IsNull a negated, rest)"
proof -
  have "comparison prim A = Ok (IsNull a negated, rest)"
    using comparison_atom [of prim A] assms(1,2)
    by (simp add: comparison_rest_def negation_def Let_def)
  then show ?thesis using assms(2,3) by (rule or_of_comparison)
qed

lemma like_level:
  assumes "prim A = Ok (a, negation negated @ TIdent (ascii ''LIKE'') # B)" "starts A"
    and "prim B = Ok (b, rest)" "starts B" "closed rest"
  shows "or_expr prim A = Ok (Like a b negated, rest)"
proof -
  have "additive_expr prim B = Ok (b, rest)"
    using additive_atom [of prim B b rest] assms(3,4) closed_ops [OF assms(5)] by simp
  then have "comparison prim A = Ok (Like a b negated, rest)"
    using comparison_atom [of prim A] assms(1,2)
    by (cases negated) (simp_all add: comparison_rest_def negation_def Let_def keyword_at_def)
  then show ?thesis using assms(2,5) by (rule or_of_comparison)
qed

lemma in_level:
  assumes "prim A = Ok (a, negation negated @ TIdent (ascii ''IN'') # TOpen # B)" "starts A"
    and "items_of (additive_expr prim) B = Ok (items, TClose # rest)" "closed rest"
  shows "or_expr prim A = Ok (In a items negated, rest)"
proof -
  have "comparison prim A = Ok (In a items negated, rest)"
    using comparison_atom [of prim A] assms(1-3)
    by (cases negated) (simp_all add: comparison_rest_def negation_def Let_def keyword_at_def)
  then show ?thesis using assms(2,4) by (rule or_of_comparison)
qed

section \<open>The round trip\<close>

lemma separated_Cons: "separated (map f (x # xs)) = f x @ concat (map (\<lambda>y. TComma # f y) xs)"
  by (induction xs arbitrary: x) auto

lemma closed_tail: "closed (concat (map (\<lambda>y. TComma # f y) xs) @ TClose # rest)"
  by (cases xs) (auto simp: closed_def)

lemma more_items_print:
  assumes "\<And>x r. x \<in> set xs \<Longrightarrow> closed r \<Longrightarrow> sub (f x @ r) = Ok (x, r)"
  shows "length xs \<le> k \<Longrightarrow>
    more_items sub k acc (concat (map (\<lambda>y. TComma # f y) xs) @ TClose # rest) = Ok (acc @ xs, TClose # rest)"
  using assms
proof (induction xs arbitrary: k acc)
  case Nil
  then show ?case by (cases k) auto
next
  case (Cons x xs)
  then obtain k' where k: "k = Suc k'" "length xs \<le> k'" by (cases k) auto
  have "sub (f x @ concat (map (\<lambda>y. TComma # f y) xs) @ TClose # rest) =
      Ok (x, concat (map (\<lambda>y. TComma # f y) xs) @ TClose # rest)"
    by (rule Cons.prems(2) [OF _ closed_tail]) simp
  moreover have "more_items sub k' (acc @ [x]) (concat (map (\<lambda>y. TComma # f y) xs) @ TClose # rest) =
      Ok ((acc @ [x]) @ xs, TClose # rest)"
    using Cons.prems(2) by (intro Cons.IH k(2)) auto
  ultimately show ?case using k(1) by simp
qed

lemma length_concat_items: "length xs \<le> length (concat (map (\<lambda>y. TComma # f y) xs) @ ts)"
  by (induction xs) auto

lemma items_of_print:
  assumes "\<And>x r. x \<in> set xs \<Longrightarrow> closed r \<Longrightarrow> sub (f x @ r) = Ok (x, r)" and "xs \<noteq> []"
  shows "items_of sub (separated (map f xs) @ TClose # rest) = Ok (xs, TClose # rest)"
proof -
  obtain x ys where xs: "xs = x # ys" using assms(2) by (cases xs) auto
  let ?tail = "concat (map (\<lambda>y. TComma # f y) ys) @ TClose # rest"
  have "sub (f x @ ?tail) = Ok (x, ?tail)" by (rule assms(1) [OF _ closed_tail]) (simp add: xs)
  moreover have "more_items sub (length ?tail) [x] ?tail = Ok ([x] @ ys, TClose # rest)"
    using assms(1) xs by (intro more_items_print length_concat_items) auto
  ultimately show ?thesis unfolding xs separated_Cons by (simp add: items_of_def)
qed

lemma starts_print: "printable e \<Longrightarrow> starts (print_toks e)"
proof (cases e)
  case (Literal v)
  then show "printable e \<Longrightarrow> ?thesis" by (cases v) (auto simp: starts_def)
next
  case (Call f args)
  then show "printable e \<Longrightarrow> ?thesis" by (auto simp: starts_def reserved_def)
qed (auto simp: starts_def)

lemma upper_keywords [simp]:
  "map cp_upper (ascii ''TRUE'') = ascii ''TRUE''" "map cp_upper (ascii ''FALSE'') = ascii ''FALSE''"
  "map cp_upper (ascii ''NULL'') = ascii ''NULL''" "ascii ''FALSE'' \<noteq> ascii ''TRUE''"
  "ascii ''NULL'' \<noteq> ascii ''TRUE''" "ascii ''NULL'' \<noteq> ascii ''FALSE''"
  "ascii ''TRUE'' \<noteq> ascii ''FALSE''" "ascii ''TRUE'' \<noteq> ascii ''NULL''" "ascii ''FALSE'' \<noteq> ascii ''NULL''"
  by (simp_all add: ascii_def cp_upper_def)

lemma primary_paren:
  "or_expr (primary n) ts = Ok (e, TClose # rest) \<Longrightarrow> primary (Suc n) (TOpen # ts) = Ok (e, rest)"
  by simp

lemma print_toks_hd: "print_toks e \<noteq> []" "hd (print_toks e) \<noteq> TClose"
proof -
  have "literal_token v \<noteq> TClose" for v by (cases v) auto
  then show "print_toks e \<noteq> []" "hd (print_toks e) \<noteq> TClose" by (cases e; simp)+
qed

lemma separated_hd: "args \<noteq> [] \<Longrightarrow> hd (separated (map print_toks args) @ ts) \<noteq> TClose"
  by (cases args) (simp_all add: separated_Cons print_toks_hd del: list.map)

lemma length_separated: "x \<in> set xs \<Longrightarrow> length (f x) \<le> length (separated (map f xs))"
  by (induction xs rule: induct_list012) auto

lemma or_print:
  assumes "\<And>r. primary n (print_toks e @ r) = Ok (e, r)" "printable e" "closed rest"
  shows "or_expr (primary n) (print_toks e @ rest) = Ok (e, rest)"
  using assms by (intro or_atom starts_append starts_print)

lemma additive_print:
  assumes "\<And>r. primary n (print_toks e @ r) = Ok (e, r)" "printable e" "closed rest"
  shows "additive_expr (primary n) (print_toks e @ rest) = Ok (e, rest)"
  using assms closed_ops [OF assms(3)] by (intro additive_atom starts_append starts_print)

lemma primary_print:
  "length (print_toks e) \<le> n \<Longrightarrow> printable e \<Longrightarrow> primary n (print_toks e @ rest) = Ok (e, rest)"
proof (induction e arbitrary: n rest)
  case (Literal v)
  then show ?case by (cases n; cases v) auto
next
  case (Field name)
  then show ?case by (cases n) auto
next
  case (Unary op e)
  then obtain n' where n: "n = Suc n'" by (cases n) auto
  have e: "primary n' (print_toks e @ r) = Ok (e, r)" for r using Unary n by simp
  have "starts (print_toks e @ r)" for r using Unary.prems by (simp add: starts_append starts_print)
  then show ?case
    using neg_level [of "primary n'", OF e [of "TClose # rest"]] not_level [of "primary n'", OF e [of "TClose # rest"]] n
    by (cases op) (auto simp: closed_def)
next
  case (Binary a op b)
  then obtain n' where n: "n = Suc n'" by (cases n) auto
  have ab: "primary n' (print_toks a @ r) = Ok (a, r)" "primary n' (print_toks b @ r) = Ok (b, r)" for r
    using Binary n by simp_all
  have "starts (print_toks a @ r)" "starts (print_toks b @ r)" for r
    using Binary.prems by (simp_all add: starts_append starts_print)
  then show ?case
    using binary_levels [of "primary n'", OF ab(1) [of "op_token op # print_toks b @ TClose # rest"] _ ab(2) [of "TClose # rest"]] n by (simp add: closed_def)
next
  case (In e items negated)
  then obtain n' where n: "n = Suc n'" by (cases n) auto
  have e: "primary n' (print_toks e @ r) = Ok (e, r)" for r using In n by simp
  have "starts (print_toks e @ r)" for r using In.prems by (simp add: starts_append starts_print)
  moreover have "primary n' (print_toks x @ r) = Ok (x, r)" if "x \<in> set items" for x r
    using In.prems n length_separated [OF that, of print_toks] that
    by (intro In.IH(2)) (auto simp: list_all_iff)
  then have "items_of (additive_expr (primary n')) (separated (map print_toks items) @ TClose # TClose # rest) =
      Ok (items, TClose # TClose # rest)"
    using In.prems by (intro items_of_print additive_print) (auto simp: list_all_iff)
  ultimately show ?case
    using in_level [of "primary n'", OF e [of "negation negated @ TIdent (ascii ''IN'') # TOpen # separated (map print_toks items) @ TClose # TClose # rest"]] n by (simp add: closed_def)
next
  case (IsNull e negated)
  then obtain n' where n: "n = Suc n'" by (cases n) auto
  have e: "primary n' (print_toks e @ r) = Ok (e, r)" for r using IsNull n by simp
  have "starts (print_toks e @ r)" for r using IsNull.prems by (simp add: starts_append starts_print)
  then show ?case using is_null_level [of "primary n'", OF e [of "TIdent (ascii ''IS'') # negation negated @ TIdent (ascii ''NULL'') # TClose # rest"]] n by (simp add: closed_def)
next
  case (Like e p negated)
  then obtain n' where n: "n = Suc n'" by (cases n) auto
  have ep: "primary n' (print_toks e @ r) = Ok (e, r)" "primary n' (print_toks p @ r) = Ok (p, r)" for r
    using Like n by simp_all
  have "starts (print_toks e @ r)" "starts (print_toks p @ r)" for r
    using Like.prems by (simp_all add: starts_append starts_print)
  then show ?case using like_level [of "primary n'", OF ep(1) [of "negation negated @ TIdent (ascii ''LIKE'') # print_toks p @ TClose # rest"] _ ep(2) [of "TClose # rest"]] n by (simp add: closed_def)
next
  case (Call f args)
  then obtain n' where n: "n = Suc n'" by (cases n) auto
  have "primary n' (print_toks x @ r) = Ok (x, r)" if "x \<in> set args" for x r
    using Call.prems n length_separated [OF that, of print_toks] that
    by (intro Call.IH) (auto simp: list_all_iff)
  then have "items_of (or_expr (primary n')) (separated (map print_toks args) @ TClose # rest) =
      Ok (args, TClose # rest)" if "args \<noteq> []"
    using Call.prems that by (intro items_of_print or_print) (auto simp: list_all_iff)
  then show ?case
    using Call.prems separated_hd [of args "TClose # rest"] n by (cases "args = []") (auto simp: reserved_def)
qed

text \<open>C23: every expression the language can denote survives printing and parsing: the parser reads its
  fully parenthesised token list back to the same tree and leaves no token over.\<close>

theorem parse_print:
  assumes "printable e"
  shows "parse_tokens (print_toks e) = Ok e"
proof -
  have "or_expr (primary (Suc (length (print_toks e)))) (print_toks e @ []) = Ok (e, [])"
    using assms by (intro or_print primary_print) (auto simp: closed_def)
  then show ?thesis by (simp add: parse_tokens_def print_toks_hd(1) del: primary.simps)
qed

theorem parse_print_witness:
  "let e = Binary (In (Field (ascii ''kind'')) [Literal (VStr (ascii ''park'')), Literal VNull] True) OpAnd
     (Binary (Call (ascii ''abs'') [Unary OpNeg (Field (ascii ''area''))]) OpGe (Literal (VBool True)))
   in printable e \<and> parse_tokens (print_toks e) = Ok e"
proof -
  let ?e = "Binary (In (Field (ascii ''kind'')) [Literal (VStr (ascii ''park'')), Literal VNull] True) OpAnd
     (Binary (Call (ascii ''abs'') [Unary OpNeg (Field (ascii ''area''))]) OpGe (Literal (VBool True)))"
  have "printable ?e"
    by (simp add: reserved_def ascii_def cp_lower_def cp_upper_def text_eq_ignore_ascii_case_def)
  then show ?thesis using parse_print [of ?e] by simp
qed

end
