(* ===== verification/F64_More.thy ===== *)
theory F64_More
  imports F64
begin

text \<open>
  More of \<open>f64\<close>: \<open>partial_cmp\<close>, rounding to integers and saturating casts, and the two laws of rounding
  that algorithms over costs rely on: rounding is monotone, and it leaves a representable value as
  it is. With them, adding a cost that is not negative never lowers a value and keeps its order.
\<close>

section \<open>Comparison and casts\<close>

datatype cmp_order = Less | Equal | Greater

definition f64_partial_cmp :: "f64 \<Rightarrow> f64 \<Rightarrow> cmp_order option" where
  "f64_partial_cmp x y =
     (if f64_lt x y then Some Less else if f64_eq x y then Some Equal
      else if f64_lt y x then Some Greater else None)"

text \<open>Rounding to an integer keeps the sign of a zero.\<close>

definition to_integral :: "(rat \<Rightarrow> int) \<Rightarrow> f64 \<Rightarrow> f64" where
  "to_integral rounding x =
     (if \<not> f64_is_finite x then x
      else let k = rounding (f64_val x) in
           if k = 0 \<and> f64_sign x then NegZero else Fin (of_int k))"

definition half_away :: "rat \<Rightarrow> int" where
  "half_away q = (if 0 \<le> q then \<lfloor>q + 1 / 2\<rfloor> else \<lceil>q - 1 / 2\<rceil>)"

text \<open>A cast to a signed integer of \<open>w\<close> bits truncates and saturates; NaN is 0.\<close>

definition f64_to_signed :: "nat \<Rightarrow> f64 \<Rightarrow> int" where
  "f64_to_signed w x =
     (case x of
        NaN \<Rightarrow> 0
      | Inf neg \<Rightarrow> if neg then - (2 ^ (w - 1)) else 2 ^ (w - 1) - 1
      | NegZero \<Rightarrow> 0
      | Fin q \<Rightarrow> max (- (2 ^ (w - 1))) (min (2 ^ (w - 1) - 1) (if 0 \<le> q then \<lfloor>q\<rfloor> else \<lceil>q\<rceil>)))"

definition f64_to_i32 :: "f64 \<Rightarrow> int" where "f64_to_i32 x = f64_to_signed 32 x"
definition f64_to_i64 :: "f64 \<Rightarrow> int" where "f64_to_i64 x = f64_to_signed 64 x"

section \<open>Powers of two\<close>

lemma pow2_int: "pow2 e = (if 0 \<le> e then 2 ^ nat e else inverse (2 ^ nat (- e)))"
  by (simp add: pow2_def inverse_eq_divide)

lemma pow2_powi: "pow2 e = 2 powi e"
  by (simp add: pow2_int power_int_def power_one_over inverse_eq_divide)

lemma pow2_add: "pow2 (a + b) = pow2 a * pow2 b"
  by (simp add: pow2_powi power_int_add)

lemma pow2_diff: "pow2 (a - b) = pow2 a / pow2 b"
  by (simp add: pow2_powi power_int_diff)

lemma pow2_mono: "a \<le> b \<Longrightarrow> pow2 a \<le> pow2 b"
  by (simp add: pow2_powi power_int_increasing)

lemma pow2_strict: "a < b \<Longrightarrow> pow2 a < pow2 b"
  by (simp add: pow2_powi power_int_strict_increasing)

lemma pow2_less_iff: "pow2 a < pow2 b \<longleftrightarrow> a < b"
  using pow2_mono [of b a] pow2_strict [of a b] by (cases "a < b") auto

lemma pow2_numeral [simp]: "pow2 (numeral n) = 2 ^ numeral n" "pow2 1 = 2"
  by (simp_all add: pow2_def)

lemma pow2_nat: "0 \<le> e \<Longrightarrow> pow2 e = of_int (2 ^ nat e)"
  by (simp add: pow2_def)

text \<open>The exponent brackets its argument.\<close>

lemma ilog2_bounds:
  assumes "0 < r" shows "pow2 (ilog2 r) \<le> r" "r < pow2 (ilog2 r + 1)"
proof -
  obtain p q where pq: "quotient_of r = (p, q)" by (cases "quotient_of r")
  then have q: "0 < q" and r: "r = of_int p / of_int q"
    using quotient_of_denom_pos quotient_of_div by blast+
  then have p: "0 < p" using assms by (simp add: zero_less_divide_iff)
  have bits: "of_int (2 ^ nat (bitlen k - 1)) \<le> (of_int k :: rat)" "(of_int k :: rat) < of_int (2 ^ nat (bitlen k))"
    if "0 < k" for k
    unfolding of_int_le_iff of_int_less_iff using bitlen_bounds [of k] that by auto
  have pos: "0 < bitlen k" if "0 < k" for k 
    using that bitlen_eq_zero_iff [of k] bitlen_nonneg [of k] by linarith
  have "pow2 (bitlen p - 1) \<le> of_int p" "of_int p < pow2 (bitlen p)"
    "pow2 (bitlen q - 1) \<le> of_int q" "of_int q < pow2 (bitlen q)"
    using bits [OF p] bits [OF q] pos [OF p] pos [OF q] by (simp_all add: pow2_nat)
  note b = this pow2_pos
  have lower: "pow2 (bitlen p - bitlen q - 1) \<le> r"
  proof -
    have "pow2 (bitlen p - bitlen q - 1) = pow2 (bitlen p - 1) / pow2 (bitlen q)"
      unfolding pow2_diff [symmetric] by (simp add: algebra_simps)
    also have "\<dots> \<le> of_int p / of_int q" using b q p by (intro frac_le) (auto simp: less_imp_le)
    finally show ?thesis using r by simp
  qed
  have upper: "r < pow2 (bitlen p - bitlen q + 1)"
  proof -
    have "of_int p / of_int q < pow2 (bitlen p) / pow2 (bitlen q - 1)"
      using b q p by (intro frac_less) auto
    also have "\<dots> = pow2 (bitlen p - bitlen q + 1)"
      unfolding pow2_diff [symmetric] by (simp add: algebra_simps)
    finally show ?thesis using r by simp
  qed
  show "pow2 (ilog2 r) \<le> r" "r < pow2 (ilog2 r + 1)"
    using lower upper by (auto simp: ilog2_def pq Let_def)
qed

lemma ilog2_less: "0 < r \<Longrightarrow> r < pow2 e \<Longrightarrow> ilog2 r < e"
  using ilog2_bounds(1) [of r] pow2_less_iff [of "ilog2 r" e] by simp

lemma ilog2_mono: "0 < r \<Longrightarrow> r \<le> s \<Longrightarrow> ilog2 r \<le> ilog2 s"
  using ilog2_less [of r "ilog2 s + 1"] ilog2_bounds(2) [of s] by simp

section \<open>Rounding is monotone and idempotent\<close>

lemma round_half_even_bounds: "of_int k \<le> r \<Longrightarrow> k \<le> round_half_even r" "r \<le> of_int k \<Longrightarrow> round_half_even r \<le> k"
proof -
  show "k \<le> round_half_even r" if "of_int k \<le> r"
  proof -
    have "k \<le> \<lfloor>r\<rfloor>" using that by (simp add: le_floor_iff)
    then show ?thesis by (auto simp: round_half_even_def Let_def)
  qed
  assume r: "r \<le> of_int k"
  show "round_half_even r \<le> k"
  proof (cases "r = of_int k")
    case False
    then have "\<lfloor>r\<rfloor> < k" using r by (simp add: floor_less_iff)
    then show ?thesis by (auto simp: round_half_even_def Let_def)
  qed simp
qed

lemma round_half_even_mono:
  assumes "r \<le> s" shows "round_half_even r \<le> round_half_even s"
proof (cases "\<lfloor>r\<rfloor> = \<lfloor>s\<rfloor>")
  case True
  then show ?thesis using assms by (auto simp: round_half_even_def Let_def)
next
  case False
  then have less: "\<lfloor>r\<rfloor> < \<lfloor>s\<rfloor>" using floor_mono [OF assms] by simp
  have "r \<le> of_int (\<lfloor>r\<rfloor> + 1)" using floor_correct [of r] by simp
  then have "round_half_even r \<le> \<lfloor>r\<rfloor> + 1" by (rule round_half_even_bounds(2))
  also have "\<dots> \<le> \<lfloor>s\<rfloor>" using less by simp
  also have "\<dots> \<le> round_half_even s" by (rule round_half_even_bounds(1)) simp
  finally show ?thesis .
qed

definition quantum :: "rat \<Rightarrow> int" where
  "quantum r = max (ilog2 r - 52) (- 1074)"

definition rounded :: "rat \<Rightarrow> rat" where
  "rounded r = of_int (round_half_even (r / pow2 (quantum r))) * pow2 (quantum r)"

lemma f64_round_rounded:
  "0 < r \<Longrightarrow> f64_round neg r =
     (if 2 ^ 1024 \<le> rounded r then Inf False else if rounded r = 0 then Fin 0 else Fin (rounded r))"
  by (simp add: f64_round_def rounded_def quantum_def Let_def)

lemma rounded_same_quantum:
  assumes "r \<le> s" "quantum r = quantum s" shows "rounded r \<le> rounded s"
proof -
  have "r / pow2 (quantum s) \<le> s / pow2 (quantum s)"
    using assms(1) pow2_pos [of "quantum s"] by (simp add: divide_right_mono less_imp_le)
  then have "round_half_even (r / pow2 (quantum s)) \<le> round_half_even (s / pow2 (quantum s))"
    by (rule round_half_even_mono)
  then show ?thesis
    unfolding rounded_def assms(2) using pow2_pos [of "quantum s"] by (intro mult_right_mono) auto
qed

lemma rounded_mono:
  assumes "0 < r" "r \<le> s" shows "rounded r \<le> rounded s"
proof (cases "quantum r = quantum s")
  case True
  then show ?thesis using assms by (intro rounded_same_quantum)
next
  case False
  have log: "ilog2 r \<le> ilog2 s" using assms by (rule ilog2_mono)
  then have q: "quantum r < quantum s" using False by (auto simp: quantum_def)
  then have qs: "quantum s = ilog2 s - 52" and less: "ilog2 r < ilog2 s" using log by (auto simp: quantum_def)
  let ?p = "pow2 (ilog2 s)"
  have "r \<le> ?p" using ilog2_bounds(2) [OF assms(1)] pow2_mono [of "ilog2 r + 1" "ilog2 s"] less by simp
  moreover have gap: "of_int (2 ^ nat (ilog2 s - quantum r)) = ?p / pow2 (quantum r)"
    using pow2_nat [of "ilog2 s - quantum r"] q qs by (simp add: pow2_diff del: of_int_power)
  ultimately have "r / pow2 (quantum r) \<le> of_int (2 ^ nat (ilog2 s - quantum r))"
    unfolding gap using pow2_pos [of "quantum r"] by (simp add: divide_right_mono less_imp_le)
  then have "round_half_even (r / pow2 (quantum r)) \<le> 2 ^ nat (ilog2 s - quantum r)"
    by (rule round_half_even_bounds(2))
  then have "rounded r \<le> of_int (2 ^ nat (ilog2 s - quantum r)) * pow2 (quantum r)"
    unfolding rounded_def using pow2_pos [of "quantum r"]
    by (intro mult_right_mono) (auto simp only: of_int_le_iff less_imp_le)
  also have "\<dots> = ?p" unfolding gap using pow2_pos [of "quantum r"] by simp
  also have "\<dots> = of_int (2 ^ 52) * pow2 (quantum s)"
  proof -
    have "?p = pow2 52 * pow2 (quantum s)" unfolding qs pow2_add [symmetric] by simp
    then show ?thesis by simp
  qed
  also have "\<dots> \<le> rounded s"
  proof -
    have "?p / pow2 (quantum s) \<le> s / pow2 (quantum s)"
      using ilog2_bounds(1) [of s] assms pow2_pos [of "quantum s"] by (simp add: divide_right_mono less_imp_le)
    moreover have "?p / pow2 (quantum s) = of_int (2 ^ 52)"
      unfolding qs by (simp add: pow2_diff [symmetric] pow2_nat del: of_int_power)
    ultimately have "2 ^ 52 \<le> round_half_even (s / pow2 (quantum s))" by (intro round_half_even_bounds(1)) simp
    then show ?thesis
      unfolding rounded_def using pow2_pos [of "quantum s"]
      by (intro mult_right_mono) (auto simp only: of_int_le_iff less_imp_le)
  qed
  finally show ?thesis .
qed

lemma rounded_nonneg: "0 < r \<Longrightarrow> 0 \<le> rounded r"
  unfolding rounded_def using pow2_pos [of "quantum r"]
  by (intro mult_nonneg_nonneg) (auto simp: less_imp_le intro!: round_half_even_nonneg divide_nonneg_nonneg)

lemma rounded_exact:
  assumes "0 < x" "x = of_int k * pow2 e" "k \<le> 2 ^ 53" "- 1074 \<le> e"
  shows "rounded x = x"
proof -
  obtain j where "x = of_int j * pow2 (quantum x)"
  proof (cases "k = 2 ^ 53")
    case True
    then have x: "x = pow2 (e + 53)" using assms(2) by (simp add: pow2_add)
    have "ilog2 x = e + 53"
      using ilog2_bounds [OF assms(1)] unfolding x pow2_less_iff
      by (metis pow2_less_iff linorder_not_less order_antisym zless_add1_eq less_le)
    then have "quantum x = e + 1" using assms(4) by (simp add: quantum_def)
    then have "x = of_int (2 ^ 52) * pow2 (quantum x)"
      unfolding x by (simp add: pow2_add)
    then show thesis by (rule that)
  next
    case False
    then have "of_int k < (of_int (2 ^ 53) :: rat)" using assms(3) by (simp only: of_int_less_iff)
    then have "x < pow2 (e + 53)"
      unfolding assms(2) pow2_add using pow2_pos [of e] by (simp add: mult.commute)
    then have "quantum x \<le> e" using ilog2_less [OF assms(1)] assms(4) by (fastforce simp: quantum_def)
    then have "pow2 e = of_int (2 ^ nat (e - quantum x)) * pow2 (quantum x)"
      using pow2_nat [of "e - quantum x"] pow2_add [of "e - quantum x" "quantum x"] by simp
    then have "x = of_int (k * 2 ^ nat (e - quantum x)) * pow2 (quantum x)" using assms(2) by simp
    then show thesis by (rule that)
  qed
  then have "x / pow2 (quantum x) = of_int j" using pow2_pos [of "quantum x"] by (simp add: field_simps)
  then have "round_half_even (x / pow2 (quantum x)) = j" by simp
  then show ?thesis using \<open>x = of_int j * pow2 (quantum x)\<close> unfolding rounded_def by simp
qed

lemma rounded_idem:
  assumes "0 < r" "rounded r \<noteq> 0" shows "rounded (rounded r) = rounded r"
proof (rule rounded_exact)
  show "0 < rounded r" using rounded_nonneg [OF assms(1)] assms(2) by simp
  show "rounded r = of_int (round_half_even (r / pow2 (quantum r))) * pow2 (quantum r)" by (rule rounded_def)
  show "- 1074 \<le> quantum r" by (simp add: quantum_def)
  have "r < pow2 (quantum r + 53)"
    using ilog2_bounds(2) [OF assms(1)] by (rule less_le_trans) (auto intro!: pow2_mono simp: quantum_def)
  then have "r / pow2 (quantum r) \<le> of_int (2 ^ 53)"
    using pow2_pos [of "quantum r"] by (simp add: pow2_add field_simps)
  then show "round_half_even (r / pow2 (quantum r)) \<le> 2 ^ 53" by (rule round_half_even_bounds(2))
qed

section \<open>Costs\<close>

text \<open>A value that rounding leaves as it is; every value of the type \<open>f64\<close> is one. A cost is a value
  that is not NaN and not negative.\<close>

definition f64_exact :: "f64 \<Rightarrow> bool" where
  "f64_exact x = (case x of Fin r \<Rightarrow> r = 0 \<or> f64_round False r = Fin r | _ \<Rightarrow> True)"

definition cost_ok :: "f64 \<Rightarrow> bool" where
  "cost_ok x \<longleftrightarrow> f64_exact x \<and> f64_le (Fin 0) x"

lemma f64_round_not_NaN [simp]: "f64_round neg r \<noteq> NaN"
  by (simp add: f64_round_def Let_def)

lemma f64_round_le:
  assumes "0 \<le> r" "r \<le> s" shows "f64_le (f64_round a r) (f64_round b s)"
proof (cases "r = 0")
  case True
  then show ?thesis using f64_round_nonneg [OF order_trans [OF assms], of b] f64_rank_range [of "f64_round b s"]
    by (cases "f64_round b s") (auto simp: f64_le_def split: if_splits)
next
  case False
  then have "0 < r" "0 < s" "rounded r \<le> rounded s" using assms rounded_mono [of r s] by auto
  then show ?thesis using rounded_nonneg [of r] rounded_nonneg [of s]
    by (auto simp: f64_round_rounded f64_le_def)
qed

lemma f64_exact_round: "0 \<le> r \<Longrightarrow> f64_exact (f64_round neg r)"
  by (cases "r = 0") (auto simp: f64_exact_def f64_round_rounded rounded_idem
      rounded_nonneg less_le order_less_le)

lemma cost_cases:
  assumes "cost_ok x"
  obtains "x = Inf False" | "f64_is_finite x" "0 \<le> f64_val x"
  using assms by (cases x) (auto simp: cost_ok_def f64_le_def split: if_splits)

lemma cost_not_NaN: "cost_ok x \<Longrightarrow> x \<noteq> NaN"
  by (auto simp: cost_ok_def f64_le_def)

lemma cost_ok_zero [simp]: "cost_ok (Fin 0)"
  by (simp add: cost_ok_def f64_exact_def)

lemma f64_add_finite:
  "f64_is_finite x \<Longrightarrow> f64_is_finite y \<Longrightarrow>
     f64_add x y = f64_round (x = NegZero \<and> y = NegZero) (f64_val x + f64_val y)"
  by (cases x; cases y) (simp_all add: f64_add_def)

lemma f64_add_Inf [simp]:
  "cost_ok x \<Longrightarrow> f64_add x (Inf False) = Inf False" "cost_ok x \<Longrightarrow> f64_add (Inf False) x = Inf False"
  by (auto elim!: cost_cases simp: f64_add_def split: f64.splits)

lemma f64_le_Inf: "cost_ok x \<Longrightarrow> f64_le x (Inf False)"
  by (auto elim!: cost_cases simp: f64_le_def f64_is_finite_iff)

lemma cost_ok_add:
  assumes "cost_ok x" "cost_ok w" shows "cost_ok (f64_add x w)"
proof (rule cost_cases [OF assms(1)]; rule cost_cases [OF assms(2)])
  assume fin: "f64_is_finite x" "f64_is_finite w" "0 \<le> f64_val x" "0 \<le> f64_val w"
  then have "0 \<le> f64_val x + f64_val w" by simp
  then show ?thesis
    using fin f64_exact_round f64_round_le [of 0 "f64_val x + f64_val w" False]
    by (simp add: cost_ok_def f64_add_finite)
qed (use assms in \<open>auto simp: cost_ok_def f64_exact_def f64_le_def\<close>)

lemma f64_exact_le_round:
  assumes "f64_is_finite x" "f64_exact x" "0 \<le> f64_val x" "f64_val x \<le> s"
  shows "f64_le x (f64_round neg s)"
proof (cases "f64_val x = 0")
  case True
  then show ?thesis using f64_round_le [of 0 s False neg] assms by (cases x) (auto simp: f64_le_def)
next
  case False
  then have "x = f64_round False (f64_val x)" using assms by (cases x) (auto simp: f64_exact_def)
  then show ?thesis using f64_round_le [OF assms(3,4), of False neg] by simp
qed

lemma f64_le_add:
  assumes "cost_ok x" "cost_ok w" shows "f64_le x (f64_add x w)"
proof (rule cost_cases [OF assms(1)]; rule cost_cases [OF assms(2)])
  assume fin: "f64_is_finite x" "f64_is_finite w" "0 \<le> f64_val x" "0 \<le> f64_val w"
  then show ?thesis using assms f64_exact_le_round [of x "f64_val x + f64_val w"]
    by (simp add: cost_ok_def f64_add_finite)
qed (use assms f64_le_Inf in \<open>auto simp: cost_not_NaN\<close>)

lemma f64_add_mono:
  assumes "cost_ok x" "cost_ok y" "cost_ok w" "f64_le x y"
  shows "f64_le (f64_add x w) (f64_add y w)"
proof (cases "y = Inf False \<or> w = Inf False")
  case True
  then show ?thesis using assms f64_le_Inf [OF cost_ok_add [OF assms(1,3)]] by auto
next
  case False
  then have "f64_is_finite y" "f64_is_finite w" "0 \<le> f64_val w" using assms(2,3) by (auto elim: cost_cases)
  moreover from this have "f64_is_finite x" "0 \<le> f64_val x" "f64_val x \<le> f64_val y"
    using assms(1,4) by (auto elim!: cost_cases simp: f64_le_def f64_is_finite_iff)
  ultimately show ?thesis by (simp add: f64_add_finite f64_round_le)
qed

lemmas cost_laws = cost_ok_add f64_le_add f64_add_mono

end
