(* ===== verification/Expr_Eval.thy ===== *)
theory Expr_Eval
  imports Expr_Valid F64_More
begin

text \<open>
  Evaluation of attribute expressions (\<open>genegis-toolkit/src/expr.rs\<close>). The functions of the standard
  library whose tables or bits are not in the repository, and the text of a JSON value, are the
  fields of a record of parameters; arithmetic is the model of binary64.
\<close>

record library =
  display :: "val \<Rightarrow> utext"
  lowercase :: "utext \<Rightarrow> utext"
  uppercase :: "utext \<Rightarrow> utext"
  square_root :: "f64 \<Rightarrow> f64"
  powi_ten :: "int \<Rightarrow> f64"

section \<open>Floating-point functions\<close>

text \<open>\<open>%\<close> keeps the sign of the dividend and is exact.\<close>

definition f64_rem :: "f64 \<Rightarrow> f64 \<Rightarrow> f64" where
  "f64_rem x y =
     (if \<not> f64_is_finite x \<or> y = NaN \<or> f64_eq y (Fin 0) then NaN
      else if \<not> f64_is_finite y then x
      else let q = f64_val x / f64_val y; k = (if 0 \<le> q then \<lfloor>q\<rfloor> else \<lceil>q\<rceil>);
               r = f64_val x - of_int k * f64_val y in
           if r = 0 then (if f64_sign x then NegZero else Fin 0) else Fin r)"

section \<open>Values\<close>

definition trim_text :: "utext \<Rightarrow> utext" where
  "trim_text s = rev (dropWhile is_whitespace (rev (dropWhile is_whitespace s)))"

fun as_f64 :: "val \<Rightarrow> f64 option" where
  "as_f64 (VInt i) = Some (f64_round False (of_int i))"
| "as_f64 (VFloat x) = Some x"
| "as_f64 (VBool b) = Some (if b then Fin 1 else Fin 0)"
| "as_f64 (VStr s) = parse_f64 (trim_text s)"
| "as_f64 _ = None"

fun truthy :: "val \<Rightarrow> bool" where
  "truthy VNull = False"
| "truthy (VBool b) = b"
| "truthy (VInt i) = (\<not> f64_eq (f64_round False (of_int i)) (Fin 0))"
| "truthy (VFloat x) = (\<not> f64_eq x (Fin 0))"
| "truthy (VStr s) = (s \<noteq> [])"
| "truthy _ = True"

text \<open>The order of UTF-8 strings is the order of their code points.\<close>

fun text_cmp :: "utext \<Rightarrow> utext \<Rightarrow> cmp_order" where
  "text_cmp [] [] = Equal"
| "text_cmp [] (y # ys) = Less"
| "text_cmp (x # xs) [] = Greater"
| "text_cmp (x # xs) (y # ys) = (if x < y then Less else if y < x then Greater else text_cmp xs ys)"

fun as_str :: "val \<Rightarrow> utext option" where
  "as_str (VStr s) = Some s"
| "as_str _ = None"

definition compare_vals :: "library \<Rightarrow> val \<Rightarrow> val \<Rightarrow> cmp_order option" where
  "compare_vals lib a b =
     (if a = VNull \<or> b = VNull then None
      else case (as_str a, as_str b) of
        (Some x, Some y) \<Rightarrow> Some (text_cmp x y)
      | _ \<Rightarrow>
          (case (as_f64 a, as_f64 b) of
             (Some x, Some y) \<Rightarrow> f64_partial_cmp x y
           | _ \<Rightarrow> Some (text_cmp (display lib a) (display lib b))))"

text \<open>\<open>like\<close>: 37 is the percent sign, 95 the underscore.\<close>

function like :: "utext \<Rightarrow> utext \<Rightarrow> bool" where
  "like t p =
     (case p of
        [] \<Rightarrow> t = []
      | c # ps \<Rightarrow>
          if c = 37 then like t ps \<or> (case t of [] \<Rightarrow> False | _ # ts \<Rightarrow> like ts p)
          else case t of
            [] \<Rightarrow> False
          | d # ts \<Rightarrow> if c = 95 \<or> c = d then like ts ps else False)"
  by pat_completeness auto
termination by (relation "measure (\<lambda>(t, p). length t + length p)") auto

declare like.simps [simp del]

section \<open>Fields\<close>

fun collect_fields :: "expr \<Rightarrow> utext list" where
  "collect_fields (Literal v) = []"
| "collect_fields (Field name) = [name]"
| "collect_fields (Unary op e) = collect_fields e"
| "collect_fields (IsNull e negated) = collect_fields e"
| "collect_fields (Binary a op b) = collect_fields a @ collect_fields b"
| "collect_fields (Like a b negated) = collect_fields a @ collect_fields b"
| "collect_fields (In e items negated) = collect_fields e @ concat (map collect_fields items)"
| "collect_fields (Call f args) = concat (map collect_fields args)"

text \<open>Sorting and removing the duplicates: each name once, in the order of its text.\<close>

fun insert_text :: "utext \<Rightarrow> utext list \<Rightarrow> utext list" where
  "insert_text x [] = [x]"
| "insert_text x (y # ys) =
     (case text_cmp x y of Less \<Rightarrow> x # y # ys | Equal \<Rightarrow> y # ys | Greater \<Rightarrow> y # insert_text x ys)"

definition fields :: "expr \<Rightarrow> utext list" where
  "fields e = foldr insert_text (collect_fields e) []"

section \<open>Function calls\<close>

definition float_val :: "f64 option \<Rightarrow> val" where
  "float_val v = (case v of Some x \<Rightarrow> if f64_is_finite x then VFloat x else VNull | None \<Rightarrow> VNull)"

definition number_val :: "f64 option \<Rightarrow> val" where
  "number_val v = (case v of Some x \<Rightarrow> number x | None \<Rightarrow> VNull)"

definition text_val :: "utext option \<Rightarrow> val" where
  "text_val s = (case s of Some t \<Rightarrow> VStr t | None \<Rightarrow> VNull)"

definition argument :: "val list \<Rightarrow> nat \<Rightarrow> val" where
  "argument args i = (if i < length args then args ! i else VNull)"

definition round_fn :: "library \<Rightarrow> val list \<Rightarrow> val" where
  "round_fn lib args =
     (let digits = f64_to_i32 (case as_f64 (argument args 1) of Some d \<Rightarrow> d | None \<Rightarrow> Fin 0);
          factor = powi_ten lib digits;
          v = map_option (\<lambda>v. f64_div (to_integral half_away (f64_mul v factor)) factor) (as_f64 (argument args 0)) in
      if digits \<le> 0 then number_val v else float_val v)"

definition call :: "library \<Rightarrow> utext \<Rightarrow> val list \<Rightarrow> expr_error + val" where
  "call lib name args =
     (let num = as_f64 (argument args 0); str = as_str (argument args 0) in
      if name = ascii ''abs'' then Ok (float_val (map_option f64_abs num))
      else if name = ascii ''round'' then Ok (round_fn lib args)
      else if name = ascii ''floor'' then Ok (number_val (map_option (to_integral floor) num))
      else if name = ascii ''ceil'' then Ok (number_val (map_option (to_integral ceiling) num))
      else if name = ascii ''sqrt'' then
        Ok (float_val (case num of Some v \<Rightarrow> if f64_le (Fin 0) v then Some (square_root lib v) else None | None \<Rightarrow> None))
      else if name = ascii ''lower'' then Ok (text_val (map_option (lowercase lib) str))
      else if name = ascii ''upper'' then Ok (text_val (map_option (uppercase lib) str))
      else if name = ascii ''length'' \<or> name = ascii ''len'' then
        Ok (case str of Some s \<Rightarrow> VInt (int (length s)) | None \<Rightarrow> VNull)
      else if name = ascii ''coalesce'' then
        Ok (case find (\<lambda>v. v \<noteq> VNull) args of Some v \<Rightarrow> v | None \<Rightarrow> VNull)
      else if name = ascii ''number'' \<or> name = ascii ''to_number'' then Ok (float_val num)
      else if name = ascii ''text'' \<or> name = ascii ''to_text'' then
        Ok (case argument args 0 of VNull \<Rightarrow> VNull | VStr s \<Rightarrow> VStr s | v \<Rightarrow> VStr (display lib v))
      else Err (UnknownFunction name))"

section \<open>Evaluation\<close>

definition text_of :: "library \<Rightarrow> val \<Rightarrow> utext" where
  "text_of lib v = (case as_str v of Some s \<Rightarrow> s | None \<Rightarrow> display lib v)"

definition holds :: "binary_op \<Rightarrow> cmp_order \<Rightarrow> bool" where
  "holds op cmp =
     (case op of
        OpEq \<Rightarrow> cmp = Equal
      | OpNe \<Rightarrow> cmp \<noteq> Equal
      | OpLt \<Rightarrow> cmp = Less
      | OpLe \<Rightarrow> cmp \<noteq> Greater
      | OpGt \<Rightarrow> cmp = Greater
      | _ \<Rightarrow> cmp \<noteq> Less)"

definition is_comparison :: "binary_op \<Rightarrow> bool" where
  "is_comparison op \<longleftrightarrow> op \<in> {OpEq, OpNe, OpLt, OpLe, OpGt, OpGe}"

definition arithmetic :: "binary_op \<Rightarrow> f64 \<Rightarrow> f64 \<Rightarrow> val" where
  "arithmetic op x y =
     (case op of
        OpAdd \<Rightarrow> number (f64_add x y)
      | OpSub \<Rightarrow> number (f64_sub x y)
      | OpMul \<Rightarrow> number (f64_mul x y)
      | OpDiv \<Rightarrow> if f64_eq y (Fin 0) then VNull else float_val (Some (f64_div x y))
      | _ \<Rightarrow> if f64_eq y (Fin 0) then VNull else number (f64_rem x y))"

text \<open>A strict binary operator on two values.\<close>

definition binary_vals :: "library \<Rightarrow> binary_op \<Rightarrow> val \<Rightarrow> val \<Rightarrow> val" where
  "binary_vals lib op left right =
     (if is_comparison op then
        VBool (case compare_vals lib left right of None \<Rightarrow> False | Some cmp \<Rightarrow> holds op cmp)
      else case (op, left) of
        (OpAdd, VStr s) \<Rightarrow> VStr (s @ text_of lib right)
      | _ \<Rightarrow>
          (case (as_f64 left, as_f64 right) of
             (Some x, Some y) \<Rightarrow> arithmetic op x y
           | _ \<Rightarrow> VNull))"

definition like_vals :: "library \<Rightarrow> val \<Rightarrow> val \<Rightarrow> bool \<Rightarrow> expr_error + val" where
  "like_vals lib v pattern negated =
     (if v = VNull \<or> pattern = VNull then Ok (VBool False)
      else case pattern of
        VStr p \<Rightarrow> Ok (VBool (like (text_of lib v) p \<noteq> negated))
      | _ \<Rightarrow> Err LikeNeedsString)"

fun eval :: "library \<Rightarrow> (utext \<Rightarrow> val option) \<Rightarrow> expr \<Rightarrow> expr_error + val"
and eval_found :: "library \<Rightarrow> (utext \<Rightarrow> val option) \<Rightarrow> val \<Rightarrow> expr list \<Rightarrow> expr_error + bool"
and eval_args :: "library \<Rightarrow> (utext \<Rightarrow> val option) \<Rightarrow> expr list \<Rightarrow> expr_error + val list" where
  "eval lib properties (Literal v) = Ok v"
| "eval lib properties (Field name) =
     (case properties name of None \<Rightarrow> Err (UnknownField name) | Some v \<Rightarrow> Ok v)"
| "eval lib properties (Unary op e) =
     and_then (eval lib properties e) (\<lambda>v. Ok (
       case op of
         OpNot \<Rightarrow> VBool (\<not> truthy v)
       | OpNeg \<Rightarrow> number_val (map_option f64_neg (as_f64 v))))"
| "eval lib properties (Binary a op b) =
     and_then (eval lib properties a) (\<lambda>left.
       if op = OpAnd \<and> \<not> truthy left then Ok (VBool False)
       else if op = OpOr \<and> truthy left then Ok (VBool True)
       else and_then (eval lib properties b) (\<lambda>right.
         if op = OpAnd \<or> op = OpOr then Ok (VBool (truthy right))
         else Ok (binary_vals lib op left right)))"
| "eval lib properties (In e items negated) =
     and_then (eval lib properties e) (\<lambda>v.
       if v = VNull then Ok (VBool False)
       else and_then (eval_found lib properties v items) (\<lambda>found. Ok (VBool (found \<noteq> negated))))"
| "eval lib properties (IsNull e negated) =
     and_then (eval lib properties e) (\<lambda>v. Ok (VBool ((v = VNull) \<noteq> negated)))"
| "eval lib properties (Like e p negated) =
     and_then (eval lib properties e) (\<lambda>v.
       and_then (eval lib properties p) (\<lambda>pattern. like_vals lib v pattern negated))"
| "eval lib properties (Call f args) =
     and_then (eval_args lib properties args) (\<lambda>vs. call lib f vs)"
| "eval_found lib properties v [] = Ok False"
| "eval_found lib properties v (item # items) =
     and_then (eval lib properties item) (\<lambda>w.
       if compare_vals lib v w = Some Equal then Ok True else eval_found lib properties v items)"
| "eval_args lib properties [] = Ok []"
| "eval_args lib properties (a # args) =
     and_then (eval lib properties a) (\<lambda>v. map_ok ((#) v) (eval_args lib properties args))"

section \<open>Patterns\<close>

text \<open>What a pattern means: the text is cut into one piece per pattern character, where a percent sign
  takes any piece, an underscore one character and every other character itself.\<close>

definition fits :: "int \<Rightarrow> utext \<Rightarrow> bool" where
  "fits c piece \<longleftrightarrow> c = 37 \<or> (c = 95 \<and> length piece = 1) \<or> piece = [c]"

lemma fits_simps [simp]: "fits 37 piece" "fits 95 [d]" "fits c [c]"
  by (simp_all add: fits_def)

lemma like_if_pieces: "list_all2 fits p pieces \<Longrightarrow> like (concat pieces) p"
proof (induction p pieces rule: list_all2_induct)
  case Nil
  then show ?case by (simp add: like.simps)
next
  case (Cons c p piece pieces)
  show ?case
  proof (cases "c = 37")
    case True
    have "like (piece @ concat pieces) (c # p)"
      using Cons.IH True by (induction piece) (subst like.simps, auto)+
    then show ?thesis by simp
  next
    case False
    then obtain d where "piece = [d]" "c = 95 \<or> d = c"
      using Cons.hyps(1) by (auto simp: fits_def length_Suc_conv)
    then show ?thesis using Cons.IH False by (subst like.simps) auto
  qed
qed

lemma pieces_if_like: "like t p \<Longrightarrow> \<exists>pieces. list_all2 fits p pieces \<and> concat pieces = t"
proof (induction t p rule: like.induct)
  case (1 t p)
  show ?case
  proof (cases p)
    case Nil
    then show ?thesis using 1 by (subst (asm) like.simps) auto
  next
    case (Cons c ps)
    consider (skip) "c = 37" "like t ps" | (take) d ts where "c = 37" "t = d # ts" "like ts p"
      | (one) d ts where "c \<noteq> 37" "t = d # ts" "c = 95 \<or> c = d" "like ts ps"
      using "1.prems" Cons by (subst (asm) like.simps) (auto split: if_splits list.splits)
    then show ?thesis
    proof cases
      case skip
      then obtain pieces where "list_all2 fits ps pieces \<and> concat pieces = t" using 1(1) Cons by auto
      then show ?thesis using Cons skip by (intro exI [of _ "[] # pieces"]) auto
    next
      case take
      then obtain pieces where "list_all2 fits p pieces" "concat pieces = ts" using 1(2) [OF Cons] by blast
      then obtain q qs where "pieces = q # qs" "list_all2 fits ps qs" "q @ concat qs = ts"
        using Cons by (cases pieces) auto
      then show ?thesis using Cons take by (intro exI [of _ "(d # q) # qs"]) auto
    next
      case one
      then obtain pieces where "list_all2 fits ps pieces \<and> concat pieces = ts" using 1(3) Cons by auto
      then show ?thesis using Cons one by (intro exI [of _ "[d] # pieces"]) auto
    qed
  qed
qed

text \<open>C35: the backtracking matcher of \<open>LIKE\<close> accepts exactly the texts that can be cut into one piece
  per pattern character, each fitting its character.\<close>

theorem like_exact: "like t p \<longleftrightarrow> (\<exists>pieces. list_all2 fits p pieces \<and> concat pieces = t)"
  using like_if_pieces pieces_if_like by blast

section \<open>Fields\<close>

lemma text_cmp_Equal: "text_cmp x y = Equal \<longleftrightarrow> x = y"
  by (induction x y rule: text_cmp.induct) auto

lemma set_insert_text: "set (insert_text x ys) = insert x (set ys)"
  by (induction ys) (auto simp: text_cmp_Equal split: cmp_order.splits)

lemma set_fields: "set (fields e) = set (collect_fields e)"
proof -
  have "set (foldr insert_text xs ys) = set xs \<union> set ys" for xs ys
    by (induction xs) (auto simp: set_insert_text)
  then show ?thesis by (simp add: fields_def)
qed

lemma eval_collect_fields:
  "(\<forall>f \<in> set (collect_fields e). properties f = properties' f) \<longrightarrow>
     eval lib properties e = eval lib properties' e"
  "(\<forall>f \<in> set (concat (map collect_fields es)). properties f = properties' f) \<longrightarrow>
     eval_found lib properties v es = eval_found lib properties' v es"
  "(\<forall>f \<in> set (concat (map collect_fields es)). properties f = properties' f) \<longrightarrow>
     eval_args lib properties es = eval_args lib properties' es"
  by (induction lib properties e and lib properties v es and lib properties es
      rule: eval_eval_found_eval_args.induct)
    (auto simp: ball_Un intro!: and_then_cong)

lemma text_cmp_trans: "text_cmp x y = Less \<Longrightarrow> text_cmp y z = Less \<Longrightarrow> text_cmp x z = Less"
proof (induction x y arbitrary: z rule: text_cmp.induct)
  case (2 y ys)
  then show ?case by (cases z) auto
next
  case (4 x xs y ys)
  show ?case
  proof (cases z)
    case (Cons w ws)
    then show ?thesis using "4.prems" "4.IH" [of ws] by (simp split: if_splits)
  qed (use 4 in auto)
qed auto

lemma text_cmp_swap: "text_cmp x y = Greater \<longleftrightarrow> text_cmp y x = Less"
  by (induction x y rule: text_cmp.induct) auto

lemma sorted_insert_text:
  "sorted_wrt (\<lambda>a b. text_cmp a b = Less) ys \<Longrightarrow> sorted_wrt (\<lambda>a b. text_cmp a b = Less) (insert_text x ys)"
  by (induction ys) (auto simp: set_insert_text text_cmp_swap split: cmp_order.splits intro: text_cmp_trans)

lemma sorted_fields: "sorted_wrt (\<lambda>a b. text_cmp a b = Less) (fields e)"
proof -
  have "sorted_wrt (\<lambda>a b. text_cmp a b = Less) (foldr insert_text xs [])" for xs
    by (induction xs) (auto simp: sorted_insert_text)
  then show ?thesis by (simp add: fields_def)
qed

text \<open>Evaluation reports a field as unknown only when the expression names it and the feature lacks
  it.\<close>

lemma call_known: "call lib f vs \<noteq> Err (UnknownField name)"
  by (simp add: call_def Let_def)

lemma like_vals_known: "like_vals lib v p negated \<noteq> Err (UnknownField name)"
  by (simp add: like_vals_def split: val.splits)

lemma eval_unknown_field:
  "eval lib properties e = Err (UnknownField name) \<longrightarrow> name \<in> set (collect_fields e) \<and> properties name = None"
  "eval_found lib properties v es = Err (UnknownField name) \<longrightarrow>
     name \<in> set (concat (map collect_fields es)) \<and> properties name = None"
  "eval_args lib properties es = Err (UnknownField name) \<longrightarrow>
     name \<in> set (concat (map collect_fields es)) \<and> properties name = None"
  by (induction lib properties e and lib properties v es and lib properties es
      rule: eval_eval_found_eval_args.induct)
    (auto simp: result_simps call_known like_vals_known
      split: option.splits if_splits)

text \<open>C38: the fields an expression reports are what its value depends on: they are sorted without
  repetition, two features that agree on them give the same result, and an unknown field is
  reported only for one of them that the feature lacks.\<close>

theorem fields_exact:
  "sorted_wrt (\<lambda>a b. text_cmp a b = Less) (fields e) \<and>
   ((\<forall>f \<in> set (fields e). properties f = properties' f) \<longrightarrow> eval lib properties e = eval lib properties' e) \<and>
   (eval lib properties e = Err (UnknownField name) \<longrightarrow> name \<in> set (fields e) \<and> properties name = None)"
  using sorted_fields eval_collect_fields(1) eval_unknown_field(1) by (simp add: set_fields)

definition plain_library :: library where
  "plain_library = \<lparr>display = (\<lambda>v. []), lowercase = map cp_lower, uppercase = map cp_upper,
     square_root = (\<lambda>x. x), powi_ten = (\<lambda>n. Fin 1)\<rparr>"

theorem fields_exact_witness:
  "fields (Binary (Field (ascii ''b'')) OpLt (Field (ascii ''a''))) = [ascii ''a'', ascii ''b''] \<and>
   eval plain_library [ascii ''a'' \<mapsto> VInt 3] (Binary (Field (ascii ''b'')) OpLt (Field (ascii ''a''))) =
     Err (UnknownField (ascii ''b'')) \<and>
   ascii ''b'' \<in> set (fields (Binary (Field (ascii ''b'')) OpLt (Field (ascii ''a''))))"
proof -
  let ?e = "Binary (Field (ascii ''b'')) OpLt (Field (ascii ''a''))"
  have "eval plain_library [ascii ''a'' \<mapsto> VInt 3] ?e = Err (UnknownField (ascii ''b''))"
    "fields ?e = [ascii ''a'', ascii ''b'']"
    by (simp_all add: ascii_def fields_def)
  then show ?thesis
    using fields_exact [of ?e "[ascii ''a'' \<mapsto> VInt 3]" "[ascii ''a'' \<mapsto> VInt 3]" plain_library "ascii ''b''"]
    by blast
qed

section \<open>Values stay JSON values\<close>

fun json_val :: "val \<Rightarrow> bool" where
  "json_val (VFloat x) = f64_is_finite x"
| "json_val (VArr vs) = list_all json_val vs"
| "json_val (VObj fs) = list_all (\<lambda>(k, v). json_val v) fs"
| "json_val _ = True"

fun json_literals :: "expr \<Rightarrow> bool" where
  "json_literals (Literal v) = json_val v"
| "json_literals (Field name) = True"
| "json_literals (Unary op e) = json_literals e"
| "json_literals (Binary a op b) = (json_literals a \<and> json_literals b)"
| "json_literals (In e items negated) = (json_literals e \<and> list_all json_literals items)"
| "json_literals (IsNull e negated) = json_literals e"
| "json_literals (Like e p negated) = (json_literals e \<and> json_literals p)"
| "json_literals (Call f args) = list_all json_literals args"

lemma json_constructors [simp]:
  "json_val (number x)" "json_val (float_val v)" "json_val (number_val v)" "json_val (text_val t)"
  by (auto simp: number_def float_val_def number_val_def text_val_def split: option.splits)

lemma json_binary: "json_val (binary_vals lib op a b)"
  by (auto simp: binary_vals_def arithmetic_def split: option.splits binary_op.splits val.splits)

lemma json_argument: "list_all json_val vs \<Longrightarrow> json_val (argument vs i)"
  by (simp add: argument_def list_all_length)

lemma json_coalesce: "list_all json_val vs \<Longrightarrow> find p vs = Some v \<Longrightarrow> json_val v"
  by (auto simp: find_Some_iff list_all_length)

lemma json_call: "list_all json_val vs \<Longrightarrow> call lib f vs = Ok v \<Longrightarrow> json_val v"
  by (auto simp: call_def Let_def round_fn_def json_coalesce json_argument split: if_splits option.splits val.splits)

lemma eval_json:
  "(\<forall>f w. properties f = Some w \<longrightarrow> json_val w) \<Longrightarrow> json_literals e \<Longrightarrow> eval lib properties e = Ok r \<Longrightarrow> json_val r"
  "eval_found lib properties v es = Ok b \<Longrightarrow> True"
  "(\<forall>f w. properties f = Some w \<longrightarrow> json_val w) \<Longrightarrow> list_all json_literals es \<Longrightarrow>
     eval_args lib properties es = Ok rs \<Longrightarrow> list_all json_val rs"
proof (induction lib properties e and lib properties v es and lib properties es
    arbitrary: r and and rs rule: eval_eval_found_eval_args.induct)
  case (8 lib properties f args)
  then show ?case by (auto simp: result_simps dest: json_call)
next
  case (3 lib properties op e)
  then show ?case by (cases op) (auto simp: result_simps)
qed (auto simp: result_simps json_binary like_vals_def split: option.splits if_splits val.splits)

text \<open>Evaluation stays within JSON: with JSON values in the feature and in the literals, every value
  it returns is one, so no result is NaN or infinite, whatever the library functions return.\<close>

theorem eval_json_val:
  assumes "\<forall>f w. properties f = Some w \<longrightarrow> json_val w" "json_literals e" "eval lib properties e = Ok r"
  shows "json_val r"
  using assms by (rule eval_json(1))

theorem eval_json_val_witness:
  "eval plain_library [ascii ''a'' \<mapsto> VInt 3] (Binary (Field (ascii ''a'')) OpDiv (Literal (VInt 0))) = Ok VNull \<and>
   json_val VNull"
proof -
  have "eval plain_library [ascii ''a'' \<mapsto> VInt 3] (Binary (Field (ascii ''a'')) OpDiv (Literal (VInt 0))) = Ok VNull"
    by (simp add: binary_vals_def is_comparison_def arithmetic_def f64_round_def)
  moreover from this have "json_val VNull" 
    by (rule eval_json_val [rotated 2]) auto
  ultimately show ?thesis by simp
qed

text \<open>Arithmetic on null gives null, except that a string takes the text of null.\<close>

lemma null_arithmetic:
  assumes "op \<in> {OpAdd, OpSub, OpMul, OpDiv, OpRem}"
  shows "binary_vals lib op VNull v = VNull"
    and "op \<noteq> OpAdd \<or> as_str v = None \<Longrightarrow> binary_vals lib op v VNull = VNull"
  using assms
  by (simp_all add: binary_vals_def is_comparison_def split: binary_op.splits val.splits option.splits) auto

lemma text_plus_null: "binary_vals lib OpAdd (VStr s) VNull = VStr (s @ display lib VNull)"
  by (simp add: binary_vals_def is_comparison_def text_of_def)

end
