(* ===== verification/Walk_Network.thy ===== *)
theory Walk_Network
  imports Json F64_More "HOL-Library.While_Combinator"
begin

text \<open>
  The walk network (\<open>genegis-network/src/lib.rs\<close>): a routable graph read from GeoJSON lines, snapping,
  and travel times by Dijkstra's loop over binary64 costs. JSON parsing, the cosine, the conversion
  to radians and the square root are parameters; \<open>BinaryHeap::pop\<close> removes a greatest entry, and which
  one among equal entries is the parameter \<open>pick\<close>. The loop is a \<^const>\<open>while_option\<close>, whose value
  \<^const>\<open>None\<close> means that it runs for ever.
\<close>

section \<open>Graphs\<close>

type_synonym lonlat = "f64 \<times> f64"
type_synonym arc = "u32 \<times> f64"

record walk_graph =
  wg_nodes :: "lonlat list"
  wg_adjacency :: "arc list list"
  wg_edge_count :: nat
  wg_total_length_m :: f64
  wg_walk_speed_m_per_min :: f64

datatype network_error =
    NetworkInvalid string
  | NetworkRouting string
  | RouteUnreachable u32 u32
  | BadThreshold f64
  | BadFactor f64
  | NetworkPanic

record geometry_math =
  gm_cos :: "f64 \<Rightarrow> f64"
  gm_to_radians :: "f64 \<Rightarrow> f64"
  gm_sqrt :: "f64 \<Rightarrow> f64"

definition METERS_PER_DEG_LAT :: f64 where
  "METERS_PER_DEG_LAT = Fin 111320"

definition meters_per_deg_lon :: "geometry_math \<Rightarrow> f64 \<Rightarrow> f64" where
  "meters_per_deg_lon gm lat = f64_mul METERS_PER_DEG_LAT (gm_cos gm (gm_to_radians gm lat))"

definition segment_length_m :: "geometry_math \<Rightarrow> lonlat \<Rightarrow> lonlat \<Rightarrow> f64" where
  "segment_length_m gm from to =
     (let dlon = f64_mul (f64_abs (f64_sub (fst to) (fst from)))
            (meters_per_deg_lon gm (f64_div (f64_add (snd from) (snd to)) (Fin 2)));
          dlat = f64_mul (f64_abs (f64_sub (snd to) (snd from))) METERS_PER_DEG_LAT
      in gm_sqrt gm (f64_add (f64_mul dlon dlon) (f64_mul dlat dlat)))"

section \<open>Reading a network\<close>

fun json_as_f64 :: "json \<Rightarrow> f64 option" where
  "json_as_f64 (JInt i) = Some (f64_round False (of_int i))"
| "json_as_f64 (JFloat x) = Some x"
| "json_as_f64 _ = None"

fun json_str :: "json \<Rightarrow> string option" where
  "json_str (JStr s) = Some s"
| "json_str _ = None"

fun json_array :: "json \<Rightarrow> json list option" where
  "json_array (JArr vs) = Some vs"
| "json_array _ = None"

definition get_with :: "(json \<Rightarrow> 'a option) \<Rightarrow> json \<Rightarrow> string \<Rightarrow> 'a option" where
  "get_with read v k = Option.bind (json_get v k) read"

record network_builder =
  nb_nodes :: "lonlat list"
  nb_index :: "((int \<times> int) \<times> u32) list"
  nb_edges :: "((u32 \<times> u32) \<times> f64) list"
  nb_total :: f64

definition quantize :: "f64 \<Rightarrow> int" where
  "quantize value = f64_to_i64 (to_integral half_away (f64_mul value (Fin 1000000)))"

text \<open>The node of a coordinate: an earlier one with the same quantised key, or a new one.\<close>

definition intern_node :: "network_builder \<Rightarrow> f64 \<Rightarrow> f64 \<Rightarrow> network_builder \<times> u32" where
  "intern_node b lon lat =
     (let key = (quantize lon, quantize lat) in
      case map_of (nb_index b) key of
        Some existing \<Rightarrow> (b, existing)
      | None \<Rightarrow>
          let index = of_nat (length (nb_nodes b)) in
          (b\<lparr>nb_nodes := nb_nodes b @ [(lon, lat)], nb_index := (key, index) # nb_index b\<rparr>, index))"

definition segment_cost :: "f64 \<Rightarrow> f64 option \<Rightarrow> f64 \<Rightarrow> f64 \<Rightarrow> f64" where
  "segment_cost walk_speed declared segments len =
     (case declared of
        Some minutes \<Rightarrow> f64_div minutes (f64_max segments (Fin 1))
      | None \<Rightarrow> f64_div len walk_speed)"

definition add_segment ::
  "geometry_math \<Rightarrow> f64 \<Rightarrow> f64 option \<Rightarrow> f64 \<Rightarrow> network_builder \<Rightarrow> u32 \<Rightarrow> u32 \<Rightarrow> network_builder" where
  "add_segment gm walk_speed declared segments b from index =
     (let len = segment_length_m gm (nb_nodes b ! unat from) (nb_nodes b ! unat index) in
      b\<lparr>nb_edges := nb_edges b @ [((from, index), segment_cost walk_speed declared segments len)],
        nb_total := f64_add (nb_total b) len\<rparr>)"

definition add_point ::
  "geometry_math \<Rightarrow> f64 \<Rightarrow> f64 option \<Rightarrow> f64 \<Rightarrow> network_builder \<Rightarrow> u32 option \<Rightarrow> f64 \<Rightarrow> f64 \<Rightarrow>
   network_builder \<times> u32 option" where
  "add_point gm walk_speed declared segments b previous lon lat =
     (case intern_node b lon lat of (b', index) \<Rightarrow>
        (case previous of
           None \<Rightarrow> b'
         | Some from \<Rightarrow> add_segment gm walk_speed declared segments b' from index, Some index))"

definition add_coordinate ::
  "geometry_math \<Rightarrow> f64 \<Rightarrow> f64 option \<Rightarrow> f64 \<Rightarrow> network_builder \<times> u32 option \<Rightarrow> json \<Rightarrow>
   network_error + network_builder \<times> u32 option" where
  "add_coordinate gm walk_speed declared segments s coord =
     and_then (ok_or (json_array coord) (NetworkInvalid ''coordinate pair expected'')) (\<lambda>values.
     and_then (ok_or (case values of [] \<Rightarrow> None | v # _ \<Rightarrow> json_as_f64 v) (NetworkInvalid ''longitude missing'')) (\<lambda>lon.
     and_then (ok_or (case values of _ # v # _ \<Rightarrow> json_as_f64 v | _ \<Rightarrow> None) (NetworkInvalid ''latitude missing'')) (\<lambda>lat.
     Ok (add_point gm walk_speed declared segments (fst s) (snd s) lon lat))))"

definition add_feature ::
  "geometry_math \<Rightarrow> f64 \<Rightarrow> network_builder \<Rightarrow> json \<Rightarrow> network_error + network_builder" where
  "add_feature gm walk_speed b feature =
     and_then (ok_or (json_get feature ''geometry'') (NetworkInvalid ''feature without geometry'')) (\<lambda>geometry.
     if get_with json_str geometry ''type'' \<noteq> Some ''LineString'' then Ok b
     else
       and_then (ok_or (get_with json_array geometry ''coordinates'')
           (NetworkInvalid ''LineString without coordinates'')) (\<lambda>coords.
       let declared = Option.bind (json_get feature ''properties'') (\<lambda>props. get_with json_as_f64 props ''walk_min'');
           segments = f64_round False (of_nat (length coords - 1)) in
       map_ok fst (try_fold (add_coordinate gm walk_speed declared segments) (b, None) coords)))"

definition link_edge :: "arc list list \<Rightarrow> (u32 \<times> u32) \<times> f64 \<Rightarrow> arc list list" where
  "link_edge adjacency = (\<lambda>((from, to), cost).
     let a = adjacency[unat from := adjacency ! unat from @ [(to, cost)]] in
     a[unat to := a ! unat to @ [(from, cost)]])"

definition from_geojson_str ::
  "(string \<Rightarrow> string + json) \<Rightarrow> geometry_math \<Rightarrow> string \<Rightarrow> network_error + walk_graph" where
  "from_geojson_str from_str gm text =
     and_then (map_err NetworkInvalid (from_str text)) (\<lambda>parsed.
     and_then (reject (get_with json_str parsed ''type'' \<noteq> Some ''FeatureCollection'')
       (NetworkInvalid ''expected a FeatureCollection of LineString features'')) (\<lambda>_.
     let walk_speed = (case get_with json_as_f64 parsed ''walk_speed_m_per_min'' of Some v \<Rightarrow> v | None \<Rightarrow> Fin 80) in
     and_then (reject (f64_le walk_speed (Fin 0)) (NetworkInvalid ''non-positive walk speed'')) (\<lambda>_.
     and_then (ok_or (get_with json_array parsed ''features'') (NetworkInvalid ''missing features array'')) (\<lambda>features.
     and_then (try_fold (add_feature gm walk_speed)
       \<lparr>nb_nodes = [], nb_index = [], nb_edges = [], nb_total = Fin 0\<rparr> features) (\<lambda>b.
     and_then (reject (nb_nodes b = [] \<or> nb_edges b = [])
       (NetworkInvalid ''network produced no routable nodes or edges'')) (\<lambda>_.
     Ok \<lparr>wg_nodes = nb_nodes b,
         wg_adjacency = foldl link_edge (replicate (length (nb_nodes b)) []) (nb_edges b),
         wg_edge_count = length (nb_edges b), wg_total_length_m = nb_total b,
         wg_walk_speed_m_per_min = walk_speed\<rparr>))))))"

definition node_count :: "walk_graph \<Rightarrow> nat" where
  "node_count g = length (wg_nodes g)"

definition adjacent :: "walk_graph \<Rightarrow> u32 \<Rightarrow> arc list" where
  "adjacent g v = wg_adjacency g ! unat v"

definition total_length_km :: "walk_graph \<Rightarrow> f64" where
  "total_length_km g = f64_div (wg_total_length_m g) (Fin 1000)"

section \<open>Snapping\<close>

definition snap_distance :: "f64 \<Rightarrow> f64 \<Rightarrow> f64 \<Rightarrow> lonlat \<Rightarrow> f64" where
  "snap_distance lat_scale px py = (\<lambda>(lon, lat).
     let dx = f64_sub (f64_mul lon lat_scale) px; dy = f64_sub (f64_mul lat METERS_PER_DEG_LAT) py in
     f64_add (f64_mul dx dx) (f64_mul dy dy))"

fun snap_scan :: "(lonlat \<Rightarrow> f64) \<Rightarrow> nat \<Rightarrow> u32 option \<times> f64 \<Rightarrow> lonlat list \<Rightarrow> u32 option \<times> f64" where
  "snap_scan metric index best [] = best"
| "snap_scan metric index best (p # ps) =
     snap_scan metric (Suc index) (if f64_lt (metric p) (snd best) then (Some (of_nat index), metric p) else best) ps"

definition snap_node :: "geometry_math \<Rightarrow> walk_graph \<Rightarrow> lonlat \<Rightarrow> network_error + u32" where
  "snap_node gm g point =
     (let lat_scale = f64_max (meters_per_deg_lon gm (snd point)) (f64_lit (1 / 1000000000));
          px = f64_mul (fst point) lat_scale; py = f64_mul (snd point) METERS_PER_DEG_LAT in
      ok_or (fst (snap_scan (snap_distance lat_scale px py) 0 (None, Inf False) (wg_nodes g)))
        (NetworkRouting ''graph has no nodes''))"

section \<open>Travel times\<close>

record queue_entry =
  qe_cost :: f64
  qe_node :: u32

text \<open>\<open>Ord\<close> for queue entries: the greatest has the lowest cost, then the highest node.\<close>

definition entry_cmp :: "queue_entry \<Rightarrow> queue_entry \<Rightarrow> cmp_order" where
  "entry_cmp a b =
     (case f64_partial_cmp (qe_cost b) (qe_cost a) of
        Some Less \<Rightarrow> Less
      | Some Greater \<Rightarrow> Greater
      | _ \<Rightarrow> if qe_node a < qe_node b then Less else if qe_node b < qe_node a then Greater else Equal)"

text \<open>What \<open>BinaryHeap::pop\<close> promises about the entry it removes, where the order is total.\<close>

definition heap_choice :: "(queue_entry list \<Rightarrow> queue_entry) \<Rightarrow> bool" where
  "heap_choice pick \<longleftrightarrow>
     (\<forall>heap. heap \<noteq> [] \<and> (\<forall>e \<in> set heap. qe_cost e \<noteq> NaN) \<longrightarrow>
        pick heap \<in> set heap \<and> (\<forall>e \<in> set heap. entry_cmp e (pick heap) \<noteq> Greater))"

type_synonym route_state = "f64 option list \<times> queue_entry list"

definition improves :: "f64 \<Rightarrow> f64 option \<Rightarrow> bool" where
  "improves next known = (case known of None \<Rightarrow> True | Some k \<Rightarrow> f64_lt next k)"

definition relax_arc :: "f64 \<Rightarrow> route_state \<Rightarrow> arc \<Rightarrow> route_state" where
  "relax_arc cost = (\<lambda>(distances, heap) (neighbour, edge_cost).
     let next = f64_add cost edge_cost in
     if improves next (distances ! unat neighbour)
     then (distances[unat neighbour := Some next], heap @ [\<lparr>qe_cost = next, qe_node = neighbour\<rparr>])
     else (distances, heap))"

definition stale :: "f64 option list \<Rightarrow> queue_entry \<Rightarrow> bool" where
  "stale distances e =
     (case distances ! unat (qe_node e) of None \<Rightarrow> False | Some known \<Rightarrow> f64_lt known (qe_cost e))"

definition route_step :: "(queue_entry list \<Rightarrow> queue_entry) \<Rightarrow> walk_graph \<Rightarrow> route_state \<Rightarrow> route_state" where
  "route_step pick g = (\<lambda>(distances, heap).
     let entry = pick heap; rest = remove1 entry heap in
     if stale distances entry then (distances, rest)
     else foldl (relax_arc (qe_cost entry)) (distances, rest) (adjacent g (qe_node entry)))"

definition travel_times_from ::
  "(queue_entry list \<Rightarrow> queue_entry) \<Rightarrow> walk_graph \<Rightarrow> u32 \<Rightarrow> (network_error + f64 option list) option" where
  "travel_times_from pick g origin =
     (if unat origin < node_count g then
        map_option (\<lambda>(distances, _). Ok distances)
          (while_option (\<lambda>(_, heap). heap \<noteq> []) (route_step pick g)
            ((replicate (node_count g) None)[unat origin := Some (Fin 0)],
             [\<lparr>qe_cost = Fin 0, qe_node = origin\<rparr>]))
      else Some (Err NetworkPanic))"

definition time_at :: "f64 option list \<Rightarrow> u32 \<Rightarrow> f64 option" where
  "time_at minutes_to v = (if unat v < length minutes_to then minutes_to ! unat v else None)"

definition route_minutes ::
  "(queue_entry list \<Rightarrow> queue_entry) \<Rightarrow> walk_graph \<Rightarrow> u32 \<Rightarrow> u32 \<Rightarrow> (network_error + f64) option" where
  "route_minutes pick g from to =
     map_option (\<lambda>r. and_then r (\<lambda>minutes_to. ok_or (time_at minutes_to to) (RouteUnreachable from to)))
       (travel_times_from pick g from)"

definition reached_by :: "f64 \<Rightarrow> f64 option \<Rightarrow> bool" where
  "reached_by threshold time = (case time of None \<Rightarrow> False | Some minutes \<Rightarrow> f64_le minutes threshold)"

definition cumulative_opportunities ::
  "(queue_entry list \<Rightarrow> queue_entry) \<Rightarrow> walk_graph \<Rightarrow> u32 \<Rightarrow> u32 list \<Rightarrow> f64 \<Rightarrow> (network_error + nat) option" where
  "cumulative_opportunities pick g origin poi_nodes threshold_minutes =
     map_option (map_ok (\<lambda>minutes_to. length (filter (\<lambda>poi. reached_by threshold_minutes (time_at minutes_to poi)) poi_nodes)))
       (travel_times_from pick g origin)"

section \<open>Hazard factors\<close>

type_synonym hazard = "lonlat \<Rightarrow> lonlat \<Rightarrow> u32 \<Rightarrow> u32 \<Rightarrow> f64"

text \<open>The slots of one adjacency list in order; the factor is a pure function. An error stops the loop
  with the slots before it already scaled.\<close>

definition exceeds_one :: "f64 \<Rightarrow> bool" where
  "exceeds_one f = f64_lt (f64_add (Fin 1) (f64_lit (1 / 1000000000000))) f"

fun scale_slots :: "hazard \<Rightarrow> lonlat list \<Rightarrow> nat \<Rightarrow> arc list \<Rightarrow> arc list \<times> (network_error + nat)" where
  "scale_slots factor nodes from_index [] = ([], Ok 0)"
| "scale_slots factor nodes from_index ((to, cost) # slots) =
     (let f = factor (nodes ! from_index) (nodes ! unat to) (of_nat from_index) to in
      if \<not> f64_is_finite f \<or> f64_lt f (Fin 0) then ((to, cost) # slots, Err (BadFactor f))
      else case scale_slots factor nodes from_index slots of
        (slots', r) \<Rightarrow>
          ((to, f64_mul cost f) # slots',
           map_ok (\<lambda>n. if exceeds_one f \<and> from_index < unat to then Suc n else n) r))"

fun scale_rows :: "hazard \<Rightarrow> lonlat list \<Rightarrow> nat \<Rightarrow> arc list list \<Rightarrow> arc list list \<times> (network_error + nat)" where
  "scale_rows factor nodes from_index [] = ([], Ok 0)"
| "scale_rows factor nodes from_index (slots # rows) =
     (case scale_slots factor nodes from_index slots of
        (slots', Inl e) \<Rightarrow> (slots' # rows, Err e)
      | (slots', Inr n) \<Rightarrow>
          (case scale_rows factor nodes (Suc from_index) rows of
             (rows', r) \<Rightarrow> (slots' # rows', map_ok (\<lambda>m. n + m) r)))"

definition scale_edge_costs :: "hazard \<Rightarrow> walk_graph \<Rightarrow> walk_graph \<times> (network_error + nat)" where
  "scale_edge_costs factor g =
     (case scale_rows factor (wg_nodes g) 0 (wg_adjacency g) of
        (rows, r) \<Rightarrow> (g\<lparr>wg_adjacency := rows\<rparr>, r))"

end
