(* ===== verification/Walk_Valid.thy ===== *)
theory Walk_Valid
  imports Walk_Network
begin

text \<open>
  Travel times are shortest routes, with the rounding of every addition taken into account: the loop
  ends after at most one expansion per node, and its result is the least cost over all routes, where
  the cost of a route is the floating-point sum along it.
\<close>

section \<open>Routes\<close>

inductive route :: "walk_graph \<Rightarrow> nat \<Rightarrow> nat \<Rightarrow> f64 \<Rightarrow> bool" for g origin where
  route_start: "route g origin origin (Fin 0)"
| route_arc: "route g origin u c \<Longrightarrow> (v, w) \<in> set (wg_adjacency g ! u) \<Longrightarrow> route g origin (unat v) (f64_add c w)"

definition walkable :: "walk_graph \<Rightarrow> bool" where
  "walkable g \<longleftrightarrow> length (wg_adjacency g) = node_count g \<and>
     list_all (list_all (\<lambda>(v, w). unat v < node_count g \<and> cost_ok w)) (wg_adjacency g)"

lemma walkable_arc:
  assumes "walkable g" "u < node_count g" "(v, w) \<in> set (wg_adjacency g ! u)"
  shows "unat v < node_count g" "cost_ok w"
  using assms by (auto simp: walkable_def list_all_iff)

lemma route_ok:
  assumes "walkable g" "origin < node_count g" "route g origin v c"
  shows "v < node_count g \<and> cost_ok c"
  using assms(3) by induction (use assms walkable_arc [OF assms(1)] cost_ok_add in auto)

section \<open>Relaxation\<close>

definition live :: "f64 option list \<Rightarrow> queue_entry list \<Rightarrow> nat \<Rightarrow> bool" where
  "live d h x \<longleftrightarrow> (\<exists>e \<in> set h. unat (qe_node e) = x \<and> \<not> stale d e)"

definition descending :: "queue_entry list \<Rightarrow> bool" where
  "descending h \<longleftrightarrow> sorted_wrt (\<lambda>e e'. qe_node e = qe_node e' \<longrightarrow> f64_lt (qe_cost e') (qe_cost e)) h"

definition queue_ok :: "f64 option list \<Rightarrow> queue_entry list \<Rightarrow> bool" where
  "queue_ok d h \<longleftrightarrow> descending h \<and>
     (\<forall>e \<in> set h. unat (qe_node e) < length d \<and> cost_ok (qe_cost e) \<and>
        (\<exists>t. d ! unat (qe_node e) = Some t \<and> f64_le t (qe_cost e)))"

lemma f64_lt_irrefl [simp]: "\<not> f64_lt x x"
  by (simp add: f64_lt_def)

lemma f64_lt_asym: "f64_lt x y \<Longrightarrow> f64_le y x \<Longrightarrow> False"
  by (auto simp: f64_lt_def f64_le_def)

text \<open>The effect of relaxing a list of arcs from a node reached at cost \<open>c\<close>.\<close>

definition relaxed ::
  "f64 \<Rightarrow> arc list \<Rightarrow> route_state \<Rightarrow> route_state \<Rightarrow> bool" where
  "relaxed c arcs = (\<lambda>(d, h) (d', h'). length d' = length d \<and> queue_ok d' h' \<and>
     (\<exists>new. h' = h @ new \<and> length new \<le> length arcs \<and>
        (\<forall>e \<in> set new. f64_le c (qe_cost e) \<and> improves (qe_cost e) (d ! unat (qe_node e)) \<and>
           (\<exists>w. (qe_node e, w) \<in> set arcs \<and> qe_cost e = f64_add c w)) \<and>
        (\<forall>x < length d. d' ! x \<noteq> d ! x \<longrightarrow>
           (\<exists>e \<in> set new. unat (qe_node e) = x \<and> d' ! x = Some (qe_cost e)))) \<and>
     (\<forall>x < length d. \<forall>t. d ! x = Some t \<longrightarrow>
        (\<exists>t'. d' ! x = Some t' \<and> (t' = t \<or> f64_lt t' t))) \<and>
     (\<forall>(v, w) \<in> set arcs. \<exists>t'. d' ! unat v = Some t' \<and> f64_le t' (f64_add c w)))"

lemma relaxed_change:
  assumes "relaxed c arcs (d, h) (d', h')" "x < length d" "d' ! x \<noteq> d ! x"
  shows "\<exists>e \<in> set h'. unat (qe_node e) = x \<and> d' ! x = Some (qe_cost e)"
  using assms unfolding relaxed_def by clarsimp blast

lemma queue_ok_push:
  assumes "queue_ok d h" "unat v < length d" "cost_ok next" "improves next (d ! unat v)"
  shows "queue_ok (d[unat v := Some next]) (h @ [\<lparr>qe_cost = next, qe_node = v\<rparr>])"
proof -
  have "f64_lt next (qe_cost e)" if e: "e \<in> set h" "qe_node e = v" for e
  proof -
    obtain t where "d ! unat v = Some t" "f64_le t (qe_cost e)" using assms(1) e by (auto simp: queue_ok_def)
    then show ?thesis using assms(4) f64_lt_le_trans [of "next" t] by (simp add: improves_def)
  qed
  moreover have "\<exists>t. d[unat v := Some next] ! unat (qe_node e) = Some t \<and> f64_le t (qe_cost e)"
    if "e \<in> set h" for e
    using assms(1,2) that calculation [of e] f64_lt_imp_le
    by (cases "qe_node e = v") (auto simp: queue_ok_def word_unat_eq_iff)
  ultimately show ?thesis
    using assms cost_not_NaN [OF assms(3)] by (auto simp: queue_ok_def descending_def sorted_wrt_append)
qed

lemma relaxed_one:
  assumes "queue_ok d h" "unat v < length d" "cost_ok c" "cost_ok w"
    and d: "\<forall>t. d ! unat v = Some t \<longrightarrow> cost_ok t"
  shows "relaxed c [(v, w)] (d, h) (relax_arc c (d, h) (v, w))"
proof (cases "improves (f64_add c w) (d ! unat v)")
  case True
  note ok = cost_ok_add [OF assms(3,4)]
  let ?e = "\<lparr>qe_cost = f64_add c w, qe_node = v\<rparr>"
  have "relax_arc c (d, h) (v, w) = (d[unat v := Some (f64_add c w)], h @ [?e])"
    using True by (simp add: relax_arc_def Let_def)
  moreover have "queue_ok (d[unat v := Some (f64_add c w)]) (h @ [?e])"
    using assms(1,2) ok True by (rule queue_ok_push)
  moreover have "\<exists>t'. d[unat v := Some (f64_add c w)] ! x = Some t' \<and> (t' = t \<or> f64_lt t' t)"
    if "x < length d" "d ! x = Some t" for x t
    using that True by (cases "x = unat v") (auto simp: improves_def)
  ultimately show ?thesis
    using assms(2) f64_le_add [OF assms(3,4)] cost_not_NaN [OF ok] True
    by (auto simp: relaxed_def nth_list_update split: if_splits intro!: exI [of _ "[?e]"])
next
  case False
  then obtain t where "d ! unat v = Some t" "\<not> f64_lt (f64_add c w) t"
    by (auto simp: improves_def split: option.splits)
  then have "f64_le t (f64_add c w)"
    using d cost_not_NaN cost_ok_add [OF assms(3,4)] by (simp add: f64_not_lt)
  then show ?thesis using False \<open>d ! unat v = Some t\<close> assms(1) by (auto simp: relaxed_def relax_arc_def)
qed

lemma relaxed_trans:
  assumes "relaxed c as s1 s2" "relaxed c bs s2 s3"
    and "\<forall>(v, w) \<in> set (as @ bs). unat v < length (fst s1)"
  shows "relaxed c (as @ bs) s1 s3"
proof -
  obtain d1 h1 d2 h2 d3 h3 where s: "s1 = (d1, h1)" "s2 = (d2, h2)" "s3 = (d3, h3)"
    by (cases s1; cases s2; cases s3) auto
  obtain n1 n2 where h: "h2 = h1 @ n1" "h3 = h2 @ n2" and len: "length n1 \<le> length as" "length n2 \<le> length bs"
    and n: "\<forall>e \<in> set n1. f64_le c (qe_cost e) \<and> improves (qe_cost e) (d1 ! unat (qe_node e)) \<and> (\<exists>w. (qe_node e, w) \<in> set as \<and> qe_cost e = f64_add c w)"
      "\<forall>e \<in> set n2. f64_le c (qe_cost e) \<and> improves (qe_cost e) (d2 ! unat (qe_node e)) \<and> (\<exists>w. (qe_node e, w) \<in> set bs \<and> qe_cost e = f64_add c w)"
    and ch: "\<forall>x < length d1. d2 ! x \<noteq> d1 ! x \<longrightarrow> (\<exists>e \<in> set n1. unat (qe_node e) = x \<and> d2 ! x = Some (qe_cost e))"
      "\<forall>x < length d1. d3 ! x \<noteq> d2 ! x \<longrightarrow> (\<exists>e \<in> set n2. unat (qe_node e) = x \<and> d3 ! x = Some (qe_cost e))"
    using assms(1,2) unfolding s relaxed_def by fastforce
  have l: "length d3 = length d1" "length d2 = length d1" "queue_ok d3 h3"
    and lower: "\<And>x t. x < length d1 \<Longrightarrow> d1 ! x = Some t \<Longrightarrow> \<exists>t'. d2 ! x = Some t' \<and> (t' = t \<or> f64_lt t' t)"
      "\<And>x t. x < length d1 \<Longrightarrow> d2 ! x = Some t \<Longrightarrow> \<exists>t'. d3 ! x = Some t' \<and> (t' = t \<or> f64_lt t' t)"
    and arcs: "\<And>v w. (v, w) \<in> set as \<Longrightarrow> \<exists>t'. d2 ! unat v = Some t' \<and> f64_le t' (f64_add c w)"
      "\<And>v w. (v, w) \<in> set bs \<Longrightarrow> \<exists>t'. d3 ! unat v = Some t' \<and> f64_le t' (f64_add c w)"
    using assms(1,2) unfolding s relaxed_def by auto
  have "\<exists>e \<in> set (n1 @ n2). unat (qe_node e) = x \<and> d3 ! x = Some (qe_cost e)"
    if "x < length d1" "d3 ! x \<noteq> d1 ! x" for x
    using that ch by (cases "d3 ! x = d2 ! x") fastforce+
  moreover have "\<forall>e \<in> set n2. improves (qe_cost e) (d1 ! unat (qe_node e))"
  proof
    fix e assume e: "e \<in> set n2"
    then have "unat (qe_node e) < length d1" using n(2) assms(3) s by auto
    then show "improves (qe_cost e) (d1 ! unat (qe_node e))"
      using n(2) e lower(1) [of "unat (qe_node e)"] f64_lt_imp_le f64_lt_le_trans
      by (cases "d1 ! unat (qe_node e)") (fastforce simp: improves_def)+
  qed
  moreover have "\<exists>t'. d3 ! x = Some t' \<and> (t' = t \<or> f64_lt t' t)" if "x < length d1" "d1 ! x = Some t" for x t
    using lower(1) [OF that] lower(2) [OF that(1)] f64_lt_le_trans f64_lt_imp_le by blast
  moreover have "\<exists>t'. d3 ! unat v = Some t' \<and> f64_le t' (f64_add c w)" if vw: "(v, w) \<in> set as" for v w
  proof -
    obtain t where "d2 ! unat v = Some t" "f64_le t (f64_add c w)" using arcs(1) [OF vw] by blast
    moreover have "unat v < length d1" using assms(3) vw s by auto
    ultimately show ?thesis using lower(2) [of "unat v" t] f64_le_trans f64_lt_imp_le by blast
  qed
  ultimately show ?thesis
    using l h len n arcs(2) unfolding s relaxed_def
    by (auto intro!: exI [of _ "n1 @ n2"])
qed

lemma relaxed_all:
  assumes "queue_ok d h" "cost_ok c"
    and "\<forall>(v, w) \<in> set arcs. unat v < length d \<and> cost_ok w"
    and "\<forall>x < length d. \<forall>t. d ! x = Some t \<longrightarrow> cost_ok t"
  shows "relaxed c arcs (d, h) (foldl (relax_arc c) (d, h) arcs)"
  using assms
proof (induction arcs arbitrary: d h)
  case Nil
  then show ?case by (simp add: relaxed_def)
next
  case (Cons a arcs)
  obtain v w where a: "a = (v, w)" by (cases a)
  obtain d' h' where r: "relax_arc c (d, h) a = (d', h')" by (cases "relax_arc c (d, h) a")
  have one: "relaxed c [a] (d, h) (d', h')"
    using relaxed_one [of d h v c w] Cons.prems r a by auto
  then have d': "length d' = length d" "queue_ok d' h'" by (simp_all add: relaxed_def)
  have "\<forall>x < length d'. \<forall>t. d' ! x = Some t \<longrightarrow> cost_ok t"
  proof (intro allI impI)
    fix x t assume x: "x < length d'" "d' ! x = Some t"
    show "cost_ok t"
    proof (cases "d' ! x = d ! x")
      case False
      then obtain e where "d' ! x = Some (qe_cost e)" "e \<in> set h'"
        using relaxed_change [OF one, of x] x d'(1) by metis
      then show ?thesis using d'(2) x by (auto simp: queue_ok_def)
    qed (use Cons.prems(4) x d' in auto)
  qed
  then have "relaxed c arcs (d', h') (foldl (relax_arc c) (d', h') arcs)"
    using Cons.prems d' by (intro Cons.IH) auto
  from relaxed_trans [OF one this] show ?case using Cons.prems(3) r by auto
qed

text \<open>Nodes known at a cost that is not above \<open>c\<close> are left alone.\<close>

lemma relaxed_quiet:
  assumes "relaxed c arcs (d, h) (d', h')" "x < length d" "d ! x = Some t" "f64_le t c"
  shows "d' ! x = d ! x" "live d' h' x \<longleftrightarrow> live d h x"
proof -
  obtain new where h': "h' = h @ new"
    and new: "\<forall>e \<in> set new. f64_le c (qe_cost e) \<and> improves (qe_cost e) (d ! unat (qe_node e))"
    and ch: "d' ! x \<noteq> d ! x \<longrightarrow> (\<exists>e \<in> set new. unat (qe_node e) = x)"
    using assms(1,2) unfolding relaxed_def by clarsimp blast
  have none: "unat (qe_node e) \<noteq> x" if e: "e \<in> set new" for e
  proof
    assume "unat (qe_node e) = x"
    then have "f64_lt (qe_cost e) t" using new e assms(3) by (auto simp: improves_def)
    then show False using new e assms(4) f64_lt_asym f64_le_trans by blast
  qed
  then show same: "d' ! x = d ! x" using ch by auto
  then show "live d' h' x \<longleftrightarrow> live d h x" using none h' by (auto simp: live_def stale_def)
qed

section \<open>The invariant\<close>

definition route_inv :: "walk_graph \<Rightarrow> nat \<Rightarrow> route_state \<Rightarrow> bool" where
  "route_inv g origin = (\<lambda>(d, h). length d = node_count g \<and> queue_ok d h \<and>
     (\<forall>x < node_count g. \<forall>t. d ! x = Some t \<longrightarrow> route g origin x t) \<and>
     (\<forall>e \<in> set h. route g origin (unat (qe_node e)) (qe_cost e)) \<and>
     (\<exists>t. d ! origin = Some t \<and> f64_le t (Fin 0)) \<and>
     (\<forall>x < node_count g. \<forall>t. d ! x = Some t \<and> \<not> live d h x \<longrightarrow>
        (\<forall>(v, w) \<in> set (wg_adjacency g ! x). \<exists>t'. d ! unat v = Some t' \<and> f64_le t' (f64_add t w)) \<and>
        (\<forall>e \<in> set h. f64_le t (qe_cost e))))"

definition unsettled :: "walk_graph \<Rightarrow> route_state \<Rightarrow> nat set" where
  "unsettled g = (\<lambda>(d, h). {x. x < node_count g \<and> (d ! x = None \<or> live d h x)})"

definition work_left :: "walk_graph \<Rightarrow> route_state \<Rightarrow> nat" where
  "work_left g s = length (snd s) + (\<Sum>x \<in> unsettled g s. length (wg_adjacency g ! x))"

lemma finite_unsettled [simp]: "finite (unsettled g s)"
  by (cases s) (simp add: unsettled_def)

lemma descending_remove1: "descending h \<Longrightarrow> descending (remove1 e h)"
  by (induction h) (auto simp: descending_def dest: notin_set_remove1 in_set_remove1 [THEN iffD1, rotated]
      intro: set_mp [OF set_remove1_subset])

lemma queue_ok_remove1: "queue_ok d h \<Longrightarrow> queue_ok d (remove1 e h)"
  using set_remove1_subset [of e h] by (auto simp: queue_ok_def descending_remove1)

lemma heap_choice_least:
  assumes "heap_choice pick" "h \<noteq> []" "\<forall>e \<in> set h. cost_ok (qe_cost e)"
  shows "pick h \<in> set h" "e \<in> set h \<Longrightarrow> f64_le (qe_cost (pick h)) (qe_cost e)"
proof -
  show p: "pick h \<in> set h" using assms cost_not_NaN by (simp add: heap_choice_def)
  assume e: "e \<in> set h"
  have "entry_cmp e (pick h) \<noteq> Greater" using assms e cost_not_NaN by (simp add: heap_choice_def)
  then have "\<not> f64_lt (qe_cost e) (qe_cost (pick h))"
    using f64_lt_asym f64_lt_imp_le
    by (auto simp: entry_cmp_def f64_partial_cmp_def f64_eq_def split: if_splits)
  then show "f64_le (qe_cost (pick h)) (qe_cost e)"
    using assms(3) p e cost_not_NaN by (simp add: f64_not_lt)
qed

lemma remove1_shorter: "e \<in> set h \<Longrightarrow> Suc (length (remove1 e h)) = length h"
  using length_pos_if_in_set [of e h] by (simp add: length_remove1)

lemma route_inv_skip:
  assumes inv: "route_inv g origin (d, h)" and e: "e \<in> set h" "stale d e"
  shows "route_inv g origin (d, remove1 e h)" "work_left g (d, remove1 e h) < work_left g (d, h)"
proof -
  have live: "live d (remove1 e h) x \<longleftrightarrow> live d h x" for x
    using e(2) set_remove1_subset [of e h] in_set_remove1 unfolding live_def by metis
  then show "route_inv g origin (d, remove1 e h)"
    using inv queue_ok_remove1 [of d h e] set_remove1_subset [of e h] by (fastforce simp: route_inv_def)
  have "length (remove1 e h) < length h" using remove1_shorter [OF e(1)] by simp
  then show "work_left g (d, remove1 e h) < work_left g (d, h)"
    by (simp add: work_left_def unsettled_def live)
qed

text \<open>Removing a least entry that is not stale settles its node.\<close>

lemma popped_not_live:
  assumes "queue_ok d h" "e \<in> set h" "\<not> stale d e" "\<forall>e' \<in> set h. f64_le (qe_cost e) (qe_cost e')"
  shows "\<not> live d (remove1 e h) (unat (qe_node e))"
proof
  assume "live d (remove1 e h) (unat (qe_node e))"
  then obtain e' where e': "e' \<in> set (remove1 e h)" "qe_node e' = qe_node e" "\<not> stale d e'"
    by (auto simp: live_def word_unat_eq_iff)
  obtain xs ys where h: "h = xs @ e # ys" "e \<notin> set xs" using assms(2) by (meson split_list_first)
  then have "e' \<in> set xs \<or> e' \<in> set ys" using e'(1) by (auto simp: remove1_append)
  then have "f64_lt (qe_cost e) (qe_cost e') \<or> f64_lt (qe_cost e') (qe_cost e)"
    using assms(1) e'(2) unfolding h queue_ok_def descending_def by (auto simp: sorted_wrt_append)
  moreover have "e' \<in> set h" using e'(1) set_remove1_subset [of e h] by auto
  ultimately have less: "f64_lt (qe_cost e) (qe_cost e')" using assms(4) f64_lt_asym by blast
  obtain t where "d ! unat (qe_node e) = Some t" "f64_le t (qe_cost e)" using assms(1,2) by (auto simp: queue_ok_def)
  then show False using less e'(2,3) f64_le_lt_trans [of t "qe_cost e"] by (simp add: stale_def)
qed

text \<open>Expanding a least entry that is not stale: the situation before and after.\<close>

definition expansion ::
  "walk_graph \<Rightarrow> nat \<Rightarrow> route_state \<Rightarrow> queue_entry \<Rightarrow> route_state \<Rightarrow> bool" where
  "expansion g origin = (\<lambda>(d, h) e s'. walkable g \<and> origin < node_count g \<and> route_inv g origin (d, h) \<and>
     e \<in> set h \<and> \<not> stale d e \<and> (\<forall>e' \<in> set h. f64_le (qe_cost e) (qe_cost e')) \<and>
     relaxed (qe_cost e) (wg_adjacency g ! unat (qe_node e)) (d, remove1 e h) s')"

lemma route_invD:
  assumes "route_inv g origin (d, h)"
  shows "length d = node_count g" "queue_ok d h" "\<exists>t. d ! origin = Some t \<and> f64_le t (Fin 0)"
    and "x < node_count g \<Longrightarrow> d ! x = Some t \<Longrightarrow> route g origin x t"
    and "e \<in> set h \<Longrightarrow> route g origin (unat (qe_node e)) (qe_cost e)"
    and "x < node_count g \<Longrightarrow> d ! x = Some t \<Longrightarrow> \<not> live d h x \<Longrightarrow> (v, w) \<in> set (wg_adjacency g ! x) \<Longrightarrow>
      \<exists>t'. d ! unat v = Some t' \<and> f64_le t' (f64_add t w)"
    and "x < node_count g \<Longrightarrow> d ! x = Some t \<Longrightarrow> \<not> live d h x \<Longrightarrow> e \<in> set h \<Longrightarrow> f64_le t (qe_cost e)"
proof -
  show "\<exists>t'. d ! unat v = Some t' \<and> f64_le t' (f64_add t w)"
    if "x < node_count g" "d ! x = Some t" "\<not> live d h x" "(v, w) \<in> set (wg_adjacency g ! x)"
    using assms that unfolding route_inv_def by fastforce
qed (use assms in \<open>auto simp: route_inv_def\<close>)

lemma relaxedD:
  assumes "relaxed c arcs (d, h) (d', h')"
  shows "length d' = length d" "queue_ok d' h'" "length h' \<le> length h + length arcs"
    and "e \<in> set h' \<Longrightarrow> e \<in> set h \<or> f64_le c (qe_cost e) \<and> (\<exists>w. (qe_node e, w) \<in> set arcs \<and> qe_cost e = f64_add c w)"
    and "e \<in> set h \<Longrightarrow> e \<in> set h'"
    and "x < length d \<Longrightarrow> d ! x = Some t \<Longrightarrow> f64_le t s \<Longrightarrow> \<exists>t'. d' ! x = Some t' \<and> f64_le t' s"
    and "(v, w) \<in> set arcs \<Longrightarrow> \<exists>t'. d' ! unat v = Some t' \<and> f64_le t' (f64_add c w)"
proof -
  show "\<exists>t'. d' ! x = Some t' \<and> f64_le t' s" if xt: "x < length d" "d ! x = Some t" "f64_le t s"
  proof -
    have "\<exists>t'. d' ! x = Some t' \<and> (t' = t \<or> f64_lt t' t)" using assms xt(1,2) by (simp add: relaxed_def)
    then show ?thesis using xt(3) f64_lt_imp_le f64_le_trans by blast
  qed
qed (use assms in \<open>auto simp: relaxed_def\<close>)

lemma expansionD:
  assumes "expansion g origin (d, h) e (d', h')"
  shows "walkable g" "origin < node_count g" "route_inv g origin (d, h)" "e \<in> set h" "\<not> stale d e"
    and "e' \<in> set h \<Longrightarrow> f64_le (qe_cost e) (qe_cost e')"
    and "relaxed (qe_cost e) (wg_adjacency g ! unat (qe_node e)) (d, remove1 e h) (d', h')"
  using assms by (auto simp: expansion_def)

lemma expansion_known:
  assumes "expansion g origin (d, h) e (d', h')"
  obtains t where "unat (qe_node e) < node_count g" "d ! unat (qe_node e) = Some t" "cost_ok t" "cost_ok (qe_cost e)"
    "f64_le t (qe_cost e)" "f64_le (qe_cost e) t"
proof -
  note E = expansionD [OF assms] and I = route_invD [OF expansionD(3) [OF assms]]
  obtain t where t: "d ! unat (qe_node e) = Some t" "f64_le t (qe_cost e)" "unat (qe_node e) < node_count g" "cost_ok (qe_cost e)"
    using I(1,2) E(4) by (auto simp: queue_ok_def)
  have "cost_ok t" using I(4) [OF t(3,1)] route_ok [OF E(1,2)] by blast
  moreover from this have "f64_le (qe_cost e) t"
    using E(5) t(1,4) cost_not_NaN by (simp add: stale_def f64_not_lt)
  ultimately show thesis using t that by blast
qed

text \<open>The expanded node is settled afterwards, at the time it had.\<close>

lemma expansion_done:
  assumes "expansion g origin (d, h) e (d', h')"
  shows "\<not> live d' h' (unat (qe_node e))" "d' ! unat (qe_node e) = d ! unat (qe_node e)"
proof -
  note E = expansionD [OF assms] and I = route_invD [OF expansionD(3) [OF assms]]
  have "\<not> live d (remove1 e h) (unat (qe_node e))" using I(2) E(4,5,6) by (intro popped_not_live) auto
  moreover obtain t where t: "unat (qe_node e) < node_count g" "d ! unat (qe_node e) = Some t" "f64_le t (qe_cost e)"
    using expansion_known [OF assms] by metis
  ultimately show "\<not> live d' h' (unat (qe_node e))" "d' ! unat (qe_node e) = d ! unat (qe_node e)"
    using relaxed_quiet [OF E(7) _ t(2,3)] I(1) by auto
qed

text \<open>Another node that is settled afterwards was settled before.\<close>

lemma expansion_before:
  assumes x: "expansion g origin (d, h) e (d', h')" "y < node_count g" "y \<noteq> unat (qe_node e)" "\<not> live d' h' y"
  shows "\<not> live d h y" "d' ! y = d ! y"
proof -
  note E = expansionD [OF x(1)] and I = route_invD [OF expansionD(3) [OF x(1)]]
  show same: "d' ! y = d ! y"
  proof (rule ccontr)
    assume "d' ! y \<noteq> d ! y"
    then obtain e' where "e' \<in> set h'" "unat (qe_node e') = y" "d' ! y = Some (qe_cost e')"
      using relaxed_change [OF E(7), of y] x(2) I(1) by auto
    then show False using x(4) by (auto simp: live_def stale_def)
  qed
  show "\<not> live d h y"
  proof
    assume "live d h y"
    then obtain e' where e': "e' \<in> set h" "unat (qe_node e') = y" "\<not> stale d e'" by (auto simp: live_def)
    then have "e' \<in> set (remove1 e h)" using x(3) by (metis in_set_remove1)
    then have "e' \<in> set h'" by (rule relaxedD(5) [OF E(7)])
    then show False using e' x(4) same by (auto simp: live_def stale_def)
  qed
qed

lemma expansion_le:
  assumes "expansion g origin (d, h) e (d', h')" "f64_le t (qe_cost e)" "\<And>e'. e' \<in> set h \<Longrightarrow> f64_le t (qe_cost e')"
    and "e' \<in> set h'"
  shows "f64_le t (qe_cost e')"
  using relaxedD(4) [OF expansionD(7) [OF assms(1)] assms(4)] assms(2,3) f64_le_trans set_remove1_subset [of e h]
  by blast

lemma expansion_settled:
  assumes x: "expansion g origin (d, h) e (d', h')" and y: "y < node_count g" "d' ! y = Some t" "\<not> live d' h' y"
  shows "(v, w) \<in> set (wg_adjacency g ! y) \<Longrightarrow> \<exists>t'. d' ! unat v = Some t' \<and> f64_le t' (f64_add t w)"
    and "e' \<in> set h' \<Longrightarrow> f64_le t (qe_cost e')"
proof -
  note E = expansionD [OF x] and I = route_invD [OF expansionD(3) [OF x]] and R = relaxedD [OF expansionD(7) [OF x]]
  note arc = walkable_arc [OF E(1) y(1)]
  have "((v, w) \<in> set (wg_adjacency g ! y) \<longrightarrow> (\<exists>t'. d' ! unat v = Some t' \<and> f64_le t' (f64_add t w))) \<and>
    (e' \<in> set h' \<longrightarrow> f64_le t (qe_cost e'))"
  proof (cases "y = unat (qe_node e)")
    case True
    obtain t0 where t0: "d ! unat (qe_node e) = Some t0" "cost_ok t0" "cost_ok (qe_cost e)"
      "f64_le t0 (qe_cost e)" "f64_le (qe_cost e) t0"
      by (rule expansion_known [OF x])
    then have "t = t0" using True y(2) expansion_done(2) [OF x] by simp
    have "\<exists>t'. d' ! unat v = Some t' \<and> f64_le t' (f64_add t w)" if vw: "(v, w) \<in> set (wg_adjacency g ! y)"
      using R(7) [of v w] f64_add_mono [OF t0(3,2) arc(2) [OF vw] t0(5)] vw True \<open>t = t0\<close> f64_le_trans by blast
    moreover have "f64_le t (qe_cost e')" if "e' \<in> set h'"
      using expansion_le [OF x _ _ that, of t0] t0(4) E(6) f64_le_trans \<open>t = t0\<close> by blast
    ultimately show ?thesis by blast
  next
    case False
    note b = expansion_before [OF x y(1) False y(3)]
    then have t: "d ! y = Some t" using y(2) by simp
    have "\<exists>t'. d' ! unat v = Some t' \<and> f64_le t' (f64_add t w)" if vw: "(v, w) \<in> set (wg_adjacency g ! y)"
      using I(6) [OF y(1) t b(1) vw] R(6) [of "unat v"] arc(1) [OF vw] I(1) by auto
    moreover have "f64_le t (qe_cost e')" if "e' \<in> set h'"
      using expansion_le [OF x _ _ that] I(7) [OF y(1) t b(1)] E(4) by blast
    ultimately show ?thesis by blast
  qed
  then show "(v, w) \<in> set (wg_adjacency g ! y) \<Longrightarrow> \<exists>t'. d' ! unat v = Some t' \<and> f64_le t' (f64_add t w)"
    and "e' \<in> set h' \<Longrightarrow> f64_le t (qe_cost e')" by blast+
qed

lemma expansion_inv:
  assumes "expansion g origin (d, h) e (d', h')" shows "route_inv g origin (d', h')"
proof -
  note E = expansionD [OF assms] and I = route_invD [OF expansionD(3) [OF assms]]
  note R = relaxedD [OF expansionD(7) [OF assms]]
  have entries: "route g origin (unat (qe_node e')) (qe_cost e')" if "e' \<in> set h'" for e'
    using R(4) [OF that] I(5) route_arc [OF I(5) [OF E(4)]] set_remove1_subset [of e h] by auto
  have "route g origin y t" if y: "y < node_count g" "d' ! y = Some t" for y t
  proof (cases "d' ! y = d ! y")
    case False
    then show ?thesis using relaxed_change [OF E(7), of y] y entries I(1) by auto
  qed (use I(4) y in auto)
  moreover have "\<exists>t. d' ! origin = Some t \<and> f64_le t (Fin 0)" using I(1,3) R(6) [of origin] E(2) by auto
  ultimately show ?thesis
    using R(1,2) I(1) entries expansion_settled [OF assms] unfolding route_inv_def by auto
qed

lemma expansion_unsettled:
  assumes "expansion g origin (d, h) e (d', h')"
  shows "unsettled g (d', h') \<subseteq> unsettled g (d, h) - {unat (qe_node e)}"
proof
  note E = expansionD [OF assms] and I = route_invD [OF expansionD(3) [OF assms]]
  fix y assume y: "y \<in> unsettled g (d', h')"
  have "d ! y = None \<or> live d h y"
  proof (rule ccontr)
    assume "\<not> ?thesis"
    then obtain t where t: "d ! y = Some t" "\<not> live d h y" by auto
    then have "f64_le t (qe_cost e)" using I(7) [of y t e] y E(4) by (auto simp: unsettled_def)
    then have "d' ! y = d ! y" "live d' h' y \<longleftrightarrow> live d (remove1 e h) y"
      using relaxed_quiet [OF E(7), of y t] t y I(1) by (auto simp: unsettled_def)
    then show False using t y set_remove1_subset [of e h] by (auto simp: unsettled_def live_def)
  qed
  moreover have "y \<noteq> unat (qe_node e)"
    using y expansion_done [OF assms] expansion_known [OF assms] by (fastforce simp: unsettled_def)
  ultimately show "y \<in> unsettled g (d, h) - {unat (qe_node e)}" using y by (auto simp: unsettled_def)
qed

lemma expansion_work:
  assumes "expansion g origin (d, h) e (d', h')" shows "work_left g (d', h') < work_left g (d, h)"
proof -
  note E = expansionD [OF assms] and R = relaxedD [OF expansionD(7) [OF assms]]
  let ?x = "unat (qe_node e)" and ?deg = "\<lambda>y. length (wg_adjacency g ! y)"
  have "?x \<in> unsettled g (d, h)"
    using E(4,5) expansion_known [OF assms] by (auto simp: unsettled_def live_def)
  then have "(\<Sum>y \<in> unsettled g (d, h). ?deg y) = ?deg ?x + (\<Sum>y \<in> unsettled g (d, h) - {?x}. ?deg y)"
    by (intro sum.remove) auto
  moreover have "(\<Sum>y \<in> unsettled g (d', h'). ?deg y) \<le> (\<Sum>y \<in> unsettled g (d, h) - {?x}. ?deg y)"
    using expansion_unsettled [OF assms] by (intro sum_mono2) auto
  ultimately show ?thesis using R(3) remove1_shorter [OF E(4)] by (simp add: work_left_def)
qed

lemma expansion_of_step:
  assumes g: "walkable g" "origin < node_count g" and inv: "route_inv g origin (d, h)"
    and e: "e \<in> set h" "\<not> stale d e" "\<forall>e' \<in> set h. f64_le (qe_cost e) (qe_cost e')"
  shows "expansion g origin (d, h) e
    (foldl (relax_arc (qe_cost e)) (d, remove1 e h) (wg_adjacency g ! unat (qe_node e)))"
proof -
  note I = route_invD [OF inv]
  have x: "unat (qe_node e) < node_count g" "cost_ok (qe_cost e)" using I(1,2) e(1) by (auto simp: queue_ok_def)
  have arcs: "\<forall>(v, w) \<in> set (wg_adjacency g ! unat (qe_node e)). unat v < length d \<and> cost_ok w"
    using walkable_arc [OF g(1) x(1)] I(1) by auto
  have "\<forall>x < length d. \<forall>t. d ! x = Some t \<longrightarrow> cost_ok t"
  proof (intro allI impI)
    fix x t assume "x < length d" "d ! x = Some t"
    then show "cost_ok t" using I(4) [of x t] route_ok [OF g, of x t] I(1) by simp
  qed
  from relaxed_all [OF queue_ok_remove1 [OF I(2)] x(2) arcs this]
  show ?thesis using g inv e by (simp add: expansion_def)
qed

lemma route_step_inv:
  assumes "walkable g" "origin < node_count g" "heap_choice pick" "route_inv g origin s" "snd s \<noteq> []"
  shows "route_inv g origin (route_step pick g s) \<and> work_left g (route_step pick g s) < work_left g s"
proof -
  obtain d h where s: "s = (d, h)" by (cases s)
  have ok: "\<forall>e \<in> set h. cost_ok (qe_cost e)" using assms(4) s by (auto simp: route_inv_def queue_ok_def)
  note least = heap_choice_least [OF assms(3) _ ok]
  have p: "pick h \<in> set h" "\<forall>e \<in> set h. f64_le (qe_cost (pick h)) (qe_cost e)" using least assms(5) s by auto
  show ?thesis
  proof (cases "stale d (pick h)")
    case True
    then show ?thesis using route_inv_skip [OF assms(4) [unfolded s] p(1)] s by (simp add: route_step_def Let_def)
  next
    case False
    let ?s = "foldl (relax_arc (qe_cost (pick h))) (d, remove1 (pick h) h) (wg_adjacency g ! unat (qe_node (pick h)))"
    have x: "expansion g origin (d, h) (pick h) (fst ?s, snd ?s)"
      using expansion_of_step [OF assms(1,2) assms(4) [unfolded s] p(1) False p(2)] by simp
    have step: "route_step pick g s = (fst ?s, snd ?s)"
      using False s by (simp add: route_step_def adjacent_def Let_def)
    then show ?thesis using expansion_inv [OF x] expansion_work [OF x] s by simp
  qed
qed

section \<open>Shortest routes\<close>

lemma route_inv_final:
  assumes "walkable g" "origin < node_count g" "route_inv g origin (d, [])" "route g origin v c"
  shows "\<exists>t. d ! v = Some t \<and> f64_le t c"
  using assms(4)
proof induction
  case route_start
  then show ?case using assms(3) by (auto simp: route_inv_def)
next
  case (route_arc u c v w)
  have u: "u < node_count g" "cost_ok c" using route_ok [OF assms(1,2) route_arc.hyps(1)] by auto
  obtain t where t: "d ! u = Some t" "f64_le t c" using route_arc.IH by auto
  have "route g origin u t" using assms(3) u t by (auto simp: route_inv_def)
  then have ok: "cost_ok t" using route_ok [OF assms(1,2)] by auto
  obtain t' where "d ! unat v = Some t'" "f64_le t' (f64_add t w)"
    using route_invD(6) [OF assms(3) u(1) t(1) _ route_arc.hyps(2)] by (auto simp: live_def)
  moreover have "f64_le (f64_add t w) (f64_add c w)"
    using f64_add_mono [OF ok u(2) _ t(2)] walkable_arc(2) [OF assms(1) u(1) route_arc.hyps(2)] by blast
  ultimately show ?case using f64_le_trans by blast
qed

text \<open>The loop with its result.\<close>

lemma travel_times_correct:
  assumes "walkable g" "unat origin < node_count g" "heap_choice pick"
  obtains ts where "travel_times_from pick g origin = Some (Ok ts)" "length ts = node_count g"
    "\<And>v t. v < node_count g \<Longrightarrow> ts ! v = Some t \<Longrightarrow> route g (unat origin) v t"
    "\<And>v c. route g (unat origin) v c \<Longrightarrow> \<exists>t. ts ! v = Some t \<and> f64_le t c"
proof -
  let ?s = "((replicate (node_count g) None)[unat origin := Some (Fin 0)], [\<lparr>qe_cost = Fin 0, qe_node = origin\<rparr>])"
  let ?more = "\<lambda>(_ :: f64 option list, heap :: queue_entry list). heap \<noteq> []"
  have init: "route_inv g (unat origin) ?s"
    using assms(2) by (auto simp: route_inv_def queue_ok_def descending_def nth_list_update live_def stale_def
        intro: route_start split: if_splits)
  have step: "route_inv g (unat origin) (route_step pick g s) \<and> work_left g (route_step pick g s) < work_left g s"
    if "route_inv g (unat origin) s" "?more s" for s
    using route_step_inv [OF assms that(1)] that(2) by (cases s) auto
  obtain d h where fin: "while_option ?more (route_step pick g) ?s = Some (d, h)"
    using measure_while_option_Some [of "route_inv g (unat origin)" ?more "route_step pick g" "work_left g" ?s]
      step init by force
  have "h = []" using while_option_stop [OF fin] by simp
  moreover have "route_inv g (unat origin) (d, h)"
    using while_option_rule [of "route_inv g (unat origin)", OF _ fin init] step by blast
  ultimately have inv: "route_inv g (unat origin) (d, [])" by simp
  show thesis
  proof (rule that)
    show "travel_times_from pick g origin = Some (Ok d)" "length d = node_count g"
      using fin assms(2) inv by (simp_all add: travel_times_from_def route_inv_def)
    show "route g (unat origin) v t" if "v < node_count g" "d ! v = Some t" for v t
      using route_invD(4) [OF inv that] .
    show "\<exists>t. d ! v = Some t \<and> f64_le t c" if "route g (unat origin) v c" for v c
      using assms(1,2) inv that by (rule route_inv_final)
  qed
qed

text \<open>C5: travel times are the costs of shortest routes: on a graph with costs that are not negative the
  loop ends, a node has a time exactly when a route reaches it, the time is the cost of a route and
  no route costs less, all in floating-point arithmetic and for every way the heap breaks ties.\<close>

theorem travel_times_shortest:
  assumes "walkable g" "unat origin < node_count g" "heap_choice pick"
  shows "\<exists>ts. travel_times_from pick g origin = Some (Ok ts) \<and> length ts = node_count g \<and>
    (\<forall>v < node_count g. case ts ! v of
       None \<Rightarrow> \<nexists>c. route g (unat origin) v c
     | Some t \<Rightarrow> route g (unat origin) v t \<and> (\<forall>c. route g (unat origin) v c \<longrightarrow> f64_le t c))"
proof -
  obtain ts where ts: "travel_times_from pick g origin = Some (Ok ts)" "length ts = node_count g"
    "\<And>v t. v < node_count g \<Longrightarrow> ts ! v = Some t \<Longrightarrow> route g (unat origin) v t"
    "\<And>v c. route g (unat origin) v c \<Longrightarrow> \<exists>t. ts ! v = Some t \<and> f64_le t c"
    using travel_times_correct [OF assms] by blast
  have "case ts ! v of None \<Rightarrow> \<nexists>c. route g (unat origin) v c
     | Some t \<Rightarrow> route g (unat origin) v t \<and> (\<forall>c. route g (unat origin) v c \<longrightarrow> f64_le t c)"
    if "v < node_count g" for v
    using ts(3) [OF that] ts(4) [of v] by (force split: option.splits)
  then show ?thesis using ts(1,2) by blast
qed

text \<open>A heap that returns its first greatest entry keeps the promise.\<close>

definition first_greatest :: "queue_entry list \<Rightarrow> queue_entry" where
  "first_greatest h = foldl (\<lambda>m e. if entry_cmp e m = Greater then e else m) (hd h) (tl h)"

lemma entry_cmp_Greater:
  assumes "qe_cost a \<noteq> NaN" "qe_cost b \<noteq> NaN"
  shows "entry_cmp a b = Greater \<longleftrightarrow>
    f64_lt (qe_cost a) (qe_cost b) \<or> \<not> f64_lt (qe_cost b) (qe_cost a) \<and> qe_node b < qe_node a"
proof -
  have strict: "\<not> f64_lt y x \<and> \<not> f64_le y x" if "f64_lt x y" for x y
    using that f64_lt_asym f64_lt_imp_le by blast
  consider "f64_lt (qe_cost a) (qe_cost b)" | "f64_lt (qe_cost b) (qe_cost a)"
    | "\<not> f64_lt (qe_cost a) (qe_cost b)" "\<not> f64_lt (qe_cost b) (qe_cost a)" "f64_eq (qe_cost b) (qe_cost a)"
    using assms f64_not_lt by (auto simp: f64_eq_def)
  then show ?thesis
    by cases (simp_all add: entry_cmp_def f64_partial_cmp_def f64_eq_def strict order_less_imp_not_less)
qed

lemma entry_cmp_asym:
  "entry_cmp a b = Greater \<Longrightarrow> qe_cost a \<noteq> NaN \<Longrightarrow> qe_cost b \<noteq> NaN \<Longrightarrow> entry_cmp b a \<noteq> Greater"
  using f64_lt_asym [OF _ f64_lt_imp_le, of "qe_cost a" "qe_cost b"] less_asym [of "qe_node a" "qe_node b"]
  by (simp add: entry_cmp_Greater) blast

lemma entry_cmp_trans:
  assumes "entry_cmp a b \<noteq> Greater" "entry_cmp b c \<noteq> Greater"
    and "qe_cost a \<noteq> NaN" "qe_cost b \<noteq> NaN" "qe_cost c \<noteq> NaN"
  shows "entry_cmp a c \<noteq> Greater"
proof
  assume "entry_cmp a c = Greater"
  then have ac: "f64_lt (qe_cost a) (qe_cost c) \<or> \<not> f64_lt (qe_cost c) (qe_cost a) \<and> qe_node c < qe_node a"
    using assms by (simp add: entry_cmp_Greater)
  have ba: "f64_le (qe_cost b) (qe_cost a)" and cb: "f64_le (qe_cost c) (qe_cost b)"
    using assms by (auto simp: entry_cmp_Greater f64_not_lt)
  then have ca: "f64_le (qe_cost c) (qe_cost a)" by (rule f64_le_trans [rotated])
  then have "f64_le (qe_cost a) (qe_cost c)" "qe_node c < qe_node a"
    using ac f64_lt_asym assms by (auto simp: f64_not_lt)
  moreover from this have "f64_le (qe_cost a) (qe_cost b)" "f64_le (qe_cost b) (qe_cost c)"
    using ba cb f64_le_trans by blast+
  ultimately show False using assms f64_lt_asym by (auto simp: entry_cmp_Greater)
qed

lemma heap_choice_first_greatest: "heap_choice first_greatest"
proof -
  have fold: "m' \<in> set (m # h) \<and> (\<forall>e \<in> set (m # h). entry_cmp e m' \<noteq> Greater)"
    if "m' = foldl (\<lambda>m e. if entry_cmp e m = Greater then e else m) m h" "\<forall>e \<in> set (m # h). qe_cost e \<noteq> NaN" for m m' h
    using that
  proof (induction h arbitrary: m)
    case Nil
    then show ?case by (simp add: entry_cmp_def f64_partial_cmp_def)
  next
    case (Cons a h)
    let ?m = "if entry_cmp a m = Greater then a else m"
    have IH: "m' \<in> set (?m # h)" "\<forall>e \<in> set (?m # h). entry_cmp e m' \<noteq> Greater"
      using Cons.IH [of ?m] Cons.prems by (auto split: if_splits)
    have nan: "qe_cost a \<noteq> NaN" "qe_cost m \<noteq> NaN" "qe_cost m' \<noteq> NaN" using Cons.prems IH(1) by (auto split: if_splits)
    have "entry_cmp a ?m \<noteq> Greater" "entry_cmp m ?m \<noteq> Greater"
      using entry_cmp_asym [of a m] nan by (auto simp: entry_cmp_def f64_partial_cmp_def split: if_splits)
    then have "entry_cmp a m' \<noteq> Greater" "entry_cmp m m' \<noteq> Greater"
      using entry_cmp_trans [of _ ?m m'] IH(2) nan by (auto split: if_splits)
    then show ?case using IH by (auto split: if_splits)
  qed
  show ?thesis unfolding heap_choice_def first_greatest_def
  proof (intro allI impI)
    fix h :: "queue_entry list" assume "h \<noteq> [] \<and> (\<forall>e \<in> set h. qe_cost e \<noteq> NaN)"
    then show "foldl (\<lambda>m e. if entry_cmp e m = Greater then e else m) (hd h) (tl h) \<in> set h \<and>
        (\<forall>e \<in> set h. entry_cmp e (foldl (\<lambda>m e. if entry_cmp e m = Greater then e else m) (hd h) (tl h)) \<noteq> Greater)"
      using fold [OF refl, of "hd h" "tl h"] by (cases h) auto
  qed
qed

definition demo_walk :: walk_graph where
  "demo_walk = \<lparr>wg_nodes = [(Fin 0, Fin 0), (Fin 1, Fin 0), (Fin 2, Fin 0)],
     wg_adjacency = [[(1, Fin 4), (2, Fin 7)], [(0, Fin 4), (2, Fin 1)], [(0, Fin 7), (1, Fin 1)]],
     wg_edge_count = 3, wg_total_length_m = Fin 960, wg_walk_speed_m_per_min = Fin 80\<rparr>"

lemma cost_ok_numeral: "numeral n < (2 :: int) ^ 53 \<Longrightarrow> cost_ok (Fin (numeral n))" "cost_ok (Fin 1)"
  by (simp_all add: cost_ok_def f64_exact_def f64_le_def)

lemma walkable_demo: "walkable demo_walk"
  by (simp add: walkable_def node_count_def demo_walk_def cost_ok_numeral)

theorem travel_times_shortest_witness:
  "walkable demo_walk \<and> heap_choice first_greatest \<and>
   (\<exists>ts. travel_times_from first_greatest demo_walk 0 = Some (Ok ts) \<and> length ts = 3)"
proof -
  have "unat (0 :: u32) < node_count demo_walk" "node_count demo_walk = 3"
    by (simp_all add: node_count_def demo_walk_def)
  then show ?thesis
    using travel_times_shortest [OF walkable_demo _ heap_choice_first_greatest, of 0] walkable_demo
      heap_choice_first_greatest by auto
qed

section \<open>Routes and opportunities\<close>

lemma route_minutes_shortest:
  assumes "walkable g" "unat from < node_count g" "unat to < node_count g" "heap_choice pick"
  obtains t where "route_minutes pick g from to = Some (Ok t)" "route g (unat from) (unat to) t"
      "\<And>c. route g (unat from) (unat to) c \<Longrightarrow> f64_le t c"
  | "route_minutes pick g from to = Some (Err (RouteUnreachable from to))" "\<And>c. \<not> route g (unat from) (unat to) c"
proof -
  obtain ts where ts: "travel_times_from pick g from = Some (Ok ts)" "length ts = node_count g"
    "\<And>v t. v < node_count g \<Longrightarrow> ts ! v = Some t \<Longrightarrow> route g (unat from) v t"
    "\<And>v c. route g (unat from) v c \<Longrightarrow> \<exists>t. ts ! v = Some t \<and> f64_le t c"
    using travel_times_correct [OF assms(1,2,4)] by blast
  have r: "route_minutes pick g from to = Some (ok_or (ts ! unat to) (RouteUnreachable from to))"
    using ts(1,2) assms(3) by (simp add: route_minutes_def time_at_def)
  show thesis
  proof (cases "ts ! unat to")
    case None
    then show ?thesis using that(2) r ts(4) by (force simp: ok_or_def)
  next
    case (Some t)
    then show ?thesis using that(1) [of t] r ts(3) [OF assms(3) Some] ts(4) by (force simp: ok_or_def)
  qed
qed

lemma length_filter_mono: "(\<And>x. P x \<Longrightarrow> Q x) \<Longrightarrow> length (filter P xs) \<le> length (filter Q xs)"
  by (induction xs) (auto intro: le_SucI)

text \<open>A longer walk never reaches fewer places.\<close>

lemma opportunities_mono:
  assumes "f64_le a b" "cumulative_opportunities pick g origin pois a = Some (Ok m)"
    and "cumulative_opportunities pick g origin pois b = Some (Ok n)"
  shows "m \<le> n"
proof -
  have "reached_by a t \<Longrightarrow> reached_by b t" for t
    using assms(1) f64_le_trans by (auto simp: reached_by_def split: option.splits)
  moreover obtain ts where "travel_times_from pick g origin = Some (Ok ts)"
    using assms(2) by (auto simp: cumulative_opportunities_def result_simps)
  ultimately show ?thesis
    using assms(2,3) by (auto simp: cumulative_opportunities_def intro!: length_filter_mono)
qed

end
