(* ===== verification/Walk_Read.thy ===== *)
theory Walk_Read
  imports Walk_Valid
begin

text \<open>
  What reading a network gives: an undirected graph whose adjacency lists stay within its nodes, so
  that no index of the routing loop is out of range; and what hazard factors keep of it.
\<close>

section \<open>Reading\<close>

definition builder_ok :: "network_builder \<Rightarrow> bool" where
  "builder_ok b \<longleftrightarrow> length (nb_nodes b) \<le> 2 ^ 32 \<longrightarrow>
     (\<forall>(k, i) \<in> set (nb_index b). unat i < length (nb_nodes b)) \<and>
     (\<forall>((f, t), c) \<in> set (nb_edges b). unat f < length (nb_nodes b) \<and> unat t < length (nb_nodes b))"

definition grows :: "network_builder \<Rightarrow> network_builder \<Rightarrow> bool" where
  "grows b b' \<longleftrightarrow> length (nb_nodes b) \<le> length (nb_nodes b')"

lemma intern_node_ok:
  assumes "builder_ok b" "intern_node b lon lat = (b', i)"
  shows "builder_ok b'" "grows b b'" "length (nb_nodes b') \<le> 2 ^ 32 \<Longrightarrow> unat i < length (nb_nodes b')"
proof -
  let ?key = "(quantize lon, quantize lat)"
  have "builder_ok b' \<and> grows b b' \<and> (length (nb_nodes b') \<le> 2 ^ 32 \<longrightarrow> unat i < length (nb_nodes b'))"
  proof (cases "map_of (nb_index b) ?key")
    case None
    let ?n = "length (nb_nodes b)"
    have b': "b' = b\<lparr>nb_nodes := nb_nodes b @ [(lon, lat)], nb_index := (?key, of_nat ?n) # nb_index b\<rparr>"
      and i: "i = of_nat ?n"
      using assms(2) None by (auto simp: intern_node_def Let_def)
    have fits: "unat (of_nat ?n :: u32) = ?n" if "Suc ?n \<le> 2 ^ 32"
      using that by (simp add: unat_of_nat)
    show ?thesis
      using assms(1) fits by (fastforce simp: b' i builder_ok_def grows_def less_Suc_eq)
  next
    case (Some j)
    then show ?thesis using assms by (auto simp: intern_node_def builder_ok_def grows_def dest!: map_of_SomeD)
  qed
  then show "builder_ok b'" "grows b b'" "length (nb_nodes b') \<le> 2 ^ 32 \<Longrightarrow> unat i < length (nb_nodes b')" by blast+
qed

definition previous_ok :: "network_builder \<Rightarrow> u32 option \<Rightarrow> bool" where
  "previous_ok b p \<longleftrightarrow> (length (nb_nodes b) \<le> 2 ^ 32 \<longrightarrow> (\<forall>i. p = Some i \<longrightarrow> unat i < length (nb_nodes b)))"

lemma add_point_ok:
  assumes "builder_ok b" "previous_ok b p"
  shows "builder_ok (fst (add_point gm ws declared segs b p lon lat))"
    "previous_ok (fst (add_point gm ws declared segs b p lon lat)) (snd (add_point gm ws declared segs b p lon lat))"
proof -
  obtain c i where c: "intern_node b lon lat = (c, i)" by (cases "intern_node b lon lat")
  note ok = intern_node_ok [OF assms(1) c]
  show "builder_ok (fst (add_point gm ws declared segs b p lon lat))"
  proof (cases p)
    case None
    then show ?thesis using ok(1) c by (simp add: add_point_def)
  next
    case (Some u)
    have "unat u < length (nb_nodes c)" if "length (nb_nodes c) \<le> 2 ^ 32"
      using that assms(2) ok(2) Some by (auto simp: previous_ok_def grows_def)
    then show ?thesis using ok(1,3) c Some by (auto simp: builder_ok_def add_point_def add_segment_def Let_def)
  qed
  show "previous_ok (fst (add_point gm ws declared segs b p lon lat)) (snd (add_point gm ws declared segs b p lon lat))"
    using ok(3) c by (cases p) (auto simp: previous_ok_def add_point_def add_segment_def Let_def)
qed

definition progress_ok :: "network_builder \<times> u32 option \<Rightarrow> bool" where
  "progress_ok s \<longleftrightarrow> builder_ok (fst s) \<and> previous_ok (fst s) (snd s)"

lemma add_coordinate_ok:
  assumes "progress_ok s" "add_coordinate gm ws declared segs s coord = Ok s'" shows "progress_ok s'"
proof -
  obtain lon lat where "s' = add_point gm ws declared segs (fst s) (snd s) lon lat"
    using assms(2) by (auto simp: add_coordinate_def result_simps)
  then show ?thesis using assms(1) add_point_ok by (simp add: progress_ok_def)
qed

lemma try_fold_inv:
  assumes "\<And>s x s'. P s \<Longrightarrow> f s x = Ok s' \<Longrightarrow> P s'" "P s" "try_fold f s xs = Ok s'"
  shows "P s'"
  using assms(2,3)
proof (induction xs arbitrary: s)
  case (Cons x xs)
  then show ?case using assms(1) by (auto simp: result_simps)
qed simp

lemma add_coordinates_ok:
  assumes "builder_ok b" "try_fold (add_coordinate gm ws declared segs) (b, None) coords = Ok s"
  shows "builder_ok (fst s)"
proof -
  have "progress_ok s"
    by (rule try_fold_inv [of progress_ok, OF add_coordinate_ok _ assms(2)])
      (use assms(1) in \<open>auto simp: progress_ok_def previous_ok_def\<close>)
  then show ?thesis by (simp add: progress_ok_def)
qed

lemma add_feature_ok:
  assumes "builder_ok b" "add_feature gm ws b feature = Ok b'" shows "builder_ok b'"
  using assms by (auto simp: add_feature_def result_simps Let_def split: if_splits dest: add_coordinates_ok)

text \<open>Adjacency lists over \<open>n\<close> nodes: neighbours in range, and every arc in both directions.\<close>

definition rows_ok :: "nat \<Rightarrow> arc list list \<Rightarrow> bool" where
  "rows_ok n rows \<longleftrightarrow> length rows = n \<and>
     (\<forall>u v c. unat u < n \<longrightarrow> (v, c) \<in> set (rows ! unat u) \<longrightarrow> unat v < n \<and> (u, c) \<in> set (rows ! unat v))"

lemma link_edge_row:
  assumes "unat f < length rows" "unat t < length rows" "unat u < length rows"
  shows "set (link_edge rows ((f, t), c) ! unat u) =
    set (rows ! unat u) \<union> (if u = f then {(t, c)} else {}) \<union> (if u = t then {(f, c)} else {})"
proof -
  have inj: "unat a = unat b \<longleftrightarrow> a = b" for a b :: u32 by (simp add: word_unat_eq_iff)
  have row: "link_edge rows ((f, t), c) ! unat u =
      rows ! unat u @ (if u = f then [(t, c)] else []) @ (if u = t then [(f, c)] else [])"
    using assms by (simp add: link_edge_def Let_def nth_list_update inj)
  show ?thesis unfolding row by simp
qed

lemma link_edge_ok:
  assumes "rows_ok n rows" "unat f < n" "unat t < n"
  shows "rows_ok n (link_edge rows ((f, t), c))"
proof -
  have len: "length (link_edge rows ((f, t), c)) = n" "length rows = n"
    using assms(1) by (simp_all add: link_edge_def Let_def rows_ok_def)
  have row: "set (link_edge rows ((f, t), c) ! unat u) =
      set (rows ! unat u) \<union> (if u = f then {(t, c)} else {}) \<union> (if u = t then {(f, c)} else {})"
    if "unat u < n" for u
    using link_edge_row assms(2,3) len that by simp
  have "unat v < n \<and> (u, w) \<in> set (link_edge rows ((f, t), c) ! unat v)"
    if u: "unat u < n" "(v, w) \<in> set (link_edge rows ((f, t), c) ! unat u)" for u v w
  proof -
    consider "(v, w) \<in> set (rows ! unat u)" | "u = f" "v = t" "w = c" | "u = t" "v = f" "w = c"
      using u(2) unfolding row [OF u(1)] by (auto split: if_splits)
    then show ?thesis
    proof cases
      case 1
      then have "unat v < n" "(u, w) \<in> set (rows ! unat v)" using assms(1) u(1) unfolding rows_ok_def by blast+
      then show ?thesis using row [of v] by auto
    qed (use assms(2,3) row in auto)
  qed
  then show ?thesis using len unfolding rows_ok_def by blast
qed

lemma link_edges_ok:
  assumes "rows_ok n rows" "\<forall>((f, t), c) \<in> set edges. unat f < n \<and> unat t < n"
  shows "rows_ok n (foldl link_edge rows edges)"
  using assms
proof (induction edges arbitrary: rows)
  case (Cons e edges)
  obtain f t c where e: "e = ((f, t), c)" by (metis prod.exhaust)
  have "rows_ok n (link_edge rows e)" using Cons.prems e by (auto intro: link_edge_ok)
  then show ?case using Cons by simp
qed simp

text \<open>C34: reading a network gives an undirected graph: one adjacency list per node, neighbours within the
  nodes, every arc with its cost in both directions, and at least one node and one street.\<close>

theorem network_undirected:
  assumes "from_geojson_str from_str gm text = Ok g" "node_count g \<le> 2 ^ 32"
  shows "rows_ok (node_count g) (wg_adjacency g) \<and> wg_nodes g \<noteq> [] \<and> 0 < wg_edge_count g"
proof -
  obtain ws features b where fold: "try_fold (add_feature gm ws)
      \<lparr>nb_nodes = [], nb_index = [], nb_edges = [], nb_total = Fin 0\<rparr> features = Ok b"
    and g: "wg_nodes g = nb_nodes b" "nb_nodes b \<noteq> []" "nb_edges b \<noteq> []"
      "wg_adjacency g = foldl link_edge (replicate (length (nb_nodes b)) []) (nb_edges b)"
      "wg_edge_count g = length (nb_edges b)"
    using assms(1) by (auto simp: from_geojson_str_def result_simps Let_def reject_def split: if_splits)
  have b: "builder_ok b"
    by (rule try_fold_inv [where P = builder_ok, OF add_feature_ok _ fold]) (auto simp: builder_ok_def)
  have "rows_ok (length (nb_nodes b)) (replicate (length (nb_nodes b)) [])" by (auto simp: rows_ok_def)
  then have "rows_ok (node_count g) (wg_adjacency g)"
    unfolding g(4) node_count_def g(1)
    using b assms(2) by (intro link_edges_ok) (auto simp: builder_ok_def node_count_def g(1))
  then show ?thesis using g by simp
qed

lemma walkable_rows:
  assumes "rows_ok (node_count g) (wg_adjacency g)" "node_count g \<le> 2 ^ 32"
    and "\<forall>row \<in> set (wg_adjacency g). \<forall>(v, c) \<in> set row. cost_ok c"
  shows "walkable g"
proof -
  have "unat v < node_count g" if "x < node_count g" "(v, c) \<in> set (wg_adjacency g ! x)" for x v c
  proof -
    have "unat (of_nat x :: u32) = x" using that(1) assms(2) by (simp add: unat_of_nat)
    then show ?thesis using assms(1) that unfolding rows_ok_def by metis
  qed
  moreover have "cost_ok c" if "x < node_count g" "(v, c) \<in> set (wg_adjacency g ! x)" for x v c
    using assms(1,3) that by (force simp: rows_ok_def)
  ultimately show ?thesis 
    using assms(1) by (simp add: walkable_def rows_ok_def list_all_length [of "list_all _"]) (auto simp: list_all_iff)
qed

section \<open>A small network\<close>

definition plain_math :: geometry_math where
  "plain_math = \<lparr>gm_cos = (\<lambda>x. Fin 1), gm_to_radians = (\<lambda>x. x), gm_sqrt = (\<lambda>x. x)\<rparr>"

definition demo_line :: "json \<Rightarrow> json" where
  "demo_line minutes = JObj [(''features'', JArr [JObj [
       (''geometry'', JObj [(''coordinates'', JArr [JArr [JInt 0, JInt 0], JArr [JInt 1, JInt 0]]), (''type'', JStr ''LineString'')]),
       (''properties'', JObj [(''walk_min'', minutes)])]]),
     (''type'', JStr ''FeatureCollection'')]"

definition demo_read :: "json \<Rightarrow> network_error + walk_graph" where
  "demo_read minutes = from_geojson_str (\<lambda>_. Ok (demo_line minutes)) plain_math []"

definition rows_of :: "network_error + walk_graph \<Rightarrow> (nat \<times> arc list list) option" where
  "rows_of r = (case r of Inl _ \<Rightarrow> None | Inr g \<Rightarrow> Some (node_count g, wg_adjacency g))"

lemma bt_get_simps [simp]: "bt_get ((k, v) # m) k' = (if k = k' then Some v else bt_get m k')" "bt_get [] k' = None"
  by (simp_all add: bt_get_def)

lemma demo_intern:
  "intern_node \<lparr>nb_nodes = [], nb_index = [], nb_edges = [], nb_total = Fin 0\<rparr> (Fin 0) (Fin 0) =
     (\<lparr>nb_nodes = [(Fin 0, Fin 0)], nb_index = [((0, 0), 0)], nb_edges = [], nb_total = Fin 0\<rparr>, 0)"
  "intern_node \<lparr>nb_nodes = [(Fin 0, Fin 0)], nb_index = [((0, 0), 0)], nb_edges = [], nb_total = Fin 0\<rparr> (Fin 1) (Fin 0) =
     (\<lparr>nb_nodes = [(Fin 0, Fin 0), (Fin 1, Fin 0)], nb_index = [((1000000, 0), 1), ((0, 0), 0)],
       nb_edges = [], nb_total = Fin 0\<rparr>, 1)"
proof -
  have floors: "\<lfloor>1 / 2 :: rat\<rfloor> = 0" "\<lfloor>2000001 / 2 :: rat\<rfloor> = 1000000" by (simp_all add: floor_eq_iff)
  show "intern_node \<lparr>nb_nodes = [], nb_index = [], nb_edges = [], nb_total = Fin 0\<rparr> (Fin 0) (Fin 0) =
     (\<lparr>nb_nodes = [(Fin 0, Fin 0)], nb_index = [((0, 0), 0)], nb_edges = [], nb_total = Fin 0\<rparr>, 0)"
  "intern_node \<lparr>nb_nodes = [(Fin 0, Fin 0)], nb_index = [((0, 0), 0)], nb_edges = [], nb_total = Fin 0\<rparr> (Fin 1) (Fin 0) =
     (\<lparr>nb_nodes = [(Fin 0, Fin 0), (Fin 1, Fin 0)], nb_index = [((1000000, 0), 1), ((0, 0), 0)],
       nb_edges = [], nb_total = Fin 0\<rparr>, 1)"
    by (simp_all add: intern_node_def quantize_def f64_mul_def f64_sign_def to_integral_def half_away_def
        f64_to_i64_def f64_to_signed_def Let_def floors)
qed

lemma demo_segment: "segment_length_m plain_math (Fin 0, Fin 0) (Fin 1, Fin 0) = Fin 12392142400"
  by (simp add: segment_length_m_def plain_math_def meters_per_deg_lon_def METERS_PER_DEG_LAT_def f64_arith)

lemma demo_rows:
  assumes "m \<in> {2, - 2}"
  shows "rows_of (demo_read (JInt m)) = Some (2, [[(1, Fin (of_int m))], [(0, Fin (of_int m))]])"
proof -
  have "f64_div (f64_round False (of_int m)) (f64_max (f64_round False 1) (Fin 1)) = Fin (of_int m)"
    using assms by (auto simp: f64_arith)
  then show ?thesis
    by (simp add: demo_read_def from_geojson_str_def demo_line_def rows_of_def get_with_def json_get_def reject_def
        ok_or_def add_feature_def add_coordinate_def add_point_def add_segment_def segment_cost_def demo_intern
        demo_segment link_edge_def node_count_def Let_def f64_le_def)
qed

text \<open>A declared walking time is not checked: a negative one becomes a negative cost.\<close>

lemma negative_cost_accepted: "rows_of (demo_read (JInt (- 2))) = Some (2, [[(1, Fin (- 2))], [(0, Fin (- 2))]])"
  using demo_rows [of "- 2"] by simp

theorem network_undirected_witness:
  "\<exists>g. demo_read (JInt 2) = Ok g \<and> node_count g = 2 \<and> rows_ok (node_count g) (wg_adjacency g)"
proof -
  obtain g where g: "demo_read (JInt 2) = Ok g" "node_count g = 2"
    using demo_rows [of 2] by (auto simp: rows_of_def split: sum.splits)
  moreover have "rows_ok (node_count g) (wg_adjacency g)"
    using network_undirected [OF g(1) [unfolded demo_read_def]] g(2) by simp
  ultimately show ?thesis by blast
qed

section \<open>Hazard factors\<close>

lemma f64_mul_cost:
  assumes "cost_ok c" "f64_is_finite c" "f64_is_finite f" "\<not> f64_lt f (Fin 0)"
  shows "cost_ok (f64_mul c f)"
proof -
  have c: "0 \<le> f64_val c" using assms(1) by (cases c) (auto simp: cost_ok_def f64_le_def)
  have f: "0 \<le> f64_val f" using assms(3,4) by (cases f) (auto simp: f64_lt_def)
  have p: "0 \<le> f64_val c * f64_val f" using c f by simp
  have "f64_mul c f = f64_round (f64_sign c \<noteq> f64_sign f) (f64_val c * f64_val f)"
    using assms(2,3) by (cases c; cases f) (simp_all add: f64_mul_def Let_def)
  then show ?thesis
    using f64_exact_round [OF p] f64_round_le [OF order_refl p, of False] by (simp add: cost_ok_def)
qed

definition scaled :: "hazard \<Rightarrow> lonlat list \<Rightarrow> nat \<Rightarrow> arc list \<Rightarrow> arc list" where
  "scaled factor nodes x = map (\<lambda>(v, c). (v, f64_mul c (factor (nodes ! x) (nodes ! unat v) (of_nat x) v)))"

definition factor_ok :: "hazard \<Rightarrow> lonlat list \<Rightarrow> nat \<Rightarrow> u32 \<Rightarrow> bool" where
  "factor_ok factor nodes x v \<longleftrightarrow> (let f = factor (nodes ! x) (nodes ! unat v) (of_nat x) v in
     f64_is_finite f \<and> \<not> f64_lt f (Fin 0))"

lemma scale_slots_Ok:
  "scale_slots factor nodes x slots = (slots', Ok n) \<Longrightarrow>
     slots' = scaled factor nodes x slots \<and> (\<forall>(v, c) \<in> set slots. factor_ok factor nodes x v)"
proof (induction slots arbitrary: slots' n)
  case (Cons a slots)
  obtain v c where a: "a = (v, c)" by (cases a)
  obtain rest r where rest: "scale_slots factor nodes x slots = (rest, r)"
    by (cases "scale_slots factor nodes x slots")
  then show ?case using Cons a
    by (auto simp: Let_def scaled_def factor_ok_def result_simps split: if_splits)
qed (simp add: scaled_def)

lemma scale_rows_Ok:
  "scale_rows factor nodes x rows = (rows', Ok n) \<Longrightarrow> length rows' = length rows \<and>
     (\<forall>i < length rows. rows' ! i = scaled factor nodes (x + i) (rows ! i) \<and>
        (\<forall>(v, c) \<in> set (rows ! i). factor_ok factor nodes (x + i) v))"
proof (induction rows arbitrary: x rows' n)
  case (Cons slots rows)
  obtain slots' k rest r where s: "scale_slots factor nodes x slots = (slots', Ok k)"
    and rest: "scale_rows factor nodes (Suc x) rows = (rest, r)" "rows' = slots' # rest" "\<exists>m. r = Ok m"
    using Cons.prems
    by (cases "scale_slots factor nodes x slots"; cases "scale_rows factor nodes (Suc x) rows";
        cases "snd (scale_slots factor nodes x slots)") (auto simp: result_simps)
  obtain m where "scale_rows factor nodes (Suc x) rows = (rest, Ok m)" using rest by auto
  note IH = Cons.IH [OF this] and S = scale_slots_Ok [OF s]
  have "rows' ! i = scaled factor nodes (x + i) ((slots # rows) ! i) \<and>
      (\<forall>(v, c) \<in> set ((slots # rows) ! i). factor_ok factor nodes (x + i) v)"
    if "i < length (slots # rows)" for i
    using that IH S rest(2) by (cases i) simp_all
  then show ?case using IH rest(2) by simp
qed simp

text \<open>Scaling by hazard factors multiplies every cost by the factor of its arc and keeps the graph
  walkable; it succeeds only when every factor is finite and not negative.\<close>

theorem scale_edge_costs_exact:
  assumes "scale_edge_costs factor g = (g', Ok n)" "walkable g"
    and "\<forall>row \<in> set (wg_adjacency g). \<forall>(v, c) \<in> set row. f64_is_finite c"
  shows "walkable g' \<and> wg_nodes g' = wg_nodes g \<and>
    (\<forall>x < node_count g. wg_adjacency g' ! x = scaled factor (wg_nodes g) x (wg_adjacency g ! x) \<and>
       (\<forall>(v, c) \<in> set (wg_adjacency g ! x). factor_ok factor (wg_nodes g) x v))"
proof -
  obtain rows where rows: "scale_rows factor (wg_nodes g) 0 (wg_adjacency g) = (rows, Ok n)"
    and g': "g' = g\<lparr>wg_adjacency := rows\<rparr>"
    using assms(1) by (auto simp: scale_edge_costs_def split: prod.splits)
  have len: "length (wg_adjacency g) = node_count g" using assms(2) by (simp add: walkable_def)
  note R = scale_rows_Ok [OF rows]
  have "unat v < node_count g \<and> cost_ok c" if x: "x < node_count g" "(v, c) \<in> set (rows ! x)" for x v c
  proof -
    obtain c' where c': "(v, c') \<in> set (wg_adjacency g ! x)"
      and c: "c = f64_mul c' (factor (wg_nodes g ! x) (wg_nodes g ! unat v) (of_nat x) v)"
      using x R len by (auto simp: scaled_def)
    have "f64_is_finite c'" using assms(3) c' x(1) len by force
    moreover have "factor_ok factor (wg_nodes g) x v" using R c' x(1) len by force
    ultimately show ?thesis
      using walkable_arc [OF assms(2) x(1) c'] c f64_mul_cost [of c'] by (simp add: factor_ok_def Let_def)
  qed
  then have "walkable g'"
    using R len by (simp add: walkable_def g' node_count_def list_all_length [of "list_all _"]) (auto simp: list_all_iff)
  then show ?thesis using R len g' by auto
qed

theorem scale_edge_costs_witness:
  "\<exists>g' n. scale_edge_costs (\<lambda>_ _ _ _. Fin 2) demo_walk = (g', Ok n) \<and> walkable g'"
proof -
  let ?s = "scale_edge_costs (\<lambda>_ _ _ _. Fin 2) demo_walk"
  obtain n where n: "snd ?s = Ok n"
    by (simp add: scale_edge_costs_def demo_walk_def f64_lt_def Let_def)
  then have s: "?s = (fst ?s, Ok n)" by (metis prod.collapse)
  have fin: "\<forall>row \<in> set (wg_adjacency demo_walk). \<forall>(v, c) \<in> set row. f64_is_finite c"
    by (simp add: demo_walk_def)
  show ?thesis using scale_edge_costs_exact [OF s walkable_demo fin] s by blast
qed

text \<open>A factor that is refused leaves the costs before it scaled.\<close>

lemma refused_factor_scales_some:
  "wg_adjacency (fst (scale_edge_costs (\<lambda>_ _ u _. if u = 0 then Fin 2 else NaN) demo_walk)) ! 0 =
     [(1, Fin 8), (2, Fin 14)]"
  "snd (scale_edge_costs (\<lambda>_ _ u _. if u = 0 then Fin 2 else NaN) demo_walk) = Err (BadFactor NaN)"
  by (simp_all add: scale_edge_costs_def demo_walk_def f64_lt_def f64_mul_def f64_sign_def Let_def)

end
