(* ===== verification/Convex_Hull.thy ===== *)
theory Convex_Hull
  imports Walk_Valid
begin

text \<open>
  The convex hull of \<open>genegis-network/src/isochrone.rs\<close> (\<open>convex_hull\<close>, Andrew's monotone chain). Its
  vertices are points of the input, and where the floating-point turn test tells the exact turn, every
  point of the input lies on or to the left of every edge of the result.
\<close>

section \<open>Convex hulls\<close>

definition point_cmp :: "lonlat \<Rightarrow> lonlat \<Rightarrow> cmp_order" where
  "point_cmp a b =
     (case f64_partial_cmp (fst a) (fst b) of
        Some Less \<Rightarrow> Less
      | Some Greater \<Rightarrow> Greater
      | _ \<Rightarrow> (case f64_partial_cmp (snd a) (snd b) of Some c \<Rightarrow> c | None \<Rightarrow> Equal))"

text \<open>\<open>sort_by\<close> is stable: an element goes behind those that are not greater.\<close>

fun insert_point :: "lonlat \<Rightarrow> lonlat list \<Rightarrow> lonlat list" where
  "insert_point p [] = [p]"
| "insert_point p (q # qs) = (if point_cmp q p = Greater then p # q # qs else q # insert_point p qs)"

definition sort_points :: "lonlat list \<Rightarrow> lonlat list" where
  "sort_points ps = foldl (\<lambda>acc p. insert_point p acc) [] ps"

definition point_eq :: "lonlat \<Rightarrow> lonlat \<Rightarrow> bool" where
  "point_eq p q = (f64_eq (fst p) (fst q) \<and> f64_eq (snd p) (snd q))"

fun dedup_points :: "lonlat list \<Rightarrow> lonlat list" where
  "dedup_points (p # q # r) = (if point_eq q p then dedup_points (p # r) else p # dedup_points (q # r))"
| "dedup_points r = r"

definition cross :: "lonlat \<Rightarrow> lonlat \<Rightarrow> lonlat \<Rightarrow> f64" where
  "cross p a b =
     f64_sub (f64_mul (f64_sub (fst a) (fst p)) (f64_sub (snd b) (snd p)))
       (f64_mul (f64_sub (snd a) (snd p)) (f64_sub (fst b) (fst p)))"

text \<open>A chain is kept with its last point first.\<close>

fun pop_turns :: "lonlat \<Rightarrow> lonlat list \<Rightarrow> lonlat list" where
  "pop_turns p (c # b # rest) = (if f64_le (cross b c p) (Fin 0) then pop_turns p (b # rest) else c # b # rest)"
| "pop_turns p chain = chain"

definition half_hull :: "lonlat list \<Rightarrow> lonlat list" where
  "half_hull ps = rev (foldl (\<lambda>chain p. p # pop_turns p chain) [] ps)"

definition convex_hull :: "lonlat list \<Rightarrow> lonlat list" where
  "convex_hull points =
     (let ps = dedup_points (sort_points points) in
      if length ps < 3 then ps
      else butlast (half_hull ps) @ butlast (half_hull (rev ps)))"

section \<open>Vertices are points of the input\<close>

lemma set_insert_point: "set (insert_point p ps) = insert p (set ps)"
  by (induction ps) auto

lemma set_sort_points: "set (sort_points ps) = set ps"
proof -
  have "set (foldl (\<lambda>acc p. insert_point p acc) acc ps) = set acc \<union> set ps" for acc
    by (induction ps arbitrary: acc) (auto simp: set_insert_point)
  then show ?thesis by (simp add: sort_points_def)
qed

lemma set_dedup_points: "set (dedup_points ps) \<subseteq> set ps" "ps \<noteq> [] \<Longrightarrow> dedup_points ps \<noteq> []"
  by (induction ps rule: dedup_points.induct) auto

lemma set_pop_turns: "set (pop_turns p chain) \<subseteq> set chain"
  by (induction p chain rule: pop_turns.induct) auto

lemma half_hull_chain: "set (foldl (\<lambda>chain p. p # pop_turns p chain) acc ps) \<subseteq> set acc \<union> set ps"
  using set_pop_turns by (induction ps arbitrary: acc) fastforce+

lemma set_half_hull: "set (half_hull ps) \<subseteq> set ps"
  using half_hull_chain [of "[]" ps] by (simp add: half_hull_def)

lemma set_convex_hull: "set (convex_hull ps) \<subseteq> set ps"
proof -
  have "set (dedup_points (sort_points ps)) \<subseteq> set ps" using set_dedup_points(1) set_sort_points by metis
  then show ?thesis
    using set_half_hull in_set_butlastD unfolding convex_hull_def Let_def by (fastforce split: if_splits)
qed

lemma half_hull_long: "length ps \<ge> 2 \<Longrightarrow> length (half_hull ps) \<ge> 2"
proof -
  have pop: "chain \<noteq> [] \<Longrightarrow> pop_turns p chain \<noteq> []" for p chain
    by (induction p chain rule: pop_turns.induct) auto
  have long: "acc \<noteq> [] \<Longrightarrow> ps \<noteq> [] \<Longrightarrow> 2 \<le> length (foldl (\<lambda>chain p. p # pop_turns p chain) acc ps)" for acc ps
  proof (induction ps arbitrary: acc)
    case (Cons p ps)
    have "2 \<le> length (p # pop_turns p acc)" using pop [OF Cons.prems(1)] by (cases "pop_turns p acc") auto
    then show ?case using Cons.IH [of "p # pop_turns p acc"] by (cases ps) auto
  qed simp
  assume "length ps \<ge> 2"
  then obtain p q rest where ps: "ps = p # q # rest" by (metis Suc_le_length_iff numeral_2_eq_2)
  have "foldl (\<lambda>chain p. p # pop_turns p chain) [] ps = foldl (\<lambda>chain p. p # pop_turns p chain) [p] (q # rest)"
    unfolding ps by simp
  then show ?thesis using long [of "[p]" "q # rest"] unfolding half_hull_def by simp
qed

lemma convex_hull_nonempty: "ps \<noteq> [] \<Longrightarrow> convex_hull ps \<noteq> []"
proof -
  let ?ps = "dedup_points (sort_points ps)"
  assume "ps \<noteq> []"
  then have "sort_points ps \<noteq> []" using set_sort_points [of ps] by auto
  then have "?ps \<noteq> []" by (rule set_dedup_points(2))
  moreover have "butlast (half_hull ?ps) \<noteq> []" if "3 \<le> length ?ps"
    using half_hull_long [of ?ps] that by (cases "half_hull ?ps"; cases "tl (half_hull ?ps)") auto
  ultimately show ?thesis by (auto simp: convex_hull_def Let_def not_less)
qed

section \<open>Turns\<close>

text \<open>The exact turn at \<open>b\<close> on the way from \<open>a\<close> over \<open>b\<close> to \<open>c\<close>: positive to the left.\<close>

abbreviation px :: "lonlat \<Rightarrow> rat" where
  "px p \<equiv> f64_val (fst p)"

abbreviation py :: "lonlat \<Rightarrow> rat" where
  "py p \<equiv> f64_val (snd p)"

definition orient :: "lonlat \<Rightarrow> lonlat \<Rightarrow> lonlat \<Rightarrow> rat" where
  "orient a b c = (px b - px a) * (py c - py a) - (py b - py a) * (px c - px a)"

text \<open>The order of the sweep, from left to right for \<open>s = 1\<close> and back for \<open>s = - 1\<close>.\<close>

definition ahead :: "rat \<Rightarrow> lonlat \<Rightarrow> lonlat \<Rightarrow> bool" where
  "ahead s a b \<longleftrightarrow> 0 < s * (px b - px a) \<or> px b = px a \<and> 0 < s * (py b - py a)"

definition same_place :: "lonlat \<Rightarrow> lonlat \<Rightarrow> bool" where
  "same_place a b \<longleftrightarrow> px a = px b \<and> py a = py b"

lemma ahead_trans: "ahead s a b \<Longrightarrow> ahead s b c \<Longrightarrow> ahead s a c"
  unfolding ahead_def by (auto simp: right_diff_distrib)

lemma slope_trans:
  fixes ux uy vx vy wx wy :: rat
  assumes u: "0 < ux \<or> ux = 0 \<and> 0 < uy" and v: "0 < vx \<or> vx = 0 \<and> 0 < vy" and w: "0 < wx \<or> wx = 0 \<and> 0 < wy"
    and uv: "0 \<le> ux * vy - uy * vx" and vw: "0 \<le> vx * wy - vy * wx"
  shows "0 \<le> ux * wy - uy * wx"
proof (cases "vx = 0")
  case True
  then have "vy * wx \<le> 0" "0 < vy" using v vw by auto
  then have "wx = 0" "0 < wy" using w by (auto simp: mult_le_0_iff)
  then show ?thesis using u by auto
next
  case False
  then have "0 < vx" using v by auto
  have "vx * (ux * wy - uy * wx) = ux * (vx * wy - vy * wx) + wx * (ux * vy - uy * vx)" by (simp add: algebra_simps)
  also have "0 \<le> \<dots>" using u w uv vw by (intro add_nonneg_nonneg mult_nonneg_nonneg) auto
  finally show ?thesis using \<open>0 < vx\<close> by (simp add: zero_le_mult_iff)
qed

text \<open>The same for three steps of a sweep in either direction, from \<open>a\<close> to \<open>b\<close>, \<open>c\<close> to \<open>d\<close> and \<open>e\<close> to \<open>f\<close>.\<close>

definition wedge :: "lonlat \<Rightarrow> lonlat \<Rightarrow> lonlat \<Rightarrow> lonlat \<Rightarrow> rat" where
  "wedge a b c d = (px b - px a) * (py d - py c) - (py b - py a) * (px d - px c)"

lemma wedge_trans:
  assumes s: "s = 1 \<or> s = - 1" and "ahead s a b" "ahead s c d" "ahead s e f"
    and "0 \<le> wedge a b c d" "0 \<le> wedge c d e f"
  shows "0 \<le> wedge a b e f"
proof -
  have "0 \<le> (s * (px b - px a)) * (s * (py f - py e)) - (s * (py b - py a)) * (s * (px f - px e))"
  proof (rule slope_trans [where vx = "s * (px d - px c)" and vy = "s * (py d - py c)"])
    show "0 \<le> s * (px b - px a) * (s * (py d - py c)) - s * (py b - py a) * (s * (px d - px c))"
      "0 \<le> s * (px d - px c) * (s * (py f - py e)) - s * (py d - py c) * (s * (px f - px e))"
      using s assms(5,6) by (auto simp: wedge_def algebra_simps)
  qed (use assms(2-4) in \<open>auto simp: ahead_def\<close>)
  then show ?thesis using s by (auto simp: wedge_def algebra_simps)
qed

lemmas turn_algebra = orient_def wedge_def

lemma turn_wedge: "orient a b c = wedge a b b c" "orient a b c = wedge a b a c" "wedge b a c d = - wedge a b c d"
  "wedge a b d c = - wedge a b c d" "wedge c d a b = - wedge a b c d"
  by (simp_all add: turn_algebra algebra_simps)

lemma turn_same [simp]: "orient a b a = 0" "orient a b b = 0" "orient a a c = 0"
  by (simp_all add: orient_def algebra_simps)

lemma turn_place: "same_place q q' \<Longrightarrow> orient a b q = orient a b q'"
  by (simp add: orient_def same_place_def)

section \<open>The monotone chain\<close>

definition upto_point :: "rat \<Rightarrow> lonlat \<Rightarrow> lonlat \<Rightarrow> bool" where
  "upto_point s a b \<longleftrightarrow> same_place a b \<or> ahead s a b"

lemma ahead_total: "s = 1 \<or> s = - 1 \<Longrightarrow> upto_point s a b \<or> ahead s b a"
  by (auto simp: upto_point_def same_place_def ahead_def)

lemma ahead_asym: "ahead s a b \<Longrightarrow> \<not> ahead s b a"
  unfolding ahead_def by (auto simp: right_diff_distrib)

lemma upto_antisym: "upto_point s a b \<Longrightarrow> upto_point s b a \<Longrightarrow> same_place a b"
  using ahead_asym [of s a b] by (auto simp: upto_point_def same_place_def)

text \<open>The floating-point turn test is right on a set of points.\<close>

definition decided :: "lonlat set \<Rightarrow> bool" where
  "decided Q \<longleftrightarrow> (\<forall>a \<in> Q. \<forall>b \<in> Q. \<forall>c \<in> Q. f64_le (cross a b c) (Fin 0) \<longleftrightarrow> orient a b c \<le> 0)"

text \<open>All points of \<open>Q\<close> are to the left of a chain that is kept with its last point first.\<close>

fun lefts :: "lonlat list \<Rightarrow> lonlat set \<Rightarrow> bool" where
  "lefts (c # b # chain) Q \<longleftrightarrow> (\<forall>q \<in> Q. 0 \<le> orient b c q) \<and> lefts (b # chain) Q"
| "lefts chain Q \<longleftrightarrow> True"

text \<open>Popping \<open>c\<close> keeps the points behind the new top to the left of the way to \<open>p\<close>.\<close>

lemma pop_keeps_left:
  assumes s: "s = 1 \<or> s = - 1" and bc: "ahead s b c" "ahead s c p" "orient b c p \<le> 0"
    and q: "ahead s q p" "upto_point s b q" "0 \<le> orient b c q" "upto_point s c q \<longrightarrow> 0 \<le> orient c p q"
  shows "0 \<le> orient b p q"
proof (cases "upto_point s c q")
  case True
  then have "0 \<le> wedge q p c p" using q(4) by (simp add: turn_algebra algebra_simps)
  moreover have "0 \<le> wedge c p b c" using bc(3) by (simp add: turn_algebra algebra_simps)
  ultimately have "0 \<le> wedge q p b c" using wedge_trans [OF s q(1) bc(2) bc(1)] by simp
  moreover have "orient b p q = wedge q p b c + orient c p q" by (simp add: turn_algebra algebra_simps)
  ultimately show ?thesis using True q(4) by simp
next
  case False
  show ?thesis
  proof (cases "same_place b q")
    case True
    then show ?thesis using turn_place [of b q b p] by simp
  next
    case False
    then have bq: "ahead s b q" using q(2) by (simp add: upto_point_def)
    have "0 \<le> wedge c p b c" "0 \<le> wedge b c b q" using bc(3) q(3) by (simp_all add: turn_algebra algebra_simps)
    then have "0 \<le> wedge c p b q" using wedge_trans [OF s bc(2) bc(1) bq] by simp
    moreover have "orient b p q = wedge c p b q + orient b c q" by (simp add: turn_algebra algebra_simps)
    ultimately show ?thesis using q(3) by simp
  qed
qed

lemma pop_turns_spec:
  assumes "s = 1 \<or> s = - 1" "decided (insert p Q)" "\<forall>q \<in> Q. ahead s q p"
    and "chain \<noteq> []" "set chain \<subseteq> Q" "sorted_wrt (\<lambda>a b. ahead s b a) chain" "lefts chain Q"
    and "\<forall>q \<in> Q. upto_point s (hd chain) q \<longrightarrow> 0 \<le> orient (hd chain) p q"
  shows "\<exists>c rest. pop_turns p chain = c # rest \<and> suffix (c # rest) chain \<and>
    (\<forall>q \<in> Q. upto_point s c q \<longrightarrow> 0 \<le> orient c p q) \<and> (rest \<noteq> [] \<longrightarrow> 0 < orient (hd rest) c p)"
  using assms
proof (induction p chain rule: pop_turns.induct)
  case (1 p c b rest)
  have test: "f64_le (cross b c p) (Fin 0) \<longleftrightarrow> orient b c p \<le> 0" using 1(3,6) by (auto simp: decided_def)
  show ?case
  proof (cases "f64_le (cross b c p) (Fin 0)")
    case True
    have bc: "ahead s b c" "c \<in> Q" using 1(6,7) by auto
    have "0 \<le> orient b p q" if q: "q \<in> Q" "upto_point s b q" for q
    proof (rule pop_keeps_left [OF 1(2) bc(1) _ _ _ q(2)])
      show "ahead s c p" "ahead s q p" using 1(4) bc(2) q(1) by auto
      show "orient b c p \<le> 0" "0 \<le> orient b c q" using True test 1(8) q(1) by auto
      show "upto_point s c q \<longrightarrow> 0 \<le> orient c p q" using 1(9) q(1) by auto
    qed
    then have "\<forall>q \<in> Q. upto_point s (hd (b # rest)) q \<longrightarrow> 0 \<le> orient (hd (b # rest)) p q" by simp
    moreover have "set (b # rest) \<subseteq> Q" "sorted_wrt (\<lambda>a b. ahead s b a) (b # rest)" "lefts (b # rest) Q"
      using 1(6,7,8) by auto
    ultimately obtain c' rest' where r: "pop_turns p (b # rest) = c' # rest'" "suffix (c' # rest') (b # rest)"
      "\<forall>q \<in> Q. upto_point s c' q \<longrightarrow> 0 \<le> orient c' p q" "rest' \<noteq> [] \<longrightarrow> 0 < orient (hd rest') c' p"
      using 1(1) [OF True 1(2,3,4)] by blast
    have "pop_turns p (c # b # rest) = c' # rest'" "suffix (c' # rest') (c # b # rest)"
      using True r(1,2) by (simp_all add: suffix_ConsI)
    then show ?thesis using r(3,4) by blast
  next
    case False
    then show ?thesis using 1(9) test by auto
  qed
qed auto

text \<open>The points before the top are to its left as well.\<close>

lemma stop_left:
  assumes s: "s = 1 \<or> s = - 1" and "ahead s b c" "ahead s c p" "0 \<le> orient b c p" "ahead s q c" "0 \<le> orient b c q"
  shows "0 \<le> orient c p q"
proof -
  have "0 \<le> wedge q c b c" "0 \<le> wedge b c c p" using assms(4,6) by (simp_all add: turn_algebra algebra_simps)
  then have "0 \<le> wedge q c c p" using wedge_trans [OF s assms(5,2,3)] by simp
  then show ?thesis by (simp add: turn_algebra algebra_simps)
qed

lemma lefts_point:
  assumes "s = 1 \<or> s = - 1" "lefts (c # b # chain) Q" "set (c # b # chain) \<subseteq> Q"
    and "sorted_wrt (\<lambda>a b. ahead s b a) (c # b # chain)" "ahead s c p" "0 \<le> orient b c p"
  shows "lefts (c # b # chain) {p}"
  using assms
proof (induction chain arbitrary: b c)
  case (Cons a chain)
  have "0 \<le> wedge a b b c" "0 \<le> wedge b c c p" using Cons.prems(2,3,6) by (auto simp: turn_wedge(1))
  then have "0 \<le> wedge a b c p" using wedge_trans [OF Cons.prems(1), of a b b c c p] Cons.prems(4,5) by auto
  moreover have "orient a b p = orient a b c + wedge a b c p" by (simp add: turn_algebra algebra_simps)
  ultimately have "0 \<le> orient a b p" using Cons.prems(2,3) by auto
  then have "lefts (b # a # chain) {p}"
    using Cons.IH [of b a] Cons.prems ahead_trans [of s b c p] by auto
  then show ?case using Cons.prems(6) by simp
qed simp

lemma lefts_insert: "lefts chain (insert p Q) \<longleftrightarrow> lefts chain {p} \<and> lefts chain Q"
  by (induction chain Q rule: lefts.induct) auto

lemma lefts_suffix: "suffix chain' chain \<Longrightarrow> lefts chain Q \<Longrightarrow> lefts chain' Q"
proof (induction chain)
  case (Cons a chain)
  have "lefts chain Q" using Cons.prems(2) by (cases chain) auto
  then show ?case using Cons by (auto simp: suffix_Cons)
qed simp

lemma chain_step:
  assumes s: "s = 1 \<or> s = - 1" and dec: "decided (insert p Q)" and p: "\<forall>q \<in> Q. ahead s q p"
    and chain: "chain \<noteq> []" "set chain \<subseteq> Q" "sorted_wrt (\<lambda>a b. ahead s b a) chain" "lefts chain Q"
    and top: "\<forall>q \<in> Q. upto_point s q (hd chain)" and bottom: "\<forall>q \<in> Q. upto_point s (last chain) q"
  shows "lefts (p # pop_turns p chain) (insert p Q) \<and> sorted_wrt (\<lambda>a b. ahead s b a) (p # pop_turns p chain) \<and>
    set (pop_turns p chain) \<subseteq> Q \<and> pop_turns p chain \<noteq> [] \<and> last (pop_turns p chain) = last chain"
proof -
  have "orient (hd chain) p q = 0" if "q \<in> Q" "upto_point s (hd chain) q" for q
    using that top upto_antisym [of s "hd chain" q] turn_place [of "hd chain" q "hd chain" p] by simp
  then obtain c rest where r: "pop_turns p chain = c # rest" "suffix (c # rest) chain"
    "\<forall>q \<in> Q. upto_point s c q \<longrightarrow> 0 \<le> orient c p q" "rest \<noteq> [] \<longrightarrow> 0 < orient (hd rest) c p"
    using pop_turns_spec [OF s dec p chain] by force
  obtain pre where pre: "chain = pre @ c # rest" using r(2) by (auto simp: suffix_def)
  have sub: "set (c # rest) \<subseteq> Q" "sorted_wrt (\<lambda>a b. ahead s b a) (c # rest)" "last (c # rest) = last chain"
    using chain(2,3) pre by (auto simp: sorted_wrt_append)
  have left: "lefts (c # rest) Q" using lefts_suffix [OF r(2) chain(4)] .
  have cp: "ahead s c p" using p sub(1) by simp
  have edge: "0 \<le> orient c p q" if q: "q \<in> Q" for q
  proof (cases "upto_point s c q")
    case False
    then have qc: "ahead s q c" using ahead_total [OF s, of c q] by auto
    show ?thesis
    proof (cases rest)
      case Nil
      then show ?thesis using bottom q sub(3) False by auto
    next
      case (Cons b rest')
      then show ?thesis using stop_left [OF s _ cp _ qc, of b] r(4) left sub(2) q by auto
    qed
  qed (use r(3) q in blast)
  have "lefts (c # rest) {p}"
    using lefts_point [OF s _ _ _ cp] r(4) left sub(1,2) by (cases rest) fastforce+
  then have "lefts (p # c # rest) (insert p Q)" using edge left lefts_insert [of "c # rest" p Q] by simp
  moreover have "sorted_wrt (\<lambda>a b. ahead s b a) (p # c # rest)" using sub(1,2) p by auto
  ultimately show ?thesis using r(1) sub(1,3) by simp
qed

lemma half_hull_left:
  assumes s: "s = 1 \<or> s = - 1" and "sorted_wrt (ahead s) ps" "ps \<noteq> []" "decided (set ps)"
  shows "lefts (rev (half_hull ps)) (set ps) \<and> sorted_wrt (\<lambda>a b. ahead s b a) (rev (half_hull ps)) \<and>
    half_hull ps \<noteq> [] \<and> hd (half_hull ps) = hd ps \<and> last (half_hull ps) = last ps"
  using assms(3) assms(2,4)
proof (induction ps rule: rev_nonempty_induct)
  case (single p)
  then show ?case by (simp add: half_hull_def)
next
  case (snoc p ps)
  let ?c = "rev (half_hull ps)"
  have dec: "decided (set ps)" using snoc.prems(2) by (auto simp: decided_def)
  have IH: "lefts ?c (set ps)" "sorted_wrt (\<lambda>a b. ahead s b a) ?c" "?c \<noteq> []" "hd ?c = last ps" "last ?c = hd ps"
    using snoc.IH [OF _ dec] snoc.prems(1) by (auto simp: sorted_wrt_append hd_rev last_rev)
  have step: "rev (half_hull (ps @ [p])) = p # pop_turns p ?c" by (simp add: half_hull_def)
  have "upto_point s q (last ps)" if "q \<in> set ps" for q
    using snoc.prems(1) snoc.hyps that
    by (cases ps rule: rev_cases) (auto simp: upto_point_def same_place_def sorted_wrt_append)
  moreover have "upto_point s (hd ps) q" if "q \<in> set ps" for q
    using snoc.prems(1) snoc.hyps that by (cases ps) (auto simp: upto_point_def same_place_def)
  moreover have "set ?c \<subseteq> set ps" using set_half_hull by simp
  moreover have "\<forall>q \<in> set ps. ahead s q p" "decided (insert p (set ps))"
    using snoc.prems(1,2) by (auto simp: sorted_wrt_append insert_commute)
  ultimately have new: "lefts (p # pop_turns p ?c) (insert p (set ps))" "sorted_wrt (\<lambda>a b. ahead s b a) (p # pop_turns p ?c)"
    "pop_turns p ?c \<noteq> []" "last (pop_turns p ?c) = hd ps"
    using chain_step [OF s, of p "set ps" ?c] IH by auto
  have hull: "half_hull (ps @ [p]) = rev (p # pop_turns p ?c)" using step by (metis rev_rev_ident)
  show ?case using new step hull snoc.hyps by (simp add: hd_append hd_rev last_rev)
qed

section \<open>Enclosure\<close>

text \<open>A point on or to the left of every edge of a closed ring.\<close>

definition encloses :: "lonlat list \<Rightarrow> lonlat \<Rightarrow> bool" where
  "encloses ring q \<longleftrightarrow> (\<forall>(a, b) \<in> set (zip ring (rotate1 ring)). 0 \<le> orient a b q)"

lemma zip_tl_snoc: "xs \<noteq> [] \<Longrightarrow> zip (xs @ [x]) (tl (xs @ [x])) = zip xs (tl xs) @ [(last xs, x)]"
proof (induction xs rule: list_nonempty_induct)
  case (cons a xs)
  then show ?case by (cases xs) simp_all
qed simp

lemma lefts_edges: "lefts (rev xs) Q \<longleftrightarrow> (\<forall>(a, b) \<in> set (zip xs (tl xs)). \<forall>q \<in> Q. 0 \<le> orient a b q)"
proof (induction xs rule: rev_induct)
  case (snoc x xs)
  show ?case
  proof (cases xs rule: rev_cases)
    case (snoc ys y)
    have "zip (ys @ [y, x]) (tl (ys @ [y, x])) = zip (ys @ [y]) (tl (ys @ [y])) @ [(y, x)]"
      using zip_tl_snoc [of "ys @ [y]" x] by simp
    then show ?thesis using \<open>lefts (rev xs) Q = _\<close> snoc by auto
  qed simp
qed simp

lemma zip_butlast_tl: "zip (butlast xs) (tl xs) = zip xs (tl xs)"
proof (induction xs)
  case (Cons a xs)
  then show ?case by (cases xs) simp_all
qed simp

lemma ring_edges:
  assumes "2 \<le> length l" "2 \<le> length u" "last l = hd u" "last u = hd l"
  shows "set (zip (butlast l @ butlast u) (rotate1 (butlast l @ butlast u))) =
    set (zip l (tl l)) \<union> set (zip u (tl u))"
proof -
  obtain a l' where l: "l = a # l'" "l' \<noteq> []" using assms(1) by (cases l; cases "tl l") auto
  obtain b u' where u: "u = b # u'" "u' \<noteq> []" using assms(2) by (cases u; cases "tl u") auto
  have lb: "butlast l = a # butlast l'" "l' = butlast l' @ [b]" using l u assms(3) append_butlast_last_id [of l'] by auto
  have ub: "butlast u = b # butlast u'" "u' = butlast u' @ [a]" using l u assms(4) append_butlast_last_id [of u'] by auto
  have "rotate1 (butlast l @ butlast u) = l' @ u'" unfolding lb(1) ub(1) using lb(2) ub(2) by simp
  then have "zip (butlast l @ butlast u) (rotate1 (butlast l @ butlast u)) = zip (butlast l) l' @ zip (butlast u) u'"
    using l u zip_append [of "butlast l" l' "butlast u" u'] by (simp del: butlast.simps)
  moreover have "zip (butlast l) l' = zip l (tl l)" "zip (butlast u) u' = zip u (tl u)"
    using l u zip_butlast_tl [of l] zip_butlast_tl [of u] by simp_all
  ultimately show ?thesis by simp
qed

text \<open>Sorting and removing repetitions orders the places strictly and keeps each of them.\<close>

definition finite_point :: "lonlat \<Rightarrow> bool" where
  "finite_point p \<longleftrightarrow> f64_is_finite (fst p) \<and> f64_is_finite (snd p)"

lemma f64_cmp_finite:
  assumes "f64_is_finite x" "f64_is_finite y"
  shows "f64_lt x y \<longleftrightarrow> f64_val x < f64_val y" "f64_eq x y \<longleftrightarrow> f64_val x = f64_val y"
  using assms by (cases x; cases y; auto simp: f64_lt_def f64_eq_def f64_le_def)+

lemma point_cmp_Greater:
  "finite_point a \<Longrightarrow> finite_point b \<Longrightarrow> point_cmp a b = Greater \<longleftrightarrow> ahead 1 b a"
  by (auto simp: point_cmp_def finite_point_def ahead_def f64_partial_cmp_def f64_cmp_finite)

lemma upto_trans: "upto_point s a b \<Longrightarrow> upto_point s b c \<Longrightarrow> upto_point s a c"
  unfolding upto_point_def ahead_def same_place_def by (auto simp: right_diff_distrib)

lemma sorted_insert_point:
  assumes "finite_point p" "list_all finite_point ps" "sorted_wrt (upto_point 1) ps"
  shows "sorted_wrt (upto_point 1) (insert_point p ps)"
  using assms
proof (induction ps)
  case (Cons q ps)
  show ?case
  proof (cases "point_cmp q p = Greater")
    case True
    then have "upto_point 1 p q" using point_cmp_Greater [of q p] Cons.prems by (simp add: upto_point_def)
    then show ?thesis using True Cons.prems upto_trans [of 1 p q] by auto
  next
    case False
    then have "upto_point 1 q p" using point_cmp_Greater [of q p] ahead_total [of 1 q p] Cons.prems by auto
    then show ?thesis using False Cons by (auto simp: set_insert_point)
  qed
qed simp

lemma sorted_sort_points:
  assumes "list_all finite_point ps" shows "sorted_wrt (upto_point 1) (sort_points ps)"
proof -
  have "sorted_wrt (upto_point 1) (foldl (\<lambda>acc p. insert_point p acc) acc ps)"
    if "sorted_wrt (upto_point 1) acc" "list_all finite_point acc" for acc
    using assms that
    by (induction ps arbitrary: acc) (auto simp: sorted_insert_point set_insert_point list_all_iff)
  then show ?thesis by (simp add: sort_points_def)
qed

lemma dedup_points_spec:
  assumes "list_all finite_point ps" "sorted_wrt (upto_point 1) ps"
  shows "sorted_wrt (ahead 1) (dedup_points ps) \<and> (ps \<noteq> [] \<longrightarrow> hd (dedup_points ps) = hd ps) \<and>
    (\<forall>p \<in> set ps. \<exists>q \<in> set (dedup_points ps). same_place p q)"
  using assms
proof (induction ps rule: dedup_points.induct)
  case (1 p q r)
  have eq: "point_eq q p \<longleftrightarrow> same_place p q"
    using 1(3) by (auto simp: point_eq_def finite_point_def f64_cmp_finite same_place_def)
  show ?case
  proof (cases "point_eq q p")
    case True
    then have IH: "sorted_wrt (ahead 1) (dedup_points (p # r)) \<and> hd (dedup_points (p # r)) = p \<and>
        (\<forall>x \<in> set (p # r). \<exists>y \<in> set (dedup_points (p # r)). same_place x y)"
      using 1 by auto
    have "dedup_points (p # r) \<noteq> []" using set_dedup_points(2) by blast
    then have "p \<in> set (dedup_points (p # r))" using IH hd_in_set by metis
    then show ?thesis using IH True eq by (auto simp: same_place_def intro: bexI [of _ p])
  next
    case False
    then have IH: "sorted_wrt (ahead 1) (dedup_points (q # r))" "hd (dedup_points (q # r)) = q"
        "\<forall>x \<in> set (q # r). \<exists>y \<in> set (dedup_points (q # r)). same_place x y"
      using 1 by auto
    have "ahead 1 p q" using 1(4) False eq by (auto simp: upto_point_def)
    moreover obtain t where t: "dedup_points (q # r) = q # t"
      using IH(2) set_dedup_points(2) [of "q # r"] by (cases "dedup_points (q # r)") auto
    ultimately have "sorted_wrt (ahead 1) (p # dedup_points (q # r))"
      using IH(1) ahead_trans [of 1 p q] by auto
    then show ?thesis using IH(3) False by (auto simp: same_place_def)
  qed
qed (auto simp: same_place_def)

theorem convex_hull_encloses:
  assumes "list_all finite_point points" "decided (set points)" "q \<in> set points"
  shows "encloses (convex_hull points) q"
proof -
  let ?ps = "dedup_points (sort_points points)"
  have fin: "list_all finite_point (sort_points points)" using assms(1) set_sort_points by (metis list_all_iff)
  note D = dedup_points_spec [OF fin sorted_sort_points [OF assms(1)]]
  have sorted: "sorted_wrt (ahead 1) ?ps" using D by blast
  have sub: "set ?ps \<subseteq> set points" using set_dedup_points(1) set_sort_points by metis
  obtain q' where q': "q' \<in> set ?ps" "same_place q q'" using D assms(3) set_sort_points by metis
  then have ne: "?ps \<noteq> []" by auto
  have dec: "decided (set ?ps)" "decided (set (rev ?ps))" using assms(2) sub by (auto simp: decided_def)
  have "encloses (convex_hull points) q'"
  proof (cases "length ?ps < 3")
    case True
    then consider a where "?ps = [a]" | a b where "?ps = [a, b]"
      using ne by (cases ?ps; cases "tl ?ps"; cases "tl (tl ?ps)") auto
    then show ?thesis using q'(1) True by cases (auto simp: convex_hull_def encloses_def)
  next
    case False
    have "sorted_wrt (ahead (- 1)) (rev ?ps)"
      using sorted by (simp add: sorted_wrt_rev) (erule sorted_wrt_mono_rel [rotated], auto simp: ahead_def)
    then have up: "lefts (rev (half_hull (rev ?ps))) (set ?ps)" "hd (half_hull (rev ?ps)) = last ?ps"
        "last (half_hull (rev ?ps)) = hd ?ps"
      using half_hull_left [of "- 1" "rev ?ps"] ne dec(2) by (auto simp: hd_rev last_rev)
    have low: "lefts (rev (half_hull ?ps)) (set ?ps)" "hd (half_hull ?ps) = hd ?ps" "last (half_hull ?ps) = last ?ps"
      using half_hull_left [of 1 ?ps] sorted ne dec(1) by auto
    have "2 \<le> length (half_hull ?ps)" "2 \<le> length (half_hull (rev ?ps))"
      using half_hull_long [of ?ps] half_hull_long [of "rev ?ps"] False by auto
    from ring_edges [OF this] low up False q'(1) show ?thesis
      by (auto simp: convex_hull_def Let_def encloses_def lefts_edges)
  qed
  then show ?thesis using turn_place [OF q'(2)] by (auto simp: encloses_def)
qed

text \<open>The test is right on grid points of moderate size, where no operation rounds.\<close>

definition grid_point :: "lonlat \<Rightarrow> bool" where
  "grid_point p \<longleftrightarrow> (\<exists>x y :: int. p = (Fin (of_int x), Fin (of_int y)) \<and> \<bar>x\<bar> < 2 ^ 25 \<and> \<bar>y\<bar> < 2 ^ 25)"

definition whole :: "f64 \<Rightarrow> int \<Rightarrow> bool" where
  "whole x k \<longleftrightarrow> f64_is_finite x \<and> f64_val x = of_int k"

lemma whole_round: "\<bar>k\<bar> < 2 ^ 53 \<Longrightarrow> whole (f64_round neg (of_int k)) k"
  using f64_round_exact [OF refl, of k neg] by (cases "k = 0") (auto simp: whole_def)

lemma whole_sub: "whole x a \<Longrightarrow> whole y b \<Longrightarrow> \<bar>a - b\<bar> < 2 ^ 53 \<Longrightarrow> whole (f64_sub x y) (a - b)"
proof -
  assume *: "whole x a" "whole y b" "\<bar>a - b\<bar> < 2 ^ 53"
  then have "f64_is_finite x" "f64_is_finite (f64_neg y)" "f64_val x + f64_val (f64_neg y) = of_int (a - b)"
    by (cases y; auto simp: whole_def)+
  then show ?thesis using whole_round [OF *(3)] by (simp add: f64_sub_def f64_add_finite)
qed

lemma whole_mul: "whole x a \<Longrightarrow> whole y b \<Longrightarrow> \<bar>a * b\<bar> < 2 ^ 53 \<Longrightarrow> whole (f64_mul x y) (a * b)"
proof -
  assume *: "whole x a" "whole y b" "\<bar>a * b\<bar> < 2 ^ 53"
  then have "f64_is_finite x" "f64_is_finite y" "x \<noteq> NaN" "y \<noteq> NaN" "f64_val x * f64_val y = of_int (a * b)"
    by (auto simp: whole_def)
  then show ?thesis using whole_round [OF *(3)] by (simp add: f64_mul_def Let_def)
qed

lemma grid_decided: "\<forall>p \<in> Q. grid_point p \<Longrightarrow> decided Q"
proof -
  assume grid: "\<forall>p \<in> Q. grid_point p"
  have "f64_le (cross a b c) (Fin 0) \<longleftrightarrow> orient a b c \<le> 0" if abc: "a \<in> Q" "b \<in> Q" "c \<in> Q" for a b c
  proof -
    obtain ax ay where a: "a = (Fin (of_int ax), Fin (of_int ay))" "\<bar>ax\<bar> < 2 ^ 25" "\<bar>ay\<bar> < 2 ^ 25"
      using grid abc(1) unfolding grid_point_def by blast
    obtain bx by' where b: "b = (Fin (of_int bx), Fin (of_int by'))" "\<bar>bx\<bar> < 2 ^ 25" "\<bar>by'\<bar> < 2 ^ 25"
      using grid abc(2) unfolding grid_point_def by blast
    obtain cx cy where c: "c = (Fin (of_int cx), Fin (of_int cy))" "\<bar>cx\<bar> < 2 ^ 25" "\<bar>cy\<bar> < 2 ^ 25"
      using grid abc(3) unfolding grid_point_def by blast
    note p = a(1) b(1) c(1) and bound = a(2,3) b(2,3) c(2,3)
    have small: "\<bar>x\<bar> < 2 ^ 25 \<Longrightarrow> \<bar>y\<bar> < 2 ^ 25 \<Longrightarrow> \<bar>x - y\<bar> < 2 ^ 26" for x y :: int by (auto simp: abs_less_iff)
    have prod: "\<bar>x * y\<bar> < 2 ^ 52" if "\<bar>x\<bar> < 2 ^ 26" "\<bar>y\<bar> < 2 ^ 26" for x y :: int
      using mult_strict_mono [OF that] by (simp add: abs_mult)
    have diff: "whole (f64_sub (Fin (of_int x)) (Fin (of_int y))) (x - y)" if "\<bar>x - y\<bar> < 2 ^ 26" for x y :: int
      using that by (intro whole_sub) (auto simp: whole_def)
    have product: "whole (f64_mul (f64_sub (Fin (of_int x)) (Fin (of_int y))) (f64_sub (Fin (of_int z)) (Fin (of_int w)))) ((x - y) * (z - w))"
      if "\<bar>x - y\<bar> < 2 ^ 26" "\<bar>z - w\<bar> < 2 ^ 26" for x y z w :: int
      using that prod [OF that] by (intro whole_mul diff) auto
    have "\<bar>(bx - ax) * (cy - ay) - (by' - ay) * (cx - ax)\<bar> < 2 ^ 53"
      using prod [OF small small, OF bound(3,1,6,2)] prod [OF small small, OF bound(4,2,5,1)]
      by (auto simp: abs_less_iff)
    then have "whole (cross a b c) ((bx - ax) * (cy - ay) - (by' - ay) * (cx - ax))"
      unfolding cross_def p fst_conv snd_conv by (rule whole_sub [OF product [OF small small] product [OF small small], OF bound(3,1,6,2,4,2,5,1)])
    moreover have "orient a b c = of_int ((bx - ax) * (cy - ay) - (by' - ay) * (cx - ax))" by (simp add: orient_def p)
    ultimately show ?thesis by (cases "cross a b c") (auto simp: whole_def f64_le_def)
  qed
  then show ?thesis by (simp add: decided_def)
qed

end
