(* ===== verification/Isochrone.thy ===== *)
theory Isochrone
  imports Convex_Hull
begin

text \<open>
  Isochrones (\<open>genegis-network/src/isochrone.rs\<close>): the points reached within a threshold, their convex
  hull and its area. On a graph whose costs are not negative an isochrone exists for every finite
  positive threshold, its vertices are nodes within reach and it encloses all of them.
\<close>

section \<open>Area\<close>

text \<open>The shoelace area in square metres; the scale is taken at the mean latitude.\<close>

definition polygon_area_m2 :: "geometry_math \<Rightarrow> lonlat list \<Rightarrow> f64" where
  "polygon_area_m2 gm vs =
     (if length vs < 3 then Fin 0
      else
        let mean_lat = f64_div (f64_sum (map snd vs)) (f64_round False (of_nat (length vs)));
            lat_scale = Fin 111320;
            lon_scale = f64_mul (Fin 111320) (gm_cos gm (gm_to_radians gm mean_lat));
            twice_area = foldl (\<lambda>acc i.
              let a = vs ! i; b = vs ! ((i + 1) mod length vs) in
              f64_add acc (f64_sub (f64_mul (f64_mul (fst a) lon_scale) (f64_mul (snd b) lat_scale))
                (f64_mul (f64_mul (fst b) lon_scale) (f64_mul (snd a) lat_scale))))
              (Fin 0) [0..<length vs]
        in f64_abs (f64_div twice_area (Fin 2)))"

section \<open>Isochrones\<close>

record isochrone =
  is_origin :: u32
  is_threshold_minutes :: f64
  is_vertices :: "lonlat list"
  is_reachable_nodes :: nat
  is_area_m2 :: f64

definition reachable_points :: "f64 \<Rightarrow> f64 option list \<Rightarrow> lonlat list \<Rightarrow> lonlat list" where
  "reachable_points threshold ts nodes = map snd (filter (\<lambda>(t, _). reached_by threshold t) (zip ts nodes))"

definition vertices_len_hint :: "f64 option list \<Rightarrow> f64 \<Rightarrow> nat" where
  "vertices_len_hint ts threshold = length (filter (reached_by threshold) ts)"

definition mk_isochrone ::
  "geometry_math \<Rightarrow> (queue_entry list \<Rightarrow> queue_entry) \<Rightarrow> walk_graph \<Rightarrow> u32 \<Rightarrow> f64 \<Rightarrow> (network_error + isochrone) option" where
  "mk_isochrone gm pick g origin threshold =
     (if \<not> (f64_is_finite threshold \<and> f64_lt (Fin 0) threshold) then Some (Err (BadThreshold threshold))
      else map_option (\<lambda>r. and_then r (\<lambda>ts.
        let reachable = reachable_points threshold ts (wg_nodes g) in
        if reachable = [] then Err (NetworkRouting ''origin reaches no nodes within the threshold'')
        else
          let vertices = convex_hull reachable in
          Ok \<lparr>is_origin = origin, is_threshold_minutes = threshold, is_vertices = vertices,
              is_reachable_nodes = vertices_len_hint ts threshold, is_area_m2 = polygon_area_m2 gm vertices\<rparr>))
        (travel_times_from pick g origin))"

section \<open>What an isochrone spans\<close>

text \<open>The nodes with a route that takes no longer than the threshold.\<close>

definition within_reach :: "walk_graph \<Rightarrow> u32 \<Rightarrow> f64 \<Rightarrow> nat set" where
  "within_reach g origin threshold =
     {v. v < node_count g \<and> (\<exists>c. route g (unat origin) v c \<and> f64_le c threshold)}"

text \<open>C36: on a graph whose costs are not negative an isochrone exists for every finite positive threshold: its
  vertices are nodes within reach, there is at least one, and its count is the number of nodes with a
  route that takes no longer than the threshold. It is a hull of these nodes: where they have finite
  coordinates and the floating-point turn test is right on them, each of them lies on or to the left
  of every edge of the ring of vertices.\<close>

theorem isochrone_exists:
  assumes "walkable g" "unat origin < node_count g" "heap_choice pick"
    and "f64_is_finite threshold" "f64_lt (Fin 0) threshold"
    and "near = (\<lambda>v. wg_nodes g ! v) ` within_reach g origin threshold"
  shows "\<exists>i. mk_isochrone gm pick g origin threshold = Some (Ok i) \<and>
    is_vertices i \<noteq> [] \<and> set (is_vertices i) \<subseteq> near \<and>
    is_reachable_nodes i = card (within_reach g origin threshold) \<and>
    ((\<forall>p \<in> near. finite_point p) \<and> decided near \<longrightarrow> (\<forall>p \<in> near. encloses (is_vertices i) p))"
proof -
  obtain ts where ts: "travel_times_from pick g origin = Some (Ok ts)" "length ts = node_count g"
    "\<And>v t. v < node_count g \<Longrightarrow> ts ! v = Some t \<Longrightarrow> route g (unat origin) v t"
    "\<And>v c. route g (unat origin) v c \<Longrightarrow> \<exists>t. ts ! v = Some t \<and> f64_le t c"
    using travel_times_correct [OF assms(1-3)] by blast
  have reach: "reached_by threshold (ts ! v) \<longleftrightarrow> (\<exists>c. route g (unat origin) v c \<and> f64_le c threshold)"
    if "v < node_count g" for v
    using ts(3) [OF that] ts(4) [of v] f64_le_trans by (force simp: reached_by_def split: option.splits)
  let ?ps = "reachable_points threshold ts (wg_nodes g)"
  have points: "set ?ps = near"
    unfolding assms(6) within_reach_def
    using reach ts(2) by (force simp: reachable_points_def set_zip node_count_def)
  have "unat origin \<in> within_reach g origin threshold"
    using assms(2,5) route_start [of g "unat origin"] f64_lt_imp_le by (auto simp: within_reach_def)
  then have some: "?ps \<noteq> []" using points assms(6) by force
  have count: "vertices_len_hint ts threshold = card (within_reach g origin threshold)"
    using reach ts(2)
    by (auto simp: vertices_len_hint_def within_reach_def length_filter_conv_card intro!: arg_cong [where f = card])
  have hull: "set (convex_hull ?ps) \<subseteq> near" using set_convex_hull [of ?ps] points by blast
  have ring: "encloses (convex_hull ?ps) p" if "\<forall>p \<in> near. finite_point p" "decided near" "p \<in> near" for p
    using convex_hull_encloses [of ?ps p] that points by (auto simp: list_all_iff)
  let ?i = "\<lparr>is_origin = origin, is_threshold_minutes = threshold, is_vertices = convex_hull ?ps,
    is_reachable_nodes = vertices_len_hint ts threshold, is_area_m2 = polygon_area_m2 gm (convex_hull ?ps)\<rparr>"
  have "mk_isochrone gm pick g origin threshold = Some (Ok ?i)"
    using ts(1) assms(4,5) some by (simp add: mk_isochrone_def Let_def)
  then show ?thesis using hull convex_hull_nonempty [OF some] count ring by fastforce
qed

text \<open>Four nodes around a corner, one of them inside the triangle of the others.\<close>

definition corner_walk :: walk_graph where
  "corner_walk = \<lparr>wg_nodes = [(Fin 0, Fin 0), (Fin 4, Fin 0), (Fin 0, Fin 4), (Fin 1, Fin 1)],
     wg_adjacency = [[(1, Fin 1), (2, Fin 1), (3, Fin 1)], [(0, Fin 1)], [(0, Fin 1)], [(0, Fin 1)]],
     wg_edge_count = 3, wg_total_length_m = Fin 960, wg_walk_speed_m_per_min = Fin 80\<rparr>"

lemma corner_grid: "p \<in> set (wg_nodes corner_walk) \<Longrightarrow> grid_point p"
proof -
  have g: "grid_point (Fin (of_int x), Fin (of_int y))" if "\<bar>x\<bar> < 2 ^ 25" "\<bar>y\<bar> < 2 ^ 25" for x y
    using that unfolding grid_point_def by blast
  assume "p \<in> set (wg_nodes corner_walk)"
  then show "grid_point p" using g [of 0 0] g [of 4 0] g [of 0 4] g [of 1 1] by (auto simp: corner_walk_def)
qed

theorem isochrone_exists_witness:
  "\<exists>i. mk_isochrone \<lparr>gm_cos = (\<lambda>x. Fin 1), gm_to_radians = (\<lambda>x. x), gm_sqrt = (\<lambda>x. x)\<rparr> first_greatest corner_walk 0 (Fin 5) =
     Some (Ok i) \<and> encloses (is_vertices i) (Fin 1, Fin 1)"
proof -
  let ?near = "(\<lambda>v. wg_nodes corner_walk ! v) ` within_reach corner_walk 0 (Fin 5)"
  have n: "unat (0 :: u32) < node_count corner_walk" by (simp add: node_count_def corner_walk_def)
  have w: "walkable corner_walk" by (simp add: walkable_def node_count_def corner_walk_def cost_ok_numeral)
  have grid: "\<forall>p \<in> ?near. grid_point p"
    using corner_grid by (auto simp: within_reach_def node_count_def)
  then have "\<forall>p \<in> ?near. finite_point p" "decided ?near"
    using grid_decided by (auto simp: grid_point_def finite_point_def)
  moreover have "route corner_walk (unat (0 :: u32)) (unat (3 :: u32)) (f64_add (Fin 0) (Fin 1))"
    by (rule route_arc [OF route_start]) (simp add: corner_walk_def)
  then have "3 \<in> within_reach corner_walk 0 (Fin 5)"
    by (auto simp: within_reach_def node_count_def corner_walk_def f64_add_def f64_le_def intro: exI [of _ "Fin 1"])
  then have "(Fin 1, Fin 1) \<in> ?near" by (force simp: corner_walk_def)
  moreover have "f64_is_finite (Fin 5)" "f64_lt (Fin 0) (Fin 5)" by (simp_all add: f64_lt_def)
  ultimately show ?thesis using isochrone_exists [OF w n heap_choice_first_greatest _ _ refl] by blast
qed

end
