(* ===== verification/Transit.thy ===== *)
theory Transit
  imports Walk_Valid
begin

text \<open>
  Routing over streets and ride corridors (\<open>genegis-network/src/transit.rs\<close>). The loop keeps one time
  per node and queues the line a traveller arrives by; comparisons leave a tolerance of \<open>1e-12\<close>. It
  ends, its times are those of journeys and it reaches every node that a journey reaches. The times are
  not always the least: a label that arrives later but on board of the right line is dropped.
\<close>

section \<open>Transit graphs\<close>

record transit_stop =
  ts_id :: string
  ts_walk_node :: u32
  ts_lines :: "string list"

record ride_edge =
  re_from_walk_node :: u32
  re_to_walk_node :: u32
  re_line :: string
  re_ride_minutes :: f64
  re_wait_minutes :: f64

record transit_graph =
  tg_walk :: walk_graph
  tg_stops :: "transit_stop list"
  tg_rides :: "ride_edge list"
  tg_transfer_penalty_minutes :: f64

datatype transit_error =
    BadTransferPenalty
  | StopIncomplete string
  | StopOutside string
  | BadRideTime string
  | BadWaitTime string
  | RideOutside string
  | TransitUnreachable u32 u32
  | TransitPanic

definition check_stop :: "nat \<Rightarrow> transit_stop \<Rightarrow> transit_error + unit" where
  "check_stop n s =
     and_then (reject (blank (ts_id s) \<or> ts_lines s = []) (StopIncomplete (ts_id s))) (\<lambda>_.
     reject (n \<le> unat (ts_walk_node s)) (StopOutside (ts_id s)))"

definition check_ride :: "nat \<Rightarrow> ride_edge \<Rightarrow> transit_error + unit" where
  "check_ride n r =
     and_then (reject (\<not> f64_is_finite (re_ride_minutes r) \<or> f64_lt (re_ride_minutes r) (Fin 0)) (BadRideTime (re_line r))) (\<lambda>_.
     and_then (reject (\<not> (f64_is_finite (re_wait_minutes r) \<and> f64_le (Fin 0) (re_wait_minutes r))) (BadWaitTime (re_line r))) (\<lambda>_.
     reject (n \<le> unat (re_from_walk_node r) \<or> n \<le> unat (re_to_walk_node r)) (RideOutside (re_line r))))"

definition transit_new ::
  "walk_graph \<Rightarrow> transit_stop list \<Rightarrow> ride_edge list \<Rightarrow> f64 \<Rightarrow> transit_error + transit_graph" where
  "transit_new walk stops rides penalty =
     and_then (reject (\<not> (f64_le (Fin 0) penalty \<and> f64_is_finite penalty)) BadTransferPenalty) (\<lambda>_.
     and_then (try_for (check_stop (node_count walk)) stops) (\<lambda>_.
     and_then (try_for (check_ride (node_count walk)) rides) (\<lambda>_.
     Ok \<lparr>tg_walk = walk, tg_stops = stops, tg_rides = rides, tg_transfer_penalty_minutes = penalty\<rparr>)))"

definition line_count :: "transit_graph \<Rightarrow> nat" where
  "line_count tg = length (remdups (concat (map ts_lines (tg_stops tg))))"

section \<open>Travel times\<close>

record transit_entry =
  te_cost :: f64
  te_node :: u32
  te_line :: "string option"

definition transit_cmp :: "transit_entry \<Rightarrow> transit_entry \<Rightarrow> cmp_order" where
  "transit_cmp a b =
     (case f64_partial_cmp (te_cost b) (te_cost a) of
        Some Less \<Rightarrow> Less
      | Some Greater \<Rightarrow> Greater
      | _ \<Rightarrow> if te_node a < te_node b then Less else if te_node b < te_node a then Greater else Equal)"

text \<open>The promise of \<open>BinaryHeap::pop\<close>, as for walking.\<close>

definition transit_choice :: "(transit_entry list \<Rightarrow> transit_entry) \<Rightarrow> bool" where
  "transit_choice pick \<longleftrightarrow>
     (\<forall>heap. heap \<noteq> [] \<and> (\<forall>e \<in> set heap. te_cost e \<noteq> NaN) \<longrightarrow>
        pick heap \<in> set heap \<and> (\<forall>e \<in> set heap. transit_cmp e (pick heap) \<noteq> Greater))"

text \<open>\<open>rides_by_node\<close>: every ride under its first and under its second end.\<close>

definition rides_at :: "ride_edge list \<Rightarrow> u32 \<Rightarrow> ride_edge list" where
  "rides_at rides node = concat (map (\<lambda>r.
     (if re_from_walk_node r = node then [r] else []) @ (if re_to_walk_node r = node then [r] else [])) rides)"

definition tolerance_minutes :: f64 where
  "tolerance_minutes = f64_lit (1 / 1000000000000)"

type_synonym transit_state = "f64 option list \<times> transit_entry list"

definition offer :: "transit_state \<Rightarrow> transit_entry \<Rightarrow> transit_state" where
  "offer = (\<lambda>(distances, heap) e.
     if (case distances ! unat (te_node e) of
           None \<Rightarrow> True
         | Some known \<Rightarrow> f64_lt (te_cost e) (f64_sub known tolerance_minutes))
     then (distances[unat (te_node e) := Some (te_cost e)], heap @ [e])
     else (distances, heap))"

definition outdated :: "f64 option list \<Rightarrow> transit_entry \<Rightarrow> bool" where
  "outdated distances e =
     (case distances ! unat (te_node e) of
        None \<Rightarrow> False
      | Some known \<Rightarrow> f64_lt (f64_add known tolerance_minutes) (te_cost e))"

definition walk_moves :: "transit_graph \<Rightarrow> transit_entry \<Rightarrow> transit_entry list" where
  "walk_moves tg e =
     map (\<lambda>(neighbour, walk_cost). \<lparr>te_cost = f64_add (te_cost e) walk_cost, te_node = neighbour, te_line = None\<rparr>)
       (adjacent (tg_walk tg) (te_node e))"

definition ride_move :: "transit_graph \<Rightarrow> transit_entry \<Rightarrow> ride_edge \<Rightarrow> transit_entry" where
  "ride_move tg e r =
     (let alight = (if re_from_walk_node r = te_node e then re_to_walk_node r else re_from_walk_node r);
          is_new_line = (te_line e \<noteq> Some (re_line r));
          wait = (if is_new_line then re_wait_minutes r else Fin 0);
          transfer = (if is_new_line \<and> te_line e \<noteq> None then tg_transfer_penalty_minutes tg else Fin 0)
      in \<lparr>te_cost = f64_add (f64_add (f64_add (te_cost e) wait) transfer) (re_ride_minutes r),
          te_node = alight, te_line = Some (re_line r)\<rparr>)"

definition ride_moves :: "transit_graph \<Rightarrow> transit_entry \<Rightarrow> transit_entry list" where
  "ride_moves tg e = map (ride_move tg e) (rides_at (tg_rides tg) (te_node e))"

definition transit_step ::
  "(transit_entry list \<Rightarrow> transit_entry) \<Rightarrow> transit_graph \<Rightarrow> transit_state \<Rightarrow> transit_state" where
  "transit_step pick tg = (\<lambda>(distances, heap).
     let entry = pick heap; rest = remove1 entry heap in
     if outdated distances entry then (distances, rest)
     else foldl offer (foldl offer (distances, rest) (walk_moves tg entry)) (ride_moves tg entry))"

definition transit_times_from ::
  "(transit_entry list \<Rightarrow> transit_entry) \<Rightarrow> transit_graph \<Rightarrow> u32 \<Rightarrow> (transit_error + f64 option list) option" where
  "transit_times_from pick tg origin =
     (if unat origin < node_count (tg_walk tg) then
        map_option (\<lambda>(distances, _). Ok distances)
          (while_option (\<lambda>(_, heap). heap \<noteq> []) (transit_step pick tg)
            ((replicate (node_count (tg_walk tg)) None)[unat origin := Some (Fin 0)],
             [\<lparr>te_cost = Fin 0, te_node = origin, te_line = None\<rparr>]))
      else Some (Err TransitPanic))"

definition transit_route_minutes ::
  "(transit_entry list \<Rightarrow> transit_entry) \<Rightarrow> transit_graph \<Rightarrow> u32 \<Rightarrow> u32 \<Rightarrow> (transit_error + f64) option" where
  "transit_route_minutes pick tg from to =
     map_option (\<lambda>r. and_then r (\<lambda>minutes_to. ok_or (time_at minutes_to to) (TransitUnreachable from to)))
       (transit_times_from pick tg from)"

definition transit_opportunities ::
  "(transit_entry list \<Rightarrow> transit_entry) \<Rightarrow> transit_graph \<Rightarrow> u32 \<Rightarrow> u32 list \<Rightarrow> f64 \<Rightarrow> (transit_error + nat) option" where
  "transit_opportunities pick tg origin poi_nodes threshold_minutes =
     map_option (map_ok (\<lambda>minutes_to. length (filter (\<lambda>poi. reached_by threshold_minutes (time_at minutes_to poi)) poi_nodes)))
       (transit_times_from pick tg origin)"

section \<open>Journeys\<close>

text \<open>A journey walks and rides from the origin; it ends with its cost, its place and the line it is on.\<close>

inductive journey :: "transit_graph \<Rightarrow> u32 \<Rightarrow> transit_entry \<Rightarrow> bool" for tg origin where
  journey_start: "journey tg origin \<lparr>te_cost = Fin 0, te_node = origin, te_line = None\<rparr>"
| journey_walk: "journey tg origin e \<Longrightarrow> m \<in> set (walk_moves tg e) \<Longrightarrow> journey tg origin m"
| journey_ride: "journey tg origin e \<Longrightarrow> m \<in> set (ride_moves tg e) \<Longrightarrow> journey tg origin m"

definition ridable :: "transit_graph \<Rightarrow> bool" where
  "ridable tg \<longleftrightarrow> walkable (tg_walk tg) \<and> cost_ok (tg_transfer_penalty_minutes tg) \<and>
     list_all (\<lambda>r. cost_ok (re_ride_minutes r) \<and> cost_ok (re_wait_minutes r) \<and>
       unat (re_from_walk_node r) < node_count (tg_walk tg) \<and> unat (re_to_walk_node r) < node_count (tg_walk tg))
       (tg_rides tg)"

definition moves :: "transit_graph \<Rightarrow> transit_entry \<Rightarrow> transit_entry list" where
  "moves tg e = walk_moves tg e @ ride_moves tg e"

lemma journey_moves: "journey tg origin e \<Longrightarrow> m \<in> set (moves tg e) \<Longrightarrow> journey tg origin m"
  by (auto simp: moves_def intro: journey_walk journey_ride)

lemma set_rides_at: "set (rides_at rides v) = {r \<in> set rides. re_from_walk_node r = v \<or> re_to_walk_node r = v}"
  by (auto simp: rides_at_def)

lemma moves_ok:
  assumes "ridable tg" "unat (te_node e) < node_count (tg_walk tg)" "cost_ok (te_cost e)" "m \<in> set (moves tg e)"
  shows "unat (te_node m) < node_count (tg_walk tg) \<and> cost_ok (te_cost m) \<and> f64_le (te_cost e) (te_cost m)"
proof -
  have grow: "cost_ok c \<Longrightarrow> cost_ok w \<Longrightarrow> f64_le b c \<Longrightarrow> cost_ok (f64_add c w) \<and> f64_le b (f64_add c w)" for b c w
    using cost_ok_add f64_le_add f64_le_trans by blast
  consider (walk) v w where "(v, w) \<in> set (adjacent (tg_walk tg) (te_node e))"
      "m = \<lparr>te_cost = f64_add (te_cost e) w, te_node = v, te_line = None\<rparr>"
    | (ride) r where "r \<in> set (tg_rides tg)" "m = ride_move tg e r"
    using assms(4) by (auto simp: moves_def walk_moves_def ride_moves_def set_rides_at)
  then show ?thesis
  proof cases
    case walk
    then show ?thesis
      using assms(1,2,3) walkable_arc [of "tg_walk tg" "unat (te_node e)" v w] cost_ok_add f64_le_add
      by (auto simp: ridable_def adjacent_def)
  next
    case ride
    have r: "cost_ok (re_ride_minutes r)" "cost_ok (re_wait_minutes r)" "cost_ok (tg_transfer_penalty_minutes tg)"
      "unat (re_from_walk_node r) < node_count (tg_walk tg)" "unat (re_to_walk_node r) < node_count (tg_walk tg)"
      using assms(1) ride(1) by (auto simp: ridable_def list_all_iff)
    have three: "cost_ok a \<Longrightarrow> cost_ok b \<Longrightarrow> cost_ok c \<Longrightarrow>
        cost_ok (f64_add (f64_add (f64_add (te_cost e) a) b) c) \<and>
        f64_le (te_cost e) (f64_add (f64_add (f64_add (te_cost e) a) b) c)" for a b c
      using grow [OF grow [THEN conjunct1] _ grow [THEN conjunct2]] grow cost_ok_add f64_le_add assms(3) by meson
    show ?thesis
      using three [OF _ _ r(1)] r(2-5) unfolding ride(2) ride_move_def Let_def by simp
  qed
qed

lemma journey_ok:
  assumes "ridable tg" "unat origin < node_count (tg_walk tg)" "journey tg origin e"
  shows "unat (te_node e) < node_count (tg_walk tg) \<and> cost_ok (te_cost e)"
  using assms(3) by induction (use assms(2) moves_ok [OF assms(1)] in \<open>auto simp: moves_def\<close>)

section \<open>Offering moves\<close>

lemma tolerance_ok: "cost_ok tolerance_minutes" "f64_is_finite tolerance_minutes"
proof -
  have "f64_le (f64_round False 0) tolerance_minutes" "f64_le tolerance_minutes (f64_round False 1)"
    unfolding tolerance_minutes_def f64_lit_def by (intro f64_round_le; simp)+
  then have le: "f64_le (Fin 0) tolerance_minutes" "f64_le tolerance_minutes (Fin 1)"
    by (simp_all add: f64_round_numeral)
  moreover have "f64_exact tolerance_minutes"
    unfolding tolerance_minutes_def f64_lit_def by (rule f64_exact_round) simp
  ultimately show "cost_ok tolerance_minutes" "f64_is_finite tolerance_minutes"
    using f64_finite_between [OF le] by (simp_all add: cost_ok_def)
qed

lemma f64_round_negative: "r < 0 \<Longrightarrow> f64_le (f64_round neg r) (Fin 0)"
proof -
  assume r: "r < 0"
  then have "f64_round neg r = (if 2 ^ 1024 \<le> rounded (- r) then Inf True else if rounded (- r) = 0 then NegZero else Fin (- rounded (- r)))"
    unfolding f64_round_def rounded_def quantum_def Let_def by (simp only: abs_of_neg if_True if_False) simp
  then show ?thesis using rounded_nonneg [of "- r"] r unfolding f64_le_def by (simp del: power_numeral)
qed

lemma f64_sub_le:
  assumes "cost_ok k" "cost_ok w" "f64_is_finite w" shows "f64_le (f64_sub k w) k"
proof (rule cost_cases [OF assms(1)])
  assume "k = Inf False"
  then show ?thesis using assms(3) by (cases w) (auto simp: f64_sub_def f64_add_def f64_le_def)
next
  assume k: "f64_is_finite k" "0 \<le> f64_val k"
  have w: "f64_is_finite (f64_neg w)" "f64_val (f64_neg w) = - f64_val w" "0 \<le> f64_val w"
    using assms(2,3) by (cases w; auto elim: cost_cases)+
  then obtain neg where sub: "f64_sub k w = f64_round neg (f64_val k - f64_val w)"
    using k(1) by (simp add: f64_sub_def f64_add_finite)
  have zero: "f64_le (Fin 0) k" using assms(1) by (simp add: cost_ok_def)
  show ?thesis
  proof (cases "f64_val k - f64_val w < 0")
    case True
    then show ?thesis using f64_round_negative [OF True, of neg] zero f64_le_trans sub by metis
  next
    case False
    have "f64_le (f64_round neg (f64_val k - f64_val w)) (f64_round False (f64_val k))"
      using False w(3) by (intro f64_round_le) auto
    moreover have "f64_le (f64_round False (f64_val k)) k"
      using assms(1) k by (cases k) (auto simp: cost_ok_def f64_exact_def f64_le_def f64_round_def split: if_splits)
    ultimately show ?thesis using sub f64_le_trans by metis
  qed
qed

lemma f64_sub_tolerance: "cost_ok k \<Longrightarrow> f64_lt x (f64_sub k tolerance_minutes) \<Longrightarrow> f64_lt x k"
  using f64_sub_le [OF _ tolerance_ok] f64_lt_le_trans by blast

text \<open>The effect of a list of offers; \<open>new\<close> are the accepted ones.\<close>

definition offered ::
  "transit_entry list \<Rightarrow> transit_state \<Rightarrow> transit_entry list \<Rightarrow> transit_state \<Rightarrow> bool" where
  "offered ms = (\<lambda>(d, h) new (d', h'). length d' = length d \<and> h' = h @ new \<and> set new \<subseteq> set ms \<and>
     (\<forall>m \<in> set new. \<forall>t. d ! unat (te_node m) = Some t \<longrightarrow> f64_lt (te_cost m) t) \<and>
     (\<forall>m \<in> set ms. d' ! unat (te_node m) \<noteq> None) \<and>
     (\<forall>m \<in> set new. \<exists>t. d' ! unat (te_node m) = Some t \<and> f64_le t (te_cost m)) \<and>
     (\<forall>x < length d. \<forall>t. d ! x = Some t \<longrightarrow> (\<exists>t'. d' ! x = Some t' \<and> f64_le t' t)) \<and>
     (\<forall>x < length d. d' ! x \<noteq> d ! x \<longrightarrow> (\<exists>m \<in> set new. unat (te_node m) = x \<and> d' ! x = Some (te_cost m))))"

definition times_ok :: "f64 option list \<Rightarrow> bool" where
  "times_ok d \<longleftrightarrow> (\<forall>x < length d. \<forall>t. d ! x = Some t \<longrightarrow> cost_ok t)"

lemma cost_le_refl: "cost_ok c \<Longrightarrow> f64_le c c"
  using cost_not_NaN by (simp add: f64_le_def)

lemma offered_accept:
  assumes new: "offered ms (d[unat (te_node m) := Some (te_cost m)], h @ [m]) new (d', h')"
    and less: "\<And>t. d ! unat (te_node m) = Some t \<Longrightarrow> f64_lt (te_cost m) t"
    and m: "unat (te_node m) < length d" "cost_ok (te_cost m)"
  shows "offered (m # ms) (d, h) (m # new) (d', h')"
proof -
  let ?x = "unat (te_node m)" and ?d = "d[unat (te_node m) := Some (te_cost m)]"
  have old: "length d' = length d" "h' = h @ m # new" "set new \<subseteq> set ms"
    "\<And>e t. e \<in> set new \<Longrightarrow> ?d ! unat (te_node e) = Some t \<Longrightarrow> f64_lt (te_cost e) t"
    "\<And>e. e \<in> set ms \<Longrightarrow> d' ! unat (te_node e) \<noteq> None"
    "\<And>e. e \<in> set new \<Longrightarrow> \<exists>t. d' ! unat (te_node e) = Some t \<and> f64_le t (te_cost e)"
    "\<And>x t. x < length d \<Longrightarrow> ?d ! x = Some t \<Longrightarrow> \<exists>t'. d' ! x = Some t' \<and> f64_le t' t"
    "\<And>x. x < length d \<Longrightarrow> d' ! x \<noteq> ?d ! x \<Longrightarrow> \<exists>e \<in> set new. unat (te_node e) = x \<and> d' ! x = Some (te_cost e)"
    using new by (auto simp: offered_def)
  obtain tm where tm: "d' ! ?x = Some tm" "f64_le tm (te_cost m)" using old(7) [of ?x "te_cost m"] m(1) by auto
  have "f64_lt (te_cost e) t" if e: "e \<in> set (m # new)" "d ! unat (te_node e) = Some t" for e t
  proof (cases "e = m \<or> unat (te_node e) = ?x")
    case True
    then show ?thesis using e old(4) [of e "te_cost m"] less [of t] m(1) f64_lt_imp_le f64_lt_le_trans by fastforce
  next
    case False
    then show ?thesis using e old(4) [of e t] by auto
  qed
  moreover have "\<exists>t'. d' ! x = Some t' \<and> f64_le t' t" if x: "x < length d" "d ! x = Some t" for x t
  proof (cases "x = ?x")
    case True
    then show ?thesis using tm less [of t] x f64_lt_imp_le f64_le_trans by blast
  qed (use old(7) [of x t] x in auto)
  moreover have "\<exists>e \<in> set (m # new). unat (te_node e) = x \<and> d' ! x = Some (te_cost e)"
    if x: "x < length d" "d' ! x \<noteq> d ! x" for x
  proof (cases "d' ! x = ?d ! x")
    case True
    then show ?thesis using x by (cases "x = ?x") auto
  qed (use old(8) [of x] x in auto)
  ultimately show ?thesis using old(1,2,3,5,6) tm unfolding offered_def by auto
qed

lemma offered_all:
  assumes "times_ok d" "\<forall>m \<in> set ms. unat (te_node m) < length d \<and> cost_ok (te_cost m)"
  shows "\<exists>new. offered ms (d, h) new (foldl offer (d, h) ms)"
  using assms
proof (induction ms arbitrary: d h)
  case Nil
  have "f64_le t t" if "x < length d" "d ! x = Some t" for x t
    using Nil.prems(1) that cost_le_refl by (auto simp: times_ok_def)
  then show ?case by (auto simp: offered_def)
next
  case (Cons m ms)
  let ?x = "unat (te_node m)"
  have m: "?x < length d" "cost_ok (te_cost m)" using Cons.prems(2) by auto
  show ?case
  proof (cases "case d ! ?x of None \<Rightarrow> True | Some k \<Rightarrow> f64_lt (te_cost m) (f64_sub k tolerance_minutes)")
    case True
    let ?d = "d[?x := Some (te_cost m)]"
    have step: "offer (d, h) m = (?d, h @ [m])" using True by (simp add: offer_def)
    have less: "f64_lt (te_cost m) t" if "d ! ?x = Some t" for t
      using True that Cons.prems(1) m(1) f64_sub_tolerance by (auto simp: times_ok_def)
    have ok: "times_ok ?d" using Cons.prems(1) m by (auto simp: times_ok_def nth_list_update)
    obtain new d' h' where new: "offered ms (?d, h @ [m]) new (d', h')" "foldl offer (?d, h @ [m]) ms = (d', h')"
      using Cons.IH [OF ok, of "h @ [m]"] Cons.prems(2) by (metis length_list_update list.set_intros(2) surj_pair)
    have "offered (m # ms) (d, h) (m # new) (d', h')"
      using new(1) less m by (rule offered_accept)
    then show ?thesis using step new(2) by auto
  next
    case False
    then have step: "offer (d, h) m = (d, h)" by (simp add: offer_def)
    have known: "d ! ?x \<noteq> None" using False by (cases "d ! ?x") auto
    obtain new d' h' where new: "offered ms (d, h) new (d', h')" "foldl offer (d, h) ms = (d', h')"
      using Cons.IH [of d h] Cons.prems by (metis list.set_intros(2) surj_pair)
    have "offered (m # ms) (d, h) new (d', h')"
      using new(1) known m(1) unfolding offered_def by fastforce
    then show ?thesis using step new(2) by auto
  qed
qed

section \<open>Progress\<close>

text \<open>A node is settled when no queued entry is cheaper than its time. Its time then stays, and the node
  of a least entry is settled, so that a step leaves fewer unsettled nodes or, with the same ones,
  fewer entries of settled nodes.\<close>

definition settled :: "transit_state \<Rightarrow> nat \<Rightarrow> bool" where
  "settled = (\<lambda>(d, h) x. \<exists>t. d ! x = Some t \<and> (\<forall>e \<in> set h. f64_le t (te_cost e)))"

definition open_nodes :: "nat \<Rightarrow> transit_state \<Rightarrow> nat set" where
  "open_nodes n s = {x. x < n \<and> \<not> settled s x}"

definition leftover :: "transit_state \<Rightarrow> nat" where
  "leftover s = length (filter (\<lambda>e. settled s (unat (te_node e))) (snd s))"

lemma transit_progress:
  assumes e: "e \<in> set h" "settled (d, h) (unat (te_node e))"
    and keep: "\<And>x. x < n \<Longrightarrow> settled (d, h) x \<Longrightarrow> settled (d', remove1 e h @ new) x"
    and new: "\<forall>m \<in> set new. unat (te_node m) < n \<and> \<not> settled (d, h) (unat (te_node m))"
    and nodes: "\<forall>m \<in> set h. unat (te_node m) < n"
  shows "((d', remove1 e h @ new), (d, h)) \<in> measures [\<lambda>s. card (open_nodes n s), leftover]"
proof (cases "open_nodes n (d', remove1 e h @ new) = open_nodes n (d, h)")
  case True
  then have same: "settled (d', remove1 e h @ new) x \<longleftrightarrow> settled (d, h) x" if "x < n" for x
    using that by (auto simp: open_nodes_def)
  let ?P = "\<lambda>m. settled (d, h) (unat (te_node m))"
  have "filter (\<lambda>m. settled (d', remove1 e h @ new) (unat (te_node m))) (remove1 e h @ new) = filter ?P (remove1 e h)"
    using new nodes same set_remove1_subset [of e h] by (auto simp: filter_empty_conv intro!: filter_cong)
  then have "leftover (d', remove1 e h @ new) = length (remove1 e (filter ?P h))"
    by (simp add: leftover_def filter_remove1)
  also have "\<dots> < leftover (d, h)"
    using e remove1_shorter [of e "filter ?P h"] by (simp add: leftover_def)
  finally show ?thesis using True by (simp add: measures_lesseq)
next
  case False
  then have "open_nodes n (d', remove1 e h @ new) \<subset> open_nodes n (d, h)"
    using keep by (auto simp: open_nodes_def)
  then have "card (open_nodes n (d', remove1 e h @ new)) < card (open_nodes n (d, h))"
    by (intro psubset_card_mono) (simp_all add: open_nodes_def)
  then show ?thesis by simp
qed

section \<open>The invariant\<close>

definition near :: "transit_graph \<Rightarrow> u32 \<Rightarrow> u32 set" where
  "near tg v = te_node ` set (moves tg \<lparr>te_cost = Fin 0, te_node = v, te_line = None\<rparr>)"

lemma near_moves: "te_node ` set (moves tg e) = near tg (te_node e)"
  by (auto simp: near_def moves_def walk_moves_def ride_moves_def ride_move_def Let_def image_Un image_image case_prod_beta)

definition transit_inv :: "transit_graph \<Rightarrow> u32 \<Rightarrow> transit_state \<Rightarrow> bool" where
  "transit_inv tg origin = (\<lambda>(d, h). length d = node_count (tg_walk tg) \<and> d ! unat origin \<noteq> None \<and>
     (\<forall>e \<in> set h. journey tg origin e) \<and>
     (\<forall>e \<in> set h. \<exists>t. d ! unat (te_node e) = Some t \<and> f64_le t (te_cost e)) \<and>
     (\<forall>x < length d. \<forall>t. d ! x = Some t \<longrightarrow> (\<exists>e. journey tg origin e \<and> unat (te_node e) = x \<and> te_cost e = t)) \<and>
     (\<forall>v t. unat v < length d \<and> d ! unat v = Some t \<longrightarrow>
        (\<forall>u \<in> near tg v. d ! unat u \<noteq> None) \<or> (\<exists>e \<in> set h. te_node e = v \<and> te_cost e = t)))"

lemma transit_invD:
  assumes "transit_inv tg origin (d, h)"
  shows "length d = node_count (tg_walk tg)" "d ! unat origin \<noteq> None"
    and "e \<in> set h \<Longrightarrow> journey tg origin e"
    and "e \<in> set h \<Longrightarrow> \<exists>t. d ! unat (te_node e) = Some t \<and> f64_le t (te_cost e)"
    and "x < length d \<Longrightarrow> d ! x = Some t \<Longrightarrow> \<exists>e. journey tg origin e \<and> unat (te_node e) = x \<and> te_cost e = t"
    and "unat v < length d \<Longrightarrow> d ! unat v = Some t \<Longrightarrow>
      (\<forall>u \<in> near tg v. d ! unat u \<noteq> None) \<or> (\<exists>e \<in> set h. te_node e = v \<and> te_cost e = t)"
  using assms unfolding transit_inv_def by auto

lemma least_settled:
  assumes "transit_inv tg origin (d, h)" "e \<in> set h" "\<forall>m \<in> set h. f64_le (te_cost e) (te_cost m)"
  shows "settled (d, h) (unat (te_node e))"
  using transit_invD(4) [OF assms(1,2)] assms(3) f64_le_trans unfolding settled_def by fastforce

lemma transit_skip:
  assumes inv: "transit_inv tg origin (d, h)" and g: "ridable tg" "unat origin < node_count (tg_walk tg)"
    and e: "e \<in> set h" "outdated d e"
  shows "transit_inv tg origin (d, remove1 e h)"
proof -
  note I = transit_invD [OF inv]
  have rest: "m \<in> set h" if "m \<in> set (remove1 e h)" for m using that set_remove1_subset [of e h] by blast
  have "(\<forall>u \<in> near tg v. d ! unat u \<noteq> None) \<or> (\<exists>m \<in> set (remove1 e h). te_node m = v \<and> te_cost m = t)"
    if v: "unat v < length d" "d ! unat v = Some t" for v t
  proof -
    have "cost_ok t" using I(5) [OF v] journey_ok [OF g] by auto
    then have "\<not> f64_lt (f64_add t tolerance_minutes) t" using f64_le_add tolerance_ok(1) f64_lt_asym by blast
    then have "m \<noteq> e" if "te_node m = v" "te_cost m = t" for m
      using e(2) v(2) that by (auto simp: outdated_def)
    then show ?thesis using I(6) [OF v] in_set_remove1 by metis
  qed
  then show ?thesis using I(1-5) rest unfolding transit_inv_def by simp
qed

lemma offeredD:
  assumes "offered ms (d, h) new (d', h')"
  shows "length d' = length d" "h' = h @ new" "set new \<subseteq> set ms"
    and "m \<in> set new \<Longrightarrow> d ! unat (te_node m) = Some t \<Longrightarrow> f64_lt (te_cost m) t"
    and "m \<in> set ms \<Longrightarrow> d' ! unat (te_node m) \<noteq> None"
    and "m \<in> set new \<Longrightarrow> \<exists>t. d' ! unat (te_node m) = Some t \<and> f64_le t (te_cost m)"
    and "x < length d \<Longrightarrow> d ! x = Some t \<Longrightarrow> \<exists>t'. d' ! x = Some t' \<and> f64_le t' t"
    and "x < length d \<Longrightarrow> d' ! x \<noteq> d ! x \<Longrightarrow> \<exists>m \<in> set new. unat (te_node m) = x \<and> d' ! x = Some (te_cost m)"
  using assms unfolding offered_def by auto

lemma transit_expand:
  assumes inv: "transit_inv tg origin (d, h)" and g: "ridable tg" "unat origin < node_count (tg_walk tg)"
    and e: "e \<in> set h" and off: "offered (moves tg e) (d, remove1 e h) new (d', h')"
  shows "transit_inv tg origin (d', h')"
proof -
  note I = transit_invD [OF inv] and F = offeredD [OF off]
  have jnew: "journey tg origin m" if "m \<in> set new" for m
    using journey_moves [OF I(3) [OF e]] that F(3) by blast
  have entry: "journey tg origin m \<and> (\<exists>t. d' ! unat (te_node m) = Some t \<and> f64_le t (te_cost m))"
    if "m \<in> set h'" for m
  proof (cases "m \<in> set new")
    case True
    then show ?thesis using jnew F(6) by blast
  next
    case False
    then have m: "m \<in> set h" using that F(2) set_remove1_subset [of e h] by auto
    then obtain t where t: "d ! unat (te_node m) = Some t" "f64_le t (te_cost m)" using I(4) by blast
    have "unat (te_node m) < length d" using journey_ok [OF g I(3) [OF m]] I(1) by simp
    then show ?thesis using F(7) [OF _ t(1)] t(2) f64_le_trans I(3) [OF m] by blast
  qed
  have time: "\<exists>m. journey tg origin m \<and> unat (te_node m) = x \<and> te_cost m = t" if x: "x < length d" "d' ! x = Some t" for x t
    using F(8) [OF x(1)] I(5) [OF x(1), of t] jnew x(2) by (cases "d' ! x = d ! x") force+
  have known: "d' ! x \<noteq> None" if "x < length d" "d ! x \<noteq> None" for x
    using that F(7) [of x] by auto
  have inside: "unat u < length d" if "unat v < length d" "u \<in> near tg v" for u v
    using moves_ok [OF g(1), of "\<lparr>te_cost = Fin 0, te_node = v, te_line = None\<rparr>"] that I(1) by (auto simp: near_def)
  have closed: "(\<forall>u \<in> near tg v. d' ! unat u \<noteq> None) \<or> (\<exists>m \<in> set h'. te_node m = v \<and> te_cost m = t)"
    if v: "unat v < length d" "d' ! unat v = Some t" for v t
  proof -
    consider "d' ! unat v \<noteq> d ! unat v" | "te_node e = v"
      | m where "d ! unat v = Some t" "te_node e \<noteq> v" "m \<in> set h" "te_node m = v" "te_cost m = t"
      | "\<forall>u \<in> near tg v. d ! unat u \<noteq> None"
      using I(6) [OF v(1), of t] v(2) by metis
    then show ?thesis
    proof cases
      case 1
      then show ?thesis using F(8) [OF v(1)] v(2) F(2) by (auto simp: word_unat_eq_iff)
    next
      case 2
      then have "near tg v = te_node ` set (moves tg e)" using near_moves by simp
      then show ?thesis using F(5) by auto
    next
      case 3
      then have "m \<in> set (remove1 e h)" by (metis in_set_remove1)
      then show ?thesis using 3 F(2) by auto
    next
      case 4
      then show ?thesis using known inside [OF v(1)] by blast
    qed
  qed
  have "d' ! unat origin \<noteq> None" using known [of "unat origin"] I(1,2) g(2) by simp
  then show ?thesis unfolding transit_inv_def using I(1) F(1) entry time closed by auto
qed

lemma transit_choice_least:
  assumes "transit_choice pick" "h \<noteq> []" "\<And>e. e \<in> set h \<Longrightarrow> cost_ok (te_cost e)"
  shows "pick h \<in> set h" "e \<in> set h \<Longrightarrow> f64_le (te_cost (pick h)) (te_cost e)"
proof -
  show p: "pick h \<in> set h" using assms cost_not_NaN by (simp add: transit_choice_def)
  assume e: "e \<in> set h"
  have "transit_cmp e (pick h) \<noteq> Greater" using assms e cost_not_NaN by (simp add: transit_choice_def)
  then have "\<not> f64_lt (te_cost e) (te_cost (pick h))"
    using f64_lt_asym f64_lt_imp_le
    by (auto simp: transit_cmp_def f64_partial_cmp_def f64_eq_def split: if_splits)
  then show "f64_le (te_cost (pick h)) (te_cost e)"
    using assms(3) p e cost_not_NaN by (simp add: f64_not_lt)
qed

lemma transit_step_inv:
  assumes g: "ridable tg" "unat origin < node_count (tg_walk tg)" and pick: "transit_choice pick"
    and inv: "transit_inv tg origin (d, h)" and h: "h \<noteq> []"
  shows "transit_inv tg origin (transit_step pick tg (d, h)) \<and>
    (transit_step pick tg (d, h), (d, h)) \<in> measures [\<lambda>s. card (open_nodes (node_count (tg_walk tg)) s), leftover]"
proof -
  note I = transit_invD [OF inv]
  have ok: "unat (te_node m) < node_count (tg_walk tg) \<and> cost_ok (te_cost m)" if "m \<in> set h" for m
    using journey_ok [OF g I(3) [OF that]] .
  let ?e = "pick h"
  have e: "?e \<in> set h" and least: "\<forall>m \<in> set h. f64_le (te_cost ?e) (te_cost m)"
    using transit_choice_least [OF pick h] ok by auto
  have nodes: "\<forall>m \<in> set h. unat (te_node m) < node_count (tg_walk tg)" using ok by blast
  note settled = least_settled [OF inv e least]
  show ?thesis
  proof (cases "outdated d ?e")
    case True
    have "settled (d, remove1 ?e h) x" if "settled (d, h) x" for x
      using that set_remove1_subset [of ?e h] unfolding settled_def by blast
    then have "((d, remove1 ?e h @ []), (d, h)) \<in> measures [\<lambda>s. card (open_nodes (node_count (tg_walk tg)) s), leftover]"
      using e settled nodes by (intro transit_progress) auto
    then show ?thesis using transit_skip [OF inv g e True] True by (simp add: transit_step_def Let_def)
  next
    case False
    have mv: "\<forall>m \<in> set (moves tg ?e). unat (te_node m) < length d \<and> cost_ok (te_cost m)"
      and up: "\<forall>m \<in> set (moves tg ?e). f64_le (te_cost ?e) (te_cost m)"
      using moves_ok [OF g(1)] ok [OF e] I(1) by auto
    have "times_ok d" using I(5) journey_ok [OF g] by (fastforce simp: times_ok_def)
    then obtain new where "offered (moves tg ?e) (d, remove1 ?e h) new (foldl offer (d, remove1 ?e h) (moves tg ?e))"
      using offered_all [OF _ mv] by blast
    then obtain d' where off: "offered (moves tg ?e) (d, remove1 ?e h) new (d', remove1 ?e h @ new)"
      and st: "transit_step pick tg (d, h) = (d', remove1 ?e h @ new)"
      using False by (auto simp: transit_step_def moves_def Let_def offered_def split: prod.splits)
    note F = offeredD [OF off]
    have cheap: "f64_le t (te_cost m)" if "m \<in> set new" "\<forall>m \<in> set h. f64_le t (te_cost m)" for m t
      using that e up F(3) f64_le_trans by blast
    have fresh: "\<not> settled (d, h) (unat (te_node m))" if "m \<in> set new" for m
      using F(4) [OF that] cheap [OF that] f64_lt_asym unfolding settled_def by blast
    have keep: "settled (d', remove1 ?e h @ new) x" if x: "x < node_count (tg_walk tg)" "settled (d, h) x" for x
    proof -
      obtain t where t: "d ! x = Some t" "\<forall>m \<in> set h. f64_le t (te_cost m)" using x(2) by (auto simp: settled_def)
      have "d' ! x = d ! x" using F(8) [of x] fresh x I(1) by auto
      then show ?thesis using t cheap set_remove1_subset [of ?e h] unfolding settled_def by auto
    qed
    have "((d', remove1 ?e h @ new), (d, h)) \<in> measures [\<lambda>s. card (open_nodes (node_count (tg_walk tg)) s), leftover]"
      using e settled keep fresh mv F(3) I(1) nodes by (intro transit_progress) auto
    then show ?thesis using transit_expand [OF inv g e off] st by simp
  qed
qed

section \<open>Times are those of journeys\<close>

lemma transit_inv_final:
  assumes "transit_inv tg origin (d, [])" "ridable tg" "unat origin < node_count (tg_walk tg)" "journey tg origin e"
  shows "d ! unat (te_node e) \<noteq> None"
  using assms(4)
proof induction
  case journey_start
  then show ?case using transit_invD(2) [OF assms(1)] by simp
next
  case (journey_walk e m)
  then show ?case
    using transit_invD(1,6) [OF assms(1)] journey_ok [OF assms(2,3) journey_walk.hyps(1)] near_moves [of tg e]
    by (fastforce simp: moves_def)
next
  case (journey_ride e m)
  then show ?case
    using transit_invD(1,6) [OF assms(1)] journey_ok [OF assms(2,3) journey_ride.hyps(1)] near_moves [of tg e]
    by (fastforce simp: moves_def)
qed

lemma ridable_new:
  assumes "transit_new walk stops rides penalty = Ok tg" "walkable walk" "f64_exact penalty"
    and "\<forall>r \<in> set rides. f64_exact (re_ride_minutes r) \<and> f64_exact (re_wait_minutes r)"
  shows "ridable tg \<and> tg_walk tg = walk"
proof -
  have "f64_le (Fin 0) x" if "\<not> f64_lt x (Fin 0)" "f64_is_finite x" for x
    using that by (cases x) (auto simp: f64_lt_def f64_le_def)
  then show ?thesis using assms
    by (auto simp: transit_new_def check_ride_def try_for_eq_Ok_iff ridable_def cost_ok_def list_all_iff result_simps reject_eq_Ok_iff not_le)
qed


definition as_queued :: "transit_entry \<Rightarrow> queue_entry" where
  "as_queued e = \<lparr>qe_cost = te_cost e, qe_node = te_node e\<rparr>"

definition first_ready :: "transit_entry list \<Rightarrow> transit_entry" where
  "first_ready h = foldl (\<lambda>m e. if transit_cmp e m = Greater then e else m) (hd h) (tl h)"

lemma transit_cmp_queued: "transit_cmp a b = entry_cmp (as_queued a) (as_queued b)"
  by (simp only: transit_cmp_def entry_cmp_def as_queued_def queue_entry.simps)

lemma transit_choice_first_ready: "transit_choice first_ready"
proof -
  let ?up = "\<lambda>m e. if transit_cmp e m = Greater then e else m"
  have mem: "foldl ?up m h \<in> set (m # h)" for m h
    by (induction h arbitrary: m) (auto split: if_splits)
  have proj: "as_queued (foldl ?up m h) =
      foldl (\<lambda>m e. if entry_cmp e m = Greater then e else m) (as_queued m) (map as_queued h)" for m h
    by (induction h arbitrary: m) (simp_all add: transit_cmp_queued)
  show ?thesis unfolding transit_choice_def
  proof (intro allI impI)
    fix h :: "transit_entry list" assume h: "h \<noteq> [] \<and> (\<forall>e \<in> set h. te_cost e \<noteq> NaN)"
    have "as_queued (first_ready h) = first_greatest (map as_queued h)"
      using h by (simp add: first_ready_def first_greatest_def proj hd_map map_tl)
    moreover have "\<forall>e \<in> set (map as_queued h). entry_cmp e (first_greatest (map as_queued h)) \<noteq> Greater"
      using heap_choice_first_greatest h unfolding heap_choice_def by (simp add: as_queued_def)
    ultimately show "first_ready h \<in> set h \<and> (\<forall>e \<in> set h. transit_cmp e (first_ready h) \<noteq> Greater)"
      using mem [of "hd h" "tl h"] h by (simp add: first_ready_def transit_cmp_queued)
  qed
qed

definition demo_rides :: "ride_edge list" where
  "demo_rides =
     [\<lparr>re_from_walk_node = 0, re_to_walk_node = 1, re_line = ''L'', re_ride_minutes = Fin 5, re_wait_minutes = Fin 5\<rparr>,
      \<lparr>re_from_walk_node = 1, re_to_walk_node = 2, re_line = ''L'', re_ride_minutes = Fin 1, re_wait_minutes = Fin 5\<rparr>]"

definition demo_streets :: walk_graph where
  "demo_streets = \<lparr>wg_nodes = [(Fin 0, Fin 0), (Fin 1, Fin 0), (Fin 2, Fin 0)],
     wg_adjacency = [[(1, Fin 9)], [(0, Fin 9)], []],
     wg_edge_count = 1, wg_total_length_m = Fin 720, wg_walk_speed_m_per_min = Fin 80\<rparr>"

definition demo_transit :: transit_graph where
  "demo_transit = \<lparr>tg_walk = demo_streets, tg_stops = [], tg_rides = demo_rides, tg_transfer_penalty_minutes = Fin 3\<rparr>"

lemma demo_transit_accepted: "transit_new demo_streets [] demo_rides (Fin 3) = Ok demo_transit"
  by (simp add: transit_new_def demo_rides_def check_ride_def demo_streets_def node_count_def demo_transit_def
      f64_lt_def f64_le_def reject_def)

lemma walkable_streets: "walkable demo_streets"
  by (simp add: walkable_def node_count_def demo_streets_def cost_ok_numeral)


text \<open>The times are not always the least. Walking to the first stop takes 9 minutes and riding there 10,
  so the ride is dropped; from there the same line has to be boarded again, and the last stop gets 15
  minutes, although staying on board takes 11.\<close>

lemma offer_simps:
  "d ! unat (te_node e) = None \<Longrightarrow> offer (d, h) e = (d[unat (te_node e) := Some (te_cost e)], h @ [e])"
  "d ! unat (te_node e) = Some k \<Longrightarrow> cost_ok k \<Longrightarrow> \<not> f64_lt (te_cost e) k \<Longrightarrow> offer (d, h) e = (d, h)"
  using f64_sub_tolerance by (auto simp: offer_def)

lemma transit_step_fresh:
  assumes "d ! unat (te_node e) = Some (te_cost e)" "cost_ok (te_cost e)"
  shows "transit_step first_ready tg (d, [e]) = foldl offer (d, []) (walk_moves tg e @ ride_moves tg e)"
proof -
  have "\<not> outdated d e"
    using assms f64_le_add [OF assms(2) tolerance_ok(1)] f64_lt_asym by (auto simp: outdated_def)
  then show ?thesis by (simp add: transit_step_def first_ready_def Let_def)
qed

lemmas demo_moves = walk_moves_def ride_moves_def rides_at_def ride_move_def demo_transit_def demo_rides_def
  demo_streets_def adjacent_def Let_def f64_add_def

lemma demo_steps:
  "transit_step first_ready demo_transit ([Some (Fin 0), None, None], [\<lparr>te_cost = Fin 0, te_node = 0, te_line = None\<rparr>]) =
     ([Some (Fin 0), Some (Fin 9), None], [\<lparr>te_cost = Fin 9, te_node = 1, te_line = None\<rparr>])"
  "transit_step first_ready demo_transit ([Some (Fin 0), Some (Fin 9), None], [\<lparr>te_cost = Fin 9, te_node = 1, te_line = None\<rparr>]) =
     ([Some (Fin 0), Some (Fin 9), Some (Fin 15)], [\<lparr>te_cost = Fin 15, te_node = 2, te_line = Some ''L''\<rparr>])"
  "transit_step first_ready demo_transit ([Some (Fin 0), Some (Fin 9), Some (Fin 15)], [\<lparr>te_cost = Fin 15, te_node = 2, te_line = Some ''L''\<rparr>]) =
     ([Some (Fin 0), Some (Fin 9), Some (Fin 15)], [])"
  by (simp_all add: transit_step_fresh cost_ok_numeral demo_moves offer_simps f64_lt_def)

lemma transit_times_not_least:
  "transit_times_from first_ready demo_transit 0 = Some (Ok [Some (Fin 0), Some (Fin 9), Some (Fin 15)])"
proof -
  have "node_count (tg_walk demo_transit) = 3" by (simp add: node_count_def demo_transit_def demo_streets_def)
  then show ?thesis
    by (simp add: transit_times_from_def numeral_3_eq_3 while_option_unfold demo_steps)
qed

lemma transit_faster_journey:
  "journey demo_transit 0 \<lparr>te_cost = Fin 11, te_node = 2, te_line = Some ''L''\<rparr>"
proof -
  have "journey demo_transit 0 \<lparr>te_cost = Fin 10, te_node = 1, te_line = Some ''L''\<rparr>"
    by (rule journey_ride [OF journey_start])
      (simp add: ride_moves_def rides_at_def demo_transit_def demo_rides_def ride_move_def Let_def f64_add_def)
  then show ?thesis
    by (rule journey_ride)
      (simp add: ride_moves_def rides_at_def demo_transit_def demo_rides_def ride_move_def Let_def f64_add_def)
qed

end
