(* ===== verification/Spec2Isabelle.thy ===== *)
theory Spec2Isabelle
  imports Digest Edit Command_Replay Incremental Composer_Valid Pmtiles_Valid
    Verification_Graph Governance_Valid Deployment Expr_Print Expr_Eval Walk_Read Isochrone Transit
begin

text \<open>
  \<^bold>\<open>GeneGIS: a verification library of its trust core.\<close>

  GeneGIS turns a request into a typed workflow graph, executes it through commands on a project and
  returns maps with their provenance. What makes its answers trustworthy is a small core of the Rust
  workspace, and that core is modelled here: the reference systems and source identities
  (\<open>crates/genegis-crs\<close>), the semantic contracts of data (\<open>crates/genegis-contract/src/lib.rs\<close>), the
  workflow graph with its validator, stable digest and reviewed templates
  (\<open>crates/genegis-workflow/src/step.rs\<close>, \<open>graph.rs\<close>, \<open>review.rs\<close>), the no-code composer of workflow drafts
  (\<open>composer.rs\<close>), the revisioned feature editor (\<open>crates/genegis-core/src/edit.rs\<close>), the
  project state (\<open>layer.rs\<close>, \<open>source.rs\<close>, \<open>view.rs\<close>, \<open>workspace.rs\<close>, \<open>project.rs\<close>), map styles
  (\<open>crates/genegis-style/src/evidence.rs\<close>), the command bus with its log and replay (\<open>command.rs\<close>), and
  the incremental scheduler (\<open>incremental.rs\<close>). Beside it stand the parts that deliver evidence about bytes:
  asset access under a network policy and read receipts (\<open>crates/genegis-storage\<close>) and PMTiles archives
  (\<open>crates/genegis-tile/src/pmtiles.rs\<close>); the parts that judge evidence: source assurance, trust
  policies and verification graphs (\<open>source_assurance.rs\<close>, \<open>policy.rs\<close>, \<open>verification.rs\<close> of
  \<open>genegis-contract\<close>), the governance of an organisation (\<open>crates/genegis-collab/src/governance.rs\<close>) and
  deployment and performance records (\<open>deployment.rs\<close>, \<open>performance.rs\<close> of \<open>genegis-core\<close>); and two
  engines whose results reach maps and reports: attribute expressions (\<open>crates/genegis-toolkit/src/expr.rs\<close>)
  and routing over street and transit networks (\<open>crates/genegis-network\<close>).

  \<^bold>\<open>How the parts interact.\<close> A contract names reference systems; a workflow carries contracts on its
  inputs and ports; a workflow is accepted only by the validator and identified by its stable digest. A
  command envelope carries that digest; the command bus refuses a mutation or a run whose digest is not
  that of a registered, valid graph, applies the others to the project through the editor and the style
  validator, and records snapshots, an audit log and provenance. The log is persisted with its own digest
  and replayed. The incremental scheduler recomputes the part of a valid workflow that a changed input
  reaches. The composer edits drafts that start from a template and admits them to execution through the
  same validator and digest. The archive reader fetches byte ranges through the storage crate, local or
  remote, and its request evidence goes into receipts that are checked against budgets. A trust
  assessment combines replay, contract and source evidence, each source with its assurance report,
  against a policy, and a verification graph is bound to such a policy. Governance guards actions by
  capabilities and approvals and logs each of them in a chain of digests. Isochrones and transit routing
  extend the walk network.

  \<^bold>\<open>Theories.\<close>
  \<^item> \<open>Prelude\<close>: machine integers, strings as UTF-8 bytes, results and early returns (\<open>and_then\<close>,
    \<open>try_for\<close>, \<open>try_fold\<close> with the collection \<open>result_simps\<close>), decimal printing and parsing.
  \<^item> \<open>Ordered\<close>: \<open>BTreeMap\<close> and \<open>BTreeSet\<close> as ordered entry lists; the locale \<open>ordered_map\<close> states what
    clients use, and the entry lists interpret it.
  \<^item> \<open>F64\<close>: binary64 numbers with rounding to nearest even, NaN, infinities and signed zero.
  \<^item> \<open>Json\<close>: JSON values, canonical text, removal of fields, digests.
  \<^item> \<open>Crs\<close>: \<open>Crs\<close>, its registry (UTM zones included), parsing and printing, coordinate checks, and source
    metadata with checksum verification.
  \<^item> \<open>Contract\<close>, \<open>Contract_Json\<close>: contract records, validation, the compatibility report, and the
    serialised form.
  \<^item> \<open>Kahn\<close>: the graph loops of the validator (topological sort, reachability, connected components)
    over a locale \<open>dependency_graph\<close> of adjacency tables and indegrees.
  \<^item> \<open>Step\<close>, \<open>Workflow\<close>, \<open>Workflow_Valid\<close>: steps and graphs, each phase of \<open>topological_order\<close>, and the
    declarative specification \<open>valid_workflow\<close> that \<open>validate\<close> is proved to decide; the graph that the
    validator builds interprets \<open>dependency_graph\<close>.
  \<^item> \<open>Digest\<close>: the canonical document of a workflow, what its digest ignores and what it does not.
  \<^item> \<open>Templates\<close>, \<open>Template_Valid\<close>: the thirty-four template functions of \<open>graph.rs\<close>, and which of them
    validate; the proof evaluates a check of wiring that is shown to imply the specification.
  \<^item> \<open>History\<close>: the locale \<open>undo_history\<close>, an abstract zipper with do, undo and redo; the command bus and the
    composer interpret it.
  \<^item> \<open>Composer\<close>, \<open>Composer_Valid\<close>: the palette, the typed edits with their undo and redo stacks and events,
    and when a draft stays executable.
  \<^item> \<open>Edit\<close>: schemas, geometry checks and the six edits with optimistic concurrency.
  \<^item> \<open>Style\<close>: validation of styles and the classification of values.
  \<^item> \<open>Project\<close>: the workspace records with their operations, the serialised project and its state digest.
  \<^item> \<open>Command\<close>: envelopes, the bus record, authorisation, the project mutation, undo and redo.
  \<^item> \<open>Command_Bus\<close>: sessions as an inductive relation, their invariants, the refinement of the undo
    history, authorisation and absence of panics.
  \<^item> \<open>Command_Log\<close>, \<open>Command_Replay\<close>: persistence, loading, replay, and the proof that a recorded
    session replays to its state.
  \<^item> \<open>Incremental\<close>: the affected-node plan, the retry loop, and what a run commits.
  \<^item> \<open>Bytes\<close>: little-endian and base-128 integers over words; the locale \<open>cursor_codec\<close> states what reading at
    a cursor promises and proves loops over such codecs once.
  \<^item> \<open>Ip_Addr\<close>: the texts of IPv4 and IPv6 addresses as the standard library reads them, and which of them
    are loopback addresses.
  \<^item> \<open>Storage\<close>, \<open>Io_Receipt\<close>: byte ranges, the remote access policy, the HTTP and asset operations, receipts
    and the budget check. An HTTP operation is a program of requests (\<open>exchange\<close>) that a network runs
    (\<open>run_exchange\<close>) and whose requests are observed in order (\<open>sent\<close>).
  \<^item> \<open>Tile_Id\<close>, \<open>Pmtiles\<close>: Hilbert identifiers of tiles over 32- and 64-bit words with the curve as reference,
    and the archive header, directory, reader and writer.
  \<^item> \<open>Pmtiles_Directory\<close>, \<open>Pmtiles_Archive\<close>, \<open>Pmtiles_Valid\<close>: the directory round trip, the archive round trip
    and the evidence of reads.
  \<^item> \<open>Source_Assurance\<close>, \<open>Trust\<close>, \<open>Verification_Graph\<close>: dossiers of sources, trust levels, and graphs of
    claims; the graph of claims runs the loop of \<open>Kahn\<close>.
  \<^item> \<open>Governance\<close>, \<open>Governance_Valid\<close>: members, approvals, the audit log, retention and export; reachable
    states as an inductive relation and their invariants.
  \<^item> \<open>Deployment\<close>: deployment profiles and the performance gate.
  \<^item> \<open>Expr\<close>, \<open>Expr_Valid\<close>, \<open>Expr_Print\<close>, \<open>Expr_Eval\<close>: tokens, the recursive-descent parser, its depth bound,
    a printer that it inverts, and evaluation.
  \<^item> \<open>F64_More\<close>: rounding is monotone and exact on representable values, so that adding a cost that is not
    negative is monotone; comparisons and casts.
  \<^item> \<open>Walk_Network\<close>, \<open>Walk_Valid\<close>, \<open>Walk_Read\<close>: reading a network, snapping, Dijkstra's loop and its
    correctness in binary64 arithmetic, hazard factors.
  \<^item> \<open>Convex_Hull\<close>: the monotone chain on points; where the floating-point turn test agrees with the exact
    turn, which small integer coordinates guarantee, the ring encloses every point.
  \<^item> \<open>Isochrone\<close>, \<open>Transit\<close>: hulls around the nodes within reach, and multimodal travel times.

  \<^bold>\<open>Conventions.\<close> A Rust \<open>Result\<close> is a sum with the error on the left; operations on \<open>&mut\<close> state return
  the state on every path, errors included, except where the source assigns only after its last check.
  A panic of \<open>expect\<close>, \<open>unreachable!\<close> or an index is a constructor of the error type and is proved
  unreachable; unchecked arithmetic wraps, as in a build without overflow checks. \<open>u64\<close>, \<open>u32\<close> and UUIDs are words; \<open>usize\<close> indices are naturals. An error text that prints a
  value carries the value. Instants are integers; a clock reading or a fresh UUID is an argument.
  Third-party code is a parameter: scalar JSON text and SHA-256 (\<open>hashing\<close>), the texts of UUIDs and
  instants (\<open>host\<close>), the \<open>serde\<close> codec of a log (\<open>codec\<close>), RFC 3339 parsing and compact JSON
  (\<open>inc_host\<close>), the workflow and node executors, the URL parser and HTTP client (\<open>network\<close>), of which the policy theorem
  assumes that a host with a colon comes in brackets (\<open>bracketed_hosts\<close>), and the gzip coder (\<open>gzip_codec\<close>), of which the archive theorems assume only that decoding inverts encoding; digests
  and time parsing of the governance log (\<open>governance_env\<close>), case tables, square roots and texts of JSON
  values in expressions (\<open>library\<close>), cosine and square root of the network code (\<open>geometry_math\<close>), and the
  entry that \<open>BinaryHeap::pop\<close> returns, assumed to be a greatest one (\<open>heap_choice\<close>, \<open>transit_choice\<close>).

  \<^bold>\<open>Termination.\<close> Loops over collections are structural. The work lists (Kahn's loop, reachability,
  the closure and ordering of the incremental plan) are functions with termination proofs: each round
  shortens the queue or enlarges a set bounded by the nodes. The bit loops of the tile code (base-128
  integers, the Hilbert loop) shrink a word in each round. The expression parser is mutually recursive
  through parentheses and carries a depth bound, the number of tokens; it is proved that the bound is
  never used up and that any larger one gives the same result. The two routing loops are
  \<open>while_option\<close> and are proved to end when costs are not negative: a step settles a node or
  shortens the queue.

  \<^bold>\<open>What is shown.\<close> Validation decides a declarative specification, and accepted orders respect all
  dependencies. The digest ignores runtime identifiers, the order of the steps of a valid graph with
  declared dependencies and citation retrieval times, but depends on retrieval instants where contracts are sorted before they are stripped. Compatibility of
  contracts is a preorder on validated contracts, up to which they state the same, and a validated
  requirement is met by known values only. Edits keep layers well formed,
  cannot lose updates and touch only what they report. A failed command changes nothing; accepted
  layer initialisations, feature edits and style changes and accepted runs are authorised; sessions refine a linear undo history, keep projects well formed and leave
  one provenance entry per active command; a recorded session survives persistence and replay. Plans
  are exactly the transitive consumers of a changed input in dependency order, runs commit a prefix of
  the plan, and retries complete when the executor succeeds for each node within the granted retries. Reviewed templates validate, or
  validate exactly under a stated condition on the source they are bound to. Composer commands form an
  undo history, and events carry a digest exactly when the draft is executable. Tile identifiers are
  unique and fill each zoom level; a written archive gives back exactly its tiles, when the directory and
  payloads are within the limits of the reader; the policy admits exactly the stated URLs, and no request leaves for any other; receipts
  of tile reads have consistent evidence and the budget check is exact. Assurance reports, trust levels
  and the validation of verification graphs are exact against declarative conditions. Audit logs of
  reachable governance states verify, the last digest of a verified log determines the log unless digests
  of its events collide, every positive decision is justified and recorded, approvals obey the four-eyes rule. Parsing
  inverts printing of expressions, the fields of an expression determine its value. Travel times on foot
  are the least floating-point costs over all routes for every tie-breaking of the heap; multimodal times
  are attained by journeys, though not always the least; isochrones exist, are spanned by nodes within
  reach and enclose them. Some theorems state behaviour
  that contradicts the documentation; the manifest lists them as findings.

  \<^bold>\<open>Not modelled.\<close> Rendering (SVG pages of \<open>evidence.rs\<close>, GPU and canvas), numeric analyses, file
  formats and spatial operations over third-party crates, catalogs, agents and language models, plugins,
  capsules, the command line, servers and applications; the vector-tile writer of \<open>mvt.rs\<close>, whose
  projection is transcendental; documents, comments and sessions of \<open>genegis-collab\<close>, whose merges are those of
  the Automerge crate; the rest of the toolkit, which reads files and calls geometry crates.
\<close>

end
